(* ===== verification/Prelude.thy ===== *)
theory Prelude
  imports Main "HOL-Library.Word" "HOL-Library.AList" "HOL-Library.List_Lexorder"
    "HOL-Library.Char_ord" "HOL-Library.Sublist"
begin

text \<open>
  Shared vocabulary of the Yvonne KMS development: bytes and byte slices, Go errors as
  values (with the wrapping of \<^verbatim>\<open>fmt.Errorf("...: %w", err)\<close> and the search of
  \<^verbatim>\<open>errors.Is\<close>), Go's wall clock and 64-bit durations, decimal printing as
  \<^verbatim>\<open>fmt.Sprintf("%d")\<close> does it, prefix tests on strings, and the generic lemmas on
  lists, association lists and words that the component theories share.
\<close>

unbundle bit_operations_syntax

section \<open>Bytes, strings and numbers\<close>

type_synonym byte = "8 word"
type_synonym bytes = "byte list"

text \<open>
  Times are nanoseconds counted from Go's zero time (year 1), so that
  \<^verbatim>\<open>t.IsZero()\<close> is \<open>t = 0\<close>. Durations are nanoseconds too; a product of durations is a
  product of Go \<open>int64\<close> values and wraps around, which \<open>wrap64\<close> writes out.
\<close>

type_synonym time = int
type_synonym duration = int

definition wrap64 :: "int \<Rightarrow> int" where
  "wrap64 i = sint (word_of_int i :: 64 word)"

abbreviation second :: duration where "second \<equiv> 1000000000"
abbreviation minute :: duration where "minute \<equiv> 60 * second"
abbreviation hour :: duration where "hour \<equiv> 60 * minute"

definition isZero :: "time \<Rightarrow> bool" where
  "isZero t \<longleftrightarrow> t = 0"

lemma wrap64_id: "- (2 ^ 63) \<le> i \<Longrightarrow> i < 2 ^ 63 \<Longrightarrow> wrap64 i = i"
  by (simp add: wrap64_def signed_of_int signed_take_bit_int_eq_self)

section \<open>Errors as values\<close>

text \<open>
  Sentinel errors of the packages are constructors of their own, so that \<open>errors_is\<close> can
  look for them under any number of wrappers; \<open>Msg\<close> is \<^verbatim>\<open>errors.New\<close> or a
  \<^verbatim>\<open>fmt.Errorf\<close> without \<^verbatim>\<open>%w\<close>; \<open>Wrap\<close> is \<^verbatim>\<open>fmt.Errorf\<close> with
  \<^verbatim>\<open>%w\<close>. Messages carry the constant text of the format, not its arguments.
  \<open>Panic\<close> is a Go panic.
\<close>

datatype err =
    ErrNotFound | ErrDegraded
  | ErrQuotaExceeded | ErrKeyDestroyed
  | ErrInvalidShareFormat | ErrInvalidParam | ErrZeroInverse
  | ErrCiphertextTooShort | ErrKeyRequired
  | ErrUnauthorized | ErrTOTPInvalid | ErrTOTPAlreadyUsed
  | ErrApprovalNotFound | ErrCircuitOpen
  | Msg string | Wrap string err | Panic string

type_synonym 'a res = "err + 'a"

fun errors_is :: "err \<Rightarrow> err \<Rightarrow> bool" where
  "errors_is (Wrap m e) target = (Wrap m e = target \<or> errors_is e target)"
| "errors_is e target = (e = target)"

lemma errors_is_refl [simp]: "errors_is e e"
  by (cases e) simp_all

lemma errors_is_Wrap [simp]: "errors_is (Wrap m e) ErrNotFound = errors_is e ErrNotFound"
  by simp

text \<open>The early return of \<^verbatim>\<open>if err != nil { return err }\<close>, with the wrapping the
  caller adds.\<close>

definition bindR :: "'a res \<Rightarrow> ('a \<Rightarrow> 'b res) \<Rightarrow> 'b res" where
  "bindR r f = (case r of Inl e \<Rightarrow> Inl e | Inr x \<Rightarrow> f x)"

definition wrapR :: "string \<Rightarrow> 'a res \<Rightarrow> 'a res" where
  "wrapR m r = (case r of Inl e \<Rightarrow> Inl (Wrap m e) | Inr x \<Rightarrow> Inr x)"

lemma bindR_simps [simp]: "bindR (Inl e) f = Inl e" "bindR (Inr x) f = f x"
  by (simp_all add: bindR_def)

lemma wrapR_simps [simp]: "wrapR m (Inl e) = Inl (Wrap m e)" "wrapR m (Inr x) = Inr x"
  by (simp_all add: wrapR_def)

lemma bindR_eq_Inr: "bindR r f = Inr y \<longleftrightarrow> (\<exists>x. r = Inr x \<and> f x = Inr y)"
  by (cases r) simp_all

lemma wrapR_eq_Inr [simp]: "wrapR m r = Inr y \<longleftrightarrow> r = Inr y"
  by (cases r) simp_all

section \<open>Decimal printing\<close>

definition digit_char :: "nat \<Rightarrow> char" where
  "digit_char d = char_of (48 + d)"

fun dec_nat :: "nat \<Rightarrow> string" where
  "dec_nat n = (if n < 10 then [digit_char n] else dec_nat (n div 10) @ [digit_char (n mod 10)])"

declare dec_nat.simps [simp del]

definition dec_int :: "int \<Rightarrow> string" where
  "dec_int i = (if i < 0 then CHR ''-'' # dec_nat (nat (- i)) else dec_nat (nat i))"

definition undec :: "string \<Rightarrow> nat" where
  "undec s = foldl (\<lambda>acc c. 10 * acc + (of_char c - 48)) 0 s"

lemma of_char_digit [simp]: "d < 10 \<Longrightarrow> (of_char (digit_char d) :: nat) = 48 + d"
  by (simp add: digit_char_def)

lemma undec_dec_nat [simp]: "undec (dec_nat n) = n"
proof (induction n rule: dec_nat.induct)
  case (1 n)
  show ?case
  proof (cases "n < 10")
    case True
    then show ?thesis by (simp add: undec_def dec_nat.simps [of n])
  next
    case False
    with "1.IH" have "undec (dec_nat (n div 10)) = n div 10" by simp
    with False show ?thesis
      by (simp add: undec_def dec_nat.simps [of n] mult.commute [of 10] flip: mod_mult_div_eq)
  qed
qed

lemma dec_nat_inj: "dec_nat m = dec_nat n \<longleftrightarrow> m = n"
  by (metis undec_dec_nat)

lemma dec_nat_chars: "c \<in> set (dec_nat n) \<Longrightarrow> 48 \<le> (of_char c :: nat) \<and> (of_char c :: nat) < 58"
proof (induction n rule: dec_nat.induct)
  case (1 n)
  show ?case
  proof (cases "n < 10")
    case True
    with "1.prems" show ?thesis by (simp add: dec_nat.simps [of n])
  next
    case False
    with "1" show ?thesis by (auto simp: dec_nat.simps [of n])
  qed
qed

lemma colon_notin_dec_int: "CHR '':'' \<notin> set (dec_int i)"
  by (auto simp: dec_int_def dest: dec_nat_chars)

lemma dash_notin_dec_nat: "CHR ''-'' \<notin> set (dec_nat n)"
  by (auto dest: dec_nat_chars)

lemma dec_nat_neq_Nil [simp]: "dec_nat n \<noteq> []"
  by (subst dec_nat.simps) simp

lemma dec_int_inj: "dec_int i = dec_int j \<longleftrightarrow> i = j"
proof
  assume eq: "dec_int i = dec_int j"
  have "(i < 0) = (j < 0)"
    using eq dash_notin_dec_nat by (auto simp: dec_int_def split: if_splits) (metis list.set_intros(1))+
  with eq show "i = j"
    by (auto simp: dec_int_def dec_nat_inj split: if_splits)
qed simp

section \<open>Prefixes, association lists\<close>

text \<open>Go's \<^verbatim>\<open>len(k) >= len(p) && k[:len(p)] == p\<close> and \<^verbatim>\<open>strings.HasPrefix\<close>.\<close>

definition has_prefix :: "'a list \<Rightarrow> 'a list \<Rightarrow> bool" where
  "has_prefix s p \<longleftrightarrow> length p \<le> length s \<and> take (length p) s = p"

definition has_suffix :: "'a list \<Rightarrow> 'a list \<Rightarrow> bool" where
  "has_suffix s p \<longleftrightarrow> length p \<le> length s \<and> drop (length s - length p) s = p"

lemma has_prefix_append [simp]: "has_prefix (p @ s) p"
  by (simp add: has_prefix_def)

lemma has_prefix_iff: "has_prefix s p \<longleftrightarrow> (\<exists>t. s = p @ t)"
  by (auto simp: has_prefix_def) (metis append_take_drop_id)

lemma has_suffix_iff: "has_suffix s p \<longleftrightarrow> (\<exists>t. s = t @ p)"
  by (auto simp: has_suffix_def) (metis append_take_drop_id)

lemma map_of_update [simp]: "map_of (AList.update k v al) = (map_of al)(k \<mapsto> v)"
  by (rule AList.update_conv')

lemma map_of_delete [simp]: "map_of (AList.delete k al) = (map_of al)(k := None)"
  by (rule AList.delete_conv')

lemma keys_distinct_update: "distinct (map fst al) \<Longrightarrow> distinct (map fst (AList.update k v al))"
  by (rule AList.distinct_update)

lemma keys_distinct_delete: "distinct (map fst al) \<Longrightarrow> distinct (map fst (AList.delete k al))"
  by (rule AList.distinct_delete)

lemma keys_distinct_filter: "distinct (map fst al) \<Longrightarrow> distinct (map fst (filter P al))"
  by (rule distinct_map_filter)

text \<open>Two strings with one separator each, split at their last separator.\<close>

lemma append_sep_inj:
  assumes "x \<notin> set b" "x \<notin> set d" "a @ x # b = c @ x # d"
  shows "a = c \<and> b = d"
proof -
  have first: "takeWhile (\<lambda>y. y \<noteq> x) (p @ x # q) = p" if "x \<notin> set p" for p q
    using that by (induction p) auto
  have "rev b @ x # rev a = rev d @ x # rev c"
    using arg_cong [OF assms(3), of rev] by simp
  moreover have "x \<notin> set (rev b)" "x \<notin> set (rev d)" using assms(1,2) by simp_all
  ultimately have "rev b = rev d" by (metis first)
  with assms(3) show ?thesis by simp
qed

section \<open>Transition systems\<close>

text \<open>
  The stateful components are transition systems: initial states and an \<open>inductive\<close> step
  relation with one rule per operation. \<open>reachable\<close> and the locale below carry every invariant
  proof: a component shows that its initial states satisfy the invariant and that each step
  keeps it.
\<close>

inductive reachable :: "('s \<Rightarrow> bool) \<Rightarrow> ('s \<Rightarrow> 's \<Rightarrow> bool) \<Rightarrow> 's \<Rightarrow> bool"
  for init :: "'s \<Rightarrow> bool" and step :: "'s \<Rightarrow> 's \<Rightarrow> bool" where
  reachable_init: "init s \<Longrightarrow> reachable init step s"
| reachable_step: "reachable init step s \<Longrightarrow> step s s' \<Longrightarrow> reachable init step s'"

lemma reachable_steps: "step\<^sup>*\<^sup>* s s' \<Longrightarrow> reachable init step s \<Longrightarrow> reachable init step s'"
  by (induction rule: rtranclp_induct) (auto intro: reachable_step)

locale invariant_system =
  fixes init :: "'s \<Rightarrow> bool"
    and step :: "'s \<Rightarrow> 's \<Rightarrow> bool"
    and inv :: "'s \<Rightarrow> bool"
  assumes inv_init: "init s \<Longrightarrow> inv s"
    and inv_step: "inv s \<Longrightarrow> step s s' \<Longrightarrow> inv s'"
begin

lemma reachable_inv: "reachable init step s \<Longrightarrow> inv s"
  by (induction rule: reachable.induct) (auto intro: inv_init inv_step)

lemma steps_inv: "step\<^sup>*\<^sup>* s s' \<Longrightarrow> inv s \<Longrightarrow> inv s'"
  by (induction rule: rtranclp_induct) (auto intro: inv_step)

end

end
