(* ===== verification/GF256.thy ===== *)
theory GF256
  imports Prelude
begin

text \<open>
  GF(2^8) arithmetic of \<^verbatim>\<open>internal/seal/shamir.go\<close>: the shift-and-add product
  \<^verbatim>\<open>gfMulNoTable\<close> with the reduction by \<open>x^8 + x^4 + x^3 + x + 1\<close>, the logarithm tables
  that \<^verbatim>\<open>init\<close> builds from the generator 3, and the table-based \<^verbatim>\<open>gfMul\<close> and
  \<^verbatim>\<open>gfInv\<close>. The bytes with XOR and this product are shown to be a field (an instance of
  the library's type class \<open>field\<close> on the copy \<open>gf\<close> of the byte type), and the tables
  are shown to compute its product and inverse.
\<close>

section \<open>The product without tables\<close>

fun gfMulNoTable_loop :: "nat \<Rightarrow> byte \<Rightarrow> byte \<Rightarrow> byte \<Rightarrow> byte" where
  "gfMulNoTable_loop 0 a b result = result"
| "gfMulNoTable_loop (Suc i) a b result =
     (let result' = (if b AND 1 \<noteq> 0 then result XOR a else result);
          hiBit = a AND 0x80;
          a' = push_bit 1 a;
          a'' = (if hiBit \<noteq> 0 then a' XOR 0x1b else a')
      in gfMulNoTable_loop i a'' (drop_bit 1 b) result')"

definition gfMulNoTable :: "byte \<Rightarrow> byte \<Rightarrow> byte" where
  "gfMulNoTable a b = gfMulNoTable_loop 8 a b 0"

definition gfGenerator :: byte where
  "gfGenerator = 0x03"

section \<open>Linearity, and the product as multiplication by x\<close>

text \<open>One round of the loop doubles \<open>a\<close> in the field: multiplication by the polynomial x.\<close>

definition xtime :: "byte \<Rightarrow> byte" where
  "xtime a = (if bit a 7 then push_bit 1 a XOR 0x1b else push_bit 1 a)"

lemma and_0x80: "(a AND 0x80 \<noteq> 0) = bit a 7" for a :: byte
proof -
  have "(0x80 :: byte) = push_bit 7 1" by simp
  then show ?thesis by (metis and_exp_eq_0_iff_not_bit push_bit_of_1)
qed

lemma and_1: "(b AND 1 \<noteq> 0) = bit b 0" for b :: byte
  by (simp add: and_one_eq odd_iff_mod_2_eq_one bit_0)

lemma loop_Suc:
  "gfMulNoTable_loop (Suc i) a b r =
     gfMulNoTable_loop i (xtime a) (drop_bit 1 b) (r XOR (if bit b 0 then a else 0))"
  by (simp add: Let_def xtime_def and_0x80 and_1 del: push_bit_Suc)

declare gfMulNoTable_loop.simps(2) [simp del]
declare loop_Suc [simp]

lemma loop_acc: "gfMulNoTable_loop n a b r = r XOR gfMulNoTable_loop n a b 0"
proof (induction n arbitrary: a b r)
  case (Suc n)
  show ?case
    by (simp only: loop_Suc)
      (subst Suc.IH, subst (2) Suc.IH, simp add: xor.assoc)
qed simp

lemma xtime_xor: "xtime (a XOR b) = xtime a XOR xtime b"
  by (auto simp: xtime_def bit_xor_iff push_bit_xor xor.assoc xor.left_commute xor.commute)

lemma xtime_0 [simp]: "xtime 0 = 0"
  by (simp add: xtime_def)

lemma loop_xor_left:
  "gfMulNoTable_loop n (a XOR a') b 0 = gfMulNoTable_loop n a b 0 XOR gfMulNoTable_loop n a' b 0"
proof (induction n arbitrary: a a' b)
  case (Suc n)
  show ?case
    by (simp only: loop_Suc xtime_xor)
      (subst loop_acc, subst (2) loop_acc, subst (3) loop_acc,
        simp add: Suc.IH xor.assoc xor.left_commute xor.commute)
qed simp

lemma loop_xor_right:
  "gfMulNoTable_loop n a (b XOR b') 0 = gfMulNoTable_loop n a b 0 XOR gfMulNoTable_loop n a b' 0"
proof (induction n arbitrary: a b b')
  case (Suc n)
  show ?case
    by (simp only: loop_Suc drop_bit_xor)
      (subst loop_acc, subst (2) loop_acc, subst (3) loop_acc,
        auto simp: Suc.IH bit_xor_iff xor.assoc xor.left_commute xor.commute)
qed simp

lemma loop_xtime: "xtime (gfMulNoTable_loop n a b 0) = gfMulNoTable_loop n (xtime a) b 0"
proof (induction n arbitrary: a b)
  case (Suc n)
  show ?case
    by (simp only: loop_Suc)
      (subst loop_acc, subst (2) loop_acc, simp add: Suc.IH xtime_xor)
qed simp

lemma mul_xor_left: "gfMulNoTable (a XOR a') b = gfMulNoTable a b XOR gfMulNoTable a' b"
  by (simp only: gfMulNoTable_def loop_xor_left)

lemma mul_xor_right: "gfMulNoTable a (b XOR b') = gfMulNoTable a b XOR gfMulNoTable a b'"
  by (simp only: gfMulNoTable_def loop_xor_right)

lemma mul_xtime_left: "gfMulNoTable (xtime a) b = xtime (gfMulNoTable a b)"
  by (simp only: gfMulNoTable_def loop_xtime)

lemma loop_numeral:
  "gfMulNoTable_loop (numeral k) a b r =
     gfMulNoTable_loop (pred_numeral k) (xtime a) (drop_bit 1 b) (r XOR (if bit b 0 then a else 0))"
  by (simp only: numeral_eq_Suc loop_Suc)

lemmas mul_eval = gfMulNoTable_def loop_numeral

lemma mul_basis:
  "gfMulNoTable a 0 = 0"
  "gfMulNoTable a 1 = a"
  "gfMulNoTable a 2 = xtime (a)"
  "gfMulNoTable a 4 = xtime (xtime (a))"
  "gfMulNoTable a 8 = xtime (xtime (xtime (a)))"
  "gfMulNoTable a 16 = xtime (xtime (xtime (xtime (a))))"
  "gfMulNoTable a 32 = xtime (xtime (xtime (xtime (xtime (a)))))"
  "gfMulNoTable a 64 = xtime (xtime (xtime (xtime (xtime (xtime (a))))))"
  "gfMulNoTable a 128 = xtime (xtime (xtime (xtime (xtime (xtime (xtime (a)))))))"
  by (simp_all add: mul_eval)

text \<open>Every byte is a XOR of powers of two: two induction rules for linear properties.\<close>

lemma byte_basis_induct:
  assumes zero: "P 0" and basis: "\<And>j. j < 8 \<Longrightarrow> P (2 ^ j)"
    and add: "\<And>a b. P a \<Longrightarrow> P b \<Longrightarrow> P (a XOR b)"
  shows "P (c :: byte)"
proof -
  have "P (take_bit n c)" if "n \<le> 8" for n
    using that
  proof (induction n)
    case 0
    then show ?case using zero by simp
  next
    case (Suc n)
    have "take_bit (Suc n) c = (if bit c n then 2 ^ n else 0) XOR take_bit n c"
      by (rule bit_eqI) (auto simp: bit_simps less_Suc_eq)
    with Suc add zero basis [of n] show ?case by simp
  qed
  from this [of 8] show ?thesis by (simp add: take_bit_word_eq_self)
qed

lemma byte_induct:
  assumes zero: "P 0" and one: "P 1" and x: "\<And>a. P a \<Longrightarrow> P (xtime a)"
    and add: "\<And>a b. P a \<Longrightarrow> P b \<Longrightarrow> P (a XOR b)"
  shows "P (c :: byte)"
proof (induction c rule: byte_basis_induct)
  case (2 j)
  then show ?case
  proof (induction j)
    case (Suc j)
    then have "xtime (2 ^ j) = 2 ^ Suc j"
      by (simp add: xtime_def bit_exp_iff)
    with x [of "2 ^ j"] Suc show ?case by simp
  qed (simp add: one)
qed (use zero add in auto)

text \<open>The reduction: doubling eight times is multiplication by 0x1b.\<close>

lemma xtime8: "xtime (xtime (xtime (xtime (xtime (xtime (xtime (xtime a))))))) = gfMulNoTable a 0x1b"
proof (induction a rule: byte_induct)
  case 2
  show ?case by (simp add: mul_eval xtime_def)
next
  case (3 a)
  then show ?case by (simp add: mul_xtime_left)
next
  case (4 a b)
  then show ?case by (simp add: mul_xor_left xtime_xor)
qed (simp add: mul_eval)

lemma mul_xtime_right: "gfMulNoTable a (xtime b) = xtime (gfMulNoTable a b)"
proof (induction b rule: byte_basis_induct)
  case (2 j)
  then have "j \<in> {0, 1, 2, 3, 4, 5, 6, 7}" by auto
  moreover have "xtime (2 ^ 7) = 0x1b" by (simp add: xtime_def)
  ultimately show ?case
    by (elim insertE) (simp_all add: mul_basis xtime8 [symmetric], simp_all add: xtime_def mul_basis)
next
  case (3 a b)
  then show ?case by (simp add: mul_xor_right xtime_xor)
qed (simp add: mul_basis)

lemma mul_one_left: "gfMulNoTable 1 b = b"
proof (induction b rule: byte_induct)
  case (3 a)
  then show ?case by (simp add: mul_xtime_right)
next
  case (4 a b)
  then show ?case by (simp add: mul_xor_right)
qed (simp_all add: mul_basis)

lemma mul_zero_left: "gfMulNoTable 0 b = 0"
  using mul_xor_left [of 0 0 b] by simp

lemma mul_commute: "gfMulNoTable a b = gfMulNoTable b a"
proof (induction b rule: byte_induct)
  case (3 b)
  then show ?case by (simp add: mul_xtime_right mul_xtime_left)
next
  case (4 b c)
  then show ?case by (simp add: mul_xor_right mul_xor_left)
qed (simp_all add: mul_basis mul_one_left mul_zero_left)

lemma mul_assoc: "gfMulNoTable (gfMulNoTable a b) c = gfMulNoTable a (gfMulNoTable b c)"
proof (induction c rule: byte_induct)
  case (3 c)
  then show ?case by (simp add: mul_xtime_right)
next
  case (4 c d)
  then show ?case by (simp add: mul_xor_right)
qed (simp_all add: mul_basis)

section \<open>The ring, and the order of the generator\<close>

typedef gf = "UNIV :: byte set"
  morphisms byte_of gf_of by auto

setup_lifting type_definition_gf

instantiation gf :: comm_ring_1
begin

lift_definition zero_gf :: gf is 0 .
lift_definition one_gf :: gf is 1 .
lift_definition plus_gf :: "gf \<Rightarrow> gf \<Rightarrow> gf" is "(XOR)" .
lift_definition minus_gf :: "gf \<Rightarrow> gf \<Rightarrow> gf" is "(XOR)" .
lift_definition uminus_gf :: "gf \<Rightarrow> gf" is "\<lambda>a. a" .
lift_definition times_gf :: "gf \<Rightarrow> gf \<Rightarrow> gf" is gfMulNoTable .

instance
proof
  fix a b c :: gf
  show "a * b * c = a * (b * c)" by transfer (rule mul_assoc)
  show "a * b = b * a" by transfer (rule mul_commute)
  show "1 * a = a" by transfer (rule mul_one_left)
  show "a + b + c = a + (b + c)" by transfer (rule xor.assoc)
  show "a + b = b + a" by transfer (rule xor.commute)
  show "0 + a = a" by transfer simp
  show "- a + a = 0" by transfer simp
  show "a - b = a + - b" by transfer simp
  show "(a + b) * c = a * c + b * c" by transfer (rule mul_xor_left)
  show "(0 :: gf) \<noteq> 1" by transfer simp
qed

end

lemma gf_of_inject [simp]: "gf_of a = gf_of b \<longleftrightarrow> a = b"
  by (simp add: gf_of_inject)

lemma byte_of_gf_of [simp]: "byte_of (gf_of a) = a"
  by (simp add: gf_of_inverse)

lemma gf_of_byte_of [simp]: "gf_of (byte_of x) = x"
  by (simp add: byte_of_inverse)

lemma gf_of_simps:
  "gf_of 0 = 0" "gf_of 1 = 1" "gf_of (a XOR b) = gf_of a + gf_of b"
  "gf_of (gfMulNoTable a b) = gf_of a * gf_of b"
  by (simp_all add: zero_gf_def one_gf_def plus_gf.abs_eq times_gf.abs_eq)

lemma gf_minus_eq_plus: "x - y = x + (y :: gf)"
  by transfer simp

lemma gf_add_self [simp]: "x + x = (0 :: gf)"
  by transfer simp

lemma gf_of_eq_0_iff [simp]: "gf_of a = 0 \<longleftrightarrow> a = 0"
  by (simp add: zero_gf_def)

lemma gen_powers:
  "gf_of 3 ^ 2 = gf_of 5" "gf_of 3 ^ 4 = gf_of 17" "gf_of 3 ^ 8 = gf_of 26" "gf_of 3 ^ 16 = gf_of 95"
  "gf_of 3 ^ 32 = gf_of 229" "gf_of 3 ^ 64 = gf_of 76" "gf_of 3 ^ 128 = gf_of 251"
proof -
  have sq: "gf_of 3 ^ (2 * n) = gf_of (gfMulNoTable b b)" if "gf_of 3 ^ n = gf_of b" for n b
    using that by (simp add: power_mult power2_eq_square gf_of_simps power_mult_distrib mult.commute [of 2])
  have mul: "gfMulNoTable 3 3 = 5" "gfMulNoTable 5 5 = 17" "gfMulNoTable 17 17 = 26"
    "gfMulNoTable 26 26 = 95" "gfMulNoTable 95 95 = 229" "gfMulNoTable 229 229 = 76"
    "gfMulNoTable 76 76 = 251"
    by (simp_all add: mul_eval xtime_def)
  show 2: "gf_of 3 ^ 2 = gf_of 5" using sq [of 1 3] mul by simp
  show 4: "gf_of 3 ^ 4 = gf_of 17" using sq [OF 2] mul by simp
  show 8: "gf_of 3 ^ 8 = gf_of 26" using sq [OF 4] mul by simp
  show 16: "gf_of 3 ^ 16 = gf_of 95" using sq [OF 8] mul by simp
  show 32: "gf_of 3 ^ 32 = gf_of 229" using sq [OF 16] mul by simp
  show 64: "gf_of 3 ^ 64 = gf_of 76" using sq [OF 32] mul by simp
  show "gf_of 3 ^ 128 = gf_of 251" using sq [OF 64] mul by simp
qed

lemma gen_orders:
  "gf_of 3 ^ 15 = gf_of 53" "gf_of 3 ^ 51 = gf_of 12" "gf_of 3 ^ 85 = gf_of 189" "gf_of 3 ^ 255 = 1"
proof -
  have split: "gf_of 3 ^ 15 = gf_of 3 ^ 8 * gf_of 3 ^ 4 * gf_of 3 ^ 2 * gf_of 3"
    "gf_of 3 ^ 51 = gf_of 3 ^ 32 * gf_of 3 ^ 16 * gf_of 3 ^ 2 * gf_of 3"
    "gf_of 3 ^ 85 = gf_of 3 ^ 64 * gf_of 3 ^ 16 * gf_of 3 ^ 4 * gf_of 3"
    "gf_of 3 ^ 255 = (gf_of 3 ^ 85) ^ 3"
    by (simp_all flip: power_add power_Suc2 power_mult)
  show 15: "gf_of 3 ^ 15 = gf_of 53"
    unfolding split gen_powers by (simp flip: gf_of_simps) (simp add: mul_eval xtime_def)
  show 51: "gf_of 3 ^ 51 = gf_of 12"
    unfolding split gen_powers by (simp flip: gf_of_simps) (simp add: mul_eval xtime_def)
  show 85: "gf_of 3 ^ 85 = gf_of 189"
    unfolding split gen_powers by (simp flip: gf_of_simps) (simp add: mul_eval xtime_def)
  show "gf_of 3 ^ 255 = 1"
    unfolding split(4) 85 power3_eq_cube
    by (simp flip: gf_of_simps) (simp add: mul_eval xtime_def)
qed

lemma gen_pow_neq_1: "gf_of 3 ^ k \<noteq> 1" if k: "0 < k" "k < 255"
proof
  assume one: "gf_of 3 ^ k = 1"
  obtain x y where "k * x = 255 * y + gcd k 255"
    using bezout_nat [of k 255] k(1) by blast
  then have "gf_of 3 ^ (k * x) = gf_of 3 ^ (255 * y) * gf_of 3 ^ gcd k 255"
    by (simp add: power_add)
  with one gen_orders(4) have d: "gf_of 3 ^ gcd k 255 = 1"
    by (simp add: power_mult)
  have "\<forall>d \<in> {0..<255}. d dvd 255 \<longrightarrow> d dvd 85 \<or> d dvd 51 \<or> d dvd (15 :: nat)"
    by code_simp
  moreover have "gcd k 255 < 255" "gcd k 255 dvd 255"
    using k by (auto intro: le_less_trans [OF gcd_le1_nat])
  ultimately have "gcd k 255 dvd 85 \<or> gcd k 255 dvd 51 \<or> gcd k 255 dvd 15"
    by auto
  moreover have "gf_of 3 ^ m = 1" if "gcd k 255 dvd m" for m
    using that d by (auto elim!: dvdE simp: power_mult)
  ultimately have "gf_of 3 ^ 85 = 1 \<or> gf_of 3 ^ 51 = 1 \<or> gf_of 3 ^ 15 = 1"
    by blast
  then show False
    by (auto simp: gen_orders simp flip: gf_of_simps)
qed

lemma gen_pow_inj: "inj_on (\<lambda>i. gf_of 3 ^ i) {..<255}"
proof -
  have less: False if "gf_of 3 ^ i = gf_of 3 ^ j" "i < j" "j < 255" for i j :: nat
  proof -
    have "gf_of 3 ^ (255 - i) * gf_of 3 ^ i = gf_of 3 ^ (255 - i) * gf_of 3 ^ j"
      using that by simp
    moreover have "255 - i + j = 255 + (j - i)" "255 - i + i = 255" using that by simp_all
    ultimately have "gf_of 3 ^ 255 = gf_of 3 ^ (255 + (j - i))"
      by (simp only: power_add [symmetric])
    then have "gf_of 3 ^ (j - i) = 1"
      by (simp add: power_add gen_orders)
    moreover have "0 < j - i" "j - i < 255" using that by simp_all
    ultimately show False using gen_pow_neq_1 by blast
  qed
  show ?thesis
    by (rule inj_onI) (metis less lessThan_iff linorder_neqE_nat)
qed

lemma gen_pow_nonzero: "gf_of 3 ^ i \<noteq> 0"
proof
  assume zero: "gf_of 3 ^ i = 0"
  have "gf_of 3 ^ (255 * Suc i) = gf_of 3 ^ i * gf_of 3 ^ (255 * Suc i - i)"
    by (simp add: power_add [symmetric] add.commute)
  then have "(gf_of 3 ^ 255) ^ Suc i = 0"
    using zero by (simp only: power_mult mult_zero_left)
  then show False by (simp add: gen_orders)
qed

lemma card_gf: "card (UNIV :: gf set) = 256"
proof -
  have "card (UNIV :: gf set) = card (UNIV :: byte set)"
    by (rule bij_betw_same_card [of byte_of])
      (metis bij_betw_def byte_of_inject gf_of_inverse inj_on_def surj_def UNIV_I)
  then show ?thesis by (simp add: card_word)
qed

lemma finite_gf: "finite (UNIV :: gf set)"
  by (rule card_ge_0_finite) (simp add: card_gf)

lemma gen_pow_range: "(\<lambda>i. gf_of 3 ^ i) ` {..<255} = UNIV - {0}"
proof (rule card_subset_eq)
  show "finite (UNIV - {0 :: gf})" using finite_gf by simp
  show "(\<lambda>i. gf_of 3 ^ i) ` {..<255} \<subseteq> UNIV - {0}" using gen_pow_nonzero by auto
  show "card ((\<lambda>i. gf_of 3 ^ i) ` {..<255}) = card (UNIV - {0 :: gf})"
    using card_image [OF gen_pow_inj] card_gf finite_gf by simp
qed

lemma nonzero_is_gen_pow:
  assumes "x \<noteq> 0" obtains i where "i < 255" "x = gf_of 3 ^ i"
proof -
  from assms have "x \<in> (\<lambda>i. gf_of 3 ^ i) ` {..<255}" by (simp add: gen_pow_range)
  then show ?thesis using that by auto
qed

lemma gf_pow_255: "x ^ 255 = 1" if "x \<noteq> (0 :: gf)"
proof -
  from that obtain i where "x = gf_of 3 ^ i" by (rule nonzero_is_gen_pow)
  then have "x ^ 255 = (gf_of 3 ^ 255) ^ i" by (simp only: power_mult [symmetric] mult.commute)
  then show ?thesis by (simp add: gen_orders)
qed

section \<open>The field\<close>

instantiation gf :: field
begin

definition inverse_gf :: "gf \<Rightarrow> gf" where
  "inverse_gf x = (if x = 0 then 0 else x ^ 254)"

definition divide_gf :: "gf \<Rightarrow> gf \<Rightarrow> gf" where
  "divide_gf x y = x * inverse y"

instance
proof
  fix x y :: gf
  show "inverse x * x = 1" if "x \<noteq> 0"
    using gf_pow_255 [OF that] that power_Suc2 [of x 254] by (simp add: inverse_gf_def)
  show "x div y = x * inverse y" by (rule divide_gf_def)
  show "inverse (0 :: gf) = 0" by (simp add: inverse_gf_def)
qed

end

section \<open>The tables of init, and the table-based operations\<close>

text \<open>\<^verbatim>\<open>init\<close>: 255 rounds fill \<open>gfExp\<close> and \<open>gfLog\<close>, then the first 255 entries of
  \<open>gfExp\<close> are repeated up to index 511.\<close>

definition init_step :: "nat \<Rightarrow> byte \<times> bytes \<times> bytes \<Rightarrow> byte \<times> bytes \<times> bytes" where
  "init_step i s = (case s of (x, e, l) \<Rightarrow>
     (gfMulNoTable x gfGenerator, e[i := x], l[unat x := of_nat i]))"

definition init_tables :: "bytes \<times> bytes" where
  "init_tables =
     (let (x, e, l) = fold init_step [0..<255] (1, replicate 512 0, replicate 256 0);
          e' = fold (\<lambda>i e. e[i := e ! (i - 255)]) [255..<512] e
      in (e', l))"

definition gfExp :: bytes where "gfExp = fst init_tables"
definition gfLog :: bytes where "gfLog = snd init_tables"

definition gfMul :: "byte \<Rightarrow> byte \<Rightarrow> byte" where
  "gfMul a b = (if a = 0 \<or> b = 0 then 0
     else gfExp ! (unat (gfLog ! unat a) + unat (gfLog ! unat b)))"

definition gfInv :: "byte \<Rightarrow> byte res" where
  "gfInv a = (if a = 0 then Inl ErrZeroInverse else Inr (gfExp ! (255 - unat (gfLog ! unat a))))"

subsection \<open>What the tables hold\<close>

abbreviation gpow :: "nat \<Rightarrow> byte" where
  "gpow i \<equiv> byte_of (gf_of gfGenerator ^ i)"

lemma gpow_Suc: "gfMulNoTable (gpow i) gfGenerator = gpow (Suc i)"
  by (simp add: power_Suc2 times_gf.rep_eq del: power_Suc)

lemma gpow_inj: "i < 255 \<Longrightarrow> j < 255 \<Longrightarrow> gpow i = gpow j \<longleftrightarrow> i = j"
  using gen_pow_inj by (auto simp: byte_of_inject gfGenerator_def dest: inj_onD)

lemma gpow_mod: "gpow (i mod 255) = gpow i"
proof -
  have "gf_of 3 ^ i = gf_of 3 ^ (255 * (i div 255) + i mod 255)" by simp
  also have "\<dots> = gf_of 3 ^ (i mod 255)"
    by (simp only: power_add power_mult gen_orders power_one mult_1)
  finally show ?thesis by (simp add: gfGenerator_def)
qed

lemma init_loop:
  assumes "n \<le> 255"
  shows "\<exists>e l. fold init_step [0..<n] (1, replicate 512 0, replicate 256 0) = (gpow n, e, l) \<and>
    length e = 512 \<and> length l = 256 \<and> (\<forall>i<n. e ! i = gpow i) \<and>
    (\<forall>i<n. l ! unat (gpow i) = of_nat i)"
  using assms
proof (induction n)
  case 0
  then show ?case by (simp add: one_gf.rep_eq)
next
  case (Suc n)
  then obtain e l where IH:
    "fold init_step [0..<n] (1, replicate 512 0, replicate 256 0) = (gpow n, e, l)"
    "length e = 512" "length l = 256" "\<forall>i<n. e ! i = gpow i" "\<forall>i<n. l ! unat (gpow i) = of_nat i"
    by auto
  have len: "unat (gpow n) < length l" using unsigned_less [of "gpow n"] IH(3) by simp
  have "unat (gpow i) \<noteq> unat (gpow n)" if "i < n" for i
    using gpow_inj [of i n] that Suc.prems by (simp flip: word_unat_eq_iff)
  then have "\<forall>i<Suc n. l[unat (gpow n) := of_nat n] ! unat (gpow i) = of_nat i"
    using IH(5) len by (metis less_SucE nth_list_update_eq nth_list_update_neq)
  moreover have "\<forall>i<Suc n. e[n := gpow n] ! i = gpow i"
    using IH(2,4) Suc.prems by (auto simp: less_Suc_eq nth_list_update)
  moreover have "init_step n (gpow n, e, l) = (gpow (Suc n), e[n := gpow n], l[unat (gpow n) := of_nat n])"
    by (simp only: init_step_def prod.case gpow_Suc)
  ultimately show ?case
    using IH(1-3) by (simp del: power_Suc)
qed

lemma repeat_loop:
  assumes "length e = 512" "\<forall>i<255. e ! i = gpow i" "n \<le> 257"
  shows "let e' = fold (\<lambda>i e. e[i := e ! (i - 255)]) [255..<255 + n] e
    in length e' = 512 \<and> (\<forall>i<255 + n. e' ! i = gpow i)"
  using assms(3)
proof (induction n)
  case 0
  with assms show ?case by simp
next
  case (Suc n)
  define e' where "e' = fold (\<lambda>i e. e[i := e ! (i - 255)]) [255..<255 + n] e"
  have e': "length e' = 512" "\<forall>i<255 + n. e' ! i = gpow i"
    using Suc unfolding e'_def Let_def by simp_all
  have "gpow n = gpow (255 + n)"
    by (metis gpow_mod mod_add_self1)
  then have "\<forall>i<Suc (255 + n). e'[255 + n := e' ! n] ! i = gpow i"
    using e' Suc.prems by (auto simp: less_Suc_eq nth_list_update)
  moreover have "fold (\<lambda>i e. e[i := e ! (i - 255)]) [255..<Suc (255 + n)] e = e'[255 + n := e' ! n]"
    by (simp only: upt_Suc_append [of 255 "255 + n"] le_add1 fold_append o_apply e'_def fold_simps
        id_apply diff_add_inverse)
  ultimately show ?case using e'(1) by (simp only: Let_def add_Suc_right length_list_update)
qed

lemma gfExp_nth: "i < 512 \<Longrightarrow> gfExp ! i = gpow i"
  and gfLog_gpow: "i < 255 \<Longrightarrow> gfLog ! unat (gpow i) = of_nat i"
proof -
  obtain e l where tabs:
    "fold init_step [0..<255] (1, replicate 512 0, replicate 256 0) = (gpow 255, e, l)"
    "length e = 512" "\<forall>i<255. e ! i = gpow i" "\<forall>i<255. l ! unat (gpow i) = of_nat i"
    using init_loop [of 255] by auto
  have init: "init_tables = (fold (\<lambda>i e. e[i := e ! (i - 255)]) [255..<512] e, l)"
    by (simp only: init_tables_def tabs(1) Let_def prod.case)
  show "i < 512 \<Longrightarrow> gfExp ! i = gpow i"
  proof -
    have eq: "255 + 257 = (512 :: nat)" by simp
    have "\<forall>i<512. fold (\<lambda>i e. e[i := e ! (i - 255)]) [255..<512] e ! i = gpow i"
      using repeat_loop [OF tabs(2,3), of 257, unfolded eq Let_def] by blast
    then show "i < 512 \<Longrightarrow> gfExp ! i = gpow i" unfolding gfExp_def init by (simp only: fst_conv)
  qed
  show "i < 255 \<Longrightarrow> gfLog ! unat (gpow i) = of_nat i"
    using tabs(4) unfolding gfLog_def init by (simp only: snd_conv)
qed

lemma byte_gpow_cases:
  assumes "a \<noteq> 0" obtains i where "i < 255" "a = gpow i"
proof -
  from assms have "gf_of a \<noteq> 0" by simp
  then obtain i where "i < 255" "gf_of a = gf_of 3 ^ i" by (rule nonzero_is_gen_pow)
  then show ?thesis using that by (metis byte_of_gf_of gfGenerator_def)
qed

theorem gfMul_eq: "gfMul a b = gfMulNoTable a b"
proof (cases "a = 0 \<or> b = 0")
  case True
  then show ?thesis by (auto simp: gfMul_def mul_zero_left mul_basis)
next
  case False
  then obtain i j where ij: "i < 255" "a = gpow i" "j < 255" "b = gpow j"
    by (metis byte_gpow_cases)
  have "unat (of_nat i :: byte) = i" "unat (of_nat j :: byte) = j"
    using ij by (simp_all add: unat_of_nat)
  with ij False have "gfMul a b = gpow (i + j)"
    by (simp add: gfMul_def gfLog_gpow gfExp_nth)
  also have "\<dots> = gfMulNoTable a b"
    by (simp add: ij power_add times_gf.rep_eq)
  finally show ?thesis .
qed

lemma gf_of_gfMul [simp]: "gf_of (gfMul a b) = gf_of a * gf_of b"
  by (simp add: gfMul_eq gf_of_simps)

theorem gfInv_eq: "gfInv a = (if a = 0 then Inl ErrZeroInverse else Inr (byte_of (inverse (gf_of a))))"
proof (cases "a = 0")
  case False
  then obtain i where i: "i < 255" "a = gpow i" by (rule byte_gpow_cases)
  have log: "unat (of_nat i :: byte) = i" using i by (simp add: unat_of_nat)
  have "gf_of a * gf_of gfGenerator ^ (255 - i) = gf_of gfGenerator ^ 255"
    using i by (simp flip: power_add)
  then have "gf_of a * gf_of gfGenerator ^ (255 - i) = 1"
    by (simp add: gfGenerator_def gen_orders)
  then have "gf_of gfGenerator ^ (255 - i) = inverse (gf_of a)"
    by (metis inverse_unique)
  with i log False show ?thesis by (simp add: gfInv_def gfLog_gpow gfExp_nth)
qed (simp add: gfInv_def)

text \<open>
  Property C19. The logarithm tables are right: for all 65536 pairs of bytes the table product
  is the shift-and-add product, \<^verbatim>\<open>gfInv\<close> fails exactly on 0, and what it returns
  otherwise is the multiplicative inverse.
\<close>

theorem gf_tables_correct:
  "gfMul a b = gfMulNoTable a b \<and>
   (case gfInv a of Inl e \<Rightarrow> a = 0 \<and> e = ErrZeroInverse | Inr c \<Rightarrow> a \<noteq> 0 \<and> gfMul a c = 1 \<and> gfMul c a = 1)"
proof (cases "a = 0")
  case False
  then have "gf_of a * inverse (gf_of a) = 1" by simp
  then have "gf_of (gfMul a (byte_of (inverse (gf_of a)))) = gf_of 1" by (simp add: gf_of_simps)
  then have "gfMul a (byte_of (inverse (gf_of a))) = 1" by (simp only: gf_of_inject)
  moreover from this have "gfMul (byte_of (inverse (gf_of a))) a = 1"
    by (simp add: gfMul_eq mul_commute)
  ultimately show ?thesis using False by (simp add: gfMul_eq gfInv_eq)
qed (simp add: gfMul_eq gfInv_eq)

end
