(* ===== verification/Interpolation.thy ===== *)
theory Interpolation
  imports Main
begin

text \<open>
  Polynomials over a field as coefficient lists, constant term first: Horner evaluation,
  division by a linear factor, the bound on the number of roots, and Lagrange interpolation
  as an identity of polynomial functions. Nothing here is specific to GF(2^8); the Shamir
  theory instantiates the field.
\<close>

primrec horner :: "'a::comm_ring_1 list \<Rightarrow> 'a \<Rightarrow> 'a" where
  "horner [] x = 0"
| "horner (c # cs) x = c + x * horner cs x"

text \<open>Synthetic division by \<open>x - r\<close>.\<close>

fun sdiv :: "'a::comm_ring_1 list \<Rightarrow> 'a \<Rightarrow> 'a list" where
  "sdiv [] r = []"
| "sdiv [c] r = []"
| "sdiv (c # c' # cs) r = horner (c' # cs) r # sdiv (c' # cs) r"

definition polyfun :: "nat \<Rightarrow> ('a::comm_ring_1 \<Rightarrow> 'a) \<Rightarrow> bool" where
  "polyfun n f \<longleftrightarrow> (\<exists>cs. length cs = n \<and> f = horner cs)"

text \<open>The Lagrange basis polynomial of node \<open>i\<close> and the interpolant, on indexed nodes as the
  code has them.\<close>

definition lagrange_basis :: "'a::field list \<Rightarrow> nat \<Rightarrow> 'a \<Rightarrow> 'a" where
  "lagrange_basis xs i z = (\<Prod>j \<in> {..<length xs} - {i}. (z - xs ! j) / (xs ! i - xs ! j))"

definition lagrange :: "'a::field list \<Rightarrow> 'a list \<Rightarrow> 'a \<Rightarrow> 'a" where
  "lagrange xs ys z = (\<Sum>i < length xs. ys ! i * lagrange_basis xs i z)"

section \<open>Roots\<close>

lemma length_sdiv [simp]: "length (sdiv cs r) = length cs - 1"
  by (induction cs r rule: sdiv.induct) auto

lemma horner_sdiv: "horner cs x = horner cs r + (x - r) * horner (sdiv cs r) x"
proof (induction cs r rule: sdiv.induct)
  case (3 c c' cs r)
  let ?h = "horner (c' # cs)" and ?g = "horner (sdiv (c' # cs) r)"
  have "x * ?h x = x * (?h r + (x - r) * ?g x)"
    using "3" by metis
  also have "\<dots> = r * ?h r + (x - r) * (?h r + x * ?g x)"
    by (simp add: algebra_simps)
  finally show ?case by (simp only: horner.simps sdiv.simps add.assoc)
qed simp_all

lemma sdiv_zero: "\<forall>d \<in> set (sdiv cs r). d = 0 \<Longrightarrow> \<forall>c \<in> set (tl cs). c = 0"
proof (induction cs r rule: sdiv.induct)
  case (3 c c' cs r)
  then have tl: "\<forall>c \<in> set cs. c = 0" by simp
  then have "horner cs r = 0" by (induction cs) simp_all
  with "3.prems" have "c' = 0" by simp
  with tl show ?case by simp
qed simp_all

text \<open>A polynomial with at least as many roots as coefficients has only zero coefficients.\<close>

lemma roots_zero:
  fixes cs :: "'a::idom list"
  assumes "finite S" "length cs \<le> card S" "\<And>x. x \<in> S \<Longrightarrow> horner cs x = 0"
  shows "\<forall>c \<in> set cs. c = 0"
  using assms
proof (induction "length cs" arbitrary: cs S)
  case (Suc n)
  then obtain c cs' where cs: "cs = c # cs'" by (cases cs) auto
  from Suc obtain r where r: "r \<in> S" by (metis card.empty ex_in_conv not_less_eq_eq zero_le)
  have "horner (sdiv cs r) x = 0" if "x \<in> S - {r}" for x
    using that horner_sdiv [of cs x r] Suc.prems(3) r by auto
  moreover have "length (sdiv cs r) \<le> card (S - {r})"
    using Suc r by (simp add: card_Diff_singleton)
  moreover have "n = length (sdiv cs r)" using Suc.hyps(2) by simp
  ultimately have "\<forall>d \<in> set (sdiv cs r). d = 0"
    using Suc.hyps(1) [of "sdiv cs r" "S - {r}"] Suc.prems(1) by auto
  then have "\<forall>c \<in> set cs'. c = 0" using sdiv_zero [of cs r] cs by simp
  moreover from this have "horner cs' r = 0" by (induction cs') simp_all
  moreover have "horner cs r = 0" using Suc.prems(3) r .
  ultimately show ?case using cs by simp
qed simp

lemma horner_zero: "\<forall>c \<in> set cs. c = 0 \<Longrightarrow> horner cs x = 0"
  by (induction cs) simp_all

section \<open>Closure of polynomial functions\<close>

lemma horner_add: "length cs = length ds \<Longrightarrow>
  horner (map2 (+) cs ds) x = horner cs x + horner ds x"
  by (induction cs ds rule: list_induct2) (simp_all add: algebra_simps)

lemma horner_diff: "length cs = length ds \<Longrightarrow>
  horner (map2 (-) cs ds) x = horner cs x - horner ds x"
  by (induction cs ds rule: list_induct2) (simp_all add: right_diff_distrib)

lemma horner_smult: "horner (map ((*) a) cs) x = a * horner cs x"
  by (induction cs) (simp_all add: algebra_simps)

lemma horner_append_zero: "horner (cs @ replicate n 0) x = horner cs x"
  by (induction cs) (simp_all add: horner_zero)

lemma polyfun_add: "polyfun n f \<Longrightarrow> polyfun n g \<Longrightarrow> polyfun n (\<lambda>x. f x + g x)"
proof -
  assume "polyfun n f" "polyfun n g"
  then obtain cs ds where "length cs = n" "f = horner cs" "length ds = n" "g = horner ds"
    by (auto simp: polyfun_def)
  then show ?thesis unfolding polyfun_def
    by (intro exI [of _ "map2 (+) cs ds"]) (auto simp: horner_add)
qed

lemma polyfun_smult: "polyfun n f \<Longrightarrow> polyfun n (\<lambda>x. a * f x)"
proof -
  assume "polyfun n f"
  then obtain cs where "length cs = n" "f = horner cs" by (auto simp: polyfun_def)
  then show ?thesis unfolding polyfun_def
    by (intro exI [of _ "map ((*) a) cs"]) (auto simp: horner_smult)
qed

lemma polyfun_zero: "polyfun n (\<lambda>x. 0)"
proof -
  have "horner (replicate n 0) = (\<lambda>x. 0 :: 'a)" by (rule ext) (simp add: horner_zero)
  then show ?thesis unfolding polyfun_def by (metis length_replicate)
qed

lemma polyfun_linear:
  assumes "polyfun n f" shows "polyfun (Suc n) (\<lambda>x. (x - a) * f x)"
proof -
  from assms obtain cs where cs: "length cs = n" "f = horner cs" by (auto simp: polyfun_def)
  have "horner (map2 (-) (0 # cs) (map ((*) a) cs @ [0])) = (\<lambda>x. (x - a) * f x)"
  proof
    fix x
    have "horner (map ((*) a) cs @ [0]) x = a * f x"
      using horner_append_zero [of "map ((*) a) cs" 1 x] by (simp add: horner_smult cs)
    then show "horner (map2 (-) (0 # cs) (map ((*) a) cs @ [0])) x = (x - a) * f x"
      using horner_diff [of "0 # cs" "map ((*) a) cs @ [0]" x] by (simp add: cs algebra_simps)
  qed
  moreover have "length (map2 (-) (0 # cs) (map ((*) a) cs @ [0])) = Suc n" by (simp add: cs)
  ultimately show ?thesis unfolding polyfun_def by metis
qed

lemma polyfun_mono: assumes "polyfun m f" "m \<le> n" shows "polyfun n f"
proof -
  from assms obtain cs where cs: "length cs = m" "f = horner cs" by (auto simp: polyfun_def)
  then have "length (cs @ replicate (n - m) 0) = n" using assms(2) by simp
  moreover have "horner (cs @ replicate (n - m) 0) = f"
    by (rule ext) (simp add: horner_append_zero cs)
  ultimately show ?thesis unfolding polyfun_def by metis
qed

lemma polyfun_sum: "(\<And>i. i \<in> A \<Longrightarrow> polyfun n (f i)) \<Longrightarrow> polyfun n (\<lambda>x. \<Sum>i\<in>A. f i x)"
  by (induction A rule: infinite_finite_induct) (auto intro: polyfun_zero polyfun_add)

lemma polyfun_one: "polyfun (Suc 0) (\<lambda>x. 1)"
proof -
  have "horner [1 :: 'a] = (\<lambda>x. 1)" by (rule ext) simp
  then show ?thesis unfolding polyfun_def by (intro exI [of _ "[1]"]) simp
qed

lemma polyfun_prod:
  fixes a :: "'b \<Rightarrow> 'a::field"
  shows "finite A \<Longrightarrow> polyfun (Suc (card A)) (\<lambda>x. \<Prod>j\<in>A. (x - a j) / b j)"
proof (induction A rule: finite_induct)
  case (insert j A)
  have "polyfun (Suc (Suc (card A))) (\<lambda>x. (1 / b j) * ((x - a j) * (\<Prod>j\<in>A. (x - a j) / b j)))"
    by (intro polyfun_smult polyfun_linear insert.IH)
  with insert.hyps show ?case by simp
qed (simp add: polyfun_one)

section \<open>Interpolation\<close>

lemma lagrange_basis_self: "distinct xs \<Longrightarrow> i < length xs \<Longrightarrow> lagrange_basis xs i (xs ! i) = 1"
  by (auto simp: lagrange_basis_def nth_eq_iff_index_eq intro!: prod.neutral)

lemma lagrange_basis_other:
  "i < length xs \<Longrightarrow> k < length xs \<Longrightarrow> k \<noteq> i \<Longrightarrow> lagrange_basis xs i (xs ! k) = 0"
  by (auto simp: lagrange_basis_def prod_zero_iff)

lemma polyfun_lagrange: "polyfun (length xs) (lagrange xs ys)"
proof -
  have "polyfun (length xs) (\<lambda>z. ys ! i * lagrange_basis xs i z)" if "i < length xs" for i
  proof (rule polyfun_smult)
    have "Suc (card ({..<length xs} - {i})) = length xs" using that by simp
    then show "polyfun (length xs) (lagrange_basis xs i)"
      using polyfun_prod [of "{..<length xs} - {i}" "\<lambda>j. xs ! j" "\<lambda>j. xs ! i - xs ! j"]
      by (simp only: lagrange_basis_def [abs_def] finite_Diff finite_lessThan)
  qed
  then show ?thesis unfolding lagrange_def [abs_def] by (intro polyfun_sum) simp
qed

lemma lagrange_at_node:
  assumes "distinct xs" "k < length xs" shows "lagrange xs ys (xs ! k) = ys ! k"
proof -
  have "lagrange xs ys (xs ! k) = (\<Sum>i < length xs. if i = k then ys ! k else 0)"
    unfolding lagrange_def using assms
    by (intro sum.cong) (auto simp: lagrange_basis_self lagrange_basis_other)
  then show ?thesis using assms by simp
qed

text \<open>Interpolating at the nodes of a polynomial with no more coefficients than nodes gives
  the polynomial back, everywhere.\<close>

theorem lagrange_horner:
  assumes "distinct xs" "length cs \<le> length xs"
  shows "lagrange xs (map (horner cs) xs) z = horner cs z"
proof -
  let ?n = "length xs"
  obtain ds where ds: "length ds = ?n" "lagrange xs (map (horner cs) xs) = horner ds"
    using polyfun_lagrange [of xs "map (horner cs) xs"] by (auto simp: polyfun_def)
  define cs' where "cs' = cs @ replicate (?n - length cs) 0"
  have cs': "length cs' = ?n" "horner cs' x = horner cs x" for x
    using assms(2) by (simp_all add: cs'_def horner_append_zero)
  have "horner (map2 (-) ds cs') x = 0" if "x \<in> set xs" for x
  proof -
    from that obtain k where k: "k < ?n" "x = xs ! k" by (auto simp: in_set_conv_nth)
    then have "horner ds x = horner cs x"
      using lagrange_at_node [OF assms(1) k(1), of "map (horner cs) xs"] ds(2) by simp
    then show ?thesis by (simp add: horner_diff ds cs')
  qed
  then have "\<forall>c \<in> set (map2 (-) ds cs'). c = 0"
    by (intro roots_zero [of "set xs"]) (simp_all add: ds cs' distinct_card assms(1))
  then have "horner ds z - horner cs' z = 0"
    using horner_zero [of "map2 (-) ds cs'" z] by (simp add: horner_diff ds cs')
  then show ?thesis by (simp add: ds cs')
qed

text \<open>One value at 0 and the values at \<open>n\<close> other nodes determine the \<open>n\<close> higher
  coefficients, and any such values occur.\<close>

theorem interpolation_unique:
  fixes s :: "'a::field"
  assumes "distinct xs" "0 \<notin> set xs" "length ys = length xs"
  shows "\<exists>!rs. length rs = length xs \<and> map (horner (s # rs)) xs = ys"
proof -
  have dist: "distinct (0 # xs)" using assms by simp
  obtain cs where cs: "length cs = length (0 # xs)" "lagrange (0 # xs) (s # ys) = horner cs"
    using polyfun_lagrange [of "0 # xs" "s # ys"] by (auto simp: polyfun_def)
  then obtain c rs where rs: "cs = c # rs" "length rs = length xs" by (cases cs) auto
  have "c = s"
    using lagrange_at_node [OF dist, of 0 "s # ys"] cs(2) rs(1) by simp
  moreover have "horner cs (xs ! k) = ys ! k" if "k < length xs" for k
    using lagrange_at_node [OF dist, of "Suc k" "s # ys"] cs(2) that by simp
  ultimately have ex: "map (horner (s # rs)) xs = ys"
    using assms(3) rs(1) by (intro nth_equalityI) auto
  have unique: "rs' = rs" if "length rs' = length xs" "map (horner (s # rs')) xs = ys" for rs'
  proof -
    have "horner (map2 (-) rs' rs) x = 0" if "x \<in> set xs" for x
    proof -
      have "horner (s # rs') x = horner (s # rs) x"
        using that ex \<open>map (horner (s # rs')) xs = ys\<close> by (metis map_eq_conv)
      then have "x * (horner rs' x - horner rs x) = 0" by (simp add: algebra_simps)
      moreover have "x \<noteq> 0" using that assms(2) by auto
      ultimately show ?thesis using that rs(2) \<open>length rs' = length xs\<close> by (simp add: horner_diff)
    qed
    then have "\<forall>c \<in> set (map2 (-) rs' rs). c = 0"
      by (intro roots_zero [of "set xs"])
        (simp_all add: rs(2) \<open>length rs' = length xs\<close> distinct_card assms(1))
    then show ?thesis
      using rs(2) \<open>length rs' = length xs\<close>
      by (intro nth_equalityI) (auto simp: set_conv_nth)
  qed
  show ?thesis using ex rs(2) unique by blast
qed

end
