(* ===== verification/Memguard.thy ===== *)
theory Memguard
  imports Prelude
begin

text \<open>
  \<^verbatim>\<open>internal/memguard\<close>: the CSPRNG entry point and \<^verbatim>\<open>SecureBuffer\<close>, the container of
  every plaintext key. The operating system's random source is a stream of bytes, any of
  which may be a read failure, with a read position; the theorems hold for every stream.
\<close>

section \<open>entropy.go\<close>

record csprng =
  stream :: "nat \<Rightarrow> byte option"
  pos :: nat

text \<open>\<^verbatim>\<open>rand.Read\<close> on a buffer of \<open>n\<close> bytes: all \<open>n\<close> bytes, or an error.\<close>

definition rand_Read :: "nat \<Rightarrow> csprng \<Rightarrow> bytes option \<times> csprng" where
  "rand_Read n r = (those (map (stream r) [pos r..<pos r + n]), r\<lparr>pos := pos r + n\<rparr>)"

definition GenerateSecureRandom :: "int \<Rightarrow> csprng \<Rightarrow> bytes res \<times> csprng" where
  "GenerateSecureRandom n r =
     (if n < 0 then (Inl (Msg ''memguard: invalid negative size''), r)
      else if n = 0 then (Inr [], r)
      else case rand_Read (nat n) r of
          (None, r') \<Rightarrow> (Inl (Msg ''memguard: crypto/rand.Read failed''), r')
        | (Some buf, r') \<Rightarrow> (Inr buf, r'))"

section \<open>secure_buffer.go\<close>

record SecureBuffer =
  sb_data :: bytes
  destroyed :: bool

text \<open>\<^verbatim>\<open>NewSecureBuffer\<close> copies its argument and clears it: the second component is what the
  caller's slice holds afterwards.\<close>

definition NewSecureBuffer :: "bytes \<Rightarrow> SecureBuffer \<times> bytes" where
  "NewSecureBuffer src = (\<lparr>sb_data = src, destroyed = False\<rparr>, replicate (length src) 0)"

definition NewSecureBufferFromRandom :: "int \<Rightarrow> csprng \<Rightarrow> SecureBuffer res \<times> csprng" where
  "NewSecureBufferFromRandom n r =
     (case GenerateSecureRandom n r of
        (Inl e, r') \<Rightarrow> (Inl e, r')
      | (Inr raw, r') \<Rightarrow> (Inr \<lparr>sb_data = raw, destroyed = False\<rparr>, r'))"

definition Wipe :: "SecureBuffer \<Rightarrow> SecureBuffer" where
  "Wipe s = (if destroyed s then s
     else s\<lparr>sb_data := replicate (length (sb_data s)) 0, destroyed := True\<rparr>)"

definition WithKey :: "SecureBuffer \<Rightarrow> (bytes \<Rightarrow> 'a res) \<Rightarrow> 'a res" where
  "WithKey s action = (if destroyed s then Inl (Panic ''FATAL: Use after free in SecureBuffer'')
     else action (sb_data s))"

definition IsDestroyed :: "SecureBuffer \<Rightarrow> bool" where
  "IsDestroyed s = destroyed s"

definition Len :: "SecureBuffer \<Rightarrow> nat" where
  "Len s = (if destroyed s then 0 else length (sb_data s))"

section \<open>Properties\<close>

lemma those_Some: "those xs = Some ys \<longleftrightarrow> xs = map Some ys"
  by (induction xs arbitrary: ys) (auto split: option.splits)

lemma GenerateSecureRandom_length:
  "GenerateSecureRandom n r = (Inr bs, r') \<Longrightarrow> 0 \<le> n \<and> length bs = nat n"
  by (auto simp: GenerateSecureRandom_def rand_Read_def those_Some split: if_splits option.splits
      dest: arg_cong [where f = length])

text \<open>A stream that serves the given bytes from the current position.\<close>

definition serves :: "csprng \<Rightarrow> bytes \<Rightarrow> bool" where
  "serves r bs \<longleftrightarrow> (\<forall>i<length bs. stream r (pos r + i) = Some (bs ! i))"

lemma GenerateSecureRandom_serves:
  assumes "serves r (bs @ rest)" "int (length bs) = n"
  shows "\<exists>r'. GenerateSecureRandom n r = (Inr bs, r') \<and> serves r' rest"
proof (cases "n = 0")
  case True
  with assms show ?thesis by (auto simp: GenerateSecureRandom_def)
next
  case False
  have "map (stream r) [pos r..<pos r + length bs] = map Some bs"
    using assms(1) by (intro nth_equalityI) (auto simp: serves_def nth_append)
  then have "those (map (stream r) [pos r..<pos r + nat n]) = Some bs"
    using assms(2) by (auto simp: those_Some)
  moreover have "serves (r\<lparr>pos := pos r + nat n\<rparr>) rest"
    using assms by (auto simp: serves_def nth_append add.assoc dest: spec [of _ "_ + length bs"])
  ultimately show ?thesis
    using assms(2) False by (auto simp: GenerateSecureRandom_def rand_Read_def)
qed

lemma WithKey_after_Wipe: "WithKey (Wipe s) action = Inl (Panic ''FATAL: Use after free in SecureBuffer'')"
  by (simp add: WithKey_def Wipe_def)

lemma Wipe_idem: "Wipe (Wipe s) = Wipe s"
  by (simp add: Wipe_def)

end
