(* ===== verification/Shamir.thy ===== *)
theory Shamir
  imports GF256 Interpolation Memguard
begin

text \<open>
  \<^verbatim>\<open>internal/seal/shamir.go\<close>: splitting a secret into shares and recombining it, over the
  table-based field arithmetic of theory \<open>GF256\<close>. The loops of the source are folds over
  index ranges; the share matrix is a list of byte lists updated in place.
\<close>

section \<open>Split\<close>

text \<open>\<^verbatim>\<open>gfEval\<close>: Horner's rule from the last coefficient down.\<close>

definition gfEval :: "byte \<Rightarrow> bytes \<Rightarrow> byte" where
  "gfEval x coef = fold (\<lambda>i result. gfMul result x XOR coef ! i) (rev [0..<length coef]) 0"

text \<open>The inner loop: column \<open>1 + idx\<close> of every share.\<close>

definition split_column :: "nat \<Rightarrow> nat \<Rightarrow> bytes \<Rightarrow> bytes list \<Rightarrow> bytes list" where
  "split_column parts idx coef shares =
     fold (\<lambda>x sh. sh[x - 1 := (sh ! (x - 1))[1 + idx := gfEval (of_nat x) coef]]) [1..<parts + 1] shares"

text \<open>The outer loop over the bytes of the secret that are left, from index \<open>idx\<close>.\<close>

fun split_loop :: "nat \<Rightarrow> int \<Rightarrow> nat \<Rightarrow> bytes \<Rightarrow> bytes list \<Rightarrow> csprng \<Rightarrow> bytes list res \<times> csprng" where
  "split_loop parts threshold idx [] shares r = (Inr shares, r)"
| "split_loop parts threshold idx (s # sec) shares r =
     (case GenerateSecureRandom (threshold - 1) r of
        (Inl e, r') \<Rightarrow> (Inl (Wrap ''seal: generate polynomial coefficients'' e), r')
      | (Inr randCoef, r') \<Rightarrow>
          split_loop parts threshold (idx + 1) sec (split_column parts idx (s # randCoef) shares) r')"

definition Split :: "SecureBuffer option \<Rightarrow> int \<Rightarrow> int \<Rightarrow> csprng \<Rightarrow> bytes list res \<times> csprng" where
  "Split secret parts threshold r =
     (case secret of
        None \<Rightarrow> (Inl ErrInvalidParam, r)
      | Some sb \<Rightarrow>
          if parts < 2 \<or> parts > 255 then (Inl (Wrap ''parts must be in [2, 255]'' ErrInvalidParam), r)
          else if threshold < 2 \<or> threshold > parts
            then (Inl (Wrap ''threshold must be in [2, parts]'' ErrInvalidParam), r)
          else if Len sb = 0 then (Inl (Wrap ''secret is empty'' ErrInvalidParam), r)
          else
            let shares = map (\<lambda>i. of_nat (i + 1) # replicate (Len sb) 0) [0..<nat parts]
            in if destroyed sb then (Inl (Panic ''FATAL: Use after free in SecureBuffer''), r)
               else split_loop (nat parts) threshold 0 (sb_data sb) shares r)"

section \<open>Combine\<close>

text \<open>The validation loops: equal lengths and non-zero x first, unique x second.\<close>

fun check_shares :: "nat \<Rightarrow> bytes list \<Rightarrow> unit res" where
  "check_shares expectedLen [] = Inr ()"
| "check_shares expectedLen (s # ss) =
     (if length s \<noteq> expectedLen then Inl (Wrap ''share length mismatch'' ErrInvalidShareFormat)
      else if s ! 0 = 0 then Inl (Wrap ''share has x=0'' ErrInvalidShareFormat)
      else check_shares expectedLen ss)"

fun check_unique :: "byte set \<Rightarrow> bytes list \<Rightarrow> unit res" where
  "check_unique xSeen [] = Inr ()"
| "check_unique xSeen (s # ss) =
     (if s ! 0 \<in> xSeen then Inl (Wrap ''duplicate x'' ErrInvalidShareFormat)
      else check_unique (insert (s ! 0) xSeen) ss)"

definition num_den :: "bytes list \<Rightarrow> nat \<Rightarrow> byte \<times> byte" where
  "num_den shares i =
     fold (\<lambda>j (num, den). if j = i then (num, den)
            else (gfMul num (shares ! j ! 0), gfMul den (shares ! i ! 0 XOR shares ! j ! 0)))
       [0..<length shares] (1, 1)"

definition combine_term :: "bytes list \<Rightarrow> nat \<Rightarrow> nat \<Rightarrow> byte res" where
  "combine_term shares idx i =
     (case num_den shares i of (num, den) \<Rightarrow>
        (case gfInv den of
           Inl e \<Rightarrow> Inl (Wrap ''seal: combine'' e)
         | Inr denInv \<Rightarrow> Inr (gfMul (shares ! i ! (1 + idx)) (gfMul num denInv))))"

fun combine_acc :: "bytes list \<Rightarrow> nat \<Rightarrow> nat list \<Rightarrow> byte \<Rightarrow> byte res" where
  "combine_acc shares idx [] acc = Inr acc"
| "combine_acc shares idx (i # is) acc =
     bindR (combine_term shares idx i) (\<lambda>term. combine_acc shares idx is (acc XOR term))"

fun combine_bytes :: "bytes list \<Rightarrow> nat list \<Rightarrow> bytes res" where
  "combine_bytes shares [] = Inr []"
| "combine_bytes shares (idx # idxs) =
     bindR (combine_acc shares idx [0..<length shares] 0) (\<lambda>acc.
     bindR (combine_bytes shares idxs) (\<lambda>plain. Inr (acc # plain)))"

definition Combine :: "bytes list \<Rightarrow> SecureBuffer res" where
  "Combine shares =
     (if length shares < 2 then Inl (Wrap ''need at least 2 shares'' ErrInvalidShareFormat)
      else
        let expectedLen = length (shares ! 0)
        in if expectedLen < 2 then Inl ErrInvalidShareFormat
           else
             bindR (check_shares expectedLen shares) (\<lambda>_.
             bindR (check_unique {} shares) (\<lambda>_.
             bindR (combine_bytes shares [0..<expectedLen - 1]) (\<lambda>plain.
               Inr (fst (NewSecureBuffer plain))))))"

definition CombineWithThreshold :: "bytes list \<Rightarrow> int \<Rightarrow> SecureBuffer res" where
  "CombineWithThreshold shares threshold =
     (if threshold > 0 \<and> int (length shares) < threshold
      then Inl (Wrap ''need at least threshold shares'' ErrInvalidShareFormat)
      else Combine shares)"

section \<open>What Split computes\<close>

lemma gf_of_gfEval: "gf_of (gfEval x coef) = horner (map gf_of coef) (gf_of x)"
proof -
  have "gf_of (fold (\<lambda>i result. gfMul result x XOR coef ! i) (rev [n..<length coef]) 0)
      = horner (map gf_of (drop n coef)) (gf_of x)" if "n \<le> length coef" for n
    using that
  proof (induction "length coef - n" arbitrary: n)
    case (Suc d)
    then have n: "n < length coef" by simp
    have "rev [n..<length coef] = rev [Suc n..<length coef] @ [n]"
      using n by (simp add: upt_conv_Cons)
    moreover have "drop n coef = coef ! n # drop (Suc n) coef"
      using n by (simp add: Cons_nth_drop_Suc)
    ultimately show ?case
      using Suc.hyps(1) [of "Suc n"] Suc.hyps(2) n
      by (simp add: gf_of_simps mult.commute add.commute)
  qed (simp add: gf_of_simps)
  from this [of 0] show ?thesis by (simp add: gfEval_def)
qed

text \<open>The share of point \<open>x\<close> for the polynomials \<open>coefs\<close>, one per byte of the secret.\<close>

definition share_of :: "bytes list \<Rightarrow> nat \<Rightarrow> bytes" where
  "share_of coefs x = of_nat x # map (gfEval (of_nat x)) coefs"

lemma split_column_length [simp]: "length (split_column parts idx coef shares) = length shares"
proof -
  have "length (fold (\<lambda>x sh. sh[x - 1 := (sh ! (x - 1))[1 + idx := gfEval (of_nat x) coef]]) xs shares)
      = length shares" for xs
    by (induction xs arbitrary: shares) simp_all
  then show ?thesis by (simp add: split_column_def)
qed

lemma split_column_nth:
  assumes "k < parts" "length shares = parts"
  shows "split_column parts idx coef shares ! k =
    (shares ! k)[1 + idx := gfEval (of_nat (k + 1)) coef]"
proof -
  have "fold (\<lambda>x sh. sh[x - 1 := (sh ! (x - 1))[1 + idx := gfEval (of_nat x) coef]]) [1..<n + 1] shares ! k
      = (if k < n then (shares ! k)[1 + idx := gfEval (of_nat (k + 1)) coef] else shares ! k)"
    (is "?f n ! k = _") if "n \<le> parts" for n
    using that
  proof (induction n)
    case (Suc n)
    have len: "length (?f n) = parts"
      using split_column_length [of n idx coef shares] assms(2) by (simp add: split_column_def)
    have "?f (Suc n) = (?f n)[n := (?f n ! n)[1 + idx := gfEval (of_nat (Suc n)) coef]]"
      by simp
    with Suc len assms show ?case
      by (auto simp: nth_list_update less_Suc_eq split: if_splits)
  qed simp
  from this [of parts] assms show ?thesis by (simp add: split_column_def)
qed

lemma list_update_fill:
  "(xs @ replicate (Suc n) a)[length xs := v] = (xs @ [v]) @ replicate n a"
  by (simp add: list_update_append)

lemma split_loop_Inr:
  assumes "split_loop parts threshold idx sec shares r = (Inr out, r')"
    and "length shares = parts" "1 \<le> threshold"
    and "\<And>k. k < parts \<Longrightarrow> shares ! k = share_of coefs (k + 1) @ replicate (length sec) 0"
    and "length coefs = idx"
  shows "\<exists>coefs'. length coefs' = length sec \<and>
    (\<forall>i < length sec. length (coefs' ! i) = nat threshold \<and> coefs' ! i ! 0 = sec ! i) \<and>
    length out = parts \<and> (\<forall>k<parts. out ! k = share_of (coefs @ coefs') (k + 1))"
  using assms
proof (induction sec arbitrary: idx shares r coefs)
  case Nil
  then show ?case by (intro exI [of _ "[]"]) auto
next
  case (Cons s sec)
  from Cons.prems(1) obtain rand r1 where rand: "GenerateSecureRandom (threshold - 1) r = (Inr rand, r1)"
    and rest: "split_loop parts threshold (idx + 1) sec (split_column parts idx (s # rand) shares) r1
      = (Inr out, r')"
    by (auto split: prod.splits sum.splits)
  have len: "length (s # rand) = nat threshold"
    using GenerateSecureRandom_length [OF rand] by auto
  have "split_column parts idx (s # rand) shares ! k =
      share_of (coefs @ [s # rand]) (k + 1) @ replicate (length sec) 0" if "k < parts" for k
    using split_column_nth [OF that Cons.prems(2)] Cons.prems(4) [OF that] Cons.prems(5)
      list_update_fill [of "map (gfEval (of_nat (k + 1))) coefs" "length sec" 0]
    by (simp add: share_of_def)
  then obtain coefs' where IH: "length coefs' = length sec"
    "\<forall>i < length sec. length (coefs' ! i) = nat threshold \<and> coefs' ! i ! 0 = sec ! i"
    "length out = parts" "\<forall>k<parts. out ! k = share_of ((coefs @ [s # rand]) @ coefs') (k + 1)"
    using Cons.IH [OF rest, of "coefs @ [s # rand]"] Cons.prems(2,3,5) by auto
  show ?case
    using IH len
    by (intro exI [of _ "(s # rand) # coefs'"]) (auto simp: less_Suc_eq_0_disj)
qed

theorem Split_Inr:
  assumes "Split (Some sb) parts threshold r = (Inr shares, r')"
  obtains coefs where "length coefs = length (sb_data sb)"
    "\<And>i. i < length (sb_data sb) \<Longrightarrow> length (coefs ! i) = nat threshold \<and> coefs ! i ! 0 = sb_data sb ! i"
    "length shares = nat parts" "\<And>k. k < nat parts \<Longrightarrow> shares ! k = share_of coefs (k + 1)"
    "2 \<le> threshold" "threshold \<le> parts" "parts \<le> 255" "sb_data sb \<noteq> []" "\<not> destroyed sb"
proof -
  have params: "2 \<le> threshold" "threshold \<le> parts" "parts \<le> 255" "sb_data sb \<noteq> []" "\<not> destroyed sb"
    and loop: "split_loop (nat parts) threshold 0 (sb_data sb)
      (map (\<lambda>i. of_nat (i + 1) # replicate (Len sb) 0) [0..<nat parts]) r = (Inr shares, r')"
    using assms by (auto simp: Split_def Len_def Let_def split: if_splits)
  have "\<exists>coefs'. length coefs' = length (sb_data sb) \<and>
    (\<forall>i < length (sb_data sb). length (coefs' ! i) = nat threshold \<and> coefs' ! i ! 0 = sb_data sb ! i) \<and>
    length shares = nat parts \<and> (\<forall>k<nat parts. shares ! k = share_of ([] @ coefs') (k + 1))"
    by (rule split_loop_Inr [OF loop]) (use params in \<open>simp_all add: share_of_def Len_def\<close>)
  then show ?thesis using that params by auto
qed

lemma Split_shape:
  assumes "Split (Some sb) parts threshold r = (Inr shares, r')"
  shows "2 \<le> threshold" "threshold \<le> parts" "parts \<le> 255" "length shares = nat parts"
    "\<forall>s\<in>set shares. length s = length (sb_data sb) + 1" "sb_data sb \<noteq> []" "\<not> destroyed sb"
  using assms by (rule Split_Inr, auto simp: in_set_conv_nth share_of_def)+

section \<open>What Combine computes\<close>

abbreviation xs_of :: "bytes list \<Rightarrow> gf list" where
  "xs_of shares \<equiv> map (\<lambda>s. gf_of (s ! 0)) shares"

abbreviation ys_of :: "bytes list \<Rightarrow> nat \<Rightarrow> gf list" where
  "ys_of shares idx \<equiv> map (\<lambda>s. gf_of (s ! (1 + idx))) shares"

lemma num_den_prod:
  assumes "i < length shares" "num_den shares i = (num, den)"
  shows "gf_of num = (\<Prod>j \<in> {..<length shares} - {i}. xs_of shares ! j)"
    and "gf_of den = (\<Prod>j \<in> {..<length shares} - {i}. xs_of shares ! i - xs_of shares ! j)"
proof -
  have "case fold (\<lambda>j (num, den). if j = i then (num, den)
            else (gfMul num (shares ! j ! 0), gfMul den (shares ! i ! 0 XOR shares ! j ! 0)))
       [0..<n] (1, 1) of (num, den) \<Rightarrow>
         gf_of num = (\<Prod>j \<in> {..<n} - {i}. xs_of shares ! j) \<and>
         gf_of den = (\<Prod>j \<in> {..<n} - {i}. xs_of shares ! i - xs_of shares ! j)"
    if "n \<le> length shares" for n
    using that
  proof (induction n)
    case (Suc n)
    show ?case
    proof (cases "n = i")
      case True
      then have "{..<Suc n} - {i} = {..<n} - {i}" by auto
      with Suc True show ?thesis by simp
    next
      case False
      then have "{..<Suc n} - {i} = insert n ({..<n} - {i})" by auto
      with Suc False assms(1) show ?thesis
        by (auto simp: gf_of_simps simp flip: gf_minus_eq_plus split: prod.splits)
    qed
  qed (simp add: gf_of_simps)
  from this [of "length shares"] assms
  show "gf_of num = (\<Prod>j \<in> {..<length shares} - {i}. xs_of shares ! j)"
    and "gf_of den = (\<Prod>j \<in> {..<length shares} - {i}. xs_of shares ! i - xs_of shares ! j)"
    by (simp_all add: num_den_def)
qed

lemma combine_term_eq:
  assumes "distinct (xs_of shares)" "i < length shares"
  shows "combine_term shares idx i =
    Inr (byte_of (ys_of shares idx ! i * lagrange_basis (xs_of shares) i 0))"
proof -
  obtain num den where nd: "num_den shares i = (num, den)" by fastforce
  note nd' = num_den_prod [OF assms(2) nd]
  have "gf_of den \<noteq> 0"
    unfolding nd'(2) using assms by (auto simp: prod_zero_iff distinct_conv_nth)
  then have "den \<noteq> 0" by simp
  moreover have "lagrange_basis (xs_of shares) i 0 = gf_of num * inverse (gf_of den)"
    unfolding lagrange_basis_def nd' by (simp add: gf_minus_eq_plus flip: divide_inverse prod_dividef)
  ultimately show ?thesis
    using assms(2) nd
    by (simp add: combine_term_def gfInv_eq) (metis byte_of_gf_of gf_of_byte_of gf_of_gfMul)
qed

lemma combine_acc_eq:
  assumes "distinct (xs_of shares)" "set is \<subseteq> {..<length shares}"
  shows "combine_acc shares idx is acc =
    Inr (byte_of (gf_of acc + (\<Sum>i \<leftarrow> is. ys_of shares idx ! i * lagrange_basis (xs_of shares) i 0)))"
  using assms(2)
proof (induction "is" arbitrary: acc)
  case (Cons i "is")
  then show ?case
    by (simp add: combine_term_eq [OF assms(1)] gf_of_simps add.assoc)
qed simp

lemma combine_bytes_eq:
  assumes "distinct (xs_of shares)"
  shows "combine_bytes shares idxs = Inr (map (\<lambda>idx. byte_of (lagrange (xs_of shares) (ys_of shares idx) 0)) idxs)"
proof (induction idxs)
  case (Cons idx idxs)
  have "combine_acc shares idx [0..<length shares] 0 = Inr (byte_of (lagrange (xs_of shares) (ys_of shares idx) 0))"
    by (subst combine_acc_eq [OF assms])
      (auto simp: lagrange_def gf_of_simps sum_list_sum_nth atLeast0LessThan interv_sum_list_conv_sum_set_nat)
  with Cons show ?case by simp
qed simp

lemma check_shares_Inr: "check_shares n ss = Inr () \<longleftrightarrow> (\<forall>s \<in> set ss. length s = n \<and> s ! 0 \<noteq> 0)"
  by (induction ss) auto

lemma check_unique_Inr:
  "check_unique seen ss = Inr () \<longleftrightarrow>
     distinct (map (\<lambda>s. s ! 0) ss) \<and> (\<forall>s \<in> set ss. s ! 0 \<notin> seen)"
proof (induction ss arbitrary: seen)
  case (Cons a ss)
  have "a ! 0 \<notin> (\<lambda>s. s ! 0) ` set ss \<longleftrightarrow> (\<forall>s \<in> set ss. s ! 0 \<noteq> a ! 0)"
    by (auto simp: image_iff dest: sym)
  with Cons show ?case by auto
qed simp

text \<open>The shares \<^verbatim>\<open>Combine\<close> accepts: at least two, all of one length of at least two bytes,
  with non-zero and pairwise different x.\<close>

definition valid_shares :: "bytes list \<Rightarrow> bool" where
  "valid_shares shares \<longleftrightarrow> 2 \<le> length shares \<and> 2 \<le> length (shares ! 0) \<and>
     (\<forall>s \<in> set shares. length s = length (shares ! 0) \<and> s ! 0 \<noteq> 0) \<and>
     distinct (map (\<lambda>s. s ! 0) shares)"

lemma distinct_xs_of: "distinct (map (\<lambda>s. s ! 0) shares) \<Longrightarrow> distinct (xs_of shares)"
  by (auto simp: distinct_map inj_on_def)

lemma Combine_valid:
  assumes "valid_shares shares"
  shows "Combine shares = Inr \<lparr>sb_data =
    map (\<lambda>idx. byte_of (lagrange (xs_of shares) (ys_of shares idx) 0)) [0..<length (shares ! 0) - 1],
    destroyed = False\<rparr>"
proof -
  have "check_shares (length (shares ! 0)) shares = Inr ()" "check_unique {} shares = Inr ()"
    and d: "distinct (xs_of shares)"
    using assms by (auto simp: check_shares_Inr check_unique_Inr valid_shares_def intro: distinct_xs_of)
  with assms show ?thesis
    by (auto simp: Combine_def Let_def valid_shares_def NewSecureBuffer_def combine_bytes_eq [OF d])
qed

lemma Combine_invalid:
  assumes "\<not> valid_shares shares"
  shows "\<exists>e. Combine shares = Inl e \<and> errors_is e ErrInvalidShareFormat"
proof -
  have shape: "\<exists>e. check_shares n ss = Inl e \<and> errors_is e ErrInvalidShareFormat"
    if "check_shares n ss \<noteq> Inr ()" for n ss
    using that by (induction ss) auto
  have uniq: "\<exists>e. check_unique seen ss = Inl e \<and> errors_is e ErrInvalidShareFormat"
    if "check_unique seen ss \<noteq> Inr ()" for seen ss
    using that by (induction ss arbitrary: seen) auto
  show ?thesis
  proof (cases "check_shares (length (shares ! 0)) shares = Inr ()")
    case True
    then have "\<forall>s \<in> set shares. length s = length (shares ! 0) \<and> s ! 0 \<noteq> 0"
      by (simp add: check_shares_Inr)
    with assms uniq [of "{}" shares] show ?thesis
      by (auto simp: Combine_def Let_def valid_shares_def True check_unique_Inr not_less)
  next
    case False
    with shape [OF False] show ?thesis by (auto simp: Combine_def Let_def)
  qed
qed

section \<open>Round trip\<close>

lemma of_nat_byte_inj: "m < 256 \<Longrightarrow> n < 256 \<Longrightarrow> (of_nat m :: byte) = of_nat n \<longleftrightarrow> m = n"
  by (simp add: word_unat_eq_iff unat_of_nat)

lemma of_nat_Suc_neq_0: "k < 255 \<Longrightarrow> (of_nat (k + 1) :: byte) \<noteq> 0"
  using of_nat_byte_inj [of "k + 1" 0] by simp

lemma point_inj: "distinct ks \<Longrightarrow> set ks \<subseteq> {..<255} \<Longrightarrow> distinct (map (\<lambda>k. of_nat (k + 1) :: byte) ks)"
proof -
  have "inj_on (\<lambda>k. of_nat (k + 1) :: byte) {..<255}"
  proof (rule inj_onI)
    fix x y :: nat
    assume "x \<in> {..<255}" "y \<in> {..<255}" "(of_nat (x + 1) :: byte) = of_nat (y + 1)"
    then show "x = y" using of_nat_byte_inj [of "x + 1" "y + 1"] by simp
  qed
  then show "distinct ks \<Longrightarrow> set ks \<subseteq> {..<255} \<Longrightarrow> distinct (map (\<lambda>k. of_nat (k + 1) :: byte) ks)"
    by (metis distinct_map inj_on_subset)
qed

lemma share_points:
  assumes "distinct ks" "set ks \<subseteq> {..<255}"
  shows "distinct (map (\<lambda>k. gf_of (of_nat (k + 1))) ks)"
    and "0 \<notin> set (map (\<lambda>k. gf_of (of_nat (k + 1))) ks)"
proof -
  have "map (\<lambda>k. gf_of (of_nat (k + 1))) ks = map gf_of (map (\<lambda>k. of_nat (k + 1)) ks)" by simp
  then show "distinct (map (\<lambda>k. gf_of (of_nat (k + 1))) ks)"
    using point_inj [OF assms] by (simp only: distinct_map [of gf_of]) (simp add: inj_on_def)
  show "0 \<notin> set (map (\<lambda>k. gf_of (of_nat (k + 1))) ks)"
    using assms(2) of_nat_Suc_neq_0 by auto
qed

lemma share_roundtrip:
  assumes coefs: "length coefs = length sec"
      "\<And>i. i < length sec \<Longrightarrow> length (coefs ! i) = t \<and> coefs ! i ! 0 = sec ! i"
    and ks: "distinct ks" "set ks \<subseteq> {..<255}" "t \<le> length ks"
    and "2 \<le> t" "sec \<noteq> []"
  shows "Combine (map (\<lambda>k. share_of coefs (k + 1)) ks) = Inr \<lparr>sb_data = sec, destroyed = False\<rparr>"
proof -
  let ?shares = "map (\<lambda>k. share_of coefs (k + 1)) ks"
  let ?xs = "map (\<lambda>k. gf_of (of_nat (k + 1))) ks"
  have len: "length (?shares ! 0) = length sec + 1"
    using ks assms(6) coefs(1) by (cases ks) (simp_all add: share_of_def)
  have xs: "xs_of ?shares = ?xs" by (simp add: share_of_def)
  have "distinct (map (\<lambda>s. s ! 0) ?shares)"
    using point_inj [OF ks(1,2)] by (simp add: share_of_def comp_def)
  moreover have "length s = length sec + 1 \<and> s ! 0 \<noteq> 0" if "s \<in> set ?shares" for s
    using that ks(2) of_nat_Suc_neq_0 coefs(1) by (auto simp: share_of_def)
  ultimately have valid: "valid_shares ?shares"
    unfolding valid_shares_def len using ks(3) assms(6,7) by (simp add: Suc_le_eq)
  have "byte_of (lagrange ?xs (ys_of ?shares i) 0) = sec ! i" if "i < length sec" for i
  proof -
    have "ys_of ?shares i = map (horner (map gf_of (coefs ! i))) ?xs"
      using that coefs(1) by (simp add: share_of_def gf_of_gfEval)
    moreover have "length (map gf_of (coefs ! i)) \<le> length ?xs"
      using coefs(2) [OF that] ks(3) by simp
    ultimately have "lagrange ?xs (ys_of ?shares i) 0 = horner (map gf_of (coefs ! i)) 0"
      using lagrange_horner [OF share_points(1) [OF ks(1,2)], of "map gf_of (coefs ! i)" 0]
      by metis
    also have "\<dots> = gf_of (sec ! i)"
      using coefs(2) [OF that] assms(6) by (cases "coefs ! i") auto
    finally show ?thesis by simp
  qed
  then show ?thesis
    unfolding Combine_valid [OF valid] len xs by (auto intro!: nth_equalityI)
qed

text \<open>The randomness of one run: \<open>rands\<close> holds the random coefficients of each secret byte.\<close>

definition good_rands :: "nat \<Rightarrow> nat \<Rightarrow> bytes list \<Rightarrow> bool" where
  "good_rands n d rands \<longleftrightarrow> length rands = n \<and> (\<forall>c \<in> set rands. length c = d)"

lemma split_loop_serves:
  assumes "serves r (concat rands)" "good_rands (length sec) (nat threshold - 1) rands"
    and "length shares = parts" "1 \<le> threshold" "length coefs = idx"
    and "\<And>k. k < parts \<Longrightarrow> shares ! k = share_of coefs (k + 1) @ replicate (length sec) 0"
  shows "\<exists>r'. split_loop parts threshold idx sec shares r =
    (Inr (map (\<lambda>k. share_of (coefs @ map2 (#) sec rands) (k + 1)) [0..<parts]), r')"
  using assms
proof (induction sec arbitrary: rands idx shares r coefs)
  case Nil
  then show ?case by (auto simp: good_rands_def intro!: nth_equalityI)
next
  case (Cons s sec)
  then obtain c rands' where rands: "rands = c # rands'" "int (length c) = threshold - 1"
    "good_rands (length sec) (nat threshold - 1) rands'"
    by (cases rands) (auto simp: good_rands_def)
  obtain r1 where r1: "GenerateSecureRandom (threshold - 1) r = (Inr c, r1)" "serves r1 (concat rands')"
    using GenerateSecureRandom_serves [of r c "concat rands'"] Cons.prems(1) rands by auto
  have "split_column parts idx (s # c) shares ! k =
      share_of (coefs @ [s # c]) (k + 1) @ replicate (length sec) 0" if "k < parts" for k
    using split_column_nth [OF that Cons.prems(3)] Cons.prems(6) [OF that] Cons.prems(5)
      list_update_fill [of "map (gfEval (of_nat (k + 1))) coefs" "length sec" 0]
    by (simp add: share_of_def)
  then show ?case
    using Cons.IH [OF r1(2) rands(3), of "split_column parts idx (s # c) shares" "coefs @ [s # c]" "idx + 1"]
      Cons.prems(3-5) r1(1) rands(1) by simp
qed

lemma Split_serves:
  assumes "2 \<le> threshold" "threshold \<le> parts" "parts \<le> 255" "\<not> destroyed sb" "sb_data sb \<noteq> []"
    and "good_rands (length (sb_data sb)) (nat threshold - 1) rands" "serves r (concat rands)"
  shows "\<exists>r'. Split (Some sb) parts threshold r =
    (Inr (map (\<lambda>k. share_of (map2 (#) (sb_data sb) rands) (k + 1)) [0..<nat parts]), r')"
  using split_loop_serves [OF assms(7,6), of
      "map (\<lambda>i. of_nat (i + 1) # replicate (length (sb_data sb)) 0) [0..<nat parts]" "nat parts" "[]" 0]
    assms(1-5)
  by (simp add: Split_def Len_def Let_def share_of_def)

section \<open>Perfect secrecy below the threshold\<close>

lemma ex1_list:
  assumes "\<And>i. i < n \<Longrightarrow> \<exists>!c. P i c"
  shows "\<exists>!cs. length cs = n \<and> (\<forall>i<n. P i (cs ! i))"
proof (rule ex1I)
  show "length (map (\<lambda>i. THE c. P i c) [0..<n]) = n \<and> (\<forall>i<n. P i (map (\<lambda>i. THE c. P i c) [0..<n] ! i))"
    using theI' [OF assms] by simp
  fix cs
  assume "length cs = n \<and> (\<forall>i<n. P i (cs ! i))"
  then show "cs = map (\<lambda>i. THE c. P i c) [0..<n]"
    using assms by (intro nth_equalityI) (simp_all, metis the1_equality)
qed

lemma ex1_coef:
  assumes "distinct ks" "set ks \<subseteq> {..<255}"
  shows "\<exists>!c. length c = length ks \<and> (\<forall>k \<in> set ks. gfEval (of_nat (k + 1)) (s # c) = y k)"
proof -
  let ?xs = "map (\<lambda>k. gf_of (of_nat (k + 1))) ks"
  let ?fits = "\<lambda>rs. length rs = length ?xs \<and> map (horner (gf_of s # rs)) ?xs = map (\<lambda>k. gf_of (y k)) ks"
  have "\<exists>!rs. ?fits rs"
    by (rule interpolation_unique [OF share_points [OF assms]]) simp
  then obtain rs where rs: "?fits rs" and unique: "\<And>rs'. ?fits rs' \<Longrightarrow> rs' = rs"
    by (elim ex1E) blast
  have iff: "(\<forall>k \<in> set ks. gfEval (of_nat (k + 1)) (s # c) = y k) \<longleftrightarrow>
      map (horner (gf_of s # map gf_of c)) ?xs = map (\<lambda>k. gf_of (y k)) ks" for c
    by (simp add: gf_of_gfEval flip: gf_of_inject [of "gfEval _ _"])
  show ?thesis
  proof (rule ex1I)
    have "map gf_of (map byte_of rs) = rs" by (simp add: comp_def)
    then show "length (map byte_of rs) = length ks \<and>
        (\<forall>k \<in> set ks. gfEval (of_nat (k + 1)) (s # map byte_of rs) = y k)"
      using rs unfolding iff by (simp only: length_map)
    fix c
    assume "length c = length ks \<and> (\<forall>k \<in> set ks. gfEval (of_nat (k + 1)) (s # c) = y k)"
    then have "map gf_of c = rs" using unique [of "map gf_of c"] unfolding iff by (simp only: length_map)
    then show "c = map byte_of rs" by (metis (no_types, lifting) byte_of_gf_of map_idI map_map o_apply)
  qed
qed

lemma ex1_rands:
  assumes "distinct ks" "set ks \<subseteq> {..<255}"
    and "\<And>k. k \<in> set ks \<Longrightarrow> shares ! k ! 0 = of_nat (k + 1) \<and> length (shares ! k) = Suc (length sec)"
  shows "\<exists>!rands. good_rands (length sec) (length ks) rands \<and>
    (\<forall>k \<in> set ks. share_of (map2 (#) sec rands) (k + 1) = shares ! k)"
proof -
  have "good_rands (length sec) (length ks) rands \<and>
      (\<forall>k \<in> set ks. share_of (map2 (#) sec rands) (k + 1) = shares ! k) \<longleftrightarrow>
      length rands = length sec \<and> (\<forall>i<length sec. length (rands ! i) = length ks \<and>
      (\<forall>k \<in> set ks. gfEval (of_nat (k + 1)) (sec ! i # rands ! i) = shares ! k ! (i + 1)))" for rands
  proof (cases "length rands = length sec")
    case True
    have "share_of (map2 (#) sec rands) (k + 1) = shares ! k \<longleftrightarrow>
        (\<forall>i<length sec. gfEval (of_nat (k + 1)) (sec ! i # rands ! i) = shares ! k ! (i + 1))"
      if "k \<in> set ks" for k
      using assms(3) [OF that] True
      by (auto simp: share_of_def list_eq_iff_nth_eq nth_Cons less_Suc_eq_0_disj simp del: of_nat_Suc of_nat_add)
    with True show ?thesis by (auto simp: good_rands_def all_set_conv_all_nth)
  qed (simp add: good_rands_def)
  then show ?thesis
    using ex1_list [OF ex1_coef [OF assms(1,2)], of "length sec" "\<lambda>i. sec ! i" "\<lambda>i k. shares ! k ! (i + 1)"]
    by (simp only:)
qed

text \<open>With the coefficients fixed, a run of \<^verbatim>\<open>Split\<close> reproduces given shares exactly when its
  polynomials take their values.\<close>

lemma Split_same_shares:
  assumes "2 \<le> threshold" "threshold \<le> parts" "parts \<le> 255" "\<not> destroyed sb" "sb_data sb \<noteq> []"
    and "good_rands (length (sb_data sb)) (nat threshold - 1) rands" "set ks \<subseteq> {..<nat parts}"
  shows "(\<forall>r. serves r (concat rands) \<longrightarrow>
      (\<exists>out r'. Split (Some sb) parts threshold r = (Inr out, r') \<and> (\<forall>k \<in> set ks. out ! k = shares ! k))) \<longleftrightarrow>
    (\<forall>k \<in> set ks. share_of (map2 (#) (sb_data sb) rands) (k + 1) = shares ! k)"
proof -
  let ?out = "map (\<lambda>k. share_of (map2 (#) (sb_data sb) rands) (k + 1)) [0..<nat parts]"
  have run: "\<exists>r'. Split (Some sb) parts threshold r = (Inr ?out, r')" if "serves r (concat rands)" for r
    using Split_serves [OF assms(1-6) that] .
  have "?out ! k = share_of (map2 (#) (sb_data sb) rands) (k + 1)" if "k \<in> set ks" for k
    using that assms(7) by auto
  then have eq: "(\<forall>k \<in> set ks. ?out ! k = shares ! k) \<longleftrightarrow>
      (\<forall>k \<in> set ks. share_of (map2 (#) (sb_data sb) rands) (k + 1) = shares ! k)" by simp
  have "serves \<lparr>stream = \<lambda>i. Some (concat rands ! i), pos = 0\<rparr> (concat rands)"
    by (simp add: serves_def)
  with run have "(\<forall>r. serves r (concat rands) \<longrightarrow>
      (\<exists>out r'. Split (Some sb) parts threshold r = (Inr out, r') \<and> (\<forall>k \<in> set ks. out ! k = shares ! k))) \<longleftrightarrow>
      (\<forall>k \<in> set ks. ?out ! k = shares ! k)"
    by fastforce
  with eq show ?thesis by simp
qed

section \<open>The properties of the scheme\<close>

lemma Combine_Split:
  assumes "Split (Some sb) parts threshold r = (Inr shares, r')"
    and "distinct ks" "set ks \<subseteq> {..<nat parts}" "threshold \<le> int (length ks)"
  shows "Combine (map (\<lambda>k. shares ! k) ks) = Inr sb"
proof -
  from assms(1) obtain coefs where coefs: "length coefs = length (sb_data sb)"
    "\<And>i. i < length (sb_data sb) \<Longrightarrow> length (coefs ! i) = nat threshold \<and> coefs ! i ! 0 = sb_data sb ! i"
    and shares: "length shares = nat parts" "\<And>k. k < nat parts \<Longrightarrow> shares ! k = share_of coefs (k + 1)"
    and params: "2 \<le> threshold" "threshold \<le> parts" "parts \<le> 255" "sb_data sb \<noteq> []" "\<not> destroyed sb"
    by (rule Split_Inr) blast
  have ks: "set ks \<subseteq> {..<255}" "nat threshold \<le> length ks" "2 \<le> nat threshold"
    using assms(3,4) params by auto
  have eq: "map (\<lambda>k. shares ! k) ks = map (\<lambda>k. share_of coefs (k + 1)) ks"
    using assms(3) shares(2) by auto
  have "Combine (map (\<lambda>k. shares ! k) ks) = Inr \<lparr>sb_data = sb_data sb, destroyed = False\<rparr>"
    unfolding eq by (rule share_roundtrip [OF coefs assms(2) ks params(4)])
  then show ?thesis
    using params(5) by simp
qed

text \<open>
  Property C1. Recombination inverts splitting: whatever the random coefficients, any
  \<open>threshold\<close> or more of the shares that \<^verbatim>\<open>Split\<close> returns, in any order and without
  repetition, are accepted by \<^verbatim>\<open>CombineWithThreshold\<close>, and the buffer it returns holds
  exactly the secret.
\<close>

theorem shamir_roundtrip:
  assumes "Split (Some sb) parts threshold r = (Inr shares, r')"
    and "distinct ks" "set ks \<subseteq> {..<nat parts}" "threshold \<le> int (length ks)"
  shows "CombineWithThreshold (map (\<lambda>k. shares ! k) ks) threshold = Inr sb"
  using Combine_Split [OF assms] assms(4) by (simp add: CombineWithThreshold_def)

theorem shamir_roundtrip_witness:
  "\<exists>shares r'. Split (Some \<lparr>sb_data = [42, 7], destroyed = False\<rparr>) 5 3 \<lparr>stream = \<lambda>i. Some (of_nat i), pos = 9\<rparr>
      = (Inr shares, r') \<and>
    CombineWithThreshold (map (\<lambda>k. shares ! k) [4, 0, 2]) 3 = Inr \<lparr>sb_data = [42, 7], destroyed = False\<rparr>"
proof -
  let ?sb = "\<lparr>sb_data = [42, 7], destroyed = False\<rparr>" and ?r = "\<lparr>stream = \<lambda>i. Some (of_nat i), pos = 9\<rparr>"
  obtain shares r' where s: "Split (Some ?sb) 5 3 ?r = (Inr shares, r')"
    using Split_serves [of 3 5 ?sb "[[9, 10], [11, 12]]" ?r]
    by (auto simp: good_rands_def serves_def numeral_eq_Suc less_Suc_eq)
  moreover have "CombineWithThreshold (map (\<lambda>k. shares ! k) [4, 0, 2]) 3 = Inr ?sb"
    by (rule shamir_roundtrip [OF s]) auto
  ultimately show ?thesis by blast
qed

text \<open>
  Property C11. Below the threshold the shares say nothing: given the \<open>threshold - 1\<close> shares
  at the points \<open>ks\<close> of a run of \<^verbatim>\<open>Split\<close> on one secret, for every other secret of the
  same length there is exactly one choice of random coefficients with which \<^verbatim>\<open>Split\<close>
  produces the very same shares at those points. Uniform coefficients therefore make every
  secret equally likely.
\<close>

theorem shamir_secrecy:
  assumes split: "Split (Some sb) parts threshold r = (Inr shares, r')"
    and ks: "distinct ks" "set ks \<subseteq> {..<nat parts}" "int (length ks) = threshold - 1"
    and sb': "\<not> destroyed sb'" "length (sb_data sb') = length (sb_data sb)"
  shows "\<exists>!rands. good_rands (length (sb_data sb')) (nat threshold - 1) rands \<and>
    (\<forall>r2. serves r2 (concat rands) \<longrightarrow>
      (\<exists>shares2 r2'. Split (Some sb') parts threshold r2 = (Inr shares2, r2') \<and>
        (\<forall>k \<in> set ks. shares2 ! k = shares ! k)))"
proof -
  let ?n = "length (sb_data sb')"
  from split obtain coefs where shares: "length coefs = length (sb_data sb)"
      "\<And>k. k < nat parts \<Longrightarrow> shares ! k = share_of coefs (k + 1)"
    and params: "2 \<le> threshold" "threshold \<le> parts" "parts \<le> 255" "sb_data sb \<noteq> []"
    by (rule Split_Inr) blast
  have ks': "set ks \<subseteq> {..<255}" "nat threshold - 1 = length ks" and nonempty: "sb_data sb' \<noteq> []"
    using ks params sb'(2) by auto
  have col: "shares ! k ! 0 = of_nat (k + 1) \<and> length (shares ! k) = Suc ?n" if "k \<in> set ks" for k
    using that ks(2) shares sb'(2) by (auto simp: share_of_def)
  have "\<exists>!rands. good_rands ?n (nat threshold - 1) rands \<and>
      (\<forall>k \<in> set ks. share_of (map2 (#) (sb_data sb') rands) (k + 1) = shares ! k)"
    unfolding ks'(2) by (rule ex1_rands [OF ks(1) ks'(1) col])
  then show ?thesis
    using Split_same_shares [OF params(1-3) sb'(1) nonempty _ ks(2)] by (simp cong: conj_cong)
qed

theorem shamir_secrecy_witness:
  "\<exists>shares r'. Split (Some \<lparr>sb_data = [42], destroyed = False\<rparr>) 3 2 \<lparr>stream = \<lambda>i. Some (of_nat i), pos = 9\<rparr>
      = (Inr shares, r') \<and>
    (\<exists>!rands. good_rands 1 1 rands \<and>
      (\<forall>r2. serves r2 (concat rands) \<longrightarrow>
        (\<exists>shares2 r2'. Split (Some \<lparr>sb_data = [99], destroyed = False\<rparr>) 3 2 r2 = (Inr shares2, r2') \<and>
          (\<forall>k \<in> set [1]. shares2 ! k = shares ! k))))"
proof -
  let ?sb = "\<lparr>sb_data = [42], destroyed = False\<rparr>" and ?sb' = "\<lparr>sb_data = [99], destroyed = False\<rparr>"
  let ?r = "\<lparr>stream = \<lambda>i. Some (of_nat i), pos = 9\<rparr>"
  obtain shares r' where s: "Split (Some ?sb) 3 2 ?r = (Inr shares, r')"
    using Split_serves [of 2 3 ?sb "[[9]]" ?r] by (auto simp: good_rands_def serves_def)
  show ?thesis
    using shamir_secrecy [OF s, of "[1]" ?sb'] s by auto
qed

text \<open>
  \<^verbatim>\<open>Combine\<close> accepts exactly the well-formed share lists (at least two shares of
  one length of at least two bytes, non-zero and pairwise different x), returns a live buffer of
  one byte less than a share, and every rejection is \<^verbatim>\<open>errInvalidShareFormat\<close>: the
  zero-denominator error of \<^verbatim>\<open>gfInv\<close> is never reached.
\<close>

theorem Combine_spec:
  "case Combine shares of
     Inr sb \<Rightarrow> valid_shares shares \<and> \<not> destroyed sb \<and> length (sb_data sb) = length (shares ! 0) - 1
   | Inl e \<Rightarrow> \<not> valid_shares shares \<and> errors_is e ErrInvalidShareFormat"
  using Combine_valid [of shares] Combine_invalid [of shares]
  by (cases "valid_shares shares") auto

text \<open>
  With a working random source, \<^verbatim>\<open>Split\<close> returns \<open>parts\<close> shares, each one byte
  longer than the secret, exactly for the documented parameters: a live, non-empty secret,
  \<open>parts\<close> in [2, 255] and \<open>threshold\<close> in [2, \<open>parts\<close>].
\<close>

definition split_params_ok :: "SecureBuffer option \<Rightarrow> int \<Rightarrow> int \<Rightarrow> bool" where
  "split_params_ok secret parts threshold \<longleftrightarrow>
     (case secret of None \<Rightarrow> False | Some sb \<Rightarrow> \<not> destroyed sb \<and> sb_data sb \<noteq> []) \<and>
     2 \<le> parts \<and> parts \<le> 255 \<and> 2 \<le> threshold \<and> threshold \<le> parts"

lemma Split_rejects: "\<not> split_params_ok secret parts threshold \<Longrightarrow>
  \<exists>e. Split secret parts threshold r = (Inl e, r) \<and> errors_is e ErrInvalidParam"
  by (auto simp: split_params_ok_def Split_def Len_def split: option.splits)

lemma working_stream_serves: "(\<And>i. stream r i \<noteq> None) \<Longrightarrow>
  \<exists>rands. good_rands n d rands \<and> serves r (concat rands)"
proof -
  assume live: "\<And>i. stream r i \<noteq> None"
  have "\<exists>rands. good_rands n d rands \<and> serves (r\<lparr>pos := p\<rparr>) (concat rands)" for p
  proof (induction n arbitrary: p)
    case (Suc n)
    obtain rands where rands: "good_rands n d rands" "serves (r\<lparr>pos := p + d\<rparr>) (concat rands)"
      using Suc.IH by blast
    have "serves (r\<lparr>pos := p\<rparr>) (map (\<lambda>i. the (stream r (p + i))) [0..<d] @ concat rands)"
      using live rands(2) by (auto simp: serves_def nth_append) (metis add.assoc add_diff_inverse_nat nat_add_left_cancel_less)
    with rands(1) show ?case
      by (intro exI [of _ "map (\<lambda>i. the (stream r (p + i))) [0..<d] # rands"]) (auto simp: good_rands_def)
  qed (auto simp: good_rands_def serves_def)
  from this [of "pos r"] show ?thesis by simp
qed

theorem Split_succeeds_iff:
  assumes "\<And>i. stream r i \<noteq> None"
  shows "(\<exists>shares r'. Split secret parts threshold r = (Inr shares, r') \<and> length shares = nat parts \<and>
      (\<forall>s \<in> set shares. length s = 1 + Len (the secret))) \<longleftrightarrow> split_params_ok secret parts threshold"
proof
  assume "split_params_ok secret parts threshold"
  then obtain sb where sb: "secret = Some sb" "\<not> destroyed sb" "sb_data sb \<noteq> []"
    and params: "2 \<le> threshold" "threshold \<le> parts" "parts \<le> 255"
    by (auto simp: split_params_ok_def split: option.splits)
  obtain rands where rands: "good_rands (length (sb_data sb)) (nat threshold - 1) rands" "serves r (concat rands)"
    using working_stream_serves [OF assms] by blast
  show "\<exists>shares r'. Split secret parts threshold r = (Inr shares, r') \<and> length shares = nat parts \<and>
      (\<forall>s \<in> set shares. length s = 1 + Len (the secret))"
    using Split_serves [OF params sb(2,3) rands] rands(1) sb by (auto simp: share_of_def Len_def good_rands_def)
next
  show "\<exists>shares r'. Split secret parts threshold r = (Inr shares, r') \<and> length shares = nat parts \<and>
      (\<forall>s \<in> set shares. length s = 1 + Len (the secret)) \<Longrightarrow> split_params_ok secret parts threshold"
    using Split_rejects [of secret parts threshold r] by fastforce
qed

theorem Split_succeeds_iff_witness:
  "(\<exists>shares r'. Split (Some \<lparr>sb_data = [42], destroyed = False\<rparr>) 3 2 \<lparr>stream = \<lambda>i. Some 5, pos = 0\<rparr> =
      (Inr shares, r') \<and> length shares = 3 \<and> (\<forall>s \<in> set shares. length s = 2)) \<and>
   \<not> (\<exists>shares r'. Split (Some \<lparr>sb_data = [42], destroyed = False\<rparr>) 3 4 \<lparr>stream = \<lambda>i. Some 5, pos = 0\<rparr> =
      (Inr shares, r') \<and> length shares = 3 \<and> (\<forall>s \<in> set shares. length s = 2))"
  using Split_succeeds_iff [of "\<lparr>stream = \<lambda>i. Some 5, pos = 0\<rparr>" "Some \<lparr>sb_data = [42], destroyed = False\<rparr>" 3 2]
    Split_succeeds_iff [of "\<lparr>stream = \<lambda>i. Some 5, pos = 0\<rparr>" "Some \<lparr>sb_data = [42], destroyed = False\<rparr>" 3 4]
  by (simp add: split_params_ok_def Len_def numeral_2_eq_2)

end
