(* ===== verification/GoLib.thy ===== *)
theory GoLib
  imports Prelude
begin

text \<open>
  What the sources use of Go's standard library: \<^verbatim>\<open>strings.EqualFold\<close>,
  \<^verbatim>\<open>strings.TrimSpace\<close>, \<^verbatim>\<open>strings.Split\<close>, \<^verbatim>\<open>strings.Contains\<close>,
  \<^verbatim>\<open>strconv.Atoi\<close>, \<^verbatim>\<open>encoding/hex\<close>, and the date format
  \<^verbatim>\<open>"20060102"\<close>. Strings are the bytes of Go strings. Where the string functions meet a
  byte outside ASCII they consult the Unicode tables; those tails are the fields of the
  parameter \<open>unicode\<close>, and the ASCII paths are written out as in the standard library.
\<close>

section \<open>Strings and byte slices\<close>

definition bytes_of :: "string \<Rightarrow> bytes" where
  "bytes_of s = map (\<lambda>c. word_of_nat (of_char c)) s"

definition string_of :: "bytes \<Rightarrow> string" where
  "string_of b = map (\<lambda>w. char_of (unat w)) b"

lemma unat_byte: "unat (b :: byte) < 256"
  using unsigned_less [of b] by simp

lemma bytes_of_string_of [simp]: "bytes_of (string_of b) = b"
  by (induction b) (simp_all add: bytes_of_def string_of_def unat_byte)

lemma string_of_bytes_of [simp]: "string_of (bytes_of s) = s"
  by (induction s) (simp_all add: bytes_of_def string_of_def unsigned_of_nat take_bit_eq_mod)

section \<open>strings.EqualFold and strings.TrimSpace\<close>

record unicode =
  u_fold :: "string \<Rightarrow> string \<Rightarrow> bool"
  u_trim :: "string \<Rightarrow> string"
  u_trim_right :: "string \<Rightarrow> string"

definition code :: "char \<Rightarrow> nat" where
  "code c = of_char c"

definition ascii :: "char \<Rightarrow> bool" where
  "ascii c \<longleftrightarrow> code c < 128"

text \<open>Equal bytes, or an upper-case letter and its lower-case form, in either order.\<close>

definition fold_byte :: "char \<Rightarrow> char \<Rightarrow> bool" where
  "fold_byte s t \<longleftrightarrow> s = t \<or>
     (let sr = min (code s) (code t); tr = max (code s) (code t)
      in 65 \<le> sr \<and> sr \<le> 90 \<and> tr = sr + 32)"

fun EqualFold :: "unicode \<Rightarrow> string \<Rightarrow> string \<Rightarrow> bool" where
  "EqualFold U (s # ss) (t # ts) =
     (if \<not> ascii s \<or> \<not> ascii t then u_fold U (s # ss) (t # ts)
      else if fold_byte s t then EqualFold U ss ts
      else False)"
| "EqualFold U ss ts = (length ss = length ts)"

text \<open>The tail of the string is scanned backwards, so \<open>trim_end\<close> takes it reversed.\<close>

definition ascii_space :: "char \<Rightarrow> bool" where
  "ascii_space c \<longleftrightarrow> code c \<in> {9, 10, 11, 12, 13, 32}"

fun trim_end :: "unicode \<Rightarrow> string \<Rightarrow> string" where
  "trim_end U [] = []"
| "trim_end U (c # rev_rest) =
     (if \<not> ascii c then u_trim_right U (rev (c # rev_rest))
      else if ascii_space c then trim_end U rev_rest
      else rev (c # rev_rest))"

fun TrimSpace :: "unicode \<Rightarrow> string \<Rightarrow> string" where
  "TrimSpace U [] = []"
| "TrimSpace U (c # s) =
     (if \<not> ascii c then u_trim U (c # s)
      else if ascii_space c then TrimSpace U s
      else trim_end U (rev (c # s)))"

text \<open>On ASCII strings the Unicode tables are never consulted and folding compares letter by
  letter.\<close>

lemma EqualFold_ascii:
  "list_all ascii s \<Longrightarrow> list_all ascii t \<Longrightarrow> EqualFold U s t \<longleftrightarrow> list_all2 fold_byte s t"
  by (induction s arbitrary: t) (case_tac [!] t, auto)

section \<open>strings.Split, strings.Contains, strconv.Atoi\<close>

text \<open>Splitting at a one-byte separator; the result is never empty.\<close>

fun split_char :: "char \<Rightarrow> string \<Rightarrow> string list" where
  "split_char c [] = [[]]"
| "split_char c (x # xs) = (if x = c then [] # split_char c xs
     else (case split_char c xs of [] \<Rightarrow> [[x]] | y # ys \<Rightarrow> (x # y) # ys))"

lemma split_char_no: "c \<notin> set n \<Longrightarrow> split_char c n = [n]"
  by (induction n) auto

lemma split_char_neq_Nil [simp]: "split_char c s \<noteq> []"
  by (induction s) (auto split: list.split)

lemma split_char_last: "c \<notin> set n \<Longrightarrow> split_char c (a @ c # n) = split_char c a @ [n]"
proof (induction a)
  case (Cons x a)
  then show ?case by (cases "split_char c a") auto
qed (simp add: split_char_no)

text \<open>\<^verbatim>\<open>strings.Contains\<close>, by trying every position.\<close>

fun contains :: "string \<Rightarrow> string \<Rightarrow> bool" where
  "contains [] p = (p = [])"
| "contains (c # s) p = (has_prefix (c # s) p \<or> contains s p)"

text \<open>A sign, then digits, and a range check: \<^verbatim>\<open>int\<close> has 64 bits.\<close>

definition is_digit :: "char \<Rightarrow> bool" where
  "is_digit c \<longleftrightarrow> 48 \<le> code c \<and> code c \<le> 57"

definition Atoi :: "string \<Rightarrow> int res" where
  "Atoi s =
     (let neg = (s \<noteq> [] \<and> hd s = CHR ''-'');
          ds = (if s \<noteq> [] \<and> (hd s = CHR ''-'' \<or> hd s = CHR ''+'') then tl s else s);
          v = (if neg then - int (undec ds) else int (undec ds))
      in if ds = [] \<or> \<not> list_all is_digit ds then Inl (Msg ''strconv.Atoi: invalid syntax'')
         else if - (2 ^ 63) \<le> v \<and> v < 2 ^ 63 then Inr v
         else Inl (Msg ''strconv.Atoi: value out of range''))"

lemma Atoi_range: "Atoi s = Inr v \<Longrightarrow> - (2 ^ 63) \<le> v \<and> v < 2 ^ 63"
  by (auto simp: Atoi_def Let_def split: if_splits)

section \<open>encoding/hex\<close>

definition hexdigit :: "nat \<Rightarrow> char" where
  "hexdigit n = ''0123456789abcdef'' ! n"

definition hex_byte :: "byte \<Rightarrow> string" where
  "hex_byte b = [hexdigit (unat b div 16), hexdigit (unat b mod 16)]"

definition hex_EncodeToString :: "bytes \<Rightarrow> string" where
  "hex_EncodeToString bs = concat (map hex_byte bs)"

definition fromHexChar :: "char \<Rightarrow> nat option" where
  "fromHexChar c = (let n = of_char c :: nat in
     if 48 \<le> n \<and> n \<le> 57 then Some (n - 48)
     else if 97 \<le> n \<and> n \<le> 102 then Some (n - 87)
     else if 65 \<le> n \<and> n \<le> 70 then Some (n - 55)
     else None)"

fun hex_DecodeString :: "string \<Rightarrow> bytes res" where
  "hex_DecodeString [] = Inr []"
| "hex_DecodeString [c] =
     (case fromHexChar c of None \<Rightarrow> Inl (Msg ''encoding/hex: invalid byte'')
      | Some _ \<Rightarrow> Inl (Msg ''encoding/hex: odd length hex string''))"
| "hex_DecodeString (c # d # s) =
     (case (fromHexChar c, fromHexChar d) of
        (Some h, Some l) \<Rightarrow> bindR (hex_DecodeString s) (\<lambda>bs. Inr (word_of_nat (16 * h + l) # bs))
      | _ \<Rightarrow> Inl (Msg ''encoding/hex: invalid byte''))"

lemma fromHexChar_hexdigit: "n < 16 \<Longrightarrow> fromHexChar (hexdigit n) = Some n"
proof -
  have "\<forall>n \<in> set [0..<16]. fromHexChar (hexdigit n) = Some n" by code_simp
  then show "n < 16 \<Longrightarrow> fromHexChar (hexdigit n) = Some n" by simp
qed

lemma hex_round_trip [simp]: "hex_DecodeString (hex_EncodeToString bs) = Inr bs"
proof (induction bs)
  case (Cons b bs)
  have lt: "unat b < 256" by (rule unat_byte)
  then have "unat b div 16 < 16" "unat b mod 16 < 16" by auto
  with Cons show ?case
    by (simp add: hex_EncodeToString_def hex_byte_def fromHexChar_hexdigit)
qed (simp add: hex_EncodeToString_def)

lemma hex_EncodeToString_inj: "hex_EncodeToString a = hex_EncodeToString b \<longleftrightarrow> a = b"
  by (metis hex_round_trip sum.inject(2))

section \<open>time.Format("20060102")\<close>

definition leap :: "nat \<Rightarrow> bool" where
  "leap y \<longleftrightarrow> y mod 4 = 0 \<and> (y mod 100 \<noteq> 0 \<or> y mod 400 = 0)"

definition month_days :: "nat \<Rightarrow> nat list" where
  "month_days y = [31, if leap y then 29 else 28, 31, 30, 31, 30, 31, 31, 30, 31, 30, 31]"

fun month_day :: "nat list \<Rightarrow> nat \<Rightarrow> nat \<Rightarrow> nat \<times> nat" where
  "month_day [] m d = (m, d + 1)"
| "month_day (n # ns) m d = (if d < n then (m, d + 1) else month_day ns (m + 1) (d - n))"

text \<open>Year, month and day from the days since January 1 of year 1: cycles of 400, 100, 4 and 1
  years, the last century and the last year of a cycle being one day longer.\<close>

definition civil :: "nat \<Rightarrow> nat \<times> nat \<times> nat" where
  "civil days =
     (let n400 = days div 146097; d1 = days mod 146097;
          n100 = min 3 (d1 div 36524); d2 = d1 - 36524 * n100;
          n4 = d2 div 1461; d3 = d2 mod 1461;
          n1 = min 3 (d3 div 365); d4 = d3 - 365 * n1;
          y = 400 * n400 + 100 * n100 + 4 * n4 + n1 + 1;
          (m, d) = month_day (month_days y) 1 d4
      in (y, m, d))"

definition pad :: "nat \<Rightarrow> nat \<Rightarrow> string" where
  "pad w n = replicate (w - length (dec_nat n)) CHR ''0'' @ dec_nat n"

lemma dec_nat_length: "n < 10 ^ Suc k \<Longrightarrow> length (dec_nat n) \<le> Suc k"
proof (induction k arbitrary: n)
  case 0
  then show ?case by (simp add: dec_nat.simps [of n])
next
  case (Suc k)
  then have "n div 10 < 10 ^ Suc k" by simp
  from Suc.IH [OF this] show ?case by (simp add: dec_nat.simps [of n])
qed

lemma pad_length: "n < 10 ^ Suc k \<Longrightarrow> length (pad (Suc k) n) = Suc k"
  using dec_nat_length [of n k] by (simp add: pad_def)

definition yyyymmdd :: "time \<Rightarrow> string" where
  "yyyymmdd t = (let (y, m, d) = civil (nat (t div (24 * hour))) in pad 4 y @ pad 2 m @ pad 2 d)"

text \<open>Tables without characters outside ASCII, for witnesses.\<close>

definition toy_unicode :: unicode where
  "toy_unicode = \<lparr>u_fold = (=), u_trim = id, u_trim_right = id\<rparr>"

end
