(* ===== verification/Backup.thy ===== *)
theory Backup
  imports Shamir GoLib
begin

text \<open>
  \<^verbatim>\<open>internal/seal/backup.go\<close>: the cold backup of the wrapped master key, one Shamir share
  per file, with the file format, its integrity code and the file system the files are written
  to. HMAC-SHA256 is a parameter \<open>hmac\<close> of key and message; the format relies on its 32-byte
  length. The file system is a map from paths to contents; \<^verbatim>\<open>os.MkdirAll\<close> and
  \<^verbatim>\<open>os.WriteFile\<close> may be refused for any path.
\<close>

section \<open>Files and paths\<close>

record fs =
  files :: "string \<Rightarrow> bytes option"
  mkdir_ok :: "string \<Rightarrow> bool"
  write_ok :: "string \<Rightarrow> bool"

definition os_ReadFile :: "string \<Rightarrow> fs \<Rightarrow> bytes res" where
  "os_ReadFile path s = (case files s path of None \<Rightarrow> Inl (Msg ''open: no such file or directory'')
     | Some bs \<Rightarrow> Inr bs)"

definition os_WriteFile :: "string \<Rightarrow> bytes \<Rightarrow> fs \<Rightarrow> err option \<times> fs" where
  "os_WriteFile path data s = (if write_ok s path then (None, s\<lparr>files := (files s)(path \<mapsto> data)\<rparr>)
     else (Some (Msg ''open: permission denied''), s))"

text \<open>\<^verbatim>\<open>filepath.Clean\<close> and the two-argument \<^verbatim>\<open>filepath.Join\<close> on Unix paths.\<close>

fun clean_comps :: "bool \<Rightarrow> string list \<Rightarrow> string list \<Rightarrow> string list" where
  "clean_comps rooted st [] = st"
| "clean_comps rooted st (c # cs) =
     (if c = '''' \<or> c = ''.'' then clean_comps rooted st cs
      else if c = ''..'' then
        (case st of
           [] \<Rightarrow> clean_comps rooted (if rooted then [] else [''..'']) cs
         | t # ts \<Rightarrow> clean_comps rooted (if t = ''..'' then ''..'' # st else ts) cs)
      else clean_comps rooted (c # st) cs)"

fun slash_join :: "string list \<Rightarrow> string" where
  "slash_join [] = []"
| "slash_join [c] = c"
| "slash_join (c # cs) = c @ ''/'' @ slash_join cs"

definition filepath_Clean :: "string \<Rightarrow> string" where
  "filepath_Clean p =
     (let rooted = (p \<noteq> [] \<and> hd p = CHR ''/'');
          body = slash_join (rev (clean_comps rooted [] (split_char (CHR ''/'') p)))
      in if rooted then CHR ''/'' # body else if body = [] then ''.'' else body)"

definition filepath_Join :: "string \<Rightarrow> string \<Rightarrow> string" where
  "filepath_Join a b =
     (if a \<noteq> [] then filepath_Clean (a @ ''/'' @ b)
      else if b \<noteq> [] then filepath_Clean b else [])"

text \<open>\<^verbatim>\<open>fmt.Sprintf("backup-%03d.dat", n)\<close>.\<close>

definition pad3 :: "string \<Rightarrow> string" where
  "pad3 s = replicate (3 - length s) (CHR ''0'') @ s"

definition backup_name :: "nat \<Rightarrow> string" where
  "backup_name n = ''backup-'' @ pad3 (dec_nat n) @ ''.dat''"

section \<open>backup.go\<close>

definition backupMagic :: bytes where "backupMagic = [0x59, 0x56, 0x53, 0x42]"
definition backupVersion :: byte where "backupVersion = 1"

definition backupIntegrityKey :: bytes where
  "backupIntegrityKey = map (\<lambda>c. of_nat (of_char c)) ''yvonne-cold-backup-integrity-check-v1''"

record BackupShare =
  bs_Version :: byte
  bs_Total :: byte
  bs_Threshold :: byte
  bs_ShareIdx :: byte
  bs_HMAC :: bytes
  bs_Share :: bytes

text \<open>The buffer starts zeroed; \<^verbatim>\<open>copy(out[8:40], hmacSum)\<close> copies at most 32 bytes.\<close>

definition encodeBackupShare :: "byte \<Rightarrow> byte \<Rightarrow> byte \<Rightarrow> bytes \<Rightarrow> bytes \<Rightarrow> bytes" where
  "encodeBackupShare tot thr index hmacSum share =
     backupMagic @ [backupVersion, tot, thr, index] @
     (take 32 hmacSum @ replicate (32 - length hmacSum) 0) @ share"

definition decodeBackupShare :: "bytes \<Rightarrow> BackupShare res" where
  "decodeBackupShare data =
     (if length data < 40 then Inl (Msg ''seal: file too short'')
      else if take 4 data \<noteq> backupMagic then Inl (Msg ''seal: invalid magic (not a Yvonne backup file)'')
      else if data ! 4 \<noteq> backupVersion then Inl (Msg ''seal: unsupported backup version'')
      else Inr \<lparr>bs_Version = data ! 4, bs_Total = data ! 5, bs_Threshold = data ! 6, bs_ShareIdx = data ! 7,
                bs_HMAC = take 32 (drop 8 data), bs_Share = drop 40 data\<rparr>)"

fun write_shares ::
  "(bytes \<Rightarrow> bytes \<Rightarrow> bytes) \<Rightarrow> int \<Rightarrow> int \<Rightarrow> string \<Rightarrow> nat \<Rightarrow> bytes list \<Rightarrow> fs \<Rightarrow> string list res \<times> fs" where
  "write_shares hmac tot thr outDir i [] s = (Inr [], s)"
| "write_shares hmac tot thr outDir i (shareBytes # rest) s =
     (let data = encodeBackupShare (of_int tot) (of_int thr) (of_nat i)
                   (hmac backupIntegrityKey shareBytes) shareBytes;
          filename = filepath_Join outDir (backup_name (i + 1))
      in case os_WriteFile filename data s of
           (Some e, s1) \<Rightarrow> (Inl (Wrap ''seal: write share'' e), s1)
         | (None, s1) \<Rightarrow>
             (case write_shares hmac tot thr outDir (i + 1) rest s1 of
                (Inl e, s2) \<Rightarrow> (Inl e, s2)
              | (Inr paths, s2) \<Rightarrow> (Inr (filename # paths), s2)))"

definition SplitWrappedCMKToFiles ::
  "(bytes \<Rightarrow> bytes \<Rightarrow> bytes) \<Rightarrow> bytes \<Rightarrow> int \<Rightarrow> int \<Rightarrow> string \<Rightarrow> csprng \<Rightarrow> fs \<Rightarrow> string list res \<times> csprng \<times> fs" where
  "SplitWrappedCMKToFiles hmac wrappedCMK tot thr outDir r s =
     (if tot < 2 \<or> tot > 255 then (Inl (Msg ''seal: total must be 2-255''), r, s)
      else if thr < 2 \<or> thr > tot then (Inl (Msg ''seal: threshold must be 2-total''), r, s)
      else if wrappedCMK = [] then (Inl (Msg ''seal: empty wrapped CMK''), r, s)
      else
        case Split (Some (fst (NewSecureBuffer wrappedCMK))) tot thr r of
          (Inl e, r1) \<Rightarrow> (Inl (Wrap ''seal: shamir split'' e), r1, s)
        | (Inr shares, r1) \<Rightarrow>
            if tot < 1 \<or> tot > 255 then (Inl (Msg ''seal: total must be 1-255''), r1, s)
            else if thr < 1 \<or> thr > 255 then (Inl (Msg ''seal: threshold must be 1-255''), r1, s)
            else if \<not> mkdir_ok s outDir then (Inl (Wrap ''seal: mkdir'' (Msg ''mkdir: permission denied'')), r1, s)
            else (case write_shares hmac tot thr outDir 0 shares s of (res, s1) \<Rightarrow> (res, r1, s1)))"

fun read_shares :: "(bytes \<Rightarrow> bytes \<Rightarrow> bytes) \<Rightarrow> string list \<Rightarrow> fs \<Rightarrow> bytes list res" where
  "read_shares hmac [] s = Inr []"
| "read_shares hmac (path # paths) s =
     bindR (wrapR ''seal: read'' (os_ReadFile path s)) (\<lambda>data.
     bindR (wrapR ''seal: decode'' (decodeBackupShare data)) (\<lambda>share.
       if bs_HMAC share \<noteq> hmac backupIntegrityKey (bs_Share share)
       then Inl (Msg ''seal: HMAC verification failed (data corrupted or tampered)'')
       else bindR (read_shares hmac paths s) (\<lambda>shares. Inr (bs_Share share # shares))))"

definition CombineWrappedCMKFromFiles ::
  "(bytes \<Rightarrow> bytes \<Rightarrow> bytes) \<Rightarrow> string list \<Rightarrow> fs \<Rightarrow> bytes res" where
  "CombineWrappedCMKFromFiles hmac paths s =
     (if length paths < 2 then Inl (Msg ''seal: need at least 2 share files'')
      else bindR (read_shares hmac paths s) (\<lambda>shares.
           bindR (wrapR ''seal: shamir combine'' (Combine shares)) (\<lambda>sb.
             WithKey sb Inr)))"

section \<open>Paths are distinct\<close>

definition plain_name :: "string \<Rightarrow> bool" where
  "plain_name n \<longleftrightarrow> CHR ''/'' \<notin> set n \<and> n \<noteq> '''' \<and> n \<noteq> ''.'' \<and> n \<noteq> ''..''"

lemma clean_comps_last:
  "plain_name n \<Longrightarrow> clean_comps rooted st (cs @ [n]) = n # clean_comps rooted st cs"
  by (induction rooted st cs rule: clean_comps.induct) (auto simp: plain_name_def split: list.splits)

lemma slash_join_last: "slash_join (cs @ [n]) = (if cs = [] then n else slash_join cs @ ''/'' @ n)"
  by (induction cs rule: slash_join.induct) auto

lemma filepath_Join_prefix: "\<exists>pre. \<forall>n. plain_name n \<longrightarrow> filepath_Join a n = pre @ n"
proof (cases "a = []")
  case True
  have "filepath_Join a n = [] @ n" if n: "plain_name n" for n
  proof -
    have "n \<noteq> []" "hd n \<noteq> CHR ''/''" using n by (cases n; auto simp: plain_name_def)+
    then show ?thesis using n True clean_comps_last [of n False "[]" "[]"]
      by (simp add: filepath_Join_def filepath_Clean_def split_char_no plain_name_def)
  qed
  then show ?thesis by blast
next
  case False
  define st where "st = rev (clean_comps (hd a = CHR ''/'') [] (split_char (CHR ''/'') a))"
  have "filepath_Join a n = ((if hd a = CHR ''/'' then ''/'' else []) @ (if st = [] then [] else slash_join st @ ''/'')) @ n"
    if n: "plain_name n" for n
  proof -
    have ne: "n \<noteq> []" and no: "CHR ''/'' \<notin> set n" using n by (auto simp: plain_name_def)
    have "clean_comps (hd a = CHR ''/'') [] (split_char (CHR ''/'') (a @ ''/'' @ n)) = n # rev st"
      using clean_comps_last [OF n] split_char_last [OF no, of a] by (simp add: st_def)
    with False ne show ?thesis
      by (cases "hd a = CHR ''/''") (simp_all add: filepath_Join_def filepath_Clean_def Let_def slash_join_last)
  qed
  then show ?thesis by blast
qed

lemma filepath_Join_inj:
  assumes "plain_name m" "plain_name n" "filepath_Join a m = filepath_Join a n"
  shows "m = n"
proof -
  obtain pre where "\<And>n. plain_name n \<Longrightarrow> filepath_Join a n = pre @ n"
    using filepath_Join_prefix by blast
  with assms show ?thesis by simp
qed

lemma slash_dec_nat: "CHR ''/'' \<notin> set (dec_nat n)"
  by (auto dest: dec_nat_chars)

lemma backup_name_plain: "plain_name (backup_name n)"
  using slash_dec_nat by (auto simp: plain_name_def backup_name_def pad3_def)

lemma undec_pad: "undec (replicate k (CHR ''0'') @ s) = undec s"
  by (induction k) (simp_all add: undec_def)

lemma backup_name_inj: "backup_name m = backup_name n \<longleftrightarrow> m = n"
proof
  assume "backup_name m = backup_name n"
  then have "undec (pad3 (dec_nat m)) = undec (pad3 (dec_nat n))" by (simp add: backup_name_def)
  then show "m = n" by (simp add: pad3_def undec_pad)
qed simp

lemma backup_path_inj:
  "filepath_Join d (backup_name m) = filepath_Join d (backup_name n) \<longleftrightarrow> m = n"
  using filepath_Join_inj [OF backup_name_plain backup_name_plain] backup_name_inj by blast

section \<open>The file format\<close>

lemma decode_encode:
  assumes "length mac = 32"
  shows "decodeBackupShare (encodeBackupShare tot thr idx mac share) =
    Inr \<lparr>bs_Version = 1, bs_Total = tot, bs_Threshold = thr, bs_ShareIdx = idx, bs_HMAC = mac, bs_Share = share\<rparr>"
  using assms by (simp add: decodeBackupShare_def encodeBackupShare_def backupMagic_def backupVersion_def)

definition hmac_len :: "(bytes \<Rightarrow> bytes \<Rightarrow> bytes) \<Rightarrow> bool" where
  "hmac_len hmac \<longleftrightarrow> (\<forall>k m. length (hmac k m) = 32)"

definition share_file :: "(bytes \<Rightarrow> bytes \<Rightarrow> bytes) \<Rightarrow> int \<Rightarrow> int \<Rightarrow> nat \<Rightarrow> bytes \<Rightarrow> bytes" where
  "share_file hmac tot thr i sh = encodeBackupShare (of_int tot) (of_int thr) (of_nat i) (hmac backupIntegrityKey sh) sh"

lemma write_shares_Inr:
  assumes "write_shares hmac tot thr d i shares s = (Inr paths, s')"
  shows "paths = map (\<lambda>j. filepath_Join d (backup_name (j + 1))) [i..<i + length shares]
    \<and> (\<forall>k<length shares. files s' (filepath_Join d (backup_name (i + k + 1))) = Some (share_file hmac tot thr (i + k) (shares ! k)))
    \<and> (\<forall>p. (\<forall>j\<ge>i. p \<noteq> filepath_Join d (backup_name (j + 1))) \<longrightarrow> files s' p = files s p)"
  using assms
proof (induction hmac tot thr d i shares s arbitrary: paths s' rule: write_shares.induct)
  case (2 hmac tot thr d i sh rest s)
  let ?p = "\<lambda>j. filepath_Join d (backup_name (j + 1))"
  obtain s1 ps where w: "os_WriteFile (?p i) (share_file hmac tot thr i sh) s = (None, s1)"
    and rec: "write_shares hmac tot thr d (i + 1) rest s1 = (Inr ps, s')" and paths: "paths = ?p i # ps"
    using "2.prems" by (auto simp: Let_def share_file_def split: prod.splits option.splits sum.splits)
  have f1: "files s1 = (files s)(?p i \<mapsto> share_file hmac tot thr i sh)"
    using w by (auto simp: os_WriteFile_def split: if_splits)
  note IH = "2.IH" [OF refl refl w [symmetric, unfolded share_file_def] refl rec]
  have "files s' (?p i) = Some (share_file hmac tot thr i sh)"
    using IH f1 by (auto simp: backup_path_inj)
  then have "files s' (?p (i + k)) = Some (share_file hmac tot thr (i + k) ((sh # rest) ! k))"
    if "k < length (sh # rest)" for k
    using IH that by (cases k) auto
  moreover have "files s' p = files s p" if "\<forall>j\<ge>i. p \<noteq> ?p j" for p
    using IH f1 that by auto
  moreover have "paths = map ?p [i..<i + length (sh # rest)]"
    using IH paths by (simp add: upt_conv_Cons del: upt_Suc)
  ultimately show ?case by blast
qed auto

lemma read_shares_ok:
  assumes "hmac_len hmac"
    and "\<forall>k\<in>set ks. files s (path k) = Some (share_file hmac tot thr k (shares ! k))"
  shows "read_shares hmac (map path ks) s = Inr (map ((!) shares) ks)"
  using assms(2)
  by (induction ks) (use assms(1) in \<open>simp_all add: os_ReadFile_def share_file_def decode_encode hmac_len_def\<close>)

lemma SplitWrappedCMKToFiles_Inr:
  assumes "SplitWrappedCMKToFiles hmac cmk tot thr d r s = (Inr paths, r', s')"
  obtains shares where "Split (Some \<lparr>sb_data = cmk, destroyed = False\<rparr>) tot thr r = (Inr shares, r')"
    "paths = map (\<lambda>j. filepath_Join d (backup_name (j + 1))) [0..<nat tot]" "length shares = nat tot"
    "\<And>k. k < nat tot \<Longrightarrow> files s' (filepath_Join d (backup_name (k + 1))) = Some (share_file hmac tot thr k (shares ! k))"
proof -
  obtain shares where sp: "Split (Some \<lparr>sb_data = cmk, destroyed = False\<rparr>) tot thr r = (Inr shares, r')"
    and w: "write_shares hmac tot thr d 0 shares s = (Inr paths, s')"
    using assms by (auto simp: SplitWrappedCMKToFiles_def NewSecureBuffer_def split: if_splits prod.splits sum.splits)
  then show ?thesis using that [OF sp] write_shares_Inr [OF w] Split_shape(4) [OF sp] by simp
qed

lemma read_back:
  assumes "hmac_len hmac"
    and "SplitWrappedCMKToFiles hmac cmk tot thr d r s = (Inr paths, r', s')"
    and "set ks \<subseteq> {..<length paths}"
  obtains shares where "Split (Some \<lparr>sb_data = cmk, destroyed = False\<rparr>) tot thr r = (Inr shares, r')"
    "length paths = nat tot" "read_shares hmac (map ((!) paths) ks) s' = Inr (map ((!) shares) ks)"
proof -
  obtain shares where sh: "Split (Some \<lparr>sb_data = cmk, destroyed = False\<rparr>) tot thr r = (Inr shares, r')"
    and paths: "paths = map (\<lambda>j. filepath_Join d (backup_name (j + 1))) [0..<nat tot]"
    and files: "\<And>k. k < nat tot \<Longrightarrow> files s' (filepath_Join d (backup_name (k + 1))) = Some (share_file hmac tot thr k (shares ! k))"
    by (rule SplitWrappedCMKToFiles_Inr [OF assms(2)]) auto
  have "\<forall>k\<in>set ks. files s' (paths ! k) = Some (share_file hmac tot thr k (shares ! k))"
    using assms(3) files by (auto simp: paths subset_iff)
  then have "read_shares hmac (map ((!) paths) ks) s' = Inr (map ((!) shares) ks)"
    by (rule read_shares_ok [OF assms(1)])
  then show ?thesis using that [OF sh] by (auto simp: paths)
qed

lemma list_all2_set1: "list_all2 P xs ys \<Longrightarrow> \<forall>x\<in>set xs. \<exists>y. P x y"
  by (induction rule: list_all2_induct) auto

section \<open>Properties\<close>

text \<open>
  Property C22. Cold backup and recovery: after SplitWrappedCMKToFiles has written one file per share
  into a directory, reading any \<open>threshold\<close> or more of the files back, in any order, recovers
  exactly the wrapped key, whatever the directory name and the random source.
\<close>

theorem backup_roundtrip:
  assumes "hmac_len hmac"
    and "SplitWrappedCMKToFiles hmac cmk tot thr d r s = (Inr paths, r', s')"
    and "distinct ks" "set ks \<subseteq> {..<length paths}" "thr \<le> int (length ks)"
  shows "length paths = nat tot \<and> CombineWrappedCMKFromFiles hmac (map ((!) paths) ks) s' = Inr cmk"
proof -
  obtain shares where sp: "Split (Some \<lparr>sb_data = cmk, destroyed = False\<rparr>) tot thr r = (Inr shares, r')"
    and len: "length paths = nat tot" and rd: "read_shares hmac (map ((!) paths) ks) s' = Inr (map ((!) shares) ks)"
    by (rule read_back [OF assms(1,2,4)])
  have "2 \<le> length ks" using Split_shape(1) [OF sp] assms(5) by simp
  with Combine_Split [OF sp assms(3) _ assms(5)] assms(4) len rd show ?thesis
    by (simp add: CombineWrappedCMKFromFiles_def WithKey_def)
qed

definition toy_hmac :: "bytes \<Rightarrow> bytes \<Rightarrow> bytes" where
  "toy_hmac k m = replicate 32 (foldr (XOR) m 0)"

definition open_fs :: fs where
  "open_fs = \<lparr>files = (\<lambda>_. None), mkdir_ok = (\<lambda>_. True), write_ok = (\<lambda>_. True)\<rparr>"

lemma toy_hmac_len: "hmac_len toy_hmac"
  by (simp add: hmac_len_def toy_hmac_def)

lemma write_shares_all_ok:
  "(\<And>p. write_ok s p) \<Longrightarrow> \<exists>paths s'. write_shares hmac tot thr d i shares s = (Inr paths, s')"
proof (induction shares arbitrary: i s)
  case (Cons sh shares)
  obtain s1 where w: "os_WriteFile (filepath_Join d (backup_name (i + 1)))
      (encodeBackupShare (of_int tot) (of_int thr) (of_nat i) (hmac backupIntegrityKey sh) sh) s = (None, s1)"
    and ok: "\<And>p. write_ok s1 p" using Cons.prems by (simp add: os_WriteFile_def)
  obtain paths s' where "write_shares hmac tot thr d (i + 1) shares s1 = (Inr paths, s')" using Cons.IH [OF ok] by blast
  with w show ?case by (simp add: Let_def)
qed simp

lemma toy_backup_ok:
  "\<exists>paths r' s'. SplitWrappedCMKToFiles toy_hmac [42, 7] 5 3 ''/mnt/usb''
     \<lparr>stream = \<lambda>i. Some (of_nat i), pos = 9\<rparr> open_fs = (Inr paths, r', s') \<and> length paths = 5"
proof -
  let ?r = "\<lparr>stream = \<lambda>i. Some (of_nat i), pos = 9\<rparr>"
  obtain shares r' where sp: "Split (Some \<lparr>sb_data = [42, 7], destroyed = False\<rparr>) 5 3 ?r = (Inr shares, r')"
    using Split_serves [of 3 5 "\<lparr>sb_data = [42, 7], destroyed = False\<rparr>" "[[9, 10], [11, 12]]" ?r]
    by (auto simp: good_rands_def serves_def numeral_eq_Suc less_Suc_eq)
  obtain paths s' where w: "write_shares toy_hmac 5 3 ''/mnt/usb'' 0 shares open_fs = (Inr paths, s')"
    using write_shares_all_ok [of open_fs toy_hmac 5 3 "''/mnt/usb''" 0 shares] by (auto simp: open_fs_def)
  have "length paths = 5" using write_shares_Inr [OF w] Split_shape(4) [OF sp] by simp
  with sp w show ?thesis by (simp add: SplitWrappedCMKToFiles_def NewSecureBuffer_def open_fs_def)
qed

theorem backup_roundtrip_witness:
  "\<exists>paths r' s'. SplitWrappedCMKToFiles toy_hmac [42, 7] 5 3 ''/mnt/usb''
     \<lparr>stream = \<lambda>i. Some (of_nat i), pos = 9\<rparr> open_fs = (Inr paths, r', s')
     \<and> CombineWrappedCMKFromFiles toy_hmac (map ((!) paths) [4, 0, 2]) s' = Inr [42, 7]"
proof -
  obtain paths r' s' where s: "SplitWrappedCMKToFiles toy_hmac [42, 7] 5 3 ''/mnt/usb''
     \<lparr>stream = \<lambda>i. Some (of_nat i), pos = 9\<rparr> open_fs = (Inr paths, r', s')" and "length paths = 5"
    using toy_backup_ok by blast
  then have "CombineWrappedCMKFromFiles toy_hmac (map ((!) paths) [4, 0, 2]) s' = Inr [42, 7]"
    using backup_roundtrip [OF toy_hmac_len s, of "[4, 0, 2]"] by simp
  with s show ?thesis by blast
qed

lemma read_shares_Inr:
  assumes "read_shares hmac paths s = Inr shares"
  shows "list_all2 (\<lambda>p sh. \<exists>data b. files s p = Some data \<and> decodeBackupShare data = Inr b
     \<and> bs_Share b = sh \<and> bs_HMAC b = hmac backupIntegrityKey sh) paths shares"
  using assms
  by (induction paths arbitrary: shares)
    (auto simp: bindR_eq_Inr os_ReadFile_def split: if_splits option.splits)

lemma Split_valid_shares:
  assumes "Split (Some sb) parts threshold r = (Inr shares, r')"
    and "distinct ks" "set ks \<subseteq> {..<nat parts}" "2 \<le> length ks"
  shows "valid_shares (map ((!) shares) ks)"
proof -
  obtain coefs where sh: "length shares = nat parts" "\<And>k. k < nat parts \<Longrightarrow> shares ! k = share_of coefs (k + 1)"
    and "parts \<le> 255" by (rule Split_Inr [OF assms(1)]) blast
  then have ks: "set ks \<subseteq> {..<255}" using assms(3) by auto
  have first: "map (\<lambda>k. shares ! k ! 0) ks = map (\<lambda>k. of_nat (k + 1)) ks"
    using sh assms(3) by (auto simp: share_of_def)
  have "\<forall>s\<in>set shares. length s = length (sb_data sb) + 1" "sb_data sb \<noteq> []"
    using Split_shape [OF assms(1)] by auto
  then have len: "length (shares ! k) = length (sb_data sb) + 1" if "k \<in> set ks" for k
    using that assms(3) sh(1) by auto
  have "distinct (map (\<lambda>k. shares ! k ! 0) ks)" unfolding first by (rule point_inj [OF assms(2) ks])
  moreover have "shares ! k ! 0 \<noteq> 0" if "k \<in> set ks" for k
  proof -
    have "k < 255" using ks that by auto
    then show ?thesis using of_nat_Suc_neq_0 [of k] sh(2) [of k] assms(3) that by (auto simp: share_of_def)
  qed
  moreover obtain k0 ks' where "ks = k0 # ks'" using assms(4) by (cases ks) auto
  ultimately show ?thesis
    using len assms(4) \<open>sb_data sb \<noteq> []\<close>
    by (auto simp: valid_shares_def comp_def Suc_le_eq)
qed

text \<open>
  Every accepted file carries the format magic, the format version and the integrity
  code of its share, so a damaged share or a damaged code is refused. The threshold in the file
  header is not consulted: with at least two but fewer than \<open>threshold\<close> files of a backup the
  recovery still reports success, with as many bytes as the key.
\<close>

theorem backup_checks:
  assumes "hmac_len hmac"
    and "SplitWrappedCMKToFiles hmac cmk tot thr d r s = (Inr paths, r', s')"
    and "distinct ks" "set ks \<subseteq> {..<length paths}" "2 \<le> length ks"
  shows "(\<exists>x. CombineWrappedCMKFromFiles hmac (map ((!) paths) ks) s' = Inr x \<and> length x = length cmk)
    \<and> (CombineWrappedCMKFromFiles hmac ps s'' = Inr y \<longrightarrow>
        (\<forall>p\<in>set ps. \<exists>data b. files s'' p = Some data \<and> decodeBackupShare data = Inr b
           \<and> bs_HMAC b = hmac backupIntegrityKey (bs_Share b)))"
proof
  obtain shares where sp: "Split (Some \<lparr>sb_data = cmk, destroyed = False\<rparr>) tot thr r = (Inr shares, r')"
    and len: "length paths = nat tot" and rd: "read_shares hmac (map ((!) paths) ks) s' = Inr (map ((!) shares) ks)"
    by (rule read_back [OF assms(1,2,4)])
  have valid: "valid_shares (map ((!) shares) ks)"
    using Split_valid_shares [OF sp assms(3) _ assms(5)] assms(4) len by simp
  obtain k0 ks' where "ks = k0 # ks'" using assms(5) by (cases ks) auto
  then have "length (map ((!) shares) ks ! 0) = length cmk + 1"
    using Split_shape(4,5) [OF sp] assms(4) len by auto
  with Combine_valid [OF valid] rd assms(5)
  show "\<exists>x. CombineWrappedCMKFromFiles hmac (map ((!) paths) ks) s' = Inr x \<and> length x = length cmk"
    by (auto simp: CombineWrappedCMKFromFiles_def WithKey_def)
  show "CombineWrappedCMKFromFiles hmac ps s'' = Inr y \<longrightarrow>
    (\<forall>p\<in>set ps. \<exists>data b. files s'' p = Some data \<and> decodeBackupShare data = Inr b
       \<and> bs_HMAC b = hmac backupIntegrityKey (bs_Share b))"
    by (auto simp: CombineWrappedCMKFromFiles_def bindR_eq_Inr split: if_splits
        dest!: read_shares_Inr list_all2_set1)
qed

theorem backup_checks_witness:
  "\<exists>paths r' s' x. SplitWrappedCMKToFiles toy_hmac [42, 7] 5 3 ''/mnt/usb''
     \<lparr>stream = \<lambda>i. Some (of_nat i), pos = 9\<rparr> open_fs = (Inr paths, r', s')
     \<and> CombineWrappedCMKFromFiles toy_hmac (map ((!) paths) [4, 0]) s' = Inr x \<and> length x = 2"
proof -
  obtain paths r' s' where s: "SplitWrappedCMKToFiles toy_hmac [42, 7] 5 3 ''/mnt/usb''
     \<lparr>stream = \<lambda>i. Some (of_nat i), pos = 9\<rparr> open_fs = (Inr paths, r', s')" and "length paths = 5"
    using toy_backup_ok by blast
  then show ?thesis
    using backup_checks [OF toy_hmac_len s, of "[4, 0]" "[]" open_fs "[]"] by auto
qed

end
