(* ===== verification/AuditLog.thy ===== *)
theory AuditLog
  imports Memguard GoLib "HOL-Library.Multiset"
begin

text \<open>
  \<^verbatim>\<open>internal/audit\<close>: the hash chain, the logger with its file, syslog and fallback
  sinks, the file rotator and the query over the log files. The keyed hash and the digest are a
  parameter (\<open>hash_alg\<close>: HMAC-SHA256 with SHA-256, or HMAC-SM3 with SM3), and so is JSON
  encoding and decoding of the two record types (\<open>audit_json\<close>); what the code relies on of
  JSON is \<open>json_ok\<close>. The log directory is a list of named files with an arbitrary schedule of
  failing calls; a failing write may leave a prefix of its data behind.
\<close>

section \<open>chain.go\<close>

record hash_alg =
  mac :: "bytes \<Rightarrow> bytes \<Rightarrow> bytes"
  digest :: "bytes \<Rightarrow> bytes"

record hashChain =
  lastSignature :: bytes
  newHash :: hash_alg

definition newHashChainWithHash :: "hash_alg \<Rightarrow> bytes \<Rightarrow> hashChain" where
  "newHashChainWithHash H chainKey = \<lparr>lastSignature = digest H chainKey, newHash = H\<rparr>"

definition newHashChain :: "hash_alg \<Rightarrow> bytes \<Rightarrow> hashChain" where
  "newHashChain sha256 chainKey = newHashChainWithHash sha256 chainKey"

text \<open>The result is the signature and its predecessor, both in hex.\<close>

definition computeAndAdvance :: "bytes \<Rightarrow> bytes \<Rightarrow> hashChain \<Rightarrow> (string \<times> string) \<times> hashChain" where
  "computeAndAdvance chainKey payload c =
     (let prevSig = hex_EncodeToString (lastSignature c);
          sig = mac (newHash c) chainKey (lastSignature c @ payload)
      in ((hex_EncodeToString sig, prevSig), c\<lparr>lastSignature := sig\<rparr>))"

definition chain_LastSignatureHex :: "hashChain \<Rightarrow> string" where
  "chain_LastSignatureHex c = hex_EncodeToString (lastSignature c)"

definition SetLastSignature :: "bytes \<Rightarrow> hashChain \<Rightarrow> hashChain" where
  "SetLastSignature sig c = c\<lparr>lastSignature := sig\<rparr>"

definition chain_Reset :: "bytes \<Rightarrow> hashChain \<Rightarrow> hashChain" where
  "chain_Reset chainKey c = c\<lparr>lastSignature := digest (newHash c) chainKey\<rparr>"

section \<open>logger.go: data\<close>

record LogEntry =
  TraceID :: string
  Timestamp :: time
  ClientIP :: string
  Actor :: string
  Resource :: string
  Action :: string
  Result :: string
  EntryKeyID :: string
  Status :: string

record signedEnvelope =
  Payload :: bytes
  Signature :: string
  PrevSignature :: string
  ChainSeq :: "64 word"

text \<open>\<^verbatim>\<open>json.Marshal\<close> of an entry fails for times after the year 9999; of an envelope, a
  struct of strings and an integer, it never fails.\<close>

record audit_json =
  marshal_entry :: "LogEntry \<Rightarrow> bytes option"
  unmarshal_entry :: "bytes \<Rightarrow> LogEntry option"
  marshal_envelope :: "signedEnvelope \<Rightarrow> bytes"
  unmarshal_envelope :: "bytes \<Rightarrow> signedEnvelope option"

abbreviation LF :: byte where "LF \<equiv> 10"
abbreviation CR :: byte where "CR \<equiv> 13"

text \<open>What the code relies on: an encoded entry decodes to some entry, an envelope around it
  decodes to itself, and the encoding of an envelope is not empty and has no line breaks (JSON
  escapes control characters).\<close>

definition json_ok :: "audit_json \<Rightarrow> bool" where
  "json_ok J \<longleftrightarrow> (\<forall>e b sig prev seq. marshal_entry J e = Some b \<longrightarrow>
     (let env = \<lparr>Payload = b, Signature = sig, PrevSignature = prev, ChainSeq = seq\<rparr>
      in unmarshal_entry J b \<noteq> None \<and> unmarshal_envelope J (marshal_envelope J env) = Some env
        \<and> marshal_envelope J env \<noteq> [] \<and> LF \<notin> set (marshal_envelope J env)
        \<and> CR \<notin> set (marshal_envelope J env)))"

section \<open>The log directory\<close>

text \<open>
  The files of the directory by name. Call number \<open>i\<close> succeeds when \<open>faults i\<close> is
  \<open>None\<close>, and otherwise fails after \<open>n\<close> bytes.
\<close>

record disk =
  files :: "(string \<times> bytes) list"
  faults :: "nat \<Rightarrow> nat option"
  calls :: nat

definition disk_call :: "disk \<Rightarrow> nat option \<times> disk" where
  "disk_call d = (faults d (calls d), d\<lparr>calls := calls d + 1\<rparr>)"

definition content :: "string \<Rightarrow> disk \<Rightarrow> bytes" where
  "content name d = (case map_of (files d) name of None \<Rightarrow> [] | Some b \<Rightarrow> b)"

text \<open>\<^verbatim>\<open>os.WriteFile\<close> truncates, a write on a file opened with \<^verbatim>\<open>O_APPEND\<close>
  appends; the open with \<^verbatim>\<open>O_CREATE\<close> makes an empty file when there is none.\<close>

definition dir_WriteFile :: "string \<Rightarrow> bytes \<Rightarrow> disk \<Rightarrow> bool \<times> disk" where
  "dir_WriteFile name data d =
     (case disk_call d of
        (Some n, d1) \<Rightarrow> (False, d1\<lparr>files := AList.update name (take n data) (files d1)\<rparr>)
      | (None, d1) \<Rightarrow> (True, d1\<lparr>files := AList.update name data (files d1)\<rparr>))"

definition file_append :: "string \<Rightarrow> bytes \<Rightarrow> disk \<Rightarrow> bool \<times> disk" where
  "file_append name data d =
     (case disk_call d of
        (Some n, d1) \<Rightarrow> (False, d1\<lparr>files := AList.update name (content name d1 @ take n data) (files d1)\<rparr>)
      | (None, d1) \<Rightarrow> (True, d1\<lparr>files := AList.update name (content name d1 @ data) (files d1)\<rparr>))"

definition dir_OpenFile :: "string \<Rightarrow> disk \<Rightarrow> bool \<times> disk" where
  "dir_OpenFile name d =
     (case disk_call d of
        (Some _, d1) \<Rightarrow> (False, d1)
      | (None, d1) \<Rightarrow> (True, d1\<lparr>files := AList.update name (content name d1) (files d1)\<rparr>))"

definition dir_Rename :: "string \<Rightarrow> string \<Rightarrow> disk \<Rightarrow> bool \<times> disk" where
  "dir_Rename old new d =
     (case disk_call d of
        (Some _, d1) \<Rightarrow> (False, d1)
      | (None, d1) \<Rightarrow> (case map_of (files d1) old of
            None \<Rightarrow> (False, d1)
          | Some b \<Rightarrow> (True, d1\<lparr>files := AList.update new b (AList.delete old (files d1))\<rparr>)))"

definition not_exist :: err where "not_exist = Msg ''file does not exist''"

definition dir_ReadFile :: "string \<Rightarrow> disk \<Rightarrow> bytes res \<times> disk" where
  "dir_ReadFile name d =
     (case disk_call d of
        (Some _, d1) \<Rightarrow> (Inl (Msg ''input/output error''), d1)
      | (None, d1) \<Rightarrow> (case map_of (files d1) name of None \<Rightarrow> (Inl not_exist, d1) | Some b \<Rightarrow> (Inr b, d1)))"

section \<open>file\_rotator.go\<close>

text \<open>The directory is the disk; \<^verbatim>\<open>file\<close> is the handle on the current log file, usable
  or closed.\<close>

record FileRotator =
  filename :: string
  file_open :: bool
  today :: string

definition highRiskActions :: "string list" where
  "highRiskActions = [''Rotate'', ''ShredKey'', ''SysUnseal'', ''EmergencySeal'', ''AUDIT_LOG_PRUNE'']"

definition openCurrent :: "time \<Rightarrow> FileRotator \<Rightarrow> disk \<Rightarrow> err option \<times> FileRotator \<times> disk" where
  "openCurrent now r d =
     (case dir_OpenFile (filename r) d of
        (False, d1) \<Rightarrow> (Some (Wrap ''audit: open log file'' (Msg ''input/output error'')), r, d1)
      | (True, d1) \<Rightarrow> (None, r\<lparr>file_open := True, today := yyyymmdd now\<rparr>, d1))"

definition NewFileRotator :: "time \<Rightarrow> string \<Rightarrow> disk \<Rightarrow> FileRotator res \<times> disk" where
  "NewFileRotator now fname d =
     (case disk_call d of
        (Some _, d1) \<Rightarrow> (Inl (Wrap ''audit: create log dir'' (Msg ''input/output error'')), d1)
      | (None, d1) \<Rightarrow>
          (case openCurrent now \<lparr>filename = fname, file_open = False, today = yyyymmdd now\<rparr> d1 of
             (Some e, _, d2) \<Rightarrow> (Inl e, d2)
           | (None, r, d2) \<Rightarrow> (Inr r, d2)))"

definition sanitizeCRLF :: "bytes \<Rightarrow> bytes" where
  "sanitizeCRLF data = map (\<lambda>b. if b = CR \<or> b = LF then 32 else b) data"

definition rotateLocked :: "time \<Rightarrow> FileRotator \<Rightarrow> disk \<Rightarrow> err option \<times> FileRotator \<times> disk" where
  "rotateLocked now r d =
     (let archivedName = ''audit-'' @ today r @ ''.log''
      in openCurrent now (r\<lparr>file_open := False\<rparr>) (snd (dir_Rename (filename r) archivedName d)))"

definition rotator_Write ::
  "time \<Rightarrow> bytes \<Rightarrow> string \<Rightarrow> FileRotator \<Rightarrow> disk \<Rightarrow> err option \<times> FileRotator \<times> disk" where
  "rotator_Write now data action r d =
     (let data = sanitizeCRLF data
      in case (if yyyymmdd now \<noteq> today r then rotateLocked now r d else (None, r, d)) of
           (Some e, r1, d1) \<Rightarrow> (Some e, r1, d1)
         | (None, r1, d1) \<Rightarrow>
             if \<not> file_open r1 then (Some (Wrap ''audit: file write'' (Msg ''file already closed'')), r1, d1)
             else (case file_append (filename r1) (data @ [LF]) d1 of
                 (False, d2) \<Rightarrow> (Some (Wrap ''audit: file write'' (Msg ''input/output error'')), r1, d2)
               | (True, d2) \<Rightarrow>
                   if action \<in> set highRiskActions then
                     (case disk_call d2 of
                        (Some _, d3) \<Rightarrow> (Some (Wrap ''audit: file sync'' (Msg ''input/output error'')), r1, d3)
                      | (None, d3) \<Rightarrow> (None, r1, d3))
                   else (None, r1, d2)))"

definition Rotate :: "time \<Rightarrow> FileRotator \<Rightarrow> disk \<Rightarrow> err option \<times> FileRotator \<times> disk" where
  "Rotate now r d = rotateLocked now r d"

section \<open>syslog\_writer.go\<close>

text \<open>The buffered channel of 4096 messages and the counter of dropped ones; the goroutine takes
  the oldest message and either delivers it or gives up after its timeout.\<close>

record SyslogWriter =
  ch :: "bytes list"
  droppedCount :: int
  delivered :: "bytes list"

definition syslog_Write :: "bytes \<Rightarrow> SyslogWriter \<Rightarrow> SyslogWriter" where
  "syslog_Write data s =
     (if length (ch s) < 4096 then s\<lparr>ch := ch s @ [data]\<rparr> else s\<lparr>droppedCount := droppedCount s + 1\<rparr>)"

definition writeWithTimeout :: "bool \<Rightarrow> bytes \<Rightarrow> SyslogWriter \<Rightarrow> SyslogWriter" where
  "writeWithTimeout timely data s =
     (if timely then s\<lparr>delivered := delivered s @ [data]\<rparr> else s\<lparr>droppedCount := droppedCount s + 1\<rparr>)"

definition writeLoop_step :: "bool \<Rightarrow> SyslogWriter \<Rightarrow> SyslogWriter" where
  "writeLoop_step timely s =
     (case ch s of [] \<Rightarrow> s | data # rest \<Rightarrow> writeWithTimeout timely data (s\<lparr>ch := rest\<rparr>))"

section \<open>logger.go: operations\<close>

text \<open>The fallback writer is a sink of its own, a disk with the one file \<open>out\<close>. An empty
  \<^verbatim>\<open>anchorFile\<close> is \<open>None\<close>; the anchor lies in the log directory.\<close>

record AuditLogger =
  chain :: hashChain
  chainSeq :: "64 word"
  auditKey :: "SecureBuffer option"
  fileRotator :: "FileRotator option"
  syslogWriter :: "SyslogWriter option"
  fallbackWriter :: disk
  anchorFile :: "string option"
  log_dir :: disk

definition NewAuditLoggerWithHash :: "hash_alg \<Rightarrow> disk \<Rightarrow> disk \<Rightarrow> csprng \<Rightarrow> AuditLogger res \<times> csprng" where
  "NewAuditLoggerWithHash H writer dir r =
     (case NewSecureBufferFromRandom 32 r of
        (Inl e, r1) \<Rightarrow> (Inl (Wrap ''audit: generate audit key'' e), r1)
      | (Inr key, r1) \<Rightarrow>
          (Inr \<lparr>chain = newHashChainWithHash H (sb_data key), chainSeq = 0, auditKey = Some key,
             fileRotator = None, syslogWriter = None, fallbackWriter = writer, anchorFile = None,
             log_dir = dir\<rparr>, r1))"

definition NewAuditLogger :: "hash_alg \<Rightarrow> disk \<Rightarrow> disk \<Rightarrow> csprng \<Rightarrow> AuditLogger res \<times> csprng" where
  "NewAuditLogger sha256 writer dir r = NewAuditLoggerWithHash sha256 writer dir r"

definition loadAnchor :: "unicode \<Rightarrow> string \<Rightarrow> hashChain \<Rightarrow> disk \<Rightarrow> (hashChain res) \<times> disk" where
  "loadAnchor U path c d =
     (case dir_ReadFile path d of
        (Inl e, d1) \<Rightarrow> (Inl e, d1)
      | (Inr data, d1) \<Rightarrow>
          (bindR (hex_DecodeString (TrimSpace U (string_of data))) (\<lambda>sig.
             if length sig \<noteq> 32 then Inl (Msg ''audit: anchor signature length, want 32'')
             else Inr (SetLastSignature sig c)), d1))"

definition NewDualWriteLogger ::
  "unicode \<Rightarrow> hash_alg \<Rightarrow> time \<Rightarrow> string \<Rightarrow> SyslogWriter option \<Rightarrow> disk \<Rightarrow> disk \<Rightarrow> csprng \<Rightarrow> AuditLogger res \<times> disk \<times> csprng" where
  "NewDualWriteLogger U sha256 now fname sw writer dir r =
     (case NewSecureBufferFromRandom 32 r of
        (Inl e, r1) \<Rightarrow> (Inl (Wrap ''audit: generate audit key'' e), dir, r1)
      | (Inr key, r1) \<Rightarrow>
          (case NewFileRotator now fname dir of
             (Inl e, dir1) \<Rightarrow> (Inl e, dir1, r1)
           | (Inr rot, dir1) \<Rightarrow>
               let fresh = newHashChain sha256 (sb_data key);
                   logger = (\<lambda>c dir2. \<lparr>chain = c, chainSeq = 0, auditKey = Some key, fileRotator = Some rot,
                     syslogWriter = sw, fallbackWriter = writer, anchorFile = Some ''audit.chain'',
                     log_dir = dir2\<rparr>)
               in case loadAnchor U ''audit.chain'' fresh dir1 of
                    (Inr c, dir2) \<Rightarrow> (Inr (logger c dir2), dir2, r1)
                  | (Inl e, dir2) \<Rightarrow>
                      if e = not_exist then (Inr (logger fresh dir2), dir2, r1)
                      else (Inl (Wrap ''audit: anchor file corrupted'' e), dir2, r1)))"

definition saveAnchor :: "AuditLogger \<Rightarrow> AuditLogger" where
  "saveAnchor l =
     (case anchorFile l of
        None \<Rightarrow> l
      | Some path \<Rightarrow>
          let sig = bytes_of (chain_LastSignatureHex (chain l)); tmp = path @ ''.tmp''
          in case dir_WriteFile tmp sig (log_dir l) of
               (False, d1) \<Rightarrow> l\<lparr>log_dir := d1\<rparr>
             | (True, d1) \<Rightarrow> l\<lparr>log_dir := snd (dir_Rename tmp path d1)\<rparr>)"

text \<open>The critical section of \<^verbatim>\<open>Record\<close>: the chain advances and the sequence number is
  taken together. \<open>None\<close> is a nil key.\<close>

definition sign_payload :: "bytes \<Rightarrow> AuditLogger \<Rightarrow> signedEnvelope res \<times> AuditLogger" where
  "sign_payload payload l =
     (case auditKey l of
        None \<Rightarrow> (Inl (Panic ''nil pointer dereference''), l)
      | Some key \<Rightarrow>
          (case WithKey key (\<lambda>k. Inr (computeAndAdvance k payload (chain l))) of
             Inl e \<Rightarrow> (Inl e, l)
           | Inr ((sig, prev), c) \<Rightarrow>
               let seq = chainSeq l + 1
               in (Inr \<lparr>Payload = payload, Signature = sig, PrevSignature = prev, ChainSeq = seq\<rparr>,
                   l\<lparr>chain := c, chainSeq := seq\<rparr>)))"

definition write_out :: "time \<Rightarrow> bytes \<Rightarrow> string \<Rightarrow> AuditLogger \<Rightarrow> err option \<times> AuditLogger" where
  "write_out now out action l =
     (case fileRotator l of
        Some rot \<Rightarrow>
          (case rotator_Write now out action rot (log_dir l) of
             (Some e, rot1, d1) \<Rightarrow> (Some (Wrap ''audit: file write'' e), l\<lparr>fileRotator := Some rot1, log_dir := d1\<rparr>)
           | (None, rot1, d1) \<Rightarrow> (None, l\<lparr>fileRotator := Some rot1, log_dir := d1\<rparr>))
      | None \<Rightarrow>
          (case file_append ''out'' (out @ [LF]) (fallbackWriter l) of
             (False, w) \<Rightarrow> (Some (Wrap ''audit: fallback write'' (Msg ''input/output error'')), l\<lparr>fallbackWriter := w\<rparr>)
           | (True, w) \<Rightarrow> (None, l\<lparr>fallbackWriter := w\<rparr>)))"

definition Record :: "audit_json \<Rightarrow> time \<Rightarrow> LogEntry \<Rightarrow> AuditLogger \<Rightarrow> err option \<times> AuditLogger" where
  "Record J now entry l =
     (let entry = (if isZero (Timestamp entry) then entry\<lparr>Timestamp := now\<rparr> else entry)
      in case marshal_entry J entry of
           None \<Rightarrow> (Some (Wrap ''audit: marshal entry'' (Msg ''json: error calling MarshalJSON'')), l)
         | Some payload \<Rightarrow>
             (case sign_payload payload l of
                (Inl e, l1) \<Rightarrow> (Some e, l1)
              | (Inr envelope, l1) \<Rightarrow>
                  let out = marshal_envelope J envelope
                  in case write_out now out (Action entry) (saveAnchor l1) of
                       (Some e, l2) \<Rightarrow> (Some e, l2)
                     | (None, l2) \<Rightarrow>
                         (None, l2\<lparr>syslogWriter := map_option (syslog_Write (out @ [LF])) (syslogWriter l2)\<rparr>)))"

definition VerifySignature :: "hash_alg \<Rightarrow> bytes \<Rightarrow> string \<Rightarrow> AuditLogger \<Rightarrow> bool res" where
  "VerifySignature sha256 payload wantHexSig l =
     (case auditKey l of
        None \<Rightarrow> Inl (Panic ''nil pointer dereference'')
      | Some key \<Rightarrow> WithKey key (\<lambda>k. bindR (hex_DecodeString wantHexSig) (\<lambda>want.
          if mac sha256 k payload \<noteq> want then Inl (Msg ''audit: signature mismatch'') else Inr True)))"

definition VerifyChainSignature :: "hash_alg \<Rightarrow> bytes \<Rightarrow> string \<Rightarrow> string \<Rightarrow> AuditLogger \<Rightarrow> bool res" where
  "VerifyChainSignature sha256 payload prevSigHex wantHexSig l =
     (case auditKey l of
        None \<Rightarrow> Inl (Panic ''nil pointer dereference'')
      | Some key \<Rightarrow> WithKey key (\<lambda>k.
          bindR (hex_DecodeString prevSigHex) (\<lambda>prevSig.
          bindR (hex_DecodeString wantHexSig) (\<lambda>want.
            Inr (mac sha256 k (prevSig @ payload) = want)))))"

definition InitialChainSignatureHex :: "hash_alg \<Rightarrow> AuditLogger \<Rightarrow> string res" where
  "InitialChainSignatureHex sha256 l =
     (case auditKey l of
        None \<Rightarrow> Inl (Panic ''nil pointer dereference'')
      | Some key \<Rightarrow> WithKey key (\<lambda>k. Inr (hex_EncodeToString (digest sha256 k))))"

definition LastSignatureHex :: "AuditLogger \<Rightarrow> string" where
  "LastSignatureHex l = chain_LastSignatureHex (chain l)"

definition Close :: "AuditLogger \<Rightarrow> AuditLogger" where
  "Close l = l\<lparr>auditKey := None, fileRotator := map_option (\<lambda>r. r\<lparr>file_open := False\<rparr>) (fileRotator l)\<rparr>"

section \<open>query.go\<close>

record QueryFilter =
  StartTime :: "time option"
  EndTime :: "time option"
  FilterActor :: string
  FilterAction :: string
  Limit :: int

record QueryResult =
  Envelope :: signedEnvelope
  Entry :: LogEntry
  Valid :: bool

definition matchFilter :: "LogEntry \<Rightarrow> QueryFilter \<Rightarrow> bool" where
  "matchFilter entry flt =
     (if (case StartTime flt of Some t \<Rightarrow> Timestamp entry < t | None \<Rightarrow> False) then False
      else if (case EndTime flt of Some t \<Rightarrow> Timestamp entry > t | None \<Rightarrow> False) then False
      else if FilterActor flt \<noteq> [] \<and> Actor entry \<noteq> FilterActor flt then False
      else if FilterAction flt \<noteq> [] \<and> Action entry \<noteq> FilterAction flt then False
      else True)"

text \<open>\<^verbatim>\<open>bufio.Scanner\<close> with its line split: the lines of a file, without the final one when
  it is empty; each loses a trailing carriage return. A line of a megabyte or more stops the scan
  with an error.\<close>

fun raw_lines :: "bytes \<Rightarrow> bytes \<Rightarrow> bytes list" where
  "raw_lines cur [] = (if cur = [] then [] else [rev cur])"
| "raw_lines cur (b # bs) = (if b = LF then rev cur # raw_lines [] bs else raw_lines (b # cur) bs)"

definition dropCR :: "bytes \<Rightarrow> bytes" where
  "dropCR line = (if line \<noteq> [] \<and> last line = CR then butlast line else line)"

definition parse_line :: "audit_json \<Rightarrow> QueryFilter \<Rightarrow> bytes \<Rightarrow> QueryResult option" where
  "parse_line J flt line =
     (if line = [] then None
      else case unmarshal_envelope J line of
          None \<Rightarrow> None
        | Some env \<Rightarrow>
            (case unmarshal_entry J (Payload env) of
               None \<Rightarrow> None
             | Some entry \<Rightarrow>
                 if \<not> matchFilter entry flt then None
                 else Some \<lparr>Envelope = env, Entry = entry, Valid = False\<rparr>))"

definition parseAuditFile :: "audit_json \<Rightarrow> QueryFilter \<Rightarrow> string \<Rightarrow> disk \<Rightarrow> QueryResult list res \<times> disk" where
  "parseAuditFile J flt path d =
     (case dir_ReadFile path d of
        (Inl e, d1) \<Rightarrow> (Inl e, d1)
      | (Inr data, d1) \<Rightarrow>
          let ls = raw_lines [] data
          in if \<exists>l \<in> set ls. length l \<ge> 1048576 then (Inl (Msg ''bufio.Scanner: token too long''), d1)
             else (Inr (List.map_filter (parse_line J flt \<circ> dropCR) ls), d1))"

text \<open>\<^verbatim>\<open>os.ReadDir\<close> lists the names in order.\<close>

definition collectAuditFiles :: "disk \<Rightarrow> string list res \<times> disk" where
  "collectAuditFiles d =
     (case disk_call d of
        (Some _, d1) \<Rightarrow> (Inl (Msg ''input/output error''), d1)
      | (None, d1) \<Rightarrow>
          (Inr (filter (\<lambda>name. name = ''audit.log'' \<or> has_prefix name ''audit-'' \<and> has_suffix name ''.log'')
             (sort (map fst (files d1)))), d1))"

fun parse_files :: "audit_json \<Rightarrow> QueryFilter \<Rightarrow> string list \<Rightarrow> disk \<Rightarrow> QueryResult list \<times> disk" where
  "parse_files J flt [] d = ([], d)"
| "parse_files J flt (file # fs) d =
     (case parseAuditFile J flt file d of
        (Inl _, d1) \<Rightarrow> parse_files J flt fs d1
      | (Inr entries, d1) \<Rightarrow> (case parse_files J flt fs d1 of (results, d2) \<Rightarrow> (entries @ results, d2)))"

definition verifyChainEntry :: "hash_alg \<Rightarrow> AuditLogger \<Rightarrow> signedEnvelope \<Rightarrow> bool" where
  "verifyChainEntry sha256 l env =
     (VerifyChainSignature sha256 (Payload env) (PrevSignature env) (Signature env) l = Inr True)"

text \<open>\<^verbatim>\<open>sort.Slice\<close> is not stable: the parameter \<open>srt\<close> is any sorting by sequence
  number.\<close>

definition sort_ok :: "(QueryResult list \<Rightarrow> QueryResult list) \<Rightarrow> bool" where
  "sort_ok srt \<longleftrightarrow> (\<forall>xs. mset (srt xs) = mset xs \<and> sorted (map (ChainSeq \<circ> Envelope) (srt xs)))"

definition last_n :: "int \<Rightarrow> 'a list \<Rightarrow> 'a list" where
  "last_n n xs = (if n > 0 \<and> int (length xs) > n then drop (length xs - nat n) xs else xs)"

definition Query ::
  "audit_json \<Rightarrow> hash_alg \<Rightarrow> (QueryResult list \<Rightarrow> QueryResult list) \<Rightarrow> QueryFilter \<Rightarrow> AuditLogger \<Rightarrow>
   QueryResult list res \<times> AuditLogger" where
  "Query J sha256 srt flt l =
     (let flt = (if Limit flt = 0 then flt\<lparr>Limit := 100\<rparr> else flt)
      in case collectAuditFiles (log_dir l) of
           (Inl e, d1) \<Rightarrow> (Inl (Wrap ''audit: query: collect files'' e), l\<lparr>log_dir := d1\<rparr>)
         | (Inr fs, d1) \<Rightarrow>
             (case parse_files J flt fs d1 of
                (found, d2) \<Rightarrow>
                  let results = last_n (Limit flt) (srt found)
                  in (Inr (if auditKey l \<noteq> None
                        then map (\<lambda>r. r\<lparr>Valid := verifyChainEntry sha256 l (Envelope r)\<rparr>) results
                        else results), l\<lparr>log_dir := d2\<rparr>)))"

end
