(* ===== verification/Ciphertext.thy ===== *)
theory Ciphertext
  imports Memguard
begin

text \<open>
  \<^verbatim>\<open>internal/crypto\<close>: the self-routing ciphertext format, AES-256-GCM and SM4-GCM
  encryption of keys and data, the cipher suites and the envelope API. The AEAD itself (the
  standard library's AES-GCM, the third-party SM4-GCM) is a parameter, a pair of functions
  \<open>gcm_seal\<close> and \<open>gcm_open\<close> on key, nonce and text without additional data; what the code
  relies on is \<open>aead_ok\<close>: opening what was sealed gives the plaintext back, and sealing
  adds a 16-byte tag.
\<close>

section \<open>The AEAD parameter\<close>

record aead =
  gcm_seal :: "bytes \<Rightarrow> bytes \<Rightarrow> bytes \<Rightarrow> bytes"
  gcm_open :: "bytes \<Rightarrow> bytes \<Rightarrow> bytes \<Rightarrow> bytes option"

definition aead_ok :: "nat \<Rightarrow> aead \<Rightarrow> bool" where
  "aead_ok keylen A \<longleftrightarrow> (\<forall>k n p. length k = keylen \<longrightarrow> length n = 12 \<longrightarrow>
     gcm_open A k n (gcm_seal A k n p) = Some p \<and> length (gcm_seal A k n p) = length p + 16)"

section \<open>versioned_ciphertext.go\<close>

definition VersionPrefixSize :: nat where "VersionPrefixSize = 4"
definition NonceSize :: nat where "NonceSize = 12"
definition MinCiphertextSize :: nat where "MinCiphertextSize = VersionPrefixSize + NonceSize + 16"

text \<open>\<^verbatim>\<open>binary.BigEndian.PutUint32\<close> and \<^verbatim>\<open>binary.BigEndian.Uint32\<close>.\<close>

definition PutUint32 :: "32 word \<Rightarrow> bytes" where
  "PutUint32 v = [ucast (drop_bit 24 v), ucast (drop_bit 16 v), ucast (drop_bit 8 v), ucast v]"

definition Uint32 :: "bytes \<Rightarrow> 32 word" where
  "Uint32 b = push_bit 24 (ucast (b ! 0)) OR push_bit 16 (ucast (b ! 1)) OR
     push_bit 8 (ucast (b ! 2)) OR ucast (b ! 3)"

definition EncodeVersionedCiphertext :: "32 word \<Rightarrow> bytes \<Rightarrow> bytes \<Rightarrow> bytes" where
  "EncodeVersionedCiphertext version nonce ciphertext = PutUint32 version @ nonce @ ciphertext"

definition DecodeVersionedCiphertext :: "bytes \<Rightarrow> (32 word \<times> bytes \<times> bytes) res" where
  "DecodeVersionedCiphertext raw =
     (if length raw < MinCiphertextSize then Inl (Wrap ''need at least 32 bytes'' ErrCiphertextTooShort)
      else Inr (Uint32 (take VersionPrefixSize raw), take NonceSize (drop VersionPrefixSize raw),
             drop (VersionPrefixSize + NonceSize) raw))"

definition ExtractVersion :: "bytes \<Rightarrow> 32 word res" where
  "ExtractVersion raw =
     (if length raw < VersionPrefixSize then Inl (Wrap ''cannot extract version'' ErrCiphertextTooShort)
      else Inr (Uint32 (take VersionPrefixSize raw)))"

section \<open>versioned_encrypt.go\<close>

definition SafeUint32 :: "int \<Rightarrow> 32 word" where
  "SafeUint32 v = (if v < 0 \<or> v > 4294967295 then 0 else word_of_int v)"

definition gcmKeySize :: nat where "gcmKeySize = 32"
definition gcmNonceSize :: nat where "gcmNonceSize = 12"

definition EncryptVersioned ::
  "aead \<Rightarrow> SecureBuffer \<Rightarrow> 32 word \<Rightarrow> bytes \<Rightarrow> csprng \<Rightarrow> bytes res \<times> csprng" where
  "EncryptVersioned A key version plaintext r =
     (case GenerateSecureRandom (int gcmNonceSize) r of
        (Inl e, r') \<Rightarrow> (Inl (Wrap ''crypto: generate nonce'' e), r')
      | (Inr nonce, r') \<Rightarrow>
          (WithKey key (\<lambda>secret.
             if length secret \<noteq> gcmKeySize then Inl (Msg ''crypto: invalid AES key size'')
             else Inr (PutUint32 version @ nonce @ gcm_seal A secret nonce plaintext)), r'))"

definition DecryptVersioned :: "aead \<Rightarrow> SecureBuffer \<Rightarrow> bytes \<Rightarrow> (SecureBuffer \<times> 32 word) res" where
  "DecryptVersioned A key raw =
     bindR (DecodeVersionedCiphertext raw) (\<lambda>(version, nonce, ciphertext).
     bindR (WithKey key (\<lambda>secret.
         if length secret \<noteq> gcmKeySize then Inl (Msg ''crypto: invalid AES key size'')
         else case gcm_open A secret nonce ciphertext of
             None \<Rightarrow> Inl (Wrap ''crypto: gcm.Open'' (Msg ''cipher: message authentication failed''))
           | Some pt \<Rightarrow> Inr (fst (NewSecureBuffer pt))))
       (\<lambda>plaintext. Inr (plaintext, version)))"

section \<open>gcm.go\<close>

definition EncryptGCM :: "aead \<Rightarrow> SecureBuffer \<Rightarrow> bytes \<Rightarrow> csprng \<Rightarrow> bytes res \<times> csprng" where
  "EncryptGCM A key plaintext r =
     (case GenerateSecureRandom (int gcmNonceSize) r of
        (Inl e, r') \<Rightarrow> (Inl (Wrap ''crypto: generate nonce'' e), r')
      | (Inr nonce, r') \<Rightarrow>
          (bindR (WithKey key (\<lambda>secret.
             if length secret \<noteq> gcmKeySize then Inl (Msg ''crypto: invalid AES key size'')
             else Inr (gcm_seal A secret nonce plaintext)))
           (\<lambda>ciphertext. Inr (nonce @ ciphertext)), r'))"

text \<open>\<^verbatim>\<open>gcm.Open(nil, ...)\<close> returns a nil slice for an empty plaintext, which the
  \<^verbatim>\<open>plaintext == nil\<close> test after it turns into an error.\<close>

definition DecryptGCM :: "aead \<Rightarrow> SecureBuffer \<Rightarrow> bytes \<Rightarrow> SecureBuffer res" where
  "DecryptGCM A key ciphertext =
     (if length ciphertext < gcmNonceSize then Inl (Msg ''crypto: ciphertext too short'')
      else
        let nonce = take gcmNonceSize ciphertext; ct = drop gcmNonceSize ciphertext
        in case WithKey key (\<lambda>secret.
               if length secret \<noteq> gcmKeySize then Inl (Msg ''crypto: invalid AES key size'')
               else case gcm_open A secret nonce ct of
                   None \<Rightarrow> Inl (Msg ''cipher: message authentication failed'')
                 | Some pt \<Rightarrow> Inr pt) of
             Inl e \<Rightarrow> Inl (Wrap ''crypto: decrypt failed'' e)
           | Inr plaintext \<Rightarrow>
               if plaintext = [] then Inl (Msg ''crypto: decrypt succeeded but plaintext is nil (internal error)'')
               else Inr (fst (NewSecureBuffer plaintext)))"

section \<open>suite.go, suite_standard.go, suite_gmsm.go\<close>

datatype Cipher = StandardCipher | GMSMCipher

text \<open>The AEAD primitives of the process: AES-256-GCM and SM4-GCM.\<close>

record prims =
  aes :: aead
  sm4 :: aead

definition prims_ok :: "prims \<Rightarrow> bool" where
  "prims_ok P \<longleftrightarrow> aead_ok 32 (aes P) \<and> aead_ok 16 (sm4 P)"

fun KeySize :: "Cipher \<Rightarrow> int" where
  "KeySize StandardCipher = 32"
| "KeySize GMSMCipher = 16"

fun cipher_Name :: "Cipher \<Rightarrow> string" where
  "cipher_Name StandardCipher = ''aes-256-gcm''"
| "cipher_Name GMSMCipher = ''sm4-gcm''"

definition GMSM_Encrypt :: "aead \<Rightarrow> SecureBuffer \<Rightarrow> bytes \<Rightarrow> csprng \<Rightarrow> bytes res \<times> csprng" where
  "GMSM_Encrypt A key plaintext r =
     (if destroyed key then (Inl (Panic ''FATAL: Use after free in SecureBuffer''), r)
      else let k = sb_data key in
        if length k < 16 then (Inl (Msg ''crypto: SM4 key must be 16 bytes''), r)
        else case rand_Read NonceSize r of
            (None, r') \<Rightarrow> (Inl (Msg ''rand: read failed''), r')
          | (Some nonce, r') \<Rightarrow> (Inr (nonce @ gcm_seal A (take 16 k) nonce plaintext), r'))"

definition GMSM_Decrypt :: "aead \<Rightarrow> SecureBuffer \<Rightarrow> bytes \<Rightarrow> SecureBuffer res" where
  "GMSM_Decrypt A key ciphertext =
     bindR (WithKey key (\<lambda>k.
        if length k < 16 then Inl (Msg ''crypto: SM4 key must be 16 bytes'')
        else if length ciphertext \<le> NonceSize then Inl (Msg ''crypto: SM4 ciphertext too short'')
        else case gcm_open A (take 16 k) (take NonceSize ciphertext) (drop NonceSize ciphertext) of
            None \<Rightarrow> Inl (Msg ''cipher: message authentication failed'')
          | Some pt \<Rightarrow> Inr pt))
     (\<lambda>pt. Inr (fst (NewSecureBuffer pt)))"

fun cipher_Encrypt :: "prims \<Rightarrow> Cipher \<Rightarrow> SecureBuffer \<Rightarrow> bytes \<Rightarrow> csprng \<Rightarrow> bytes res \<times> csprng" where
  "cipher_Encrypt P StandardCipher key plaintext r = EncryptGCM (aes P) key plaintext r"
| "cipher_Encrypt P GMSMCipher key plaintext r = GMSM_Encrypt (sm4 P) key plaintext r"

fun cipher_Decrypt :: "prims \<Rightarrow> Cipher \<Rightarrow> SecureBuffer \<Rightarrow> bytes \<Rightarrow> SecureBuffer res" where
  "cipher_Decrypt P StandardCipher key ciphertext = DecryptGCM (aes P) key ciphertext"
| "cipher_Decrypt P GMSMCipher key ciphertext = GMSM_Decrypt (sm4 P) key ciphertext"

text \<open>\<^verbatim>\<open>NewSuite\<close>; the build tag \<^verbatim>\<open>gmsm\<close> decides whether \<^verbatim>\<open>NewGMSMSuite\<close> is
  the real one or the stub.\<close>

definition NewSuite :: "bool \<Rightarrow> string \<Rightarrow> Cipher res" where
  "NewSuite gmsm_build suite =
     (if suite = ''standard'' \<or> suite = '''' then Inr StandardCipher
      else if suite = ''gmsm'' then
        (if gmsm_build then Inr GMSMCipher
         else Inl (Msg ''crypto: GM (SM2/SM3/SM4) support not compiled in''))
      else Inl (Msg ''crypto: unsupported suite''))"

section \<open>envelope.go\<close>

definition encryptDEK :: "aead \<Rightarrow> SecureBuffer \<Rightarrow> SecureBuffer \<Rightarrow> csprng \<Rightarrow> bytes res \<times> csprng" where
  "encryptDEK A masterKey dek r =
     (if destroyed dek then (Inl (Panic ''FATAL: Use after free in SecureBuffer''), r)
      else EncryptGCM A masterKey (sb_data dek) r)"

definition envelope_GenerateDataKey ::
  "aead \<Rightarrow> SecureBuffer option \<Rightarrow> csprng \<Rightarrow> (SecureBuffer \<times> bytes) res \<times> csprng" where
  "envelope_GenerateDataKey A masterKey r =
     (case masterKey of
        None \<Rightarrow> (Inl ErrKeyRequired, r)
      | Some mk \<Rightarrow>
          (case NewSecureBufferFromRandom 32 r of
             (Inl e, r1) \<Rightarrow> (Inl (Wrap ''crypto: generate DEK'' e), r1)
           | (Inr plaintextDEK, r1) \<Rightarrow>
               (case encryptDEK A mk plaintextDEK r1 of
                  (Inl e, r2) \<Rightarrow> (Inl (Wrap ''crypto: encrypt DEK'' e), r2)
                | (Inr encryptedDEK, r2) \<Rightarrow> (Inr (plaintextDEK, encryptedDEK), r2))))"

section \<open>The format\<close>

lemma length_PutUint32 [simp]: "length (PutUint32 v) = 4"
  by (simp add: PutUint32_def)

lemma Uint32_PutUint32 [simp]: "Uint32 (PutUint32 v @ rest) = v"
proof (rule bit_word_eqI)
  fix n assume "n < LENGTH(32)"
  then consider "n < 8" | "8 \<le> n" "n < 16" | "16 \<le> n" "n < 24" | "24 \<le> n" "n < 32" by fastforce
  then show "bit (Uint32 (PutUint32 v @ rest)) n = bit v n"
    by cases (auto simp: Uint32_def PutUint32_def bit_simps)
qed

lemma bit_byte_le: "bit (b :: byte) n \<Longrightarrow> n < 8"
  using bit_imp_le_length [of b n] by simp

lemma bit_byte_high: "\<not> bit (b :: byte) (8 + n)" "\<not> bit (b :: byte) (16 + n)" "\<not> bit (b :: byte) (24 + n)"
  using bit_byte_le by fastforce+

lemma PutUint32_Uint32: "length b = 4 \<Longrightarrow> PutUint32 (Uint32 b) = b"
proof -
  assume "length b = 4"
  then obtain b0 b1 b2 b3 where b: "b = [b0, b1, b2, b3]"
    by (auto simp: length_Suc_conv numeral_eq_Suc)
  show ?thesis
    unfolding b PutUint32_def Uint32_def
    by (auto intro!: bit_word_eqI simp: bit_simps bit_byte_high)
qed

lemma DecodeVersionedCiphertext_Encode:
  assumes "length nonce = NonceSize" "16 \<le> length ct"
  shows "DecodeVersionedCiphertext (EncodeVersionedCiphertext v nonce ct) = Inr (v, nonce, ct)"
    and "ExtractVersion (EncodeVersionedCiphertext v nonce ct) = Inr v"
  using assms Uint32_PutUint32 [of v "[]"]
  by (simp_all add: DecodeVersionedCiphertext_def ExtractVersion_def EncodeVersionedCiphertext_def
      MinCiphertextSize_def VersionPrefixSize_def NonceSize_def)

lemma EncodeVersionedCiphertext_Decode:
  assumes "DecodeVersionedCiphertext raw = Inr (v, nonce, ct)"
  shows "EncodeVersionedCiphertext v nonce ct = raw \<and> length nonce = NonceSize \<and> 16 \<le> length ct
    \<and> ExtractVersion raw = Inr v"
proof -
  have len: "MinCiphertextSize \<le> length raw" and v: "v = Uint32 (take 4 raw)"
    and n: "nonce = take 12 (drop 4 raw)" and c: "ct = drop 16 raw"
    using assms by (auto simp: DecodeVersionedCiphertext_def VersionPrefixSize_def NonceSize_def split: if_splits)
  have l: "32 \<le> length raw" using len by (simp add: MinCiphertextSize_def VersionPrefixSize_def NonceSize_def)
  have "drop 4 raw = nonce @ ct" unfolding n c using append_take_drop_id [of 12 "drop 4 raw"] by simp
  moreover have "PutUint32 v = take 4 raw" using l v PutUint32_Uint32 [of "take 4 raw"] by simp
  ultimately have "PutUint32 v @ nonce @ ct = raw" by (metis append_take_drop_id)
  then show ?thesis using l v n c
    by (simp add: EncodeVersionedCiphertext_def ExtractVersion_def VersionPrefixSize_def NonceSize_def)
qed

section \<open>Round trips\<close>

lemma aead_okD:
  assumes "aead_ok kl A" "length k = kl" "length n = 12"
  shows "gcm_open A k n (gcm_seal A k n p) = Some p" "length (gcm_seal A k n p) = length p + 16"
  using assms by (auto simp: aead_ok_def)

lemma EncryptVersioned_DecryptVersioned:
  assumes ok: "aead_ok 32 A" and enc: "EncryptVersioned A key v pt r = (Inr raw, r')"
  shows "ExtractVersion raw = Inr v
    \<and> DecryptVersioned A key raw = Inr (\<lparr>sb_data = pt, destroyed = False\<rparr>, v)
    \<and> length raw = length pt + 32"
proof -
  obtain nonce where g: "GenerateSecureRandom 12 r = (Inr nonce, r')"
    and live: "\<not> destroyed key" and kl: "length (sb_data key) = 32"
    and raw: "raw = EncodeVersionedCiphertext v nonce (gcm_seal A (sb_data key) nonce pt)"
    using enc by (auto simp: EncryptVersioned_def WithKey_def gcmKeySize_def gcmNonceSize_def
        EncodeVersionedCiphertext_def split: prod.splits sum.splits if_splits)
  have n: "length nonce = 12" using GenerateSecureRandom_length [OF g] by simp
  note seal = aead_okD [OF ok kl n]
  have "DecodeVersionedCiphertext raw = Inr (v, nonce, gcm_seal A (sb_data key) nonce pt)"
    "ExtractVersion raw = Inr v"
    unfolding raw using seal n by (auto intro!: DecodeVersionedCiphertext_Encode simp: NonceSize_def)
  moreover have "length raw = length pt + 32"
    unfolding raw using seal n by (simp add: EncodeVersionedCiphertext_def)
  ultimately show ?thesis
    using live kl seal by (simp add: DecryptVersioned_def WithKey_def gcmKeySize_def NewSecureBuffer_def)
qed

text \<open>
  Property C20. A successful EncryptVersioned records the version so that ExtractVersion routes
  on it, and DecryptVersioned with the same key returns the plaintext together with that version;
  this holds for every plaintext, the empty one included, and every random source.
\<close>

theorem versioned_roundtrip:
  assumes ok: "aead_ok 32 A" and enc: "EncryptVersioned A key v pt r = (Inr raw, r')"
  shows "ExtractVersion raw = Inr v
    \<and> DecryptVersioned A key raw = Inr (\<lparr>sb_data = pt, destroyed = False\<rparr>, v)
    \<and> length raw = length pt + 32"
  using assms by (rule EncryptVersioned_DecryptVersioned)

text \<open>A concrete AEAD and a concrete random source, for witnesses.\<close>

definition toy_aead :: aead where
  "toy_aead = \<lparr>gcm_seal = (\<lambda>k n p. replicate 16 0 @ p), gcm_open = (\<lambda>k n c. Some (drop 16 c))\<rparr>"

definition zero_source :: csprng where
  "zero_source = \<lparr>stream = (\<lambda>_. Some 0), pos = 0\<rparr>"

definition toy_key :: SecureBuffer where
  "toy_key = \<lparr>sb_data = replicate 32 7, destroyed = False\<rparr>"

lemma toy_aead_ok: "aead_ok n toy_aead"
  by (simp add: aead_ok_def toy_aead_def)

lemma zero_source_serves: "serves (zero_source\<lparr>pos := p\<rparr>) (replicate n 0)"
  by (simp add: serves_def zero_source_def)

lemma those_replicate_Some: "those (replicate n (Some x)) = Some (replicate n x)"
  by (induction n) auto

lemma zero_source_random:
  "0 < n \<Longrightarrow> GenerateSecureRandom n (zero_source\<lparr>pos := p\<rparr>) =
     (Inr (replicate (nat n) 0), zero_source\<lparr>pos := p + nat n\<rparr>)"
  by (simp add: GenerateSecureRandom_def rand_Read_def zero_source_def map_replicate_const those_replicate_Some)

theorem versioned_roundtrip_witness:
  "\<exists>raw r'. aead_ok 32 toy_aead \<and> EncryptVersioned toy_aead toy_key 3 [1,2] zero_source = (Inr raw, r')
     \<and> DecryptVersioned toy_aead toy_key raw = Inr (\<lparr>sb_data = [1,2], destroyed = False\<rparr>, 3)"
proof -
  have "\<exists>raw r'. EncryptVersioned toy_aead toy_key 3 [1,2] zero_source = (Inr raw, r')"
    using zero_source_random [of 12 0]
    by (simp add: EncryptVersioned_def gcmNonceSize_def gcmKeySize_def WithKey_def toy_key_def zero_source_def)
  then show ?thesis using versioned_roundtrip [OF toy_aead_ok] toy_aead_ok by blast
qed

lemma EncryptGCM_cases:
  assumes "EncryptGCM A key pt r = (Inr ct, r')"
  obtains nonce where "\<not> destroyed key" "length (sb_data key) = 32" "length nonce = 12"
    "ct = nonce @ gcm_seal A (sb_data key) nonce pt"
  using assms by (auto simp: EncryptGCM_def WithKey_def gcmKeySize_def gcmNonceSize_def bindR_def
      dest!: GenerateSecureRandom_length split: prod.splits sum.splits if_splits)

lemma DecryptGCM_EncryptGCM:
  assumes "aead_ok 32 A" "EncryptGCM A key pt r = (Inr ct, r')"
  shows "DecryptGCM A key ct = (if pt = [] then Inl (Msg ''crypto: decrypt succeeded but plaintext is nil (internal error)'')
     else Inr \<lparr>sb_data = pt, destroyed = False\<rparr>)"
proof -
  obtain nonce where "\<not> destroyed key" "length (sb_data key) = 32" "length nonce = 12"
    "ct = nonce @ gcm_seal A (sb_data key) nonce pt" by (rule EncryptGCM_cases [OF assms(2)])
  then show ?thesis using assms(1)
    by (simp add: DecryptGCM_def gcmNonceSize_def gcmKeySize_def WithKey_def NewSecureBuffer_def aead_okD)
qed

lemma GMSM_roundtrip:
  assumes "aead_ok 16 A" "GMSM_Encrypt A key pt r = (Inr ct, r')"
  shows "GMSM_Decrypt A key ct = Inr \<lparr>sb_data = pt, destroyed = False\<rparr>"
proof -
  obtain nonce where k: "\<not> destroyed key" "16 \<le> length (sb_data key)" and r: "rand_Read 12 r = (Some nonce, r')"
    and ct: "ct = nonce @ gcm_seal A (take 16 (sb_data key)) nonce pt"
    using assms(2) by (auto simp: GMSM_Encrypt_def NonceSize_def Let_def split: if_splits prod.splits option.splits)
  have n: "length nonce = 12"
    using r by (auto simp: rand_Read_def those_Some dest: arg_cong [where f = length])
  have "length (take 16 (sb_data key)) = 16" using k(2) by simp
  note seal = aead_okD [OF assms(1) this n]
  show ?thesis using k ct n seal
    by (simp add: GMSM_Decrypt_def WithKey_def NonceSize_def NewSecureBuffer_def)
qed

text \<open>
  Both cipher suites recover what they encrypted: cipher_Decrypt of a successful
  cipher_Encrypt under the same key is the plaintext, except that the standard suite reports an
  internal error for the empty plaintext, which it accepts for encryption.
\<close>

theorem cipher_roundtrip:
  assumes "prims_ok P" "cipher_Encrypt P c key pt r = (Inr ct, r')"
  shows "cipher_Decrypt P c key ct =
    (if c = StandardCipher \<and> pt = []
     then Inl (Msg ''crypto: decrypt succeeded but plaintext is nil (internal error)'')
     else Inr \<lparr>sb_data = pt, destroyed = False\<rparr>)"
  using assms
  by (cases c) (simp_all add: prims_ok_def DecryptGCM_EncryptGCM GMSM_roundtrip)

definition toy_prims :: prims where
  "toy_prims = \<lparr>aes = toy_aead, sm4 = toy_aead\<rparr>"

lemma toy_prims_ok: "prims_ok toy_prims"
  by (simp add: prims_ok_def toy_prims_def toy_aead_ok)

lemma toy_EncryptGCM:
  "EncryptGCM toy_aead toy_key pt (zero_source\<lparr>pos := p\<rparr>) =
     (Inr (replicate 12 0 @ replicate 16 0 @ pt), zero_source\<lparr>pos := p + 12\<rparr>)"
  using zero_source_random [of 12 p]
  by (simp add: EncryptGCM_def gcmNonceSize_def gcmKeySize_def WithKey_def toy_key_def toy_aead_def)

lemma zero_source_pos0: "zero_source\<lparr>pos := 0\<rparr> = zero_source"
  by (simp add: zero_source_def)

theorem cipher_roundtrip_witness:
  "\<exists>ct r'. prims_ok toy_prims \<and> cipher_Encrypt toy_prims StandardCipher toy_key [5] zero_source = (Inr ct, r')
     \<and> cipher_Decrypt toy_prims StandardCipher toy_key ct = Inr \<lparr>sb_data = [5], destroyed = False\<rparr>"
proof -
  have "\<exists>ct r'. cipher_Encrypt toy_prims StandardCipher toy_key [5] zero_source = (Inr ct, r')"
    using toy_EncryptGCM [of "[5]" 0] by (simp add: zero_source_pos0 toy_prims_def)
  then show ?thesis using cipher_roundtrip [OF toy_prims_ok] toy_prims_ok by fastforce
qed

lemma EncryptVersioned_short_key:
  "\<not> destroyed key \<Longrightarrow> length (sb_data key) \<noteq> 32 \<Longrightarrow> \<exists>e r'. EncryptVersioned A key v pt r = (Inl e, r')"
  by (auto simp: EncryptVersioned_def WithKey_def gcmKeySize_def split: prod.splits sum.splits)

lemma DecryptVersioned_cases:
  assumes "DecryptVersioned A key raw = Inr (pt, v)"
  shows "\<not> destroyed key \<and> length (sb_data key) = 32 \<and> ExtractVersion raw = Inr v \<and> \<not> destroyed pt"
  using assms EncodeVersionedCiphertext_Decode
  by (fastforce simp: DecryptVersioned_def bindR_eq_Inr WithKey_def gcmKeySize_def NewSecureBuffer_def
      split: if_splits option.splits)

end
