(* ===== verification/AuditProps.thy ===== *)
theory AuditProps
  imports AuditLog Ciphertext
begin

text \<open>
  Properties of the audit log: the envelopes a logger signs form a chain that verifies, what was
  recorded is what a query returns, and what a query cannot notice.
\<close>

section \<open>The chain\<close>

text \<open>A logger holding a live key.\<close>

definition holds_key :: "bytes \<Rightarrow> AuditLogger \<Rightarrow> bool" where
  "holds_key k l \<longleftrightarrow> auditKey l = Some \<lparr>sb_data = k, destroyed = False\<rparr>"

definition envelope_for :: "hash_alg \<Rightarrow> bytes \<Rightarrow> bytes \<Rightarrow> 64 word \<Rightarrow> bytes \<Rightarrow> signedEnvelope" where
  "envelope_for H k lastSig seq payload =
     \<lparr>Payload = payload, Signature = hex_EncodeToString (mac H k (lastSig @ payload)),
      PrevSignature = hex_EncodeToString lastSig, ChainSeq = seq\<rparr>"

lemma sign_payload_live:
  assumes "holds_key k l"
  shows "sign_payload payload l =
    (Inr (envelope_for (newHash (chain l)) k (lastSignature (chain l)) (chainSeq l + 1) payload),
     l\<lparr>chain := (chain l)\<lparr>lastSignature := mac (newHash (chain l)) k (lastSignature (chain l) @ payload)\<rparr>,
       chainSeq := chainSeq l + 1\<rparr>)"
  using assms by (simp add: sign_payload_def holds_key_def WithKey_def computeAndAdvance_def Let_def envelope_for_def)

text \<open>Consecutive envelopes: each names the signature before it, is signed over it, and carries
  the next number.\<close>

fun chained :: "hash_alg \<Rightarrow> bytes \<Rightarrow> bytes \<Rightarrow> 64 word \<Rightarrow> signedEnvelope list \<Rightarrow> bool" where
  "chained H k prev seq [] = True"
| "chained H k prev seq (env # envs) =
     (env = envelope_for H k prev (seq + 1) (Payload env) \<and>
      chained H k (mac H k (prev @ Payload env)) (seq + 1) envs)"

lemma chained_append:
  "chained H k prev seq (xs @ [e]) \<longleftrightarrow> chained H k prev seq xs \<and>
     e = envelope_for H k (foldl (\<lambda>s x. mac H k (s @ Payload x)) prev xs)
       (seq + of_nat (length xs) + 1) (Payload e)"
  by (induction xs arbitrary: prev seq) (auto simp: algebra_simps)

lemma chained_verifies:
  assumes "chained H k prev seq envs" "holds_key k l" "env \<in> set envs"
  shows "VerifyChainSignature H (Payload env) (PrevSignature env) (Signature env) l = Inr True"
  using assms
proof (induction envs arbitrary: prev seq)
  case (Cons e envs)
  show ?case
  proof (cases "env = e")
    case True
    with Cons.prems have env: "env = envelope_for H k prev (seq + 1) (Payload env)" by simp
    have "Signature env = hex_EncodeToString (mac H k (prev @ Payload env))"
      "PrevSignature env = hex_EncodeToString prev"
      by (subst env, simp add: envelope_for_def)+
    with Cons.prems(2) show ?thesis
      by (simp add: VerifyChainSignature_def holds_key_def WithKey_def)
  next
    case False
    with Cons show ?thesis by auto
  qed
qed simp

text \<open>Sequence numbers: the \<open>i\<close>-th envelope carries \<open>i + 1\<close>.\<close>

lemma chained_seq:
  "chained H k prev seq envs \<Longrightarrow> i < length envs \<Longrightarrow> ChainSeq (envs ! i) = seq + of_nat i + 1"
proof (induction envs arbitrary: prev seq i)
  case (Cons e envs)
  show ?case
  proof (cases i)
    case 0
    from Cons.prems(1) have "e = envelope_for H k prev (seq + 1) (Payload e)" by simp
    then have "ChainSeq e = seq + 1" by (metis envelope_for_def signedEnvelope.select_convs(4))
    with 0 show ?thesis by simp
  next
    case (Suc j)
    with Cons show ?thesis by (auto simp: algebra_simps)
  qed
qed simp

lemma chained_sorted:
  assumes "chained H k prev 0 envs" "length envs < 2 ^ 64"
  shows "sorted (map ChainSeq envs) \<and> distinct (map ChainSeq envs)"
proof -
  have seq: "ChainSeq (envs ! i) = of_nat (i + 1)" if "i < length envs" for i
    using chained_seq [OF assms(1) that] by simp
  have less: "ChainSeq (envs ! i) < ChainSeq (envs ! j)" if "i < j" "j < length envs" for i j
  proof -
    have "(of_nat (i + 1) :: 64 word) < of_nat (j + 1)"
      using that assms(2) by (simp add: word_less_nat_alt unsigned_of_nat take_bit_nat_eq_self del: of_nat_Suc of_nat_add)
    with that show ?thesis by (simp add: seq del: of_nat_Suc of_nat_add)
  qed
  have "sorted_wrt (<) (map ChainSeq envs)"
    by (auto simp: sorted_wrt_iff_nth_less less)
  then show ?thesis by (simp add: strict_sorted_iff)
qed

section \<open>What a log file holds\<close>

definition unlines :: "bytes list \<Rightarrow> bytes" where
  "unlines ls = concat (map (\<lambda>l. l @ [LF]) ls)"

lemma unlines_snoc: "unlines ls @ l @ [LF] = unlines (ls @ [l])"
  by (simp add: unlines_def)

lemma raw_lines_line: "LF \<notin> set l \<Longrightarrow> raw_lines cur (l @ LF # bs) = (rev cur @ l) # raw_lines [] bs"
  by (induction l arbitrary: cur) auto

lemma raw_lines_unlines: "(\<And>l. l \<in> set ls \<Longrightarrow> LF \<notin> set l) \<Longrightarrow> raw_lines [] (unlines ls) = ls"
proof (induction ls)
  case (Cons l ls)
  have "unlines (l # ls) = l @ LF # unlines ls" by (simp add: unlines_def)
  with Cons show ?case by (simp add: raw_lines_line)
qed (simp add: unlines_def)

definition is_log :: "string \<Rightarrow> bool" where
  "is_log name \<longleftrightarrow> name = ''audit.log'' \<or> has_prefix name ''audit-'' \<and> has_suffix name ''.log''"

text \<open>A directory on which no call fails, with one log file that holds the given envelopes.\<close>

definition one_log :: "audit_json \<Rightarrow> signedEnvelope list \<Rightarrow> disk \<Rightarrow> bool" where
  "one_log J envs d \<longleftrightarrow> faults d = (\<lambda>_. None) \<and> filter is_log (map fst (files d)) = [''audit.log'']
     \<and> map_of (files d) ''audit.log'' = Some (unlines (map (marshal_envelope J) envs))"

text \<open>An envelope whose line the query reads back.\<close>

definition readable :: "audit_json \<Rightarrow> signedEnvelope \<Rightarrow> bool" where
  "readable J env \<longleftrightarrow> unmarshal_entry J (Payload env) \<noteq> None
     \<and> unmarshal_envelope J (marshal_envelope J env) = Some env
     \<and> marshal_envelope J env \<noteq> [] \<and> LF \<notin> set (marshal_envelope J env) \<and> CR \<notin> set (marshal_envelope J env)
     \<and> length (marshal_envelope J env) < 1048576"

definition entry_of :: "audit_json \<Rightarrow> signedEnvelope \<Rightarrow> LogEntry" where
  "entry_of J env = (case unmarshal_entry J (Payload env) of Some e \<Rightarrow> e)"

definition everything :: QueryFilter where
  "everything = \<lparr>StartTime = None, EndTime = None, FilterActor = [], FilterAction = [], Limit = -1\<rparr>"

lemma Limit_everything [simp]: "Limit everything = -1"
  by (simp add: everything_def)

lemma parse_readable:
  assumes "readable J env"
  shows "parse_line J everything (dropCR (marshal_envelope J env)) =
    Some \<lparr>Envelope = env, Entry = entry_of J env, Valid = False\<rparr>"
proof -
  have "dropCR (marshal_envelope J env) = marshal_envelope J env"
    using assms by (auto simp: dropCR_def readable_def dest: last_in_set)
  moreover obtain e where "unmarshal_entry J (Payload env) = Some e"
    using assms by (auto simp: readable_def)
  ultimately show ?thesis
    using assms by (simp add: parse_line_def readable_def entry_of_def matchFilter_def everything_def)
qed

lemma map_filter_readable:
  "list_all (readable J) envs \<Longrightarrow>
   List.map_filter (parse_line J everything \<circ> dropCR) (map (marshal_envelope J) envs) =
     map (\<lambda>env. \<lparr>Envelope = env, Entry = entry_of J env, Valid = False\<rparr>) envs"
  by (induction envs) (simp_all add: List.map_filter_simps parse_readable)

lemma parseAuditFile_one_log:
  assumes "one_log J envs d" "list_all (readable J) envs"
  shows "parseAuditFile J everything ''audit.log'' d =
    (Inr (map (\<lambda>env. \<lparr>Envelope = env, Entry = entry_of J env, Valid = False\<rparr>) envs), d\<lparr>calls := calls d + 1\<rparr>)"
proof -
  have lines: "raw_lines [] (unlines (map (marshal_envelope J) envs)) = map (marshal_envelope J) envs"
    using assms(2) by (intro raw_lines_unlines) (auto simp: list_all_iff readable_def)
  have short: "\<not> (\<exists>l \<in> set (map (marshal_envelope J) envs). length l \<ge> 1048576)"
    using assms(2) by (auto simp: list_all_iff readable_def)
  show ?thesis
    using assms(1) short map_filter_readable [OF assms(2)]
    by (simp add: parseAuditFile_def dir_ReadFile_def disk_call_def one_log_def lines)
qed

text \<open>Sorting by a key that has no repetitions gives the one sorted list.\<close>

lemma sorted_unique:
  fixes f :: "'a \<Rightarrow> 'b :: linorder"
  assumes "mset xs = mset ys" "sorted (map f xs)" "sorted (map f ys)" "distinct (map f ys)"
  shows "xs = ys"
proof -
  have set: "set xs = set ys" using assms(1) by (rule mset_eq_setD)
  have "mset (map f xs) = mset (map f ys)" using assms(1) by simp
  then have "map f xs = map f ys"
    using assms(2,3) by (metis properties_for_sort)
  moreover have "inj_on f (set xs \<union> set ys)" using assms(4) set by (simp add: distinct_map)
  ultimately show ?thesis by (simp add: inj_on_map_eq_map)
qed

lemma Query_one_log:
  assumes "one_log J envs (log_dir l)" "list_all (readable J) envs" "sort_ok srt"
    "sorted (map ChainSeq envs)" "distinct (map ChainSeq envs)" "auditKey l \<noteq> None"
  shows "fst (Query J H srt everything l) =
    Inr (map (\<lambda>env. \<lparr>Envelope = env, Entry = entry_of J env, Valid = verifyChainEntry H l env\<rparr>) envs)"
proof -
  let ?rs = "map (\<lambda>env. \<lparr>Envelope = env, Entry = entry_of J env, Valid = False\<rparr>) envs"
  let ?d = "(log_dir l)\<lparr>calls := calls (log_dir l) + 1\<rparr>"
  have "srt ?rs = ?rs"
    by (rule sorted_unique [where f = "ChainSeq \<circ> Envelope"])
      (use assms(3,4,5) in \<open>simp_all add: sort_ok_def comp_def\<close>)
  moreover have "collectAuditFiles (log_dir l) = (Inr [''audit.log''], ?d)"
    using assms(1) by (simp add: collectAuditFiles_def disk_call_def one_log_def filter_sort flip: is_log_def)
  moreover have "one_log J envs ?d" using assms(1) by (simp add: one_log_def)
  ultimately show ?thesis
    using assms(2,6) by (simp add: Query_def parseAuditFile_one_log last_n_def comp_def Let_def)
qed

section \<open>Recording\<close>

text \<open>A sequence of calls of \<^verbatim>\<open>Record\<close> at the given times.\<close>

fun record_run :: "audit_json \<Rightarrow> (time \<times> LogEntry) list \<Rightarrow> AuditLogger \<Rightarrow> err option list \<times> AuditLogger" where
  "record_run J [] l = ([], l)"
| "record_run J ((now, e) # es) l =
     (case Record J now e l of (r, l1) \<Rightarrow> (case record_run J es l1 of (rs, l2) \<Rightarrow> (r # rs, l2)))"

definition stamp :: "time \<times> LogEntry \<Rightarrow> LogEntry" where
  "stamp = (\<lambda>(now, e). if isZero (Timestamp e) then e\<lparr>Timestamp := now\<rparr> else e)"

definition run_inv :: "audit_json \<Rightarrow> hash_alg \<Rightarrow> bytes \<Rightarrow> string \<Rightarrow> signedEnvelope list \<Rightarrow> AuditLogger \<Rightarrow> bool" where
  "run_inv J H k day envs l \<longleftrightarrow> holds_key k l \<and> newHash (chain l) = H
     \<and> chained H k (digest H k) 0 envs
     \<and> lastSignature (chain l) = foldl (\<lambda>s x. mac H k (s @ Payload x)) (digest H k) envs
     \<and> chainSeq l = of_nat (length envs)
     \<and> fileRotator l = Some \<lparr>filename = ''audit.log'', file_open = True, today = day\<rparr>
     \<and> anchorFile l = Some ''audit.chain'' \<and> one_log J envs (log_dir l)"

lemma not_log_names [simp]: "\<not> is_log ''audit.chain''" "\<not> is_log ''audit.chain.tmp''"
  by (simp_all add: is_log_def has_prefix_def)

lemma log_keys_delete: "\<not> is_log k \<Longrightarrow> filter is_log (map fst (AList.delete k al)) = filter is_log (map fst al)"
  by (induction al) auto

lemma log_keys_update: "\<not> is_log k \<Longrightarrow> filter is_log (map fst (AList.update k v al)) = filter is_log (map fst al)"
  by (induction al) auto

lemma one_log_update: "one_log J envs d \<Longrightarrow> \<not> is_log name \<Longrightarrow>
    one_log J envs (d\<lparr>files := AList.update name b (files d)\<rparr>)"
  by (auto simp add: one_log_def log_keys_update is_log_def)

lemma one_log_delete: "one_log J envs d \<Longrightarrow> \<not> is_log name \<Longrightarrow>
    one_log J envs (d\<lparr>files := AList.delete name (files d)\<rparr>)"
  by (auto simp add: one_log_def log_keys_delete is_log_def)

lemma log_keys_same: "k \<in> set (map fst al) \<Longrightarrow> map fst (AList.update k v al) = map fst al"
  by (simp add: AList.update_keys)

lemma one_log_append:
  assumes "one_log J envs d"
  shows "one_log J (envs @ [env]) (d\<lparr>files := AList.update ''audit.log''
    (content ''audit.log'' d @ marshal_envelope J env @ [LF]) (files d)\<rparr>)"
proof -
  have "''audit.log'' \<in> set (map fst (files d))"
    using assms by (force simp: one_log_def dest: map_of_SomeD)
  with assms show ?thesis
    by (simp add: one_log_def log_keys_same content_def unlines_snoc)
qed

lemma one_log_calls [simp]: "one_log J envs (d\<lparr>calls := n\<rparr>) = one_log J envs d"
  by (simp add: one_log_def)

lemma one_log_faults: "one_log J envs d \<Longrightarrow> faults d = (\<lambda>_. None)"
  by (simp add: one_log_def)

lemma saveAnchor_log:
  assumes "anchorFile l = Some ''audit.chain''" "one_log J envs (log_dir l)"
  shows "\<exists>d. saveAnchor l = l\<lparr>log_dir := d\<rparr> \<and> one_log J envs d"
proof -
  let ?d = "log_dir l"
  define sig where "sig = bytes_of (chain_LastSignatureHex (chain l))"
  define d1 where "d1 = ?d\<lparr>calls := calls ?d + 1, files := AList.update ''audit.chain.tmp'' sig (files ?d)\<rparr>"
  have fl: "faults ?d = (\<lambda>_. None)" using assms(2) by (rule one_log_faults)
  have "one_log J envs d1"
    using one_log_update [OF assms(2), of "''audit.chain.tmp''" sig] by (simp add: d1_def one_log_def)
  then have "one_log J envs (snd (dir_Rename ''audit.chain.tmp'' ''audit.chain'' d1))"
    using one_log_update one_log_delete
    by (simp add: dir_Rename_def disk_call_def one_log_def d1_def log_keys_update log_keys_delete split: option.splits)
  moreover have "saveAnchor l = l\<lparr>log_dir := snd (dir_Rename ''audit.chain.tmp'' ''audit.chain'' d1)\<rparr>"
    using fl assms(1) by (simp add: saveAnchor_def dir_WriteFile_def disk_call_def d1_def sig_def Let_def)
  ultimately show ?thesis by blast
qed

lemma sanitizeCRLF_id: "LF \<notin> set b \<Longrightarrow> CR \<notin> set b \<Longrightarrow> sanitizeCRLF b = b"
  unfolding sanitizeCRLF_def by (rule map_idI) auto

lemma rotator_Write_log:
  assumes "one_log J envs d" "yyyymmdd now = day"
    "LF \<notin> set (marshal_envelope J env)" "CR \<notin> set (marshal_envelope J env)"
  shows "\<exists>d'. rotator_Write now (marshal_envelope J env) action
      \<lparr>filename = ''audit.log'', file_open = True, today = day\<rparr> d =
      (None, \<lparr>filename = ''audit.log'', file_open = True, today = day\<rparr>, d') \<and> one_log J (envs @ [env]) d'"
proof -
  let ?d1 = "d\<lparr>files := AList.update ''audit.log''
    (content ''audit.log'' d @ marshal_envelope J env @ [LF]) (files d), calls := calls d + 1\<rparr>"
  have ap: "file_append ''audit.log'' (marshal_envelope J env @ [LF]) d = (True, ?d1)"
    using one_log_faults [OF assms(1)] by (simp add: file_append_def disk_call_def content_def)
  have log: "one_log J (envs @ [env]) ?d1"
    by (rule one_log_calls [THEN iffD2, OF one_log_append [OF assms(1)]])
  then have log2: "one_log J (envs @ [env]) (?d1\<lparr>calls := calls ?d1 + 1\<rparr>)" by simp
  have none: "faults ?d1 (calls ?d1) = None" using one_log_faults [OF log] by simp
  show ?thesis
  proof (cases "action \<in> set highRiskActions")
    case True
    then have "rotator_Write now (marshal_envelope J env) action
      \<lparr>filename = ''audit.log'', file_open = True, today = day\<rparr> d =
      (None, \<lparr>filename = ''audit.log'', file_open = True, today = day\<rparr>, ?d1\<lparr>calls := calls ?d1 + 1\<rparr>)"
      using assms ap none by (simp add: rotator_Write_def sanitizeCRLF_id disk_call_def Let_def)
    with log2 show ?thesis by blast
  next
    case False
    then show ?thesis using assms ap log by (simp add: rotator_Write_def sanitizeCRLF_id Let_def)
  qed
qed

lemma Record_step:
  assumes inv: "run_inv J H k day envs l" and day: "yyyymmdd now = day"
    and json: "json_ok J" and entry: "marshal_entry J (stamp (now, e)) = Some p"
  shows "\<exists>env l'. Record J now e l = (None, l') \<and> run_inv J H k day (envs @ [env]) l' \<and> Payload env = p"
proof -
  let ?last = "foldl (\<lambda>s x. mac H k (s @ Payload x)) (digest H k) envs"
  let ?env = "envelope_for H k ?last (of_nat (length envs) + 1) p"
  let ?l1 = "l\<lparr>chain := (chain l)\<lparr>lastSignature := mac H k (?last @ p)\<rparr>, chainSeq := of_nat (length envs) + 1\<rparr>"
  have signed: "sign_payload p l = (Inr ?env, ?l1)"
    using inv sign_payload_live [of k l p] by (simp add: run_inv_def)
  obtain d where d: "saveAnchor ?l1 = ?l1\<lparr>log_dir := d\<rparr>" "one_log J envs d"
    using saveAnchor_log [of ?l1 J envs] inv by (auto simp: run_inv_def)
  have clean: "LF \<notin> set (marshal_envelope J ?env)" "CR \<notin> set (marshal_envelope J ?env)"
    using json entry by (auto simp: json_ok_def envelope_for_def Let_def)
  obtain d' where d': "rotator_Write now (marshal_envelope J ?env) (Action (stamp (now, e)))
      \<lparr>filename = ''audit.log'', file_open = True, today = day\<rparr> d =
      (None, \<lparr>filename = ''audit.log'', file_open = True, today = day\<rparr>, d')" "one_log J (envs @ [?env]) d'"
    using rotator_Write_log [OF d(2) day clean] by blast
  define l2 where "l2 = ?l1\<lparr>log_dir := d',
     syslogWriter := map_option (syslog_Write (marshal_envelope J ?env @ [LF])) (syslogWriter l)\<rparr>"
  have rot: "fileRotator l = Some \<lparr>filename = ''audit.log'', file_open = True, today = day\<rparr>"
    using inv by (simp add: run_inv_def)
  have "Record J now e l = (None, l2)"
    using entry signed d(1) d'(1) rot
    by (simp add: Record_def stamp_def write_out_def Let_def l2_def del: foldl_Cons)
  moreover have "run_inv J H k day (envs @ [?env]) l2"
    using inv d'(2) by (simp add: run_inv_def holds_key_def l2_def chained_append envelope_for_def add.commute)
  moreover have "Payload ?env = p" by (simp add: envelope_for_def)
  ultimately show ?thesis by blast
qed

lemma record_run_inv:
  assumes "run_inv J H k day envs l" "json_ok J"
    "\<And>x. x \<in> set run \<Longrightarrow> yyyymmdd (fst x) = day" "map (\<lambda>x. marshal_entry J (stamp x)) run = map Some ps"
  shows "\<exists>more l'. record_run J run l = (replicate (length run) None, l') \<and> run_inv J H k day (envs @ more) l'
    \<and> map Payload more = ps"
  using assms
proof (induction run arbitrary: envs l ps)
  case (Cons x run)
  obtain now e where x: "x = (now, e)" by (cases x)
  from Cons.prems(4) obtain p qs where ps: "ps = p # qs" "marshal_entry J (stamp x) = Some p"
    "map (\<lambda>x. marshal_entry J (stamp x)) run = map Some qs" by auto
  obtain env l1 where l1: "Record J now e l = (None, l1)" "run_inv J H k day (envs @ [env]) l1" "Payload env = p"
    using Record_step [OF Cons.prems(1) _ Cons.prems(2), of now e p] Cons.prems(3) [of x] ps(2) x by auto
  obtain more l2 where "record_run J run l1 = (replicate (length run) None, l2)"
    "run_inv J H k day ((envs @ [env]) @ more) l2" "map Payload more = qs"
    using Cons.IH [OF l1(2) Cons.prems(2) _ ps(3)] Cons.prems(3) by auto
  with l1 ps x show ?case by (intro exI [of _ "env # more"] exI [of _ l2]) simp
qed simp

section \<open>Recording and querying\<close>

definition hash_len :: "hash_alg \<Rightarrow> bool" where
  "hash_len H \<longleftrightarrow> (\<forall>k m. length (mac H k m) = 32) \<and> (\<forall>m. length (digest H m) = 32)"

text \<open>An entry whose signed line stays below the scanner's limit.\<close>

definition short :: "audit_json \<Rightarrow> bytes \<Rightarrow> bool" where
  "short J p \<longleftrightarrow> (\<forall>sig prev seq. length sig = 64 \<longrightarrow> length prev = 64 \<longrightarrow>
     length (marshal_envelope J \<lparr>Payload = p, Signature = sig, PrevSignature = prev, ChainSeq = seq\<rparr>) < 1048576)"

lemma length_hex [simp]: "length (hex_EncodeToString b) = 2 * length b"
  by (induction b) (simp_all add: hex_EncodeToString_def hex_byte_def)

lemma chained_readable:
  assumes "chained H k prev seq envs" "hash_len H" "length prev = 32" "json_ok J"
    "\<And>env. env \<in> set envs \<Longrightarrow> short J (Payload env) \<and> (\<exists>e. marshal_entry J e = Some (Payload env))"
  shows "list_all (readable J) envs"
  using assms
proof (induction envs arbitrary: prev seq)
  case (Cons env envs)
  let ?sig = "hex_EncodeToString (mac H k (prev @ Payload env))"
  from Cons.prems(1) have "env = envelope_for H k prev (seq + 1) (Payload env)" by simp
  then have env: "env = \<lparr>Payload = Payload env, Signature = ?sig, PrevSignature = hex_EncodeToString prev, ChainSeq = seq + 1\<rparr>"
    by (simp add: envelope_for_def)
  have sig: "length ?sig = 64" using Cons.prems(2) by (simp add: hash_len_def)
  have "length (hex_EncodeToString prev) = 64" using Cons.prems(3) by simp
  with sig have "length (marshal_envelope J \<lparr>Payload = Payload env, Signature = ?sig,
      PrevSignature = hex_EncodeToString prev, ChainSeq = seq + 1\<rparr>) < 1048576"
    using Cons.prems(5) [of env] by (auto simp: short_def)
  with env have short: "length (marshal_envelope J env) < 1048576" by metis
  obtain e where e: "marshal_entry J e = Some (Payload env)" using Cons.prems(5) [of env] by auto
  have "unmarshal_entry J (Payload env) \<noteq> None \<and> unmarshal_envelope J (marshal_envelope J env) = Some env
      \<and> marshal_envelope J env \<noteq> [] \<and> LF \<notin> set (marshal_envelope J env) \<and> CR \<notin> set (marshal_envelope J env)"
    by (subst (2 3 4 5 6) env) (use Cons.prems(4) e in \<open>simp add: json_ok_def Let_def\<close>)
  with short have "readable J env" by (simp add: readable_def)
  moreover have "list_all (readable J) envs"
    by (rule Cons.IH [of "mac H k (prev @ Payload env)" "seq + 1"])
      (use Cons.prems in \<open>auto simp: hash_len_def\<close>)
  ultimately show ?case by simp
qed simp

lemma NewDualWriteLogger_inv:
  assumes "NewDualWriteLogger U H t0 ''audit.log'' sw w dir r = (Inr l0, dir', r')"
    "files dir = []" "faults dir = (\<lambda>_. None)"
  shows "run_inv J H (sb_data (the (auditKey l0))) (yyyymmdd t0) [] l0"
proof -
  obtain key r1 where key: "NewSecureBufferFromRandom 32 r = (Inr key, r1)" "\<not> destroyed key"
    using assms(1)
    by (auto simp: NewDualWriteLogger_def NewSecureBufferFromRandom_def split: prod.splits sum.splits)
  then show ?thesis
    using assms
    by (cases key) (auto simp: NewDualWriteLogger_def NewFileRotator_def openCurrent_def dir_OpenFile_def disk_call_def
        loadAnchor_def dir_ReadFile_def run_inv_def holds_key_def newHashChain_def newHashChainWithHash_def
        one_log_def content_def unlines_def is_log_def Let_def not_exist_def)
qed

text \<open>What a run of successful records leaves behind.\<close>

lemma recorded:
  assumes json: "json_ok J" and hash: "hash_len H" and dir: "files dir = []" "faults dir = (\<lambda>_. None)"
    and new: "NewDualWriteLogger U H t0 ''audit.log'' sw w dir r = (Inr l0, dir', r')"
    and day: "\<forall>x \<in> set run. yyyymmdd (fst x) = yyyymmdd t0"
    and ps: "map (\<lambda>x. marshal_entry J (stamp x)) run = map Some ps" "\<forall>p \<in> set ps. short J p"
    and len: "length run < 2 ^ 64"
  shows "\<exists>envs l. record_run J run l0 = (replicate (length run) None, l)
    \<and> run_inv J H (sb_data (the (auditKey l0))) (yyyymmdd t0) envs l
    \<and> map Payload envs = ps \<and> list_all (readable J) envs
    \<and> sorted (map ChainSeq envs) \<and> distinct (map ChainSeq envs)"
proof -
  let ?k = "sb_data (the (auditKey l0))"
  obtain envs l where run: "record_run J run l0 = (replicate (length run) None, l)"
    "run_inv J H ?k (yyyymmdd t0) envs l" "map Payload envs = ps"
    using record_run_inv [OF NewDualWriteLogger_inv [OF new dir, of J] json _ ps(1)] day by auto
  have chained: "chained H ?k (digest H ?k) 0 envs" using run(2) by (simp add: run_inv_def)
  have n: "length envs = length run" using run(3) ps(1) by (metis length_map)
  have "short J (Payload env) \<and> (\<exists>e. marshal_entry J e = Some (Payload env))" if "env \<in> set envs" for env
  proof -
    have "Payload env \<in> set ps" using that run(3) by auto
    moreover from this have "Some (Payload env) \<in> (\<lambda>x. marshal_entry J (stamp x)) ` set run"
      using ps(1) by (metis image_eqI image_set)
    ultimately show ?thesis using ps(2) by auto
  qed
  then have "list_all (readable J) envs"
    using chained_readable [OF chained hash _ json] hash by (simp add: hash_len_def)
  moreover have "length envs < 2 ^ 64" using len n by simp
  ultimately show ?thesis using run chained_sorted [OF chained] by blast
qed


text \<open>
  Deletions are not noticed. Removing any of the recorded lines from the log file
  leaves a log that a query reports as valid entry by entry: each entry is checked against the
  predecessor it names itself, never against the entry before it.
\<close>
theorem deletion_undetected:
  assumes "json_ok J" "hash_len H" "sort_ok srt" "files dir = []" "faults dir = (\<lambda>_. None)"
    "NewDualWriteLogger U H t0 ''audit.log'' sw w dir r = (Inr l0, dir', r')"
    "\<forall>x \<in> set run. yyyymmdd (fst x) = yyyymmdd t0"
    "map (\<lambda>x. marshal_entry J (stamp x)) run = map Some ps" "\<forall>p \<in> set ps. short J p"
    "length run < 2 ^ 64"
  shows "\<exists>envs l. record_run J run l0 = (replicate (length run) None, l) \<and> map Payload envs = ps
    \<and> content ''audit.log'' (log_dir l) = unlines (map (marshal_envelope J) envs)
    \<and> (\<forall>keep. fst (Query J H srt everything (l\<lparr>log_dir := (log_dir l)\<lparr>files := AList.update ''audit.log''
          (unlines (map (marshal_envelope J) (filter keep envs))) (files (log_dir l))\<rparr>\<rparr>)) =
        Inr (map (\<lambda>env. \<lparr>Envelope = env, Entry = entry_of J env, Valid = True\<rparr>) (filter keep envs)))"
proof -
  let ?k = "sb_data (the (auditKey l0))"
  obtain envs l where run: "record_run J run l0 = (replicate (length run) None, l)"
    "run_inv J H ?k (yyyymmdd t0) envs l" "map Payload envs = ps" "list_all (readable J) envs"
    "sorted (map ChainSeq envs)" "distinct (map ChainSeq envs)"
    using recorded [OF assms(1,2,4-10)] by blast
  from run(2) have inv: "holds_key ?k l" "chained H ?k (digest H ?k) 0 envs" "one_log J envs (log_dir l)"
    by (simp_all add: run_inv_def)
  have "fst (Query J H srt everything (l\<lparr>log_dir := (log_dir l)\<lparr>files := AList.update ''audit.log''
          (unlines (map (marshal_envelope J) (filter keep envs))) (files (log_dir l))\<rparr>\<rparr>)) =
        Inr (map (\<lambda>env. \<lparr>Envelope = env, Entry = entry_of J env, Valid = True\<rparr>) (filter keep envs))"
    (is "fst (Query J H srt everything ?l) = _") for keep
  proof -
    have "''audit.log'' \<in> set (map fst (files (log_dir l)))"
      using inv(3) by (force simp: one_log_def dest: map_of_SomeD)
    with inv(3) have "one_log J (filter keep envs) (log_dir ?l)"
      by (simp add: one_log_def log_keys_same)
    moreover have "list_all (readable J) (filter keep envs)" using run(4) by (auto simp: list_all_iff)
    moreover have "sorted (map ChainSeq (filter keep envs))" "distinct (map ChainSeq (filter keep envs))"
      using run(5,6) by (simp_all add: sorted_filter distinct_map_filter)
    moreover have "auditKey ?l \<noteq> None" "holds_key ?k ?l" using inv(1) by (simp_all add: holds_key_def)
    moreover have "verifyChainEntry H ?l env" if "env \<in> set envs" for env
      using chained_verifies [OF inv(2) \<open>holds_key ?k ?l\<close> that] by (simp add: verifyChainEntry_def)
    ultimately show ?thesis using Query_one_log [OF _ _ assms(3)] by simp
  qed
  moreover have "content ''audit.log'' (log_dir l) = unlines (map (marshal_envelope J) envs)"
    using inv(3) by (simp add: one_log_def content_def)
  ultimately show ?thesis using run(1,3) by blast
qed

section \<open>A concrete log\<close>

text \<open>Fields in hexadecimal, separated by bars.\<close>

definition hexb :: "bytes \<Rightarrow> bytes" where
  "hexb b = bytes_of (hex_EncodeToString b)"

definition unhexb :: "bytes \<Rightarrow> bytes" where
  "unhexb b = (case hex_DecodeString (string_of b) of Inr x \<Rightarrow> x | Inl _ \<Rightarrow> [])"

definition toy_marshal :: "signedEnvelope \<Rightarrow> bytes" where
  "toy_marshal env = hexb (Payload env) @ 124 # hexb (bytes_of (Signature env)) @
     124 # hexb (bytes_of (PrevSignature env)) @ 124 # bytes_of (dec_nat (unat (ChainSeq env)))"

definition field :: "bytes \<Rightarrow> bytes \<times> bytes" where
  "field b = (takeWhile (\<lambda>x. x \<noteq> 124) b, drop 1 (dropWhile (\<lambda>x. x \<noteq> 124) b))"

definition toy_unmarshal :: "bytes \<Rightarrow> signedEnvelope option" where
  "toy_unmarshal b =
     (let (p, b1) = field b; (s, b2) = field b1; (q, n) = field b2
      in Some \<lparr>Payload = unhexb p, Signature = string_of (unhexb s), PrevSignature = string_of (unhexb q),
           ChainSeq = word_of_nat (undec (string_of n))\<rparr>)"

definition toy_entry :: "bytes \<Rightarrow> LogEntry" where
  "toy_entry b = \<lparr>TraceID = [], Timestamp = 1, ClientIP = [], Actor = string_of b, Resource = [],
     Action = ''Encrypt'', Result = ''success'', EntryKeyID = [], Status = []\<rparr>"

definition toy_json :: audit_json where
  "toy_json = \<lparr>marshal_entry = (\<lambda>e. Some (bytes_of (Actor e))), unmarshal_entry = (\<lambda>b. Some (toy_entry b)),
     marshal_envelope = toy_marshal, unmarshal_envelope = toy_unmarshal\<rparr>"

definition toy_hash :: hash_alg where
  "toy_hash = \<lparr>mac = (\<lambda>k m. replicate 32 (foldr (XOR) m 0)), digest = (\<lambda>m. replicate 32 7)\<rparr>"

lemma hex_chars: "c \<in> set (hex_EncodeToString b) \<Longrightarrow> c \<in> set ''0123456789abcdef''"
proof (induction b)
  case (Cons x b)
  have "unat x div 16 < length ''0123456789abcdef''" "unat x mod 16 < length ''0123456789abcdef''"
    using unat_byte [of x] by auto
  then have "hexdigit (unat x div 16) \<in> set ''0123456789abcdef'' \<and> hexdigit (unat x mod 16) \<in> set ''0123456789abcdef''"
    unfolding hexdigit_def by (intro conjI nth_mem)
  moreover have "c = hexdigit (unat x div 16) \<or> c = hexdigit (unat x mod 16) \<or> c \<in> set (hex_EncodeToString b)"
    using Cons.prems by (auto simp: hex_EncodeToString_def hex_byte_def)
  ultimately show ?case using Cons.IH by metis
qed (simp add: hex_EncodeToString_def)

lemma hexb_clean: "x \<in> set (hexb b) \<Longrightarrow> x \<noteq> 124 \<and> x \<noteq> LF \<and> x \<noteq> CR"
  by (auto simp: hexb_def bytes_of_def dest!: hex_chars)

lemma dec_clean: "x \<in> set (bytes_of (dec_nat n)) \<Longrightarrow> x \<noteq> 124 \<and> x \<noteq> LF \<and> x \<noteq> CR"
proof -
  assume "x \<in> set (bytes_of (dec_nat n))"
  then obtain c where c: "c \<in> set (dec_nat n)" "x = word_of_nat (of_char c)" by (auto simp: bytes_of_def)
  from dec_nat_chars [OF c(1)] have "(of_char c :: nat) < 58" "48 \<le> (of_char c :: nat)" by auto
  moreover from this have "unat x = of_char c"
    using c(2) by (simp add: unsigned_of_nat take_bit_nat_eq_self)
  ultimately show ?thesis by auto
qed

lemma field_hexb: "field (hexb b @ 124 # rest) = (hexb b, rest)"
proof -
  have "takeWhile (\<lambda>x. x \<noteq> 124) (ys @ 124 # rest) = ys \<and> dropWhile (\<lambda>x. x \<noteq> 124) (ys @ 124 # rest) = 124 # rest"
    if "\<forall>x \<in> set ys. x \<noteq> 124" for ys :: bytes
    using that by (induction ys) auto
  then show ?thesis using hexb_clean by (auto simp: field_def)
qed

lemma toy_json_ok: "json_ok toy_json"
  by (auto simp: json_ok_def toy_json_def toy_marshal_def toy_unmarshal_def field_hexb unhexb_def hexb_def Let_def
      simp flip: hexb_def dest!: hexb_clean dec_clean) (simp add: hexb_def unhexb_def)+

lemma toy_hash_len: "hash_len toy_hash"
  by (simp add: hash_len_def toy_hash_def)

definition toy_sort :: "QueryResult list \<Rightarrow> QueryResult list" where
  "toy_sort xs = sort_key (ChainSeq \<circ> Envelope) xs"

lemma toy_sort_ok: "sort_ok toy_sort"
  by (simp add: sort_ok_def toy_sort_def)

lemma length_dec_nat: "n < 10 ^ Suc m \<Longrightarrow> length (dec_nat n) \<le> Suc m"
proof (induction m arbitrary: n)
  case (Suc m)
  have "n div 10 < 10 ^ Suc m" using Suc.prems by (simp add: less_mult_imp_div_less)
  then show ?case using Suc.IH [of "n div 10"] by (simp add: dec_nat.simps [of n])
qed (simp add: dec_nat.simps)

lemma toy_short: "length p \<le> 1000 \<Longrightarrow> short toy_json p"
proof -
  assume p: "length p \<le> 1000"
  have dec: "length (dec_nat (unat (seq :: 64 word))) \<le> 20" for seq
  proof -
    have "unat seq < 18446744073709551616" using unsigned_less [of seq] by simp
    then show ?thesis using length_dec_nat [of "unat seq" 19] by simp
  qed
  have "2 * length p + length (dec_nat (unat (seq :: 64 word))) < 1048317" for seq
  proof -
    have "length (dec_nat (unat seq)) \<le> 20" by (rule dec)
    with p show ?thesis by linarith
  qed
  then show ?thesis
    by (simp add: short_def toy_json_def toy_marshal_def hexb_def bytes_of_def)
qed

definition no_files :: disk where
  "no_files = \<lparr>files = [], faults = (\<lambda>_. None), calls = 0\<rparr>"

definition toy_run :: "(time \<times> LogEntry) list" where
  "toy_run = [(5, toy_entry [65]), (6, toy_entry [66]), (7, toy_entry [67])]"

lemma toy_logger:
  "\<exists>l0 dir' r'. NewDualWriteLogger toy_unicode toy_hash 5 ''audit.log'' None no_files no_files zero_source = (Inr l0, dir', r')"
proof -
  have "NewSecureBufferFromRandom 32 zero_source = (Inr \<lparr>sb_data = replicate 32 0, destroyed = False\<rparr>, zero_source\<lparr>pos := 32\<rparr>)"
    using zero_source_random [of 32 0] by (simp add: NewSecureBufferFromRandom_def zero_source_def)
  then show ?thesis
    by (simp add: NewDualWriteLogger_def NewFileRotator_def openCurrent_def dir_OpenFile_def disk_call_def no_files_def
        loadAnchor_def dir_ReadFile_def content_def)
qed

lemma toy_days: "\<forall>x \<in> set toy_run. yyyymmdd (fst x) = yyyymmdd 5"
  by (simp add: toy_run_def yyyymmdd_def)

lemma toy_payloads: "map (\<lambda>x. marshal_entry toy_json (stamp x)) toy_run = map Some [[65], [66], [67]]"
  by (simp add: toy_run_def toy_json_def stamp_def toy_entry_def isZero_def)


theorem deletion_undetected_witness:
  "\<exists>l0 envs l. record_run toy_json toy_run l0 = (replicate 3 None, l) \<and> map Payload envs = [[65], [66], [67]]
    \<and> content ''audit.log'' (log_dir l) = unlines (map (marshal_envelope toy_json) envs)
    \<and> fst (Query toy_json toy_hash toy_sort everything (l\<lparr>log_dir := (log_dir l)\<lparr>files := AList.update ''audit.log''
          (unlines (map (marshal_envelope toy_json) (filter (\<lambda>e. Payload e \<noteq> [66]) envs))) (files (log_dir l))\<rparr>\<rparr>)) =
        Inr (map (\<lambda>env. \<lparr>Envelope = env, Entry = entry_of toy_json env, Valid = True\<rparr>) (filter (\<lambda>e. Payload e \<noteq> [66]) envs))"
proof -
  obtain l0 dir' r' where new: "NewDualWriteLogger toy_unicode toy_hash 5 ''audit.log'' None no_files no_files zero_source = (Inr l0, dir', r')"
    using toy_logger by blast
  have dir: "files no_files = []" "faults no_files = (\<lambda>_. None)" by (simp_all add: no_files_def)
  have ps: "\<forall>p \<in> set [[65], [66], [67]]. short toy_json p" by (simp add: toy_short)
  have n: "length toy_run = 3" by (simp add: toy_run_def)
  then have len: "length toy_run < 2 ^ 64" by simp
  from deletion_undetected [OF toy_json_ok toy_hash_len toy_sort_ok dir new toy_days toy_payloads ps len, unfolded n]
  show ?thesis
    by (elim exE conjE) (rule exI [of _ l0], intro exI conjI, assumption+, erule spec)
qed

section \<open>Other digests\<close>

text \<open>A logger created for another keyed hash (HMAC-SM3) signs with it, but verification always
  recomputes HMAC-SHA256: an entry is then accepted only where the two functions agree.\<close>

lemma verification_is_sha256:
  assumes "holds_key k l" "fst (sign_payload p l) = Inr e"
  shows "VerifyChainSignature sha256 (Payload e) (PrevSignature e) (Signature e) l =
    Inr (mac sha256 k (lastSignature (chain l) @ p) = mac (newHash (chain l)) k (lastSignature (chain l) @ p))"
  using assms by (auto simp: sign_payload_live envelope_for_def VerifyChainSignature_def holds_key_def WithKey_def)

text \<open>Altering an entry under a recorded signature needs a collision of the keyed hash.\<close>

lemma alteration_needs_collision:
  assumes "chained H k prev seq envs" "env \<in> set envs" "holds_key k l"
    "VerifyChainSignature H payload (PrevSignature env) (Signature env) l = Inr True" "payload \<noteq> Payload env"
  shows "\<exists>m. mac H k (m @ payload) = mac H k (m @ Payload env)"
  using chained_verifies [OF assms(1,3,2)] assms(3,4)
  by (auto simp: VerifyChainSignature_def holds_key_def WithKey_def bindR_eq_Inr)

end
