(* ===== verification/KVStore.thy ===== *)
theory KVStore
  imports Prelude
begin

text \<open>
  \<^verbatim>\<open>internal/storage\<close>: the key-value store interface with its two implementations, the
  in-memory store and the Postgres store, their transactions, prefix scans and the invalidation
  notifications of Postgres. A stored value is raw bytes or the JSON encoding of a document (which
  is never empty); decoding a document of the wrong kind fails. A context is the error its
  \<^verbatim>\<open>ctx.Err()\<close> reports, if any.

  The database is rows under unique keys together with a schedule \<open>faults\<close> of failures, one
  entry per SQL call, so that the theorems hold for every pattern of failing calls. A failed
  statement aborts its transaction, as in PostgreSQL. Row locks serialise the transactions
  of concurrent callers; each transaction is therefore one step.
\<close>

section \<open>Values\<close>

datatype 'd val = Raw bytes | Doc 'd

definition empty_val :: "'d val \<Rightarrow> bool" where
  "empty_val v \<longleftrightarrow> v = Raw []"

lemma empty_val_simps [simp]: "empty_val (Raw b) = (b = [])" "empty_val (Doc d) = False"
  by (simp_all add: empty_val_def)

type_synonym 'd kv = "(string \<times> 'd val) list"

definition sortStrings :: "string list \<Rightarrow> string list" where
  "sortStrings ks = sort ks"

text \<open>One page of the entries with a prefix, in key order: \<^verbatim>\<open>keys[offset:end]\<close>.\<close>

definition page :: "(string \<Rightarrow> bool) \<Rightarrow> 'd kv \<Rightarrow> nat \<Rightarrow> int \<Rightarrow> (string \<times> 'd val) list \<times> nat" where
  "page sel kvs offset limit =
     (let lim = (if limit \<le> 0 then 1000 else nat limit);
          keys = sortStrings (filter sel (map fst kvs));
          tot = length keys
      in if offset \<ge> tot then ([], tot)
         else (map (\<lambda>k. (k, the (map_of kvs k))) (take lim (drop offset keys)), tot))"

section \<open>memory.go\<close>

record 'd MemoryStore =
  data :: "'d kv"

definition NewMemoryStore :: "'d MemoryStore" where
  "NewMemoryStore = \<lparr>data = []\<rparr>"

definition mem_Delete :: "string \<Rightarrow> 'd MemoryStore \<Rightarrow> err option \<times> 'd MemoryStore" where
  "mem_Delete key m =
     (case map_of (data m) key of None \<Rightarrow> (None, m)
      | Some v \<Rightarrow> (None, m\<lparr>data := AList.delete key (data m)\<rparr>))"

definition mem_Put :: "string \<Rightarrow> 'd val \<Rightarrow> 'd MemoryStore \<Rightarrow> err option \<times> 'd MemoryStore" where
  "mem_Put key value m =
     (if key = '''' then (Some (Msg ''storage: empty key''), m)
      else if empty_val value then mem_Delete key m
      else (None, m\<lparr>data := AList.update key value (data m)\<rparr>))"

definition mem_Get :: "string \<Rightarrow> 'd MemoryStore \<Rightarrow> 'd val res \<times> 'd MemoryStore" where
  "mem_Get key m = (case map_of (data m) key of None \<Rightarrow> Inl ErrNotFound | Some v \<Rightarrow> Inr v, m)"

definition mem_ScanPrefix :: "string \<Rightarrow> 'd MemoryStore \<Rightarrow> 'd kv" where
  "mem_ScanPrefix pre m = filter (\<lambda>(k, v). has_prefix k pre) (data m)"

definition mem_ScanPrefixPaged :: "string \<Rightarrow> nat \<Rightarrow> int \<Rightarrow> 'd MemoryStore \<Rightarrow> 'd kv \<times> nat" where
  "mem_ScanPrefixPaged pre offset limit m = page (\<lambda>k. has_prefix k pre) (data m) offset limit"

text \<open>\<^verbatim>\<open>memTx\<close>: the same operations under the lock the transaction holds.\<close>

definition memTx_Delete :: "string \<Rightarrow> 'd MemoryStore \<Rightarrow> err option \<times> 'd MemoryStore" where
  "memTx_Delete key m =
     (case map_of (data m) key of None \<Rightarrow> (None, m)
      | Some v \<Rightarrow> (None, m\<lparr>data := AList.delete key (data m)\<rparr>))"

definition memTx_Put :: "string \<Rightarrow> 'd val \<Rightarrow> 'd MemoryStore \<Rightarrow> err option \<times> 'd MemoryStore" where
  "memTx_Put key value m =
     (if key = '''' then (Some (Msg ''storage: empty key''), m)
      else if empty_val value then memTx_Delete key m
      else (None, m\<lparr>data := AList.update key value (data m)\<rparr>))"

definition memTx_Get :: "string \<Rightarrow> 'd MemoryStore \<Rightarrow> 'd val res \<times> 'd MemoryStore" where
  "memTx_Get key m = (case map_of (data m) key of None \<Rightarrow> Inl ErrNotFound | Some v \<Rightarrow> Inr v, m)"

definition memTx_GetForUpdate :: "string \<Rightarrow> 'd MemoryStore \<Rightarrow> 'd val res \<times> 'd MemoryStore" where
  "memTx_GetForUpdate key m = memTx_Get key m"

text \<open>\<^verbatim>\<open>WithTx\<close> runs the closure on the store itself: nothing is undone when it fails.
  \<open>'w\<close> is what the closure captures.\<close>

definition mem_WithTx ::
  "err option \<Rightarrow> ('d MemoryStore \<Rightarrow> 'w \<Rightarrow> 'a res \<times> 'd MemoryStore \<times> 'w) \<Rightarrow>
   'd MemoryStore \<Rightarrow> 'w \<Rightarrow> 'a res \<times> 'd MemoryStore \<times> 'w" where
  "mem_WithTx ctx fn m w = (case ctx of Some e \<Rightarrow> (Inl e, m, w) | None \<Rightarrow> fn m w)"

section \<open>pg_kvstore.go\<close>

text \<open>\<open>notified\<close> are the payloads delivered to the listeners, in order.\<close>

record 'd PostgresKVStore =
  rows :: "'d kv"
  notified :: "string list"
  healthy :: bool
  faults :: "nat \<Rightarrow> string option"
  tick :: nat
  tx_aborted :: bool

text \<open>One SQL call through the pool, and one inside a transaction.\<close>

definition pool_call :: "'d PostgresKVStore \<Rightarrow> string option \<times> 'd PostgresKVStore" where
  "pool_call p = (faults p (tick p), p\<lparr>tick := tick p + 1\<rparr>)"

definition tx_call :: "'d PostgresKVStore \<Rightarrow> string option \<times> 'd PostgresKVStore" where
  "tx_call p =
     (let p1 = p\<lparr>tick := tick p + 1\<rparr>
      in if tx_aborted p then (Some ''current transaction is aborted'', p1)
         else case faults p (tick p) of
             Some m \<Rightarrow> (Some m, p1\<lparr>tx_aborted := True\<rparr>)
           | None \<Rightarrow> (None, p1))"

definition markUnhealthy :: "'d PostgresKVStore \<Rightarrow> 'd PostgresKVStore" where
  "markUnhealthy p = p\<lparr>healthy := False\<rparr>"

text \<open>One round of the background health check: a ping and the flag it sets.\<close>

definition health_tick :: "'d PostgresKVStore \<Rightarrow> 'd PostgresKVStore" where
  "health_tick p = (case pool_call p of (f, p1) \<Rightarrow> p1\<lparr>healthy := (f = None)\<rparr>)"

definition pg_Delete :: "string \<Rightarrow> 'd PostgresKVStore \<Rightarrow> err option \<times> 'd PostgresKVStore" where
  "pg_Delete key p =
     (case pool_call p of
        (Some m, p1) \<Rightarrow> (Some (Wrap ''postgres: delete'' (Msg m)), p1)
      | (None, p1) \<Rightarrow> (None, p1\<lparr>rows := AList.delete key (rows p1)\<rparr>))"

definition pg_Put :: "string \<Rightarrow> 'd val \<Rightarrow> 'd PostgresKVStore \<Rightarrow> err option \<times> 'd PostgresKVStore" where
  "pg_Put key value p =
     (if key = '''' then (Some (Msg ''storage: empty key''), p)
      else if empty_val value then pg_Delete key p
      else case pool_call p of
          (Some m, p1) \<Rightarrow> (Some (Wrap ''postgres: put'' (Msg m)), markUnhealthy p1)
        | (None, p1) \<Rightarrow> (None, p1\<lparr>rows := AList.update key value (rows p1)\<rparr>))"

definition pg_Get :: "string \<Rightarrow> 'd PostgresKVStore \<Rightarrow> 'd val res \<times> 'd PostgresKVStore" where
  "pg_Get key p =
     (case pool_call p of
        (Some m, p1) \<Rightarrow> (Inl (Wrap ''postgres: get'' (Msg m)), markUnhealthy p1)
      | (None, p1) \<Rightarrow> (case map_of (rows p1) key of None \<Rightarrow> (Inl ErrNotFound, p1) | Some v \<Rightarrow> (Inr v, p1)))"

text \<open>SQL \<^verbatim>\<open>LIKE\<close> with the wildcards \<^verbatim>\<open>%\<close> and \<^verbatim>\<open>_\<close> and the escape
  character \<^verbatim>\<open>\\<close>.\<close>

fun sql_like :: "string \<Rightarrow> string \<Rightarrow> bool" where
  "sql_like [] s = (s = [])"
| "sql_like (p # ps) s =
     (if p = CHR ''%'' then sql_like ps s \<or> (case s of [] \<Rightarrow> False | c # cs \<Rightarrow> sql_like (p # ps) cs)
      else case s of
          [] \<Rightarrow> False
        | c # cs \<Rightarrow>
            if p = CHR ''_'' then sql_like ps cs
            else if p = CHR 0x5C \<and> ps \<noteq> [] then c = hd ps \<and> sql_like (tl ps) cs
            else c = p \<and> sql_like ps cs)"

definition pg_ScanPrefix :: "string \<Rightarrow> 'd PostgresKVStore \<Rightarrow> 'd kv res \<times> 'd PostgresKVStore" where
  "pg_ScanPrefix pre p =
     (case pool_call p of
        (Some m, p1) \<Rightarrow> (Inl (Wrap ''postgres: scan prefix'' (Msg m)), p1)
      | (None, p1) \<Rightarrow> (Inr (filter (\<lambda>(k, v). sql_like (pre @ ''%'') k) (rows p1)), p1))"

definition pg_ScanPrefixPaged ::
  "string \<Rightarrow> nat \<Rightarrow> int \<Rightarrow> 'd PostgresKVStore \<Rightarrow> ('d kv \<times> nat) res \<times> 'd PostgresKVStore" where
  "pg_ScanPrefixPaged pre offset limit p =
     (case pool_call p of
        (Some m, p1) \<Rightarrow> (Inl (Wrap ''postgres: count prefix'' (Msg m)), p1)
      | (None, p1) \<Rightarrow>
          let tot = snd (page (sql_like (pre @ ''%'')) (rows p1) offset limit)
          in if offset \<ge> tot then (Inr ([], tot), p1)
             else case pool_call p1 of
                 (Some m, p2) \<Rightarrow> (Inl (Wrap ''postgres: scan prefix paged'' (Msg m)), p2)
               | (None, p2) \<Rightarrow> (Inr (page (sql_like (pre @ ''%'')) (rows p2) offset limit), p2))"

definition pg_NotifyInvalidation :: "string \<Rightarrow> 'd PostgresKVStore \<Rightarrow> err option \<times> 'd PostgresKVStore" where
  "pg_NotifyInvalidation keyID p =
     (case pool_call p of
        (Some m, p1) \<Rightarrow> (Some (Wrap ''pg_notify'' (Msg m)), p1)
      | (None, p1) \<Rightarrow> (None, p1\<lparr>notified := notified p1 @ [keyID]\<rparr>))"

text \<open>\<^verbatim>\<open>pgTx\<close>\<close>

definition pgTx_Delete :: "string \<Rightarrow> 'd PostgresKVStore \<Rightarrow> err option \<times> 'd PostgresKVStore" where
  "pgTx_Delete key p =
     (case tx_call p of
        (Some m, p1) \<Rightarrow> (Some (Wrap ''postgres: tx delete'' (Msg m)), p1)
      | (None, p1) \<Rightarrow> (None, p1\<lparr>rows := AList.delete key (rows p1)\<rparr>))"

definition pgTx_Put :: "string \<Rightarrow> 'd val \<Rightarrow> 'd PostgresKVStore \<Rightarrow> err option \<times> 'd PostgresKVStore" where
  "pgTx_Put key value p =
     (if key = '''' then (Some (Msg ''storage: empty key''), p)
      else if empty_val value then pgTx_Delete key p
      else case tx_call p of
          (Some m, p1) \<Rightarrow> (Some (Wrap ''postgres: tx put'' (Msg m)), p1)
        | (None, p1) \<Rightarrow> (None, p1\<lparr>rows := AList.update key value (rows p1)\<rparr>))"

definition pgTx_Get :: "string \<Rightarrow> 'd PostgresKVStore \<Rightarrow> 'd val res \<times> 'd PostgresKVStore" where
  "pgTx_Get key p =
     (case tx_call p of
        (Some m, p1) \<Rightarrow> (Inl (Wrap ''postgres: tx get'' (Msg m)), p1)
      | (None, p1) \<Rightarrow> (case map_of (rows p1) key of None \<Rightarrow> (Inl ErrNotFound, p1) | Some v \<Rightarrow> (Inr v, p1)))"

definition pgTx_GetForUpdate :: "string \<Rightarrow> 'd PostgresKVStore \<Rightarrow> 'd val res \<times> 'd PostgresKVStore" where
  "pgTx_GetForUpdate key p =
     (case tx_call p of
        (Some m, p1) \<Rightarrow> (Inl (Wrap ''postgres: get for update'' (Msg m)), p1)
      | (None, p1) \<Rightarrow> (case map_of (rows p1) key of None \<Rightarrow> (Inl ErrNotFound, p1) | Some v \<Rightarrow> (Inr v, p1)))"

definition pgTx_NotifyInvalidationInTx :: "string \<Rightarrow> 'd PostgresKVStore \<Rightarrow> err option \<times> 'd PostgresKVStore" where
  "pgTx_NotifyInvalidationInTx keyID p =
     (case tx_call p of
        (Some m, p1) \<Rightarrow> (Some (Wrap ''postgres: notify in tx'' (Msg m)), p1)
      | (None, p1) \<Rightarrow> (None, p1\<lparr>notified := notified p1 @ [keyID]\<rparr>))"

definition pg_rollback :: "'d PostgresKVStore \<Rightarrow> 'd PostgresKVStore \<Rightarrow> 'd PostgresKVStore" where
  "pg_rollback before p = p\<lparr>rows := rows before, notified := notified before, tx_aborted := False\<rparr>"

definition pg_WithTx ::
  "('d PostgresKVStore \<Rightarrow> 'w \<Rightarrow> 'a res \<times> 'd PostgresKVStore \<times> 'w) \<Rightarrow>
   'd PostgresKVStore \<Rightarrow> 'w \<Rightarrow> 'a res \<times> 'd PostgresKVStore \<times> 'w" where
  "pg_WithTx fn p w =
     (case pool_call p of
        (Some m, p1) \<Rightarrow> (Inl (Wrap ''postgres: begin tx'' (Msg m)), p1, w)
      | (None, p1) \<Rightarrow>
          (case fn (p1\<lparr>tx_aborted := False\<rparr>) w of
             (Inl e, p2, w') \<Rightarrow> (Inl e, pg_rollback p1 p2, w')
           | (Inr x, p2, w') \<Rightarrow>
               (case tx_call p2 of
                  (Some m, p3) \<Rightarrow> (Inl (Wrap ''postgres: commit'' (Msg m)), pg_rollback p1 p3, w')
                | (None, p3) \<Rightarrow> (Inr x, p3, w'))))"

section \<open>The KVStore interface\<close>

datatype 'd KVStore = Mem "'d MemoryStore" | Pg "'d PostgresKVStore"

abbreviation map_state :: "('a \<Rightarrow> 'b) \<Rightarrow> 'r \<times> 'a \<Rightarrow> 'r \<times> 'b" where
  "map_state f x \<equiv> (case x of (r, s) \<Rightarrow> (r, f s))"

fun store_Put :: "string \<Rightarrow> 'd val \<Rightarrow> 'd KVStore \<Rightarrow> err option \<times> 'd KVStore" where
  "store_Put k v (Mem m) = map_state Mem (mem_Put k v m)"
| "store_Put k v (Pg p) = map_state Pg (pg_Put k v p)"

fun store_Get :: "string \<Rightarrow> 'd KVStore \<Rightarrow> 'd val res \<times> 'd KVStore" where
  "store_Get k (Mem m) = map_state Mem (mem_Get k m)"
| "store_Get k (Pg p) = map_state Pg (pg_Get k p)"

fun store_Delete :: "string \<Rightarrow> 'd KVStore \<Rightarrow> err option \<times> 'd KVStore" where
  "store_Delete k (Mem m) = map_state Mem (mem_Delete k m)"
| "store_Delete k (Pg p) = map_state Pg (pg_Delete k p)"

fun store_ScanPrefix :: "string \<Rightarrow> 'd KVStore \<Rightarrow> 'd kv res \<times> 'd KVStore" where
  "store_ScanPrefix pre (Mem m) = (Inr (mem_ScanPrefix pre m), Mem m)"
| "store_ScanPrefix pre (Pg p) = map_state Pg (pg_ScanPrefix pre p)"

fun store_ScanPrefixPaged :: "string \<Rightarrow> nat \<Rightarrow> int \<Rightarrow> 'd KVStore \<Rightarrow> ('d kv \<times> nat) res \<times> 'd KVStore" where
  "store_ScanPrefixPaged pre offset limit (Mem m) = (Inr (mem_ScanPrefixPaged pre offset limit m), Mem m)"
| "store_ScanPrefixPaged pre offset limit (Pg p) = map_state Pg (pg_ScanPrefixPaged pre offset limit p)"

fun tx_Put :: "string \<Rightarrow> 'd val \<Rightarrow> 'd KVStore \<Rightarrow> err option \<times> 'd KVStore" where
  "tx_Put k v (Mem m) = map_state Mem (memTx_Put k v m)"
| "tx_Put k v (Pg p) = map_state Pg (pgTx_Put k v p)"

fun tx_Delete :: "string \<Rightarrow> 'd KVStore \<Rightarrow> err option \<times> 'd KVStore" where
  "tx_Delete k (Mem m) = map_state Mem (memTx_Delete k m)"
| "tx_Delete k (Pg p) = map_state Pg (pgTx_Delete k p)"

text \<open>Both transaction types are \<^verbatim>\<open>RowLocker\<close>s, so the managers always take the
  \<^verbatim>\<open>GetForUpdate\<close> branch.\<close>

fun tx_GetForUpdate :: "string \<Rightarrow> 'd KVStore \<Rightarrow> 'd val res \<times> 'd KVStore" where
  "tx_GetForUpdate k (Mem m) = map_state Mem (memTx_GetForUpdate k m)"
| "tx_GetForUpdate k (Pg p) = map_state Pg (pgTx_GetForUpdate k p)"

text \<open>The type assertion to \<^verbatim>\<open>TxNotifier\<close>: only \<^verbatim>\<open>pgTx\<close> is one.\<close>

fun tx_notify :: "string \<Rightarrow> 'd KVStore \<Rightarrow> 'd KVStore" where
  "tx_notify keyID (Mem m) = Mem m"
| "tx_notify keyID (Pg p) = Pg (snd (pgTx_NotifyInvalidationInTx keyID p))"

fun store_WithTx ::
  "err option \<Rightarrow> ('d KVStore \<Rightarrow> 'w \<Rightarrow> 'a res \<times> 'd KVStore \<times> 'w) \<Rightarrow> 'd KVStore \<Rightarrow> 'w \<Rightarrow> 'a res \<times> 'd KVStore \<times> 'w" where
  "store_WithTx ctx fn (Mem m) w =
     (case mem_WithTx ctx (\<lambda>m w. case fn (Mem m) w of
          (r, Mem m', w') \<Rightarrow> (r, m', w') | (r, Pg _, w') \<Rightarrow> (r, m, w')) m w of
        (r, m', w') \<Rightarrow> (r, Mem m', w'))"
| "store_WithTx ctx fn (Pg p) w =
     (case pg_WithTx (\<lambda>p w. case fn (Pg p) w of
          (r, Pg p', w') \<Rightarrow> (r, p', w') | (r, Mem _, w') \<Rightarrow> (r, p, w')) p w of
        (r, p', w') \<Rightarrow> (r, Pg p', w'))"

section \<open>The contract\<close>

text \<open>
  What every implementation promises, as a refinement of an abstract map: \<open>look\<close> reads the map
  out of the state; a successful write changes exactly the entry it names (an empty value deletes
  it), a failed one changes nothing, and a read returns what the map holds or a failure that is
  not \<^verbatim>\<open>ErrNotFound\<close>.
\<close>

definition entry :: "'d val \<Rightarrow> 'd val option" where
  "entry v = (if empty_val v then None else Some v)"

locale kv_store =
  fixes look :: "'s \<Rightarrow> string \<Rightarrow> 'd val option"
    and put :: "string \<Rightarrow> 'd val \<Rightarrow> 's \<Rightarrow> err option \<times> 's"
    and get :: "string \<Rightarrow> 's \<Rightarrow> 'd val res \<times> 's"
    and delete :: "string \<Rightarrow> 's \<Rightarrow> err option \<times> 's"
  assumes put_ok: "put k v s = (None, s') \<Longrightarrow> k \<noteq> '''' \<and> look s' = (look s)(k := entry v)"
    and put_fail: "put k v s = (Some e, s') \<Longrightarrow> look s' = look s"
    and get_ok: "get k s = (Inr v, s') \<Longrightarrow> look s k = Some v \<and> look s' = look s"
    and get_fail: "get k s = (Inl e, s') \<Longrightarrow> look s' = look s \<and> (errors_is e ErrNotFound \<longrightarrow> look s k = None)"
    and delete_ok: "delete k s = (None, s') \<Longrightarrow> look s' = (look s)(k := None)"
    and delete_fail: "delete k s = (Some e, s') \<Longrightarrow> look s' = look s"
begin

lemma get_put:
  assumes "put k v s = (None, s1)" "get k' s1 = (Inr u, s2)"
  shows "Some u = (if k' = k then entry v else look s k')"
  using put_ok [OF assms(1)] get_ok [OF assms(2)] by (auto split: if_splits)

lemma get_delete:
  assumes "delete k s = (None, s1)" "get k s1 = (r, s2)"
  shows "\<exists>e. r = Inl e"
  using delete_ok [OF assms(1)] get_ok [of k s1 _ s2] assms(2) by (cases r) auto

lemma get_look: "get k s = (r, s') \<Longrightarrow> look s' = look s"
  by (cases r) (use get_ok get_fail in fastforce)+

end

fun pg_look :: "'d PostgresKVStore \<Rightarrow> string \<Rightarrow> 'd val option" where
  "pg_look p k = map_of (rows p) k"

fun mem_look :: "'d MemoryStore \<Rightarrow> string \<Rightarrow> 'd val option" where
  "mem_look m k = map_of (data m) k"

fun look :: "'d KVStore \<Rightarrow> string \<Rightarrow> 'd val option" where
  "look (Mem m) = mem_look m"
| "look (Pg p) = pg_look p"

lemma mem_look_map_of: "mem_look m = map_of (data m)"
  by (rule ext) simp

lemma pg_look_map_of: "pg_look p = map_of (rows p)"
  by (rule ext) simp

lemmas mem_defs = mem_Put_def mem_Get_def mem_Delete_def memTx_Put_def memTx_Get_def memTx_Delete_def
  memTx_GetForUpdate_def mem_look_map_of

lemmas pg_defs = pg_Put_def pg_Get_def pg_Delete_def pgTx_Put_def pgTx_Get_def pgTx_Delete_def
  pgTx_GetForUpdate_def pgTx_NotifyInvalidationInTx_def pool_call_def tx_call_def markUnhealthy_def Let_def
  pg_look_map_of

lemma map_of_None_upd: "map_of al k = None \<Longrightarrow> (map_of al)(k := None) = map_of al"
  by (simp add: fun_upd_idem)

interpretation mem: kv_store mem_look mem_Put mem_Get mem_Delete
  by unfold_locales
    (auto simp: mem_defs entry_def map_of_None_upd split: if_splits option.splits)

interpretation memTx: kv_store mem_look memTx_Put memTx_GetForUpdate memTx_Delete
  by unfold_locales
    (auto simp: mem_defs entry_def map_of_None_upd split: if_splits option.splits)

interpretation pg: kv_store pg_look pg_Put pg_Get pg_Delete
  by unfold_locales
    (auto simp: pg_defs entry_def split: if_splits option.splits)

interpretation pgTx: kv_store pg_look pgTx_Put pgTx_GetForUpdate pgTx_Delete
  by unfold_locales
    (auto simp: pg_defs entry_def split: if_splits option.splits)

interpretation kv: kv_store look store_Put store_Get store_Delete
proof (unfold_locales, goal_cases)
  case (1 k v s s') then show ?case by (cases s) (auto split: prod.splits dest: mem.put_ok pg.put_ok)
next
  case (2 k v s e s') then show ?case by (cases s) (auto split: prod.splits dest: mem.put_fail pg.put_fail)
next
  case (3 k s v s') then show ?case by (cases s) (auto split: prod.splits dest: mem.get_ok pg.get_ok)
next
  case (4 k s e s') then show ?case by (cases s) (auto split: prod.splits dest: mem.get_fail pg.get_fail)
next
  case (5 k s s') then show ?case by (cases s) (auto split: prod.splits dest: mem.delete_ok pg.delete_ok)
next
  case (6 k s e s') then show ?case by (cases s) (auto split: prod.splits dest: mem.delete_fail pg.delete_fail)
qed

interpretation tx: kv_store look tx_Put tx_GetForUpdate tx_Delete
proof (unfold_locales, goal_cases)
  case (1 k v s s') then show ?case by (cases s) (auto split: prod.splits dest: memTx.put_ok pgTx.put_ok)
next
  case (2 k v s e s') then show ?case by (cases s) (auto split: prod.splits dest: memTx.put_fail pgTx.put_fail)
next
  case (3 k s v s') then show ?case by (cases s) (auto split: prod.splits dest: memTx.get_ok pgTx.get_ok)
next
  case (4 k s e s') then show ?case by (cases s) (auto split: prod.splits dest: memTx.get_fail pgTx.get_fail)
next
  case (5 k s s') then show ?case by (cases s) (auto split: prod.splits dest: memTx.delete_ok pgTx.delete_ok)
next
  case (6 k s e s') then show ?case by (cases s) (auto split: prod.splits dest: memTx.delete_fail pgTx.delete_fail)
qed

section \<open>Kinds of store, transactions\<close>

fun is_Pg :: "'d KVStore \<Rightarrow> bool" where
  "is_Pg (Mem _) = False"
| "is_Pg (Pg _) = True"

fun notices :: "'d KVStore \<Rightarrow> string list" where
  "notices (Mem _) = []"
| "notices (Pg p) = notified p"

fun aborted :: "'d KVStore \<Rightarrow> bool" where
  "aborted (Mem _) = False"
| "aborted (Pg p) = tx_aborted p"

lemma tx_Put_aborts: "tx_Put k v s = (Some e, s') \<Longrightarrow> k \<noteq> [] \<Longrightarrow> aborted s'"
  by (cases s) (auto simp: mem_defs pg_defs split: if_splits option.splits)

lemma tx_notify_aborted: "aborted s \<Longrightarrow> aborted (tx_notify k s)"
  by (cases s) (auto simp: pg_defs split: if_splits option.splits)

lemma kind_store [simp]:
  "is_Pg (snd (store_Put k v s)) = is_Pg s" "is_Pg (snd (store_Get k s)) = is_Pg s"
  "is_Pg (snd (store_Delete k s)) = is_Pg s" "is_Pg (snd (tx_Put k v s)) = is_Pg s"
  "is_Pg (snd (tx_GetForUpdate k s)) = is_Pg s" "is_Pg (snd (tx_Delete k s)) = is_Pg s"
  "is_Pg (tx_notify k s) = is_Pg s"
  by (cases s; simp split: prod.split)+

lemma kind_tx:
  "tx_Put k v s = (r, s') \<Longrightarrow> is_Pg s' = is_Pg s"
  "tx_Delete k s = (r, s') \<Longrightarrow> is_Pg s' = is_Pg s"
  "tx_GetForUpdate k s = (g, s') \<Longrightarrow> is_Pg s' = is_Pg s"
  using kind_store by (metis snd_conv)+

lemma look_tx_notify [simp]: "look (tx_notify k s) = look s"
  by (cases s) (auto simp: pg_defs split: option.split)

lemma pgTx_notified:
  "notified (snd (pgTx_Put k v p)) = notified p" "notified (snd (pgTx_Delete k p)) = notified p"
  "notified (snd (pgTx_GetForUpdate k p)) = notified p"
  by (simp_all add: pg_defs split: option.split)

lemma notices_snd:
  "notices (snd (tx_Put k v s)) = notices s" "notices (snd (tx_Delete k s)) = notices s"
  "notices (snd (tx_GetForUpdate k s)) = notices s"
  by (cases s; simp add: split_beta pgTx_notified)+

lemma notices_tx:
  "tx_Put k v s = (r, s') \<Longrightarrow> notices s' = notices s" "tx_Delete k s = (r, s') \<Longrightarrow> notices s' = notices s"
  "tx_GetForUpdate k s = (g, s') \<Longrightarrow> notices s' = notices s"
  using notices_snd by (metis snd_conv)+

lemma notices_tx_notify:
  "is_Pg s \<Longrightarrow> \<not> aborted (tx_notify k s) \<Longrightarrow> notices (tx_notify k s) = notices s @ [k]"
  by (cases s) (auto simp: pg_defs split: option.splits if_splits)

text \<open>A closure that hands back the store it was given, changed or not, is what Go programs
  write: the transaction handle cannot turn into another store.\<close>

definition keeps_kind :: "('d KVStore \<Rightarrow> 'w \<Rightarrow> 'a res \<times> 'd KVStore \<times> 'w) \<Rightarrow> bool" where
  "keeps_kind fn \<longleftrightarrow> (\<forall>s w r s' w'. fn s w = (r, s', w') \<longrightarrow> is_Pg s' = is_Pg s)"

lemma keeps_kindD: "keeps_kind fn \<Longrightarrow> fn s w = (r, s', w') \<Longrightarrow> is_Pg s' = is_Pg s"
  unfolding keeps_kind_def by blast

text \<open>A store whose calls never fail.\<close>

fun reliable :: "'d KVStore \<Rightarrow> bool" where
  "reliable (Mem m) = True"
| "reliable (Pg p) = ((\<forall>n. faults p n = None) \<and> \<not> tx_aborted p)"

lemma WithTx_Inr:
  assumes "keeps_kind fn" "store_WithTx ctx fn s w = (Inr x, s', w')"
  obtains s0 s1 where "look s0 = look s" "is_Pg s0 = is_Pg s" "fn s0 w = (Inr x, s1, w')"
    "look s' = look s1" "is_Pg s' = is_Pg s" "notices s0 = notices s" "notices s' = notices s1"
    "\<not> aborted s1" "reliable s \<Longrightarrow> reliable s0"
proof (cases s)
  case (Mem m)
  obtain r s1 w1 where f: "fn (Mem m) w = (r, s1, w1)" by (cases "fn (Mem m) w")
  obtain m1 where "s1 = Mem m1" using keeps_kindD [OF assms(1) f] by (cases s1) auto
  with f assms(2) Mem that [of s s1] show thesis
    by (auto simp: mem_WithTx_def split: option.splits)
next
  case (Pg p)
  obtain p1 where call: "pool_call p = (None, p1)"
    using assms(2) Pg by (cases "pool_call p") (auto simp: pg_WithTx_def split: option.splits)
  define p0 where "p0 = p1\<lparr>tx_aborted := False\<rparr>"
  obtain r s1 w1 where f: "fn (Pg p0) w = (r, s1, w1)" by (cases "fn (Pg p0) w")
  then obtain p2 where s1: "s1 = Pg p2" using keeps_kindD [OF assms(1) f] by (cases s1) auto
  obtain c p3 where commit: "tx_call p2 = (c, p3)" by (cases "tx_call p2")
  have r: "r = Inr x" "s' = Pg p3" "w' = w1"
    using assms(2) Pg call f s1 commit
    by (auto simp: pg_WithTx_def p0_def [symmetric] split: sum.splits option.splits)
  have "rows p0 = rows p" "notified p0 = notified p" "rows p3 = rows p2" "notified p3 = notified p2"
    using call commit by (auto simp: p0_def pool_call_def tx_call_def Let_def split: if_splits option.splits)
  moreover have "\<not> tx_aborted p2"
    using assms(2) Pg call f s1 commit r(1)
    by (auto simp: pg_WithTx_def p0_def [symmetric] tx_call_def Let_def split: if_splits option.splits)
  moreover have "reliable s \<Longrightarrow> reliable (Pg p0)" using Pg call by (auto simp: p0_def pool_call_def)
  ultimately show thesis using f s1 r Pg that [of "Pg p0" s1] by (auto simp: pg_look_map_of)
qed

text \<open>A failing closure, begin or commit leaves the rows and the notifications of Postgres as
  they were.\<close>

lemma pg_WithTx_Inl:
  assumes "store_WithTx ctx fn s w = (Inl e, s', w')" "is_Pg s"
  shows "look s' = look s \<and> notices s' = notices s \<and> is_Pg s'"
proof -
  obtain p where s: "s = Pg p" using assms(2) by (cases s) auto
  show ?thesis using assms(1)
    by (auto simp: s pg_WithTx_def pool_call_def tx_call_def Let_def pg_rollback_def pg_look_map_of
        split: prod.splits option.splits sum.splits if_splits KVStore.splits)
qed

lemma WithTx_Inl:
  assumes "keeps_kind fn" "store_WithTx ctx fn s w = (Inl e, s', w')"
  shows "look s' = look s \<or> (\<not> is_Pg s \<and> (\<exists>s1. fn s w = (Inl e, s1, w') \<and> look s' = look s1))"
proof (cases s)
  case (Mem m)
  obtain r s1 w1 where f: "fn (Mem m) w = (r, s1, w1)" by (cases "fn (Mem m) w")
  obtain m1 where "s1 = Mem m1" using keeps_kindD [OF assms(1) f] by (cases s1) auto
  with f assms(2) Mem show ?thesis by (auto simp: mem_WithTx_def split: option.splits)
next
  case (Pg p)
  with pg_WithTx_Inl [OF assms(2)] show ?thesis by simp
qed

lemma mem_tx_succeed:
  "\<not> is_Pg s \<Longrightarrow> k \<noteq> [] \<Longrightarrow> fst (tx_Put k v s) = None" "\<not> is_Pg s \<Longrightarrow> fst (tx_Delete k s) = None"
  by (cases s; auto simp: mem_defs split: option.split)+

lemma WithTx_kind: "store_WithTx ctx fn s w = (r, s', w') \<Longrightarrow> is_Pg s' = is_Pg s"
  by (cases s) (auto split: prod.splits)

section \<open>Prefix scans\<close>

definition no_wildcard :: "string \<Rightarrow> bool" where
  "no_wildcard p \<longleftrightarrow> set p \<inter> {CHR ''%'', CHR ''_'', CHR 0x5C} = {}"

lemma sql_like_any: "sql_like ''%'' s"
  by (induction s) auto

lemma sql_like_prefix: "no_wildcard p \<Longrightarrow> sql_like (p @ ''%'') s \<longleftrightarrow> has_prefix s p"
proof (induction p arbitrary: s)
  case Nil
  then show ?case using sql_like_any [of s] by (simp add: has_prefix_def)
next
  case (Cons c p)
  then show ?case by (cases s) (auto simp: no_wildcard_def has_prefix_def)
qed

definition matches :: "string \<Rightarrow> 'd kv \<Rightarrow> string list" where
  "matches pre kvs = sort (filter (\<lambda>k. has_prefix k pre) (map fst kvs))"

lemma page_matches:
  assumes "no_wildcard pre" "0 < limit"
  shows "page (\<lambda>k. has_prefix k pre) kvs offset limit =
    (map (\<lambda>k. (k, the (map_of kvs k))) (take (nat limit) (drop offset (matches pre kvs))), length (matches pre kvs))"
    and "page (sql_like (pre @ ''%'')) kvs offset limit = page (\<lambda>k. has_prefix k pre) kvs offset limit"
proof -
  have eq: "sql_like (pre @ ''%'') = (\<lambda>k. has_prefix k pre)"
    by (rule ext) (rule sql_like_prefix [OF assms(1)])
  show "page (sql_like (pre @ ''%'')) kvs offset limit = page (\<lambda>k. has_prefix k pre) kvs offset limit"
    unfolding eq ..
  show "page (\<lambda>k. has_prefix k pre) kvs offset limit =
    (map (\<lambda>k. (k, the (map_of kvs k))) (take (nat limit) (drop offset (matches pre kvs))), length (matches pre kvs))"
    using assms(2) by (simp add: page_def matches_def sortStrings_def Let_def)
qed

fun kvs_of :: "'d KVStore \<Rightarrow> 'd kv" where
  "kvs_of (Mem m) = data m"
| "kvs_of (Pg p) = rows p"

lemma look_kvs: "look s = map_of (kvs_of s)"
  by (cases s) (simp_all add: mem_look_map_of pg_look_map_of)

lemma ScanPrefixPaged_Inr:
  assumes "store_ScanPrefixPaged pre offset limit s = (Inr (items, tot), s')" "no_wildcard pre" "0 < limit"
  shows "items = map (\<lambda>k. (k, the (look s k))) (take (nat limit) (drop offset (matches pre (kvs_of s))))"
    and "kvs_of s' = kvs_of s" and "is_Pg s' = is_Pg s"
  using assms(1)
  by (cases s; auto simp: mem_ScanPrefixPaged_def pg_ScanPrefixPaged_def page_matches [OF assms(2,3)] Let_def
      pool_call_def look_kvs mem_look_map_of pg_look_map_of split: prod.splits option.splits if_splits)+

text \<open>The keys of a store are unique, which every operation keeps.\<close>

definition wf_store :: "'d KVStore \<Rightarrow> bool" where
  "wf_store s \<longleftrightarrow> distinct (map fst (kvs_of s))"

lemma wf_store_ops:
  assumes "wf_store s"
  shows "wf_store (snd (store_Put k v s))" "wf_store (snd (store_Get k s))" "wf_store (snd (store_Delete k s))"
    "wf_store (snd (tx_Put k v s))" "wf_store (snd (tx_GetForUpdate k s))" "wf_store (snd (tx_Delete k s))"
    "wf_store (tx_notify k s)"
  using assms
  by (cases s; auto simp: wf_store_def mem_defs pg_defs keys_distinct_update keys_distinct_delete
      split: option.split)+

lemma matches_set: "set (matches pre (kvs_of s)) = {k. look s k \<noteq> None \<and> has_prefix k pre}"
  by (auto simp: matches_def look_kvs map_of_eq_None_iff image_iff)

section \<open>Stores without faults\<close>

lemma reliable_ops:
  assumes "reliable s"
  shows "k \<noteq> '''' \<Longrightarrow> fst (store_Put k v s) = None" "reliable (snd (store_Put k v s))"
    "fst (store_Get k s) = (case look s k of None \<Rightarrow> Inl ErrNotFound | Some v \<Rightarrow> Inr v)"
    "reliable (snd (store_Get k s))"
    "k \<noteq> '''' \<Longrightarrow> fst (tx_Put k v s) = None" "reliable (snd (tx_Put k v s))"
    "fst (tx_GetForUpdate k s) = (case look s k of None \<Rightarrow> Inl ErrNotFound | Some v \<Rightarrow> Inr v)"
    "reliable (snd (tx_GetForUpdate k s))"
    "fst (tx_Delete k s) = None" "reliable (snd (tx_Delete k s))" "reliable (tx_notify k s)"
  using assms by (cases s; auto simp: mem_defs pg_defs split: option.split)+

lemma WithTx_reliable:
  assumes "reliable s" "keeps_kind fn"
    and fn: "\<And>s0. reliable s0 \<Longrightarrow> look s0 = look s \<Longrightarrow> is_Pg s0 = is_Pg s \<Longrightarrow>
      \<exists>s1. fn s0 w = (Inr x, s1, w') \<and> reliable s1"
  shows "\<exists>s'. store_WithTx None fn s w = (Inr x, s', w') \<and> reliable s'"
proof (cases s)
  case (Mem m)
  then obtain s1 where f: "fn (Mem m) w = (Inr x, s1, w')" using fn [of s] assms(1) by auto
  moreover obtain m1 where "s1 = Mem m1" using keeps_kindD [OF assms(2) f] by (cases s1) auto
  ultimately show ?thesis using Mem by (simp add: mem_WithTx_def)
next
  case (Pg p)
  define p0 where "p0 = p\<lparr>tick := tick p + 1, tx_aborted := False\<rparr>"
  have rel: "reliable (Pg p0)" and lk: "look (Pg p0) = look s"
    using assms(1) Pg by (simp_all add: p0_def pg_look_map_of)
  then obtain s1 where f: "fn (Pg p0) w = (Inr x, s1, w')" and r1: "reliable s1"
    using fn [of "Pg p0"] Pg by auto
  moreover obtain p1 where "s1 = Pg p1" using keeps_kindD [OF assms(2) f] by (cases s1) auto
  ultimately show ?thesis
    using Pg assms(1) by (simp add: pg_WithTx_def pool_call_def tx_call_def p0_def)
qed

end
