(* ===== verification/Kek.thy ===== *)
theory Kek
  imports Ciphertext
begin

text \<open>
  \<^verbatim>\<open>internal/seal/kek.go\<close>, \<^verbatim>\<open>hsm.go\<close> and the mock backend of
  \<^verbatim>\<open>hsm_unsealer.go\<close>: the key-encryption-key abstraction that wraps and unwraps data keys,
  in software (the master key in memory, one of the cipher suites) or through an HSM session.
  The contract every implementation gives its clients is the locale \<open>dek_wrapping\<close>,
  interpreted for the software KEK, for the mock HSM and for the KEK interface itself.
\<close>

section \<open>The contract\<close>

text \<open>
  \<open>good k\<close> says that the primitives under the wrapping key \<open>k\<close> work; then a wrapped, live
  and non-empty data key is unwrapped unchanged.
\<close>

locale dek_wrapping =
  fixes good :: "'k \<Rightarrow> bool"
    and wrap :: "'k \<Rightarrow> SecureBuffer \<Rightarrow> csprng \<Rightarrow> bytes res \<times> csprng"
    and unwrap :: "'k \<Rightarrow> bytes \<Rightarrow> SecureBuffer res"
  assumes wrap_live: "wrap k dek r = (Inr ct, r') \<Longrightarrow> \<not> destroyed dek"
    and unwrap_wrap: "good k \<Longrightarrow> wrap k dek r = (Inr ct, r') \<Longrightarrow> sb_data dek \<noteq> [] \<Longrightarrow>
      unwrap k ct = Inr \<lparr>sb_data = sb_data dek, destroyed = False\<rparr>"
begin

lemma unwrap_wrap_eq:
  assumes "good k" "wrap k dek r = (Inr ct, r')" "sb_data dek \<noteq> []"
  shows "unwrap k ct = Inr dek"
  using unwrap_wrap [OF assms] wrap_live [OF assms(2)] by (cases dek) simp

text \<open>Two data keys with the same ciphertext under one wrapping key are the same key.\<close>

lemma wrap_inj:
  assumes "good k" "wrap k dek r = (Inr ct, r')" "wrap k dek' s = (Inr ct, s')"
    "sb_data dek \<noteq> []" "sb_data dek' \<noteq> []"
  shows "dek = dek'"
  using unwrap_wrap_eq [OF assms(1,2,4)] unwrap_wrap_eq [OF assms(1,3,5)] by simp

end

section \<open>Backends\<close>

text \<open>The interface \<^verbatim>\<open>CryptoBackend\<close>: an HSM session, as its two methods.\<close>

record CryptoBackend =
  backend_Wrap :: "bytes \<Rightarrow> csprng \<Rightarrow> bytes res \<times> csprng"
  backend_Unwrap :: "bytes \<Rightarrow> bytes res"

text \<open>\<^verbatim>\<open>MockHSMBackend\<close> holds its chip key; \<^verbatim>\<open>Close\<close> zeroes it.\<close>

record MockHSMBackend =
  hsmKey :: bytes

definition NewMockHSMBackend :: "csprng \<Rightarrow> MockHSMBackend res \<times> csprng" where
  "NewMockHSMBackend r =
     (case rand_Read 32 r of
        (None, r') \<Rightarrow> (Inl (Wrap ''seal: mock HSM generate key'' (Msg ''rand: read failed'')), r')
      | (Some key, r') \<Rightarrow> (Inr \<lparr>hsmKey = key\<rparr>, r'))"

text \<open>\<^verbatim>\<open>aes.NewCipher\<close> accepts 16, 24 and 32 byte keys.\<close>

definition aes_key_ok :: "bytes \<Rightarrow> bool" where
  "aes_key_ok k \<longleftrightarrow> length k \<in> {16, 24, 32}"

definition mock_Wrap :: "aead \<Rightarrow> MockHSMBackend \<Rightarrow> bytes \<Rightarrow> csprng \<Rightarrow> bytes res \<times> csprng" where
  "mock_Wrap A m plaintext r =
     (if \<not> aes_key_ok (hsmKey m) then (Inl (Wrap ''seal: mock HSM wrap'' (Msg ''crypto/aes: invalid key size'')), r)
      else case rand_Read 12 r of
          (None, r') \<Rightarrow> (Inl (Wrap ''seal: mock HSM wrap nonce'' (Msg ''rand: read failed'')), r')
        | (Some nonce, r') \<Rightarrow> (Inr (nonce @ gcm_seal A (hsmKey m) nonce plaintext), r'))"

definition mock_Unwrap :: "aead \<Rightarrow> MockHSMBackend \<Rightarrow> bytes \<Rightarrow> bytes res" where
  "mock_Unwrap A m ciphertext =
     (if \<not> aes_key_ok (hsmKey m) then Inl (Wrap ''seal: mock HSM unwrap'' (Msg ''crypto/aes: invalid key size''))
      else if length ciphertext < 12 then Inl (Msg ''seal: mock HSM unwrap: ciphertext too short'')
      else case gcm_open A (hsmKey m) (take 12 ciphertext) (drop 12 ciphertext) of
          None \<Rightarrow> Inl (Wrap ''seal: mock HSM unwrap'' (Msg ''cipher: message authentication failed''))
        | Some plaintext \<Rightarrow> Inr plaintext)"

definition mock_Close :: "MockHSMBackend \<Rightarrow> MockHSMBackend" where
  "mock_Close m = m\<lparr>hsmKey := replicate (length (hsmKey m)) 0\<rparr>"

definition mock_backend :: "aead \<Rightarrow> MockHSMBackend \<Rightarrow> CryptoBackend" where
  "mock_backend A m = \<lparr>backend_Wrap = mock_Wrap A m, backend_Unwrap = mock_Unwrap A m\<rparr>"

text \<open>\<^verbatim>\<open>BuildHSMBackend\<close> of the build with tag \<^verbatim>\<open>hsm\<close> and without
  \<^verbatim>\<open>pkcs11\<close>; its argument is the field \<^verbatim>\<open>Backend\<close> of the configuration.\<close>

definition BuildHSMBackend :: "string \<Rightarrow> csprng \<Rightarrow> MockHSMBackend res \<times> csprng" where
  "BuildHSMBackend Backend r =
     (if Backend = ''mock'' \<or> Backend = '''' then NewMockHSMBackend r
      else (Inl (Msg ''seal: unsupported hsm backend''), r))"

section \<open>KEK\<close>

datatype KEKType = KEKTypeSoftware | KEKTypeHSM

datatype KEK = softwareKEK SecureBuffer Cipher | hsmKEK CryptoBackend

definition NewSoftwareKEK :: "SecureBuffer \<Rightarrow> KEK" where
  "NewSoftwareKEK cmk = softwareKEK cmk StandardCipher"

definition NewSoftwareKEKWithSuite :: "SecureBuffer \<Rightarrow> Cipher \<Rightarrow> KEK" where
  "NewSoftwareKEKWithSuite cmk suite = softwareKEK cmk suite"

fun kek_Type :: "KEK \<Rightarrow> KEKType" where
  "kek_Type (softwareKEK _ _) = KEKTypeSoftware"
| "kek_Type (hsmKEK _) = KEKTypeHSM"

text \<open>\<^verbatim>\<open>KEKWithKeySize\<close> is implemented by the software KEK only.\<close>

fun kek_KeySize :: "KEK \<Rightarrow> int option" where
  "kek_KeySize (softwareKEK _ c) = Some (KeySize c)"
| "kek_KeySize (hsmKEK _) = None"

definition software_WrapDEK ::
  "prims \<Rightarrow> SecureBuffer \<Rightarrow> Cipher \<Rightarrow> SecureBuffer \<Rightarrow> csprng \<Rightarrow> bytes res \<times> csprng" where
  "software_WrapDEK P cmk c dek r =
     (if destroyed dek then (Inl (Panic ''FATAL: Use after free in SecureBuffer''), r)
      else cipher_Encrypt P c cmk (sb_data dek) r)"

definition hsm_WrapDEK :: "CryptoBackend \<Rightarrow> SecureBuffer \<Rightarrow> csprng \<Rightarrow> bytes res \<times> csprng" where
  "hsm_WrapDEK backend dek r =
     (if destroyed dek then (Inl (Panic ''FATAL: Use after free in SecureBuffer''), r)
      else backend_Wrap backend (sb_data dek) r)"

definition hsm_UnwrapDEK :: "CryptoBackend \<Rightarrow> bytes \<Rightarrow> SecureBuffer res" where
  "hsm_UnwrapDEK backend ciphertext =
     (case backend_Unwrap backend ciphertext of
        Inl e \<Rightarrow> Inl (Wrap ''seal: hsm kek unwrap'' e)
      | Inr pt \<Rightarrow> Inr (fst (NewSecureBuffer pt)))"

fun WrapDEK :: "prims \<Rightarrow> KEK \<Rightarrow> SecureBuffer \<Rightarrow> csprng \<Rightarrow> bytes res \<times> csprng" where
  "WrapDEK P (softwareKEK cmk c) dek r = software_WrapDEK P cmk c dek r"
| "WrapDEK P (hsmKEK backend) dek r = hsm_WrapDEK backend dek r"

fun UnwrapDEK :: "prims \<Rightarrow> KEK \<Rightarrow> bytes \<Rightarrow> SecureBuffer res" where
  "UnwrapDEK P (softwareKEK cmk c) ciphertext = cipher_Decrypt P c cmk ciphertext"
| "UnwrapDEK P (hsmKEK backend) ciphertext = hsm_UnwrapDEK backend ciphertext"

section \<open>The implementations meet the contract\<close>

definition backend_ok :: "CryptoBackend \<Rightarrow> bool" where
  "backend_ok b \<longleftrightarrow> (\<forall>p r ct r'. backend_Wrap b p r = (Inr ct, r') \<longrightarrow> backend_Unwrap b ct = Inr p)"

fun kek_ok :: "prims \<Rightarrow> KEK \<Rightarrow> bool" where
  "kek_ok P (softwareKEK _ _) = prims_ok P"
| "kek_ok P (hsmKEK b) = backend_ok b"

lemma mock_backend_ok:
  assumes "aead_ok (length (hsmKey m)) A"
  shows "backend_ok (mock_backend A m)"
  unfolding backend_ok_def
proof (intro allI impI)
  fix p r ct r' assume w: "backend_Wrap (mock_backend A m) p r = (Inr ct, r')"
  then obtain nonce where k: "aes_key_ok (hsmKey m)" and rd: "rand_Read 12 r = (Some nonce, r')"
    and ct: "ct = nonce @ gcm_seal A (hsmKey m) nonce p"
    by (auto simp: mock_backend_def mock_Wrap_def split: if_splits prod.splits option.splits)
  have "length nonce = 12"
    using rd by (auto simp: rand_Read_def those_Some dest: arg_cong [where f = length])
  with k ct assms show "backend_Unwrap (mock_backend A m) ct = Inr p"
    by (simp add: mock_backend_def mock_Unwrap_def aead_okD)
qed

interpretation sw: dek_wrapping "\<lambda>(P, cmk, c). prims_ok P"
  "\<lambda>(P, cmk, c). software_WrapDEK P cmk c" "\<lambda>(P, cmk, c). cipher_Decrypt P c cmk"
proof
  fix k :: "prims \<times> SecureBuffer \<times> Cipher" and dek r ct r'
  obtain P cmk c where k: "k = (P, cmk, c)" by (cases k)
  assume "(case k of (P, cmk, c) \<Rightarrow> software_WrapDEK P cmk c) dek r = (Inr ct, r')"
  then have w: "software_WrapDEK P cmk c dek r = (Inr ct, r')" by (simp add: k)
  then show "\<not> destroyed dek" by (auto simp: software_WrapDEK_def)
  assume "case k of (P, cmk, c) \<Rightarrow> prims_ok P" and ne: "sb_data dek \<noteq> []"
  then have P: "prims_ok P" by (simp add: k)
  have "cipher_Encrypt P c cmk (sb_data dek) r = (Inr ct, r')"
    using w by (simp add: software_WrapDEK_def split: if_splits)
  with P ne show "(case k of (P, cmk, c) \<Rightarrow> cipher_Decrypt P c cmk) ct
      = Inr \<lparr>sb_data = sb_data dek, destroyed = False\<rparr>"
    by (cases c) (simp_all add: k prims_ok_def DecryptGCM_EncryptGCM GMSM_roundtrip)
qed

interpretation hsm: dek_wrapping backend_ok hsm_WrapDEK hsm_UnwrapDEK
proof
  fix k dek r ct r' assume w: "hsm_WrapDEK k dek r = (Inr ct, r')"
  then show "\<not> destroyed dek" by (auto simp: hsm_WrapDEK_def)
  assume "backend_ok k"
  with w have "backend_Unwrap k ct = Inr (sb_data dek)"
    by (auto simp: hsm_WrapDEK_def backend_ok_def split: if_splits)
  then show "hsm_UnwrapDEK k ct = Inr \<lparr>sb_data = sb_data dek, destroyed = False\<rparr>"
    by (simp add: hsm_UnwrapDEK_def NewSecureBuffer_def)
qed

interpretation kw: dek_wrapping "\<lambda>(P, k). kek_ok P k" "\<lambda>(P, k). WrapDEK P k" "\<lambda>(P, k). UnwrapDEK P k"
proof
  fix k :: "prims \<times> KEK" and dek r ct r'
  obtain P q where k: "k = (P, q)" by (cases k)
  assume "(case k of (P, k) \<Rightarrow> WrapDEK P k) dek r = (Inr ct, r')"
  then have w: "WrapDEK P q dek r = (Inr ct, r')" by (simp add: k)
  then show "\<not> destroyed dek"
    by (cases q) (auto simp: software_WrapDEK_def hsm_WrapDEK_def split: if_splits)
  assume "case k of (P, k) \<Rightarrow> kek_ok P k" and ne: "sb_data dek \<noteq> []"
  then have P: "kek_ok P q" by (simp add: k)
  show "(case k of (P, k) \<Rightarrow> UnwrapDEK P k) ct = Inr \<lparr>sb_data = sb_data dek, destroyed = False\<rparr>"
    using w P ne sw.unwrap_wrap [of "(P, _, _)"] hsm.unwrap_wrap by (cases q) (auto simp: k)
qed

section \<open>Properties\<close>

text \<open>
  Whatever the KEK is, software with either cipher suite or an HSM session, a data key
  it wrapped is unwrapped to the same key, and two data keys never share a ciphertext.
\<close>

theorem WrapDEK_roundtrip:
  assumes "kek_ok P k" "WrapDEK P k dek r = (Inr ct, r')" "sb_data dek \<noteq> []"
  shows "UnwrapDEK P k ct = Inr dek
    \<and> (\<forall>dek' s s'. WrapDEK P k dek' s = (Inr ct, s') \<longrightarrow> sb_data dek' \<noteq> [] \<longrightarrow> dek' = dek)"
  using kw.unwrap_wrap_eq [of "(P, k)"] kw.wrap_inj [of "(P, k)"] assms by auto

theorem WrapDEK_roundtrip_witness:
  "\<exists>ct r'. kek_ok toy_prims (NewSoftwareKEK toy_key)
     \<and> WrapDEK toy_prims (NewSoftwareKEK toy_key) toy_key zero_source = (Inr ct, r')
     \<and> UnwrapDEK toy_prims (NewSoftwareKEK toy_key) ct = Inr toy_key"
proof -
  have ok: "kek_ok toy_prims (NewSoftwareKEK toy_key)"
    by (simp add: NewSoftwareKEK_def toy_prims_ok)
  have live: "\<not> destroyed toy_key" "sb_data toy_key \<noteq> []" by (simp_all add: toy_key_def)
  have "\<exists>ct r'. WrapDEK toy_prims (NewSoftwareKEK toy_key) toy_key zero_source = (Inr ct, r')"
    using toy_EncryptGCM [of "sb_data toy_key" 0] live
    by (simp add: NewSoftwareKEK_def software_WrapDEK_def toy_prims_def zero_source_pos0)
  then show ?thesis using WrapDEK_roundtrip [OF ok] ok live(2) by blast
qed

lemma mock_roundtrip:
  assumes "aead_ok (length (hsmKey m)) A" "WrapDEK P (hsmKEK (mock_backend A m)) dek r = (Inr ct, r')"
    "sb_data dek \<noteq> []"
  shows "UnwrapDEK P (hsmKEK (mock_backend A m)) ct = Inr dek"
  using hsm.unwrap_wrap_eq [OF mock_backend_ok [OF assms(1)]] assms by simp

end
