(* ===== verification/Lifecycle.thy ===== *)
theory Lifecycle
  imports KVStore Kek
begin

text \<open>
  \<^verbatim>\<open>internal/lifecycle\<close>: the data-key manager. Keys are stored as versioned metadata
  documents with the wrapped key material; the manager creates, rotates, soft-deletes, restores
  and shreds versions, finds the active version, keeps a positive and a negative cache, notifies
  the cluster of changes and reaps expired soft-deletes. Every operation takes the time at which
  it runs; what a transaction's closure captures (the cache and the random source) is the
  closure's world, which a rollback does not undo. JSON documents are values of
  \<open>lc_doc\<close>; \<^verbatim>\<open>json.Marshal\<close> of these types never fails.
\<close>

section \<open>Documents\<close>

datatype KeyState = StateActive | StateDeactivated | StateSoftDeleted | StateDestroyed | OtherState string

record KeyMetadata =
  KeyID :: string
  Version :: int
  KState :: KeyState
  KeyType :: string
  Algorithm :: string
  KeyUsage :: "string list"
  EncryptedMaterial :: bytes
  KEKTypeName :: string
  PublicKey :: bytes
  CreatedAt :: time
  DeletedAt :: time
  RotationPeriodDays :: int
  NextRotationAt :: time

datatype lc_doc = DMeta KeyMetadata | DInt int

fun unmarshal_meta :: "lc_doc val \<Rightarrow> KeyMetadata res" where
  "unmarshal_meta (Doc (DMeta m)) = Inr m"
| "unmarshal_meta _ = Inl (Msg ''json: cannot unmarshal'')"

fun unmarshal_int :: "lc_doc val \<Rightarrow> int res" where
  "unmarshal_int (Doc (DInt i)) = Inr i"
| "unmarshal_int _ = Inl (Msg ''json: cannot unmarshal'')"

definition DefaultSoftDeleteTTL :: duration where
  "DefaultSoftDeleteTTL = 90 * 24 * hour"

definition metadataKey :: "string \<Rightarrow> int \<Rightarrow> string" where
  "metadataKey keyID version = ''key:'' @ keyID @ '':v:'' @ dec_int version"

definition latestVersionMetadataKey :: "string \<Rightarrow> string" where
  "latestVersionMetadataKey keyID = ''meta:latest:'' @ keyID"

section \<open>cache.go\<close>

record dekCache =
  cdata :: "(string \<times> KeyMetadata) list"
  negative :: "(string \<times> time) list"
  negativeTTL :: duration

definition newDekCache :: dekCache where
  "newDekCache = \<lparr>cdata = [], negative = [], negativeTTL = 5 * second\<rparr>"

definition cache_get :: "string \<Rightarrow> dekCache \<Rightarrow> KeyMetadata option" where
  "cache_get key c = map_of (cdata c) key"

definition cache_put :: "string \<Rightarrow> KeyMetadata \<Rightarrow> dekCache \<Rightarrow> dekCache" where
  "cache_put key meta c = c\<lparr>cdata := AList.update key meta (cdata c), negative := AList.delete key (negative c)\<rparr>"

definition cache_putNegative :: "time \<Rightarrow> string \<Rightarrow> dekCache \<Rightarrow> dekCache" where
  "cache_putNegative now key c = c\<lparr>negative := AList.update key (now + negativeTTL c) (negative c)\<rparr>"

definition cache_isNegative :: "time \<Rightarrow> string \<Rightarrow> dekCache \<Rightarrow> bool" where
  "cache_isNegative now key c =
     (case map_of (negative c) key of None \<Rightarrow> False | Some expiry \<Rightarrow> \<not> now > expiry)"

definition cache_invalidate :: "string \<Rightarrow> dekCache \<Rightarrow> dekCache" where
  "cache_invalidate keyID c =
     (let pre = ''key:'' @ keyID @ '':v:''
      in c\<lparr>cdata := filter (\<lambda>(k, _). \<not> has_prefix k pre) (cdata c),
           negative := AList.delete (latestVersionMetadataKey keyID)
             (filter (\<lambda>(k, _). \<not> has_prefix k pre) (negative c))\<rparr>)"

definition cache_clear :: "dekCache \<Rightarrow> dekCache" where
  "cache_clear c = c\<lparr>cdata := [], negative := []\<rparr>"

section \<open>manager.go: state and helpers\<close>

text \<open>\<^verbatim>\<open>notifier\<close> is the Postgres store itself when it is set.\<close>

record Manager =
  store :: "lc_doc KVStore"
  cache :: dekCache
  notifier :: bool
  maxGlobalKeys :: int

definition NewManager :: "lc_doc KVStore \<Rightarrow> Manager" where
  "NewManager s = \<lparr>store = s, cache = newDekCache, notifier = False, maxGlobalKeys = 0\<rparr>"

definition SetMaxGlobalKeys :: "int \<Rightarrow> Manager \<Rightarrow> Manager" where
  "SetMaxGlobalKeys n m = m\<lparr>maxGlobalKeys := n\<rparr>"

definition SetNotifier :: "bool \<Rightarrow> Manager \<Rightarrow> Manager" where
  "SetNotifier b m = m\<lparr>notifier := b\<rparr>"

definition InvalidateCache :: "string \<Rightarrow> Manager \<Rightarrow> Manager" where
  "InvalidateCache keyID m = m\<lparr>cache := cache_invalidate keyID (cache m)\<rparr>"

definition ClearCache :: "Manager \<Rightarrow> Manager" where
  "ClearCache m = m\<lparr>cache := cache_clear (cache m)\<rparr>"

definition algorithmFromKEK :: "KEK \<Rightarrow> string" where
  "algorithmFromKEK kek = (if kek_KeySize kek = Some 16 then ''sm4-gcm'' else ''aes-256-gcm'')"

definition dekSizeFromKEK :: "KEK \<Rightarrow> int" where
  "dekSizeFromKEK kek = (case kek_KeySize kek of Some n \<Rightarrow> n | None \<Rightarrow> 32)"

fun KEKType_string :: "KEKType \<Rightarrow> string" where
  "KEKType_string KEKTypeSoftware = ''software''"
| "KEKType_string KEKTypeHSM = ''hsm''"

text \<open>\<^verbatim>\<open>now.Add(time.Duration(days) * 24 * time.Hour)\<close>, a product of 64-bit integers.\<close>

definition rotation_due :: "time \<Rightarrow> int \<Rightarrow> time" where
  "rotation_due now days = (if days > 0 then now + wrap64 (wrap64 (days * 24) * hour) else 0)"

definition saveMetadata :: "KeyMetadata \<Rightarrow> Manager \<Rightarrow> err option \<times> Manager" where
  "saveMetadata meta m =
     (case store_Put (metadataKey (KeyID meta) (Version meta)) (Doc (DMeta meta)) (store m) of
        (Some e, s) \<Rightarrow> (Some (Wrap ''lifecycle: put metadata'' e), m\<lparr>store := s\<rparr>)
      | (None, s) \<Rightarrow> (None, m\<lparr>store := s\<rparr>))"

definition loadMetadata :: "time \<Rightarrow> string \<Rightarrow> int \<Rightarrow> Manager \<Rightarrow> KeyMetadata res \<times> Manager" where
  "loadMetadata now keyID version m =
     (let key = metadataKey keyID version
      in case cache_get key (cache m) of
           Some meta \<Rightarrow> (Inr meta, m)
         | None \<Rightarrow>
             if cache_isNegative now key (cache m) then (Inl ErrNotFound, m)
             else case store_Get key (store m) of
                 (Inl e, s) \<Rightarrow>
                   (Inl e, m\<lparr>store := s, cache := (if errors_is e ErrNotFound
                      then cache_putNegative now key (cache m) else cache m)\<rparr>)
               | (Inr d, s) \<Rightarrow>
                   (case unmarshal_meta d of
                      Inl e \<Rightarrow> (Inl (Wrap ''lifecycle: unmarshal metadata'' e), m\<lparr>store := s\<rparr>)
                    | Inr meta \<Rightarrow> (Inr meta, m\<lparr>store := s, cache := cache_put key meta (cache m)\<rparr>)))"

text \<open>
  The open-ended loop \<^verbatim>\<open>for v := 1; ; v++\<close> over a read operation. It ends at the first
  missing version or failure, and a store of \<open>n\<close> entries has at most \<open>n\<close> versions, so
  \<open>n + 1\<close> rounds are enough; \<open>scan_versions_enough\<close> below shows that the last case is
  never taken.
\<close>

fun scan_versions ::
  "nat \<Rightarrow> (string \<Rightarrow> 's \<Rightarrow> 'v res \<times> 's) \<Rightarrow> string \<Rightarrow> int \<Rightarrow> 's \<Rightarrow> int res \<times> 's" where
  "scan_versions 0 get keyID v s = (Inl (Panic ''unreachable''), s)"
| "scan_versions (Suc n) get keyID v s =
     (case get (metadataKey keyID v) s of
        (Inr _, s1) \<Rightarrow> scan_versions n get keyID (v + 1) s1
      | (Inl e, s1) \<Rightarrow>
          if errors_is e ErrNotFound then (if v = 1 then Inl ErrNotFound else Inr (v - 1), s1)
          else (Inl e, s1))"

definition findLatestVersionScan :: "string \<Rightarrow> lc_doc KVStore \<Rightarrow> int res \<times> lc_doc KVStore" where
  "findLatestVersionScan keyID s = scan_versions (length (kvs_of s) + 1) store_Get keyID 1 s"

text \<open>The index entry, when it decodes to a positive number.\<close>

definition latest_index :: "lc_doc val res \<Rightarrow> int option" where
  "latest_index r = (case r of Inl e \<Rightarrow> None
     | Inr d \<Rightarrow> if empty_val d then None
         else (case unmarshal_int d of Inl e \<Rightarrow> None | Inr v \<Rightarrow> if v > 0 then Some v else None))"

definition getLatestVersion :: "string \<Rightarrow> lc_doc KVStore \<Rightarrow> int res \<times> lc_doc KVStore" where
  "getLatestVersion keyID s =
     (case store_Get (latestVersionMetadataKey keyID) s of
        (r, s1) \<Rightarrow> (case latest_index r of Some v \<Rightarrow> (Inr v, s1) | None \<Rightarrow> findLatestVersionScan keyID s1))"

definition findLatestVersion :: "string \<Rightarrow> lc_doc KVStore \<Rightarrow> int res \<times> lc_doc KVStore" where
  "findLatestVersion keyID s = getLatestVersion keyID s"

definition setLatestVersion :: "string \<Rightarrow> int \<Rightarrow> Manager \<Rightarrow> Manager" where
  "setLatestVersion keyID version m =
     m\<lparr>store := snd (store_Put (latestVersionMetadataKey keyID) (Doc (DInt version)) (store m))\<rparr>"

definition findLatestVersionInTx :: "string \<Rightarrow> lc_doc KVStore \<Rightarrow> int res \<times> lc_doc KVStore" where
  "findLatestVersionInTx keyID s =
     (case tx_GetForUpdate (latestVersionMetadataKey keyID) s of
        (r, s1) \<Rightarrow> (case latest_index r of Some v \<Rightarrow> (Inr v, s1)
          | None \<Rightarrow> scan_versions (length (kvs_of s1) + 1) tx_GetForUpdate keyID 1 s1))"

text \<open>\<^verbatim>\<open>m.store.(TxNotifier)\<close> fails for both stores: only the transaction type implements
  that interface.\<close>

definition notifyClusterIfNoTxNotifier :: "string \<Rightarrow> Manager \<Rightarrow> Manager" where
  "notifyClusterIfNoTxNotifier keyID m =
     (if notifier m then
        (case store m of Pg p \<Rightarrow> m\<lparr>store := Pg (snd (pg_NotifyInvalidation keyID p))\<rparr> | Mem _ \<Rightarrow> m)
      else m)"

section \<open>manager.go: operations\<close>

text \<open>Reading and decoding a version inside a transaction; the two messages are the caller's.\<close>

definition tx_read :: "string \<Rightarrow> string \<Rightarrow> string \<Rightarrow> lc_doc KVStore \<Rightarrow> KeyMetadata res \<times> lc_doc KVStore" where
  "tx_read lock_msg json_msg key s =
     (case tx_GetForUpdate key s of
        (Inl e, s1) \<Rightarrow> (Inl (Wrap lock_msg e), s1)
      | (Inr d, s1) \<Rightarrow> (wrapR json_msg (unmarshal_meta d), s1))"

text \<open>The paged loop of \<^verbatim>\<open>countKeys\<close> and \<^verbatim>\<open>ListKeyIDs\<close>: each round consumes a page of at
  least one entry, so a bound of one round per entry, and one more, is enough.\<close>

fun collect_ids :: "string list \<Rightarrow> lc_doc kv \<Rightarrow> string list" where
  "collect_ids seen [] = seen"
| "collect_ids seen ((_, d) # items) =
     (case unmarshal_meta d of
        Inl _ \<Rightarrow> collect_ids seen items
      | Inr meta \<Rightarrow> collect_ids (if KeyID meta \<in> set seen then seen else seen @ [KeyID meta]) items)"

fun list_loop :: "nat \<Rightarrow> nat \<Rightarrow> string list \<Rightarrow> lc_doc KVStore \<Rightarrow> string list res \<times> lc_doc KVStore" where
  "list_loop 0 offset seen s = (Inl (Panic ''unreachable''), s)"
| "list_loop (Suc n) offset seen s =
     (case store_ScanPrefixPaged ''key:'' offset 1000 s of
        (Inl e, s1) \<Rightarrow> (Inl e, s1)
      | (Inr (items, _), s1) \<Rightarrow>
          if items = [] then (Inr seen, s1)
          else let seen1 = collect_ids seen items
               in if length items < 1000 then (Inr seen1, s1)
                  else list_loop n (offset + length items) seen1 s1)"

definition ListKeyIDs :: "Manager \<Rightarrow> string list res \<times> Manager" where
  "ListKeyIDs m = (case list_loop (length (kvs_of (store m)) + 1) 0 [] (store m) of
     (r, s) \<Rightarrow> (r, m\<lparr>store := s\<rparr>))"

definition countKeys :: "Manager \<Rightarrow> nat res \<times> Manager" where
  "countKeys m = (case list_loop (length (kvs_of (store m)) + 1) 0 [] (store m) of
     (Inl e, s) \<Rightarrow> (Inl e, m\<lparr>store := s\<rparr>)
   | (Inr seen, s) \<Rightarrow> (Inr (length seen), m\<lparr>store := s\<rparr>))"

definition quota_check :: "Manager \<Rightarrow> err option \<times> Manager" where
  "quota_check m =
     (if maxGlobalKeys m > 0 then
        (case countKeys m of
           (Inl e, m1) \<Rightarrow> (Some (Wrap ''lifecycle: quota check'' e), m1)
         | (Inr count, m1) \<Rightarrow> if int count \<ge> maxGlobalKeys m then (Some ErrQuotaExceeded, m1) else (None, m1))
      else (None, m))"

text \<open>The metadata literal of \<^verbatim>\<open>CreateKey\<close>.\<close>

definition create_meta :: "string \<Rightarrow> bytes \<Rightarrow> KEK \<Rightarrow> time \<Rightarrow> int \<Rightarrow> KeyMetadata" where
  "create_meta keyID material k now days =
     \<lparr>KeyID = keyID, Version = 1, KState = StateActive, KeyType = [],
      Algorithm = algorithmFromKEK k, KeyUsage = [''encrypt'', ''decrypt''],
      EncryptedMaterial = material, KEKTypeName = KEKType_string (kek_Type k),
      PublicKey = [], CreatedAt = now, DeletedAt = 0, RotationPeriodDays = days,
      NextRotationAt = rotation_due now days\<rparr>"

definition CreateKey ::
  "prims \<Rightarrow> time \<Rightarrow> string \<Rightarrow> KEK option \<Rightarrow> int \<Rightarrow> Manager \<Rightarrow> csprng \<Rightarrow>
   (KeyMetadata \<times> SecureBuffer) res \<times> Manager \<times> csprng" where
  "CreateKey P now keyID kek rotationPeriodDays m r =
     (if keyID = '''' then (Inl (Msg ''lifecycle: empty key id''), m, r)
      else case kek of
          None \<Rightarrow> (Inl (Msg ''lifecycle: kek is nil''), m, r)
        | Some k \<Rightarrow>
            (case quota_check m of
               (Some e, m1) \<Rightarrow> (Inl e, m1, r)
             | (None, m1) \<Rightarrow>
                 (case NewSecureBufferFromRandom (dekSizeFromKEK k) r of
                    (Inl e, r1) \<Rightarrow> (Inl (Wrap ''lifecycle: generate data key'' e), m1, r1)
                  | (Inr plaintextDEK, r1) \<Rightarrow>
                      (case WrapDEK P k plaintextDEK r1 of
                         (Inl e, r2) \<Rightarrow> (Inl (Wrap ''lifecycle: wrap DEK'' e), m1, r2)
                       | (Inr encryptedDEK, r2) \<Rightarrow>
                           let meta = create_meta keyID encryptedDEK k now rotationPeriodDays
                           in case saveMetadata meta m1 of
                                (Some e, m2) \<Rightarrow> (Inl (Wrap ''lifecycle: save metadata'' e), m2, r2)
                              | (None, m2) \<Rightarrow> (Inr (meta, plaintextDEK), setLatestVersion keyID 1 m2, r2)))))"

text \<open>Asymmetric key generation and serialisation (RSA-4096, ECDSA P-256, and SM2 in the gmsm
  build) is a parameter.\<close>

record 'k asym =
  gen_key :: "string \<Rightarrow> csprng \<Rightarrow> 'k res \<times> csprng"
  to_DER :: "'k \<Rightarrow> bytes res"
  to_PEM :: "'k \<Rightarrow> bytes res"
  gen_SM2 :: "csprng \<Rightarrow> (bytes \<times> bytes) res \<times> csprng"

definition asym_meta :: "string \<Rightarrow> string \<Rightarrow> bytes \<Rightarrow> KEK \<Rightarrow> bytes \<Rightarrow> time \<Rightarrow> KeyMetadata" where
  "asym_meta keyID algoType material k pub now =
     \<lparr>KeyID = keyID, Version = 1, KState = StateActive, KeyType = algoType, Algorithm = '''', KeyUsage = [],
      EncryptedMaterial = material, KEKTypeName = KEKType_string (kek_Type k), PublicKey = pub,
      CreatedAt = now, DeletedAt = 0, RotationPeriodDays = 0, NextRotationAt = 0\<rparr>"

definition createSM2Key ::
  "bool \<Rightarrow> 'k asym \<Rightarrow> prims \<Rightarrow> time \<Rightarrow> string \<Rightarrow> KEK \<Rightarrow> Manager \<Rightarrow> csprng \<Rightarrow> KeyMetadata res \<times> Manager \<times> csprng" where
  "createSM2Key gmsm G P now keyID k m r =
     (if \<not> gmsm then (Inl (Msg ''lifecycle: sm2 requires -tags gmsm''), m, r)
      else case gen_SM2 G r of
          (Inl e, r1) \<Rightarrow> (Inl (Wrap ''lifecycle: generate SM2 key'' e), m, r1)
        | (Inr (priv, pub), r1) \<Rightarrow>
            (case WrapDEK P k (fst (NewSecureBuffer priv)) r1 of
               (Inl e, r2) \<Rightarrow> (Inl (Wrap ''lifecycle: encrypt SM2 private key'' e), m, r2)
             | (Inr material, r2) \<Rightarrow>
                 let meta = asym_meta keyID ''sm2'' material k pub now
                 in case saveMetadata meta m of
                      (Some e, m1) \<Rightarrow> (Inl (Wrap ''lifecycle: save SM2 metadata'' e), m1, r2)
                    | (None, m1) \<Rightarrow> (Inr meta, setLatestVersion keyID 1 m1, r2)))"

definition CreateAsymmetricKey ::
  "bool \<Rightarrow> 'k asym \<Rightarrow> prims \<Rightarrow> time \<Rightarrow> string \<Rightarrow> string \<Rightarrow> KEK option \<Rightarrow> Manager \<Rightarrow> csprng \<Rightarrow>
   KeyMetadata res \<times> Manager \<times> csprng" where
  "CreateAsymmetricKey gmsm G P now keyID algoType kek m r =
     (if keyID = '''' then (Inl (Msg ''lifecycle: empty key id''), m, r)
      else case kek of
          None \<Rightarrow> (Inl (Msg ''lifecycle: kek is nil''), m, r)
        | Some k \<Rightarrow>
            if algoType \<notin> {''rsa'', ''ecdsa'', ''sm2''} then (Inl (Msg ''lifecycle: unsupported key type''), m, r)
            else if algoType = ''sm2'' then createSM2Key gmsm G P now keyID k m r
            else (case gen_key G algoType r of
                (Inl e, r1) \<Rightarrow> (Inl (Wrap ''lifecycle: generate asymmetric key'' e), m, r1)
              | (Inr priv, r1) \<Rightarrow>
                  (case to_DER G priv of
                     Inl e \<Rightarrow> (Inl (Wrap ''lifecycle: serialize private key to secure DER'' e), m, r1)
                   | Inr der \<Rightarrow>
                       (case WrapDEK P k (fst (NewSecureBuffer der)) r1 of
                          (Inl e, r2) \<Rightarrow> (Inl (Wrap ''lifecycle: encrypt private key'' e), m, r2)
                        | (Inr material, r2) \<Rightarrow>
                            (case to_PEM G priv of
                               Inl e \<Rightarrow> (Inl (Wrap ''lifecycle: serialize public key'' e), m, r2)
                             | Inr pub \<Rightarrow>
                                 let meta = asym_meta keyID algoType material k pub now
                                 in case saveMetadata meta m of
                                      (Some e, m1) \<Rightarrow> (Inl (Wrap ''lifecycle: save metadata'' e), m1, r2)
                                    | (None, m1) \<Rightarrow> (Inr meta, setLatestVersion keyID 1 m1, r2))))))"

text \<open>The closure of \<^verbatim>\<open>RotateKey\<close>; its world is the random source.\<close>

definition rotate_tx ::
  "prims \<Rightarrow> time \<Rightarrow> string \<Rightarrow> KEK \<Rightarrow> lc_doc KVStore \<Rightarrow> csprng \<Rightarrow>
   (KeyMetadata \<times> SecureBuffer) res \<times> lc_doc KVStore \<times> csprng" where
  "rotate_tx P now keyID k s r =
     (case findLatestVersionInTx keyID s of
        (Inl e, s1) \<Rightarrow> (Inl e, s1, r)
      | (Inr latestV, s1) \<Rightarrow>
          (case tx_read ''lifecycle: lock old version'' ''lifecycle: unmarshal old metadata'' (metadataKey keyID latestV) s1 of
             (Inl e, s2) \<Rightarrow> (Inl e, s2, r)
           | (Inr oldMeta, s2) \<Rightarrow>
               if KState oldMeta \<noteq> StateActive then (Inl (Msg ''lifecycle: current version state is not Active''), s2, r)
               else (case tx_Put (metadataKey keyID latestV) (Doc (DMeta (oldMeta\<lparr>KState := StateDeactivated\<rparr>))) s2 of
                   (Some e, s3) \<Rightarrow> (Inl (Wrap ''lifecycle: update old version'' e), s3, r)
                 | (None, s3) \<Rightarrow>
                     (case NewSecureBufferFromRandom (dekSizeFromKEK k) r of
                        (Inl e, r1) \<Rightarrow> (Inl (Wrap ''lifecycle: generate new data key'' e), s3, r1)
                      | (Inr plainDEK, r1) \<Rightarrow>
                          (case WrapDEK P k plainDEK r1 of
                             (Inl e, r2) \<Rightarrow> (Inl (Wrap ''lifecycle: wrap new DEK'' e), s3, r2)
                           | (Inr encryptedDEK, r2) \<Rightarrow>
                               let newMeta = \<lparr>KeyID = keyID, Version = latestV + 1, KState = StateActive,
                                     KeyType = '''', Algorithm = '''', KeyUsage = [],
                                     EncryptedMaterial = encryptedDEK, KEKTypeName = KEKType_string (kek_Type k),
                                     PublicKey = [], CreatedAt = now, DeletedAt = 0,
                                     RotationPeriodDays = RotationPeriodDays oldMeta,
                                     NextRotationAt = rotation_due now (RotationPeriodDays oldMeta)\<rparr>
                               in case tx_Put (metadataKey keyID (latestV + 1)) (Doc (DMeta newMeta)) s3 of
                                    (Some e, s4) \<Rightarrow> (Inl (Wrap ''lifecycle: put new version'' e), s4, r2)
                                  | (None, s4) \<Rightarrow>
                                      let s5 = snd (tx_Put (latestVersionMetadataKey keyID) (Doc (DInt (latestV + 1))) s4)
                                      in (Inr (newMeta, plainDEK), tx_notify keyID s5, r2))))))"

definition RotateKey ::
  "prims \<Rightarrow> err option \<Rightarrow> time \<Rightarrow> string \<Rightarrow> KEK option \<Rightarrow> Manager \<Rightarrow> csprng \<Rightarrow>
   (KeyMetadata \<times> SecureBuffer) res \<times> Manager \<times> csprng" where
  "RotateKey P ctx now keyID kek m r =
     (if keyID = '''' then (Inl (Msg ''lifecycle: empty key id''), m, r)
      else case kek of
          None \<Rightarrow> (Inl (Msg ''lifecycle: kek is nil''), m, r)
        | Some k \<Rightarrow>
            (case store_WithTx ctx (rotate_tx P now keyID k) (store m) r of
               (Inl e, s, r1) \<Rightarrow> (Inl e, m\<lparr>store := s\<rparr>, r1)
             | (Inr x, s, r1) \<Rightarrow>
                 (Inr x, notifyClusterIfNoTxNotifier keyID
                    (m\<lparr>store := s, cache := cache_invalidate keyID (cache m)\<rparr>), r1)))"

definition shred_tx :: "string \<Rightarrow> int \<Rightarrow> lc_doc KVStore \<Rightarrow> unit \<Rightarrow> unit res \<times> lc_doc KVStore \<times> unit" where
  "shred_tx keyID version s u =
     (let key = metadataKey keyID version
      in case tx_read ''lifecycle: lock for shred'' ''lifecycle: unmarshal for shred'' key s of
           (Inl e, s1) \<Rightarrow> (Inl e, s1, u)
         | (Inr meta, s1) \<Rightarrow>
             (case tx_Put key (Doc (DMeta (meta\<lparr>EncryptedMaterial := [], KState := StateDestroyed\<rparr>))) s1 of
                (Some e, s2) \<Rightarrow> (Inl (Wrap ''lifecycle: put destroyed metadata'' e), s2, u)
              | (None, s2) \<Rightarrow>
                  (case tx_Delete key s2 of
                     (Some e, s3) \<Rightarrow> (Inl (Wrap ''lifecycle: delete after shred'' e), s3, u)
                   | (None, s3) \<Rightarrow> (Inr (), tx_notify keyID s3, u))))"

definition ShredKey :: "err option \<Rightarrow> string \<Rightarrow> int \<Rightarrow> Manager \<Rightarrow> unit res \<times> Manager" where
  "ShredKey ctx keyID version m =
     (case store_WithTx ctx (shred_tx keyID version) (store m) () of
        (Inl e, s, _) \<Rightarrow> (Inl e, m\<lparr>store := s\<rparr>)
      | (Inr _, s, _) \<Rightarrow>
          (Inr (), notifyClusterIfNoTxNotifier keyID
             (m\<lparr>store := s, cache := cache_invalidate keyID (cache m)\<rparr>)))"

definition GetKey :: "time \<Rightarrow> string \<Rightarrow> int \<Rightarrow> Manager \<Rightarrow> KeyMetadata res \<times> Manager" where
  "GetKey now keyID version m = loadMetadata now keyID version m"

definition GetActiveKey :: "time \<Rightarrow> string \<Rightarrow> Manager \<Rightarrow> KeyMetadata res \<times> Manager" where
  "GetActiveKey now keyID m =
     (case findLatestVersion keyID (store m) of
        (Inl e, s) \<Rightarrow> (Inl (Wrap ''lifecycle: find active key'' e), m\<lparr>store := s\<rparr>)
      | (Inr latestV, s) \<Rightarrow>
          (case loadMetadata now keyID latestV (m\<lparr>store := s\<rparr>) of
             (Inl e, m1) \<Rightarrow> (Inl e, m1)
           | (Inr meta, m1) \<Rightarrow>
               if KState meta \<noteq> StateActive then (Inl (Msg ''lifecycle: key state is not Active - encrypt refused''), m1)
               else (Inr meta, m1)))"

definition GetKeyForDecrypt :: "time \<Rightarrow> string \<Rightarrow> int \<Rightarrow> Manager \<Rightarrow> KeyMetadata res \<times> Manager" where
  "GetKeyForDecrypt now keyID version m =
     (case loadMetadata now keyID version m of
        (Inl e, m1) \<Rightarrow> (Inl e, m1)
      | (Inr meta, m1) \<Rightarrow>
          (case KState meta of
             StateActive \<Rightarrow> (Inr meta, m1)
           | StateDeactivated \<Rightarrow> (Inr meta, m1)
           | StateSoftDeleted \<Rightarrow> (Inr meta, m1)
           | StateDestroyed \<Rightarrow> (Inl ErrKeyDestroyed, m1)
           | OtherState _ \<Rightarrow> (Inl (Msg ''lifecycle: key has unknown state''), m1)))"

definition GenerateDataKey ::
  "prims \<Rightarrow> time \<Rightarrow> string \<Rightarrow> KEK option \<Rightarrow> Manager \<Rightarrow> csprng \<Rightarrow>
   (SecureBuffer \<times> bytes) res \<times> Manager \<times> csprng" where
  "GenerateDataKey P now keyID kek m r =
     (if keyID = '''' then (Inl (Msg ''lifecycle: empty key id''), m, r)
      else case kek of
          None \<Rightarrow> (Inl (Msg ''lifecycle: kek is nil''), m, r)
        | Some k \<Rightarrow>
            (case GetActiveKey now keyID m of
               (Inl e, m1) \<Rightarrow> (Inl (Wrap ''lifecycle: gdk get active key'' e), m1, r)
             | (Inr meta, m1) \<Rightarrow>
                 (case NewSecureBufferFromRandom (dekSizeFromKEK k) r of
                    (Inl e, r1) \<Rightarrow> (Inl (Wrap ''lifecycle: gdk generate random DEK'' e), m1, r1)
                  | (Inr plainDEK, r1) \<Rightarrow>
                      (case UnwrapDEK P k (EncryptedMaterial meta) of
                         Inl e \<Rightarrow> (Inl (Wrap ''lifecycle: gdk unwrap stored DEK'' e), m1, r1)
                       | Inr storedDEK \<Rightarrow>
                           (case EncryptVersioned (aes P) storedDEK (SafeUint32 (Version meta)) (sb_data plainDEK) r1 of
                              (Inl e, r2) \<Rightarrow> (Inl (Wrap ''lifecycle: gdk encrypt temporary DEK'' e), m1, r2)
                            | (Inr ciphertext, r2) \<Rightarrow> (Inr (plainDEK, ciphertext), m1, r2))))))"

definition softdelete_tx ::
  "time \<Rightarrow> string \<Rightarrow> int \<Rightarrow> lc_doc KVStore \<Rightarrow> unit \<Rightarrow> unit res \<times> lc_doc KVStore \<times> unit" where
  "softdelete_tx now keyID version s u =
     (let key = metadataKey keyID version
      in case tx_read ''lifecycle: soft-delete: lock key'' ''lifecycle: soft-delete: unmarshal'' key s of
           (Inl e, s1) \<Rightarrow> (Inl e, s1, u)
         | (Inr meta, s1) \<Rightarrow>
             if KState meta = StateSoftDeleted then (Inr (), s1, u)
             else if KState meta = StateDestroyed then (Inl ErrKeyDestroyed, s1, u)
             else (case tx_Put key (Doc (DMeta (meta\<lparr>KState := StateSoftDeleted, DeletedAt := now\<rparr>))) s1 of
                 (Some e, s2) \<Rightarrow> (Inl (Wrap ''lifecycle: soft-delete: put'' e), s2, u)
               | (None, s2) \<Rightarrow> (Inr (), s2, u)))"

definition SoftDeleteKey :: "err option \<Rightarrow> time \<Rightarrow> string \<Rightarrow> int \<Rightarrow> Manager \<Rightarrow> unit res \<times> Manager" where
  "SoftDeleteKey ctx now keyID version m =
     (case store_WithTx ctx (softdelete_tx now keyID version) (store m) () of
        (res, s, _) \<Rightarrow> (res, m\<lparr>store := s\<rparr>))"

text \<open>The closure of \<^verbatim>\<open>RestoreKey\<close> also invalidates the cache, its world.\<close>

definition restore_tx ::
  "string \<Rightarrow> int \<Rightarrow> lc_doc KVStore \<Rightarrow> dekCache \<Rightarrow> unit res \<times> lc_doc KVStore \<times> dekCache" where
  "restore_tx keyID version s c =
     (let key = metadataKey keyID version
      in case tx_read ''lifecycle: restore: lock key'' ''lifecycle: restore: unmarshal'' key s of
           (Inl e, s1) \<Rightarrow> (Inl e, s1, c)
         | (Inr meta, s1) \<Rightarrow>
             if KState meta \<noteq> StateSoftDeleted then
               (if KState meta = StateDestroyed then (Inl ErrKeyDestroyed, s1, c) else (Inr (), s1, c))
             else (case tx_Put key (Doc (DMeta (meta\<lparr>KState := StateDeactivated, DeletedAt := 0\<rparr>))) s1 of
                 (Some e, s2) \<Rightarrow> (Inl (Wrap ''lifecycle: restore: put'' e), s2, c)
               | (None, s2) \<Rightarrow> (Inr (), tx_notify keyID s2, cache_invalidate keyID c)))"

definition RestoreKey :: "err option \<Rightarrow> string \<Rightarrow> int \<Rightarrow> Manager \<Rightarrow> unit res \<times> Manager" where
  "RestoreKey ctx keyID version m =
     (case store_WithTx ctx (restore_tx keyID version) (store m) (cache m) of
        (Inl e, s, c) \<Rightarrow> (Inl e, m\<lparr>store := s, cache := c\<rparr>)
      | (Inr _, s, c) \<Rightarrow> (Inr (), notifyClusterIfNoTxNotifier keyID (m\<lparr>store := s, cache := c\<rparr>)))"

text \<open>The reaper. One page: the expired soft-deleted versions are shredded; the second result
  lists the versions passed to \<^verbatim>\<open>onReaped\<close>.\<close>

fun reap_page :: "time \<Rightarrow> lc_doc kv \<Rightarrow> Manager \<Rightarrow> (string \<times> int) list \<times> Manager" where
  "reap_page cutoff [] m = ([], m)"
| "reap_page cutoff ((_, d) # items) m =
     (case unmarshal_meta d of
        Inl _ \<Rightarrow> reap_page cutoff items m
      | Inr meta \<Rightarrow>
          if KState meta \<noteq> StateSoftDeleted then reap_page cutoff items m
          else if isZero (DeletedAt meta) \<or> DeletedAt meta > cutoff then reap_page cutoff items m
          else (case ShredKey None (KeyID meta) (Version meta) m of
              (Inl _, m1) \<Rightarrow> reap_page cutoff items m1
            | (Inr _, m1) \<Rightarrow>
                (case reap_page cutoff items m1 of
                   (reaped, m2) \<Rightarrow> ((KeyID meta, Version meta) # reaped, m2))))"

fun reap_loop :: "nat \<Rightarrow> time \<Rightarrow> nat \<Rightarrow> Manager \<Rightarrow> (string \<times> int) list \<times> Manager" where
  "reap_loop 0 cutoff offset m = ([], m)"
| "reap_loop (Suc n) cutoff offset m =
     (case store_ScanPrefixPaged ''key:'' offset 1000 (store m) of
        (Inl e, s1) \<Rightarrow> ([], m\<lparr>store := s1\<rparr>)
      | (Inr (items, _), s1) \<Rightarrow>
          if items = [] then ([], m\<lparr>store := s1\<rparr>)
          else (case reap_page cutoff items (m\<lparr>store := s1\<rparr>) of
              (reaped, m1) \<Rightarrow>
                if length items < 1000 then (reaped, m1)
                else (case reap_loop n cutoff (offset + length items) m1 of
                    (reaped', m2) \<Rightarrow> (reaped @ reaped', m2))))"

definition reapExpiredSoftDeletes :: "time \<Rightarrow> duration \<Rightarrow> Manager \<Rightarrow> (string \<times> int) list \<times> Manager" where
  "reapExpiredSoftDeletes now ttl m = reap_loop (length (kvs_of (store m)) + 1) (now - ttl) 0 m"

definition ReapNow :: "time \<Rightarrow> duration \<Rightarrow> Manager \<Rightarrow> (string \<times> int) list \<times> Manager" where
  "ReapNow now ttl m = reapExpiredSoftDeletes now ttl m"

text \<open>One tick of \<^verbatim>\<open>reaperLoop\<close>, as started by \<^verbatim>\<open>StartSoftDeleteReaper\<close>.\<close>

definition reaper_tick :: "time \<Rightarrow> duration \<Rightarrow> Manager \<Rightarrow> (string \<times> int) list \<times> Manager" where
  "reaper_tick now ttl m = reapExpiredSoftDeletes now (if ttl = 0 then DefaultSoftDeleteTTL else ttl) m"

end
