(* ===== verification/KeyLifecycle.thy ===== *)
theory KeyLifecycle
  imports Lifecycle
begin

text \<open>
  The properties of the data-key manager: the names it stores under, what each operation does to
  the store on every outcome, the transitions a stored version can take, the invariant that a key
  never has two active versions, and the round trips through wrapping, rotation and the envelope.
\<close>

section \<open>Names\<close>

lemma metadataKey_inj: "metadataKey k v = metadataKey k' v' \<longleftrightarrow> k = k' \<and> v = v'"
proof
  assume "metadataKey k v = metadataKey k' v'"
  then have "(k @ '':v'') @ CHR '':'' # dec_int v = (k' @ '':v'') @ CHR '':'' # dec_int v'"
    by (simp add: metadataKey_def)
  from append_sep_inj [OF colon_notin_dec_int colon_notin_dec_int this]
  show "k = k' \<and> v = v'" by (simp add: dec_int_inj)
qed simp

lemma metadataKey_neq_latest [simp]:
  "metadataKey k v \<noteq> latestVersionMetadataKey k'" "latestVersionMetadataKey k' \<noteq> metadataKey k v"
  by (auto simp: metadataKey_def latestVersionMetadataKey_def)

lemma latest_inj [simp]: "latestVersionMetadataKey k = latestVersionMetadataKey k' \<longleftrightarrow> k = k'"
  by (simp add: latestVersionMetadataKey_def)

lemma names_neq_Nil [simp]: "metadataKey k v \<noteq> []" "latestVersionMetadataKey k \<noteq> []"
  by (simp_all add: metadataKey_def latestVersionMetadataKey_def)

lemma metadataKey_prefixes:
  "has_prefix (metadataKey k v) (''key:'' @ k @ '':v:'')" "has_prefix (metadataKey k v) ''key:''"
  by (simp_all add: metadataKey_def has_prefix_def)

section \<open>Searching the latest version\<close>

text \<open>The loop keeps whatever each read keeps.\<close>

lemma scan_versions_keep:
  assumes "\<And>k s r s'. get k s = (r, s') \<Longrightarrow> f s' = f s"
  shows "scan_versions n get keyID v s = (r, s') \<Longrightarrow> f s' = f s"
proof (induction n arbitrary: v s)
  case (Suc n)
  obtain g s1 where g: "get (metadataKey keyID v) s = (g, s1)" by fastforce
  then have f: "f s1 = f s" by (rule assms)
  from Suc.prems g f Suc.IH [of "v + 1" s1] show ?case
    by (cases g) (auto split: if_splits)
qed simp

lemma scan_versions_Inr:
  assumes "\<And>k s r s'. get k s = (r, s') \<Longrightarrow> look s' = look s"
    and "\<And>k s d s'. get k s = (Inr d, s') \<Longrightarrow> look s k \<noteq> None"
    and "\<And>k s e s'. get k s = (Inl e, s') \<Longrightarrow> errors_is e ErrNotFound \<Longrightarrow> look s k = None"
    and "scan_versions n get keyID v s = (Inr l, s')" "1 \<le> v"
    and "\<forall>u. 1 \<le> u \<and> u < v \<longrightarrow> look s (metadataKey keyID u) \<noteq> None"
  shows "1 \<le> l \<and> (\<forall>u. 1 \<le> u \<and> u \<le> l \<longrightarrow> look s (metadataKey keyID u) \<noteq> None)
    \<and> look s (metadataKey keyID (l + 1)) = None"
  using assms(4-6)
proof (induction n arbitrary: v s)
  case (Suc n)
  obtain g s1 where g: "get (metadataKey keyID v) s = (g, s1)" by fastforce
  show ?case
  proof (cases g)
    case (Inl e)
    with Suc.prems g assms(3) [of "metadataKey keyID v" s e s1] show ?thesis
      by (auto split: if_splits)
  next
    case (Inr d)
    have "look s (metadataKey keyID v) \<noteq> None" and eq: "look s1 = look s"
      using assms(1,2) g Inr by blast+
    then have "\<forall>u. 1 \<le> u \<and> u < v + 1 \<longrightarrow> look s1 (metadataKey keyID u) \<noteq> None"
      using Suc.prems(3) by (metis zless_add1_eq)
    with Suc.IH [of "v + 1" s1] Suc.prems g Inr eq show ?thesis by simp
  qed
qed simp

text \<open>The rounds given to the loop are enough: it never runs out of them.\<close>

lemma versions_bound:
  assumes "\<forall>u. 1 \<le> u \<and> u < v \<longrightarrow> look s (metadataKey keyID u) \<noteq> None"
  shows "nat (v - 1) \<le> length (kvs_of s)"
proof -
  have "inj_on (metadataKey keyID) {1..<v}" by (auto simp: inj_on_def metadataKey_inj)
  then have "card (metadataKey keyID ` {1..<v}) = nat (v - 1)" by (simp add: card_image)
  moreover have "metadataKey keyID ` {1..<v} \<subseteq> set (map fst (kvs_of s))"
    using assms by (auto simp: look_kvs map_of_eq_None_iff)
  ultimately show ?thesis
    by (metis List.finite_set card_length card_mono le_trans length_map)
qed

lemma scan_versions_enough:
  assumes "\<And>k s r s'. get k s = (r, s') \<Longrightarrow> look s' = look s \<and> kvs_of s' = kvs_of s"
    and "\<And>k s d s'. get k s = (Inr d, s') \<Longrightarrow> look s k \<noteq> None"
    and "\<And>k s e s'. get k s = (Inl e, s') \<Longrightarrow> e \<noteq> Panic ''unreachable''"
    and "length (kvs_of s) < n + nat (v - 1)" "1 \<le> v"
    and "\<forall>u. 1 \<le> u \<and> u < v \<longrightarrow> look s (metadataKey keyID u) \<noteq> None"
  shows "fst (scan_versions n get keyID v s) \<noteq> Inl (Panic ''unreachable'')"
  using assms(4-6)
proof (induction n arbitrary: v s)
  case 0
  with versions_bound [of v s keyID] show ?case by simp
next
  case (Suc n)
  obtain g s1 where g: "get (metadataKey keyID v) s = (g, s1)" by fastforce
  show ?case
  proof (cases g)
    case (Inl e)
    with g assms(3) [of "metadataKey keyID v" s e s1] show ?thesis by (auto split: if_splits)
  next
    case (Inr d)
    have "look s (metadataKey keyID v) \<noteq> None" and eq: "look s1 = look s" "kvs_of s1 = kvs_of s"
      using assms(1,2) g Inr by blast+
    then have "\<forall>u. 1 \<le> u \<and> u < v + 1 \<longrightarrow> look s1 (metadataKey keyID u) \<noteq> None"
      using Suc.prems(3) by (metis zless_add1_eq)
    with Suc.IH [of s1 "v + 1"] Suc.prems g Inr eq show ?thesis by simp
  qed
qed

lemma get_kvs:
  "store_Get k s = (r, s') \<Longrightarrow> kvs_of s' = kvs_of s" "tx_GetForUpdate k s = (r, s') \<Longrightarrow> kvs_of s' = kvs_of s"
  "store_Get k s = (Inl e, s') \<Longrightarrow> e \<noteq> Panic m" "tx_GetForUpdate k s = (Inl e, s') \<Longrightarrow> e \<noteq> Panic m"
  by (cases s; auto simp: mem_defs pg_defs split: option.splits if_splits)+

lemma findLatestVersion_keep:
  assumes "\<And>k s r s'. store_Get k s = (r, s') \<Longrightarrow> f s' = f s" "findLatestVersion keyID s = (r, s')"
  shows "f s' = f s"
proof -
  obtain g s1 where g: "store_Get (latestVersionMetadataKey keyID) s = (g, s1)" by fastforce
  then have f: "f s1 = f s" by (rule assms(1))
  have scan: "f s' = f s1" if "scan_versions (Suc (length (kvs_of s1))) store_Get keyID 1 s1 = (r, s')"
    by (rule scan_versions_keep [where get = store_Get and f = f]) (fact assms(1), fact that)
  from assms(2) g f show ?thesis
    by (auto simp: findLatestVersion_def getLatestVersion_def findLatestVersionScan_def
        simp del: scan_versions.simps split: option.splits dest: scan)
qed

lemma findLatestVersionInTx_keep:
  assumes "\<And>k s r s'. tx_GetForUpdate k s = (r, s') \<Longrightarrow> f s' = f s" "findLatestVersionInTx keyID s = (r, s')"
  shows "f s' = f s"
proof -
  obtain g s1 where g: "tx_GetForUpdate (latestVersionMetadataKey keyID) s = (g, s1)" by fastforce
  then have f: "f s1 = f s" by (rule assms(1))
  have scan: "f s' = f s1" if "scan_versions (Suc (length (kvs_of s1))) tx_GetForUpdate keyID 1 s1 = (r, s')"
    by (rule scan_versions_keep [where get = tx_GetForUpdate and f = f]) (fact assms(1), fact that)
  from assms(2) g f show ?thesis
    by (auto simp: findLatestVersionInTx_def simp del: scan_versions.simps split: option.splits dest: scan)
qed

lemma findLatestVersion_look: "findLatestVersion keyID s = (r, s') \<Longrightarrow> look s' = look s"
  using kv.get_look by (rule findLatestVersion_keep)

lemma findLatestVersionInTx_look: "findLatestVersionInTx keyID s = (r, s') \<Longrightarrow> look s' = look s"
  using tx.get_look by (rule findLatestVersionInTx_keep)

lemma findLatestVersionInTx_notices: "findLatestVersionInTx keyID s = (r, s') \<Longrightarrow> notices s' = notices s"
  using notices_tx(3) by (rule findLatestVersionInTx_keep)

lemma findLatestVersionInTx_kind: "findLatestVersionInTx keyID s = (r, s') \<Longrightarrow> is_Pg s' = is_Pg s"
  using kind_tx(3) by (rule findLatestVersionInTx_keep)

lemma store_Get_kind: "store_Get k s = (r, s') \<Longrightarrow> is_Pg s' = is_Pg s"
  using kind_store(2) by (metis snd_conv)

lemma findLatestVersion_enough: "fst (findLatestVersion keyID s) \<noteq> Inl (Panic ''unreachable'')"
proof -
  obtain g s1 where g: "store_Get (latestVersionMetadataKey keyID) s = (g, s1)" by fastforce
  have "fst (scan_versions (length (kvs_of s1) + 1) store_Get keyID 1 s1) \<noteq> Inl (Panic ''unreachable'')"
    by (rule scan_versions_enough) (auto dest: kv.get_look get_kvs kv.get_ok)
  with g show ?thesis
    by (auto simp: findLatestVersion_def getLatestVersion_def findLatestVersionScan_def simp del: scan_versions.simps split: option.split)
qed

section \<open>What the transactions do\<close>

definition meta_at :: "(string \<Rightarrow> lc_doc val option) \<Rightarrow> string \<Rightarrow> int \<Rightarrow> KeyMetadata option" where
  "meta_at l k v = (case l (metadataKey k v) of Some (Doc (DMeta m)) \<Rightarrow> Some m | _ \<Rightarrow> None)"

definition set_meta :: "(string \<Rightarrow> lc_doc val option) \<Rightarrow> string \<Rightarrow> int \<Rightarrow> KeyMetadata option \<Rightarrow> (string \<Rightarrow> lc_doc val option)" where
  "set_meta l k v m = l(metadataKey k v := map_option (\<lambda>m. Doc (DMeta m)) m)"

lemma meta_at_set_meta: "meta_at (set_meta l k v m) k' v' = (if k' = k \<and> v' = v then m else meta_at l k' v')"
  by (auto simp: meta_at_def set_meta_def metadataKey_inj split: option.split)

lemma meta_at_latest [simp]: "meta_at (l(latestVersionMetadataKey k := x)) = meta_at l"
  by (intro ext) (simp add: meta_at_def)

lemma unmarshal_meta_Inr: "unmarshal_meta d = Inr m \<longleftrightarrow> d = Doc (DMeta m)"
  by (cases d rule: unmarshal_meta.cases) auto

lemma tx_read_Inr:
  assumes "tx_read a b (metadataKey k v) s = (Inr m, s')"
  shows "meta_at (look s) k v = Some m" "look s' = look s" "is_Pg s' = is_Pg s"
  using assms tx.get_ok kind_tx(3)
  by (fastforce simp: tx_read_def meta_at_def unmarshal_meta_Inr split: prod.splits sum.splits)+

lemma tx_read_Inl:
  assumes "tx_read a b key s = (Inl e, s')"
  shows "look s' = look s" "is_Pg s' = is_Pg s"
proof -
  obtain g s1 where g: "tx_GetForUpdate key s = (g, s1)" by fastforce
  with assms have "s' = s1" by (auto simp: tx_read_def split: sum.splits)
  with g tx.get_look kind_tx(3) show "look s' = look s" "is_Pg s' = is_Pg s" by blast+
qed

lemma tx_read_notices: "tx_read a b key s = (g, s') \<Longrightarrow> notices s' = notices s"
  by (auto simp: tx_read_def split: prod.splits sum.splits dest: notices_tx(3))

lemma tx_Put_meta:
  "tx_Put (metadataKey k v) (Doc (DMeta m)) s = (None, s') \<Longrightarrow> look s' = set_meta (look s) k v (Some m)"
  by (auto dest!: tx.put_ok simp: set_meta_def entry_def)

text \<open>The possible effects of a rotation: nothing, the old version deactivated, or the whole
  rotation, with the index entry unless writing it aborted the transaction.\<close>

definition rotated_meta :: "string \<Rightarrow> int \<Rightarrow> bytes \<Rightarrow> KEK \<Rightarrow> time \<Rightarrow> int \<Rightarrow> KeyMetadata" where
  "rotated_meta keyID v material k now days =
     \<lparr>KeyID = keyID, Version = v, KState = StateActive, KeyType = '''', Algorithm = '''', KeyUsage = [],
      EncryptedMaterial = material, KEKTypeName = KEKType_string (kek_Type k), PublicKey = [],
      CreatedAt = now, DeletedAt = 0, RotationPeriodDays = days, NextRotationAt = rotation_due now days\<rparr>"

lemma rotate_tx_Inr:
  assumes "rotate_tx P now keyID k s r = (Inr (newMeta, dek), s', r')"
  obtains v old material r0 where
    "fst (findLatestVersionInTx keyID s) = Inr v" "meta_at (look s) keyID v = Some old" "KState old = StateActive"
    "newMeta = rotated_meta keyID (v + 1) material k now (RotationPeriodDays old)"
    "NewSecureBufferFromRandom (dekSizeFromKEK k) r = (Inr dek, r0)" "WrapDEK P k dek r0 = (Inr material, r')"
    "aborted s' \<or> look s' = (set_meta (set_meta (look s) keyID v (Some (old\<lparr>KState := StateDeactivated\<rparr>)))
        keyID (v + 1) (Some newMeta))(latestVersionMetadataKey keyID \<mapsto> Doc (DInt (v + 1)))"
    "is_Pg s' = is_Pg s" "is_Pg s \<Longrightarrow> \<not> aborted s' \<Longrightarrow> notices s' = notices s @ [keyID]"
proof -
  obtain v s1 where f: "findLatestVersionInTx keyID s = (Inr v, s1)"
    using assms by (cases "findLatestVersionInTx keyID s") (auto simp: rotate_tx_def split: sum.splits)
  obtain old s2 where rd: "tx_read ''lifecycle: lock old version'' ''lifecycle: unmarshal old metadata''
      (metadataKey keyID v) s1 = (Inr old, s2)" and act: "KState old = StateActive"
    using assms f by (auto simp: rotate_tx_def split: prod.splits sum.splits if_splits)
  obtain s3 where p1: "tx_Put (metadataKey keyID v) (Doc (DMeta (old\<lparr>KState := StateDeactivated\<rparr>))) s2 = (None, s3)"
    using assms f rd act by (auto simp: rotate_tx_def split: prod.splits option.splits)
  obtain r0 where nb: "NewSecureBufferFromRandom (dekSizeFromKEK k) r = (Inr dek, r0)"
    using assms f rd act p1 by (auto simp: rotate_tx_def Let_def split: prod.splits sum.splits option.splits)
  obtain material where w: "WrapDEK P k dek r0 = (Inr material, r')"
    using assms f rd act p1 nb by (auto simp: rotate_tx_def Let_def split: prod.splits sum.splits option.splits)
  define meta where "meta = rotated_meta keyID (v + 1) material k now (RotationPeriodDays old)"
  obtain s4 where p2: "tx_Put (metadataKey keyID (v + 1)) (Doc (DMeta meta)) s3 = (None, s4)" and nm: "newMeta = meta"
    using assms f rd act p1 nb w
    by (auto simp: rotate_tx_def Let_def meta_def rotated_meta_def split: prod.splits sum.splits option.splits)
  obtain o5 s5 where p3: "tx_Put (latestVersionMetadataKey keyID) (Doc (DInt (v + 1))) s4 = (o5, s5)" by fastforce
  have s': "s' = tx_notify keyID s5"
    using assms f rd act p1 nb w p2 p3
    by (auto simp: rotate_tx_def Let_def meta_def rotated_meta_def split: prod.splits sum.splits option.splits)
  have l4: "look s4 = set_meta (set_meta (look s) keyID v (Some (old\<lparr>KState := StateDeactivated\<rparr>))) keyID (v + 1) (Some meta)"
    using tx_Put_meta [OF p1] tx_Put_meta [OF p2] tx_read_Inr(2) [OF rd] findLatestVersionInTx_look [OF f] by simp
  have "aborted s' \<or> look s' = (look s4)(latestVersionMetadataKey keyID \<mapsto> Doc (DInt (v + 1)))"
    using p3 s' tx_Put_aborts [of _ _ s4] tx.put_ok [of _ _ s4] by (cases o5) (auto intro: tx_notify_aborted simp: entry_def)
  moreover have k5: "is_Pg s5 = is_Pg s"
    using kind_tx(1) [OF p1] kind_tx(1) [OF p2] kind_tx(1) [OF p3] tx_read_Inr(3) [OF rd] findLatestVersionInTx_kind [OF f] by simp
  then have "is_Pg s' = is_Pg s" using s' by simp
  moreover have "notices s' = notices s @ [keyID]" if "is_Pg s" "\<not> aborted s'"
    using notices_tx_notify [of s5 keyID] that k5 s' notices_tx(1) [OF p1] notices_tx(1) [OF p2] notices_tx(1) [OF p3]
      tx_read_notices [OF rd] findLatestVersionInTx_notices [OF f] by simp
  moreover have "meta_at (look s) keyID v = Some old"
    using tx_read_Inr(1) [OF rd] findLatestVersionInTx_look [OF f] by simp
  ultimately show thesis
    using that [of v old material r0] f act nb w l4 nm by (auto simp: meta_def)
qed

lemma rotate_tx_Inl:
  assumes "rotate_tx P now keyID k s r = (Inl e, s', r')"
  shows "is_Pg s' = is_Pg s \<and> (look s' = look s \<or> (\<exists>v old. meta_at (look s) keyID v = Some old \<and> KState old = StateActive
    \<and> look s' = set_meta (look s) keyID v (Some (old\<lparr>KState := StateDeactivated\<rparr>))))"
proof -
  obtain l s1 where f: "findLatestVersionInTx keyID s = (l, s1)" by fastforce
  note f' = findLatestVersionInTx_look [OF f] findLatestVersionInTx_kind [OF f]
  show ?thesis
  proof (cases l)
    case (Inl e')
    with assms f f' show ?thesis by (simp add: rotate_tx_def)
  next
    case (Inr v)
    obtain g s2 where rd: "tx_read ''lifecycle: lock old version'' ''lifecycle: unmarshal old metadata''
      (metadataKey keyID v) s1 = (g, s2)" by fastforce
    show ?thesis
    proof (cases g)
      case Inl': (Inl e')
      with assms f f' Inr rd tx_read_Inl [OF rd [unfolded Inl']] show ?thesis by (simp add: rotate_tx_def)
    next
      case Inr': (Inr old)
      note rd' = tx_read_Inr [OF rd [unfolded Inr']]
      obtain o3 s3 where p: "tx_Put (metadataKey keyID v) (Doc (DMeta (old\<lparr>KState := StateDeactivated\<rparr>))) s2 = (o3, s3)"
        by fastforce
      show ?thesis
      proof (cases "KState old = StateActive")
        case False
        with assms f f' Inr rd Inr' rd' show ?thesis by (simp add: rotate_tx_def)
      next
        case act: True
        have "s' = s3 \<or> (\<exists>m e'. tx_Put (metadataKey keyID (v + 1)) m s3 = (Some e', s'))"
          using assms f Inr rd Inr' act p
          by (auto simp: rotate_tx_def Let_def split: prod.splits sum.splits option.splits)
        then have "look s' = look s3 \<and> is_Pg s' = is_Pg s3" using tx.put_fail kind_tx(1) by blast
        moreover have "look s3 = look s2 \<or> look s3 = set_meta (look s2) keyID v (Some (old\<lparr>KState := StateDeactivated\<rparr>))"
          using p by (cases o3) (auto dest: tx.put_fail tx_Put_meta)
        moreover have "is_Pg s3 = is_Pg s2" using kind_tx(1) [OF p] .
        ultimately show ?thesis using f' rd' act by auto
      qed
    qed
  qed
qed

lemma keeps_kind_rotate: "keeps_kind (rotate_tx P now keyID k)"
  unfolding keeps_kind_def
proof (intro allI impI)
  fix s r res s' r' assume t: "rotate_tx P now keyID k s r = (res, s', r')"
  show "is_Pg s' = is_Pg s"
  proof (cases res)
    case (Inl e) then show ?thesis using rotate_tx_Inl t by blast
  next
    case (Inr x)
    obtain nm dek where "x = (nm, dek)" by (cases x)
    with t Inr show ?thesis by (auto elim: rotate_tx_Inr)
  qed
qed

lemma shred_tx_Inr:
  assumes "shred_tx keyID v s u = (Inr x, s', u')"
  shows "(\<exists>m. meta_at (look s) keyID v = Some m) \<and> look s' = set_meta (look s) keyID v None"
proof -
  obtain m s1 where rd: "tx_read ''lifecycle: lock for shred'' ''lifecycle: unmarshal for shred'' (metadataKey keyID v) s = (Inr m, s1)"
    using assms by (auto simp: shred_tx_def Let_def split: prod.splits sum.splits)
  obtain s2 s3 where p: "tx_Put (metadataKey keyID v) (Doc (DMeta (m\<lparr>EncryptedMaterial := [], KState := StateDestroyed\<rparr>))) s1 = (None, s2)"
    and d: "tx_Delete (metadataKey keyID v) s2 = (None, s3)" and "s' = tx_notify keyID s3"
    using assms rd by (auto simp: shred_tx_def Let_def split: prod.splits option.splits)
  then show ?thesis
    using tx_read_Inr [OF rd] tx_Put_meta [OF p] tx.delete_ok [OF d] by (simp add: set_meta_def)
qed

lemma shred_tx_kind: "keeps_kind (shred_tx keyID v)"
  unfolding keeps_kind_def
  by (auto simp: shred_tx_def Let_def split: prod.splits sum.splits option.splits
      dest!: tx_read_Inr(3) tx_read_Inl(2) kind_tx(1,2))

lemma shred_tx_Inl_mem:
  assumes "shred_tx keyID v s u = (Inl e, s', u')" "\<not> is_Pg s"
  shows "look s' = look s"
proof -
  obtain g s1 where rd: "tx_read ''lifecycle: lock for shred'' ''lifecycle: unmarshal for shred'' (metadataKey keyID v) s = (g, s1)"
    by fastforce
  show ?thesis
  proof (cases g)
    case (Inl e')
    with assms rd tx_read_Inl [of _ _ _ s e' s1] show ?thesis by (auto simp: shred_tx_def Let_def)
  next
    case (Inr m)
    have k1: "\<not> is_Pg s1" using tx_read_Inr(3) [OF rd [unfolded Inr]] assms(2) by simp
    obtain s2 where p: "tx_Put (metadataKey keyID v) (Doc (DMeta (m\<lparr>EncryptedMaterial := [], KState := StateDestroyed\<rparr>))) s1 = (None, s2)"
      using mem_tx_succeed(1) [OF k1] by (metis names_neq_Nil(1) prod.collapse)
    have k2: "\<not> is_Pg s2" using kind_tx(1) [OF p] k1 by simp
    obtain s3 where "tx_Delete (metadataKey keyID v) s2 = (None, s3)"
      using mem_tx_succeed(2) [OF k2] by (metis prod.collapse)
    with assms rd Inr p show ?thesis by (simp add: shred_tx_def Let_def)
  qed
qed

lemma softdelete_tx_Inr:
  assumes "softdelete_tx now keyID v s u = (Inr x, s', u')"
  obtains m where "meta_at (look s) keyID v = Some m" "KState m \<noteq> StateDestroyed"
    "look s' = (if KState m = StateSoftDeleted then look s
       else set_meta (look s) keyID v (Some (m\<lparr>KState := StateSoftDeleted, DeletedAt := now\<rparr>)))"
proof -
  obtain m s1 where rd: "tx_read ''lifecycle: soft-delete: lock key'' ''lifecycle: soft-delete: unmarshal'' (metadataKey keyID v) s = (Inr m, s1)"
    using assms by (auto simp: softdelete_tx_def Let_def split: prod.splits sum.splits)
  with assms that [of m] tx_read_Inr [OF rd] show thesis
    by (auto simp: softdelete_tx_def Let_def split: if_splits option.splits prod.splits dest: tx_Put_meta)
qed

lemma softdelete_tx_Inl:
  assumes "softdelete_tx now keyID v s u = (Inl e, s', u')"
  shows "look s' = look s"
  using assms
  by (auto simp: softdelete_tx_def Let_def split: if_splits option.splits prod.splits sum.splits
      dest!: tx_read_Inr(2) tx_read_Inl(1) tx.put_fail)

lemma softdelete_tx_kind: "keeps_kind (softdelete_tx now keyID v)"
  unfolding keeps_kind_def
  by (auto simp: softdelete_tx_def Let_def split: if_splits prod.splits sum.splits option.splits
      dest!: tx_read_Inr(3) tx_read_Inl(2) kind_tx(1,2))

lemma restore_tx_Inr:
  assumes "restore_tx keyID v s c = (Inr x, s', c')"
  obtains m where "meta_at (look s) keyID v = Some m" "KState m \<noteq> StateDestroyed"
    "look s' = (if KState m = StateSoftDeleted
       then set_meta (look s) keyID v (Some (m\<lparr>KState := StateDeactivated, DeletedAt := 0\<rparr>)) else look s)"
    "c' = (if KState m = StateSoftDeleted then cache_invalidate keyID c else c)"
proof -
  obtain m s1 where rd: "tx_read ''lifecycle: restore: lock key'' ''lifecycle: restore: unmarshal'' (metadataKey keyID v) s = (Inr m, s1)"
    using assms by (auto simp: restore_tx_def Let_def split: prod.splits sum.splits)
  with assms that [of m] tx_read_Inr [OF rd] show thesis
    by (auto simp: restore_tx_def Let_def split: if_splits option.splits prod.splits dest: tx_Put_meta)
qed

lemma restore_tx_Inl:
  assumes "restore_tx keyID v s c = (Inl e, s', c')"
  shows "look s' = look s \<and> c' = c"
  using assms
  by (auto simp: restore_tx_def Let_def split: if_splits option.splits prod.splits sum.splits
      dest!: tx_read_Inr(2) tx_read_Inl(1) tx.put_fail)

lemma restore_tx_kind: "keeps_kind (restore_tx keyID v)"
  unfolding keeps_kind_def
  by (auto simp: restore_tx_def Let_def split: if_splits prod.splits sum.splits option.splits
      dest!: tx_read_Inr(3) tx_read_Inl(2) kind_tx(1,2))

lemma latest_index_pos: "latest_index g = Some v \<Longrightarrow> 1 \<le> v"
  by (auto simp: latest_index_def split: sum.splits if_splits)

lemma findLatestVersionInTx_index:
  assumes "reliable s" "look s (latestVersionMetadataKey keyID) = Some (Doc (DInt n))" "0 < n"
  shows "fst (findLatestVersionInTx keyID s) = Inr n"
proof -
  obtain g s1 where g: "tx_GetForUpdate (latestVersionMetadataKey keyID) s = (g, s1)" by fastforce
  with reliable_ops(7) [OF assms(1), of "latestVersionMetadataKey keyID"] assms(2,3)
  have "latest_index g = Some n" by (auto simp: latest_index_def)
  with g show ?thesis by (simp add: findLatestVersionInTx_def)
qed

lemma findLatestVersionInTx_pos:
  assumes "fst (findLatestVersionInTx keyID s) = Inr v"
  shows "1 \<le> v"
proof -
  obtain g s1 where g: "tx_GetForUpdate (latestVersionMetadataKey keyID) s = (g, s1)" by fastforce
  obtain x s2 where x: "scan_versions (Suc (length (kvs_of s1))) tx_GetForUpdate keyID 1 s1 = (x, s2)" by fastforce
  show ?thesis
  proof (cases "latest_index g")
    case None
    with assms g x have "x = Inr v" by (simp add: findLatestVersionInTx_def del: scan_versions.simps)
    from x [unfolded this] show ?thesis
      by (rule scan_versions_Inr [THEN conjunct1, rotated 3]) (auto dest: tx.get_look tx.get_ok tx.get_fail)
  next
    case (Some n)
    with assms g latest_index_pos [OF Some] show ?thesis by (simp add: findLatestVersionInTx_def)
  qed
qed

section \<open>What the operations do\<close>

lemma ScanPrefixPaged_keep:
  "store_ScanPrefixPaged pre offset limit s = (r, s') \<Longrightarrow> kvs_of s' = kvs_of s \<and> is_Pg s' = is_Pg s"
  by (cases s) (auto simp: pg_ScanPrefixPaged_def pool_call_def Let_def split: prod.splits option.splits if_splits)

lemma list_loop_keep: "list_loop n offset seen s = (r, s') \<Longrightarrow> kvs_of s' = kvs_of s"
  by (induction n offset seen s rule: list_loop.induct)
    (auto simp: Let_def split: prod.splits sum.splits if_splits dest!: ScanPrefixPaged_keep)

abbreviation lookm :: "Manager \<Rightarrow> string \<Rightarrow> lc_doc val option" where
  "lookm m \<equiv> look (store m)"

lemma quota_check_look: "quota_check m = (e, m') \<Longrightarrow> lookm m' = lookm m \<and> cache m' = cache m"
proof -
  assume q: "quota_check m = (e, m')"
  obtain x s where l: "list_loop (length (kvs_of (store m)) + 1) 0 [] (store m) = (x, s)" by fastforce
  then have "look s = lookm m" using list_loop_keep look_kvs by metis
  with q l show ?thesis
    by (auto simp: quota_check_def countKeys_def simp del: list_loop.simps split: if_splits sum.splits)
qed

lemma notify_look [simp]:
  "lookm (notifyClusterIfNoTxNotifier k m) = lookm m" "cache (notifyClusterIfNoTxNotifier k m) = cache m"
  by (auto simp: notifyClusterIfNoTxNotifier_def pg_NotifyInvalidation_def pool_call_def pg_look_map_of
      split: KVStore.split option.split)

lemma saveMetadata_look:
  "saveMetadata meta m = (None, m') \<Longrightarrow> lookm m' = set_meta (lookm m) (KeyID meta) (Version meta) (Some meta) \<and> cache m' = cache m"
  "saveMetadata meta m = (Some e, m') \<Longrightarrow> lookm m' = lookm m \<and> cache m' = cache m"
  by (auto simp: saveMetadata_def set_meta_def entry_def split: prod.splits option.splits dest: kv.put_ok kv.put_fail)

lemma setLatestVersion_look:
  "lookm (setLatestVersion keyID v m) = lookm m \<or>
   lookm (setLatestVersion keyID v m) = (lookm m)(latestVersionMetadataKey keyID \<mapsto> Doc (DInt v))"
  "cache (setLatestVersion keyID v m) = cache m"
proof -
  obtain e s where p: "store_Put (latestVersionMetadataKey keyID) (Doc (DInt v)) (store m) = (e, s)" by fastforce
  then show "lookm (setLatestVersion keyID v m) = lookm m \<or>
   lookm (setLatestVersion keyID v m) = (lookm m)(latestVersionMetadataKey keyID \<mapsto> Doc (DInt v))"
    by (cases e) (auto simp: setLatestVersion_def entry_def dest: kv.put_ok kv.put_fail)
qed (simp add: setLatestVersion_def)

lemma meta_at_setLatest [simp]: "meta_at (lookm (setLatestVersion keyID v m)) = meta_at (lookm m)"
  using setLatestVersion_look(1) [of keyID v m] by (auto intro!: ext)

lemma loadMetadata_look: "loadMetadata now keyID v m = (r, m') \<Longrightarrow> lookm m' = lookm m"
  by (auto simp: loadMetadata_def Let_def split: option.splits if_splits prod.splits sum.splits dest: kv.get_look)

lemma GetActiveKey_look: "GetActiveKey now keyID m = (r, m') \<Longrightarrow> lookm m' = lookm m"
  by (auto simp: GetActiveKey_def split: prod.splits sum.splits if_splits dest!: findLatestVersion_look loadMetadata_look)

lemma GetKeyForDecrypt_look: "GetKeyForDecrypt now keyID v m = (r, m') \<Longrightarrow> lookm m' = lookm m"
  by (auto simp: GetKeyForDecrypt_def split: prod.splits sum.splits KeyState.splits dest!: loadMetadata_look)

lemma GenerateDataKey_look: "GenerateDataKey P now keyID kek m r = (x, m', r') \<Longrightarrow> lookm m' = lookm m"
  by (auto simp: GenerateDataKey_def split: prod.splits sum.splits if_splits option.splits dest!: GetActiveKey_look)

text \<open>Creation writes version 1, active, under the given name, or nothing.\<close>

definition created :: "string \<Rightarrow> KeyMetadata \<Rightarrow> bool" where
  "created keyID meta \<longleftrightarrow> KeyID meta = keyID \<and> Version meta = 1 \<and> KState meta = StateActive"

lemma save_created:
  assumes "created keyID meta" "lookm m1 = lookm m"
  shows "saveMetadata meta m1 = (None, m2) \<Longrightarrow>
      meta_at (lookm (setLatestVersion keyID 1 m2)) = meta_at (set_meta (lookm m) keyID 1 (Some meta))"
    and "saveMetadata meta m1 = (Some e, m2) \<Longrightarrow> meta_at (lookm m2) = meta_at (lookm m)"
  using assms by (auto simp: created_def dest: saveMetadata_look)

lemma CreateKey_cases:
  assumes "CreateKey P now keyID kek days m r = (res, m', r')"
  obtains (failed) e where "res = Inl e" "lookm m' = lookm m" "cache m' = cache m"
  | (okay) k dek material r0 m1 m2 where "kek = Some k" "keyID \<noteq> []"
      "res = Inr (create_meta keyID material k now days, dek)"
      "NewSecureBufferFromRandom (dekSizeFromKEK k) r = (Inr dek, r0)" "WrapDEK P k dek r0 = (Inr material, r')"
      "quota_check m = (None, m1)"
      "saveMetadata (create_meta keyID material k now days) m1 = (None, m2)" "m' = setLatestVersion keyID 1 m2"
proof -
  obtain e m1 where q: "quota_check m = (e, m1)" by fastforce
  note l1 = quota_check_look [OF q]
  show thesis
    using assms q l1 failed okay
    by (auto simp: CreateKey_def Let_def split: if_splits option.splits prod.splits sum.splits
        dest: saveMetadata_look)
qed

lemma created_create_meta [simp]: "created keyID (create_meta keyID material k now days)"
  "created keyID (asym_meta keyID algo material k pub now)"
  by (simp_all add: created_def create_meta_def asym_meta_def)

lemma CreateKey_effect:
  assumes "CreateKey P now keyID kek days m r = (res, m', r')"
  shows "meta_at (lookm m') = meta_at (lookm m) \<or>
    (\<exists>meta. created keyID meta \<and> meta_at (lookm m') = meta_at (set_meta (lookm m) keyID 1 (Some meta)))"
  using assms
proof (cases rule: CreateKey_cases)
  case (okay k dek material r0 m1 m2)
  then have "lookm m1 = lookm m" using quota_check_look by blast
  from save_created(1) [OF created_create_meta(1) this okay(7)] okay(8) show ?thesis
    using created_create_meta(1) by blast
qed simp

section \<open>The abstract key store\<close>

text \<open>
  The specification: a map from key names and version numbers to versions, which changes in four
  ways. A new name gets its active version 1; a version takes an allowed state step that does not
  activate it, its contents unchanged, or disappears; or an active version is deactivated
  and an active successor appears.
\<close>

type_synonym versions = "string \<Rightarrow> int \<Rightarrow> KeyMetadata option"

definition upd :: "versions \<Rightarrow> string \<Rightarrow> int \<Rightarrow> KeyMetadata option \<Rightarrow> versions" where
  "upd l k v x = l(k := (l k)(v := x))"

definition state_step :: "KeyState \<Rightarrow> KeyState \<Rightarrow> bool" where
  "state_step a b \<longleftrightarrow> a = b \<or> (a = StateActive \<and> b = StateDeactivated)
     \<or> (a \<noteq> StateDestroyed \<and> b = StateSoftDeleted) \<or> (a = StateSoftDeleted \<and> b = StateDeactivated)"

definition version_step :: "KeyMetadata \<Rightarrow> KeyMetadata \<Rightarrow> bool" where
  "version_step a b \<longleftrightarrow> b = a\<lparr>KState := KState b, DeletedAt := DeletedAt b\<rparr> \<and> state_step (KState a) (KState b)"

inductive abs_step :: "versions \<Rightarrow> versions \<Rightarrow> bool" where
  abs_same: "abs_step l l"
| abs_new: "(\<forall>v. l k v = None) \<Longrightarrow> created k b \<Longrightarrow> abs_step l (upd l k 1 (Some b))"
| abs_move: "l k v = Some a \<Longrightarrow> version_step a b \<Longrightarrow> KState b \<noteq> StateActive \<Longrightarrow> abs_step l (upd l k v (Some b))"
| abs_gone: "l k v = Some a \<Longrightarrow> abs_step l (upd l k v None)"
| abs_rotate: "l k v = Some a \<Longrightarrow> KState a = StateActive \<Longrightarrow> KeyID b = k \<Longrightarrow> Version b = v + 1 \<Longrightarrow>
    KState b = StateActive \<Longrightarrow>
    abs_step l (upd (upd l k v (Some (a\<lparr>KState := StateDeactivated\<rparr>))) k (v + 1) (Some b))"

inductive_cases abs_stepE: "abs_step l l'"

text \<open>At most one active version of a key, and each version is filed under its own name.\<close>

definition one_active :: "versions \<Rightarrow> bool" where
  "one_active l \<longleftrightarrow> (\<forall>k v v' a b. l k v = Some a \<longrightarrow> l k v' = Some b \<longrightarrow>
     KState a = StateActive \<longrightarrow> KState b = StateActive \<longrightarrow> v = v')
   \<and> (\<forall>k v a. l k v = Some a \<longrightarrow> KeyID a = k \<and> Version a = v)"

lemma one_activeD:
  assumes "one_active l"
  shows "l k v = Some a \<Longrightarrow> l k v' = Some b \<Longrightarrow> KState a = StateActive \<Longrightarrow> KState b = StateActive \<Longrightarrow> v = v'"
    and "l k v = Some a \<Longrightarrow> KeyID a = k \<and> Version a = v"
  using assms unfolding one_active_def by blast+

lemma one_active_upd:
  assumes "one_active l" "\<And>b. x = Some b \<Longrightarrow> KeyID b = k \<and> Version b = v"
    and "\<And>b u a. x = Some b \<Longrightarrow> KState b = StateActive \<Longrightarrow> u \<noteq> v \<Longrightarrow> l k u = Some a \<Longrightarrow> KState a \<noteq> StateActive"
  shows "one_active (upd l k v x)"
proof -
  have "v1 = v2" if "upd l k v x k' v1 = Some a" "upd l k v x k' v2 = Some c" "KState a = StateActive" "KState c = StateActive"
    for k' v1 v2 a c
  proof (cases "k' = k \<and> (v1 = v \<or> v2 = v)")
    case True
    with that assms(3) show ?thesis by (auto simp: upd_def split: if_splits)
  next
    case False
    then have "upd l k v x k' v1 = l k' v1" "upd l k v x k' v2 = l k' v2" by (auto simp: upd_def)
    with that one_activeD(1) [OF assms(1)] show ?thesis by simp
  qed
  moreover have "KeyID a = k' \<and> Version a = v1" if "upd l k v x k' v1 = Some a" for k' v1 a
    using that assms(1,2) by (auto simp: upd_def one_active_def split: if_splits)
  ultimately show ?thesis unfolding one_active_def by blast
qed

lemma version_step_ids: "version_step a b \<Longrightarrow> KeyID b = KeyID a \<and> Version b = Version a
    \<and> EncryptedMaterial b = EncryptedMaterial a"
  unfolding version_step_def by (metis KeyMetadata.select_convs(1,2,7) KeyMetadata.surjective KeyMetadata.update_convs(3,11))

lemma one_active_step: "abs_step l l' \<Longrightarrow> one_active l \<Longrightarrow> one_active l'"
proof (induction rule: abs_step.induct)
  case (abs_new l k b)
  then show ?case by (intro one_active_upd) (auto simp: created_def)
next
  case (abs_move l k v a b)
  then show ?case using version_step_ids [OF abs_move(2)] by (intro one_active_upd) (auto simp: one_active_def)
next
  case (abs_gone l k v a)
  then show ?case by (intro one_active_upd) auto
next
  case (abs_rotate l k v a b)
  let ?l = "upd l k v (Some (a\<lparr>KState := StateDeactivated\<rparr>))"
  have ids: "KeyID a = k" "Version a = v" using abs_rotate by (auto simp: one_active_def)
  have one: "one_active ?l" using abs_rotate ids by (intro one_active_upd) auto
  have "KState c \<noteq> StateActive" if "?l k u = Some c" for u c
  proof (cases "u = v")
    case True with that show ?thesis by (auto simp: upd_def)
  next
    case False
    with that have "l k u = Some c" by (simp add: upd_def)
    with abs_rotate(1,2) False show ?thesis using one_activeD(1) [OF abs_rotate(6)] by blast
  qed
  with abs_rotate(3-5) show ?case by - (rule one_active_upd [OF one], auto)
qed

text \<open>The three shapes of change a transaction makes, on any outcome.\<close>

lemma RotateKey_Inr:
  assumes "RotateKey P ctx now keyID kek m r = (Inr (newMeta, dek), m', r')"
  obtains k v old material r0 where "kek = Some k" "keyID \<noteq> []"
    "meta_at (lookm m) keyID v = Some old" "KState old = StateActive"
    "newMeta = rotated_meta keyID (v + 1) material k now (RotationPeriodDays old)"
    "NewSecureBufferFromRandom (dekSizeFromKEK k) r = (Inr dek, r0)" "WrapDEK P k dek r0 = (Inr material, r')"
    "lookm m' = (set_meta (set_meta (lookm m) keyID v (Some (old\<lparr>KState := StateDeactivated\<rparr>)))
        keyID (v + 1) (Some newMeta))(latestVersionMetadataKey keyID \<mapsto> Doc (DInt (v + 1)))"
    "cache m' = cache_invalidate keyID (cache m)" "1 \<le> v"
    "\<And>n. lookm m (latestVersionMetadataKey keyID) = Some (Doc (DInt n)) \<Longrightarrow> reliable (store m) \<Longrightarrow> 0 < n \<Longrightarrow> v = n"
proof -
  obtain k s r1 where k: "kek = Some k" "keyID \<noteq> []"
    and tx: "store_WithTx ctx (rotate_tx P now keyID k) (store m) r = (Inr (newMeta, dek), s, r')"
    and m': "m' = notifyClusterIfNoTxNotifier keyID (m\<lparr>store := s, cache := cache_invalidate keyID (cache m)\<rparr>)"
    using assms by (auto simp: RotateKey_def split: if_splits option.splits prod.splits sum.splits)
  obtain s0 s1 where s0: "look s0 = lookm m" and t: "rotate_tx P now keyID k s0 r = (Inr (newMeta, dek), s1, r')"
    and s1: "look s = look s1" "\<not> aborted s1" "reliable (store m) \<Longrightarrow> reliable s0"
    by (rule WithTx_Inr [OF keeps_kind_rotate tx]) blast
  have idx: "v = n" if "fst (findLatestVersionInTx keyID s0) = Inr v" "lookm m (latestVersionMetadataKey keyID) = Some (Doc (DInt n))"
    "reliable (store m)" "0 < n" for v n
    using findLatestVersionInTx_index [of s0 keyID n] that s0 s1(3) by simp
  show thesis
    by (rule rotate_tx_Inr [OF t], rule that)
      (use k m' s0 s1 idx findLatestVersionInTx_pos in auto)
qed

lemma RotateKey_Inl:
  assumes "RotateKey P ctx now keyID kek m r = (Inl e, m', r')"
  shows "lookm m' = lookm m \<or> (\<not> is_Pg (store m) \<and> (\<exists>v old. meta_at (lookm m) keyID v = Some old
    \<and> KState old = StateActive \<and> lookm m' = set_meta (lookm m) keyID v (Some (old\<lparr>KState := StateDeactivated\<rparr>))))"
proof (cases "keyID = [] \<or> kek = None")
  case True
  with assms show ?thesis by (auto simp: RotateKey_def split: option.splits if_splits)
next
  case False
  then obtain k where k: "kek = Some k" by auto
  obtain s where tx: "store_WithTx ctx (rotate_tx P now keyID k) (store m) r = (Inl e, s, r')"
    and m': "m' = m\<lparr>store := s\<rparr>"
    using assms False k by (auto simp: RotateKey_def split: prod.splits sum.splits)
  from WithTx_Inl [OF keeps_kind_rotate tx] m' show ?thesis
    using rotate_tx_Inl [of P now keyID k "store m" r e _ r'] by auto
qed

lemma ShredKey_Inr:
  assumes "ShredKey ctx keyID v m = (Inr x, m')"
  shows "(\<exists>a. meta_at (lookm m) keyID v = Some a) \<and> lookm m' = set_meta (lookm m) keyID v None
    \<and> cache m' = cache_invalidate keyID (cache m)"
proof -
  obtain s u where tx: "store_WithTx ctx (shred_tx keyID v) (store m) () = (Inr x, s, u)"
    and m': "m' = notifyClusterIfNoTxNotifier keyID (m\<lparr>store := s, cache := cache_invalidate keyID (cache m)\<rparr>)"
    using assms by (auto simp: ShredKey_def split: prod.splits sum.splits)
  obtain s0 s1 where "look s0 = lookm m" "shred_tx keyID v s0 () = (Inr x, s1, u)" "look s = look s1"
    by (rule WithTx_Inr [OF shred_tx_kind tx]) blast
  with shred_tx_Inr [of keyID v s0 "()" x s1 u] m' show ?thesis by simp
qed

lemma ShredKey_Inl:
  assumes "ShredKey ctx keyID v m = (Inl e, m')"
  shows "lookm m' = lookm m"
proof -
  obtain s u where tx: "store_WithTx ctx (shred_tx keyID v) (store m) () = (Inl e, s, u)" and m': "m' = m\<lparr>store := s\<rparr>"
    using assms by (auto simp: ShredKey_def split: prod.splits sum.splits)
  from WithTx_Inl [OF shred_tx_kind tx] m' show ?thesis using shred_tx_Inl_mem by auto
qed

lemma SoftDeleteKey_Inr:
  assumes "SoftDeleteKey ctx now keyID v m = (Inr x, m')"
  obtains a where "meta_at (lookm m) keyID v = Some a" "KState a \<noteq> StateDestroyed" "cache m' = cache m"
    "lookm m' = (if KState a = StateSoftDeleted then lookm m
       else set_meta (lookm m) keyID v (Some (a\<lparr>KState := StateSoftDeleted, DeletedAt := now\<rparr>)))"
proof -
  obtain s u where tx: "store_WithTx ctx (softdelete_tx now keyID v) (store m) () = (Inr x, s, u)" and m': "m' = m\<lparr>store := s\<rparr>"
    using assms by (auto simp: SoftDeleteKey_def split: prod.splits)
  obtain s0 s1 where s0: "look s0 = lookm m" and t: "softdelete_tx now keyID v s0 () = (Inr x, s1, u)" and s1: "look s = look s1"
    by (rule WithTx_Inr [OF softdelete_tx_kind tx]) blast
  show thesis by (rule softdelete_tx_Inr [OF t]) (use that m' s0 s1 in auto)
qed

lemma SoftDeleteKey_Inl:
  assumes "SoftDeleteKey ctx now keyID v m = (Inl e, m')"
  shows "lookm m' = lookm m"
proof -
  obtain s u where tx: "store_WithTx ctx (softdelete_tx now keyID v) (store m) () = (Inl e, s, u)" and m': "m' = m\<lparr>store := s\<rparr>"
    using assms by (auto simp: SoftDeleteKey_def split: prod.splits)
  from WithTx_Inl [OF softdelete_tx_kind tx] m' show ?thesis using softdelete_tx_Inl by fastforce
qed

lemma RestoreKey_Inr:
  assumes "RestoreKey ctx keyID v m = (Inr x, m')"
  obtains a where "meta_at (lookm m) keyID v = Some a" "KState a \<noteq> StateDestroyed"
    "lookm m' = (if KState a = StateSoftDeleted
       then set_meta (lookm m) keyID v (Some (a\<lparr>KState := StateDeactivated, DeletedAt := 0\<rparr>)) else lookm m)"
    "cache m' = (if KState a = StateSoftDeleted then cache_invalidate keyID (cache m) else cache m)"
proof -
  obtain s c where tx: "store_WithTx ctx (restore_tx keyID v) (store m) (cache m) = (Inr x, s, c)"
    and m': "m' = notifyClusterIfNoTxNotifier keyID (m\<lparr>store := s, cache := c\<rparr>)"
    using assms by (auto simp: RestoreKey_def split: prod.splits sum.splits)
  obtain s0 s1 where s0: "look s0 = lookm m" and t: "restore_tx keyID v s0 (cache m) = (Inr x, s1, c)" and s1: "look s = look s1"
    by (rule WithTx_Inr [OF restore_tx_kind tx]) blast
  show thesis by (rule restore_tx_Inr [OF t]) (use that m' s0 s1 in auto)
qed

lemma RestoreKey_Inl:
  assumes "RestoreKey ctx keyID v m = (Inl e, m')"
  shows "lookm m' = lookm m"
proof -
  obtain s c where tx: "store_WithTx ctx (restore_tx keyID v) (store m) (cache m) = (Inl e, s, c)"
    and m': "m' = m\<lparr>store := s, cache := c\<rparr>"
    using assms by (auto simp: RestoreKey_def split: prod.splits sum.splits)
  from WithTx_Inl [OF restore_tx_kind tx] m' show ?thesis using restore_tx_Inl by fastforce
qed

section \<open>The lifecycle as a transition system\<close>

text \<open>
  Every operation of the manager, on any outcome. Creation is for names without versions: the
  manager itself does not check that, see \<open>CreateKey_overwrites\<close>. A node also sees its cache
  invalidated by notifications.
\<close>

definition fresh :: "string \<Rightarrow> Manager \<Rightarrow> bool" where
  "fresh keyID m \<longleftrightarrow> (\<forall>v. meta_at (lookm m) keyID v = None)"

inductive lc_step :: "Manager \<Rightarrow> Manager \<Rightarrow> bool" where
  step_create: "fresh keyID m \<Longrightarrow> CreateKey P now keyID kek days m r = (res, m', r') \<Longrightarrow> lc_step m m'"
| step_rotate: "RotateKey P ctx now keyID kek m r = (res, m', r') \<Longrightarrow> lc_step m m'"
| step_shred: "ShredKey ctx keyID v m = (x, m') \<Longrightarrow> lc_step m m'"
| step_softdelete: "SoftDeleteKey ctx now keyID v m = (x, m') \<Longrightarrow> lc_step m m'"
| step_restore: "RestoreKey ctx keyID v m = (x, m') \<Longrightarrow> lc_step m m'"
| step_read: "GetKeyForDecrypt now keyID v m = (g, m') \<Longrightarrow> lc_step m m'"
| step_active: "GetActiveKey now keyID m = (g, m') \<Longrightarrow> lc_step m m'"
| step_datakey: "GenerateDataKey P now keyID kek m r = (d, m', r') \<Longrightarrow> lc_step m m'"
| step_list: "ListKeyIDs m = (ids, m') \<Longrightarrow> lc_step m m'"
| step_invalidate: "lc_step m (InvalidateCache keyID m)"
| step_clear: "lc_step m (ClearCache m)"

definition lc_init :: "Manager \<Rightarrow> bool" where
  "lc_init m \<longleftrightarrow> (\<exists>s. m = NewManager s \<and> (\<forall>k v. meta_at (look s) k v = None))"

lemma ListKeyIDs_look: "ListKeyIDs m = (ids, m') \<Longrightarrow> lookm m' = lookm m"
proof -
  assume a: "ListKeyIDs m = (ids, m')"
  obtain x s where l: "list_loop (length (kvs_of (store m)) + 1) 0 [] (store m) = (x, s)" by fastforce
  then have "look s = lookm m" using list_loop_keep look_kvs by metis
  with a l show ?thesis by (auto simp: ListKeyIDs_def simp del: list_loop.simps)
qed

abbreviation versions_of :: "Manager \<Rightarrow> versions" where
  "versions_of m \<equiv> meta_at (lookm m)"

lemma meta_at_upd: "meta_at (set_meta l k v x) = upd (meta_at l) k v x"
  by (intro ext) (simp add: meta_at_set_meta upd_def)

lemma version_step_intro:
  "state_step (KState a) s \<Longrightarrow> version_step a (a\<lparr>KState := s\<rparr>)"
  "state_step (KState a) s \<Longrightarrow> version_step a (a\<lparr>KState := s, DeletedAt := d\<rparr>)"
  by (simp_all add: version_step_def)

lemma rotate_refines:
  assumes "RotateKey P ctx now keyID kek m r = (res, m', r')"
  shows "abs_step (versions_of m) (versions_of m')"
proof (cases res)
  case (Inl e)
  from RotateKey_Inl [OF assms [unfolded Inl]] show ?thesis
    by (auto simp: meta_at_upd abs_same state_step_def intro!: abs_move version_step_intro(1))
next
  case (Inr x)
  obtain nm dek where x: "x = (nm, dek)" by (cases x)
  from assms [unfolded Inr x] show ?thesis
    by (rule RotateKey_Inr) (auto simp: meta_at_upd rotated_meta_def intro!: abs_rotate)
qed

lemma shred_refines: "ShredKey ctx keyID v m = (x, m') \<Longrightarrow> abs_step (versions_of m) (versions_of m')"
  by (cases x) (auto dest!: ShredKey_Inl ShredKey_Inr simp: meta_at_upd abs_same intro: abs_gone)

lemma softdelete_refines: "SoftDeleteKey ctx now keyID v m = (x, m') \<Longrightarrow> abs_step (versions_of m) (versions_of m')"
  by (cases x) (auto dest!: SoftDeleteKey_Inl elim!: SoftDeleteKey_Inr simp: meta_at_upd abs_same state_step_def
      intro!: abs_move version_step_intro(2))

lemma restore_refines: "RestoreKey ctx keyID v m = (x, m') \<Longrightarrow> abs_step (versions_of m) (versions_of m')"
  by (cases x) (auto dest!: RestoreKey_Inl elim!: RestoreKey_Inr simp: meta_at_upd abs_same state_step_def
      intro!: abs_move version_step_intro(2))

lemma lc_step_refines: "lc_step m m' \<Longrightarrow> abs_step (versions_of m) (versions_of m')"
proof (induction rule: lc_step.induct)
  case (step_create keyID m P now kek days r res m' r')
  with CreateKey_effect [OF step_create(2)] show ?case
    by (auto simp: meta_at_upd fresh_def abs_same intro: abs_new)
qed (auto intro: rotate_refines shred_refines softdelete_refines restore_refines abs_same
    dest!: GetKeyForDecrypt_look GetActiveKey_look GenerateDataKey_look ListKeyIDs_look
    simp: abs_same InvalidateCache_def ClearCache_def)

interpretation lifecycle: invariant_system lc_init lc_step "\<lambda>m. one_active (versions_of m)"
proof
  show "one_active (versions_of m)" if "lc_init m" for m
    using that by (auto simp: lc_init_def NewManager_def one_active_def)
  show "one_active (versions_of m')" if "one_active (versions_of m)" "lc_step m m'" for m m'
    using one_active_step lc_step_refines that by blast
qed

section \<open>Reading\<close>

lemma cache_invalidate_get [simp]: "cache_get (metadataKey keyID v) (cache_invalidate keyID c) = None"
  using metadataKey_prefixes(1) [of keyID v]
  by (auto simp: cache_invalidate_def cache_get_def Let_def map_of_eq_None_iff)

lemma cache_invalidate_negative [simp]: "\<not> cache_isNegative now (metadataKey keyID v) (cache_invalidate keyID c)"
proof -
  have "map_of (filter (\<lambda>(k, _). \<not> has_prefix k (''key:'' @ keyID @ '':v:'')) (negative c)) (metadataKey keyID v) = None"
    using metadataKey_prefixes(1) [of keyID v] by (auto simp: map_of_eq_None_iff)
  then show ?thesis by (simp add: cache_isNegative_def cache_invalidate_def Let_def)
qed

definition uncached :: "time \<Rightarrow> string \<Rightarrow> int \<Rightarrow> dekCache \<Rightarrow> bool" where
  "uncached now keyID v c \<longleftrightarrow> cache_get (metadataKey keyID v) c = None \<and> \<not> cache_isNegative now (metadataKey keyID v) c"

lemma uncached_invalidate [simp]: "uncached now keyID v (cache_invalidate keyID c)"
  by (simp add: uncached_def)

lemma loadMetadata_uncached:
  assumes "uncached now keyID v (cache m)"
  shows "reliable (store m) \<Longrightarrow> meta_at (lookm m) keyID v = Some a \<Longrightarrow> fst (loadMetadata now keyID v m) = Inr a"
    and "meta_at (lookm m) keyID v = None \<Longrightarrow> \<exists>e. fst (loadMetadata now keyID v m) = Inl e"
proof -
  obtain g s where g: "store_Get (metadataKey keyID v) (store m) = (g, s)" by fastforce
  show "fst (loadMetadata now keyID v m) = Inr a" if "reliable (store m)" "meta_at (lookm m) keyID v = Some a"
  proof -
    have "lookm m (metadataKey keyID v) = Some (Doc (DMeta a))"
      using that(2) by (auto simp: meta_at_def split: option.splits val.splits lc_doc.splits)
    with reliable_ops(3) [OF that(1), of "metadataKey keyID v"] g
    have "g = Inr (Doc (DMeta a))" by simp
    with g assms show ?thesis by (simp add: loadMetadata_def uncached_def Let_def)
  qed
  show "\<exists>e. fst (loadMetadata now keyID v m) = Inl e" if "meta_at (lookm m) keyID v = None"
  proof (cases g)
    case (Inl e)
    with g assms show ?thesis by (simp add: loadMetadata_def uncached_def Let_def)
  next
    case (Inr d)
    then have "lookm m (metadataKey keyID v) = Some d" using kv.get_ok g by blast
    with that have "\<nexists>a. unmarshal_meta d = Inr a" by (auto simp: unmarshal_meta_Inr meta_at_def)
    then obtain e where "unmarshal_meta d = Inl e" by (cases "unmarshal_meta d") auto
    with Inr g assms show ?thesis by (simp add: loadMetadata_def uncached_def Let_def)
  qed
qed

lemma findLatestVersion_index:
  assumes "reliable s" "look s (latestVersionMetadataKey keyID) = Some (Doc (DInt n))" "0 < n"
  obtains s' where "findLatestVersion keyID s = (Inr n, s')" "reliable s'" "look s' = look s"
proof -
  obtain g s1 where g: "store_Get (latestVersionMetadataKey keyID) s = (g, s1)" by fastforce
  with reliable_ops(3) [OF assms(1), of "latestVersionMetadataKey keyID"] assms(2)
  have "latest_index g = Some n" using assms(3) by (auto simp: latest_index_def)
  with g that [of s1] show thesis
    using reliable_ops(4) [OF assms(1), of "latestVersionMetadataKey keyID"] kv.get_look [OF g]
    by (simp add: findLatestVersion_def getLatestVersion_def)
qed

lemma GetActiveKey_index:
  assumes "reliable (store m)" "lookm m (latestVersionMetadataKey keyID) = Some (Doc (DInt n))" "0 < n"
    and "uncached now keyID n (cache m)" "meta_at (lookm m) keyID n = Some a" "KState a = StateActive"
  shows "fst (GetActiveKey now keyID m) = Inr a"
proof -
  obtain s' where s': "findLatestVersion keyID (store m) = (Inr n, s')" "reliable s'" "look s' = lookm m"
    by (rule findLatestVersion_index [OF assms(1-3)])
  then have "fst (loadMetadata now keyID n (m\<lparr>store := s'\<rparr>)) = Inr a"
    using loadMetadata_uncached(1) [of now keyID n "m\<lparr>store := s'\<rparr>"] assms(4,5) by simp
  with s' assms(6) show ?thesis by (auto simp: GetActiveKey_def split: prod.splits)
qed

lemma GetKeyForDecrypt_uncached:
  assumes "uncached now keyID v (cache m)"
  shows "reliable (store m) \<Longrightarrow> meta_at (lookm m) keyID v = Some a \<Longrightarrow>
      KState a \<in> {StateActive, StateDeactivated, StateSoftDeleted} \<Longrightarrow> fst (GetKeyForDecrypt now keyID v m) = Inr a"
    and "meta_at (lookm m) keyID v = None \<Longrightarrow> \<exists>e. fst (GetKeyForDecrypt now keyID v m) = Inl e"
  using loadMetadata_uncached [OF assms]
  by (auto simp: GetKeyForDecrypt_def split: prod.splits sum.splits KeyState.splits)

section \<open>Properties\<close>



text \<open>
  Property C23. A successful rotation deactivates the active version, keeps its material and leaves
  it usable for decryption, and makes the new version the one that encryption uses; its stored
  material unwraps to exactly the data key the caller gets.
\<close>

theorem rotation:
  assumes "kek_ok P k" "RotateKey P ctx now keyID (Some k) m r = (Inr (newMeta, dek), m', r')"
    and "reliable (store m')"
  shows "\<exists>v old. meta_at (look (store m)) keyID v = Some old \<and> KState old = StateActive
    \<and> Version newMeta = v + 1 \<and> KState newMeta = StateActive
    \<and> fst (GetActiveKey now' keyID m') = Inr newMeta
    \<and> fst (GetKeyForDecrypt now' keyID v m') = Inr (old\<lparr>KState := StateDeactivated\<rparr>)
    \<and> (sb_data dek \<noteq> [] \<longrightarrow> UnwrapDEK P k (EncryptedMaterial newMeta) = Inr dek)"
  using assms(2)
proof (rule RotateKey_Inr, goal_cases)
  case (1 k' v old material r0)
  have pos: "0 < v + 1" using 1(10) by simp
  have new: "meta_at (lookm m') keyID (v + 1) = Some newMeta" "meta_at (lookm m') keyID v = Some (old\<lparr>KState := StateDeactivated\<rparr>)"
    and idx: "lookm m' (latestVersionMetadataKey keyID) = Some (Doc (DInt (v + 1)))"
    by (simp_all add: 1(8) meta_at_set_meta)
  have "fst (GetActiveKey now' keyID m') = Inr newMeta"
    using GetActiveKey_index [OF assms(3) idx pos] new 1(5,9) by (simp add: rotated_meta_def)
  moreover have "fst (GetKeyForDecrypt now' keyID v m') = Inr (old\<lparr>KState := StateDeactivated\<rparr>)"
    using GetKeyForDecrypt_uncached(1) [OF _ assms(3) new(2)] 1(9) by simp
  moreover have "UnwrapDEK P k (EncryptedMaterial newMeta) = Inr dek" if "sb_data dek \<noteq> []"
    using kw.unwrap_wrap_eq [of "(P, k)" dek r0 material r'] assms(1) 1(1,5,7) that by (simp add: rotated_meta_def)
  ultimately show ?case using 1(3-5) by (auto simp: rotated_meta_def)
qed

section \<open>A concrete manager\<close>

text \<open>One key created in an empty in-memory store, for the witnesses.\<close>

definition toy_kek :: KEK where
  "toy_kek = NewSoftwareKEK toy_key"

definition toy_dek :: SecureBuffer where
  "toy_dek = \<lparr>sb_data = replicate 32 0, destroyed = False\<rparr>"

definition toy_meta :: KeyMetadata where
  "toy_meta = create_meta ''k'' (replicate 12 0 @ replicate 16 0 @ replicate 32 0) toy_kek 7 0"

definition toy_m0 :: Manager where
  "toy_m0 = NewManager (Mem NewMemoryStore)"

definition toy_m1 :: Manager where
  "toy_m1 = toy_m0\<lparr>store := Mem \<lparr>data = [(metadataKey ''k'' 1, Doc (DMeta toy_meta)), (latestVersionMetadataKey ''k'', Doc (DInt 1))]\<rparr>\<rparr>"

lemma toy_kek_ok: "kek_ok toy_prims toy_kek"
  by (simp add: toy_kek_def NewSoftwareKEK_def toy_prims_ok)

lemma toy_dek_size: "dekSizeFromKEK toy_kek = 32"
  by (simp add: dekSizeFromKEK_def toy_kek_def NewSoftwareKEK_def)

lemma toy_random: "NewSecureBufferFromRandom 32 (zero_source\<lparr>pos := p\<rparr>) = (Inr toy_dek, zero_source\<lparr>pos := p + 32\<rparr>)"
  using zero_source_random [of 32 p] by (simp add: NewSecureBufferFromRandom_def toy_dek_def)

lemma toy_wrap: "WrapDEK toy_prims toy_kek toy_dek (zero_source\<lparr>pos := p\<rparr>) =
    (Inr (replicate 12 0 @ replicate 16 0 @ replicate 32 0), zero_source\<lparr>pos := p + 12\<rparr>)"
  using toy_EncryptGCM [of "replicate 32 0" p]
  by (simp add: toy_kek_def NewSoftwareKEK_def software_WrapDEK_def toy_dek_def toy_prims_def)

lemma toy_create:
  "CreateKey toy_prims 7 ''k'' (Some toy_kek) 0 toy_m0 (zero_source\<lparr>pos := 0\<rparr>) =
     (Inr (toy_meta, toy_dek), toy_m1, zero_source\<lparr>pos := 44\<rparr>)"
  using toy_random [of 0] toy_wrap [of 32]
  by (simp add: CreateKey_def quota_check_def toy_dek_size toy_m0_def toy_m1_def NewManager_def saveMetadata_def
      setLatestVersion_def mem_Put_def NewMemoryStore_def toy_meta_def [symmetric] create_meta_def Let_def)
    (simp add: toy_meta_def create_meta_def)

lemma toy_fresh: "fresh ''k'' toy_m0"
  by (simp add: fresh_def toy_m0_def NewManager_def NewMemoryStore_def meta_at_def)

lemma toy_reachable: "reachable lc_init lc_step toy_m1"
proof -
  have "reachable lc_init lc_step toy_m0"
    by (rule reachable_init, unfold lc_init_def, rule exI [of _ "Mem NewMemoryStore"])
      (simp add: toy_m0_def NewMemoryStore_def meta_at_def)
  then show ?thesis by (rule reachable_step) (rule step_create [OF toy_fresh toy_create])
qed

lemma toy_meta_at: "meta_at (lookm toy_m1) ''k'' 1 = Some toy_meta"
  by (simp add: toy_m1_def meta_at_def)



lemma toy_rotate_tx:
  "\<exists>nm s'. rotate_tx toy_prims 9 ''k'' toy_kek (store toy_m1) (zero_source\<lparr>pos := 44\<rparr>) =
     (Inr (nm, toy_dek), Mem s', zero_source\<lparr>pos := 88\<rparr>)"
proof -
  have neq: "metadataKey ''k'' 2 \<noteq> metadataKey ''k'' 1" by (simp add: metadataKey_inj)
  have act: "KState toy_meta = StateActive" by (simp add: toy_meta_def create_meta_def)
  show ?thesis
    using toy_random [of 44] toy_wrap [of 76] neq act
    by (simp add: rotate_tx_def findLatestVersionInTx_def memTx_GetForUpdate_def memTx_Get_def toy_m1_def
        latest_index_def tx_read_def memTx_Put_def toy_dek_size Let_def)
qed

lemma toy_rotate:
  "\<exists>nm m'. RotateKey toy_prims None 9 ''k'' (Some toy_kek) toy_m1 (zero_source\<lparr>pos := 44\<rparr>) =
     (Inr (nm, toy_dek), m', zero_source\<lparr>pos := 88\<rparr>) \<and> reliable (store m')"
proof -
  obtain nm s' where t: "rotate_tx toy_prims 9 ''k'' toy_kek (store toy_m1) (zero_source\<lparr>pos := 44\<rparr>) =
     (Inr (nm, toy_dek), Mem s', zero_source\<lparr>pos := 88\<rparr>)" using toy_rotate_tx by blast
  obtain d where st: "store toy_m1 = Mem d" by (simp add: toy_m1_def)
  have "store_WithTx None (rotate_tx toy_prims 9 ''k'' toy_kek) (store toy_m1) (zero_source\<lparr>pos := 44\<rparr>) =
     (Inr (nm, toy_dek), Mem s', zero_source\<lparr>pos := 88\<rparr>)"
    using t unfolding st by (simp add: mem_WithTx_def)
  then show ?thesis by (simp add: RotateKey_def notifyClusterIfNoTxNotifier_def)
qed

theorem rotation_witness:
  "\<exists>nm m' r' v old. RotateKey toy_prims None 9 ''k'' (Some toy_kek) toy_m1 (zero_source\<lparr>pos := 44\<rparr>) = (Inr (nm, toy_dek), m', r')
     \<and> kek_ok toy_prims toy_kek \<and> reliable (store m')
     \<and> meta_at (look (store toy_m1)) ''k'' v = Some old \<and> Version nm = v + 1
     \<and> fst (GetActiveKey 9 ''k'' m') = Inr nm"
proof -
  obtain nm m' where r: "RotateKey toy_prims None 9 ''k'' (Some toy_kek) toy_m1 (zero_source\<lparr>pos := 44\<rparr>) =
     (Inr (nm, toy_dek), m', zero_source\<lparr>pos := 88\<rparr>)" and rel: "reliable (store m')"
    using toy_rotate by blast
  from rotation [OF toy_kek_ok r rel, of 9] r rel toy_kek_ok show ?thesis by blast
qed

section \<open>Termination of the version search\<close>

lemma scan_versions_more:
  "fst (scan_versions n get keyID v s) \<noteq> Inl (Panic ''unreachable'') \<Longrightarrow> n \<le> m \<Longrightarrow>
   scan_versions m get keyID v s = scan_versions n get keyID v s"
proof (induction n arbitrary: m v s)
  case (Suc n)
  then obtain m' where m: "m = Suc m'" "n \<le> m'" by (cases m) auto
  obtain g s1 where g: "get (metadataKey keyID v) s = (g, s1)" by fastforce
  from Suc.prems(1) g m Suc.IH [of "v + 1" s1 m'] show ?case by (cases g) auto
qed simp

lemma scan_versions_missing:
  assumes "\<And>k s e s'. get k s = (Inl e, s') \<Longrightarrow> errors_is e ErrNotFound \<Longrightarrow> look s k = None"
    and "scan_versions n get keyID v s = (Inl e, s')" "errors_is e ErrNotFound" "1 \<le> v"
  shows "v = 1 \<and> look s (metadataKey keyID 1) = None"
proof (cases n)
  case 0
  with assms(2,3) show ?thesis by auto
next
  case (Suc m)
  have up: "scan_versions m get keyID u t = (Inl e, t') \<Longrightarrow> 1 < u \<Longrightarrow> False" for m u t t'
  proof (induction m arbitrary: u t)
    case 0
    with assms(3) show ?case by auto
  next
    case (Suc m)
    obtain g t1 where "get (metadataKey keyID u) t = (g, t1)" by fastforce
    with Suc.prems Suc.IH [of "u + 1" t1] assms(3) show ?case by (cases g) (auto split: if_splits)
  qed
  obtain g s1 where g: "get (metadataKey keyID v) s = (g, s1)" by fastforce
  show ?thesis
  proof (cases g)
    case (Inr d)
    with assms(2,4) Suc g up [of m "v + 1" s1 s'] show ?thesis by simp
  next
    case (Inl f)
    with assms(2,3) Suc g assms(1) [of "metadataKey keyID v" s f s1] show ?thesis by (auto split: if_splits)
  qed
qed

text \<open>
  Property C24. The search for the latest version ends: the loop has no bound of its own, yet more
  rounds than the store has entries never change its result. If it finds a version, that version
  and all before it are stored and the next one is not; if it reports a missing key, version 1 is
  not stored; and any other error is one of the store.
\<close>

theorem version_scan_terminates:
  assumes "length (kvs_of s) < n"
  shows "scan_versions n store_Get keyID 1 s = findLatestVersionScan keyID s
    \<and> (case fst (findLatestVersionScan keyID s) of
         Inr v \<Rightarrow> 1 \<le> v \<and> (\<forall>u. 1 \<le> u \<and> u \<le> v \<longrightarrow> look s (metadataKey keyID u) \<noteq> None) \<and> look s (metadataKey keyID (v + 1)) = None
       | Inl e \<Rightarrow> e \<noteq> Panic ''unreachable'' \<and> (errors_is e ErrNotFound \<longrightarrow> look s (metadataKey keyID 1) = None))"
proof -
  let ?n = "length (kvs_of s) + 1"
  have ok: "fst (scan_versions ?n store_Get keyID 1 s) \<noteq> Inl (Panic ''unreachable'')"
    by (rule scan_versions_enough) (auto dest: kv.get_look get_kvs kv.get_ok)
  obtain x s' where x: "scan_versions ?n store_Get keyID 1 s = (x, s')" by fastforce
  have "scan_versions n store_Get keyID 1 s = scan_versions ?n store_Get keyID 1 s"
    using scan_versions_more [OF ok, of n] assms by simp
  moreover have "1 \<le> v \<and> (\<forall>u. 1 \<le> u \<and> u \<le> v \<longrightarrow> look s (metadataKey keyID u) \<noteq> None) \<and> look s (metadataKey keyID (v + 1)) = None"
    if "x = Inr v" for v
    by (rule scan_versions_Inr [OF _ _ _ x [unfolded that]]) (auto dest: kv.get_look kv.get_ok kv.get_fail)
  moreover have "look s (metadataKey keyID 1) = None" if "x = Inl e" "errors_is e ErrNotFound" for e
    using scan_versions_missing [OF _ x [unfolded that(1)] that(2)] kv.get_fail by fastforce
  ultimately show ?thesis using ok x by (auto simp: findLatestVersionScan_def simp del: scan_versions.simps split: sum.split)
qed

theorem version_scan_terminates_witness:
  "fst (scan_versions 3 store_Get ''k'' 1 (store toy_m1)) = Inr 1 \<and> fst (findLatestVersionScan ''k'' (store toy_m1)) = Inr 1"
proof -
  have "fst (scan_versions 3 store_Get ''k'' 1 (store toy_m1)) = Inr 1"
    by (simp add: toy_m1_def mem_Get_def eval_nat_numeral metadataKey_inj)
  moreover have "length (kvs_of (store toy_m1)) < 3" by (simp add: toy_m1_def)
  ultimately show ?thesis using version_scan_terminates [of "store toy_m1" 3 "''k''"] by simp
qed

end
