(* ===== verification/LifecycleProps.thy ===== *)
theory LifecycleProps
  imports KeyLifecycle
begin

text \<open>
  Further properties of the data-key manager: atomicity and notifications on Postgres,
  shredding, creation and data keys, key listing and quota, the rotation schedule, the reaper,
  and behaviours that differ from the documentation.
\<close>

section \<open>Atomicity and notifications\<close>

lemma shred_tx_notices:
  assumes "shred_tx keyID v s u = (Inr x, s', u')" "is_Pg s" "\<not> aborted s'"
  shows "notices s' = notices s @ [keyID]"
proof -
  obtain m s1 where rd: "tx_read ''lifecycle: lock for shred'' ''lifecycle: unmarshal for shred'' (metadataKey keyID v) s = (Inr m, s1)"
    using assms by (auto simp: shred_tx_def Let_def split: prod.splits sum.splits)
  obtain d s2 s3 where p: "tx_Put (metadataKey keyID v) d s1 = (None, s2)"
    and dl: "tx_Delete (metadataKey keyID v) s2 = (None, s3)" and s': "s' = tx_notify keyID s3"
    using assms rd by (auto simp: shred_tx_def Let_def split: prod.splits option.splits)
  have "is_Pg s3" using kind_tx(1) [OF p] kind_tx(2) [OF dl] tx_read_Inr(3) [OF rd] assms(2) by simp
  then show ?thesis
    using notices_tx_notify [of s3 keyID] notices_tx(1) [OF p] notices_tx(2) [OF dl] tx_read_notices [OF rd] s' assms(3) by simp
qed

lemma notify_notices: "\<exists>ys. notices (store (notifyClusterIfNoTxNotifier k m)) = notices (store m) @ ys \<and> set ys \<subseteq> {k}"
  by (cases "store m")
    (auto simp: notifyClusterIfNoTxNotifier_def pg_NotifyInvalidation_def pool_call_def split: option.split)

lemma pg_atomic_parts:
  assumes "is_Pg (store m)"
  shows "RotateKey P ctx now keyID kek m r = (Inl e, m', r') \<Longrightarrow>
      look (store m') = look (store m) \<and> notices (store m') = notices (store m)"
    and "ShredKey ctx keyID v m = (Inl e, m') \<Longrightarrow>
      look (store m') = look (store m) \<and> notices (store m') = notices (store m)"
    and "RotateKey P ctx now keyID kek m r = (Inr x, m', r') \<Longrightarrow> keyID \<in> set (drop (length (notices (store m))) (notices (store m')))"
    and "ShredKey ctx keyID v m = (Inr y, m') \<Longrightarrow> keyID \<in> set (drop (length (notices (store m))) (notices (store m')))"
proof -
  assume a: "RotateKey P ctx now keyID kek m r = (Inl e, m', r')"
  show "look (store m') = look (store m) \<and> notices (store m') = notices (store m)"
  proof (cases "keyID = [] \<or> kek = None")
    case True
    with a show ?thesis by (auto simp: RotateKey_def split: option.splits if_splits)
  next
    case False
    then obtain k where "kek = Some k" by auto
    then obtain s where "store_WithTx ctx (rotate_tx P now keyID k) (store m) r = (Inl e, s, r')" "m' = m\<lparr>store := s\<rparr>"
      using a False by (auto simp: RotateKey_def split: prod.splits sum.splits)
    with pg_WithTx_Inl assms show ?thesis by fastforce
  qed
next
  assume a: "ShredKey ctx keyID v m = (Inl e, m')"
  then obtain s u where "store_WithTx ctx (shred_tx keyID v) (store m) () = (Inl e, s, u)" "m' = m\<lparr>store := s\<rparr>"
    by (auto simp: ShredKey_def split: prod.splits sum.splits)
  with pg_WithTx_Inl assms show "look (store m') = look (store m) \<and> notices (store m') = notices (store m)" by fastforce
next
  assume a: "RotateKey P ctx now keyID kek m r = (Inr x, m', r')"
  obtain k s where tx: "store_WithTx ctx (rotate_tx P now keyID k) (store m) r = (Inr x, s, r')"
    and m': "m' = notifyClusterIfNoTxNotifier keyID (m\<lparr>store := s, cache := cache_invalidate keyID (cache m)\<rparr>)"
    using a by (auto simp: RotateKey_def split: if_splits option.splits prod.splits sum.splits)
  obtain s0 s1 where "is_Pg s0 = is_Pg (store m)" "rotate_tx P now keyID k s0 r = (Inr x, s1, r')"
    "notices s0 = notices (store m)" "notices s = notices s1" "\<not> aborted s1"
    by (rule WithTx_Inr [OF keeps_kind_rotate tx]) blast
  then have "notices s = notices (store m) @ [keyID]" using assms by (cases x) (auto elim: rotate_tx_Inr)
  with notify_notices [of keyID "m\<lparr>store := s, cache := cache_invalidate keyID (cache m)\<rparr>"] m'
  show "keyID \<in> set (drop (length (notices (store m))) (notices (store m')))" by auto
next
  assume a: "ShredKey ctx keyID v m = (Inr y, m')"
  obtain s u where tx: "store_WithTx ctx (shred_tx keyID v) (store m) () = (Inr y, s, u)"
    and m': "m' = notifyClusterIfNoTxNotifier keyID (m\<lparr>store := s, cache := cache_invalidate keyID (cache m)\<rparr>)"
    using a by (auto simp: ShredKey_def split: prod.splits sum.splits)
  obtain s0 s1 where "is_Pg s0 = is_Pg (store m)" "shred_tx keyID v s0 () = (Inr y, s1, u)"
    "notices s0 = notices (store m)" "notices s = notices s1" "\<not> aborted s1"
    by (rule WithTx_Inr [OF shred_tx_kind tx]) blast
  then have "notices s = notices (store m) @ [keyID]" using shred_tx_notices assms by simp
  with notify_notices [of keyID "m\<lparr>store := s, cache := cache_invalidate keyID (cache m)\<rparr>"] m'
  show "keyID \<in> set (drop (length (notices (store m))) (notices (store m')))" by auto
qed


definition down_manager :: Manager where
  "down_manager = NewManager (Pg \<lparr>rows = [(metadataKey ''k'' 1, Doc (DMeta toy_meta))], notified = [], healthy = True,
     faults = (\<lambda>n. if n = 3 then Some ''connection reset'' else None), tick = 0, tx_aborted = False\<rparr>)"


section \<open>Shredding\<close>

text \<open>
  Property C16. A shredded version is gone for good on this node: its entry, material included, is
  removed from the store and from the cache, reading it or asking for it for decryption fails,
  and no other version or key changes.
\<close>

theorem shredded:
  assumes "ShredKey ctx keyID v m = (Inr x, m')"
  shows "look (store m') (metadataKey keyID v) = None
    \<and> (\<exists>e. fst (GetKeyForDecrypt now keyID v m') = Inl e) \<and> (\<exists>e. fst (GetKey now keyID v m') = Inl e)
    \<and> (\<forall>k. k \<noteq> metadataKey keyID v \<longrightarrow> look (store m') k = look (store m) k)"
proof -
  have l: "lookm m' = set_meta (lookm m) keyID v None" and c: "cache m' = cache_invalidate keyID (cache m)"
    using ShredKey_Inr [OF assms] by auto
  then have n: "meta_at (lookm m') keyID v = None" by (simp add: meta_at_set_meta)
  show ?thesis
    using GetKeyForDecrypt_uncached(2) [OF _ n] loadMetadata_uncached(2) [OF _ n] c l
    by (simp add: GetKey_def set_meta_def)
qed

theorem shredded_witness:
  "\<exists>m'. ShredKey None ''k'' 1 toy_m1 = (Inr (), m') \<and> (\<exists>e. fst (GetKeyForDecrypt 9 ''k'' 1 m') = Inl e)"
proof -
  have "\<exists>m'. ShredKey None ''k'' 1 toy_m1 = (Inr (), m')"
    by (simp add: ShredKey_def toy_m1_def mem_WithTx_def shred_tx_def tx_read_def memTx_GetForUpdate_def memTx_Get_def
        memTx_Put_def memTx_Delete_def Let_def)
  then show ?thesis using shredded by blast
qed

section \<open>Creation and data keys\<close>

lemma reliable_setLatest:
  assumes "reliable (store m)"
  shows "reliable (store (setLatestVersion keyID v m))"
    "lookm (setLatestVersion keyID v m) (latestVersionMetadataKey keyID) = Some (Doc (DInt v))"
proof -
  obtain s where p: "store_Put (latestVersionMetadataKey keyID) (Doc (DInt v)) (store m) = (None, s)"
    using reliable_ops(1) [OF assms, of "latestVersionMetadataKey keyID"] by (metis names_neq_Nil(2) prod.collapse)
  then show "lookm (setLatestVersion keyID v m) (latestVersionMetadataKey keyID) = Some (Doc (DInt v))"
    using kv.put_ok [OF p] by (simp add: setLatestVersion_def entry_def)
  show "reliable (store (setLatestVersion keyID v m))"
    using reliable_ops(2) [OF assms, of "latestVersionMetadataKey keyID"] by (simp add: setLatestVersion_def)
qed

lemma random_buffer_live: "NewSecureBufferFromRandom n r = (Inr b, r') \<Longrightarrow> \<not> destroyed b \<and> length (sb_data b) = nat n"
  by (auto simp: NewSecureBufferFromRandom_def split: prod.splits sum.splits dest: GenerateSecureRandom_length)

lemma dekSize_pos: "0 < dekSizeFromKEK k"
  by (cases k; rename_tac c; case_tac c) (simp_all add: dekSizeFromKEK_def)

lemma active_after_create:
  assumes "kek_ok P k" "CreateKey P now keyID (Some k) days m r = (Inr (meta, dek), m', r')"
    and "reliable (store m')" "uncached now' keyID 1 (cache m)"
    and "look (store m') (latestVersionMetadataKey keyID) = Some (Doc (DInt 1))"
  shows "fst (GetActiveKey now' keyID m') = Inr meta \<and> UnwrapDEK P k (EncryptedMaterial meta) = Inr dek"
  using assms(2)
proof (cases rule: CreateKey_cases)
  case (okay k' dek' material r0 m1 m2)
  have meta: "meta = create_meta keyID material k now days" "dek' = dek" "k' = k" using okay by auto
  have m2: "lookm m2 = set_meta (lookm m1) keyID 1 (Some meta)" "cache m' = cache m"
    using saveMetadata_look(1) [OF okay(7)] quota_check_look [OF okay(6)] okay(8) meta
    by (simp_all add: create_meta_def setLatestVersion_look(2))
  have "meta_at (lookm m') keyID 1 = Some meta" by (simp add: okay(8) m2 meta_at_set_meta)
  then have "fst (GetActiveKey now' keyID m') = Inr meta"
    using GetActiveKey_index [OF assms(3,5)] assms(4) m2(2) by (simp add: meta create_meta_def)
  moreover have "sb_data dek \<noteq> []"
    using random_buffer_live [OF okay(4)] dekSize_pos [of k] meta by auto
  then have "UnwrapDEK P k material = Inr dek"
    using kw.unwrap_wrap_eq [of "(P, k)"] assms(1) okay(5) meta by auto
  ultimately show ?thesis by (simp add: meta create_meta_def)
qed simp

text \<open>
  A key that CreateKey returned is the one encryption uses: on a reliable store, for a
  name the node has not cached, GetActiveKey finds exactly the returned metadata, and its
  material unwraps to the plaintext data key the caller received.
\<close>

theorem created_key_is_active:
  assumes "kek_ok P k" "CreateKey P now keyID (Some k) days m r = (Inr (meta, dek), m', r')"
    and "reliable (store m')" "uncached now' keyID 1 (cache m)"
    and "look (store m') (latestVersionMetadataKey keyID) = Some (Doc (DInt 1))"
  shows "fst (GetActiveKey now' keyID m') = Inr meta \<and> UnwrapDEK P k (EncryptedMaterial meta) = Inr dek"
  using assms by (rule active_after_create)

theorem created_key_is_active_witness:
  "fst (GetActiveKey 9 ''k'' toy_m1) = Inr toy_meta \<and> UnwrapDEK toy_prims toy_kek (EncryptedMaterial toy_meta) = Inr toy_dek"
proof (rule created_key_is_active [OF toy_kek_ok toy_create])
  show "uncached 9 ''k'' 1 (cache toy_m0)"
    by (simp add: toy_m0_def NewManager_def newDekCache_def uncached_def cache_get_def cache_isNegative_def)
qed (simp_all add: toy_m1_def)

text \<open>
  The envelope works: the ciphertext GenerateDataKey returns names a version, and
  decrypting it with the stored key of that version gives back exactly the plaintext data key. The
  store is not changed: the data key is nowhere kept.
\<close>

theorem data_key_roundtrip:
  assumes "prims_ok P" "GenerateDataKey P now keyID (Some k) m r = (Inr (plain, ct), m', r')"
  shows "look (store m') = look (store m) \<and> (\<exists>meta stored. GetActiveKey now keyID m = (Inr meta, m')
    \<and> UnwrapDEK P k (EncryptedMaterial meta) = Inr stored
    \<and> ExtractVersion ct = Inr (SafeUint32 (Version meta))
    \<and> DecryptVersioned (aes P) stored ct = Inr (plain, SafeUint32 (Version meta)))"
proof -
  obtain meta r1 stored where a: "GetActiveKey now keyID m = (Inr meta, m')"
    and b: "NewSecureBufferFromRandom (dekSizeFromKEK k) r = (Inr plain, r1)"
    and u: "UnwrapDEK P k (EncryptedMaterial meta) = Inr stored"
    and e: "EncryptVersioned (aes P) stored (SafeUint32 (Version meta)) (sb_data plain) r1 = (Inr ct, r')"
    using assms(2) by (auto simp: GenerateDataKey_def split: if_splits prod.splits sum.splits)
  have "aead_ok 32 (aes P)" using assms(1) by (simp add: prims_ok_def)
  from EncryptVersioned_DecryptVersioned [OF this e] random_buffer_live [OF b]
  have "ExtractVersion ct = Inr (SafeUint32 (Version meta))
    \<and> DecryptVersioned (aes P) stored ct = Inr (plain, SafeUint32 (Version meta))" by (cases plain) auto
  with a u GetActiveKey_look [OF a] show ?thesis by blast
qed

lemma toy_active: "GetActiveKey 9 ''k'' toy_m1 = (Inr toy_meta, toy_m1\<lparr>cache := cache_put (metadataKey ''k'' 1) toy_meta newDekCache\<rparr>)"
  by (simp add: GetActiveKey_def findLatestVersion_def getLatestVersion_def loadMetadata_def toy_m1_def toy_m0_def NewManager_def
      mem_Get_def latest_index_def newDekCache_def cache_get_def cache_isNegative_def Let_def)
    (simp add: toy_meta_def create_meta_def)

lemma toy_unwrap: "UnwrapDEK toy_prims toy_kek (EncryptedMaterial toy_meta) = Inr toy_dek"
  using kw.unwrap_wrap_eq [of "(toy_prims, toy_kek)" toy_dek] toy_wrap [of 0] toy_kek_ok
  by (simp add: toy_meta_def create_meta_def toy_dek_def)

theorem data_key_roundtrip_witness:
  "\<exists>ct m' r' v. prims_ok toy_prims
     \<and> GenerateDataKey toy_prims 9 ''k'' (Some toy_kek) toy_m1 (zero_source\<lparr>pos := 0\<rparr>) = (Inr (toy_dek, ct), m', r')
     \<and> DecryptVersioned (aes toy_prims) toy_dek ct = Inr (toy_dek, v)"
proof -
  have "\<exists>ct m' r'. GenerateDataKey toy_prims 9 ''k'' (Some toy_kek) toy_m1 (zero_source\<lparr>pos := 0\<rparr>) = (Inr (toy_dek, ct), m', r')"
    using toy_random [of 0] toy_active toy_unwrap zero_source_random [of 12 32]
    by (simp add: GenerateDataKey_def toy_dek_size EncryptVersioned_def gcmNonceSize_def gcmKeySize_def WithKey_def toy_dek_def)
  then obtain ct m' r' where g: "GenerateDataKey toy_prims 9 ''k'' (Some toy_kek) toy_m1 (zero_source\<lparr>pos := 0\<rparr>) = (Inr (toy_dek, ct), m', r')"
    by blast
  from data_key_roundtrip [OF toy_prims_ok g] toy_active toy_unwrap g toy_prims_ok show ?thesis by auto
qed

text \<open>
  Under an SM4 key-encryption key the manager makes 16-byte data keys, but data
  is encrypted with AES-256 only: GenerateDataKey fails for every key that CreateKey made
  with such a KEK.
\<close>

theorem sm4_data_key_fails:
  assumes "prims_ok P" "CreateKey P now keyID (Some (softwareKEK cmk GMSMCipher)) days m r = (Inr (meta, dek), m', r')"
    and "fst (GetActiveKey now' keyID m2) = Inr meta"
  shows "\<exists>e. fst (GenerateDataKey P now' keyID (Some (softwareKEK cmk GMSMCipher)) m2 r2) = Inl e"
  using assms(2)
proof (cases rule: CreateKey_cases)
  case (okay k' dek' material r0 m1 m3)
  let ?k = "softwareKEK cmk GMSMCipher"
  have k: "k' = ?k" "dek' = dek" "EncryptedMaterial meta = material" using okay by (auto simp: create_meta_def)
  have len: "length (sb_data dek) = 16" using random_buffer_live [OF okay(4)] k by (simp add: dekSizeFromKEK_def)
  have "sb_data dek \<noteq> []" using len by auto
  then have u: "UnwrapDEK P ?k (EncryptedMaterial meta) = Inr dek"
    using kw.unwrap_wrap_eq [of "(P, ?k)" dek r0 material r'] okay(5) k assms(1) by simp
  have enc: "\<exists>e r'. EncryptVersioned A dek v pt r0 = (Inl e, r')" for A v pt r0
    using len by (auto simp: EncryptVersioned_def WithKey_def gcmKeySize_def split: prod.splits sum.splits)
  obtain m4 where g: "GetActiveKey now' keyID m2 = (Inr meta, m4)" using assms(3) by (cases "GetActiveKey now' keyID m2") auto
  obtain x r1 where b: "NewSecureBufferFromRandom (dekSizeFromKEK ?k) r2 = (x, r1)" by fastforce
  show ?thesis
  proof (cases x)
    case (Inl e)
    with g b show ?thesis by (simp add: GenerateDataKey_def)
  next
    case (Inr plain)
    obtain e r3 where "EncryptVersioned (aes P) dek (SafeUint32 (Version meta)) (sb_data plain) r1 = (Inl e, r3)"
      using enc by blast
    with g b Inr u okay(2) show ?thesis by (simp add: GenerateDataKey_def del: UnwrapDEK.simps)
  qed
qed simp

definition toy_sm4 :: KEK where
  "toy_sm4 = softwareKEK \<lparr>sb_data = replicate 16 3, destroyed = False\<rparr> GMSMCipher"

lemma toy_sm4_create:
  "\<exists>meta dek m' r'. CreateKey toy_prims 7 ''s'' (Some toy_sm4) 0 toy_m0 (zero_source\<lparr>pos := 0\<rparr>) = (Inr (meta, dek), m', r')
     \<and> reliable (store m') \<and> look (store m') (latestVersionMetadataKey ''s'') = Some (Doc (DInt 1))
     \<and> cache m' = newDekCache"
proof -
  have "rand_Read NonceSize (zero_source\<lparr>pos := 16\<rparr>) = (Some (replicate 12 0), zero_source\<lparr>pos := 28\<rparr>)"
    by (simp add: rand_Read_def NonceSize_def zero_source_def map_replicate_const those_replicate_Some numeral_eq_Suc)
  then show ?thesis
    using zero_source_random [of 16 0]
    by (simp add: CreateKey_def quota_check_def toy_m0_def NewManager_def saveMetadata_def dekSizeFromKEK_def toy_sm4_def
        NewSecureBufferFromRandom_def software_WrapDEK_def toy_prims_def GMSM_Encrypt_def toy_aead_def
        setLatestVersion_def mem_Put_def NewMemoryStore_def Let_def create_meta_def)
qed

theorem sm4_data_key_fails_witness:
  "\<exists>meta dek m' r' e. CreateKey toy_prims 7 ''s'' (Some toy_sm4) 0 toy_m0 (zero_source\<lparr>pos := 0\<rparr>) = (Inr (meta, dek), m', r')
     \<and> fst (GetActiveKey 9 ''s'' m') = Inr meta
     \<and> fst (GenerateDataKey toy_prims 9 ''s'' (Some toy_sm4) m' r') = Inl e"
proof -
  obtain meta dek m' r' where c: "CreateKey toy_prims 7 ''s'' (Some toy_sm4) 0 toy_m0 (zero_source\<lparr>pos := 0\<rparr>) = (Inr (meta, dek), m', r')"
    and m': "reliable (store m')" "look (store m') (latestVersionMetadataKey ''s'') = Some (Doc (DInt 1))" "cache m' = newDekCache"
    using toy_sm4_create by blast
  have ok: "kek_ok toy_prims toy_sm4" by (simp add: toy_sm4_def toy_prims_ok)
  have un: "uncached 9 ''s'' 1 (cache toy_m0)"
    by (simp add: toy_m0_def NewManager_def newDekCache_def uncached_def cache_get_def cache_isNegative_def)
  have act: "fst (GetActiveKey 9 ''s'' m') = Inr meta" using active_after_create [OF ok c m'(1) un m'(2)] by blast
  from sm4_data_key_fails [OF toy_prims_ok c [unfolded toy_sm4_def] act, of r'] c act show ?thesis
    unfolding toy_sm4_def by blast
qed

section \<open>Behaviours to know about\<close>

text \<open>
  Restoring a soft-deleted current version does not make the key usable again: the
  restored version is deactivated, so RotateKey refuses to make a new active version and
  GetActiveKey refuses encryption, contrary to the advice in the documentation of RestoreKey.
\<close>

theorem restored_key_cannot_rotate:
  assumes "RestoreKey ctx keyID v m = (Inr x, m')" "meta_at (look (store m)) keyID v = Some a"
    and "KState a = StateSoftDeleted" "look (store m') (latestVersionMetadataKey keyID) = Some (Doc (DInt v))" "0 < v"
    and "reliable (store m')"
  shows "(\<exists>e. fst (RotateKey P ctx' now keyID kek m' r) = Inl e) \<and> (\<exists>e. fst (GetActiveKey now keyID m') = Inl e)"
proof -
  have l: "meta_at (lookm m') keyID v = Some (a\<lparr>KState := StateDeactivated, DeletedAt := 0\<rparr>)"
    and c: "cache m' = cache_invalidate keyID (cache m)"
    using assms(1-3) by (auto elim!: RestoreKey_Inr simp: meta_at_set_meta)
  have "\<exists>e. fst (RotateKey P ctx' now keyID kek m' r) = Inl e"
  proof (rule ccontr)
    assume "\<nexists>e. fst (RotateKey P ctx' now keyID kek m' r) = Inl e"
    then obtain nm dek m'' r' where "RotateKey P ctx' now keyID kek m' r = (Inr (nm, dek), m'', r')"
      by (cases "RotateKey P ctx' now keyID kek m' r"; cases "fst (RotateKey P ctx' now keyID kek m' r)") auto
    then show False
    proof (rule RotateKey_Inr)
      fix k u old
      assume u: "meta_at (lookm m') keyID u = Some old" "KState old = StateActive"
        "\<And>n. lookm m' (latestVersionMetadataKey keyID) = Some (Doc (DInt n)) \<Longrightarrow> reliable (store m') \<Longrightarrow> 0 < n \<Longrightarrow> u = n"
      then show False using l assms(4-6) by auto
    qed
  qed
  moreover obtain s' where s': "findLatestVersion keyID (store m') = (Inr v, s')" "reliable s'" "look s' = lookm m'"
    by (rule findLatestVersion_index [OF assms(6,4,5)])
  then have "fst (loadMetadata now keyID v (m'\<lparr>store := s'\<rparr>)) = Inr (a\<lparr>KState := StateDeactivated, DeletedAt := 0\<rparr>)"
    using loadMetadata_uncached(1) [of now keyID v "m'\<lparr>store := s'\<rparr>"] c l by simp
  with s' have "\<exists>e. fst (GetActiveKey now keyID m') = Inl e" by (auto simp: GetActiveKey_def split: prod.splits)
  ultimately show ?thesis by blast
qed

definition toy_trash :: Manager where
  "toy_trash = toy_m0\<lparr>store := Mem \<lparr>data = [(metadataKey ''k'' 1, Doc (DMeta (toy_meta\<lparr>KState := StateSoftDeleted, DeletedAt := 8\<rparr>))),
     (latestVersionMetadataKey ''k'', Doc (DInt 1))]\<rparr>\<rparr>"

theorem restored_key_cannot_rotate_witness:
  "\<exists>m'. RestoreKey None ''k'' 1 toy_trash = (Inr (), m')
     \<and> (\<exists>e. fst (RotateKey toy_prims None 9 ''k'' (Some toy_kek) m' zero_source) = Inl e)"
proof -
  have "\<exists>m'. RestoreKey None ''k'' 1 toy_trash = (Inr (), m') \<and> reliable (store m')
      \<and> look (store m') (latestVersionMetadataKey ''k'') = Some (Doc (DInt 1))"
    by (simp add: RestoreKey_def toy_trash_def toy_m0_def NewManager_def mem_WithTx_def restore_tx_def tx_read_def
        memTx_GetForUpdate_def memTx_Get_def memTx_Put_def Let_def notifyClusterIfNoTxNotifier_def)
  then obtain m' where r: "RestoreKey None ''k'' 1 toy_trash = (Inr (), m')" and m': "reliable (store m')"
      "look (store m') (latestVersionMetadataKey ''k'') = Some (Doc (DInt 1))" by blast
  have a: "meta_at (look (store toy_trash)) ''k'' 1 = Some (toy_meta\<lparr>KState := StateSoftDeleted, DeletedAt := 8\<rparr>)"
    by (simp add: toy_trash_def meta_at_def)
  from restored_key_cannot_rotate [OF r a _ m'(2) _ m'(1), of toy_prims None 9 "Some toy_kek" zero_source] r
  show ?thesis by auto
qed

text \<open>
  Soft deletion does not invalidate the cache: when the node has the current version in
  its cache as active, GetActiveKey keeps handing it out for encryption after SoftDeleteKey has
  reported success.
\<close>

theorem softdeleted_key_still_encrypts:
  assumes "SoftDeleteKey ctx now keyID v m = (Inr x, m')"
    and "cache_get (metadataKey keyID v) (cache m) = Some a" "KState a = StateActive"
    and "look (store m) (latestVersionMetadataKey keyID) = Some (Doc (DInt v))" "0 < v" "reliable (store m')"
  shows "fst (GetActiveKey now' keyID m') = Inr a"
proof -
  have c: "cache m' = cache m" and "lookm m' (latestVersionMetadataKey keyID) = Some (Doc (DInt v))"
    using assms(1,4) by (auto elim!: SoftDeleteKey_Inr simp: set_meta_def)
  then obtain s' where "findLatestVersion keyID (store m') = (Inr v, s')"
    using findLatestVersion_index [OF assms(6) _ assms(5)] by metis
  with c assms(2,3) show ?thesis by (simp add: GetActiveKey_def loadMetadata_def)
qed

theorem softdeleted_key_still_encrypts_witness:
  "\<exists>m'. SoftDeleteKey None 9 ''k'' 1 (snd (GetActiveKey 9 ''k'' toy_m1)) = (Inr (), m')
     \<and> meta_at (look (store m')) ''k'' 1 = Some (toy_meta\<lparr>KState := StateSoftDeleted, DeletedAt := 9\<rparr>)
     \<and> fst (GetActiveKey 10 ''k'' m') = Inr toy_meta"
proof -
  define m where "m = snd (GetActiveKey 9 ''k'' toy_m1)"
  have act: "KState toy_meta = StateActive" by (simp add: toy_meta_def create_meta_def)
  have m: "cache_get (metadataKey ''k'' 1) (cache m) = Some toy_meta"
    "store m = Mem \<lparr>data = [(metadataKey ''k'' 1, Doc (DMeta toy_meta)), (latestVersionMetadataKey ''k'', Doc (DInt 1))]\<rparr>"
    by (simp_all add: m_def toy_active cache_get_def cache_put_def) (simp add: toy_m1_def)
  have "\<exists>m'. SoftDeleteKey None 9 ''k'' 1 m = (Inr (), m') \<and> reliable (store m')
      \<and> meta_at (look (store m')) ''k'' 1 = Some (toy_meta\<lparr>KState := StateSoftDeleted, DeletedAt := 9\<rparr>)"
    using act by (simp add: SoftDeleteKey_def m mem_WithTx_def softdelete_tx_def tx_read_def
        memTx_GetForUpdate_def memTx_Get_def memTx_Put_def Let_def meta_at_def)
  then obtain m' where d: "SoftDeleteKey None 9 ''k'' 1 m = (Inr (), m')" "reliable (store m')"
    "meta_at (look (store m')) ''k'' 1 = Some (toy_meta\<lparr>KState := StateSoftDeleted, DeletedAt := 9\<rparr>)" by blast
  have "look (store m) (latestVersionMetadataKey ''k'') = Some (Doc (DInt 1))" by (simp add: m)
  from softdeleted_key_still_encrypts [OF d(1) m(1) act this _ d(2), of 10] d show ?thesis by (auto simp: m_def)
qed

text \<open>
  CreateKey does not look for an existing key: when it succeeds, version 1 under the name
  is the new key, whatever was stored there before, all other versions are kept, and (in memory)
  the index points back to version 1. An existing key, the witness shows, loses its material.
\<close>

theorem CreateKey_overwrites:
  assumes "CreateKey P now keyID (Some k) days m r = (Inr (meta, dek), m', r')"
  shows "meta_at (look (store m')) keyID 1 = Some meta
    \<and> (\<forall>k' v. (k', v) \<noteq> (keyID, 1) \<longrightarrow> meta_at (look (store m')) k' v = meta_at (look (store m)) k' v)
    \<and> (\<not> is_Pg (store m') \<longrightarrow> look (store m') (latestVersionMetadataKey keyID) = Some (Doc (DInt 1)))"
  using assms
proof (cases rule: CreateKey_cases)
  case (okay k' dek' material r0 m1 m2)
  have meta: "meta = create_meta keyID material k now days" "k' = k" using okay by auto
  have l2: "lookm m2 = set_meta (lookm m) keyID 1 (Some meta)"
    using saveMetadata_look(1) [OF okay(7)] quota_check_look [OF okay(6)] meta by (simp add: create_meta_def)
  have "reliable (store m2)" if "\<not> is_Pg (store m')"
    using that by (cases "store m2") (auto simp: okay(8) setLatestVersion_def split: prod.splits)
  then show ?thesis using l2 reliable_setLatest(2) [of m2 keyID 1] by (auto simp: okay(8) meta_at_set_meta)
qed simp

theorem CreateKey_overwrites_witness:
  "\<exists>meta dek m' r'. CreateKey toy_prims 9 ''k'' (Some toy_kek) 0 toy_m1 (zero_source\<lparr>pos := 0\<rparr>) = (Inr (meta, dek), m', r')
     \<and> meta_at (look (store toy_m1)) ''k'' 1 = Some toy_meta \<and> meta_at (look (store m')) ''k'' 1 = Some meta \<and> meta \<noteq> toy_meta"
proof -
  have "\<exists>meta dek m' r'. CreateKey toy_prims 9 ''k'' (Some toy_kek) 0 toy_m1 (zero_source\<lparr>pos := 0\<rparr>) = (Inr (meta, dek), m', r')
      \<and> CreatedAt meta = 9"
    using toy_random [of 0] toy_wrap [of 32]
    by (simp add: CreateKey_def quota_check_def toy_dek_size toy_m1_def toy_m0_def NewManager_def saveMetadata_def
      mem_Put_def create_meta_def Let_def)
  moreover have "CreatedAt toy_meta = 7" by (simp add: toy_meta_def create_meta_def)
  ultimately show ?thesis using CreateKey_overwrites toy_meta_at by fastforce
qed

section \<open>The rotation schedule\<close>

text \<open>
  The next rotation is due the configured number of days after now as long as that many
  days fit into a 64-bit count of nanoseconds, up to 106751 days; with 106752 days the product
  wraps around and the due time lies in the past, so the daemon rotates the key on every scan.
\<close>

theorem rotation_due_bounds:
  shows "(0 < days \<and> days \<le> 106751 \<longrightarrow> rotation_due now days = now + days * 24 * hour)
    \<and> rotation_due now 106752 < now \<and> (days \<le> 0 \<longrightarrow> isZero (rotation_due now days))"
proof -
  have "wrap64 (days * 24) = days * 24 \<and> wrap64 (days * 24 * hour) = days * 24 * hour" if "0 < days" "days \<le> 106751"
    using that by (auto intro!: wrap64_id)
  moreover have "wrap64 (wrap64 (106752 * 24) * hour) < 0"
    by (simp add: wrap64_def signed_of_int)
  ultimately show ?thesis by (auto simp: rotation_due_def isZero_def)
qed

theorem rotation_due_bounds_witness:
  "rotation_due 5 30 = 5 + 30 * 24 * hour \<and> isZero (rotation_due 5 0) \<and> rotation_due 5 106752 < 5"
  using rotation_due_bounds [of 30 5] rotation_due_bounds [of 0 5] by simp

section \<open>Listing and the quota\<close>

definition ids_of :: "lc_doc kv \<Rightarrow> string set" where
  "ids_of items = {KeyID a | a k. (k, Doc (DMeta a)) \<in> set items}"

lemma ids_of_append: "ids_of (xs @ ys) = ids_of xs \<union> ids_of ys"
  by (auto simp: ids_of_def)

lemma collect_ids:
  "set (collect_ids seen items) = set seen \<union> ids_of items" "distinct seen \<Longrightarrow> distinct (collect_ids seen items)"
proof -
  show "set (collect_ids seen items) = set seen \<union> ids_of items"
  proof (induction seen items rule: collect_ids.induct)
    case (2 seen k d items)
    have "ids_of ((k, d) # items) = (case unmarshal_meta d of Inl _ \<Rightarrow> {} | Inr a \<Rightarrow> {KeyID a}) \<union> ids_of items"
      by (cases d rule: unmarshal_meta.cases) (auto simp: ids_of_def)
    with 2 show ?case by (auto split: sum.splits)
  qed (simp add: ids_of_def)
  show "distinct seen \<Longrightarrow> distinct (collect_ids seen items)"
    by (induction seen items rule: collect_ids.induct) (auto split: sum.splits)
qed

text \<open>All entries under a prefix, in key order.\<close>

definition all_items :: "string \<Rightarrow> 'd KVStore \<Rightarrow> 'd kv" where
  "all_items pre s = map (\<lambda>k. (k, the (look s k))) (matches pre (kvs_of s))"

lemma page_items:
  assumes "store_ScanPrefixPaged ''key:'' offset 1000 s = (Inr (items, tot), s')"
  shows "items = take 1000 (drop offset (all_items ''key:'' s))" "all_items ''key:'' s' = all_items ''key:'' s"
  using ScanPrefixPaged_Inr [OF assms] by (simp_all add: no_wildcard_def all_items_def take_map drop_map look_kvs)

lemma list_loop_Inr:
  assumes "list_loop n offset seen s = (Inr ids, s')" "distinct seen"
  shows "set ids = set seen \<union> ids_of (drop offset (all_items ''key:'' s)) \<and> distinct ids"
  using assms
proof (induction n arbitrary: offset seen s)
  case (Suc n)
  let ?all = "all_items ''key:'' s"
  obtain items tot s1 where p: "store_ScanPrefixPaged ''key:'' offset 1000 s = (Inr (items, tot), s1)"
    using Suc.prems by (cases "store_ScanPrefixPaged ''key:'' offset 1000 s") (auto split: sum.splits)
  note it = page_items [OF p]
  have split: "ids_of (drop offset ?all) = ids_of items \<union> ids_of (drop (offset + 1000) ?all)"
    using append_take_drop_id [of 1000 "drop offset ?all"] it(1)
    by (metis (no_types, lifting) ids_of_append drop_drop add.commute)
  have short: "drop (offset + 1000) ?all = []" if "length items < 1000" using that it(1) by auto
  show ?case
  proof (cases "length items < 1000")
    case True
    with Suc.prems p short split collect_ids [of seen items] show ?thesis
      by (auto simp: Let_def ids_of_def split: if_splits)
  next
    case False
    then have len: "length items = 1000" "items \<noteq> []" using it(1) by auto
    with Suc.prems p have "list_loop n (offset + 1000) (collect_ids seen items) s1 = (Inr ids, s')" by (simp add: Let_def)
    from Suc.IH [OF this collect_ids(2) [OF Suc.prems(2)]] it(2) split collect_ids(1) [of seen items] show ?thesis by auto
  qed
qed simp

lemma reliable_scan:
  assumes "reliable s"
  shows "\<exists>x s'. store_ScanPrefixPaged pre offset limit s = (Inr x, s') \<and> reliable s'"
  using assms by (cases s) (auto simp: pg_ScanPrefixPaged_def pool_call_def Let_def)

lemma list_loop_reliable:
  assumes "reliable s" "offset \<le> length (all_items ''key:'' s)" "length (all_items ''key:'' s) < n + offset"
  shows "\<exists>ids s'. list_loop n offset seen s = (Inr ids, s')"
  using assms
proof (induction n arbitrary: offset seen s)
  case (Suc n)
  obtain items tot s1 where p: "store_ScanPrefixPaged ''key:'' offset 1000 s = (Inr (items, tot), s1)" and r: "reliable s1"
    using reliable_scan [OF Suc.prems(1)] by fastforce
  note it = page_items [OF p]
  show ?case
  proof (cases "length items < 1000")
    case True
    with p show ?thesis by (simp add: Let_def)
  next
    case False
    then have len: "length items = 1000" "items \<noteq> []" using it(1) by auto
    with it have "offset + 1000 \<le> length (all_items ''key:'' s1)" by auto
    then obtain ids s' where "list_loop n (offset + 1000) (collect_ids seen items) s1 = (Inr ids, s')"
      using Suc.IH [OF r, of "offset + 1000" "collect_ids seen items"] Suc.prems(3) it(2) by auto
    with p len show ?thesis by (simp add: Let_def)
  qed
qed simp

lemma all_items_length: "length (all_items pre s) \<le> length (kvs_of s)"
  using length_filter_le [of "\<lambda>k. has_prefix k pre" "map fst (kvs_of s)"] by (simp add: all_items_def matches_def)

definition stored_ids :: "Manager \<Rightarrow> string set" where
  "stored_ids m = {KeyID a | a k. look (store m) k = Some (Doc (DMeta a)) \<and> has_prefix k ''key:''}"

lemma all_items_set: "(k, d) \<in> set (all_items pre s) \<longleftrightarrow> look s k = Some d \<and> has_prefix k pre"
proof
  assume "(k, d) \<in> set (all_items pre s)"
  then have "k \<in> set (matches pre (kvs_of s))" "d = the (look s k)" by (auto simp: all_items_def)
  then show "look s k = Some d \<and> has_prefix k pre" by (auto simp: matches_set)
next
  assume a: "look s k = Some d \<and> has_prefix k pre"
  then have "k \<in> set (matches pre (kvs_of s))" by (simp add: matches_set)
  then have "(k, the (look s k)) \<in> set (all_items pre s)" by (simp add: all_items_def)
  with a show "(k, d) \<in> set (all_items pre s)" by simp
qed

lemma ids_of_all: "ids_of (all_items ''key:'' (store m)) = stored_ids m"
  by (auto simp: ids_of_def stored_ids_def all_items_set)

lemma list_loop_all:
  assumes "list_loop (length (kvs_of (store m)) + 1) 0 [] (store m) = (Inr ids, s)"
  shows "set ids = stored_ids m \<and> distinct ids"
  using list_loop_Inr [OF assms] ids_of_all [of m] by simp

text \<open>
  Listing is complete and without repetition: on success ListKeyIDs returns exactly the
  names of the keys that have a stored version, each once, however many pages the scan takes; and
  on a reliable store it always succeeds.
\<close>

theorem ListKeyIDs_spec:
  shows "(ListKeyIDs m = (Inr ids, m') \<longrightarrow> distinct ids \<and> set ids =
      {KeyID a | a k. look (store m) k = Some (Doc (DMeta a)) \<and> has_prefix k ''key:''})
    \<and> (reliable (store m) \<longrightarrow> (\<exists>ids. fst (ListKeyIDs m) = Inr ids))"
proof -
  have "set ids = stored_ids m \<and> distinct ids" if "ListKeyIDs m = (Inr ids, m')"
    using that list_loop_all [of m ids] by (auto simp: ListKeyIDs_def simp del: list_loop.simps split: prod.splits)
  moreover have "\<exists>ids. fst (ListKeyIDs m) = Inr ids" if "reliable (store m)"
    using list_loop_reliable [OF that, of 0 "length (kvs_of (store m)) + 1" "[]"] all_items_length [of "''key:''" "store m"]
    by (auto simp: ListKeyIDs_def simp del: list_loop.simps)
  ultimately show ?thesis by (auto simp: stored_ids_def)
qed

lemma toy_stored_ids: "stored_ids toy_m1 = {''k''}"
proof -
  have lk: "look (store toy_m1) k = (if k = metadataKey ''k'' 1 then Some (Doc (DMeta toy_meta))
      else if k = latestVersionMetadataKey ''k'' then Some (Doc (DInt 1)) else None)" for k
    by (simp add: toy_m1_def mem_look_map_of)
  have id: "KeyID toy_meta = ''k''" by (simp add: toy_meta_def create_meta_def)
  have "look (store toy_m1) (metadataKey ''k'' 1) = Some (Doc (DMeta toy_meta)) \<and> has_prefix (metadataKey ''k'' 1) ''key:''"
    using metadataKey_prefixes(2) by (simp add: lk)
  then have "KeyID toy_meta \<in> stored_ids toy_m1" unfolding stored_ids_def by blast
  then have up: "{KeyID toy_meta} \<subseteq> stored_ids toy_m1" by simp
  have "a = toy_meta" if "look (store toy_m1) k = Some (Doc (DMeta a))" for k a
    using that unfolding lk by (simp split: if_splits)
  then have "stored_ids toy_m1 \<subseteq> {KeyID toy_meta}" unfolding stored_ids_def by blast
  with up show ?thesis unfolding id by (rule subset_antisym [rotated])
qed

theorem ListKeyIDs_spec_witness:
  "\<exists>ids m'. ListKeyIDs toy_m1 = (Inr ids, m') \<and> set ids = {''k''}"
proof -
  have "reliable (store toy_m1)" by (simp add: toy_m1_def)
  then obtain ids m' where l: "ListKeyIDs toy_m1 = (Inr ids, m')"
    using ListKeyIDs_spec [of toy_m1] by (cases "ListKeyIDs toy_m1") auto
  with ListKeyIDs_spec [of toy_m1 ids m'] toy_stored_ids show ?thesis by (auto simp: stored_ids_def)
qed

text \<open>
  The quota holds: with a positive limit CreateKey succeeds only while fewer key names
  than the limit are stored, and a refused creation leaves the store as it was.
\<close>

theorem quota_enforced:
  assumes "0 < maxGlobalKeys m" "CreateKey P now keyID kek days m r = (res, m', r')"
  shows "(\<forall>x. res = Inr x \<longrightarrow> int (card (stored_ids m)) < maxGlobalKeys m)
    \<and> (\<forall>e. res = Inl e \<longrightarrow> look (store m') = look (store m))"
  using assms(2)
proof (cases rule: CreateKey_cases)
  case (okay k dek material r0 m1 m2)
  obtain x s where l: "list_loop (length (kvs_of (store m)) + 1) 0 [] (store m) = (x, s)" by fastforce
  with okay(6) assms(1) obtain ids where x: "x = Inr ids" "int (length ids) < maxGlobalKeys m"
    by (auto simp: quota_check_def countKeys_def simp del: list_loop.simps split: sum.splits if_splits)
  with list_loop_all [of m ids s] l have "card (stored_ids m) = length ids" by (metis distinct_card)
  with x okay(3) show ?thesis by simp
qed simp

theorem quota_enforced_witness:
  "\<exists>e m' r'. CreateKey toy_prims 9 ''b'' (Some toy_kek) 0 (SetMaxGlobalKeys 1 toy_m1) zero_source = (Inl e, m', r')"
proof -
  let ?m = "SetMaxGlobalKeys 1 toy_m1"
  have "stored_ids ?m = {''k''}" using toy_stored_ids by (simp add: SetMaxGlobalKeys_def stored_ids_def)
  then have n: "\<not> int (card (stored_ids ?m)) < maxGlobalKeys ?m" "0 < maxGlobalKeys ?m" by (simp_all add: SetMaxGlobalKeys_def)
  obtain res m' r' where c: "CreateKey toy_prims 9 ''b'' (Some toy_kek) 0 ?m zero_source = (res, m', r')"
    using prod_cases3 by blast
  from quota_enforced [OF n(2) c] n(1) obtain e where "res = Inl e" by (cases res) auto
  with c show ?thesis by blast
qed

section \<open>The reaper\<close>

definition expired :: "time \<Rightarrow> KeyMetadata \<Rightarrow> bool" where
  "expired cutoff a \<longleftrightarrow> KState a = StateSoftDeleted \<and> \<not> isZero (DeletedAt a) \<and> DeletedAt a \<le> cutoff"

lemma notify_reliable: "reliable (store m) \<Longrightarrow> reliable (store (notifyClusterIfNoTxNotifier k m))"
  by (cases "store m") (auto simp: notifyClusterIfNoTxNotifier_def pg_NotifyInvalidation_def pool_call_def)

lemma shred_tx_reliable:
  assumes "reliable s" "meta_at (look s) k v = Some a"
  shows "\<exists>s'. shred_tx k v s u = (Inr (), s', u) \<and> reliable s'"
proof -
  have "look s (metadataKey k v) = Some (Doc (DMeta a))"
    using assms(2) by (auto simp: meta_at_def split: option.splits val.splits lc_doc.splits)
  with reliable_ops(7,8) [OF assms(1), of "metadataKey k v"]
  obtain s1 where g: "tx_GetForUpdate (metadataKey k v) s = (Inr (Doc (DMeta a)), s1)" and r1: "reliable s1"
    by (cases "tx_GetForUpdate (metadataKey k v) s") auto
  obtain s2 where p: "tx_Put (metadataKey k v) (Doc (DMeta (a\<lparr>EncryptedMaterial := [], KState := StateDestroyed\<rparr>))) s1 = (None, s2)"
    and r2: "reliable s2"
    using reliable_ops(5,6) [OF r1, of "metadataKey k v" "Doc (DMeta (a\<lparr>EncryptedMaterial := [], KState := StateDestroyed\<rparr>))"]
    by (cases "tx_Put (metadataKey k v) (Doc (DMeta (a\<lparr>EncryptedMaterial := [], KState := StateDestroyed\<rparr>))) s1") auto
  obtain s3 where d: "tx_Delete (metadataKey k v) s2 = (None, s3)" and r3: "reliable s3"
    using reliable_ops(9,10) [OF r2, of "metadataKey k v"] by (cases "tx_Delete (metadataKey k v) s2") auto
  show ?thesis using g p d reliable_ops(11) [OF r3, of k] by (simp add: shred_tx_def tx_read_def Let_def)
qed

lemma ShredKey_reliable:
  assumes "reliable (store m)" "meta_at (lookm m) k v = Some a"
  obtains m' where "ShredKey None k v m = (Inr (), m')" "reliable (store m')"
    "lookm m' = (lookm m)(metadataKey k v := None)"
proof -
  obtain s where s: "store_WithTx None (shred_tx k v) (store m) () = (Inr (), s, ())" "reliable s"
    using WithTx_reliable [OF assms(1) shred_tx_kind] shred_tx_reliable assms(2) by metis
  define m' where "m' = notifyClusterIfNoTxNotifier k (m\<lparr>store := s, cache := cache_invalidate k (cache m)\<rparr>)"
  have sh: "ShredKey None k v m = (Inr (), m')" by (simp add: ShredKey_def s(1) m'_def)
  show thesis
    using that [OF sh] ShredKey_Inr [OF sh] notify_reliable [of "m\<lparr>store := s, cache := cache_invalidate k (cache m)\<rparr>" k] s(2)
    by (simp add: m'_def set_meta_def)
qed

text \<open>Entries filed under the name and version they carry.\<close>

definition filed :: "lc_doc kv \<Rightarrow> bool" where
  "filed items \<longleftrightarrow> (\<forall>k a. (k, Doc (DMeta a)) \<in> set items \<longrightarrow> k = metadataKey (KeyID a) (Version a))"

definition doomed :: "time \<Rightarrow> lc_doc kv \<Rightarrow> string set" where
  "doomed cutoff items = {k. \<exists>a. (k, Doc (DMeta a)) \<in> set items \<and> expired cutoff a}"

lemma reap_page_reliable:
  assumes "reliable (store m)" "filed items" "distinct (map fst items)" "\<forall>(k, d)\<in>set items. lookm m k = Some d"
  shows "reliable (store (snd (reap_page cutoff items m)))
    \<and> lookm (snd (reap_page cutoff items m)) = (\<lambda>k. if k \<in> doomed cutoff items then None else lookm m k)"
  using assms
proof (induction items arbitrary: m)
  case (Cons x items)
  obtain k d where x: "x = (k, d)" by (cases x)
  have prems: "filed items" "distinct (map fst items)" "k \<notin> fst ` set items" "lookm m k = Some d"
    "\<forall>(k, d)\<in>set items. lookm m k = Some d"
    using Cons.prems by (auto simp: filed_def x)
  show ?case
  proof (cases "\<exists>a. d = Doc (DMeta a) \<and> expired cutoff a")
    case False
    then have "doomed cutoff (x # items) = doomed cutoff items" by (auto simp: doomed_def x)
    moreover have "reap_page cutoff (x # items) m = reap_page cutoff items m"
      using False by (cases d rule: unmarshal_meta.cases) (auto simp: x expired_def)
    ultimately show ?thesis using Cons.IH [OF Cons.prems(1) prems(1,2,5)] by simp
  next
    case True
    then obtain a where a: "d = Doc (DMeta a)" "expired cutoff a" by blast
    have k: "k = metadataKey (KeyID a) (Version a)" using Cons.prems(2) by (auto simp: filed_def x a)
    have "meta_at (lookm m) (KeyID a) (Version a) = Some a" using prems(4) by (simp add: meta_at_def k a)
    then obtain m1 where sh: "ShredKey None (KeyID a) (Version a) m = (Inr (), m1)" "reliable (store m1)"
      "lookm m1 = (lookm m)(k := None)"
      using ShredKey_reliable [OF Cons.prems(1)] k by metis
    have "\<forall>(k', d)\<in>set items. lookm m1 k' = Some d" using prems(3,5) sh(3) by force
    note IH = Cons.IH [OF sh(2) prems(1,2) this]
    have dm: "doomed cutoff (x # items) = insert k (doomed cutoff items)" using a by (auto simp: doomed_def x)
    have "snd (reap_page cutoff (x # items) m) = snd (reap_page cutoff items m1)"
      using a sh(1) by (auto simp: x expired_def split: prod.split)
    with IH sh(3) dm show ?thesis by auto
  qed
qed (simp add: doomed_def)

lemma all_items_props:
  assumes "wf_store s" "filed (kvs_of s)"
  shows "filed (all_items pre s)" "distinct (map fst (all_items pre s))" "\<forall>(k, d)\<in>set (all_items pre s). look s k = Some d"
proof -
  have ms: "look s k \<noteq> None" if "k \<in> set (matches pre (kvs_of s))" for k using that by (simp add: matches_set)
  then show look: "\<forall>(k, d)\<in>set (all_items pre s). look s k = Some d" by (auto simp: all_items_def)
  then have "\<forall>(k, d)\<in>set (all_items pre s). (k, d) \<in> set (kvs_of s)" by (auto simp: look_kvs dest: map_of_SomeD)
  then show "filed (all_items pre s)" using assms(2) by (auto simp: filed_def)
  show "distinct (map fst (all_items pre s))"
    using assms(1) by (simp add: all_items_def comp_def matches_def wf_store_def)
qed

text \<open>
  The reaper removes exactly the expired versions: with fewer than 1000 stored entries,
  after one run on a reliable store every version that was soft-deleted at least \<open>ttl\<close> ago
  is gone and every other version is unchanged.
\<close>

theorem reaper_exact:
  assumes "reliable (store m)" "wf_store (store m)" "filed (kvs_of (store m))"
    and "length (matches ''key:'' (kvs_of (store m))) < 1000"
    and "reapExpiredSoftDeletes now ttl m = (reaped, m')"
  shows "meta_at (look (store m')) k v = (case meta_at (look (store m)) k v of None \<Rightarrow> None
     | Some a \<Rightarrow> if expired (now - ttl) a then None else Some a)"
proof -
  let ?c = "now - ttl" and ?all = "all_items ''key:'' (store m)"
  obtain items tot s1 where p: "store_ScanPrefixPaged ''key:'' 0 1000 (store m) = (Inr (items, tot), s1)" and r1: "reliable s1"
    using reliable_scan [OF assms(1)] by fastforce
  have len: "length ?all < 1000" using assms(4) by (simp add: all_items_def)
  then have items: "items = ?all" using page_items(1) [OF p] by simp
  have s1: "look s1 = look (store m)" using ScanPrefixPaged_keep [OF p] by (simp add: look_kvs)
  have "m' = (if items = [] then m\<lparr>store := s1\<rparr> else snd (reap_page ?c items (m\<lparr>store := s1\<rparr>)))"
    using assms(5) p len items by (auto simp: reapExpiredSoftDeletes_def split: prod.splits if_splits)
  moreover have "snd (reap_page ?c [] (m\<lparr>store := s1\<rparr>)) = m\<lparr>store := s1\<rparr>" by simp
  ultimately have m': "m' = snd (reap_page ?c ?all (m\<lparr>store := s1\<rparr>))" using items by auto
  have lk: "look (store m') = (\<lambda>k. if k \<in> doomed ?c ?all then None else look (store m) k)"
    using reap_page_reliable [of "m\<lparr>store := s1\<rparr>" ?all ?c] all_items_props [OF assms(2,3)] r1 s1 unfolding m' by (auto simp: fun_eq_iff)
  have "metadataKey k v \<in> doomed ?c ?all \<longleftrightarrow> (\<exists>a. look (store m) (metadataKey k v) = Some (Doc (DMeta a)) \<and> expired ?c a)"
    using metadataKey_prefixes(2) [of k v] by (simp add: doomed_def all_items_set)
  then show ?thesis by (auto simp: lk meta_at_def split: option.splits val.splits lc_doc.splits)
qed

theorem reaper_exact_witness:
  "meta_at (look (store toy_trash)) ''k'' 1 \<noteq> None
    \<and> meta_at (look (store (snd (reapExpiredSoftDeletes 100 90 toy_trash)))) ''k'' 1 = None"
proof -
  let ?a = "toy_meta\<lparr>KState := StateSoftDeleted, DeletedAt := 8\<rparr>"
  have st: "store toy_trash = Mem \<lparr>data = [(metadataKey ''k'' 1, Doc (DMeta ?a)), (latestVersionMetadataKey ''k'', Doc (DInt 1))]\<rparr>"
    by (simp add: toy_trash_def)
  have ids: "KeyID toy_meta = ''k''" "Version toy_meta = 1" by (simp_all add: toy_meta_def create_meta_def)
  have a: "meta_at (look (store toy_trash)) ''k'' 1 = Some ?a" by (simp add: st meta_at_def)
  have 1: "reliable (store toy_trash)" "wf_store (store toy_trash)" "filed (kvs_of (store toy_trash))"
    by (simp_all add: st wf_store_def filed_def ids)
  have 2: "length (matches ''key:'' (kvs_of (store toy_trash))) < 1000" by (simp add: st matches_def)
  obtain reaped m' where r: "reapExpiredSoftDeletes 100 90 toy_trash = (reaped, m')" by fastforce
  from reaper_exact [OF 1 2 r, of "''k''" 1] a r show ?thesis by (simp add: expired_def isZero_def)
qed

end
