(* ===== verification/Vault.thy ===== *)
theory Vault
  imports Shamir Kek
begin

text \<open>
  \<^verbatim>\<open>internal/seal/state.go\<close>, \<^verbatim>\<open>unsealer.go\<close> and \<^verbatim>\<open>hsm_unsealer.go\<close>: the seal
  state machine. The memory that holds key material is explicit: \<open>key_mem\<close> lists every
  SecureBuffer the vault ever owned and \<open>share_mem\<close> every share copy it ever allocated;
  \<^verbatim>\<open>masterKey\<close> and \<^verbatim>\<open>collectedShares\<close> point into them. So wiping is visible, and "no
  plaintext key is left in memory" is a statement about the whole memory. The reseal timers are
  explicit too: a goroutine of \<^verbatim>\<open>autoResealLoop\<close> is \<open>waiting\<close> in its select, then, once its
  timer case was taken, \<open>fired\<close> and about to call \<^verbatim>\<open>Seal\<close>, where cancelling no longer
  reaches it. Each method holds the write lock, so it is one atomic step. \<open>'w\<close> is the state
  outside the vault that the emergency callback changes.
\<close>

section \<open>state.go\<close>

datatype State = StateSealed | StateUnsealed | StateSealing

fun State_String :: "State \<Rightarrow> string" where
  "State_String StateSealed = ''sealed''"
| "State_String StateUnsealed = ''unsealed''"
| "State_String StateSealing = ''sealing''"

record 'w VaultState =
  vstate :: State
  key_mem :: "SecureBuffer list"
  masterKey :: "nat option"
  share_mem :: "bytes list"
  collectedShares :: "nat list"
  threshold :: int
  total :: int
  autoResealAfter :: duration
  cancelReseal :: "nat option"
  waiting :: "nat list"
  fired :: "nat list"
  next_timer :: nat
  cryptoSuite :: "Cipher option"
  emergencySealed :: bool
  onEmergencySeal :: "('w \<Rightarrow> 'w) option"

definition NewVaultState :: "int \<Rightarrow> int \<Rightarrow> duration \<Rightarrow> 'w VaultState" where
  "NewVaultState tot thr after =
     \<lparr>vstate = StateSealed, key_mem = [], masterKey = None, share_mem = [], collectedShares = [],
      threshold = thr, total = tot, autoResealAfter = after, cancelReseal = None, waiting = [],
      fired = [], next_timer = 0, cryptoSuite = None, emergencySealed = False, onEmergencySeal = None\<rparr>"

definition IsUnsealed :: "'w VaultState \<Rightarrow> bool" where
  "IsUnsealed v \<longleftrightarrow> vstate v = StateUnsealed"

definition IsSealed :: "'w VaultState \<Rightarrow> bool" where
  "IsSealed v \<longleftrightarrow> vstate v = StateSealed"

definition IsEmergencySealed :: "'w VaultState \<Rightarrow> bool" where
  "IsEmergencySealed v = emergencySealed v"

definition CollectedCount :: "'w VaultState \<Rightarrow> nat" where
  "CollectedCount v = length (collectedShares v)"

text \<open>The tail that \<^verbatim>\<open>DirectUnseal\<close> and \<^verbatim>\<open>ProvideShare\<close> share: take ownership of the
  key, switch the state, start the reseal goroutine.\<close>

definition enter_unsealed :: "SecureBuffer \<Rightarrow> 'w VaultState \<Rightarrow> 'w VaultState" where
  "enter_unsealed key v =
     (let v1 = v\<lparr>key_mem := key_mem v @ [key], masterKey := Some (length (key_mem v)),
                 vstate := StateUnsealed\<rparr>
      in if autoResealAfter v > 0
         then v1\<lparr>cancelReseal := Some (next_timer v), waiting := waiting v @ [next_timer v],
                 next_timer := next_timer v + 1\<rparr>
         else v1)"

definition DirectUnseal :: "SecureBuffer option \<Rightarrow> 'w VaultState \<Rightarrow> err option \<times> 'w VaultState" where
  "DirectUnseal mk v =
     (case mk of
        None \<Rightarrow> (Some (Msg ''seal: direct unseal with nil master key''), v)
      | Some key \<Rightarrow>
          if emergencySealed v then (Some (Msg ''seal: vault is emergency sealed, unseal refused until process restart''), v)
          else if vstate v = StateUnsealed then (Some (Msg ''seal: already unsealed''), v)
          else (None, enter_unsealed key v))"

definition MasterKeyEqual :: "'w VaultState \<Rightarrow> SecureBuffer option \<Rightarrow> bool res" where
  "MasterKeyEqual v expected =
     (case (masterKey v, expected) of
        (Some p, Some other) \<Rightarrow>
          if vstate v \<noteq> StateUnsealed then Inr False
          else WithKey (key_mem v ! p) (\<lambda>a. WithKey other (\<lambda>b.
                 Inr (if length a \<noteq> length b then False else a = b)))
      | _ \<Rightarrow> Inr False)"

definition zeroed :: "bytes \<Rightarrow> bytes" where
  "zeroed bs = replicate (length bs) 0"

text \<open>\<^verbatim>\<open>clear\<close> on every collected copy, then \<^verbatim>\<open>collectedShares = nil\<close>.\<close>

definition wipeCollectedShares :: "'w VaultState \<Rightarrow> 'w VaultState" where
  "wipeCollectedShares v =
     v\<lparr>share_mem := fold (\<lambda>i m. m[i := zeroed (m ! i)]) (collectedShares v) (share_mem v),
       collectedShares := []\<rparr>"

text \<open>The copy of the submitted share that joins the pool.\<close>

definition pool_share :: "bytes \<Rightarrow> 'w VaultState \<Rightarrow> 'w VaultState" where
  "pool_share share v = v\<lparr>share_mem := share_mem v @ [share],
     collectedShares := collectedShares v @ [length (share_mem v)]\<rparr>"

definition ProvideShare :: "bytes \<Rightarrow> 'w VaultState \<Rightarrow> (bool \<times> err option) \<times> 'w VaultState" where
  "ProvideShare share v =
     (if share = [] then ((False, Some (Msg ''seal: empty share'')), v)
      else if emergencySealed v then
        ((False, Some (Msg ''seal: vault is emergency sealed, all operations refused until process restart'')), v)
      else if vstate v = StateUnsealed then
        ((True, Some (Msg ''seal: already unsealed, reject extra share'')), v)
      else
        let v1 = pool_share share v
        in if int (length (collectedShares v1)) < threshold v1 then ((False, None), v1)
           else case CombineWithThreshold (map ((!) (share_mem v1)) (collectedShares v1)) (threshold v1) of
               Inl e \<Rightarrow> ((False, Some (Wrap ''seal: combine shares'' e)), wipeCollectedShares v1)
             | Inr combined \<Rightarrow> ((True, None), wipeCollectedShares (enter_unsealed combined v1)))"

text \<open>Steps that \<^verbatim>\<open>Seal\<close> and \<^verbatim>\<open>EmergencySeal\<close> share: calling the cancel function ends
  the goroutine that still waits, wiping the master key destroys its buffer in place.\<close>

definition cancel_timer :: "'w VaultState \<Rightarrow> 'w VaultState" where
  "cancel_timer v = (case cancelReseal v of None \<Rightarrow> v
     | Some t \<Rightarrow> v\<lparr>waiting := filter (\<lambda>u. u \<noteq> t) (waiting v), cancelReseal := None\<rparr>)"

definition wipe_master :: "'w VaultState \<Rightarrow> 'w VaultState" where
  "wipe_master v = (case masterKey v of None \<Rightarrow> v
     | Some p \<Rightarrow> v\<lparr>key_mem := (key_mem v)[p := Wipe (key_mem v ! p)], masterKey := None\<rparr>)"

definition Seal :: "'w VaultState \<Rightarrow> 'w VaultState" where
  "Seal v =
     (if vstate v = StateSealed then v
      else (wipeCollectedShares (wipe_master (cancel_timer (v\<lparr>vstate := StateSealing\<rparr>))))
             \<lparr>vstate := StateSealed\<rparr>)"

definition EmergencySeal :: "'w VaultState \<Rightarrow> 'w \<Rightarrow> 'w VaultState \<times> 'w" where
  "EmergencySeal v w =
     (let v1 = wipeCollectedShares (wipe_master (cancel_timer
                 (v\<lparr>emergencySealed := True, vstate := StateSealing\<rparr>)));
          w' = (case onEmergencySeal v1 of None \<Rightarrow> w | Some cb \<Rightarrow> cb w)
      in (v1\<lparr>vstate := StateSealed\<rparr>, w'))"

definition SetEmergencySealCallback :: "('w \<Rightarrow> 'w) option \<Rightarrow> 'w VaultState \<Rightarrow> 'w VaultState" where
  "SetEmergencySealCallback cb v = v\<lparr>onEmergencySeal := cb\<rparr>"

definition SetCryptoSuite :: "Cipher option \<Rightarrow> 'w VaultState \<Rightarrow> 'w VaultState" where
  "SetCryptoSuite suite v = v\<lparr>cryptoSuite := suite\<rparr>"

text \<open>\<^verbatim>\<open>autoResealLoop\<close>: the select takes the timer case while the context is live, and then
  the goroutine calls \<^verbatim>\<open>Seal\<close>.\<close>

definition timer_fires :: "nat \<Rightarrow> 'w VaultState \<Rightarrow> 'w VaultState option" where
  "timer_fires t v = (if t \<in> set (waiting v)
     then Some (v\<lparr>waiting := filter (\<lambda>u. u \<noteq> t) (waiting v), fired := fired v @ [t]\<rparr>) else None)"

definition timer_seals :: "nat \<Rightarrow> 'w VaultState \<Rightarrow> 'w VaultState option" where
  "timer_seals t v = (if t \<in> set (fired v)
     then Some (Seal (v\<lparr>fired := filter (\<lambda>u. u \<noteq> t) (fired v)\<rparr>)) else None)"

definition MasterKeyRef :: "'w VaultState \<Rightarrow> (SecureBuffer \<Rightarrow> 'a res) \<Rightarrow> 'a res" where
  "MasterKeyRef v action =
     (case masterKey v of
        Some p \<Rightarrow> if vstate v \<noteq> StateUnsealed then Inl (Msg ''seal: vault is sealed, master key unavailable'')
          else action (key_mem v ! p)
      | None \<Rightarrow> Inl (Msg ''seal: vault is sealed, master key unavailable''))"

definition getKEK :: "'w VaultState \<Rightarrow> SecureBuffer \<Rightarrow> KEK" where
  "getKEK v mk = (case cryptoSuite v of
       Some suite \<Rightarrow> NewSoftwareKEKWithSuite mk suite
     | None \<Rightarrow> NewSoftwareKEK mk)"

text \<open>\<^verbatim>\<open>KEKRef\<close> runs the action with the KEK; here it yields the KEK or the refusal.\<close>

definition KEKRef :: "'w VaultState \<Rightarrow> KEK res" where
  "KEKRef v =
     (case masterKey v of
        Some p \<Rightarrow> if vstate v \<noteq> StateUnsealed then Inl (Msg ''seal: vault is sealed, kek unavailable'')
          else Inr (getKEK v (key_mem v ! p))
      | None \<Rightarrow> Inl (Msg ''seal: vault is sealed, kek unavailable''))"

section \<open>hsm_unsealer.go\<close>

record HSMUnsealer =
  backend :: CryptoBackend
  session :: bool

definition NewHSMUnsealer :: "CryptoBackend \<Rightarrow> HSMUnsealer" where
  "NewHSMUnsealer b = \<lparr>backend = b, session = True\<rparr>"

definition hsm_IsSealed :: "HSMUnsealer \<Rightarrow> bool" where
  "hsm_IsSealed h = (\<not> session h)"

definition hsm_IsEmergencySealed :: "HSMUnsealer \<Rightarrow> bool" where
  "hsm_IsEmergencySealed h = False"

definition hsm_ProvideShare :: "bytes \<Rightarrow> HSMUnsealer \<Rightarrow> (bool \<times> err option) \<times> HSMUnsealer" where
  "hsm_ProvideShare share h = ((False, Some (Msg ''seal: HSM mode does not use Shamir shares'')), h)"

definition hsm_MasterKeyRef :: "HSMUnsealer \<Rightarrow> (SecureBuffer \<Rightarrow> 'a res) \<Rightarrow> 'a res" where
  "hsm_MasterKeyRef h action = Inl (Msg ''seal: HSM mode does not expose plaintext master key; use KEKRef instead'')"

definition hsm_KEKRef :: "HSMUnsealer \<Rightarrow> KEK res" where
  "hsm_KEKRef h = (if \<not> session h then Inl (Msg ''seal: HSM session not established, kek unavailable'')
     else Inr (hsmKEK (backend h)))"

definition hsm_BackendRef :: "HSMUnsealer \<Rightarrow> CryptoBackend res" where
  "hsm_BackendRef h = (if \<not> session h then Inl (Msg ''seal: HSM session not established'')
     else Inr (backend h))"

definition hsm_Seal :: "HSMUnsealer \<Rightarrow> HSMUnsealer" where
  "hsm_Seal h = h\<lparr>session := False\<rparr>"

definition hsm_EmergencySeal :: "HSMUnsealer \<Rightarrow> HSMUnsealer" where
  "hsm_EmergencySeal h = hsm_Seal h"

definition hsm_State :: "HSMUnsealer \<Rightarrow> State" where
  "hsm_State h = (if session h then StateUnsealed else StateSealed)"

section \<open>The step relation\<close>

text \<open>One rule per method and per move of a reseal goroutine; the state is the vault and the
  world the emergency callback acts on. Callers of \<^verbatim>\<open>DirectUnseal\<close> hand over a live buffer.\<close>

inductive vault_step :: "'w VaultState \<times> 'w \<Rightarrow> 'w VaultState \<times> 'w \<Rightarrow> bool" where
  step_DirectUnseal: "(\<forall>k. mk = Some k \<longrightarrow> \<not> destroyed k) \<Longrightarrow> vault_step (v, w) (snd (DirectUnseal mk v), w)"
| step_ProvideShare: "vault_step (v, w) (snd (ProvideShare s v), w)"
| step_Seal: "vault_step (v, w) (Seal v, w)"
| step_EmergencySeal: "vault_step (v, w) (EmergencySeal v w)"
| step_SetCallback: "vault_step (v, w) (SetEmergencySealCallback cb v, w)"
| step_SetSuite: "vault_step (v, w) (SetCryptoSuite c v, w)"
| step_timer_fires: "timer_fires t v = Some v' \<Longrightarrow> vault_step (v, w) (v', w)"
| step_timer_seals: "timer_seals t v = Some v' \<Longrightarrow> vault_step (v, w) (v', w)"
| step_world: "vault_step (v, w) (v, w')"

definition vault_init :: "'w VaultState \<times> 'w \<Rightarrow> bool" where
  "vault_init s \<longleftrightarrow> (\<exists>tot thr after. fst s = NewVaultState tot thr after)"

text \<open>No byte other than zero.\<close>

definition clean :: "bytes \<Rightarrow> bool" where
  "clean bs \<longleftrightarrow> set bs \<subseteq> {0}"

definition keys_inv :: "'w VaultState \<Rightarrow> bool" where
  "keys_inv v \<longleftrightarrow>
     (vstate v = StateSealed \<and> masterKey v = None \<or>
      vstate v = StateUnsealed \<and> (\<exists>p<length (key_mem v). masterKey v = Some p \<and> \<not> destroyed (key_mem v ! p))) \<and>
     (\<forall>i<length (key_mem v). masterKey v \<noteq> Some i \<longrightarrow>
        destroyed (key_mem v ! i) \<and> clean (sb_data (key_mem v ! i)))"

definition shares_inv :: "'w VaultState \<Rightarrow> bool" where
  "shares_inv v \<longleftrightarrow>
     set (collectedShares v) \<subseteq> {..<length (share_mem v)} \<and>
     (\<forall>i<length (share_mem v). i \<notin> set (collectedShares v) \<longrightarrow> clean (share_mem v ! i)) \<and>
     (0 < threshold v \<longrightarrow> int (length (collectedShares v)) < threshold v)"

definition emergency_inv :: "'w VaultState \<Rightarrow> bool" where
  "emergency_inv v \<longleftrightarrow> (emergencySealed v \<longrightarrow> vstate v = StateSealed \<and> collectedShares v = [])"

definition timers_inv :: "'w VaultState \<Rightarrow> bool" where
  "timers_inv v \<longleftrightarrow>
     (\<forall>t. cancelReseal v = Some t \<longrightarrow> vstate v = StateUnsealed \<and> t \<in> set (waiting v) \<union> set (fired v)) \<and>
     (0 < autoResealAfter v \<longrightarrow> vstate v = StateUnsealed \<longrightarrow> cancelReseal v \<noteq> None) \<and>
     (\<forall>t\<in>set (waiting v). cancelReseal v = Some t)"

definition vault_inv :: "'w VaultState \<times> 'w \<Rightarrow> bool" where
  "vault_inv s \<longleftrightarrow> keys_inv (fst s) \<and> shares_inv (fst s) \<and> emergency_inv (fst s) \<and> timers_inv (fst s)"

lemma zeroed_zeroed [simp]: "zeroed (zeroed bs) = zeroed bs"
  by (simp add: zeroed_def)

lemma fold_zero_length [simp]: "length (fold (\<lambda>i m. m[i := zeroed (m ! i)]) ks m) = length m"
  by (induction ks arbitrary: m) auto

lemma fold_zero_nth:
  "j < length m \<Longrightarrow> fold (\<lambda>i m. m[i := zeroed (m ! i)]) ks m ! j =
     (if j \<in> set ks then zeroed (m ! j) else m ! j)"
proof (induction ks arbitrary: m)
  case (Cons a ks)
  then show ?case by (cases "a = j") auto
qed simp

lemma clean_zeroed [simp]: "clean (zeroed bs)"
  by (auto simp: clean_def zeroed_def)

lemma Wipe_destroyed [simp]: "destroyed (Wipe b)"
  by (simp add: Wipe_def)

lemma Wipe_clean [simp]: "\<not> destroyed b \<Longrightarrow> clean (sb_data (Wipe b))"
  by (auto simp: Wipe_def clean_def)

lemma Combine_live: "CombineWithThreshold ss t = Inr b \<Longrightarrow> \<not> destroyed b"
  by (auto simp: CombineWithThreshold_def Combine_def bindR_eq_Inr Let_def NewSecureBuffer_def split: if_splits)

lemmas vault_helpers = enter_unsealed_def pool_share_def wipeCollectedShares_def cancel_timer_def
  wipe_master_def Let_def

text \<open>The state changes every operation is made of, and what each keeps.\<close>

lemma enter_unsealed_inv:
  assumes "vstate v = StateSealed" "\<not> emergencySealed v" "\<not> destroyed key"
  shows "keys_inv v \<Longrightarrow> keys_inv (enter_unsealed key v)"
    "timers_inv v \<Longrightarrow> timers_inv (enter_unsealed key v)"
    "shares_inv (enter_unsealed key v) = shares_inv v"
    "emergency_inv (enter_unsealed key v)"
  using assms
  by (auto simp: keys_inv_def timers_inv_def shares_inv_def emergency_inv_def enter_unsealed_def Let_def nth_append)

lemma wipe_shares_inv:
  assumes "set (collectedShares v) \<subseteq> {..<length (share_mem v)}"
    "\<forall>i<length (share_mem v). i \<notin> set (collectedShares v) \<longrightarrow> clean (share_mem v ! i)"
  shows "shares_inv (wipeCollectedShares v)" "keys_inv (wipeCollectedShares v) = keys_inv v"
    "timers_inv (wipeCollectedShares v) = timers_inv v"
    "emergency_inv v \<Longrightarrow> emergency_inv (wipeCollectedShares v)"
  using assms
  by (auto simp: keys_inv_def timers_inv_def shares_inv_def emergency_inv_def wipeCollectedShares_def fold_zero_nth)

lemma pool_share_inv:
  assumes "shares_inv v"
  shows "set (collectedShares (pool_share s v)) \<subseteq> {..<length (share_mem (pool_share s v))}"
    "\<forall>i<length (share_mem (pool_share s v)). i \<notin> set (collectedShares (pool_share s v)) \<longrightarrow>
       clean (share_mem (pool_share s v) ! i)"
    "keys_inv (pool_share s v) = keys_inv v" "timers_inv (pool_share s v) = timers_inv v"
    "\<not> emergencySealed v \<Longrightarrow> emergency_inv (pool_share s v)"
  using assms
  by (auto simp: keys_inv_def timers_inv_def shares_inv_def emergency_inv_def pool_share_def nth_append
      less_Suc_eq dest!: subsetD)

lemma DirectUnseal_inv:
  assumes "vault_inv (v, w)" "\<forall>k. mk = Some k \<longrightarrow> \<not> destroyed k"
  shows "vault_inv (snd (DirectUnseal mk v), w)"
proof -
  have "vstate v = StateSealed" if "vstate v \<noteq> StateUnsealed"
    using assms(1) that by (auto simp: vault_inv_def keys_inv_def)
  then show ?thesis
    using assms enter_unsealed_inv [of v]
    by (auto simp: DirectUnseal_def vault_inv_def split: option.split)
qed

lemma pool_share_simps [simp]:
  "vstate (pool_share s v) = vstate v" "emergencySealed (pool_share s v) = emergencySealed v"
  "threshold (pool_share s v) = threshold v" "length (collectedShares (pool_share s v)) = Suc (length (collectedShares v))"
  by (simp_all add: pool_share_def)

lemma enter_unsealed_simps [simp]:
  "share_mem (enter_unsealed k v) = share_mem v" "collectedShares (enter_unsealed k v) = collectedShares v"
  by (simp_all add: enter_unsealed_def Let_def)

lemma ProvideShare_inv:
  assumes inv: "vault_inv (v, w)"
  shows "vault_inv (snd (ProvideShare s v), w)"
proof (cases "s = [] \<or> emergencySealed v \<or> vstate v = StateUnsealed")
  case True
  with inv show ?thesis by (auto simp: ProvideShare_def)
next
  case False
  define v1 where "v1 = pool_share s v"
  have st: "vstate v = StateSealed" using inv False by (auto simp: vault_inv_def keys_inv_def)
  note pool = pool_share_inv [of v s, folded v1_def]
  have sh: "shares_inv v" and k: "keys_inv v1" and t: "timers_inv v1" and e: "emergency_inv v1"
    using inv False pool by (auto simp: vault_inv_def)
  note wipe = wipe_shares_inv [of v1, OF pool(1,2) [OF sh]]
  show ?thesis
  proof (cases "int (length (collectedShares v1)) < threshold v1")
    case True
    then have "shares_inv v1" using pool(1,2) [OF sh] by (simp add: shares_inv_def)
    with True False k t e show ?thesis
      by (simp add: ProvideShare_def vault_inv_def v1_def [symmetric] Let_def)
  next
    case small: False
    show ?thesis
    proof (cases "CombineWithThreshold (map ((!) (share_mem v1)) (collectedShares v1)) (threshold v1)")
      case (Inl err)
      with False small k t e wipe show ?thesis
        by (simp add: ProvideShare_def vault_inv_def v1_def [symmetric] Let_def)
    next
      case (Inr key)
      have live: "\<not> destroyed key" using Combine_live [OF Inr] .
      have st1: "vstate v1 = StateSealed" "\<not> emergencySealed v1" using st False by (simp_all add: v1_def)
      note ent = enter_unsealed_inv [OF st1 live]
      note wipe' = wipe_shares_inv [of "enter_unsealed key v1", simplified, OF pool(1,2) [OF sh]]
      show ?thesis using False small Inr ent k t wipe'
        by (simp add: ProvideShare_def vault_inv_def v1_def [symmetric] Let_def)
    qed
  qed
qed

text \<open>What \<^verbatim>\<open>Seal\<close> and \<^verbatim>\<open>EmergencySeal\<close> do before they set the final state.\<close>

definition shut :: "'w VaultState \<Rightarrow> 'w VaultState" where
  "shut v = (wipeCollectedShares (wipe_master (cancel_timer v)))\<lparr>vstate := StateSealed\<rparr>"

lemma shut_inv:
  assumes "keys_inv v" "shares_inv v" "timers_inv v"
  shows "keys_inv (shut v)" "shares_inv (shut v)" "emergency_inv (shut v)" "timers_inv (shut v)"
proof -
  show "keys_inv (shut v)"
    using assms(1) by (auto simp: keys_inv_def shut_def vault_helpers nth_list_update split: option.split)
  show "shares_inv (shut v)"
    using assms(2) by (auto simp: shares_inv_def shut_def vault_helpers fold_zero_nth split: option.split)
  show "emergency_inv (shut v)" by (simp add: emergency_inv_def shut_def wipeCollectedShares_def)
  show "timers_inv (shut v)"
    using assms(3) by (auto simp: timers_inv_def shut_def vault_helpers split: option.split)
qed

lemma Seal_shut: "Seal v = (if vstate v = StateSealed then v else shut v)"
  by (simp add: Seal_def shut_def vault_helpers split: option.split)

lemma EmergencySeal_shut: "fst (EmergencySeal v w) = (shut v)\<lparr>emergencySealed := True\<rparr>"
  by (simp add: EmergencySeal_def shut_def vault_helpers split: option.split)

lemma Seal_inv: "vault_inv (v, w) \<Longrightarrow> vault_inv (Seal v, w)"
  by (simp add: Seal_shut vault_inv_def shut_inv)

lemma shut_simps: "vstate (shut v) = StateSealed" "collectedShares (shut v) = []"
  by (simp_all add: shut_def wipeCollectedShares_def)

lemma frame_inv [simp]:
  "keys_inv (v\<lparr>emergencySealed := e\<rparr>) = keys_inv v" "shares_inv (v\<lparr>emergencySealed := e\<rparr>) = shares_inv v"
  "timers_inv (v\<lparr>emergencySealed := e\<rparr>) = timers_inv v"
  "keys_inv (v\<lparr>onEmergencySeal := cb\<rparr>) = keys_inv v" "shares_inv (v\<lparr>onEmergencySeal := cb\<rparr>) = shares_inv v"
  "timers_inv (v\<lparr>onEmergencySeal := cb\<rparr>) = timers_inv v" "emergency_inv (v\<lparr>onEmergencySeal := cb\<rparr>) = emergency_inv v"
  "keys_inv (v\<lparr>cryptoSuite := c\<rparr>) = keys_inv v" "shares_inv (v\<lparr>cryptoSuite := c\<rparr>) = shares_inv v"
  "timers_inv (v\<lparr>cryptoSuite := c\<rparr>) = timers_inv v" "emergency_inv (v\<lparr>cryptoSuite := c\<rparr>) = emergency_inv v"
  "keys_inv (v\<lparr>waiting := ws\<rparr>) = keys_inv v" "shares_inv (v\<lparr>waiting := ws\<rparr>) = shares_inv v"
  "emergency_inv (v\<lparr>waiting := ws\<rparr>) = emergency_inv v"
  "keys_inv (v\<lparr>fired := fs\<rparr>) = keys_inv v" "shares_inv (v\<lparr>fired := fs\<rparr>) = shares_inv v"
  "emergency_inv (v\<lparr>fired := fs\<rparr>) = emergency_inv v"
  by (simp_all add: keys_inv_def shares_inv_def timers_inv_def emergency_inv_def)

lemma EmergencySeal_inv: "vault_inv (v, w) \<Longrightarrow> vault_inv (EmergencySeal v w)"
  using shut_inv [of v] shut_simps [of v]
  by (simp add: EmergencySeal_shut vault_inv_def emergency_inv_def)

lemma timer_fires_inv: "vault_inv (v, w) \<Longrightarrow> timer_fires t v = Some v' \<Longrightarrow> vault_inv (v', w)"
  by (auto simp: timer_fires_def vault_inv_def timers_inv_def split: if_splits)

lemma timers_inv_drop_fired:
  "timers_inv v \<Longrightarrow> cancelReseal v = None \<Longrightarrow> timers_inv (v\<lparr>fired := fs\<rparr>)"
  by (simp add: timers_inv_def)

lemma timer_seals_eq:
  "timer_seals t v = Some v' \<Longrightarrow> v' = (Seal v)\<lparr>fired := filter (\<lambda>u. u \<noteq> t) (fired v)\<rparr>"
  by (auto simp: timer_seals_def Seal_shut shut_def vault_helpers split: option.splits if_splits)

lemma Seal_no_timer: "vault_inv (v, w) \<Longrightarrow> cancelReseal (Seal v) = None"
  by (cases "cancelReseal v")
    (auto simp: Seal_shut shut_def vault_helpers vault_inv_def timers_inv_def split: option.splits)

lemma timer_seals_inv: "vault_inv (v, w) \<Longrightarrow> timer_seals t v = Some v' \<Longrightarrow> vault_inv (v', w)"
  using Seal_inv [of v w] Seal_no_timer [of v w]
  by (auto dest!: timer_seals_eq simp: vault_inv_def timers_inv_drop_fired)

interpretation vault: invariant_system vault_init vault_step vault_inv
proof
  fix s :: "'w VaultState \<times> 'w" assume "vault_init s"
  then show "vault_inv s"
    by (auto simp: vault_init_def vault_inv_def NewVaultState_def keys_inv_def shares_inv_def emergency_inv_def timers_inv_def)
next
  fix s s' :: "'w VaultState \<times> 'w" assume "vault_inv s" "vault_step s s'"
  from this(2,1) show "vault_inv s'"
  proof cases
    case (step_SetCallback v w cb)
    with \<open>vault_inv s\<close> show ?thesis by (simp add: vault_inv_def SetEmergencySealCallback_def)
  next
    case (step_SetSuite v w c)
    with \<open>vault_inv s\<close> show ?thesis by (simp add: vault_inv_def SetCryptoSuite_def)
  next
    case (step_world v w w')
    with \<open>vault_inv s\<close> show ?thesis by (simp add: vault_inv_def)
  qed (use \<open>vault_inv s\<close> in \<open>auto intro: DirectUnseal_inv ProvideShare_inv Seal_inv EmergencySeal_inv
    timer_fires_inv timer_seals_inv\<close>)
qed

section \<open>The Unsealer interface\<close>

text \<open>
  What the API layer relies on, whichever unsealer is configured: a KEK is available exactly
  when the unsealer is not sealed, and sealing takes it away.
\<close>

locale unsealer =
  fixes good :: "'s \<Rightarrow> bool"
    and sealed :: "'s \<Rightarrow> bool"
    and kek_ref :: "'s \<Rightarrow> KEK res"
    and seal :: "'s \<Rightarrow> 's"
    and status :: "'s \<Rightarrow> State"
  assumes good_seal: "good s \<Longrightarrow> good (seal s)"
    and sealed_seal: "good s \<Longrightarrow> sealed (seal s)"
    and kek_available: "good s \<Longrightarrow> sealed s \<longleftrightarrow> (\<exists>e. kek_ref s = Inl e)"
    and status_sealed: "good s \<Longrightarrow> status s = (if sealed s then StateSealed else StateUnsealed)"
begin

lemma seal_refuses: "good s \<Longrightarrow> (\<exists>e. kek_ref (seal s) = Inl e) \<and> status (seal s) = StateSealed"
  using good_seal kek_available sealed_seal status_sealed by simp

lemma seal_twice: "good s \<Longrightarrow> sealed (seal (seal s))"
  using good_seal sealed_seal by blast

end

text \<open>An unsealer whose emergency seal cannot be undone by submitting shares.\<close>

locale emergency_unsealer = unsealer good sealed kek_ref seal status
  for good :: "'s \<Rightarrow> bool" and sealed kek_ref seal status +
  fixes emergency :: "'s \<Rightarrow> 's"
    and provide :: "bytes \<Rightarrow> 's \<Rightarrow> (bool \<times> err option) \<times> 's"
  assumes good_emergency: "good s \<Longrightarrow> good (emergency s)"
    and sealed_emergency: "good s \<Longrightarrow> sealed (emergency s)"
    and provide_emergency: "good s \<Longrightarrow> snd (provide x (emergency s)) = emergency s"
    and provide_refused: "good s \<Longrightarrow> fst (fst (provide x (emergency s))) = False \<and> snd (fst (provide x (emergency s))) \<noteq> None"
begin

lemma emergency_stays:
  "good s \<Longrightarrow> fold (\<lambda>x s. snd (provide x s)) xs (emergency s) = emergency s"
  by (induction xs) (simp_all add: provide_emergency)

lemma emergency_no_kek: "good s \<Longrightarrow> \<exists>e. kek_ref (fold (\<lambda>x s. snd (provide x s)) xs (emergency s)) = Inl e"
  using emergency_stays good_emergency kek_available sealed_emergency by simp

end

definition vault_good :: "'w VaultState \<Rightarrow> bool" where
  "vault_good v \<longleftrightarrow> keys_inv v \<and> shares_inv v \<and> timers_inv v"

lemma KEKRef_refuses: "keys_inv v \<Longrightarrow> IsSealed v \<longleftrightarrow> (\<exists>e. KEKRef v = Inl e)"
  by (auto simp: keys_inv_def IsSealed_def KEKRef_def)

lemma vault_good_emergency: "vault_good v \<Longrightarrow> vault_good (fst (EmergencySeal v w))"
  using shut_inv [of v] by (simp add: EmergencySeal_shut vault_good_def)

interpretation vault_unsealer: emergency_unsealer vault_good IsSealed KEKRef Seal vstate
  "\<lambda>v. fst (EmergencySeal v w)" ProvideShare for w :: 'w
proof
  fix s :: "'w VaultState" and x assume good: "vault_good s"
  then show "vault_good (Seal s)" by (simp add: vault_good_def Seal_shut shut_inv)
  show "IsSealed (Seal s)" by (simp add: IsSealed_def Seal_shut shut_simps)
  show "IsSealed s \<longleftrightarrow> (\<exists>e. KEKRef s = Inl e)" using good KEKRef_refuses [of s] by (simp add: vault_good_def)
  show "vstate s = (if IsSealed s then StateSealed else StateUnsealed)"
    using good by (auto simp: vault_good_def keys_inv_def IsSealed_def)
  show "vault_good (fst (EmergencySeal s w))" using good by (rule vault_good_emergency)
  show "IsSealed (fst (EmergencySeal s w))" by (simp add: IsSealed_def EmergencySeal_shut shut_simps)
  show "snd (ProvideShare x (fst (EmergencySeal s w))) = fst (EmergencySeal s w)"
    by (simp add: ProvideShare_def EmergencySeal_shut)
  show "fst (fst (ProvideShare x (fst (EmergencySeal s w)))) = False
    \<and> snd (fst (ProvideShare x (fst (EmergencySeal s w)))) \<noteq> None"
    by (simp add: ProvideShare_def EmergencySeal_shut)
qed

interpretation hsm_unsealer: emergency_unsealer "\<lambda>_. True" hsm_IsSealed hsm_KEKRef hsm_Seal hsm_State
  hsm_EmergencySeal hsm_ProvideShare
  by unfold_locales (auto simp: hsm_IsSealed_def hsm_KEKRef_def hsm_Seal_def hsm_State_def
      hsm_EmergencySeal_def hsm_ProvideShare_def)

section \<open>Properties of the state machine\<close>

text \<open>
  Property C2. In every reachable state, whatever the interleaving of calls and reseal timers: the
  master key is in memory exactly while the vault is Unsealed, and then it is live; every other
  buffer the vault ever owned is destroyed and zero; every share copy outside the current pool is
  zero; and the pool is smaller than the threshold.
\<close>

theorem vault_memory_clean:
  assumes "reachable vault_init vault_step (v, w)"
  shows "(vstate v = StateSealed \<and> masterKey v = None \<or>
      vstate v = StateUnsealed \<and> (\<exists>p<length (key_mem v). masterKey v = Some p \<and> \<not> destroyed (key_mem v ! p)))
    \<and> (\<forall>i<length (key_mem v). masterKey v \<noteq> Some i \<longrightarrow>
         destroyed (key_mem v ! i) \<and> clean (sb_data (key_mem v ! i)))
    \<and> (\<forall>i<length (share_mem v). i \<notin> set (collectedShares v) \<longrightarrow> clean (share_mem v ! i))
    \<and> (0 < threshold v \<longrightarrow> int (CollectedCount v) < threshold v)"
  using vault.reachable_inv [OF assms]
  by (simp add: vault_inv_def keys_inv_def shares_inv_def CollectedCount_def)

definition opened_vault :: "unit VaultState" where
  "opened_vault = snd (DirectUnseal (Some toy_key) (NewVaultState 5 3 0))"

lemma opened_vault_reachable: "reachable vault_init vault_step (opened_vault, ())"
proof -
  have "reachable vault_init vault_step (NewVaultState 5 3 0, ())"
    by (rule reachable_init) (auto simp: vault_init_def)
  then show ?thesis unfolding opened_vault_def
    by (rule reachable_step) (rule step_DirectUnseal, simp add: toy_key_def)
qed

theorem vault_memory_clean_witness:
  "reachable vault_init vault_step (opened_vault, ()) \<and> vstate opened_vault = StateUnsealed
     \<and> int (CollectedCount opened_vault) < 3"
  using vault_memory_clean [OF opened_vault_reachable] opened_vault_reachable
  by (simp add: opened_vault_def DirectUnseal_def NewVaultState_def enter_unsealed_def)

lemma emergency_step: "vault_step s s' \<Longrightarrow> emergencySealed (fst s) \<Longrightarrow> emergencySealed (fst s')"
  by (induction rule: vault_step.induct)
    (auto simp: DirectUnseal_def ProvideShare_def Seal_shut EmergencySeal_shut SetEmergencySealCallback_def
      SetCryptoSuite_def timer_fires_def shut_def vault_helpers dest!: timer_seals_eq split: option.splits if_splits)

lemma emergency_steps: "vault_step\<^sup>*\<^sup>* s s' \<Longrightarrow> emergencySealed (fst s) \<Longrightarrow> emergencySealed (fst s')"
  by (induction rule: rtranclp_induct) (auto dest: emergency_step)

text \<open>
  Property C3. An emergency seal cannot be undone: after it, whatever sequence of calls and timer
  events follows, the vault stays emergency sealed and Sealed, the whole key and share memory is
  zero, submitting a share or a key is refused, and neither the master key nor a KEK is available.
\<close>

theorem emergency_irreversible:
  assumes "reachable vault_init vault_step (v, w)"
    and "vault_step\<^sup>*\<^sup>* (EmergencySeal v w) (v', w')"
  shows "IsEmergencySealed v' \<and> IsSealed v'
    \<and> (\<forall>b\<in>set (key_mem v'). destroyed b \<and> clean (sb_data b)) \<and> (\<forall>s\<in>set (share_mem v'). clean s)
    \<and> (\<exists>e. fst (ProvideShare s v') = (False, Some e)) \<and> (\<exists>e. fst (DirectUnseal k v') = Some e)
    \<and> (\<exists>e. KEKRef v' = Inl e) \<and> (\<exists>e. MasterKeyRef v' action = Inl e)"
proof -
  have "reachable vault_init vault_step (EmergencySeal v w)"
    by (rule reachable_step [OF assms(1) step_EmergencySeal])
  then have "vault_inv (v', w')" using vault.reachable_inv reachable_steps [OF assms(2)] by blast
  moreover have em: "emergencySealed v'"
    using emergency_steps [OF assms(2)] by (simp add: EmergencySeal_shut)
  ultimately have "vstate v' = StateSealed" "masterKey v' = None" "collectedShares v' = []"
    "keys_inv v'" "shares_inv v'"
    by (auto simp: vault_inv_def emergency_inv_def keys_inv_def)
  with em show ?thesis
    by (auto simp: IsEmergencySealed_def IsSealed_def keys_inv_def shares_inv_def in_set_conv_nth
        ProvideShare_def DirectUnseal_def KEKRef_def MasterKeyRef_def split: option.split)
qed

theorem emergency_irreversible_witness:
  "reachable vault_init vault_step (opened_vault, ())
    \<and> vault_step\<^sup>*\<^sup>* (EmergencySeal opened_vault ()) (EmergencySeal opened_vault ())
    \<and> IsSealed (fst (EmergencySeal opened_vault ())) \<and> \<not> IsSealed opened_vault"
proof -
  obtain v' w' where e: "EmergencySeal opened_vault () = (v', w')" by (cases "EmergencySeal opened_vault ()")
  have "IsSealed v'"
    using emergency_irreversible [OF opened_vault_reachable, of v' w', where s = "[]" and k = None
        and action = "Inr :: _ \<Rightarrow> SecureBuffer res"] e by simp
  moreover have "\<not> IsSealed opened_vault"
    by (simp add: opened_vault_def DirectUnseal_def NewVaultState_def enter_unsealed_def IsSealed_def)
  ultimately show ?thesis using opened_vault_reachable e by simp
qed

text \<open>Submitting a list of shares, with the answer to each.\<close>

fun ProvideShares :: "bytes list \<Rightarrow> 'w VaultState \<Rightarrow> (bool \<times> err option) list \<times> 'w VaultState" where
  "ProvideShares [] v = ([], v)"
| "ProvideShares (s # ss) v =
     (let (a, v1) = ProvideShare s v; (as, v2) = ProvideShares ss v1 in (a # as, v2))"

definition pooled :: "'w VaultState \<Rightarrow> bytes list" where
  "pooled v = map ((!) (share_mem v)) (collectedShares v)"

definition awaiting :: "int \<Rightarrow> bytes list \<Rightarrow> 'w VaultState \<Rightarrow> bool" where
  "awaiting thr ps v \<longleftrightarrow> shares_inv v \<and> vstate v \<noteq> StateUnsealed \<and> \<not> emergencySealed v
     \<and> threshold v = thr \<and> pooled v = ps"

lemma pool_share_awaiting:
  "awaiting thr ps v \<Longrightarrow> pooled (pool_share s v) = ps @ [s]"
  by (auto simp: awaiting_def pooled_def pool_share_def shares_inv_def nth_append)

lemma ProvideShare_more:
  assumes "awaiting thr ps v" "s \<noteq> []" "int (length ps) + 1 < thr"
  shows "fst (ProvideShare s v) = (False, None) \<and> awaiting thr (ps @ [s]) (snd (ProvideShare s v))"
proof -
  have n: "length (collectedShares v) = length ps" using assms(1) by (auto simp: awaiting_def pooled_def)
  have "ProvideShare s v = ((False, None), pool_share s v)"
    using assms n by (auto simp: awaiting_def ProvideShare_def)
  moreover have "shares_inv (pool_share s v)"
    using assms n pool_share_inv(1,2) [of v s] by (auto simp: awaiting_def shares_inv_def)
  ultimately show ?thesis
    using assms pool_share_awaiting [OF assms(1)] by (simp add: awaiting_def)
qed

lemma ProvideShare_last:
  assumes "awaiting thr ps v" "s \<noteq> []" "int (length ps) + 1 = thr"
    and "CombineWithThreshold (ps @ [s]) thr = Inr key"
  shows "ProvideShare s v = ((True, None), wipeCollectedShares (enter_unsealed key (pool_share s v)))"
proof -
  have n: "length (collectedShares v) = length ps" using assms(1) by (auto simp: awaiting_def pooled_def)
  show ?thesis
    using assms n pool_share_awaiting [OF assms(1)]
    by (auto simp: awaiting_def pooled_def ProvideShare_def)
qed

lemma ProvideShares_all:
  assumes "awaiting thr ps v" "\<forall>s\<in>set ss. s \<noteq> []" "ss \<noteq> []" "int (length ps) + int (length ss) = thr"
    and "CombineWithThreshold (ps @ ss) thr = Inr key"
  shows "fst (ProvideShares ss v) = replicate (length ss - 1) (False, None) @ [(True, None)]
    \<and> IsUnsealed (snd (ProvideShares ss v)) \<and> MasterKeyRef (snd (ProvideShares ss v)) Inr = Inr key
    \<and> collectedShares (snd (ProvideShares ss v)) = []"
  using assms
proof (induction ss arbitrary: ps v)
  case (Cons s ss)
  show ?case
  proof (cases "ss = []")
    case True
    with Cons.prems ProvideShare_last [of thr ps v s key] show ?thesis
      by (simp add: IsUnsealed_def MasterKeyRef_def wipeCollectedShares_def enter_unsealed_def pool_share_def Let_def)
  next
    case False
    then have "0 < length ss" by simp
    with Cons.prems ProvideShare_more [of thr ps v s]
    have one: "fst (ProvideShare s v) = (False, None)" "awaiting thr (ps @ [s]) (snd (ProvideShare s v))"
      by auto
    note two = Cons.IH [OF one(2)]
    have "replicate (length ss) (False, None :: err option) = (False, None) # replicate (length ss - 1) (False, None)"
      using False by (cases ss) simp_all
    with one two Cons.prems False show ?thesis
      by (auto simp: Let_def split_beta)
  qed
qed simp

text \<open>
  Unsealing works: give a sealed vault with an empty pool exactly \<open>threshold\<close> distinct
  shares of a split key, in any order; every share but the last is answered "not yet", the last one
  unseals the vault, the master key is then exactly the key that was split, and no share is left in
  memory.
\<close>

theorem unseal_with_shares:
  assumes split: "Split (Some sb) parts thr r = (Inr shares, r')"
    and ks: "distinct ks" "set ks \<subseteq> {..<nat parts}" "int (length ks) = thr"
    and vault: "reachable vault_init vault_step (v, w)" "IsSealed v" "\<not> IsEmergencySealed v"
      "threshold v = thr" "CollectedCount v = 0"
    and run: "ProvideShares (map ((!) shares) ks) v = (answers, v')"
  shows "answers = replicate (length ks - 1) (False, None) @ [(True, None)]
    \<and> IsUnsealed v' \<and> MasterKeyRef v' Inr = Inr sb \<and> CollectedCount v' = 0"
proof -
  have thr: "2 \<le> thr" and len: "length shares = nat parts" and ne: "\<forall>s\<in>set shares. s \<noteq> []"
    using Split_shape [OF split] by auto
  have comb: "CombineWithThreshold (map ((!) shares) ks) thr = Inr sb"
    using Combine_Split [OF split ks(1,2)] ks(3) by (simp add: CombineWithThreshold_def)
  have "awaiting thr [] v"
    using vault vault.reachable_inv [OF vault(1)]
    by (auto simp: awaiting_def vault_inv_def IsSealed_def IsEmergencySealed_def pooled_def CollectedCount_def)
  moreover have "ks \<noteq> []" "\<forall>s\<in>set (map ((!) shares) ks). s \<noteq> []"
    using thr ks ne len by (auto simp: subset_iff)
  ultimately show ?thesis
    using ProvideShares_all [of thr "[]" v "map ((!) shares) ks" sb] comb run ks(3)
    by (simp add: CollectedCount_def)
qed

definition witness_split :: "bytes list res \<times> csprng" where
  "witness_split = Split (Some \<lparr>sb_data = [42, 7], destroyed = False\<rparr>) 5 3
     \<lparr>stream = \<lambda>i. Some (of_nat i), pos = 9\<rparr>"

lemma witness_split_ok: "\<exists>shares r'. witness_split = (Inr shares, r')"
  using Split_serves [of 3 5 "\<lparr>sb_data = [42, 7], destroyed = False\<rparr>" "[[9, 10], [11, 12]]"
      "\<lparr>stream = \<lambda>i. Some (of_nat i), pos = 9\<rparr>"]
  by (auto simp: witness_split_def good_rands_def serves_def numeral_eq_Suc less_Suc_eq)

lemma new_vault_reachable: "reachable vault_init vault_step (NewVaultState tot thr after, w)"
  by (rule reachable_init) (auto simp: vault_init_def)

theorem unseal_with_shares_witness:
  "\<exists>shares r'. witness_split = (Inr shares, r') \<and>
     (let (answers, v') = ProvideShares (map ((!) shares) [4, 0, 2]) (NewVaultState 5 3 0 :: unit VaultState)
      in answers = [(False, None), (False, None), (True, None)] \<and> IsUnsealed v'
         \<and> MasterKeyRef v' Inr = Inr \<lparr>sb_data = [42, 7], destroyed = False\<rparr>)"
proof -
  obtain shares r' where s: "witness_split = (Inr shares, r')" using witness_split_ok by blast
  obtain answers v' where run: "ProvideShares (map ((!) shares) [4, 0, 2]) (NewVaultState 5 3 0 :: unit VaultState) = (answers, v')"
    by fastforce
  have "answers = replicate (length [4, 0, 2::nat] - 1) (False, None) @ [(True, None)] \<and> IsUnsealed v'
      \<and> MasterKeyRef v' Inr = Inr \<lparr>sb_data = [42, 7], destroyed = False\<rparr> \<and> CollectedCount v' = 0"
    by (rule unseal_with_shares [OF s [unfolded witness_split_def] _ _ _ new_vault_reachable [of 5 3 0 "()"] _ _ _ _ run])
      (auto simp: NewVaultState_def IsSealed_def IsEmergencySealed_def CollectedCount_def)
  with s run show ?thesis by (auto simp: numeral_eq_Suc)
qed

text \<open>
  Property C21. Automatic resealing: while the vault is Unsealed and automatic resealing is
  configured, a reseal goroutine is pending, and its remaining moves, taken now, leave the vault
  Sealed. A goroutine whose cancellation came too late can only seal.
\<close>

theorem auto_reseal:
  assumes "reachable vault_init vault_step (v, w)"
  shows "(0 < autoResealAfter v \<longrightarrow> IsUnsealed v \<longrightarrow>
      (\<exists>t v1 v2. (timer_fires t v = Some v1 \<or> t \<in> set (fired v) \<and> v1 = v)
         \<and> timer_seals t v1 = Some v2 \<and> IsSealed v2))
    \<and> (\<forall>t v2. timer_seals t v = Some v2 \<longrightarrow> IsSealed v2 \<and> masterKey v2 = None)"
proof -
  have inv: "keys_inv v" "timers_inv v" using vault.reachable_inv [OF assms] by (auto simp: vault_inv_def)
  have seal: "IsSealed v2 \<and> masterKey v2 = None" if "timer_seals t v = Some v2" "keys_inv v" for t v v2
    using timer_seals_eq [OF that(1)] that(2)
    by (auto simp: IsSealed_def Seal_shut shut_def vault_helpers keys_inv_def split: option.splits)
  have "\<exists>t v1 v2. (timer_fires t v = Some v1 \<or> t \<in> set (fired v) \<and> v1 = v)
      \<and> timer_seals t v1 = Some v2 \<and> IsSealed v2" if a: "0 < autoResealAfter v" "IsUnsealed v"
  proof -
    obtain t where t: "t \<in> set (waiting v) \<union> set (fired v)"
      using inv a by (auto simp: timers_inv_def IsUnsealed_def)
    define v1 where "v1 = (if t \<in> set (waiting v) then the (timer_fires t v) else v)"
    have v1: "timer_fires t v = Some v1 \<or> t \<in> set (fired v) \<and> v1 = v" "t \<in> set (fired v1)" "keys_inv v1"
      using t inv by (auto simp: v1_def timer_fires_def)
    then obtain v2 where "timer_seals t v1 = Some v2" by (simp add: timer_seals_def)
    with v1 seal show ?thesis by blast
  qed
  with seal inv show ?thesis by blast
qed

definition timed_vault :: "unit VaultState" where
  "timed_vault = snd (DirectUnseal (Some toy_key) (NewVaultState 5 3 hour))"

theorem auto_reseal_witness:
  "reachable vault_init vault_step (timed_vault, ()) \<and> IsUnsealed timed_vault
    \<and> (\<exists>t v1 v2. (timer_fires t timed_vault = Some v1 \<or> t \<in> set (fired timed_vault) \<and> v1 = timed_vault)
         \<and> timer_seals t v1 = Some v2 \<and> IsSealed v2)"
proof -
  have r: "reachable vault_init vault_step (timed_vault, ())"
    unfolding timed_vault_def by (rule reachable_step [OF new_vault_reachable step_DirectUnseal]) (simp add: toy_key_def)
  have "IsUnsealed timed_vault" "0 < autoResealAfter timed_vault"
    by (simp_all add: timed_vault_def DirectUnseal_def NewVaultState_def enter_unsealed_def IsUnsealed_def)
  with auto_reseal [OF r] r show ?thesis by blast
qed

end
