(* ===== verification/Auth.thy ===== *)
theory Auth
  imports GoLib
begin

text \<open>
  \<^verbatim>\<open>internal/auth/auth.go\<close> and \<^verbatim>\<open>multi_authenticator.go\<close>: policies with key
  patterns and actions, the token authenticator, the chain of authenticators, the values carried
  by the request context, tenant-scoped key names and the bearer token of a header.
\<close>

section \<open>Policies\<close>

record Policy =
  RoleID :: string
  AllowedKeys :: "string list"
  AllowedActions :: "string list"
  RequireMFA :: bool
  RequireQuorum :: int
  ApproverRoles :: "string list"
  TenantID :: string

text \<open>\<^verbatim>\<open>strings.TrimSuffix(pattern, "*")\<close> of a pattern that ends in a star is
  \<open>butlast\<close>.\<close>

definition matchPattern :: "string \<Rightarrow> string \<Rightarrow> bool" where
  "matchPattern pattern keyID =
     (if pattern = ''*'' then True
      else if has_suffix pattern ''*'' then has_prefix keyID (butlast pattern)
      else pattern = keyID)"

fun key_loop :: "string list \<Rightarrow> string \<Rightarrow> bool" where
  "key_loop [] keyID = False"
| "key_loop (pattern # ps) keyID = (if matchPattern pattern keyID then True else key_loop ps keyID)"

definition IsKeyAllowed :: "Policy \<Rightarrow> string \<Rightarrow> bool" where
  "IsKeyAllowed p keyID = key_loop (AllowedKeys p) keyID"

fun action_loop :: "unicode \<Rightarrow> string list \<Rightarrow> string \<Rightarrow> bool" where
  "action_loop U [] action = False"
| "action_loop U (allowed # as) action =
     (if allowed = ''*'' then True
      else if EqualFold U allowed action then True
      else action_loop U as action)"

definition IsActionAllowed :: "unicode \<Rightarrow> Policy \<Rightarrow> string \<Rightarrow> bool" where
  "IsActionAllowed U p action = action_loop U (AllowedActions p) action"

section \<open>The token authenticator\<close>

text \<open>The two maps as association lists in iteration order; a map has one entry per key. A policy
  is stored by reference; \<^verbatim>\<open>RegisterPolicy\<close> writes the role into the caller's policy.\<close>

record AppRoleAuthenticator =
  tokens :: "(string \<times> string) list"
  policies :: "(string \<times> Policy) list"

definition NewAppRoleAuthenticator :: AppRoleAuthenticator where
  "NewAppRoleAuthenticator = \<lparr>tokens = [], policies = []\<rparr>"

definition RegisterPolicy ::
  "string \<Rightarrow> string \<Rightarrow> Policy \<Rightarrow> AppRoleAuthenticator \<Rightarrow> AppRoleAuthenticator" where
  "RegisterPolicy roleID token policy a =
     (let kept = filter (\<lambda>(oldToken, oldRole). oldRole \<noteq> roleID) (tokens a)
      in a\<lparr>tokens := AList.update token roleID kept,
           policies := AList.update roleID (policy\<lparr>RoleID := roleID\<rparr>) (policies a)\<rparr>)"

text \<open>The loop over the token map; \<^verbatim>\<open>subtle.ConstantTimeCompare\<close> is 1 exactly on equal
  byte strings.\<close>

fun token_loop :: "(string \<times> string) list \<Rightarrow> string \<Rightarrow> (string \<times> Policy) list \<Rightarrow> Policy res" where
  "token_loop [] token ps = Inl ErrUnauthorized"
| "token_loop ((storedToken, roleID) # ts) token ps =
     (if storedToken = token then
        (case map_of ps roleID of None \<Rightarrow> Inl ErrUnauthorized | Some policy \<Rightarrow> Inr policy)
      else token_loop ts token ps)"

definition Authenticate :: "AppRoleAuthenticator \<Rightarrow> string \<Rightarrow> Policy res" where
  "Authenticate a token =
     (if token = '''' then Inl ErrUnauthorized else token_loop (tokens a) token (policies a))"

definition LookupPolicy :: "AppRoleAuthenticator \<Rightarrow> string \<Rightarrow> Policy option" where
  "LookupPolicy a roleID = map_of (policies a) roleID"

text \<open>\<^verbatim>\<open>MultiAuthenticator\<close>: a list of authenticators, \<open>None\<close> for a nil entry.\<close>

fun multi_loop :: "(string \<Rightarrow> Policy res) option list \<Rightarrow> string \<Rightarrow> err \<Rightarrow> Policy res" where
  "multi_loop [] token lastErr = Inl lastErr"
| "multi_loop (None # as) token lastErr = multi_loop as token lastErr"
| "multi_loop (Some a # as) token lastErr =
     (case a token of Inr policy \<Rightarrow> Inr policy | Inl e \<Rightarrow> multi_loop as token e)"

definition multi_Authenticate :: "(string \<Rightarrow> Policy res) option list \<Rightarrow> string \<Rightarrow> Policy res" where
  "multi_Authenticate as token = multi_loop as token ErrUnauthorized"

section \<open>Context values, tenants, bearer tokens\<close>

record request_context =
  ctx_role :: "string option"
  ctx_policy :: "Policy option"
  ctx_tenant :: "string option"

definition RoleIDFromContext :: "request_context \<Rightarrow> string" where
  "RoleIDFromContext ctx = (case ctx_role ctx of Some v \<Rightarrow> v | None \<Rightarrow> [])"

definition WithRoleID :: "request_context \<Rightarrow> string \<Rightarrow> request_context" where
  "WithRoleID ctx roleID = ctx\<lparr>ctx_role := Some roleID\<rparr>"

definition PolicyFromContext :: "request_context \<Rightarrow> Policy option" where
  "PolicyFromContext ctx = ctx_policy ctx"

definition WithPolicy :: "request_context \<Rightarrow> Policy \<Rightarrow> request_context" where
  "WithPolicy ctx policy = ctx\<lparr>ctx_policy := Some policy\<rparr>"

definition TenantFromContext :: "request_context \<Rightarrow> string" where
  "TenantFromContext ctx = (case ctx_tenant ctx of Some v \<Rightarrow> v | None \<Rightarrow> [])"

definition WithTenant :: "request_context \<Rightarrow> string \<Rightarrow> request_context" where
  "WithTenant ctx tenantID = ctx\<lparr>ctx_tenant := Some tenantID\<rparr>"

definition ScopedKeyID :: "string \<Rightarrow> string \<Rightarrow> string" where
  "ScopedKeyID tenantID keyID = (if tenantID = '''' then keyID else tenantID @ '':'' @ keyID)"

definition UnscopedKeyID :: "string \<Rightarrow> string \<Rightarrow> string" where
  "UnscopedKeyID tenantID scopedKeyID =
     (if tenantID = '''' then scopedKeyID
      else let pre = tenantID @ '':''
           in if length scopedKeyID > length pre \<and> take (length pre) scopedKeyID = pre
              then drop (length pre) scopedKeyID
              else scopedKeyID)"

definition ExtractBearerToken :: "unicode \<Rightarrow> string \<Rightarrow> string res" where
  "ExtractBearerToken U header =
     (if \<not> has_prefix header ''Bearer '' then Inl (Msg ''auth: missing or invalid Authorization header'')
      else let token = TrimSpace U (drop (length ''Bearer '') header)
           in if token = '''' then Inl (Msg ''auth: empty bearer token'') else Inr token)"

section \<open>Patterns and actions\<close>

lemma matchPattern_star: "matchPattern (p @ ''*'') keyID \<longleftrightarrow> has_prefix keyID p"
  by (cases p) (auto simp: matchPattern_def has_suffix_iff has_prefix_def)

lemma matchPattern_exact: "\<not> has_suffix p ''*'' \<Longrightarrow> matchPattern p keyID \<longleftrightarrow> p = keyID"
  by (auto simp: matchPattern_def has_suffix_def)

lemma IsKeyAllowed_iff: "IsKeyAllowed p keyID \<longleftrightarrow> (\<exists>pattern \<in> set (AllowedKeys p). matchPattern pattern keyID)"
proof -
  have "key_loop ps keyID \<longleftrightarrow> (\<exists>pattern \<in> set ps. matchPattern pattern keyID)" for ps
    by (induction ps) auto
  then show ?thesis by (simp add: IsKeyAllowed_def)
qed

lemma IsActionAllowed_iff:
  "IsActionAllowed U p action \<longleftrightarrow>
     (\<exists>allowed \<in> set (AllowedActions p). allowed = ''*'' \<or> EqualFold U allowed action)"
proof -
  have "action_loop U as action \<longleftrightarrow> (\<exists>allowed \<in> set as. allowed = ''*'' \<or> EqualFold U allowed action)" for as
    by (induction as) auto
  then show ?thesis by (simp add: IsActionAllowed_def)
qed

section \<open>The authenticator's contract\<close>

text \<open>
  What the middleware relies on: an empty token is refused, and an accepted token's policy is
  the one filed under the role it names.
\<close>

locale policy_source =
  fixes good :: "'a \<Rightarrow> bool"
    and authenticate :: "'a \<Rightarrow> string \<Rightarrow> Policy res"
    and lookup :: "'a \<Rightarrow> string \<Rightarrow> Policy option"
  assumes empty_refused: "\<exists>e. authenticate a [] = Inl e"
    and own_policy: "good a \<Longrightarrow> authenticate a token = Inr p \<Longrightarrow> lookup a (RoleID p) = Some p"
begin

lemma accepted_nonempty: "authenticate a token = Inr p \<Longrightarrow> token \<noteq> []"
  using empty_refused [of a] by auto

lemma same_role_same_policy:
  assumes "good a" "authenticate a t = Inr p" "authenticate a t' = Inr p'" "RoleID p = RoleID p'"
  shows "p = p'"
  using own_policy [OF assms(1,2)] own_policy [OF assms(1,3)] by (metis assms(4) option.inject)

end

definition auth_wf :: "AppRoleAuthenticator \<Rightarrow> bool" where
  "auth_wf a \<longleftrightarrow> distinct (map fst (tokens a)) \<and> distinct (map fst (policies a)) \<and>
     (\<forall>t r. map_of (tokens a) t = Some r \<longrightarrow> (\<exists>p. map_of (policies a) r = Some p)) \<and>
     (\<forall>r p. map_of (policies a) r = Some p \<longrightarrow> RoleID p = r)"

lemma token_loop_map_of:
  "token_loop ts token ps = (case map_of ts token of None \<Rightarrow> Inl ErrUnauthorized
     | Some r \<Rightarrow> (case map_of ps r of None \<Rightarrow> Inl ErrUnauthorized | Some p \<Rightarrow> Inr p))"
  by (induction ts token ps rule: token_loop.induct) auto

lemma Authenticate_iff:
  "Authenticate a token = Inr p \<longleftrightarrow>
     token \<noteq> [] \<and> (\<exists>r. map_of (tokens a) token = Some r \<and> map_of (policies a) r = Some p)"
  by (auto simp: Authenticate_def token_loop_map_of split: option.splits)

lemma Authenticate_cases: "Authenticate a token = Inl ErrUnauthorized \<or> (\<exists>p. Authenticate a token = Inr p)"
  by (auto simp: Authenticate_def token_loop_map_of split: option.splits)

interpretation approle: policy_source auth_wf Authenticate LookupPolicy
proof
  fix a token p
  show "\<exists>e. Authenticate a [] = Inl e" by (simp add: Authenticate_def)
  assume "auth_wf a" "Authenticate a token = Inr p"
  then show "LookupPolicy a (RoleID p) = Some p"
    by (auto simp: Authenticate_iff auth_wf_def LookupPolicy_def)
qed

text \<open>A chain accepts what one of its members accepts, and refuses the empty token when they do.\<close>

lemma multi_loop_Inr:
  "multi_loop as token e = Inr p \<Longrightarrow> \<exists>a. Some a \<in> set as \<and> a token = Inr p"
  by (induction as token e rule: multi_loop.induct) (auto split: sum.splits)

lemma multi_loop_Inl:
  "(\<forall>a. Some a \<in> set as \<longrightarrow> (\<exists>e. a token = Inl e)) \<longleftrightarrow> (\<exists>e'. multi_loop as token e = Inl e')"
proof (induction as token e rule: multi_loop.induct)
  case (3 a as token lastErr)
  then show ?case by (cases "a token") auto
qed auto

section \<open>Registration\<close>

lemma map_of_filter_snd:
  "distinct (map fst xs) \<Longrightarrow>
   map_of (filter (\<lambda>(k, v). v \<noteq> r) xs) k = (if map_of xs k = Some r then None else map_of xs k)"
proof (induction xs)
  case (Cons x xs)
  obtain k' v where x: "x = (k', v)" by (cases x)
  with Cons.prems have "map_of xs k' = None" by (simp add: map_of_eq_None_iff)
  with Cons x show ?case by auto
qed simp

lemma tokens_RegisterPolicy:
  "auth_wf a \<Longrightarrow> map_of (tokens (RegisterPolicy role token policy a)) t =
     (if t = token then Some role else if map_of (tokens a) t = Some role then None else map_of (tokens a) t)"
  by (simp add: RegisterPolicy_def map_of_filter_snd auth_wf_def)

lemma policies_RegisterPolicy:
  "policies (RegisterPolicy role token policy a) =
     AList.update role (policy\<lparr>RoleID := role\<rparr>) (policies a)"
  by (simp add: RegisterPolicy_def)

lemma auth_wf_new: "auth_wf NewAppRoleAuthenticator"
  by (simp add: auth_wf_def NewAppRoleAuthenticator_def)

lemma auth_wf_RegisterPolicy:
  assumes wf: "auth_wf a"
  shows "auth_wf (RegisterPolicy role token policy a)"
proof -
  let ?b = "RegisterPolicy role token policy a"
  have "distinct (map fst (tokens ?b))"
    using wf by (simp add: RegisterPolicy_def auth_wf_def keys_distinct_update keys_distinct_filter)
  moreover have "distinct (map fst (policies ?b))"
    using wf by (simp add: policies_RegisterPolicy auth_wf_def keys_distinct_update)
  moreover have "\<exists>p. map_of (policies ?b) r = Some p" if "map_of (tokens ?b) t = Some r" for t r
    using that wf
    by (auto simp: tokens_RegisterPolicy [OF wf] policies_RegisterPolicy auth_wf_def split: if_splits)
  moreover have "RoleID p = r" if "map_of (policies ?b) r = Some p" for r p
    using that wf by (auto simp: policies_RegisterPolicy auth_wf_def split: if_splits)
  ultimately show ?thesis by (simp add: auth_wf_def)
qed

text \<open>Any sequence of registrations, as the start-up code performs them.\<close>

definition register_all :: "(string \<times> string \<times> Policy) list \<Rightarrow> AppRoleAuthenticator" where
  "register_all regs = foldl (\<lambda>a (role, token, policy). RegisterPolicy role token policy a) NewAppRoleAuthenticator regs"

lemma auth_wf_register_all: "auth_wf (register_all regs)"
proof -
  have "auth_wf (foldl (\<lambda>a (role, token, policy). RegisterPolicy role token policy a) a regs)"
    if "auth_wf a" for a
    using that by (induction regs arbitrary: a) (auto simp: auth_wf_RegisterPolicy)
  then show ?thesis by (simp add: register_all_def auth_wf_new)
qed

lemma Authenticate_RegisterPolicy:
  assumes wf: "auth_wf a"
  shows "Authenticate (RegisterPolicy role token policy a) t =
     (if t = [] then Inl ErrUnauthorized
      else if t = token then Inr (policy\<lparr>RoleID := role\<rparr>)
      else case Authenticate a t of
          Inl e \<Rightarrow> Inl e
        | Inr p \<Rightarrow> if RoleID p = role then Inl ErrUnauthorized else Inr p)"
proof -
  have own: "RoleID p = r" if "map_of (policies a) r = Some p" for r p
    using wf that by (simp add: auth_wf_def)
  show ?thesis
    by (auto simp: Authenticate_def token_loop_map_of tokens_RegisterPolicy [OF wf]
        policies_RegisterPolicy dest: own split: option.splits)
qed

text \<open>
  Registration. After any sequence of registrations, registering a role with a token
  makes exactly that token authenticate as the role, with the registered policy; every token the
  role had before is refused, the empty token is refused, and every other token keeps its policy.
\<close>
theorem token_registration:
  "Authenticate (RegisterPolicy role token policy (register_all regs)) t =
     (if t = [] then Inl ErrUnauthorized
      else if t = token then Inr (policy\<lparr>RoleID := role\<rparr>)
      else case Authenticate (register_all regs) t of
          Inl e \<Rightarrow> Inl e
        | Inr p \<Rightarrow> if RoleID p = role then Inl ErrUnauthorized else Inr p)"
  by (rule Authenticate_RegisterPolicy [OF auth_wf_register_all])

section \<open>Tenants\<close>

lemma split_at_first:
  assumes "x \<notin> set a" "x \<notin> set c" "a @ x # b = c @ x # d"
  shows "a = c \<and> b = d"
proof -
  have first: "takeWhile (\<lambda>y. y \<noteq> x) (p @ x # q) = p" if "x \<notin> set p" for p q
    using that by (induction p) auto
  have "a = c" using arg_cong [OF assms(3), of "takeWhile (\<lambda>y. y \<noteq> x)"] first assms(1,2) by simp
  with assms(3) show ?thesis by simp
qed

text \<open>
  Tenants are kept apart as long as their names have no colon: two tenants' key names
  never coincide, a scoped name is unscoped to the name it was made from, and names outside the
  tenant are left alone. With a colon in a tenant's name, or for a caller without a tenant, the
  same stored name can be reached from two sides.
\<close>
theorem tenant_names:
  assumes "CHR '':'' \<notin> set t" "CHR '':'' \<notin> set u" "t \<noteq> []" "u \<noteq> []" "k \<noteq> []"
  shows "(ScopedKeyID t k = ScopedKeyID u l \<longleftrightarrow> t = u \<and> k = l)
    \<and> UnscopedKeyID t (ScopedKeyID t k) = k
    \<and> (t \<noteq> u \<longrightarrow> UnscopedKeyID u (ScopedKeyID t k) = ScopedKeyID t k)
    \<and> ScopedKeyID (t @ '':'' @ u) k = ScopedKeyID t (ScopedKeyID u k)
    \<and> ScopedKeyID [] (ScopedKeyID t k) = ScopedKeyID t k"
proof (intro conjI)
  show inj: "ScopedKeyID t k = ScopedKeyID u l \<longleftrightarrow> t = u \<and> k = l"
    using assms split_at_first [of "CHR '':''" t u k l] by (auto simp: ScopedKeyID_def)
  show "UnscopedKeyID t (ScopedKeyID t k) = k"
    using assms by (simp add: ScopedKeyID_def UnscopedKeyID_def)
  show "t \<noteq> u \<longrightarrow> UnscopedKeyID u (ScopedKeyID t k) = ScopedKeyID t k"
  proof
    assume "t \<noteq> u"
    have "take (length u + 1) (t @ '':'' @ k) \<noteq> u @ '':''"
    proof
      assume pre: "take (length u + 1) (t @ '':'' @ k) = u @ '':''"
      have "t @ CHR '':'' # k = u @ CHR '':'' # drop (length u + 1) (t @ '':'' @ k)"
        using append_take_drop_id [of "length u + 1" "t @ '':'' @ k"] pre by (metis append.assoc append_Cons append_Nil)
      with assms(1,2) \<open>t \<noteq> u\<close> split_at_first show False by metis
    qed
    with assms show "UnscopedKeyID u (ScopedKeyID t k) = ScopedKeyID t k"
      by (simp add: ScopedKeyID_def UnscopedKeyID_def Let_def)
  qed
  show "ScopedKeyID (t @ '':'' @ u) k = ScopedKeyID t (ScopedKeyID u k)"
    using assms by (simp add: ScopedKeyID_def)
  show "ScopedKeyID [] (ScopedKeyID t k) = ScopedKeyID t k"
    by (simp add: ScopedKeyID_def)
qed

theorem tenant_names_witness:
  "ScopedKeyID ''acme'' ''k1'' \<noteq> ScopedKeyID ''beta'' ''k1''
    \<and> UnscopedKeyID ''acme'' (ScopedKeyID ''acme'' ''k1'') = ''k1''
    \<and> UnscopedKeyID ''beta'' (ScopedKeyID ''acme'' ''k1'') = ScopedKeyID ''acme'' ''k1''
    \<and> ScopedKeyID (''acme'' @ '':'' @ ''beta'') ''k1'' = ScopedKeyID ''acme'' (ScopedKeyID ''beta'' ''k1'')
    \<and> ScopedKeyID [] (ScopedKeyID ''acme'' ''k1'') = ScopedKeyID ''acme'' ''k1''"
  using tenant_names [of "''acme''" "''beta''" "''k1''" "''k1''"] by simp

end
