(* ===== verification/Asymmetric.thy ===== *)
theory Asymmetric
  imports Memguard
begin

text \<open>
  \<^verbatim>\<open>internal/crypto/asymmetric.go\<close>: key generation, signing and verification with RSA-PSS
  and ECDSA P-256, and the encodings of keys. The algorithms and the X.509 and PEM codecs are the
  parameter \<open>pki\<close> over abstract private and public keys; \<open>pki_ok\<close> states what the
  code relies on. The functions of the file, with the checks they add, are the definitions.
\<close>

text \<open>The dynamic type of a key and what the checks look at: the modulus length, whether the
  curve is P-256.\<close>

datatype key_kind = RSA int | ECDSA bool | OtherKind

record ('k, 'p) pki =
  rsa_GenerateKey :: "int \<Rightarrow> csprng \<Rightarrow> 'k res \<times> csprng"
  ecdsa_GenerateKey :: "csprng \<Rightarrow> 'k res \<times> csprng"
  priv_kind :: "'k \<Rightarrow> key_kind"
  pub_kind :: "'p \<Rightarrow> key_kind"
  public_of :: "'k \<Rightarrow> 'p"
  raw_sign :: "'k \<Rightarrow> bytes \<Rightarrow> csprng \<Rightarrow> bytes res \<times> csprng"
  raw_verify :: "'p \<Rightarrow> bytes \<Rightarrow> bytes \<Rightarrow> bool"
  MarshalPKCS8 :: "'k \<Rightarrow> bytes res"
  ParsePKCS8 :: "bytes \<Rightarrow> 'k res"
  MarshalPKIX :: "'p \<Rightarrow> bytes res"
  ParsePKIX :: "bytes \<Rightarrow> 'p res"
  pem_Encode :: "string \<Rightarrow> bytes \<Rightarrow> bytes"
  pem_Decode :: "bytes \<Rightarrow> (string \<times> bytes \<times> bytes) option"

definition KeyTypeAES :: string where "KeyTypeAES = ''aes''"
definition KeyTypeSM4 :: string where "KeyTypeSM4 = ''sm4''"
definition KeyTypeRSA :: string where "KeyTypeRSA = ''rsa''"
definition KeyTypeECDSA :: string where "KeyTypeECDSA = ''ecdsa''"
definition KeyTypeSM2 :: string where "KeyTypeSM2 = ''sm2''"

lemmas KeyType_defs = KeyTypeAES_def KeyTypeSM4_def KeyTypeRSA_def KeyTypeECDSA_def KeyTypeSM2_def

definition rsaKeyBits :: int where "rsaKeyBits = 4096"

definition GenerateAsymmetricKey :: "('k, 'p) pki \<Rightarrow> string \<Rightarrow> csprng \<Rightarrow> 'k res \<times> csprng" where
  "GenerateAsymmetricKey L keyType r =
     (if keyType = KeyTypeRSA then
        (case rsa_GenerateKey L rsaKeyBits r of (k, r1) \<Rightarrow> (wrapR ''crypto: generate RSA-4096 key'' k, r1))
      else if keyType = KeyTypeECDSA then
        (case ecdsa_GenerateKey L r of (k, r1) \<Rightarrow> (wrapR ''crypto: generate ECDSA P-256 key'' k, r1))
      else (Inl (Msg ''crypto: unsupported key type, must be rsa or ecdsa''), r))"

definition crypto_Sign :: "('k, 'p) pki \<Rightarrow> 'k \<Rightarrow> bytes \<Rightarrow> csprng \<Rightarrow> bytes res \<times> csprng" where
  "crypto_Sign L privateKey digest r =
     (if digest = [] then (Inl (Msg ''crypto: empty digest''), r)
      else case priv_kind L privateKey of
          RSA bits \<Rightarrow>
            if bits < 2048 then (Inl (Msg ''crypto: RSA key too short, need at least 2048''), r)
            else (case raw_sign L privateKey digest r of (sig, r1) \<Rightarrow> (wrapR ''crypto: RSA-PSS sign'' sig, r1))
        | ECDSA p256 \<Rightarrow>
            if \<not> p256 then (Inl (Msg ''crypto: ECDSA curve must be P-256''), r)
            else (case raw_sign L privateKey digest r of (sig, r1) \<Rightarrow> (wrapR ''crypto: ECDSA sign'' sig, r1))
        | OtherKind \<Rightarrow> (Inl (Msg ''crypto: unsupported private key type''), r))"

definition crypto_Verify :: "('k, 'p) pki \<Rightarrow> 'p \<Rightarrow> bytes \<Rightarrow> bytes \<Rightarrow> err option" where
  "crypto_Verify L publicKey digest signature =
     (if digest = [] \<or> signature = [] then Some (Msg ''crypto: empty digest or signature'')
      else case pub_kind L publicKey of
          RSA bits \<Rightarrow>
            if bits < 2048 then Some (Msg ''crypto: RSA public key too short'')
            else if \<not> raw_verify L publicKey digest signature
            then Some (Wrap ''crypto: RSA-PSS verify'' (Msg ''crypto/rsa: verification error'')) else None
        | ECDSA p256 \<Rightarrow>
            if \<not> p256 then Some (Msg ''crypto: ECDSA public key curve must be P-256'')
            else if \<not> raw_verify L publicKey digest signature
            then Some (Msg ''crypto: ECDSA verify failed'') else None
        | OtherKind \<Rightarrow> Some (Msg ''crypto: unsupported public key type''))"

definition PrivateKeyToDER :: "('k, 'p) pki \<Rightarrow> 'k \<Rightarrow> bytes res" where
  "PrivateKeyToDER L privateKey = wrapR ''crypto: marshal private key to PKCS#8 DER'' (MarshalPKCS8 L privateKey)"

definition PrivateKeyToSecureDER :: "('k, 'p) pki \<Rightarrow> 'k \<Rightarrow> SecureBuffer res" where
  "PrivateKeyToSecureDER L privateKey =
     bindR (PrivateKeyToDER L privateKey) (\<lambda>der. Inr (fst (NewSecureBuffer der)))"

definition PublicKeyToPEM :: "('k, 'p) pki \<Rightarrow> 'p \<Rightarrow> bytes res" where
  "PublicKeyToPEM L publicKey =
     (case MarshalPKIX L publicKey of
        Inl e \<Rightarrow> Inl (Wrap ''crypto: marshal public key'' e)
      | Inr der \<Rightarrow> Inr (pem_Encode L ''PUBLIC KEY'' der))"

definition ParsePrivateKeyFromDER :: "('k, 'p) pki \<Rightarrow> bytes \<Rightarrow> 'k res" where
  "ParsePrivateKeyFromDER L der =
     (case ParsePKCS8 L der of
        Inl e \<Rightarrow> Inl (Wrap ''crypto: parse PKCS#8 private key'' e)
      | Inr key \<Rightarrow> (case priv_kind L key of
            OtherKind \<Rightarrow> Inl (Msg ''crypto: unsupported private key type'') | _ \<Rightarrow> Inr key))"

definition ParsePublicKeyFromPEM :: "('k, 'p) pki \<Rightarrow> bytes \<Rightarrow> 'p res" where
  "ParsePublicKeyFromPEM L pemBytes =
     (if pemBytes = [] then Inl (Msg ''crypto: empty public key PEM data'')
      else case pem_Decode L pemBytes of
          None \<Rightarrow> Inl (Msg ''crypto: no PEM block found in public key data'')
        | Some (typ, body, rest) \<Rightarrow>
            if rest \<noteq> [] then Inl (Msg ''crypto: trailing data after public key PEM block'')
            else if typ \<noteq> ''PUBLIC KEY'' then Inl (Msg ''crypto: unexpected PEM type'')
            else (case ParsePKIX L body of
                Inl e \<Rightarrow> Inl (Wrap ''crypto: parse PKIX public key'' e)
              | Inr key \<Rightarrow> (case pub_kind L key of
                    OtherKind \<Rightarrow> Inl (Msg ''crypto: unsupported public key type (possible algorithm confusion)'')
                  | _ \<Rightarrow> Inr key)))"

section \<open>What is relied on\<close>

text \<open>Generated keys have the requested kind, the codecs are inverse to each other, a public key
  has the kind of its private key, and a signature is not empty and verifies under the public
  key.\<close>

definition pki_ok :: "('k, 'p) pki \<Rightarrow> bool" where
  "pki_ok L \<longleftrightarrow>
     (\<forall>bits r k r'. rsa_GenerateKey L bits r = (Inr k, r') \<longrightarrow> priv_kind L k = RSA bits) \<and>
     (\<forall>r k r'. ecdsa_GenerateKey L r = (Inr k, r') \<longrightarrow> priv_kind L k = ECDSA True) \<and>
     (\<forall>k. pub_kind L (public_of L k) = priv_kind L k) \<and>
     (\<forall>k der. MarshalPKCS8 L k = Inr der \<longrightarrow> ParsePKCS8 L der = Inr k \<and> der \<noteq> []) \<and>
     (\<forall>p der. MarshalPKIX L p = Inr der \<longrightarrow> ParsePKIX L der = Inr p) \<and>
     (\<forall>b. pem_Encode L ''PUBLIC KEY'' b \<noteq> [] \<and> pem_Decode L (pem_Encode L ''PUBLIC KEY'' b) = Some (''PUBLIC KEY'', b, [])) \<and>
     (\<forall>k d r sig r'. raw_sign L k d r = (Inr sig, r') \<longrightarrow> sig \<noteq> [] \<and> raw_verify L (public_of L k) d sig)"

lemma crypto_Sign_Verify:
  assumes "pki_ok L" "crypto_Sign L k d r = (Inr sig, r')"
  shows "crypto_Verify L (public_of L k) d sig = None"
proof -
  have pub: "pub_kind L (public_of L k) = priv_kind L k" using assms(1) by (simp add: pki_ok_def)
  have "raw_sign L k d r = (Inr sig, r')"
    using assms(2) by (auto simp: crypto_Sign_def split: if_splits key_kind.splits prod.splits)
  then have "sig \<noteq> []" "raw_verify L (public_of L k) d sig" using assms(1) unfolding pki_ok_def by blast+
  with pub assms(2) show ?thesis
    by (auto simp: crypto_Sign_def crypto_Verify_def split: if_splits key_kind.splits)
qed

lemma private_key_codec:
  "pki_ok L \<Longrightarrow> PrivateKeyToDER L k = Inr der \<Longrightarrow> priv_kind L k \<noteq> OtherKind \<Longrightarrow>
   ParsePrivateKeyFromDER L der = Inr k \<and> der \<noteq> []"
  by (auto simp: PrivateKeyToDER_def ParsePrivateKeyFromDER_def pki_ok_def split: key_kind.splits)

lemma public_key_codec:
  assumes "pki_ok L" "PublicKeyToPEM L p = Inr pem" "pub_kind L p \<noteq> OtherKind"
  shows "ParsePublicKeyFromPEM L pem = Inr p \<and> pem \<noteq> []"
proof -
  obtain der where "MarshalPKIX L p = Inr der" "pem = pem_Encode L ''PUBLIC KEY'' der"
    using assms(2) by (auto simp: PublicKeyToPEM_def split: sum.splits)
  with assms(1,3) show ?thesis
    by (auto simp: ParsePublicKeyFromPEM_def pki_ok_def split: key_kind.splits)
qed

lemma generated_kind:
  assumes "pki_ok L" "GenerateAsymmetricKey L t r = (Inr k, r')"
  shows "priv_kind L k \<noteq> OtherKind"
  using assms by (auto simp: GenerateAsymmetricKey_def pki_ok_def split: if_splits prod.splits) (metis key_kind.distinct)+

text \<open>A concrete library whose keys are their kinds, for witnesses.\<close>

definition toy_marshal_key :: "key_kind \<Rightarrow> bytes res" where
  "toy_marshal_key k = (if k = RSA 4096 then Inr [1] else if k = ECDSA True then Inr [2] else Inl (Msg ''toy''))"

definition toy_pki :: "(key_kind, key_kind) pki" where
  "toy_pki = \<lparr>rsa_GenerateKey = (\<lambda>bits r. (Inr (RSA bits), r)), ecdsa_GenerateKey = (\<lambda>r. (Inr (ECDSA True), r)),
     priv_kind = id, pub_kind = id, public_of = id, raw_sign = (\<lambda>k d r. (Inr (1 # d), r)), raw_verify = (\<lambda>p d s. s = 1 # d),
     MarshalPKCS8 = toy_marshal_key, ParsePKCS8 = (\<lambda>b. if b = [1] then Inr (RSA 4096) else Inr (ECDSA True)),
     MarshalPKIX = toy_marshal_key, ParsePKIX = (\<lambda>b. if b = [1] then Inr (RSA 4096) else Inr (ECDSA True)),
     pem_Encode = (\<lambda>t b. 45 # b), pem_Decode = (\<lambda>p. Some (''PUBLIC KEY'', tl p, []))\<rparr>"

lemma toy_pki_ok: "pki_ok toy_pki"
  by (simp add: pki_ok_def toy_pki_def toy_marshal_key_def)

end
