(* ===== verification/Service.thy ===== *)
theory Service
  imports LifecycleProps Vault Auth AuditLog Asymmetric
begin

text \<open>
  \<^verbatim>\<open>internal/service\<close>: the transport-independent core that the HTTP, gRPC and MCP front
  ends call. Every operation checks the seal, the policy and, for writes, the health of the
  store, then works through the data-key manager with the key-encryption key of the vault, and
  hands an entry to the auditor, whose result it ignores. The state is the core with its manager
  and its vault; the auditor is the list of entries it was given. Hash functions and the
  asymmetric algorithms are parameters.
\<close>

section \<open>State\<close>

text \<open>The two implementations of \<^verbatim>\<open>seal.Unsealer\<close>; the emergency callback of the vault acts
  on the manager.\<close>

datatype Unsealer = SealVault "Manager VaultState" | SealHSM HSMUnsealer

fun u_IsSealed :: "Unsealer \<Rightarrow> bool" where
  "u_IsSealed (SealVault v) = IsSealed v"
| "u_IsSealed (SealHSM h) = hsm_IsSealed h"

fun u_IsEmergencySealed :: "Unsealer \<Rightarrow> bool" where
  "u_IsEmergencySealed (SealVault v) = IsEmergencySealed v"
| "u_IsEmergencySealed (SealHSM h) = hsm_IsEmergencySealed h"

fun u_KEKRef :: "Unsealer \<Rightarrow> KEK res" where
  "u_KEKRef (SealVault v) = KEKRef v"
| "u_KEKRef (SealHSM h) = hsm_KEKRef h"

fun u_EmergencySeal :: "Unsealer \<Rightarrow> Manager \<Rightarrow> Unsealer \<times> Manager" where
  "u_EmergencySeal (SealVault v) m = (case EmergencySeal v m of (v1, m1) \<Rightarrow> (SealVault v1, m1))"
| "u_EmergencySeal (SealHSM h) m = (SealHSM (hsm_EmergencySeal h), m)"

text \<open>\<^verbatim>\<open>alerts\<close> are the calls of the alerter: operation and resource.\<close>

record Core =
  manager :: Manager
  vault_seal :: Unsealer
  auditLog :: "LogEntry list option"
  adminToken :: string
  alerts :: "(string \<times> string) list"

definition NewCore :: "Manager \<Rightarrow> Unsealer \<Rightarrow> LogEntry list option \<Rightarrow> Core" where
  "NewCore mgr s log = \<lparr>manager = mgr, vault_seal = s, auditLog = log, adminToken = [], alerts = []\<rparr>"

definition SetAdminToken :: "string \<Rightarrow> Core \<Rightarrow> Core" where
  "SetAdminToken token c = c\<lparr>adminToken := token\<rparr>"

text \<open>The context of a call: its values, its error once it is cancelled, and the time.\<close>

record call =
  cvalues :: request_context
  cancelled :: "err option"
  at :: time

section \<open>Guards and audit\<close>

definition requireUnsealed :: "Core \<Rightarrow> err option" where
  "requireUnsealed c =
     (if u_IsEmergencySealed (vault_seal c) then
        Some (Msg ''vault is emergency sealed: all operations refused until process restart + Shamir unseal'')
      else if u_IsSealed (vault_seal c) then
        Some (Msg ''vault is sealed: run unseal ceremony to resume operations'')
      else None)"

text \<open>Only the Postgres store implements the health interface.\<close>

definition requireWritable :: "Core \<Rightarrow> err option" where
  "requireWritable c =
     (case store (manager c) of
        Mem _ \<Rightarrow> None
      | Pg p \<Rightarrow> if \<not> healthy p then Some (Msg ''database unavailable (degraded mode): write operations refused, cached DEKs still available for decrypt'')
          else None)"

definition authorize :: "unicode \<Rightarrow> Policy option \<Rightarrow> string \<Rightarrow> string \<Rightarrow> err option" where
  "authorize U policy action keyID =
     (case policy of
        None \<Rightarrow> None
      | Some p \<Rightarrow>
          if \<not> IsActionAllowed U p action then Some (Msg ''access denied: role does not have action on key'')
          else if \<not> IsKeyAllowed p keyID then Some (Msg ''access denied: role cannot access key'')
          else None)"

text \<open>A chain of \<^verbatim>\<open>if err := ...; err != nil { return err }\<close>.\<close>

fun first_err :: "err option list \<Rightarrow> err option" where
  "first_err [] = None"
| "first_err (Some e # _) = Some e"
| "first_err (None # es) = first_err es"

definition recordAudit :: "call \<Rightarrow> string \<Rightarrow> string \<Rightarrow> string \<Rightarrow> Core \<Rightarrow> Core" where
  "recordAudit cc action keyID status c =
     (case auditLog c of
        None \<Rightarrow> c
      | Some log \<Rightarrow>
          let actor = (case PolicyFromContext (cvalues cc) of Some p \<Rightarrow> RoleID p | None \<Rightarrow> ''system'');
              entry = \<lparr>TraceID = [], Timestamp = at cc, ClientIP = [], Actor = actor, Resource = keyID,
                Action = action, Result = status, EntryKeyID = [], Status = []\<rparr>
          in c\<lparr>auditLog := Some (log @ [entry])\<rparr>)"

section \<open>core.go\<close>

definition Health :: "Core \<Rightarrow> string \<times> bool" where
  "Health c =
     (if u_IsEmergencySealed (vault_seal c) then (''emergency_sealed'', True)
      else if u_IsSealed (vault_seal c) then (''sealed'', False)
      else (''unsealed'', False))"

definition core_EmergencySeal :: "call \<Rightarrow> string \<Rightarrow> Core \<Rightarrow> unit res \<times> Core" where
  "core_EmergencySeal cc token c =
     (if adminToken c = [] then (Inl (Msg ''service: emergency seal not configured (no admin token)''), c)
      else if token \<noteq> adminToken c then
        (Inl (Msg ''service: invalid admin token''), recordAudit cc ''EmergencySeal'' [] ''denied'' c)
      else (case u_EmergencySeal (vault_seal c) (manager c) of
          (s, m) \<Rightarrow> (Inr (), recordAudit cc ''EmergencySeal'' [] ''success''
             (c\<lparr>vault_seal := s, manager := ClearCache m\<rparr>))))"

record CreateKeyResult =
  ck_KeyID :: string
  ck_Version :: int
  ck_PlaintextDEK :: "SecureBuffer option"

definition core_CreateKey ::
  "prims \<Rightarrow> unicode \<Rightarrow> call \<Rightarrow> string \<Rightarrow> int \<Rightarrow> bool \<Rightarrow> Policy option \<Rightarrow> Core \<Rightarrow> csprng \<Rightarrow>
   CreateKeyResult res \<times> Core \<times> csprng" where
  "core_CreateKey P U cc keyID days returnDEK policy c r =
     (case first_err [requireUnsealed c, requireWritable c, authorize U policy ''CreateKey'' keyID] of
        Some e \<Rightarrow> (Inl e, c, r)
      | None \<Rightarrow>
          (case u_KEKRef (vault_seal c) of
             Inl e \<Rightarrow> (Inl e, recordAudit cc ''CreateKey'' keyID ''error'' c, r)
           | Inr kek \<Rightarrow>
               (case CreateKey P (at cc) keyID (Some kek) days (manager c) r of
                  (Inl e, m, r1) \<Rightarrow> (Inl e, recordAudit cc ''CreateKey'' keyID ''error'' (c\<lparr>manager := m\<rparr>), r1)
                | (Inr (meta, plainDEK), m, r1) \<Rightarrow>
                    (Inr \<lparr>ck_KeyID = KeyID meta, ck_Version = Version meta,
                       ck_PlaintextDEK = (if returnDEK then Some plainDEK else None)\<rparr>,
                     recordAudit cc ''CreateKey'' keyID ''success'' (c\<lparr>manager := m\<rparr>), r1))))"

definition core_RotateKey ::
  "prims \<Rightarrow> unicode \<Rightarrow> call \<Rightarrow> string \<Rightarrow> Policy option \<Rightarrow> Core \<Rightarrow> csprng \<Rightarrow>
   (string \<times> int \<times> SecureBuffer) res \<times> Core \<times> csprng" where
  "core_RotateKey P U cc keyID policy c r =
     (case first_err [requireUnsealed c, requireWritable c, authorize U policy ''KeyOp'' keyID] of
        Some e \<Rightarrow> (Inl e, c, r)
      | None \<Rightarrow>
          (case u_KEKRef (vault_seal c) of
             Inl e \<Rightarrow> (Inl e, recordAudit cc ''RotateKey'' keyID ''error'' c, r)
           | Inr kek \<Rightarrow>
               (case RotateKey P (cancelled cc) (at cc) keyID (Some kek) (manager c) r of
                  (Inl e, m, r1) \<Rightarrow> (Inl e, recordAudit cc ''RotateKey'' keyID ''error'' (c\<lparr>manager := m\<rparr>), r1)
                | (Inr (meta, plainDEK), m, r1) \<Rightarrow>
                    (Inr (KeyID meta, Version meta, plainDEK),
                     recordAudit cc ''RotateKey'' keyID ''success'' (c\<lparr>manager := m\<rparr>), r1))))"

text \<open>The three operations that only call the manager share their shape.\<close>

definition manager_op ::
  "call \<Rightarrow> string \<Rightarrow> string \<Rightarrow> (Manager \<Rightarrow> unit res \<times> Manager) \<Rightarrow> Core \<Rightarrow> unit res \<times> Core" where
  "manager_op cc action keyID f c =
     (case f (manager c) of
        (Inl e, m) \<Rightarrow> (Inl e, recordAudit cc action keyID ''error'' (c\<lparr>manager := m\<rparr>))
      | (Inr _, m) \<Rightarrow> (Inr (), recordAudit cc action keyID ''success'' (c\<lparr>manager := m\<rparr>)))"

definition core_ShredKey :: "unicode \<Rightarrow> call \<Rightarrow> string \<Rightarrow> int \<Rightarrow> Policy option \<Rightarrow> Core \<Rightarrow> unit res \<times> Core" where
  "core_ShredKey U cc keyID version policy c =
     (case first_err [requireUnsealed c, requireWritable c, authorize U policy ''KeyOp'' keyID] of
        Some e \<Rightarrow> (Inl e, c)
      | None \<Rightarrow> manager_op cc ''ShredKey'' keyID (ShredKey (cancelled cc) keyID version) c)"

definition core_SoftDeleteKey :: "unicode \<Rightarrow> call \<Rightarrow> string \<Rightarrow> int \<Rightarrow> Policy option \<Rightarrow> Core \<Rightarrow> unit res \<times> Core" where
  "core_SoftDeleteKey U cc keyID version policy c =
     (case first_err [requireUnsealed c, requireWritable c, authorize U policy ''KeyOp'' keyID] of
        Some e \<Rightarrow> (Inl e, c)
      | None \<Rightarrow> manager_op cc ''SoftDeleteKey'' keyID (SoftDeleteKey (cancelled cc) (at cc) keyID version) c)"

definition core_RestoreKey :: "unicode \<Rightarrow> call \<Rightarrow> string \<Rightarrow> int \<Rightarrow> Policy option \<Rightarrow> Core \<Rightarrow> unit res \<times> Core" where
  "core_RestoreKey U cc keyID version policy c =
     (case first_err [requireUnsealed c, requireWritable c, authorize U policy ''KeyOp'' keyID] of
        Some e \<Rightarrow> (Inl e, c)
      | None \<Rightarrow> manager_op cc ''RestoreKey'' keyID (RestoreKey (cancelled cc) keyID version) c)"

text \<open>\<^verbatim>\<open>GenerateDataKeyResult\<close> keeps the plaintext private; \<^verbatim>\<open>WriteBase64To\<close> writes it once
  and wipes it. The writer is a function of the encoded text that may fail.\<close>

record GenerateDataKeyResult =
  plaintextDEK :: "SecureBuffer option"
  dk_Ciphertext :: bytes

definition WriteBase64To ::
  "(bytes \<Rightarrow> string) \<Rightarrow> (string \<Rightarrow> err option) \<Rightarrow> GenerateDataKeyResult \<Rightarrow> err option \<times> GenerateDataKeyResult" where
  "WriteBase64To base64 w res =
     (case plaintextDEK res of
        None \<Rightarrow> (Some (Msg ''service: plaintext DEK already wiped or nil''), res)
      | Some dek \<Rightarrow>
          if IsDestroyed dek then (Some (Msg ''service: plaintext DEK already wiped''), res)
          else ((case WithKey dek (\<lambda>k. case w (base64 k) of Some e \<Rightarrow> Inl e | None \<Rightarrow> Inr ()) of
                   Inl e \<Rightarrow> Some e | Inr _ \<Rightarrow> None),
                res\<lparr>plaintextDEK := Some (Wipe dek)\<rparr>))"

definition core_GenerateDataKey ::
  "prims \<Rightarrow> unicode \<Rightarrow> call \<Rightarrow> string \<Rightarrow> Policy option \<Rightarrow> Core \<Rightarrow> csprng \<Rightarrow>
   GenerateDataKeyResult res \<times> Core \<times> csprng" where
  "core_GenerateDataKey P U cc keyID policy c r =
     (case first_err [requireUnsealed c, authorize U policy ''KeyOp'' keyID] of
        Some e \<Rightarrow> (Inl e, c, r)
      | None \<Rightarrow>
          (case u_KEKRef (vault_seal c) of
             Inl e \<Rightarrow> (Inl e, recordAudit cc ''GenerateDataKey'' keyID ''error'' c, r)
           | Inr kek \<Rightarrow>
               (case GenerateDataKey P (at cc) keyID (Some kek) (manager c) r of
                  (Inl e, m, r1) \<Rightarrow> (Inl e, recordAudit cc ''GenerateDataKey'' keyID ''error'' (c\<lparr>manager := m\<rparr>), r1)
                | (Inr (plainDEK, ciphertext), m, r1) \<Rightarrow>
                    (Inr \<lparr>plaintextDEK = Some plainDEK, dk_Ciphertext = ciphertext\<rparr>,
                     recordAudit cc ''GenerateDataKey'' keyID ''success'' (c\<lparr>manager := m\<rparr>), r1))))"

definition alert :: "string \<Rightarrow> string \<Rightarrow> Core \<Rightarrow> Core" where
  "alert operation resource c = c\<lparr>alerts := alerts c @ [(operation, resource)]\<rparr>"

record EncryptResult =
  er_Ciphertext :: bytes
  er_Version :: int

definition core_Encrypt ::
  "prims \<Rightarrow> unicode \<Rightarrow> call \<Rightarrow> string \<Rightarrow> bytes \<Rightarrow> Policy option \<Rightarrow> Core \<Rightarrow> csprng \<Rightarrow>
   EncryptResult res \<times> Core \<times> csprng" where
  "core_Encrypt P U cc keyID plaintext policy c r =
     (case first_err [requireUnsealed c, authorize U policy ''Encrypt'' keyID] of
        Some e \<Rightarrow> (Inl e, c, r)
      | None \<Rightarrow>
          (case GetActiveKey (at cc) keyID (manager c) of
             (Inl e, m) \<Rightarrow> (Inl e, recordAudit cc ''Encrypt'' keyID ''error'' (c\<lparr>manager := m\<rparr>), r)
           | (Inr meta, m) \<Rightarrow>
               let c1 = c\<lparr>manager := m\<rparr>
               in case u_KEKRef (vault_seal c) of
                    Inl e \<Rightarrow> (Inl e, recordAudit cc ''Encrypt'' keyID ''error'' c1, r)
                  | Inr kek \<Rightarrow>
                      (case UnwrapDEK P kek (EncryptedMaterial meta) of
                         Inl e \<Rightarrow> (Inl e, recordAudit cc ''Encrypt'' keyID ''error'' (alert ''KEKUnwrapFailure'' keyID c1), r)
                       | Inr dek \<Rightarrow>
                           (case EncryptVersioned (aes P) dek (SafeUint32 (Version meta)) plaintext r of
                              (Inl e, r1) \<Rightarrow> (Inl e, recordAudit cc ''Encrypt'' keyID ''error'' c1, r1)
                            | (Inr ciphertext, r1) \<Rightarrow>
                                (Inr \<lparr>er_Ciphertext = ciphertext, er_Version = Version meta\<rparr>,
                                 recordAudit cc ''Encrypt'' keyID ''success'' c1, r1)))))"

record DecryptResult =
  dr_Plaintext :: SecureBuffer
  dr_Version :: int

definition core_Decrypt ::
  "prims \<Rightarrow> unicode \<Rightarrow> call \<Rightarrow> string \<Rightarrow> bytes \<Rightarrow> Policy option \<Rightarrow> Core \<Rightarrow> DecryptResult res \<times> Core" where
  "core_Decrypt P U cc keyID ciphertext policy c =
     (case first_err [requireUnsealed c, authorize U policy ''Decrypt'' keyID] of
        Some e \<Rightarrow> (Inl e, c)
      | None \<Rightarrow>
          if length ciphertext < MinCiphertextSize then (Inl (Msg ''service: ciphertext too short''), c)
          else case DecodeVersionedCiphertext ciphertext of
              Inl e \<Rightarrow> (Inl e, c)
            | Inr (version, _, _) \<Rightarrow>
                (case GetKeyForDecrypt (at cc) keyID (uint version) (manager c) of
                   (Inl e, m) \<Rightarrow> (Inl e, recordAudit cc ''Decrypt'' keyID ''error'' (c\<lparr>manager := m\<rparr>))
                 | (Inr meta, m) \<Rightarrow>
                     let c1 = c\<lparr>manager := m\<rparr>
                     in case u_KEKRef (vault_seal c) of
                          Inl e \<Rightarrow> (Inl e, recordAudit cc ''Decrypt'' keyID ''error'' c1)
                        | Inr kek \<Rightarrow>
                            (case UnwrapDEK P kek (EncryptedMaterial meta) of
                               Inl e \<Rightarrow> (Inl e, recordAudit cc ''Decrypt'' keyID ''error'' (alert ''KEKUnwrapFailure'' keyID c1))
                             | Inr dek \<Rightarrow>
                                 (case DecryptVersioned (aes P) dek ciphertext of
                                    Inl e \<Rightarrow> (Inl e, recordAudit cc ''Decrypt'' keyID ''error'' c1)
                                  | Inr (plaintext, decVersion) \<Rightarrow>
                                      (Inr \<lparr>dr_Plaintext = plaintext, dr_Version = uint decVersion\<rparr>,
                                       recordAudit cc ''Decrypt'' keyID ''success'' c1)))))"

definition core_ClearCache :: "Core \<Rightarrow> Core" where
  "core_ClearCache c = c\<lparr>manager := ClearCache (manager c)\<rparr>"

section \<open>core\_v12.go\<close>

text \<open>SHA-256, HMAC-SHA256 and the SM2 functions of the gmsm build, on PEM-encoded keys; in the
  other build both SM2 functions fail.\<close>

record hashes =
  sha256 :: "bytes \<Rightarrow> bytes"
  hmac256 :: "bytes \<Rightarrow> bytes \<Rightarrow> bytes"
  sm2_sign :: "bytes \<Rightarrow> bytes \<Rightarrow> csprng \<Rightarrow> bytes res \<times> csprng"
  sm2_verify :: "bytes \<Rightarrow> bytes \<Rightarrow> bytes \<Rightarrow> bool res"

definition isAsymmetricKeyType :: "string \<Rightarrow> bool" where
  "isAsymmetricKeyType keyType \<longleftrightarrow> keyType \<in> {''rsa'', ''ecdsa'', ''sm2''}"

definition isSymmetricKeyType :: "string \<Rightarrow> bool" where
  "isSymmetricKeyType keyType \<longleftrightarrow> keyType \<in> {[], ''aes'', ''sm4''}"

fun subtleEqual_loop :: "bytes \<Rightarrow> bytes \<Rightarrow> bool" where
  "subtleEqual_loop (a # as) (b # bs) = (if a \<noteq> b then False else subtleEqual_loop as bs)"
| "subtleEqual_loop _ _ = True"

definition subtleEqual :: "bytes \<Rightarrow> bytes \<Rightarrow> bool" where
  "subtleEqual a b = (if length a \<noteq> length b then False else subtleEqual_loop a b)"

definition signAsymmetric ::
  "hashes \<Rightarrow> ('k, 'p) pki \<Rightarrow> bytes \<Rightarrow> bytes \<Rightarrow> csprng \<Rightarrow> bytes res \<times> csprng" where
  "signAsymmetric H L privKeyDER msg r =
     (case ParsePrivateKeyFromDER L privKeyDER of
        Inl e \<Rightarrow> (Inl (Wrap ''service: parse private key'' e), r)
      | Inr privKey \<Rightarrow> crypto_Sign L privKey (sha256 H msg) r)"

definition verifyAsymmetric ::
  "hashes \<Rightarrow> ('k, 'p) pki \<Rightarrow> bytes \<Rightarrow> bytes \<Rightarrow> bytes \<Rightarrow> string \<Rightarrow> bool res" where
  "verifyAsymmetric H L pubKeyPEM msg signature keyType =
     (if keyType = KeyTypeSM2 then sm2_verify H pubKeyPEM msg signature
      else if keyType = KeyTypeRSA \<or> keyType = KeyTypeECDSA then
        (case ParsePublicKeyFromPEM L pubKeyPEM of
           Inl e \<Rightarrow> Inl (Wrap ''service: parse public key'' e)
         | Inr pubKey \<Rightarrow> (case crypto_Verify L pubKey (sha256 H msg) signature of Some _ \<Rightarrow> Inr False | None \<Rightarrow> Inr True))
      else Inl (Msg ''service: unsupported key type''))"

definition core_Sign ::
  "prims \<Rightarrow> hashes \<Rightarrow> ('k, 'p) pki \<Rightarrow> unicode \<Rightarrow> call \<Rightarrow> string \<Rightarrow> bytes \<Rightarrow> Policy option \<Rightarrow> Core \<Rightarrow> csprng \<Rightarrow>
   (bytes \<times> int) res \<times> Core \<times> csprng" where
  "core_Sign P H L U cc keyID msg policy c r =
     (case first_err [requireUnsealed c, authorize U policy ''Sign'' keyID] of
        Some e \<Rightarrow> (Inl e, c, r)
      | None \<Rightarrow>
          (case GetActiveKey (at cc) keyID (manager c) of
             (Inl e, m) \<Rightarrow> (Inl e, recordAudit cc ''Sign'' keyID ''error'' (c\<lparr>manager := m\<rparr>), r)
           | (Inr meta, m) \<Rightarrow>
               let c1 = c\<lparr>manager := m\<rparr>
               in if \<not> isAsymmetricKeyType (KeyType meta) then
                    (Inl (Msg ''service: sign requires asymmetric key''), recordAudit cc ''Sign'' keyID ''error'' c1, r)
                  else case u_KEKRef (vault_seal c) of
                      Inl e \<Rightarrow> (Inl e, recordAudit cc ''Sign'' keyID ''error'' c1, r)
                    | Inr kek \<Rightarrow>
                        (case UnwrapDEK P kek (EncryptedMaterial meta) of
                           Inl e \<Rightarrow> (Inl (Wrap ''service: sign: unwrap key'' e), recordAudit cc ''Sign'' keyID ''error'' c1, r)
                         | Inr privSB \<Rightarrow>
                             (case WithKey privSB Inr of
                                Inl e \<Rightarrow> (Inl e, recordAudit cc ''Sign'' keyID ''error'' c1, r)
                              | Inr privKey \<Rightarrow>
                                  (case (if KeyType meta = ''sm2'' then sm2_sign H privKey msg r
                                         else signAsymmetric H L privKey msg r) of
                                     (Inl e, r1) \<Rightarrow> (Inl e, recordAudit cc ''Sign'' keyID ''error'' c1, r1)
                                   | (Inr sig, r1) \<Rightarrow>
                                       (Inr (sig, Version meta), recordAudit cc ''Sign'' keyID ''success'' c1, r1))))))"

definition core_Verify ::
  "hashes \<Rightarrow> ('k, 'p) pki \<Rightarrow> unicode \<Rightarrow> call \<Rightarrow> string \<Rightarrow> bytes \<Rightarrow> bytes \<Rightarrow> Policy option \<Rightarrow> Core \<Rightarrow>
   (bool \<times> int) res \<times> Core" where
  "core_Verify H L U cc keyID msg signature policy c =
     (case first_err [requireUnsealed c, authorize U policy ''Verify'' keyID] of
        Some e \<Rightarrow> (Inl e, c)
      | None \<Rightarrow>
          (case GetActiveKey (at cc) keyID (manager c) of
             (Inl e, m) \<Rightarrow> (Inl e, recordAudit cc ''Verify'' keyID ''error'' (c\<lparr>manager := m\<rparr>))
           | (Inr meta, m) \<Rightarrow>
               let c1 = c\<lparr>manager := m\<rparr>
               in if PublicKey meta = [] then
                    (Inl (Msg ''service: verify: no public key''), recordAudit cc ''Verify'' keyID ''error'' c1)
                  else case verifyAsymmetric H L (PublicKey meta) msg signature (KeyType meta) of
                      Inl e \<Rightarrow> (Inl e, recordAudit cc ''Verify'' keyID ''error'' c1)
                    | Inr valid \<Rightarrow> (Inr (valid, Version meta), recordAudit cc ''Verify'' keyID ''success'' c1)))"

definition core_GenerateMac ::
  "prims \<Rightarrow> hashes \<Rightarrow> unicode \<Rightarrow> call \<Rightarrow> string \<Rightarrow> bytes \<Rightarrow> Policy option \<Rightarrow> Core \<Rightarrow> (bytes \<times> int) res \<times> Core" where
  "core_GenerateMac P H U cc keyID msg policy c =
     (case first_err [requireUnsealed c, authorize U policy ''GenerateMac'' keyID] of
        Some e \<Rightarrow> (Inl e, c)
      | None \<Rightarrow>
          (case GetActiveKey (at cc) keyID (manager c) of
             (Inl e, m) \<Rightarrow> (Inl e, recordAudit cc ''GenerateMac'' keyID ''error'' (c\<lparr>manager := m\<rparr>))
           | (Inr meta, m) \<Rightarrow>
               let c1 = c\<lparr>manager := m\<rparr>
               in if \<not> isSymmetricKeyType (KeyType meta) then
                    (Inl (Msg ''service: mac requires symmetric key''), recordAudit cc ''GenerateMac'' keyID ''error'' c1)
                  else case u_KEKRef (vault_seal c) of
                      Inl e \<Rightarrow> (Inl e, recordAudit cc ''GenerateMac'' keyID ''error'' c1)
                    | Inr kek \<Rightarrow>
                        (case UnwrapDEK P kek (EncryptedMaterial meta) of
                           Inl e \<Rightarrow> (Inl e, recordAudit cc ''GenerateMac'' keyID ''error'' c1)
                         | Inr keySB \<Rightarrow>
                             (case WithKey keySB Inr of
                                Inl e \<Rightarrow> (Inl e, recordAudit cc ''GenerateMac'' keyID ''error'' c1)
                              | Inr key \<Rightarrow>
                                  (Inr (hmac256 H key msg, Version meta),
                                   recordAudit cc ''GenerateMac'' keyID ''success'' c1)))))"

definition core_VerifyMac ::
  "prims \<Rightarrow> hashes \<Rightarrow> unicode \<Rightarrow> call \<Rightarrow> string \<Rightarrow> bytes \<Rightarrow> bytes \<Rightarrow> Policy option \<Rightarrow> Core \<Rightarrow> (bool \<times> int) res \<times> Core" where
  "core_VerifyMac P H U cc keyID msg expectedMac policy c =
     (case core_GenerateMac P H U cc keyID msg policy c of
        (Inl e, c1) \<Rightarrow> (Inl e, c1)
      | (Inr (tag, version), c1) \<Rightarrow>
          (Inr (length tag = length expectedMac \<and> subtleEqual tag expectedMac, version),
           recordAudit cc ''VerifyMac'' keyID ''success'' c1))"

definition core_GenerateDataKeyWithoutPlaintext ::
  "prims \<Rightarrow> unicode \<Rightarrow> call \<Rightarrow> string \<Rightarrow> Policy option \<Rightarrow> Core \<Rightarrow> csprng \<Rightarrow> bytes res \<times> Core \<times> csprng" where
  "core_GenerateDataKeyWithoutPlaintext P U cc keyID policy c r =
     (case first_err [requireUnsealed c, authorize U policy ''KeyOp'' keyID] of
        Some e \<Rightarrow> (Inl e, c, r)
      | None \<Rightarrow>
          (case u_KEKRef (vault_seal c) of
             Inl e \<Rightarrow> (Inl e, recordAudit cc ''GenerateDataKeyWithoutPlaintext'' keyID ''error'' c, r)
           | Inr kek \<Rightarrow>
               (case GenerateDataKey P (at cc) keyID (Some kek) (manager c) r of
                  (Inl e, m, r1) \<Rightarrow>
                    (Inl e, recordAudit cc ''GenerateDataKeyWithoutPlaintext'' keyID ''error'' (c\<lparr>manager := m\<rparr>), r1)
                | (Inr (_, ct), m, r1) \<Rightarrow>
                    (Inr ct, recordAudit cc ''GenerateDataKeyWithoutPlaintext'' keyID ''success'' (c\<lparr>manager := m\<rparr>), r1))))"

record ReEncryptResult =
  re_Ciphertext :: bytes
  re_Version :: int
  re_Source :: string
  re_Dest :: string

definition core_ReEncrypt ::
  "prims \<Rightarrow> unicode \<Rightarrow> call \<Rightarrow> string \<Rightarrow> bytes \<Rightarrow> string \<Rightarrow> Policy option \<Rightarrow> Core \<Rightarrow> csprng \<Rightarrow>
   ReEncryptResult res \<times> Core \<times> csprng" where
  "core_ReEncrypt P U cc sourceKeyID ciphertext destKeyID policy c r =
     (case first_err [requireUnsealed c, authorize U policy ''Decrypt'' sourceKeyID, authorize U policy ''Encrypt'' destKeyID] of
        Some e \<Rightarrow> (Inl e, c, r)
      | None \<Rightarrow>
          (case core_Decrypt P U cc sourceKeyID ciphertext policy c of
             (Inl e, c1) \<Rightarrow>
               (Inl (Wrap ''service: re-encrypt: decrypt source'' e), recordAudit cc ''ReEncrypt'' sourceKeyID ''error'' c1, r)
           | (Inr dec, c1) \<Rightarrow>
               (case WithKey (dr_Plaintext dec) Inr of
                  Inl e \<Rightarrow>
                    (Inl (Wrap ''service: re-encrypt: extract plaintext'' e), recordAudit cc ''ReEncrypt'' destKeyID ''error'' c1, r)
                | Inr plainBytes \<Rightarrow>
                    (case core_Encrypt P U cc destKeyID plainBytes policy c1 r of
                       (Inl e, c2, r1) \<Rightarrow>
                         (Inl (Wrap ''service: re-encrypt: encrypt dest'' e), recordAudit cc ''ReEncrypt'' destKeyID ''error'' c2, r1)
                     | (Inr enc, c2, r1) \<Rightarrow>
                         (Inr \<lparr>re_Ciphertext = er_Ciphertext enc, re_Version = er_Version enc,
                            re_Source = sourceKeyID, re_Dest = destKeyID\<rparr>,
                          recordAudit cc ''ReEncrypt'' (sourceKeyID @ map char_of [226, 134, 146 :: nat] @ destKeyID) ''success'' c2, r1)))))"

definition core_GetPublicKey :: "unicode \<Rightarrow> call \<Rightarrow> string \<Rightarrow> Policy option \<Rightarrow> Core \<Rightarrow> (bytes \<times> int) res \<times> Core" where
  "core_GetPublicKey U cc keyID policy c =
     (case first_err [requireUnsealed c, authorize U policy ''KeyOp'' keyID] of
        Some e \<Rightarrow> (Inl e, c)
      | None \<Rightarrow>
          (case GetActiveKey (at cc) keyID (manager c) of
             (Inl e, m) \<Rightarrow> (Inl e, recordAudit cc ''GetPublicKey'' keyID ''error'' (c\<lparr>manager := m\<rparr>))
           | (Inr meta, m) \<Rightarrow>
               let c1 = c\<lparr>manager := m\<rparr>
               in if PublicKey meta = [] then
                    (Inl (Msg ''service: key has no public key''), recordAudit cc ''GetPublicKey'' keyID ''error'' c1)
                  else (Inr (PublicKey meta, Version meta), recordAudit cc ''GetPublicKey'' keyID ''success'' c1)))"

definition core_DisableKey :: "unicode \<Rightarrow> call \<Rightarrow> string \<Rightarrow> Policy option \<Rightarrow> Core \<Rightarrow> unit res \<times> Core" where
  "core_DisableKey U cc keyID policy c =
     (case first_err [requireUnsealed c, authorize U policy ''KeyOp'' keyID] of
        Some e \<Rightarrow> (Inl e, c)
      | None \<Rightarrow>
          (case GetActiveKey (at cc) keyID (manager c) of
             (Inl e, m) \<Rightarrow> (Inl e, recordAudit cc ''DisableKey'' keyID ''error'' (c\<lparr>manager := m\<rparr>))
           | (Inr meta, m) \<Rightarrow>
               manager_op cc ''DisableKey'' keyID (SoftDeleteKey (cancelled cc) (at cc) keyID (Version meta)) (c\<lparr>manager := m\<rparr>)))"

definition core_EnableKey :: "unicode \<Rightarrow> call \<Rightarrow> string \<Rightarrow> int \<Rightarrow> Policy option \<Rightarrow> Core \<Rightarrow> unit res \<times> Core" where
  "core_EnableKey U cc keyID version policy c =
     (case first_err [requireUnsealed c, authorize U policy ''KeyOp'' keyID] of
        Some e \<Rightarrow> (Inl e, c)
      | None \<Rightarrow> manager_op cc ''EnableKey'' keyID (RestoreKey (cancelled cc) keyID version) c)"

definition core_CancelKeyDeletion :: "unicode \<Rightarrow> call \<Rightarrow> string \<Rightarrow> int \<Rightarrow> Policy option \<Rightarrow> Core \<Rightarrow> unit res \<times> Core" where
  "core_CancelKeyDeletion U cc keyID version policy c = core_EnableKey U cc keyID version policy c"

end
