(* ===== verification/Totp.thy ===== *)
theory Totp
  imports GoLib Memguard
begin

text \<open>
  \<^verbatim>\<open>internal/auth/totp.go\<close> and \<^verbatim>\<open>mfa_store_memory.go\<close>: time-based one-time
  passwords and the store of the roles' second factors. HMAC-SHA1 and the base32 codec are
  parameters, with their lengths and their round trip as the laws; so is the upper-case
  conversion, which leaves base32 text unchanged.
\<close>

record totp_lib =
  hmac_sha1 :: "bytes \<Rightarrow> bytes \<Rightarrow> bytes"
  b32_encode :: "bytes \<Rightarrow> string"
  b32_decode :: "string \<Rightarrow> bytes option"
  ToUpper :: "string \<Rightarrow> string"
  url_runes :: "string \<Rightarrow> string"

definition totp_lib_ok :: "totp_lib \<Rightarrow> bool" where
  "totp_lib_ok L \<longleftrightarrow> (\<forall>k m. length (hmac_sha1 L k m) = 20) \<and> (\<forall>s. b32_decode L (ToUpper L (b32_encode L s)) = Some s)"

section \<open>totp.go\<close>

definition totpDigits :: nat where "totpDigits = 6"
definition totpPeriod :: int where "totpPeriod = 30"
definition totpSkew :: int where "totpSkew = 1"
definition totpSecretLen :: int where "totpSecretLen = 20"

lemmas totp_consts = totpDigits_def totpPeriod_def totpSkew_def totpSecretLen_def

definition GenerateTOTPSecret :: "totp_lib \<Rightarrow> csprng \<Rightarrow> string res \<times> csprng" where
  "GenerateTOTPSecret L r =
     (case GenerateSecureRandom totpSecretLen r of
        (Inl e, r1) \<Rightarrow> (Inl (Wrap ''auth: generate TOTP secret'' e), r1)
      | (Inr secret, r1) \<Rightarrow> (Inr (b32_encode L secret), r1))"

text \<open>\<^verbatim>\<open>binary.BigEndian.PutUint64\<close>.\<close>

definition PutUint64 :: "64 word \<Rightarrow> bytes" where
  "PutUint64 v = map (\<lambda>i. ucast (drop_bit (56 - 8 * i) v)) [0, 1, 2, 3, 4, 5, 6, 7 :: nat]"

text \<open>Out of range indices of the digest would be a panic; with 20-byte digests there are none.\<close>

definition hotp :: "totp_lib \<Rightarrow> bytes \<Rightarrow> 64 word \<Rightarrow> string" where
  "hotp L hmacKey counter =
     (let h = hmac_sha1 L hmacKey (PutUint64 counter);
          offset = unat (h ! (length h - 1) AND 15);
          b = push_bit 24 (ucast (h ! offset) AND 127) OR push_bit 16 (ucast (h ! (offset + 1))) OR
              push_bit 8 (ucast (h ! (offset + 2))) OR (ucast (h ! (offset + 3)) :: 32 word)
      in pad 6 (unat (b mod 1000000)))"

text \<open>\<^verbatim>\<open>t.Unix()\<close> from the time since year 1.\<close>

definition Unix :: "time \<Rightarrow> int" where
  "Unix t = t div second - 62135596800"

definition GenerateTOTP :: "totp_lib \<Rightarrow> string \<Rightarrow> time \<Rightarrow> time \<Rightarrow> string res" where
  "GenerateTOTP L secret t now =
     (let t = (if isZero t then now else t)
      in case b32_decode L (ToUpper L secret) of
           None \<Rightarrow> Inl (Wrap ''auth: decode TOTP secret'' (Msg ''illegal base32 data''))
         | Some hmacKey \<Rightarrow> Inr (hotp L hmacKey (word_of_int (Unix t) div 30)))"

definition subtleEqualString :: "string \<Rightarrow> string \<Rightarrow> bool" where
  "subtleEqualString a b = (if length a \<noteq> length b then False else a = b)"

text \<open>Go's integer division truncates towards zero.\<close>

definition quot :: "int \<Rightarrow> int \<Rightarrow> int" where
  "quot a b = (if a < 0 then - ((- a) div b) else a div b)"

text \<open>The loop over the skews; \<open>mark\<close> is what follows a match.\<close>

fun skew_loop :: "totp_lib \<Rightarrow> bytes \<Rightarrow> int \<Rightarrow> string \<Rightarrow> (int \<Rightarrow> 'a) \<Rightarrow> 'a \<Rightarrow> int list \<Rightarrow> 'a" where
  "skew_loop L hmacKey baseCounter otp mark invalid [] = invalid"
| "skew_loop L hmacKey baseCounter otp mark invalid (skew # skews) =
     (if subtleEqualString (hotp L hmacKey (word_of_int (baseCounter + skew))) otp then mark skew
      else skew_loop L hmacKey baseCounter otp mark invalid skews)"

definition windowStart :: "time \<Rightarrow> int \<Rightarrow> time" where
  "windowStart now skew = now + skew * totpPeriod * second"

text \<open>\<open>markUsed\<close> works on a world of its own, the database of used codes; \<open>None\<close> is nil.\<close>

definition ValidateTOTP ::
  "totp_lib \<Rightarrow> string \<Rightarrow> string \<Rightarrow> (time \<Rightarrow> string \<Rightarrow> 'w \<Rightarrow> err option \<times> 'w) option \<Rightarrow> time \<Rightarrow> 'w \<Rightarrow> err option \<times> 'w" where
  "ValidateTOTP L secret otp markUsed now w =
     (if length otp \<noteq> totpDigits then (Some ErrTOTPInvalid, w)
      else case b32_decode L (ToUpper L secret) of
          None \<Rightarrow> (Some (Wrap ''auth: decode TOTP secret'' (Msg ''illegal base32 data'')), w)
        | Some hmacKey \<Rightarrow>
            skew_loop L hmacKey (quot (Unix now) totpPeriod) otp
              (\<lambda>skew. case markUsed of
                 None \<Rightarrow> (None, w)
               | Some mark \<Rightarrow> (case mark (windowStart now skew) otp w of
                     (Some e, w1) \<Rightarrow> (Some ErrTOTPAlreadyUsed, w1)
                   | (None, w1) \<Rightarrow> (None, w1)))
              (Some ErrTOTPInvalid, w) [- totpSkew .. totpSkew])"

definition ValidateTOTPLegacy ::
  "totp_lib \<Rightarrow> string \<Rightarrow> string \<Rightarrow> (time \<Rightarrow> string \<Rightarrow> bool) option \<Rightarrow> time \<Rightarrow> err option" where
  "ValidateTOTPLegacy L secret otp usedCodeCheck now =
     (if length otp \<noteq> totpDigits then Some ErrTOTPInvalid
      else case b32_decode L (ToUpper L secret) of
          None \<Rightarrow> Some (Wrap ''auth: decode TOTP secret'' (Msg ''illegal base32 data''))
        | Some hmacKey \<Rightarrow>
            skew_loop L hmacKey (quot (Unix now) totpPeriod) otp
              (\<lambda>skew. case usedCodeCheck of
                 None \<Rightarrow> None
               | Some used \<Rightarrow> if used (windowStart now skew) otp then Some ErrTOTPAlreadyUsed else None)
              (Some ErrTOTPInvalid) [- totpSkew .. totpSkew])"

text \<open>\<^verbatim>\<open>urlEscape\<close> walks the runes of the string; those of an ASCII string are its bytes,
  for others the walk is the parameter \<open>url_runes\<close>.\<close>

definition hexdigit_upper :: "nat \<Rightarrow> char" where
  "hexdigit_upper n = ''0123456789ABCDEF'' ! n"

definition url_char :: "char \<Rightarrow> string" where
  "url_char c =
     (let n = code c in
      if (97 \<le> n \<and> n \<le> 122) \<or> (65 \<le> n \<and> n \<le> 90) \<or> (48 \<le> n \<and> n \<le> 57) \<or> c \<in> {CHR ''-'', CHR ''_'', CHR ''.'', CHR ''~''}
      then [c]
      else if c = CHR '' '' then ''%20''
      else if c = CHR '':'' then ''%3A''
      else CHR ''%'' # [hexdigit_upper (n div 16), hexdigit_upper (n mod 16)])"

definition urlEscape :: "totp_lib \<Rightarrow> string \<Rightarrow> string" where
  "urlEscape L s = (if list_all ascii s then concat (map url_char s) else url_runes L s)"

definition BuildTOTPURI :: "totp_lib \<Rightarrow> string \<Rightarrow> string \<Rightarrow> string \<Rightarrow> string" where
  "BuildTOTPURI L issuer account secret =
     ''otpauth://totp/'' @ urlEscape L issuer @ '':'' @ urlEscape L account @ ''?secret='' @ urlEscape L secret @
     ''&issuer='' @ urlEscape L issuer @ ''&algorithm=SHA1&digits='' @ dec_nat totpDigits @ ''&period='' @ dec_int totpPeriod"

section \<open>mfa\_store\_memory.go\<close>

record MFAState =
  mfa_RoleID :: string
  Secret :: string
  Enabled :: bool
  mfa_CreatedAt :: time
  VerifiedAt :: time

type_synonym MemoryMFAStore = "(string \<times> MFAState) list"

definition GetMFAState :: "string \<Rightarrow> MemoryMFAStore \<Rightarrow> MFAState res" where
  "GetMFAState roleID s =
     (case map_of s roleID of None \<Rightarrow> Inl (Msg ''auth: mfa state not found for role'') | Some st \<Rightarrow> Inr st)"

definition SaveMFAState :: "MFAState \<Rightarrow> MemoryMFAStore \<Rightarrow> MemoryMFAStore" where
  "SaveMFAState st s = AList.update (mfa_RoleID st) st s"

definition DeleteMFAState :: "string \<Rightarrow> MemoryMFAStore \<Rightarrow> MemoryMFAStore" where
  "DeleteMFAState roleID s = AList.delete roleID s"

section \<open>Codes\<close>

lemma skews: "[- totpSkew .. totpSkew] = [-1, 0, 1]"
  by (simp add: totpSkew_def upto_rec1 upto_rec2)

lemma hotp_length [simp]: "length (hotp L k c) = 6"
proof -
  have "unat (b mod 1000000) < 10 ^ Suc 5" for b :: "32 word"
    by (simp add: unat_mod)
  from pad_length [OF this] show ?thesis by (simp add: hotp_def Let_def)
qed

lemma counter_of_time: "0 \<le> u \<Longrightarrow> u < 2 ^ 63 \<Longrightarrow> (word_of_int u :: 64 word) div 30 = word_of_int (u div 30)"
  by (rule word_uint_eqI) (simp add: uint_div unsigned_of_int take_bit_int_eq_self)

lemma near_steps: "\<bar>x div 30 - y div 30\<bar> \<le> 1 \<Longrightarrow> x < y + (60 :: int)"
  using mult_div_mod_eq [of 30 x] mult_div_mod_eq [of 30 y] pos_mod_bound [of 30 x] pos_mod_sign [of 30 y]
  by linarith

lemma GenerateTOTP_counter:
  "b32_decode L (ToUpper L secret) = Some key \<Longrightarrow> t \<noteq> 0 \<Longrightarrow> 0 \<le> Unix t \<Longrightarrow> Unix t < 2 ^ 63 \<Longrightarrow>
   GenerateTOTP L secret t now = Inr (hotp L key (word_of_int (Unix t div 30)))"
  by (simp add: GenerateTOTP_def isZero_def counter_of_time)

lemma ValidateTOTP_nil:
  assumes "b32_decode L (ToUpper L secret) = Some key" "0 \<le> Unix now"
  shows "ValidateTOTP L secret otp None now w = (None, w) \<longleftrightarrow>
    (\<exists>s \<in> {-1, 0, 1}. otp = hotp L key (word_of_int (Unix now div 30 + s)))"
proof (cases "length otp = 6")
  case True
  have "quot (Unix now) 30 = Unix now div 30" using assms(2) by (simp add: quot_def)
  with True assms(1) show ?thesis
    by (auto simp: ValidateTOTP_def totpDigits_def totpPeriod_def skews subtleEqualString_def split: if_splits)
next
  case False
  then show ?thesis by (auto simp: ValidateTOTP_def totpDigits_def)
qed

text \<open>
  Property C30. A code is accepted exactly in its window: from 1970 on, ValidateTOTP accepts just
  the codes that GenerateTOTP makes for some moment of the current 30-second step, the one before
  or the one after, and every code has six digits. Nothing else is looked at, so a code is accepted
  again and again within its window.
\<close>

theorem totp_window:
  assumes "b32_decode L (ToUpper L secret) = Some key" "30 \<le> Unix now" "Unix now < 2 ^ 62"
  shows "(ValidateTOTP L secret otp None now w = (None, w) \<longleftrightarrow>
      (\<exists>t. 0 \<le> Unix t \<and> \<bar>Unix t div 30 - Unix now div 30\<bar> \<le> 1 \<and> GenerateTOTP L secret t now = Inr otp))
    \<and> (ValidateTOTP L secret otp None now w = (None, w) \<longrightarrow> length otp = 6)"
proof -
  let ?time = "\<lambda>s. (30 * (Unix now div 30 + s) + 62135596800) * second"
  have unix: "Unix (?time s) = 30 * (Unix now div 30 + s)" for s by (simp add: Unix_def)
  have gen: "GenerateTOTP L secret (?time s) now = Inr (hotp L key (word_of_int (Unix now div 30 + s)))
      \<and> 0 \<le> Unix (?time s) \<and> \<bar>Unix (?time s) div 30 - Unix now div 30\<bar> \<le> 1" if "s \<in> {-1, 0, 1}" for s
  proof -
    have "1 \<le> Unix now div 30" "Unix now div 30 < 2 ^ 62" using assms(2,3) by auto
    with that have r: "0 \<le> 30 * (Unix now div 30 + s)" "30 * (Unix now div 30 + s) < 2 ^ 63" using assms(3) by auto
    then have "GenerateTOTP L secret (?time s) now = Inr (hotp L key (word_of_int (Unix (?time s) div 30)))"
      by (intro GenerateTOTP_counter [OF assms(1)]) (simp_all only: unix, simp)
    with r(1) that show ?thesis by (simp only: unix) auto
  qed
  have conv: "(\<exists>s \<in> {-1, 0, 1}. otp = hotp L key (word_of_int (Unix now div 30 + s)))"
    if t: "0 \<le> Unix t" "\<bar>Unix t div 30 - Unix now div 30\<bar> \<le> 1" "GenerateTOTP L secret t now = Inr otp" for t
  proof (intro bexI [of _ "Unix t div 30 - Unix now div 30"])
    have "Unix t < 2 ^ 63" using near_steps [OF t(2)] assms(3) by simp
    moreover have "t \<noteq> 0" using t(1) by (auto simp: Unix_def)
    ultimately show "otp = hotp L key (word_of_int (Unix now div 30 + (Unix t div 30 - Unix now div 30)))"
      using GenerateTOTP_counter [OF assms(1)] t by simp
    show "Unix t div 30 - Unix now div 30 \<in> {-1, 0, 1}" using t(2) by auto
  qed
  have nil: "ValidateTOTP L secret otp None now w = (None, w) \<longleftrightarrow>
      (\<exists>s \<in> {-1, 0, 1}. otp = hotp L key (word_of_int (Unix now div 30 + s)))"
    by (rule ValidateTOTP_nil [OF assms(1)]) (use assms(2) in simp)
  show ?thesis
  proof (intro conjI iffI impI)
    assume "ValidateTOTP L secret otp None now w = (None, w)"
    then obtain s where s: "s \<in> {-1, 0, 1}" "otp = hotp L key (word_of_int (Unix now div 30 + s))" unfolding nil by (rule bexE)
    show "\<exists>t. 0 \<le> Unix t \<and> \<bar>Unix t div 30 - Unix now div 30\<bar> \<le> 1 \<and> GenerateTOTP L secret t now = Inr otp"
      unfolding s(2) by (rule exI [of _ "?time s"]) (use gen [OF s(1)] in blast)
    show "length otp = 6" unfolding s(2) by (rule hotp_length)
  next
    assume "\<exists>t. 0 \<le> Unix t \<and> \<bar>Unix t div 30 - Unix now div 30\<bar> \<le> 1 \<and> GenerateTOTP L secret t now = Inr otp"
    then show "ValidateTOTP L secret otp None now w = (None, w)" unfolding nil using conv by (elim exE conjE)
  qed
qed

text \<open>A concrete library whose codes are the counters, for witnesses.\<close>

definition toy_totp :: totp_lib where
  "toy_totp = \<lparr>hmac_sha1 = (\<lambda>k m. take 4 (drop 4 m @ replicate 4 0) @ replicate 16 0), b32_encode = string_of, b32_decode = Some \<circ> bytes_of,
     ToUpper = id, url_runes = id\<rparr>"

lemma toy_totp_ok: "totp_lib_ok toy_totp"
  by (auto simp: totp_lib_ok_def toy_totp_def)

lemma toy_code: "ValidateTOTP toy_totp ''s'' ''000003'' None (62135596860 * second) () = (None, ())"
  by code_simp

theorem totp_window_witness:
  "ValidateTOTP toy_totp ''s'' ''000003'' None (62135596860 * second) () = (None, ())
   \<and> GenerateTOTP toy_totp ''s'' (62135596890 * second) (62135596860 * second) = Inr ''000003''"
proof -
  have now: "Unix (62135596860 * second) = 60" "Unix (62135596890 * second) = 90" by (simp_all add: Unix_def)
  have gen: "GenerateTOTP toy_totp ''s'' (62135596890 * second) (62135596860 * second) = Inr ''000003''"
    by code_simp
  then have "\<exists>t. 0 \<le> Unix t \<and> \<bar>Unix t div 30 - Unix (62135596860 * second) div 30\<bar> \<le> 1
      \<and> GenerateTOTP toy_totp ''s'' t (62135596860 * second) = Inr ''000003''"
    by (intro exI [of _ "62135596890 * second"]) (simp add: Unix_def)
  with totp_window [of toy_totp "''s''" "bytes_of ''s''" "62135596860 * second" "''000003''" "()"] gen show ?thesis
    by (simp add: Unix_def) (simp add: toy_totp_def)
qed

end
