(* ===== verification/Approval.thy ===== *)
theory Approval
  imports Auth
begin

text \<open>
  \<^verbatim>\<open>internal/auth/approval.go\<close>, \<^verbatim>\<open>approval_store_memory.go\<close> and the decisions of
  \<^verbatim>\<open>internal/api/handler_approval.go\<close>: K-of-N approval tickets. A handler reads a copy of a
  ticket, decides on the copy and writes it back in a second call of the store, so that votes of
  concurrent requests interleave; the step relation keeps the copies that are still to be written.
\<close>

section \<open>approval.go\<close>

datatype ApprovalStatus = ApprovalPending | ApprovalApproved | ApprovalRejected | ApprovalExpired

record ApprovalTicket =
  ticket_ID :: string
  Operation :: string
  ticket_KeyID :: string
  RequestedBy :: string
  Approvers :: "string list"
  Rejectors :: "string list"
  Required :: int
  ticket_Status :: ApprovalStatus
  ticket_CreatedAt :: time
  ExpiresAt :: time
  ResolvedAt :: time

definition IsApprovalComplete :: "ApprovalTicket \<Rightarrow> bool" where
  "IsApprovalComplete t \<longleftrightarrow> int (length (Approvers t)) \<ge> Required t"

definition IsExpired :: "time \<Rightarrow> ApprovalTicket \<Rightarrow> bool" where
  "IsExpired now t \<longleftrightarrow> now > ExpiresAt t"

fun member_loop :: "string list \<Rightarrow> string \<Rightarrow> bool" where
  "member_loop [] roleID = False"
| "member_loop (a # as) roleID = (if a = roleID then True else member_loop as roleID)"

definition HasApproved :: "ApprovalTicket \<Rightarrow> string \<Rightarrow> bool" where
  "HasApproved t roleID = member_loop (Approvers t) roleID"

definition HasRejected :: "ApprovalTicket \<Rightarrow> string \<Rightarrow> bool" where
  "HasRejected t roleID = member_loop (Rejectors t) roleID"

section \<open>approval\_store\_memory.go\<close>

text \<open>Tickets are copied on the way in and out, so values stand for the pointers; the order of the
  list stands for the order in which a range over the map visits it.\<close>

type_synonym MemoryApprovalStore = "(string \<times> ApprovalTicket) list"

definition NewMemoryApprovalStore :: MemoryApprovalStore where
  "NewMemoryApprovalStore = []"

definition CreateTicket :: "ApprovalTicket \<Rightarrow> MemoryApprovalStore \<Rightarrow> err option \<times> MemoryApprovalStore" where
  "CreateTicket t s =
     (if map_of s (ticket_ID t) \<noteq> None then (Some (Msg ''auth: ticket already exists''), s)
      else (None, AList.update (ticket_ID t) t s))"

definition GetTicket :: "string \<Rightarrow> MemoryApprovalStore \<Rightarrow> ApprovalTicket res" where
  "GetTicket ident s = (case map_of s ident of None \<Rightarrow> Inl ErrApprovalNotFound | Some t \<Rightarrow> Inr t)"

definition UpdateTicket :: "ApprovalTicket \<Rightarrow> MemoryApprovalStore \<Rightarrow> err option \<times> MemoryApprovalStore" where
  "UpdateTicket t s =
     (if map_of s (ticket_ID t) = None then (Some ErrApprovalNotFound, s)
      else (None, AList.update (ticket_ID t) t s))"

definition ListPending :: "MemoryApprovalStore \<Rightarrow> ApprovalTicket list" where
  "ListPending s = filter (\<lambda>t. ticket_Status t = ApprovalPending) (map snd s)"

definition ListByOperation :: "string \<Rightarrow> MemoryApprovalStore \<Rightarrow> ApprovalTicket list" where
  "ListByOperation operation s = filter (\<lambda>t. Operation t = operation) (map snd s)"

definition DeleteTicket :: "string \<Rightarrow> MemoryApprovalStore \<Rightarrow> MemoryApprovalStore" where
  "DeleteTicket ident s = AList.delete ident s"

definition expire :: "time \<Rightarrow> ApprovalTicket \<Rightarrow> ApprovalTicket" where
  "expire now t =
     (if ticket_Status t = ApprovalPending \<and> now > ExpiresAt t
      then t\<lparr>ticket_Status := ApprovalExpired, ResolvedAt := now\<rparr> else t)"

definition CleanupExpired :: "time \<Rightarrow> MemoryApprovalStore \<Rightarrow> int \<times> MemoryApprovalStore" where
  "CleanupExpired now s =
     (int (length (filter (\<lambda>(_, t). ticket_Status t = ApprovalPending \<and> now > ExpiresAt t) s)),
      map (\<lambda>(k, t). (k, expire now t)) s)"

section \<open>handler\_approval.go: tickets and decisions\<close>

text \<open>The ticket of \<^verbatim>\<open>handleCreateApproval\<close>; the time to live is a product of \<open>int64\<close> values.\<close>

definition new_ticket :: "string \<Rightarrow> string \<Rightarrow> string \<Rightarrow> string \<Rightarrow> int \<Rightarrow> int \<Rightarrow> time \<Rightarrow> ApprovalTicket" where
  "new_ticket ident operation keyID roleID required ttlHours now =
     \<lparr>ticket_ID = ident, Operation = operation, ticket_KeyID = keyID, RequestedBy = roleID, Approvers = [], Rejectors = [],
      Required = required, ticket_Status = ApprovalPending, ticket_CreatedAt = now,
      ExpiresAt = now + wrap64 ((if ttlHours = 0 then 24 else ttlHours) * hour), ResolvedAt = 0\<rparr>"

text \<open>What follows \<^verbatim>\<open>GetTicket\<close>: an answer only, a write before an error answer, or a write
  whose ticket is the answer.\<close>

datatype decision =
    Answer int string
  | Write_then_answer ApprovalTicket int string
  | Write_ticket ApprovalTicket

definition decide_approve :: "string \<Rightarrow> time \<Rightarrow> ApprovalTicket \<Rightarrow> decision" where
  "decide_approve roleID now t =
     (if ticket_Status t \<noteq> ApprovalPending then Answer 409 ''ticket already resolved''
      else if IsExpired now t then
        Write_then_answer (t\<lparr>ticket_Status := ApprovalExpired, ResolvedAt := now\<rparr>) 409 ''ticket expired''
      else if RequestedBy t = roleID then Answer 403 ''cannot approve own request''
      else if HasApproved t roleID then Answer 409 ''already approved by this role''
      else let t1 = t\<lparr>Approvers := Approvers t @ [roleID]\<rparr>
           in Write_ticket (if int (length (Approvers t1)) \<ge> Required t1
                then t1\<lparr>ticket_Status := ApprovalApproved, ResolvedAt := now\<rparr> else t1))"

definition decide_reject :: "string \<Rightarrow> time \<Rightarrow> ApprovalTicket \<Rightarrow> decision" where
  "decide_reject roleID now t =
     (if ticket_Status t \<noteq> ApprovalPending then Answer 409 ''ticket already resolved''
      else let t1 = (if HasRejected t roleID then t else t\<lparr>Rejectors := Rejectors t @ [roleID]\<rparr>)
           in Write_ticket (t1\<lparr>ticket_Status := ApprovalRejected, ResolvedAt := now\<rparr>))"

text \<open>\<^verbatim>\<open>generateUUID\<close> reads the clock once per byte; \<open>clock i\<close> is its reading for byte \<open>i\<close>.
  A shift by 64 or more gives 0 (or -1 for a negative reading).\<close>

definition uuid_byte :: "(nat \<Rightarrow> 64 word) \<Rightarrow> nat \<Rightarrow> byte" where
  "uuid_byte clock i = ucast (signed_drop_bit (8 * i) (clock i))"

definition uuid_bytes :: "(nat \<Rightarrow> 64 word) \<Rightarrow> bytes" where
  "uuid_bytes clock =
     (let b = map (uuid_byte clock) [0 ..< 16];
          b1 = b[6 := (b ! 6 AND 15) OR 64]
      in b1[8 := (b1 ! 8 AND 63) OR 128])"

fun format_loop :: "nat \<Rightarrow> bytes \<Rightarrow> string" where
  "format_loop i [] = []"
| "format_loop i (v # vs) = (if i \<in> {4, 6, 8, 10} then ''-'' else []) @ hex_byte v @ format_loop (Suc i) vs"

definition formatUUID :: "bytes \<Rightarrow> string" where
  "formatUUID b = format_loop 0 b"

definition generateUUID :: "(nat \<Rightarrow> 64 word) \<Rightarrow> string" where
  "generateUUID clock = formatUUID (uuid_bytes clock)"

section \<open>Interleavings\<close>

text \<open>
  The store, the copies that handlers decided on and have still to write, and the votes: the pairs
  of ticket and role of the approve requests that were accepted so far.
\<close>

type_synonym approvals = "MemoryApprovalStore \<times> ApprovalTicket list \<times> (string \<times> string) set"

inductive approval_step :: "approvals \<Rightarrow> approvals \<Rightarrow> bool" where
  ap_create: "1 \<le> required \<Longrightarrow> CreateTicket (new_ticket ident operation keyID roleID required ttl now) s = (x, s') \<Longrightarrow>
    approval_step (s, fl, vs) (s', fl, vs)"
| ap_vote: "GetTicket ident s = Inr t \<Longrightarrow> decide_approve roleID now t = Write_ticket t' \<Longrightarrow>
    approval_step (s, fl, vs) (s, t' # fl, insert (ident, roleID) vs)"
| ap_late: "GetTicket ident s = Inr t \<Longrightarrow> decide_approve roleID now t = Write_then_answer t' st msg \<Longrightarrow>
    approval_step (s, fl, vs) (s, t' # fl, vs)"
| ap_reject: "GetTicket ident s = Inr t \<Longrightarrow> decide_reject roleID now t = Write_ticket t' \<Longrightarrow>
    approval_step (s, fl, vs) (s, t' # fl, vs)"
| ap_write: "UpdateTicket t s = (x, s') \<Longrightarrow> approval_step (s, fl1 @ t # fl2, vs) (s', fl1 @ fl2, vs)"
| ap_cleanup: "approval_step (s, fl, vs) (snd (CleanupExpired now s), fl, vs)"
| ap_delete: "approval_step (s, fl, vs) (DeleteTicket ident s, fl, vs)"

definition ap_init :: "approvals \<Rightarrow> bool" where
  "ap_init a \<longleftrightarrow> a = (NewMemoryApprovalStore, [], {})"

text \<open>A ticket in order: distinct approvers who voted on it and did not request it, and a status
  that agrees with their number.\<close>

definition ticket_ok :: "(string \<times> string) set \<Rightarrow> ApprovalTicket \<Rightarrow> bool" where
  "ticket_ok vs t \<longleftrightarrow> 1 \<le> Required t \<and> distinct (Approvers t) \<and> RequestedBy t \<notin> set (Approvers t)
     \<and> (\<forall>r \<in> set (Approvers t). (ticket_ID t, r) \<in> vs)
     \<and> (ticket_Status t = ApprovalApproved \<longrightarrow> Required t \<le> int (length (Approvers t)))
     \<and> (ticket_Status t = ApprovalPending \<longrightarrow> int (length (Approvers t)) < Required t)
     \<and> (ticket_Status t = ApprovalRejected \<longrightarrow> Rejectors t \<noteq> [])"

definition ap_inv :: "approvals \<Rightarrow> bool" where
  "ap_inv a \<longleftrightarrow> (case a of (s, fl, vs) \<Rightarrow>
     (\<forall>k t. map_of s k = Some t \<longrightarrow> ticket_ID t = k \<and> ticket_ok vs t) \<and> (\<forall>t \<in> set fl. ticket_ok vs t))"

lemma member_loop_iff [simp]: "member_loop xs r \<longleftrightarrow> r \<in> set xs"
  by (induction xs) auto

lemma ticket_ok_mono: "ticket_ok vs t \<Longrightarrow> vs \<subseteq> vs' \<Longrightarrow> ticket_ok vs' t"
  by (auto simp: ticket_ok_def)

lemma vote_ok:
  assumes "ticket_ok vs t" "decide_approve r now t = Write_ticket t'"
  shows "ticket_ID t' = ticket_ID t \<and> ticket_ok (insert (ticket_ID t, r) vs) t'"
  using assms by (auto simp: decide_approve_def ticket_ok_def HasApproved_def Let_def split: if_splits)

lemma late_ok:
  assumes "ticket_ok vs t" "decide_approve r now t = Write_then_answer t' st msg"
  shows "ticket_ID t' = ticket_ID t \<and> ticket_ok vs t'"
  using assms by (auto simp: decide_approve_def ticket_ok_def Let_def split: if_splits)

lemma reject_ok:
  assumes "ticket_ok vs t" "decide_reject r now t = Write_ticket t'"
  shows "ticket_ID t' = ticket_ID t \<and> ticket_ok vs t'"
  using assms by (auto simp: decide_reject_def ticket_ok_def HasRejected_def Let_def split: if_splits)

lemma expire_ok: "ticket_ok vs t \<Longrightarrow> ticket_ok vs (expire now t)"
  by (auto simp: ticket_ok_def expire_def)

lemma map_of_cleanup: "map_of (snd (CleanupExpired now s)) k = map_option (expire now) (map_of s k)"
  by (simp add: CleanupExpired_def) (induction s, auto)

lemma ap_inv_pair:
  "ap_inv (s, fl, vs) \<longleftrightarrow> (\<forall>k t. map_of s k = Some t \<longrightarrow> ticket_ID t = k \<and> ticket_ok vs t) \<and> (\<forall>t \<in> set fl. ticket_ok vs t)"
  by (simp add: ap_inv_def)

lemma ap_inv_get: "ap_inv (s, fl, vs) \<Longrightarrow> GetTicket ident s = Inr t \<Longrightarrow> ticket_ID t = ident \<and> ticket_ok vs t"
  by (simp add: ap_inv_pair GetTicket_def split: option.splits)

lemma ap_inv_decided: "ap_inv (s, fl, vs) \<Longrightarrow> vs \<subseteq> vs' \<Longrightarrow> ticket_ok vs' t \<Longrightarrow> ap_inv (s, t # fl, vs')"
  using ticket_ok_mono [of vs _ vs'] unfolding ap_inv_pair by (metis set_ConsD)

lemma ap_inv_put: "ap_inv (s, fl, vs) \<Longrightarrow> ticket_ok vs t \<Longrightarrow> ap_inv (AList.update (ticket_ID t) t s, fl, vs)"
  by (simp add: ap_inv_pair)

lemma ap_inv_step: "approval_step a a' \<Longrightarrow> ap_inv a \<Longrightarrow> ap_inv a'"
proof (induction rule: approval_step.induct)
  case (ap_create required ident operation keyID roleID ttl now s x s' fl vs)
  have "ticket_ok vs (new_ticket ident operation keyID roleID required ttl now)"
    using ap_create(1) by (simp add: ticket_ok_def new_ticket_def)
  with ap_create show ?case by (auto simp: CreateTicket_def intro: ap_inv_put split: if_splits)
next
  case (ap_vote ident s t roleID now t' fl vs)
  note t = ap_inv_get [OF ap_vote(3,1)]
  with vote_ok [OF _ ap_vote(2), of vs] have "ticket_ok (insert (ident, roleID) vs) t'" by simp
  then show ?case by (rule ap_inv_decided [OF ap_vote(3) subset_insertI])
next
  case (ap_late ident s t roleID now t' st msg fl vs)
  with ap_inv_get [OF ap_late(3,1)] late_ok [OF _ ap_late(2), of vs] show ?case by (simp add: ap_inv_decided)
next
  case (ap_reject ident s t roleID now t' fl vs)
  with ap_inv_get [OF ap_reject(3,1)] reject_ok [OF _ ap_reject(2), of vs] show ?case by (simp add: ap_inv_decided)
next
  case (ap_write t s x s' fl1 fl2 vs)
  then have "ap_inv (s, fl1 @ fl2, vs)" "ticket_ok vs t" by (simp_all add: ap_inv_pair)
  with ap_write(1) show ?case by (auto simp: UpdateTicket_def intro: ap_inv_put split: if_splits)
next
  case (ap_cleanup s fl vs now)
  have "ticket_ID (expire now t) = ticket_ID t" for t by (simp add: expire_def)
  with ap_cleanup show ?case by (auto simp: ap_inv_pair map_of_cleanup expire_ok)
next
  case (ap_delete s fl vs ident)
  then show ?case by (simp add: ap_inv_pair DeleteTicket_def)
qed

interpretation quorum: invariant_system ap_init approval_step ap_inv
proof
  show "ap_inv a" if "ap_init a" for a using that by (simp add: ap_init_def ap_inv_def NewMemoryApprovalStore_def)
  show "ap_inv a'" if "ap_inv a" "approval_step a a'" for a a' using that ap_inv_step by blast
qed

section \<open>Properties\<close>

lemma approved_quorum:
  assumes "reachable ap_init approval_step (s, fl, votes)" "GetTicket ident s = Inr t" "ticket_Status t = ApprovalApproved"
  shows "1 \<le> Required t \<and> Required t \<le> int (card (set (Approvers t)))
    \<and> set (Approvers t) \<subseteq> {r. (ident, r) \<in> votes \<and> r \<noteq> RequestedBy t}"
proof -
  have "ap_inv (s, fl, votes)" by (rule quorum.reachable_inv [OF assms(1)])
  from ap_inv_get [OF this assms(2)] assms(3) show ?thesis by (auto simp: ticket_ok_def distinct_card)
qed

text \<open>
  Property C14. Quorum. However the requests interleave, a ticket that is approved was approved by
  at least as many different roles as it requires, each of which sent an approve request for it,
  and its requester is not among them.
\<close>

theorem quorum_reached:
  assumes "reachable ap_init approval_step (s, fl, votes)" "GetTicket ident s = Inr t" "ticket_Status t = ApprovalApproved"
  shows "1 \<le> Required t \<and> Required t \<le> int (card (set (Approvers t)))
    \<and> set (Approvers t) \<subseteq> {r. (ident, r) \<in> votes \<and> r \<noteq> RequestedBy t}"
  using assms by (rule approved_quorum)

definition toy_ticket :: ApprovalTicket where
  "toy_ticket = new_ticket ''t'' ''ShredKey'' ''k'' ''alice'' 2 1 0"

definition toy_vote1 :: ApprovalTicket where
  "toy_vote1 = toy_ticket\<lparr>Approvers := [''bob'']\<rparr>"

definition toy_vote2 :: ApprovalTicket where
  "toy_vote2 = toy_ticket\<lparr>Approvers := [''bob'', ''carol''], ticket_Status := ApprovalApproved, ResolvedAt := 2\<rparr>"

definition toy_rejected :: ApprovalTicket where
  "toy_rejected = toy_vote1\<lparr>Rejectors := [''dave''], ticket_Status := ApprovalRejected, ResolvedAt := 2\<rparr>"

lemma hour_fits [simp]: "wrap64 3600000000000 = 3600000000000"
  by (rule wrap64_id) simp_all

lemmas toy_tickets = toy_ticket_def toy_vote1_def toy_vote2_def toy_rejected_def new_ticket_def

lemma toy_created: "approval_step ([], [], {}) ([(''t'', toy_ticket)], [], {})"
  using ap_create [of 2 "''t''" "''ShredKey''" "''k''" "''alice''" 1 0 "[]" None "[(''t'', toy_ticket)]" "[]" "{}"]
  by (simp add: CreateTicket_def toy_tickets)

lemma toy_decide: "decide_approve ''bob'' 1 toy_ticket = Write_ticket toy_vote1" "decide_approve ''carol'' 2 toy_vote1 = Write_ticket toy_vote2"
  "decide_reject ''dave'' 2 toy_vote1 = Write_ticket toy_rejected"
  by (simp_all add: decide_approve_def decide_reject_def HasApproved_def HasRejected_def IsExpired_def toy_tickets)

lemma toy_write:
  "ticket_ID t = ''t'' \<Longrightarrow> approval_step ([(''t'', u)], [t], vs) ([(''t'', t)], [], vs)"
  using ap_write [of t "[(''t'', u)]" None "[(''t'', t)]" "[]" "[]" vs] by (simp add: UpdateTicket_def)

lemma toy_first: "approval_step\<^sup>*\<^sup>* ([], [], {}) ([(''t'', toy_vote1)], [], {(''t'', ''bob'')})"
proof -
  have "approval_step ([(''t'', toy_ticket)], [], {}) ([(''t'', toy_ticket)], [toy_vote1], {(''t'', ''bob'')})"
    by (rule ap_vote [OF _ toy_decide(1)]) (simp add: GetTicket_def)
  moreover have "approval_step ([(''t'', toy_ticket)], [toy_vote1], {(''t'', ''bob'')}) ([(''t'', toy_vote1)], [], {(''t'', ''bob'')})"
    by (rule toy_write) (simp add: toy_tickets)
  ultimately show ?thesis using toy_created by (meson converse_rtranclp_into_rtranclp rtranclp.rtrancl_refl)
qed

lemma toy_second: "approval_step ([(''t'', toy_vote1)], [], {(''t'', ''bob'')})
    ([(''t'', toy_vote1)], [toy_vote2], {(''t'', ''carol''), (''t'', ''bob'')})"
  by (rule ap_vote [OF _ toy_decide(2)]) (simp add: GetTicket_def)

lemma toy_approved: "reachable ap_init approval_step ([(''t'', toy_vote2)], [], {(''t'', ''carol''), (''t'', ''bob'')})"
proof -
  have "approval_step ([(''t'', toy_vote1)], [toy_vote2], {(''t'', ''carol''), (''t'', ''bob'')})
      ([(''t'', toy_vote2)], [], {(''t'', ''carol''), (''t'', ''bob'')})"
    by (rule toy_write) (simp add: toy_tickets)
  then have run: "approval_step\<^sup>*\<^sup>* ([], [], {}) ([(''t'', toy_vote2)], [], {(''t'', ''carol''), (''t'', ''bob'')})"
    using toy_first toy_second by (meson rtranclp.rtrancl_into_rtrancl)
  show ?thesis
    by (rule reachable_steps [OF run]) (simp add: reachable_init ap_init_def NewMemoryApprovalStore_def)
qed

theorem quorum_reached_witness:
  "reachable ap_init approval_step ([(''t'', toy_vote2)], [], {(''t'', ''carol''), (''t'', ''bob'')})
   \<and> Required toy_vote2 = 2 \<and> set (Approvers toy_vote2) \<subseteq> {''bob'', ''carol''} \<and> ''alice'' \<notin> set (Approvers toy_vote2)
   \<and> card (set (Approvers toy_vote2)) \<ge> 2"
proof -
  have "GetTicket ''t'' [(''t'', toy_vote2)] = Inr toy_vote2" "ticket_Status toy_vote2 = ApprovalApproved" "Required toy_vote2 = 2"
    "RequestedBy toy_vote2 = ''alice''"
    by (simp_all add: GetTicket_def toy_tickets)
  with quorum_reached [OF toy_approved, of "''t''" toy_vote2] toy_approved show ?thesis by auto
qed

text \<open>
  A rejection does not last: a ticket that stands rejected in the store can become
  approved afterwards, because an approve request that read the ticket before the rejection writes
  its copy back later, rejection erased.
\<close>

theorem rejection_overturned:
  "\<exists>fl votes t t'. reachable ap_init approval_step ([(''t'', t)], fl, votes) \<and> ticket_Status t = ApprovalRejected
     \<and> approval_step ([(''t'', t)], fl, votes) ([(''t'', t')], [], votes)
     \<and> ticket_Status t' = ApprovalApproved \<and> Rejectors t' = []"
proof -
  let ?v = "{(''t'', ''carol''), (''t'', ''bob'')}"
  have "approval_step ([(''t'', toy_vote1)], [toy_vote2], ?v) ([(''t'', toy_vote1)], [toy_rejected, toy_vote2], ?v)"
    by (rule ap_reject [OF _ toy_decide(3)]) (simp add: GetTicket_def)
  moreover have "approval_step ([(''t'', toy_vote1)], [toy_rejected, toy_vote2], ?v) ([(''t'', toy_rejected)], [toy_vote2], ?v)"
    using ap_write [of toy_rejected "[(''t'', toy_vote1)]" None "[(''t'', toy_rejected)]" "[]" "[toy_vote2]" ?v]
    by (simp add: UpdateTicket_def toy_tickets)
  ultimately have run: "approval_step\<^sup>*\<^sup>* ([], [], {}) ([(''t'', toy_rejected)], [toy_vote2], ?v)"
    using toy_first toy_second by (meson rtranclp.rtrancl_into_rtrancl)
  have "reachable ap_init approval_step ([(''t'', toy_rejected)], [toy_vote2], ?v)"
    by (rule reachable_steps [OF run]) (simp add: reachable_init ap_init_def NewMemoryApprovalStore_def)
  moreover have "approval_step ([(''t'', toy_rejected)], [toy_vote2], ?v) ([(''t'', toy_vote2)], [], ?v)"
    by (rule toy_write) (simp add: toy_tickets)
  moreover have "ticket_Status toy_rejected = ApprovalRejected" "ticket_Status toy_vote2 = ApprovalApproved" "Rejectors toy_vote2 = []"
    by (simp_all add: toy_tickets)
  ultimately show ?thesis by blast
qed

end
