(* ===== verification/Transit.thy ===== *)
theory Transit
  imports LifecycleProps Asymmetric
begin

text \<open>
  \<^verbatim>\<open>internal/lifecycle/transit.go\<close>: import of external keys. A transit key is an RSA key pair
  kept in memory for ten minutes; its private key is used once and wiped. \<open>released\<close> are the
  private-key buffers that have left the map, so that wiping them can be stated.
\<close>

definition TransitKeyTTL :: duration where
  "TransitKeyTTL = 10 * minute"

record transitEntry =
  privateKey :: SecureBuffer
  publicKey :: bytes
  expiresAt :: time

record TransitKeyManager =
  transit_keys :: "(string \<times> transitEntry) list"
  released :: "SecureBuffer list"

definition NewTransitKeyManager :: TransitKeyManager where
  "NewTransitKeyManager = \<lparr>transit_keys = [], released = []\<rparr>"

record TransitPublicKey =
  transit_KeyID :: string
  transit_PublicKey :: bytes
  transit_ExpiresAt :: time

text \<open>\<^verbatim>\<open>time.Now().UnixNano()\<close>.\<close>

definition UnixNano :: "time \<Rightarrow> int" where
  "UnixNano now = wrap64 (now - 62135596800 * second)"

definition transit_id :: "time \<Rightarrow> string" where
  "transit_id now = ''transit-'' @ dec_int (UnixNano now)"

text \<open>The entry that is overwritten leaves the map without being wiped.\<close>

definition transit_put :: "string \<Rightarrow> transitEntry \<Rightarrow> TransitKeyManager \<Rightarrow> TransitKeyManager" where
  "transit_put keyID ent t =
     t\<lparr>transit_keys := AList.update keyID ent (transit_keys t),
       released := released t @ (case map_of (transit_keys t) keyID of None \<Rightarrow> [] | Some old \<Rightarrow> [privateKey old])\<rparr>"

text \<open>\<^verbatim>\<open>entry.privateKey.Wipe(); delete(t.keys, keyID)\<close>.\<close>

definition transit_burn :: "string \<Rightarrow> transitEntry \<Rightarrow> TransitKeyManager \<Rightarrow> TransitKeyManager" where
  "transit_burn keyID ent t =
     t\<lparr>transit_keys := AList.delete keyID (transit_keys t), released := released t @ [Wipe (privateKey ent)]\<rparr>"

definition GenerateTransitKey ::
  "('k, 'p) pki \<Rightarrow> time \<Rightarrow> TransitKeyManager \<Rightarrow> csprng \<Rightarrow> TransitPublicKey res \<times> TransitKeyManager \<times> csprng" where
  "GenerateTransitKey L now t r =
     (case rsa_GenerateKey L 4096 r of
        (Inl e, r1) \<Rightarrow> (Inl (Wrap ''transit: generate RSA-4096'' e), t, r1)
      | (Inr privKey, r1) \<Rightarrow>
          (case MarshalPKCS8 L privKey of
             Inl e \<Rightarrow> (Inl (Wrap ''transit: marshal private key'' e), t, r1)
           | Inr derBytes \<Rightarrow>
               let privSB = fst (NewSecureBuffer derBytes)
               in case MarshalPKIX L (public_of L privKey) of
                    Inl e \<Rightarrow> (Inl (Wrap ''transit: marshal public key'' e), t, r1)
                  | Inr pubDER \<Rightarrow>
                      let pubPEM = pem_Encode L ''PUBLIC KEY'' pubDER;
                          keyID = transit_id now;
                          ent = \<lparr>privateKey = privSB, publicKey = pubPEM, expiresAt = now + TransitKeyTTL\<rparr>
                      in (Inr \<lparr>transit_KeyID = keyID, transit_PublicKey = pubPEM, transit_ExpiresAt = expiresAt ent\<rparr>,
                          transit_put keyID ent t, r1)))"

text \<open>\<open>oaep\<close> is \<^verbatim>\<open>rsa.DecryptOAEP\<close> with SHA-256 and no label.\<close>

definition UnwrapWithTransitKey ::
  "('k, 'p) pki \<Rightarrow> ('k \<Rightarrow> bytes \<Rightarrow> bytes res) \<Rightarrow> time \<Rightarrow> string \<Rightarrow> bytes \<Rightarrow> TransitKeyManager \<Rightarrow>
   bytes res \<times> TransitKeyManager" where
  "UnwrapWithTransitKey L oaep now keyID wrapped t =
     (case map_of (transit_keys t) keyID of
        None \<Rightarrow> (Inl (Msg ''transit: key not found (expired or already used)''), t)
      | Some ent \<Rightarrow>
          if now > expiresAt ent then (Inl (Msg ''transit: key expired''), transit_burn keyID ent t)
          else (case WithKey (privateKey ent) (\<lambda>der.
                    case ParsePKCS8 L der of
                      Inl e \<Rightarrow> Inl (Wrap ''transit: parse private key'' e)
                    | Inr privKey \<Rightarrow>
                        (case priv_kind L privKey of
                           RSA _ \<Rightarrow> oaep privKey wrapped
                         | _ \<Rightarrow> Inl (Msg ''transit: not an RSA private key''))) of
                 Inl e \<Rightarrow> (Inl (Wrap ''transit: RSA decrypt'' e), t)
               | Inr plaintext \<Rightarrow> (Inr plaintext, transit_burn keyID ent t)))"

fun cleanup_loop :: "time \<Rightarrow> (string \<times> transitEntry) list \<Rightarrow> TransitKeyManager \<Rightarrow> TransitKeyManager" where
  "cleanup_loop now [] t = t"
| "cleanup_loop now ((keyID, ent) # es) t =
     cleanup_loop now es (if now > expiresAt ent then transit_burn keyID ent t else t)"

definition transit_CleanupExpired :: "time \<Rightarrow> TransitKeyManager \<Rightarrow> TransitKeyManager" where
  "transit_CleanupExpired now t = cleanup_loop now (transit_keys t) t"

definition import_meta :: "string \<Rightarrow> bytes \<Rightarrow> KEK \<Rightarrow> time \<Rightarrow> KeyMetadata" where
  "import_meta keyID material k now =
     \<lparr>KeyID = keyID, Version = 1, KState = StateActive, KeyType = KeyTypeAES, Algorithm = '''', KeyUsage = [],
      EncryptedMaterial = material, KEKTypeName = KEKType_string (kek_Type k), PublicKey = [],
      CreatedAt = now, DeletedAt = 0, RotationPeriodDays = 0, NextRotationAt = 0\<rparr>"

definition ImportKey ::
  "prims \<Rightarrow> ('k, 'p) pki \<Rightarrow> ('k \<Rightarrow> bytes \<Rightarrow> bytes res) \<Rightarrow> time \<Rightarrow> string \<Rightarrow> string \<Rightarrow> bytes \<Rightarrow> KEK option \<Rightarrow>
   TransitKeyManager \<Rightarrow> Manager \<Rightarrow> csprng \<Rightarrow> KeyMetadata res \<times> TransitKeyManager \<times> Manager \<times> csprng" where
  "ImportKey P L oaep now targetKeyID transitKeyID wrapped kek t m r =
     (if targetKeyID = '''' then (Inl (Msg ''lifecycle: empty target key id''), t, m, r)
      else case kek of
          None \<Rightarrow> (Inl (Msg ''lifecycle: kek is nil''), t, m, r)
        | Some k \<Rightarrow>
            (case UnwrapWithTransitKey L oaep now transitKeyID wrapped t of
               (Inl e, t1) \<Rightarrow> (Inl (Wrap ''lifecycle: import unwrap'' e), t1, m, r)
             | (Inr plaintextDEK, t1) \<Rightarrow>
                 (case WrapDEK P k (fst (NewSecureBuffer plaintextDEK)) r of
                    (Inl e, r1) \<Rightarrow> (Inl (Wrap ''lifecycle: import encrypt DEK'' e), t1, m, r1)
                  | (Inr encryptedDEK, r1) \<Rightarrow>
                      let meta = import_meta targetKeyID encryptedDEK k now
                      in case saveMetadata meta m of
                           (Some e, m1) \<Rightarrow> (Inl (Wrap ''lifecycle: import save metadata'' e), t1, m1, r1)
                         | (None, m1) \<Rightarrow> (Inr meta, t1, m1, r1))))"

section \<open>Used once\<close>

lemma transit_burn_get [simp]: "map_of (transit_keys (transit_burn k e t)) k' = (if k' = k then None else map_of (transit_keys t) k')"
  by (simp add: transit_burn_def)

lemma Unwrap_cases:
  assumes "UnwrapWithTransitKey L oaep now keyID wrapped t = (Inr pt, t')"
  obtains ent privKey bits where "map_of (transit_keys t) keyID = Some ent" "now \<le> expiresAt ent"
    "\<not> destroyed (privateKey ent)" "ParsePKCS8 L (sb_data (privateKey ent)) = Inr privKey" "priv_kind L privKey = RSA bits"
    "oaep privKey wrapped = Inr pt" "t' = transit_burn keyID ent t"
  using assms by (auto simp: UnwrapWithTransitKey_def WithKey_def split: option.splits if_splits sum.splits key_kind.splits)

text \<open>
  Property C31. A transit key works once and leaves no trace: after a successful unwrap its private
  key has left the map, the last buffer released is zero in all its bytes and marked destroyed, and
  every later unwrap with its name fails, whatever the time and the material.
\<close>

theorem transit_used_once:
  assumes "UnwrapWithTransitKey L oaep now keyID wrapped t = (Inr pt, t')"
  shows "map_of (transit_keys t') keyID = None
    \<and> (\<exists>key. released t' = released t @ [key] \<and> destroyed key \<and> set (sb_data key) \<subseteq> {0})
    \<and> UnwrapWithTransitKey L oaep now2 keyID wrapped2 t' = (Inl (Msg ''transit: key not found (expired or already used)''), t')
    \<and> (\<forall>k. k \<noteq> keyID \<longrightarrow> map_of (transit_keys t') k = map_of (transit_keys t) k)"
  using assms
proof (cases rule: Unwrap_cases)
  case (1 ent privKey bits)
  then show ?thesis by (auto simp: UnwrapWithTransitKey_def) (auto simp: transit_burn_def Wipe_def)
qed

section \<open>Import\<close>

lemma ImportKey_cases:
  assumes "ImportKey P L oaep now keyID transitID wrapped (Some k) t m r = (Inr meta, t', m', r')"
  obtains pt material where "keyID \<noteq> []" "UnwrapWithTransitKey L oaep now transitID wrapped t = (Inr pt, t')"
    "WrapDEK P k \<lparr>sb_data = pt, destroyed = False\<rparr> r = (Inr material, r')" "meta = import_meta keyID material k now"
    "lookm m' = set_meta (lookm m) keyID 1 (Some meta)" "cache m' = cache m"
  using assms
  by (fastforce simp: ImportKey_def NewSecureBuffer_def import_meta_def Let_def dest: saveMetadata_look
      split: if_splits prod.splits sum.splits option.splits)

text \<open>
  Importing over an existing key breaks the rule of one active version: when a later
  version of the key is active, a successful ImportKey makes version 1 active as well, and the
  latest-version index still names the later one, so encryption does not use the imported key.
\<close>

theorem import_two_active:
  assumes "ImportKey P L oaep now keyID transitID wrapped (Some k) t m r = (Inr meta, t', m', r')"
    "meta_at (look (store m)) keyID v = Some old" "KState old = StateActive" "v \<noteq> 1"
  shows "meta_at (look (store m')) keyID 1 = Some meta \<and> KState meta = StateActive
    \<and> meta_at (look (store m')) keyID v = Some old
    \<and> look (store m') (latestVersionMetadataKey keyID) = look (store m) (latestVersionMetadataKey keyID)
    \<and> cache m' = cache m"
  using assms(1)
proof (cases rule: ImportKey_cases)
  case (1 pt material)
  then show ?thesis using assms(2-4)
    by (auto simp: meta_at_set_meta import_meta_def) (auto simp: set_meta_def)
qed

section \<open>Witnesses\<close>

definition toy_oaep :: "key_kind \<Rightarrow> bytes \<Rightarrow> bytes res" where
  "toy_oaep k w = Inr w"

definition toy_transit :: TransitKeyManager where
  "toy_transit = \<lparr>transit_keys = [(''transit-1'', \<lparr>privateKey = \<lparr>sb_data = [1], destroyed = False\<rparr>, publicKey = [45, 1], expiresAt = 100\<rparr>)],
     released = []\<rparr>"

lemma toy_unwrap_transit:
  "\<exists>t'. UnwrapWithTransitKey toy_pki toy_oaep 5 ''transit-1'' w toy_transit = (Inr w, t')"
  by (simp add: UnwrapWithTransitKey_def toy_transit_def WithKey_def toy_pki_def toy_oaep_def)

theorem transit_used_once_witness:
  "\<exists>t'. UnwrapWithTransitKey toy_pki toy_oaep 5 ''transit-1'' [9] toy_transit = (Inr [9], t')
     \<and> UnwrapWithTransitKey toy_pki toy_oaep 6 ''transit-1'' [9] t' = (Inl (Msg ''transit: key not found (expired or already used)''), t')
     \<and> (\<exists>key. released t' = [key] \<and> destroyed key \<and> set (sb_data key) \<subseteq> {0})"
proof -
  obtain t' where t': "UnwrapWithTransitKey toy_pki toy_oaep 5 ''transit-1'' [9] toy_transit = (Inr [9], t')"
    using toy_unwrap_transit by blast
  have "released toy_transit = []" by (simp add: toy_transit_def)
  with transit_used_once [OF t', of 6 "[9]"] t' show ?thesis by simp
qed

lemma toy_rotated_mem:
  "\<exists>nm m' d. RotateKey toy_prims None 9 ''k'' (Some toy_kek) toy_m1 (zero_source\<lparr>pos := 44\<rparr>) =
     (Inr (nm, toy_dek), m', zero_source\<lparr>pos := 88\<rparr>) \<and> store m' = Mem d"
proof -
  obtain nm s' where t: "rotate_tx toy_prims 9 ''k'' toy_kek (store toy_m1) (zero_source\<lparr>pos := 44\<rparr>) =
     (Inr (nm, toy_dek), Mem s', zero_source\<lparr>pos := 88\<rparr>)" using toy_rotate_tx by blast
  obtain d where st: "store toy_m1 = Mem d" by (simp add: toy_m1_def)
  have "store_WithTx None (rotate_tx toy_prims 9 ''k'' toy_kek) (store toy_m1) (zero_source\<lparr>pos := 44\<rparr>) =
     (Inr (nm, toy_dek), Mem s', zero_source\<lparr>pos := 88\<rparr>)"
    using t unfolding st by (simp add: mem_WithTx_def)
  then show ?thesis by (simp add: RotateKey_def notifyClusterIfNoTxNotifier_def)
qed

lemma toy_import:
  assumes "store m = Mem d"
  shows "\<exists>meta t' m' r'. ImportKey toy_prims toy_pki toy_oaep 5 ''k'' ''transit-1'' (replicate 32 9) (Some toy_kek) toy_transit m (zero_source\<lparr>pos := 0\<rparr>) =
    (Inr meta, t', m', r')"
proof -
  obtain t' where t': "UnwrapWithTransitKey toy_pki toy_oaep 5 ''transit-1'' (replicate 32 9) toy_transit = (Inr (replicate 32 9), t')"
    using toy_unwrap_transit by blast
  show ?thesis
    using t' toy_EncryptGCM [of "replicate 32 9" 0] assms
    by (simp add: ImportKey_def NewSecureBuffer_def toy_kek_def NewSoftwareKEK_def software_WrapDEK_def WithKey_def toy_prims_def
        saveMetadata_def mem_Put_def import_meta_def Let_def)
qed

theorem import_two_active_witness:
  "\<exists>m meta t' m' r' old v. ImportKey toy_prims toy_pki toy_oaep 5 ''k'' ''transit-1'' (replicate 32 9) (Some toy_kek) toy_transit m
       (zero_source\<lparr>pos := 0\<rparr>) = (Inr meta, t', m', r')
     \<and> v \<noteq> 1 \<and> meta_at (look (store m')) ''k'' 1 = Some meta \<and> KState meta = StateActive
     \<and> meta_at (look (store m')) ''k'' v = Some old \<and> KState old = StateActive"
proof -
  obtain nm m d where r: "RotateKey toy_prims None 9 ''k'' (Some toy_kek) toy_m1 (zero_source\<lparr>pos := 44\<rparr>) =
     (Inr (nm, toy_dek), m, zero_source\<lparr>pos := 88\<rparr>)" and d: "store m = Mem d" using toy_rotated_mem by blast
  obtain meta t' m' r' where i: "ImportKey toy_prims toy_pki toy_oaep 5 ''k'' ''transit-1'' (replicate 32 9) (Some toy_kek) toy_transit m
     (zero_source\<lparr>pos := 0\<rparr>) = (Inr meta, t', m', r')" using toy_import [OF d] by blast
  have "\<exists>v \<ge> 1. meta_at (lookm m) ''k'' (v + 1) = Some nm \<and> KState nm = StateActive"
    using r by (rule RotateKey_Inr) (auto simp: meta_at_set_meta rotated_meta_def)
  then obtain v where v: "meta_at (lookm m) ''k'' (v + 1) = Some nm" "KState nm = StateActive" "1 \<le> v" by blast
  have "v + 1 \<noteq> 1" using v(3) by simp
  from import_two_active [OF i v(1,2) this] v(2) i this show ?thesis by blast
qed

end
