(* ===== verification/Http.thy ===== *)
theory Http
  imports Service Totp Approval Transit
begin

text \<open>
  The frame of \<^verbatim>\<open>internal/api\<close>: responses (\<^verbatim>\<open>helpers.go\<close>), the router's state
  (\<^verbatim>\<open>v1_router.go\<close>) and the middleware (\<^verbatim>\<open>middleware.go\<close>, \<^verbatim>\<open>middleware_mfa.go\<close>).
  A handler maps a request, the router and the random source to a response and their new values; a
  panic is a response of its own, which the audit middleware turns into an internal error.
  Decoders of request bodies, base64 and the other library functions are fields of \<open>env\<close>.
\<close>

section \<open>Requests and responses\<close>

datatype json = JNull | JBool bool | JInt int | JString string | JBytes bytes | JArr "json list" | JObj "(string \<times> json) list"

datatype response = Response int json | Panicked

text \<open>A body that cannot be read is \<open>None\<close>; a missing query parameter or header reads as the empty
  string. \<open>r_clock\<close> are readings of the clock, \<open>r_trace\<close> the trace id of the tracing library, empty
  without it.\<close>

record request =
  r_method :: string
  r_path :: string
  r_query :: "string \<Rightarrow> string"
  r_header :: "string \<Rightarrow> string"
  r_body :: "bytes option"
  r_remote :: string
  r_trace :: string
  r_clock :: "nat \<Rightarrow> 64 word"
  r_call :: call

abbreviation r_ctx :: "request \<Rightarrow> request_context" where
  "r_ctx req \<equiv> cvalues (r_call req)"

abbreviation r_now :: "request \<Rightarrow> time" where
  "r_now req \<equiv> at (r_call req)"

section \<open>helpers.go\<close>

definition writeJSONError :: "int \<Rightarrow> string \<Rightarrow> response" where
  "writeJSONError status msg = Response status (JObj [(''ok'', JBool False), (''error'', JString msg)])"

definition writeJSONOK :: "json \<Rightarrow> response" where
  "writeJSONOK payload = Response 200 (JObj [(''ok'', JBool True), (''data'', payload)])"

text \<open>The texts of errors; formats keep their constant part.\<close>

fun error_text :: "err \<Rightarrow> string" where
  "error_text (Msg s) = s"
| "error_text (Wrap s e) = s @ '': '' @ error_text e"
| "error_text (Panic s) = s"
| "error_text ErrNotFound = ''storage: key not found''"
| "error_text ErrDegraded = ''storage: database unavailable (degraded mode)''"
| "error_text ErrQuotaExceeded = ''lifecycle: global key quota exceeded''"
| "error_text ErrKeyDestroyed = ''lifecycle: key is destroyed, all operations refused''"
| "error_text ErrInvalidShareFormat = ''seal: invalid share format''"
| "error_text ErrInvalidParam = ''seal: invalid split parameters''"
| "error_text ErrZeroInverse = ''seal: gfInv(0) is undefined (invalid share data)''"
| "error_text ErrCiphertextTooShort = ''crypto: ciphertext too short''"
| "error_text ErrKeyRequired = ''crypto: key SecureBuffer must not be nil''"
| "error_text ErrUnauthorized = ''auth: unauthorized''"
| "error_text ErrTOTPInvalid = ''auth: invalid TOTP code''"
| "error_text ErrTOTPAlreadyUsed = ''auth: TOTP code already used''"
| "error_text ErrApprovalNotFound = ''auth: approval ticket not found''"
| "error_text ErrCircuitOpen = ''yvonne: circuit breaker is open''"

definition api_status :: "string \<Rightarrow> int" where
  "api_status msg =
     (if contains msg ''not found'' then 404
      else if contains msg ''unauthorized'' \<or> contains msg ''denied'' \<or> contains msg ''cannot access'' then 403
      else if contains msg ''sealed'' then 503
      else if contains msg ''requires asymmetric'' \<or> contains msg ''requires symmetric'' \<or> contains msg ''no public key'' then 400
      else 500)"

definition writeAPIError :: "err \<Rightarrow> response" where
  "writeAPIError e = writeJSONError (api_status (error_text e)) (error_text e)"

section \<open>v1\_router.go: state\<close>

text \<open>
  The core holds the manager, the vault and the audit entries, which the router shares with it.
  \<open>r_logger\<close> is the auditor once more when it is an \<^verbatim>\<open>AuditLogger\<close>, for queries. Metrics, rate
  limiting and CORS headers are in the theory \<open>Edge\<close>; tracing is left out.
\<close>

record V1Router =
  core :: Core
  authenticator :: "(string \<Rightarrow> Policy res) option"
  r_adminToken :: string
  transitMgr :: TransitKeyManager
  mfaStore :: "MemoryMFAStore option"
  approvalStore :: "MemoryApprovalStore option"
  auditDir :: string
  r_logger :: "AuditLogger option"

type_synonym handler = "request \<Rightarrow> V1Router \<Rightarrow> csprng \<Rightarrow> response \<times> V1Router \<times> csprng"

abbreviation r_manager :: "V1Router \<Rightarrow> Manager" where
  "r_manager R \<equiv> manager (core R)"

abbreviation r_seal :: "V1Router \<Rightarrow> Unsealer" where
  "r_seal R \<equiv> vault_seal (core R)"

definition set_manager :: "Manager \<Rightarrow> V1Router \<Rightarrow> V1Router" where
  "set_manager m R = R\<lparr>core := (core R)\<lparr>manager := m\<rparr>\<rparr>"

definition requireMethod :: "string \<Rightarrow> handler \<Rightarrow> handler" where
  "requireMethod m next req R r =
     (if r_method req \<noteq> m then (writeJSONError 405 ''method not allowed'', R, r) else next req R r)"

section \<open>middleware.go\<close>

definition extractKeyIDFromPath :: "string \<Rightarrow> string" where
  "extractKeyIDFromPath path =
     (if \<not> has_prefix path ''/api/v1/keys/'' then []
      else takeWhile (\<lambda>c. c \<noteq> CHR ''/'') (drop (length ''/api/v1/keys/'') path))"

text \<open>A nil authenticator is \<open>None\<close>: calling it panics.\<close>

definition RequireAuth :: "unicode \<Rightarrow> (string \<Rightarrow> Policy res) option \<Rightarrow> string \<Rightarrow> handler \<Rightarrow> handler" where
  "RequireAuth U authn action next req R r =
     (case ExtractBearerToken U (r_header req ''Authorization'') of
        Inl _ \<Rightarrow> (writeJSONError 401 ''authentication required'', R, r)
      | Inr token \<Rightarrow>
          (case authn of
             None \<Rightarrow> (Panicked, R, r)
           | Some authenticate \<Rightarrow>
               (case authenticate token of
                  Inl _ \<Rightarrow> (writeJSONError 401 ''authentication failed'', R, r)
                | Inr policy \<Rightarrow>
                    let ctx = WithPolicy (WithRoleID (r_ctx req) (RoleID policy)) policy;
                        ctx = (if TenantID policy \<noteq> '''' then WithTenant ctx (TenantID policy) else ctx);
                        req = req\<lparr>r_call := (r_call req)\<lparr>cvalues := ctx\<rparr>\<rparr>
                    in if \<not> IsActionAllowed U policy action then (writeJSONError 403 ''access denied: role does not have action'', R, r)
                       else let keyID = extractKeyIDFromPath (r_path req)
                            in if keyID \<noteq> '''' \<and> \<not> IsKeyAllowed policy keyID then (writeJSONError 403 ''key not allowed'', R, r)
                               else next req R r)))"

definition authorizeBodyKeyIDWithDetail :: "request \<Rightarrow> string \<Rightarrow> err option" where
  "authorizeBodyKeyIDWithDetail req keyID =
     (case PolicyFromContext (r_ctx req) of
        None \<Rightarrow> None
      | Some policy \<Rightarrow> if \<not> IsKeyAllowed policy keyID then Some (Msg ''access denied: role cannot access key'') else None)"

text \<open>The deferred recover writes an internal error, as no handler panics after writing.\<close>

definition recovered :: "response \<Rightarrow> response" where
  "recovered resp = (case resp of Panicked \<Rightarrow> writeJSONError 500 ''internal error'' | Response s j \<Rightarrow> Response s j)"

definition response_status :: "response \<Rightarrow> int" where
  "response_status resp = (case resp of Panicked \<Rightarrow> 500 | Response s _ \<Rightarrow> s)"

definition record_request :: "request \<Rightarrow> string \<Rightarrow> string \<Rightarrow> int \<Rightarrow> LogEntry list \<Rightarrow> LogEntry list" where
  "record_request req traceID action rcode log =
     (let role = RoleIDFromContext (r_ctx req);
          actor = (if role = '''' then r_remote req else role);
          status = (if rcode = 403 then ''unauthorized'' else if rcode \<ge> 400 then ''failure'' else ''success'')
      in log @ [\<lparr>TraceID = traceID, Timestamp = r_now req, ClientIP = [], Actor = actor, Resource = [], Action = action,
           Result = [], EntryKeyID = [], Status = status\<rparr>])"

definition auditMiddleware :: "string \<Rightarrow> handler \<Rightarrow> handler" where
  "auditMiddleware action next req R r =
     (if u_IsEmergencySealed (r_seal R) then (writeJSONError 503 ''vault is emergency sealed'', R, r)
      else case (if r_trace req = '''' then
                   (case GenerateSecureRandom 16 r of
                      (Inl e, r1) \<Rightarrow> (None, r1)
                    | (Inr b, r1) \<Rightarrow> (Some (hex_EncodeToString b), r1))
                 else (Some (r_trace req), r)) of
           (None, r1) \<Rightarrow> (writeJSONError 500 ''trace id generation failed'', R, r1)
         | (Some traceID, r1) \<Rightarrow>
             (case next req R r1 of
                (resp, R1, r2) \<Rightarrow>
                  (case auditLog (core R1) of
                     None \<Rightarrow> (Panicked, R1, r2)
                   | Some log \<Rightarrow>
                       (recovered resp,
                        R1\<lparr>core := (core R1)\<lparr>auditLog := Some (record_request req traceID action (response_status resp) log)\<rparr>\<rparr>,
                        r2))))"

section \<open>v1\_router.go: requireUnsealedV1 and authAndSeal\<close>

definition requireUnsealedV1 :: "handler \<Rightarrow> handler" where
  "requireUnsealedV1 next req R r =
     (if u_IsEmergencySealed (r_seal R) then (writeJSONError 503 ''vault is emergency sealed'', R, r)
      else if u_IsSealed (r_seal R) then (writeJSONError 503 ''kms is sealed'', R, r)
      else next req R r)"

definition authAndSeal :: "unicode \<Rightarrow> string \<Rightarrow> handler \<Rightarrow> handler" where
  "authAndSeal U action next req R r =
     (let handler = (if authenticator R \<noteq> None then RequireAuth U (authenticator R) action next else next)
      in requireUnsealedV1 handler req R r)"

section \<open>middleware\_mfa.go\<close>

definition sensitiveOperations :: "string list" where
  "sensitiveOperations = [''ShredKey'', ''EmergencySeal'', ''ExportKey'', ''SoftDeleteKey'']"

text \<open>The check of the approval ticket: \<open>None\<close> when the request may go on.\<close>

definition quorum_check :: "string \<Rightarrow> Policy \<Rightarrow> request \<Rightarrow> V1Router \<Rightarrow> response option" where
  "quorum_check action policy req R =
     (if RequireQuorum policy > 0 then
        (case approvalStore R of
           None \<Rightarrow> None
         | Some s \<Rightarrow>
             let ticketID = r_header req ''X-Approval-Ticket-ID''
             in if ticketID = '''' then Some (writeJSONError 202 ''quorum approval required: create approval ticket first'')
                else (case GetTicket ticketID s of
                    Inl e \<Rightarrow> Some (writeJSONError 404 (''approval ticket not found: '' @ error_text e))
                  | Inr ticket \<Rightarrow>
                      if ticket_Status ticket \<noteq> ApprovalApproved then Some (writeJSONError 403 ''approval not completed'')
                      else if Operation ticket \<noteq> action then Some (writeJSONError 403 ''ticket operation mismatch'')
                      else None))
      else None)"

definition totp_ok :: "totp_lib \<Rightarrow> string \<Rightarrow> string \<Rightarrow> time \<Rightarrow> bool" where
  "totp_ok L secret otp now = (fst (ValidateTOTP L secret otp None now ()) = None)"

definition mfaMiddleware :: "totp_lib \<Rightarrow> string \<Rightarrow> handler \<Rightarrow> handler" where
  "mfaMiddleware L action next req R r =
     (if action \<notin> set sensitiveOperations then next req R r
      else case PolicyFromContext (r_ctx req) of
          None \<Rightarrow> next req R r
        | Some policy \<Rightarrow>
            (case quorum_check action policy req R of
               Some resp \<Rightarrow> (resp, R, r)
             | None \<Rightarrow>
                 if \<not> RequireMFA policy then next req R r
                 else case mfaStore R of
                     None \<Rightarrow> (writeJSONError 503 ''mfa store not configured'', R, r)
                   | Some s \<Rightarrow>
                       (case GetMFAState (RoleID policy) s of
                          Inl _ \<Rightarrow> (writeJSONError 403 ''mfa not setup for role'', R, r)
                        | Inr st \<Rightarrow>
                            if \<not> Enabled st then (writeJSONError 403 ''mfa not enabled, call verify first'', R, r)
                            else let otp = r_header req ''X-MFA-Code''
                                 in if otp = '''' then (writeJSONError 401 ''mfa code required in X-MFA-Code header'', R, r)
                                    else if \<not> totp_ok L (Secret st) otp (r_now req) then (writeJSONError 403 ''invalid mfa code'', R, r)
                                    else next req R r)))"

end
