(* ===== verification/Handlers.thy ===== *)
theory Handlers
  imports Http
begin

text \<open>
  The handlers of \<^verbatim>\<open>internal/api\<close>, one definition each, after the decoding of the body:
  \<^verbatim>\<open>handler_v1.go\<close>, \<^verbatim>\<open>handler_keys.go\<close>, \<^verbatim>\<open>handler_v12.go\<close>, \<^verbatim>\<open>handler_sys.go\<close>,
  \<^verbatim>\<open>handler_byok.go\<close>, \<^verbatim>\<open>handler_mfa.go\<close>, \<^verbatim>\<open>handler_approval.go\<close> and
  \<^verbatim>\<open>handler_audit.go\<close>. Times in payloads are numbers.
\<close>

section \<open>Request bodies\<close>

record encryptRequest =
  enc_KeyID :: string
  enc_Plaintext :: bytes

record decryptRequest =
  decr_KeyID :: string
  decr_Ciphertext :: bytes

record createKeyRequest =
  create_KeyID :: string
  create_ReturnDEK :: "bool option"

record createAsymmetricKeyRequest =
  asym_KeyID :: string
  asym_KeyType :: string

record signRequest =
  sign_KeyID :: string
  sign_Data :: bytes

record verifyRequest =
  ver_KeyID :: string
  ver_Data :: bytes
  ver_Signature :: bytes

record verifyMacRequest =
  vmac_KeyID :: string
  vmac_Data :: bytes
  vmac_Mac :: bytes

record reEncryptRequest =
  SourceKeyID :: string
  DestKeyID :: string
  reenc_Ciphertext :: bytes

record panicRequest =
  AdminToken :: string
  Confirm :: bool

record importRequest =
  imp_KeyID :: string
  TransitKeyID :: string
  WrappedMaterial :: string

record createApprovalRequest =
  appr_Operation :: string
  appr_KeyID :: string
  appr_Required :: int
  TTLHours :: int

record auditQueryRequest =
  q_StartTime :: string
  q_EndTime :: string
  q_Actor :: string
  q_Action :: string
  q_Limit :: int

text \<open>\<^verbatim>\<open>json.Unmarshal\<close> into each of them; bodies with a single field decode to that field, those
  of the MFA verification and removal to role and code.\<close>

record codec =
  dec_encrypt :: "bytes \<Rightarrow> encryptRequest option"
  dec_decrypt :: "bytes \<Rightarrow> decryptRequest option"
  dec_create :: "bytes \<Rightarrow> createKeyRequest option"
  dec_version :: "bytes \<Rightarrow> int option"
  dec_asym :: "bytes \<Rightarrow> createAsymmetricKeyRequest option"
  dec_sign :: "bytes \<Rightarrow> signRequest option"
  dec_verify :: "bytes \<Rightarrow> verifyRequest option"
  dec_verifyMac :: "bytes \<Rightarrow> verifyMacRequest option"
  dec_reEncrypt :: "bytes \<Rightarrow> reEncryptRequest option"
  dec_share :: "bytes \<Rightarrow> bytes option"
  dec_panic :: "bytes \<Rightarrow> panicRequest option"
  dec_import :: "bytes \<Rightarrow> importRequest option"
  dec_role :: "bytes \<Rightarrow> string option"
  dec_role_code :: "bytes \<Rightarrow> (string \<times> string) option"
  dec_approval :: "bytes \<Rightarrow> createApprovalRequest option"
  dec_ticket :: "bytes \<Rightarrow> string option"
  dec_query :: "bytes \<Rightarrow> auditQueryRequest option"

record ('k, 'p) env =
  e_prims :: prims
  e_unicode :: unicode
  e_hashes :: hashes
  e_pki :: "('k, 'p) pki"
  e_gmsm :: bool
  e_SM2 :: "csprng \<Rightarrow> (bytes \<times> bytes) res \<times> csprng"
  e_oaep :: "'k \<Rightarrow> bytes \<Rightarrow> bytes res"
  e_totp :: totp_lib
  e_codec :: codec
  e_base64 :: "string \<Rightarrow> bytes option"
  e_rfc3339 :: "string \<Rightarrow> time option"
  e_audit_json :: audit_json
  e_sha :: hash_alg
  e_sort :: "QueryResult list \<Rightarrow> QueryResult list"

definition asym_of :: "('k, 'p) env \<Rightarrow> 'k asym" where
  "asym_of E = \<lparr>gen_key = GenerateAsymmetricKey (e_pki E), to_DER = PrivateKeyToDER (e_pki E),
     to_PEM = (\<lambda>k. PublicKeyToPEM (e_pki E) (public_of (e_pki E) k)), gen_SM2 = e_SM2 E\<rparr>"

text \<open>Reading and decoding the body.\<close>

definition with_body :: "string \<Rightarrow> string \<Rightarrow> (bytes \<Rightarrow> 'b option) \<Rightarrow> ('b \<Rightarrow> handler) \<Rightarrow> handler" where
  "with_body read_failed bad dec next req R r =
     (case r_body req of
        None \<Rightarrow> (writeJSONError 400 read_failed, R, r)
      | Some bodyBytes \<Rightarrow>
          (case dec bodyBytes of
             None \<Rightarrow> (writeJSONError 400 bad, R, r)
           | Some body \<Rightarrow> next body req R r))"

abbreviation read_failed :: string where "read_failed \<equiv> ''read request body failed''"
abbreviation bad_body :: string where "bad_body \<equiv> ''invalid request body''"
abbreviation bad_json :: string where "bad_json \<equiv> ''invalid JSON''"

text \<open>\<^verbatim>\<open>r.seal.KEKRef(func(kek) error { ... })\<close> around a call of the manager.\<close>

definition with_kek ::
  "(KEK \<Rightarrow> Manager \<Rightarrow> csprng \<Rightarrow> 'a res \<times> Manager \<times> csprng) \<Rightarrow> V1Router \<Rightarrow> csprng \<Rightarrow> 'a res \<times> V1Router \<times> csprng" where
  "with_kek f R r =
     (case u_KEKRef (r_seal R) of
        Inl e \<Rightarrow> (Inl e, R, r)
      | Inr kek \<Rightarrow> (case f kek (r_manager R) r of (x, m, r1) \<Rightarrow> (x, set_manager m R, r1)))"

text \<open>\<^verbatim>\<open>buf.WithKey\<close> copying the secret into the response.\<close>

definition reveal :: "SecureBuffer \<Rightarrow> (bytes \<Rightarrow> response) \<Rightarrow> response" where
  "reveal b f = (case WithKey b Inr of Inl _ \<Rightarrow> Panicked | Inr secret \<Rightarrow> f secret)"

abbreviation scoped :: "request \<Rightarrow> string \<Rightarrow> string" where
  "scoped req keyID \<equiv> ScopedKeyID (TenantFromContext (r_ctx req)) keyID"

section \<open>handler\_v1.go\<close>

definition ErrKeyNotActive :: err where
  "ErrKeyNotActive = Msg ''lifecycle: key is not active, encrypt refused''"

definition encrypt_body :: "('k, 'p) env \<Rightarrow> encryptRequest \<Rightarrow> handler" where
  "encrypt_body E body req R r =
     (if enc_KeyID body = '''' then (writeJSONError 400 ''key_id is required'', R, r)
      else case authorizeBodyKeyIDWithDetail req (enc_KeyID body) of
          Some e \<Rightarrow> (writeJSONError 403 (error_text e), R, r)
        | None \<Rightarrow>
            (case GetActiveKey (r_now req) (scoped req (enc_KeyID body)) (r_manager R) of
               (Inl e, m) \<Rightarrow>
                 (if e = ErrKeyNotActive then writeJSONError 403 ''key is not active, encrypt refused''
                  else writeJSONError 404 ''active key not found'', set_manager m R, r)
             | (Inr meta, m) \<Rightarrow>
                 (case with_kek (\<lambda>kek m1 r1. case UnwrapDEK (e_prims E) kek (EncryptedMaterial meta) of
                          Inl e \<Rightarrow> (Inl e, m1, r1)
                        | Inr dek \<Rightarrow>
                            (case EncryptVersioned (aes (e_prims E)) dek (SafeUint32 (Version meta)) (enc_Plaintext body) r1 of
                               (x, r2) \<Rightarrow> (x, m1, r2))) (set_manager m R) r of
                    (Inl _, R1, r1) \<Rightarrow> (writeJSONError 500 ''encrypt failed'', R1, r1)
                  | (Inr ciphertext, R1, r1) \<Rightarrow>
                      (writeJSONOK (JObj [(''ciphertext'', JBytes ciphertext), (''version'', JInt (Version meta))]), R1, r1))))"

definition handleV1Encrypt :: "('k, 'p) env \<Rightarrow> handler" where
  "handleV1Encrypt E = requireMethod ''POST'' (with_body read_failed bad_body (dec_encrypt (e_codec E)) (encrypt_body E))"

definition decrypt_body :: "('k, 'p) env \<Rightarrow> decryptRequest \<Rightarrow> handler" where
  "decrypt_body E body req R r =
     (if decr_KeyID body = '''' then (writeJSONError 400 ''key_id is required'', R, r)
      else case authorizeBodyKeyIDWithDetail req (decr_KeyID body) of
          Some e \<Rightarrow> (writeJSONError 403 (error_text e), R, r)
        | None \<Rightarrow>
            if length (decr_Ciphertext body) < MinCiphertextSize then (writeJSONError 400 ''ciphertext too short'', R, r)
            else case DecodeVersionedCiphertext (decr_Ciphertext body) of
                Inl _ \<Rightarrow> (writeJSONError 400 ''invalid ciphertext format'', R, r)
              | Inr (version, _, _) \<Rightarrow>
                  (case GetKeyForDecrypt (r_now req) (scoped req (decr_KeyID body)) (uint version) (r_manager R) of
                     (Inl e, m) \<Rightarrow>
                       (if e = ErrKeyDestroyed then writeJSONError 400 ''key version is destroyed, decrypt refused''
                        else writeJSONError 404 ''key version not found'', set_manager m R, r)
                   | (Inr meta, m) \<Rightarrow>
                       (case with_kek (\<lambda>kek m1 r1. case UnwrapDEK (e_prims E) kek (EncryptedMaterial meta) of
                                Inl e \<Rightarrow> (Inl e, m1, r1)
                              | Inr dek \<Rightarrow> (DecryptVersioned (aes (e_prims E)) dek (decr_Ciphertext body), m1, r1)) (set_manager m R) r of
                          (Inl _, R1, r1) \<Rightarrow> (writeJSONError 500 ''decrypt failed'', R1, r1)
                        | (Inr (plaintext, _), R1, r1) \<Rightarrow>
                            (reveal plaintext (\<lambda>secret. writeJSONOK (JObj [(''plaintext'', JBytes secret), (''version'', JInt (uint version))])),
                             R1, r1))))"

definition handleV1Decrypt :: "('k, 'p) env \<Rightarrow> handler" where
  "handleV1Decrypt E = requireMethod ''POST'' (with_body read_failed bad_body (dec_decrypt (e_codec E)) (decrypt_body E))"

section \<open>handler\_keys.go\<close>

definition create_body :: "('k, 'p) env \<Rightarrow> createKeyRequest \<Rightarrow> handler" where
  "create_body E body req R r =
     (if create_KeyID body = '''' then (writeJSONError 400 ''key_id is required'', R, r)
      else case with_kek (\<lambda>kek. CreateKey (e_prims E) (r_now req) (scoped req (create_KeyID body)) (Some kek) 0) R r of
          (Inl _, R1, r1) \<Rightarrow> (writeJSONError 500 ''create key failed'', R1, r1)
        | (Inr (meta, dek), R1, r1) \<Rightarrow>
            let returnDEK = (case create_ReturnDEK body of None \<Rightarrow> True | Some b \<Rightarrow> b);
                answer = (\<lambda>plain. writeJSONOK (JObj [(''key_id'', JString (KeyID meta)), (''version'', JInt (Version meta)), (''plaintext_dek'', plain)]))
            in (if \<not> returnDEK then answer JNull else reveal dek (\<lambda>secret. answer (JBytes secret)), R1, r1))"

definition handleCreateKey :: "('k, 'p) env \<Rightarrow> handler" where
  "handleCreateKey E = requireMethod ''POST'' (with_body read_failed bad_body (dec_create (e_codec E)) (create_body E))"

definition handleRotateKey :: "('k, 'p) env \<Rightarrow> string \<Rightarrow> handler" where
  "handleRotateKey E keyID req R r =
     (case with_kek (\<lambda>kek. RotateKey (e_prims E) (cancelled (r_call req)) (r_now req) keyID (Some kek)) R r of
        (Inl _, R1, r1) \<Rightarrow> (writeJSONError 500 ''rotate key failed'', R1, r1)
      | (Inr (meta, dek), R1, r1) \<Rightarrow>
          (reveal dek (\<lambda>secret. writeJSONOK (JObj [(''key_id'', JString keyID), (''version'', JInt (Version meta)), (''plaintext_dek'', JBytes secret)])),
           R1, r1))"

text \<open>The three operations on a version share the decoding and the check of the version.\<close>

definition version_op :: "('k, 'p) env \<Rightarrow> (int \<Rightarrow> request \<Rightarrow> Manager \<Rightarrow> unit res \<times> Manager) \<Rightarrow> (err \<Rightarrow> response) \<Rightarrow> (int \<Rightarrow> json) \<Rightarrow> handler" where
  "version_op E f on_error payload =
     with_body read_failed bad_body (dec_version (e_codec E)) (\<lambda>version req R r.
       if version < 1 then (writeJSONError 400 ''version is required and must be >= 1'', R, r)
       else case f version req (r_manager R) of
           (Inl e, m) \<Rightarrow> (on_error e, set_manager m R, r)
         | (Inr _, m) \<Rightarrow> (writeJSONOK (payload version), set_manager m R, r))"

definition handleShredKey :: "('k, 'p) env \<Rightarrow> string \<Rightarrow> handler" where
  "handleShredKey E keyID =
     version_op E (\<lambda>v req. ShredKey (cancelled (r_call req)) keyID v)
       (\<lambda>_. writeJSONError 500 ''shred key failed'')
       (\<lambda>v. JObj [(''key_id'', JString keyID), (''version'', JInt v), (''shred'', JBool True)])"

definition handleSoftDeleteKey :: "('k, 'p) env \<Rightarrow> string \<Rightarrow> handler" where
  "handleSoftDeleteKey E keyID =
     version_op E (\<lambda>v req. SoftDeleteKey (cancelled (r_call req)) (r_now req) keyID v)
       (\<lambda>e. if e = ErrKeyDestroyed then writeJSONError 400 ''key is already destroyed'' else writeJSONError 500 ''soft-delete failed'')
       (\<lambda>v. JObj [(''key_id'', JString keyID), (''version'', JInt v), (''soft_deleted'', JBool True), (''restorable'', JBool True)])"

definition handleRestoreKey :: "('k, 'p) env \<Rightarrow> string \<Rightarrow> handler" where
  "handleRestoreKey E keyID =
     version_op E (\<lambda>v req. RestoreKey (cancelled (r_call req)) keyID v)
       (\<lambda>e. if e = ErrKeyDestroyed then writeJSONError 400 ''key is destroyed, cannot restore'' else writeJSONError 500 ''restore failed'')
       (\<lambda>v. JObj [(''key_id'', JString keyID), (''version'', JInt v), (''restored'', JBool True), (''state'', JString ''Deactivated''),
              (''note'', JString ''restored as Deactivated; rotate to make Active for encryption'')])"

definition handleGenerateDataKey :: "('k, 'p) env \<Rightarrow> string \<Rightarrow> handler" where
  "handleGenerateDataKey E keyID req R r =
     (case with_kek (\<lambda>kek. GenerateDataKey (e_prims E) (r_now req) keyID (Some kek)) R r of
        (Inl _, R1, r1) \<Rightarrow> (writeJSONError 404 ''generate data key failed'', R1, r1)
      | (Inr (plain, ciphertext), R1, r1) \<Rightarrow>
          (reveal plain (\<lambda>raw. writeJSONOK (JObj [(''key_id'', JString keyID), (''plaintext_dek'', JBytes raw), (''ciphertext_dek'', JBytes ciphertext)])),
           R1, r1))"

text \<open>The path below \<^verbatim>\<open>/api/v1/keys/\<close> is split at the first slash.\<close>

definition handleKeyOps :: "('k, 'p) env \<Rightarrow> handler" where
  "handleKeyOps E req R r =
     (let pre = ''/api/v1/keys/'';
          path = (if has_prefix (r_path req) pre then drop (length pre) (r_path req) else r_path req);
          keyID = takeWhile (\<lambda>c. c \<noteq> CHR ''/'') path;
          rest = dropWhile (\<lambda>c. c \<noteq> CHR ''/'') path
      in if rest = [] then (writeJSONError 404 ''invalid key path'', R, r)
         else let action = tl rest
              in if keyID = '''' then (writeJSONError 400 ''key_id is required'', R, r)
                 else if action = ''rotate'' then requireMethod ''POST'' (handleRotateKey E keyID) req R r
                 else if action = ''shred'' then requireMethod ''DELETE'' (handleShredKey E keyID) req R r
                 else if action = ''soft-delete'' then requireMethod ''PATCH'' (handleSoftDeleteKey E keyID) req R r
                 else if action = ''restore'' then requireMethod ''POST'' (handleRestoreKey E keyID) req R r
                 else if action = ''generate-data-key'' then requireMethod ''POST'' (handleGenerateDataKey E keyID) req R r
                 else (writeJSONError 404 (''unknown key operation: '' @ action), R, r))"

definition asymmetric_body :: "('k, 'p) env \<Rightarrow> createAsymmetricKeyRequest \<Rightarrow> handler" where
  "asymmetric_body E body req R r =
     (if asym_KeyID body = '''' then (writeJSONError 400 ''key_id is required'', R, r)
      else if asym_KeyType body \<notin> {''rsa'', ''ecdsa'', ''sm2''} then (writeJSONError 400 ''key_type must be rsa, ecdsa, or sm2'', R, r)
      else case with_kek (\<lambda>kek. CreateAsymmetricKey (e_gmsm E) (asym_of E) (e_prims E) (r_now req) (asym_KeyID body) (asym_KeyType body) (Some kek)) R r of
          (Inl e, R1, r1) \<Rightarrow> (writeAPIError e, R1, r1)
        | (Inr meta, R1, r1) \<Rightarrow>
            (writeJSONOK (JObj [(''key_id'', JString (KeyID meta)), (''version'', JInt (Version meta)), (''key_type'', JString (KeyType meta)),
               (''public_key'', JBytes (PublicKey meta))]), R1, r1))"

definition handleCreateAsymmetricKey :: "('k, 'p) env \<Rightarrow> handler" where
  "handleCreateAsymmetricKey E =
     requireMethod ''POST'' (with_body read_failed bad_body (dec_asym (e_codec E)) (asymmetric_body E))"

section \<open>handler\_v12.go\<close>

text \<open>These handlers answer a failed read with the error's own text.\<close>

abbreviation read_error :: string where "read_error \<equiv> ''http: request body too large''"

definition isAsymmetricKey :: "string \<Rightarrow> bool" where
  "isAsymmetricKey keyType \<longleftrightarrow> keyType \<in> {''rsa'', ''ecdsa'', ''sm2''}"

definition isSymmetricKey :: "string \<Rightarrow> bool" where
  "isSymmetricKey keyType \<longleftrightarrow> keyType \<in> {'''', ''aes'', ''sm4''}"

definition set_core :: "Core \<Rightarrow> V1Router \<Rightarrow> V1Router" where
  "set_core c R = R\<lparr>core := c\<rparr>"

definition sign_body :: "('k, 'p) env \<Rightarrow> signRequest \<Rightarrow> handler" where
  "sign_body E body req R r =
     (if sign_KeyID body = '''' then (writeJSONError 400 ''key_id is required'', R, r)
      else case core_Sign (e_prims E) (e_hashes E) (e_pki E) (e_unicode E) (r_call req) (scoped req (sign_KeyID body)) (sign_Data body)
             (PolicyFromContext (r_ctx req)) (core R) r of
          (Inl e, c, r1) \<Rightarrow> (writeAPIError e, set_core c R, r1)
        | (Inr (sig, version), c, r1) \<Rightarrow>
            (writeJSONOK (JObj [(''signature'', JBytes sig), (''version'', JInt version)]), set_core c R, r1))"

definition handleV1Sign :: "('k, 'p) env \<Rightarrow> handler" where
  "handleV1Sign E = requireMethod ''POST'' (with_body read_error bad_json (dec_sign (e_codec E)) (sign_body E))"

definition verify_body :: "('k, 'p) env \<Rightarrow> verifyRequest \<Rightarrow> handler" where
  "verify_body E body req R r =
     (if ver_KeyID body = '''' then (writeJSONError 400 ''key_id is required'', R, r)
      else case core_Verify (e_hashes E) (e_pki E) (e_unicode E) (r_call req) (scoped req (ver_KeyID body)) (ver_Data body) (ver_Signature body)
             (PolicyFromContext (r_ctx req)) (core R) of
          (Inl e, c) \<Rightarrow> (writeAPIError e, set_core c R, r)
        | (Inr (valid, version), c) \<Rightarrow>
            (writeJSONOK (JObj [(''valid'', JBool valid), (''version'', JInt version)]), set_core c R, r))"

definition handleV1Verify :: "('k, 'p) env \<Rightarrow> handler" where
  "handleV1Verify E = requireMethod ''POST'' (with_body read_error bad_json (dec_verify (e_codec E)) (verify_body E))"

text \<open>The key of a MAC, unwrapped inside \<^verbatim>\<open>KEKRef\<close>.\<close>

definition mac_key :: "('k, 'p) env \<Rightarrow> KeyMetadata \<Rightarrow> V1Router \<Rightarrow> bytes res" where
  "mac_key E meta R =
     bindR (u_KEKRef (r_seal R)) (\<lambda>kek.
     bindR (UnwrapDEK (e_prims E) kek (EncryptedMaterial meta)) (\<lambda>keySB.
     wrapR ''extract key'' (WithKey keySB Inr)))"

definition mac_body :: "('k, 'p) env \<Rightarrow> signRequest \<Rightarrow> handler" where
  "mac_body E body req R r =
     (if sign_KeyID body = '''' then (writeJSONError 400 ''key_id is required'', R, r)
      else case GetActiveKey (r_now req) (sign_KeyID body) (r_manager R) of
          (Inl e, m) \<Rightarrow> (writeJSONError 500 (error_text e), set_manager m R, r)
        | (Inr meta, m) \<Rightarrow>
            let R1 = set_manager m R
            in if \<not> isSymmetricKey (KeyType meta) then (writeJSONError 400 ''mac requires symmetric key'', R1, r)
               else (case mac_key E meta R1 of
                   Inl e \<Rightarrow> (writeJSONError 500 (error_text e), R1, r)
                 | Inr key \<Rightarrow>
                     (writeJSONOK (JObj [(''mac'', JBytes (hmac256 (e_hashes E) key (sign_Data body))), (''version'', JInt (Version meta))]), R1, r)))"

definition handleV1GenerateMac :: "('k, 'p) env \<Rightarrow> handler" where
  "handleV1GenerateMac E = requireMethod ''POST'' (with_body read_error bad_json (dec_sign (e_codec E)) (mac_body E))"

definition verify_mac_body :: "('k, 'p) env \<Rightarrow> verifyMacRequest \<Rightarrow> handler" where
  "verify_mac_body E body req R r =
     (case GetActiveKey (r_now req) (vmac_KeyID body) (r_manager R) of
        (Inl e, m) \<Rightarrow> (writeJSONError 500 (error_text e), set_manager m R, r)
      | (Inr meta, m) \<Rightarrow>
          let R1 = set_manager m R
          in (case mac_key E meta R1 of
                Inl e \<Rightarrow> (writeJSONError 500 (error_text e), R1, r)
              | Inr key \<Rightarrow>
                  (writeJSONOK (JObj [(''valid'', JBool (hmac256 (e_hashes E) key (vmac_Data body) = vmac_Mac body)),
                     (''version'', JInt (Version meta))]), R1, r)))"

definition handleV1VerifyMac :: "('k, 'p) env \<Rightarrow> handler" where
  "handleV1VerifyMac E = requireMethod ''POST'' (with_body read_error bad_json (dec_verifyMac (e_codec E)) (verify_mac_body E))"

definition handleV1GDKWithoutPlaintext :: "('k, 'p) env \<Rightarrow> handler" where
  "handleV1GDKWithoutPlaintext E = requireMethod ''POST'' (\<lambda>req R r.
     let keyID = r_query req ''key_id''
     in if keyID = '''' then (writeJSONError 400 ''key_id is required'', R, r)
        else (case with_kek (\<lambda>kek. GenerateDataKey (e_prims E) (r_now req) (scoped req keyID) (Some kek)) R r of
            (Inl e, R1, r1) \<Rightarrow> (writeJSONError 500 (error_text e), R1, r1)
          | (Inr (_, ciphertext), R1, r1) \<Rightarrow> (writeJSONOK (JObj [(''ciphertext'', JBytes ciphertext)]), R1, r1)))"

definition reencrypt_body :: "('k, 'p) env \<Rightarrow> reEncryptRequest \<Rightarrow> handler" where
  "reencrypt_body E body req R r =
     (case core_ReEncrypt (e_prims E) (e_unicode E) (r_call req) (scoped req (SourceKeyID body)) (reenc_Ciphertext body)
        (scoped req (DestKeyID body)) (PolicyFromContext (r_ctx req)) (core R) r of
        (Inl e, c, r1) \<Rightarrow> (writeAPIError e, set_core c R, r1)
      | (Inr res, c, r1) \<Rightarrow>
          (writeJSONOK (JObj [(''ciphertext'', JBytes (re_Ciphertext res)), (''version'', JInt (re_Version res)),
             (''source_key_id'', JString (re_Source res)), (''dest_key_id'', JString (re_Dest res))]), set_core c R, r1))"

definition handleV1ReEncrypt :: "('k, 'p) env \<Rightarrow> handler" where
  "handleV1ReEncrypt E = requireMethod ''POST'' (with_body read_error bad_json (dec_reEncrypt (e_codec E)) (reencrypt_body E))"

definition handleV1GetPublicKey :: "('k, 'p) env \<Rightarrow> handler" where
  "handleV1GetPublicKey E = requireMethod ''GET'' (\<lambda>req R r.
     let keyID = r_query req ''key_id''
     in if keyID = '''' then (writeJSONError 400 ''key_id is required'', R, r)
        else (case GetActiveKey (r_now req) keyID (r_manager R) of
            (Inl e, m) \<Rightarrow> (writeJSONError 500 (error_text e), set_manager m R, r)
          | (Inr meta, m) \<Rightarrow>
              if PublicKey meta = [] then (writeJSONError 400 ''key has no public key'', set_manager m R, r)
              else (writeJSONOK (JObj [(''public_key'', JBytes (PublicKey meta)), (''version'', JInt (Version meta))]), set_manager m R, r)))"

section \<open>handler\_sys.go\<close>

fun u_State :: "Unsealer \<Rightarrow> State" where
  "u_State (SealVault v) = vstate v"
| "u_State (SealHSM h) = hsm_State h"

fun u_ProvideShare :: "bytes \<Rightarrow> Unsealer \<Rightarrow> (bool \<times> err option) \<times> Unsealer" where
  "u_ProvideShare share (SealVault v) = (case ProvideShare share v of (x, v1) \<Rightarrow> (x, SealVault v1))"
| "u_ProvideShare share (SealHSM h) = (case hsm_ProvideShare share h of (x, h1) \<Rightarrow> (x, SealHSM h1))"

definition handleHealth :: handler where
  "handleHealth = requireMethod ''GET'' (\<lambda>req R r.
     (writeJSONOK (JObj [(''status'', JString ''alive''), (''sealed'', JBool (u_IsSealed (r_seal R))),
        (''state'', JString (State_String (u_State (r_seal R))))]), R, r))"

definition unseal_body :: "bytes \<Rightarrow> handler" where
  "unseal_body share req R r =
     (case u_ProvideShare share (r_seal R) of
        ((unsealed, e), s) \<Rightarrow>
          let R1 = R\<lparr>core := (core R)\<lparr>vault_seal := s\<rparr>\<rparr>
          in (case e of
                Some _ \<Rightarrow>
                  if unsealed then
                    (writeJSONOK (JObj [(''unsealed'', JBool True), (''note'', JString ''already unsealed, extra share rejected'')]), R1, r)
                  else (writeJSONError 400 ''unseal failed'', R1, r)
              | None \<Rightarrow> (writeJSONOK (JObj [(''unsealed'', JBool unsealed)]), R1, r)))"

definition handleSysUnseal :: "('k, 'p) env \<Rightarrow> handler" where
  "handleSysUnseal E = requireMethod ''POST'' (with_body read_failed bad_body (dec_share (e_codec E)) unseal_body)"

definition panic_body :: "panicRequest \<Rightarrow> handler" where
  "panic_body body req R r =
     (if \<not> Confirm body then (writeJSONError 400 ''confirm must be true to trigger emergency seal'', R, r)
      else if r_adminToken R = '''' then (writeJSONError 403 ''emergency seal not configured (no admin token set)'', R, r)
      else if AdminToken body \<noteq> r_adminToken R then (writeJSONError 403 ''invalid admin token'', R, r)
      else case u_EmergencySeal (r_seal R) (r_manager R) of
          (s, m) \<Rightarrow>
            (writeJSONOK (JObj [(''emergency_sealed'', JBool True),
               (''message'', JString ''vault is now emergency sealed. all operations refused until process restart + shamir unseal.'')]),
             R\<lparr>core := (core R)\<lparr>vault_seal := s, manager := ClearCache m\<rparr>\<rparr>, r))"

definition handleEmergencySeal :: "('k, 'p) env \<Rightarrow> handler" where
  "handleEmergencySeal E = requireMethod ''POST'' (with_body read_failed bad_body (dec_panic (e_codec E)) panic_body)"

section \<open>handler\_byok.go\<close>

definition handleTransitPub :: "('k, 'p) env \<Rightarrow> handler" where
  "handleTransitPub E = requireMethod ''GET'' (\<lambda>req R r.
     (case GenerateTransitKey (e_pki E) (r_now req) (transitMgr R) r of
        (Inl _, t, r1) \<Rightarrow> (writeJSONError 500 ''generate transit key failed'', R\<lparr>transitMgr := t\<rparr>, r1)
      | (Inr pub, t, r1) \<Rightarrow>
          (writeJSONOK (JObj [(''key_id'', JString (transit_KeyID pub)), (''public_key'', JBytes (transit_PublicKey pub)),
             (''expires_at'', JInt (transit_ExpiresAt pub))]), R\<lparr>transitMgr := t\<rparr>, r1)))"

definition import_body :: "('k, 'p) env \<Rightarrow> importRequest \<Rightarrow> handler" where
  "import_body E body req R r =
     (if imp_KeyID body = '''' then (writeJSONError 400 ''key_id is required'', R, r)
      else if TransitKeyID body = '''' then (writeJSONError 400 ''transit_key_id is required'', R, r)
      else if WrappedMaterial body = '''' then (writeJSONError 400 ''wrapped_material is required'', R, r)
      else case e_base64 E (WrappedMaterial body) of
          None \<Rightarrow> (writeJSONError 400 ''invalid wrapped_material base64'', R, r)
        | Some wrapped \<Rightarrow>
            (case u_KEKRef (r_seal R) of
               Inl _ \<Rightarrow> (writeJSONError 500 ''import failed'', R, r)
             | Inr kek \<Rightarrow>
                 (case ImportKey (e_prims E) (e_pki E) (e_oaep E) (r_now req) (imp_KeyID body) (TransitKeyID body) wrapped (Some kek)
                    (transitMgr R) (r_manager R) r of
                    (Inl _, t, m, r1) \<Rightarrow> (writeJSONError 500 ''import failed'', (set_manager m R)\<lparr>transitMgr := t\<rparr>, r1)
                  | (Inr meta, t, m, r1) \<Rightarrow>
                      (writeJSONOK (JObj [(''key_id'', JString (imp_KeyID body)), (''version'', JInt (Version meta)), (''state'', JString ''Active''),
                         (''imported'', JBool True)]), (set_manager m R)\<lparr>transitMgr := t\<rparr>, r1))))"

definition handleImportKey :: "('k, 'p) env \<Rightarrow> handler" where
  "handleImportKey E = requireMethod ''POST'' (with_body read_failed bad_body (dec_import (e_codec E)) (import_body E))"

section \<open>handler\_mfa.go\<close>

text \<open>The store hands out its own objects, but each handler saves what it changed, so values give the
  same result. Calling a nil store panics.\<close>

definition mfa_setup_body :: "('k, 'p) env \<Rightarrow> string \<Rightarrow> handler" where
  "mfa_setup_body E roleID req R r =
     (if roleID = '''' then (writeJSONError 400 ''role_id is required'', R, r)
      else case PolicyFromContext (r_ctx req) of
          None \<Rightarrow> (writeJSONError 403 ''authentication required'', R, r)
        | Some policy \<Rightarrow>
            if RoleID policy \<noteq> roleID then (writeJSONError 403 ''can only setup MFA for yourself'', R, r)
            else (case GenerateTOTPSecret (e_totp E) r of
                (Inl e, r1) \<Rightarrow> (writeJSONError 500 (error_text e), R, r1)
              | (Inr secret, r1) \<Rightarrow>
                  (case mfaStore R of
                     None \<Rightarrow> (Panicked, R, r1)
                   | Some s \<Rightarrow>
                       let st = \<lparr>mfa_RoleID = roleID, Secret = secret, Enabled = False, mfa_CreatedAt = r_now req, VerifiedAt = 0\<rparr>;
                           issuer = ''Yvonne KMS''
                       in (writeJSONOK (JObj [(''secret'', JString secret), (''uri'', JString (BuildTOTPURI (e_totp E) issuer roleID secret)),
                             (''issuer'', JString issuer), (''account'', JString roleID)]),
                           R\<lparr>mfaStore := Some (SaveMFAState st s)\<rparr>, r1))))"

definition handleMFASetup :: "('k, 'p) env \<Rightarrow> handler" where
  "handleMFASetup E = requireMethod ''POST'' (with_body read_failed bad_json (dec_role (e_codec E)) (mfa_setup_body E))"

text \<open>What verification and removal share: the state of the role, once the code is right.\<close>

definition mfa_checked :: "('k, 'p) env \<Rightarrow> string \<Rightarrow> (MFAState \<Rightarrow> MemoryMFAStore \<Rightarrow> MemoryMFAStore) \<Rightarrow> bool \<Rightarrow> string \<times> string \<Rightarrow> handler" where
  "mfa_checked E missing change enabled body req R r =
     (let (roleID, otp) = body
      in if roleID = '''' \<or> otp = '''' then (writeJSONError 400 ''role_id and code are required'', R, r)
         else (case mfaStore R of
             None \<Rightarrow> (Panicked, R, r)
           | Some s \<Rightarrow>
               (case GetMFAState roleID s of
                  Inl _ \<Rightarrow> (writeJSONError 404 missing, R, r)
                | Inr st \<Rightarrow>
                    if \<not> totp_ok (e_totp E) (Secret st) otp (r_now req) then (writeJSONError 403 ''invalid TOTP code'', R, r)
                    else (writeJSONOK (JObj [(''role_id'', JString roleID), (''enabled'', JBool enabled)]),
                          R\<lparr>mfaStore := Some (change st s)\<rparr>, r))))"

definition handleMFAVerify :: "('k, 'p) env \<Rightarrow> handler" where
  "handleMFAVerify E = requireMethod ''POST'' (with_body read_failed bad_json (dec_role_code (e_codec E))
     (\<lambda>body req. mfa_checked E ''mfa not setup, call setup first''
        (\<lambda>st. SaveMFAState (st\<lparr>Enabled := True, VerifiedAt := r_now req\<rparr>)) True body req))"

definition handleMFADisable :: "('k, 'p) env \<Rightarrow> handler" where
  "handleMFADisable E = requireMethod ''POST'' (with_body read_failed bad_json (dec_role_code (e_codec E))
     (\<lambda>body. mfa_checked E ''mfa not setup'' (\<lambda>st. DeleteMFAState (fst body)) False body))"

section \<open>handler\_approval.go\<close>

fun status_string :: "ApprovalStatus \<Rightarrow> string" where
  "status_string ApprovalPending = ''pending''"
| "status_string ApprovalApproved = ''approved''"
| "status_string ApprovalRejected = ''rejected''"
| "status_string ApprovalExpired = ''expired''"

definition ticket_json :: "ApprovalTicket \<Rightarrow> json" where
  "ticket_json t = JObj [(''id'', JString (ticket_ID t)), (''operation'', JString (Operation t)), (''key_id'', JString (ticket_KeyID t)),
     (''requested_by'', JString (RequestedBy t)), (''approvers'', JArr (map JString (Approvers t))),
     (''rejectors'', JArr (map JString (Rejectors t))), (''required'', JInt (Required t)),
     (''status'', JString (status_string (ticket_Status t))), (''created_at'', JInt (ticket_CreatedAt t)),
     (''expires_at'', JInt (ExpiresAt t)), (''resolved_at'', JInt (ResolvedAt t))]"

abbreviation no_approval_store :: response where
  "no_approval_store \<equiv> writeJSONError 503 ''approval store not configured''"

definition create_approval_body :: "createApprovalRequest \<Rightarrow> handler" where
  "create_approval_body body req R r =
     (if appr_Operation body = '''' then (writeJSONError 400 ''operation is required'', R, r)
      else if appr_Required body < 1 then (writeJSONError 400 ''required must be >= 1'', R, r)
      else case PolicyFromContext (r_ctx req) of
          None \<Rightarrow> (writeJSONError 403 ''authentication required'', R, r)
        | Some policy \<Rightarrow>
            (case approvalStore R of
               None \<Rightarrow> (no_approval_store, R, r)
             | Some s \<Rightarrow>
                 let ticket = new_ticket (generateUUID (r_clock req)) (appr_Operation body) (appr_KeyID body) (RoleID policy)
                       (appr_Required body) (TTLHours body) (r_now req)
                 in (case CreateTicket ticket s of
                       (Some e, s1) \<Rightarrow> (writeJSONError 500 (error_text e), R\<lparr>approvalStore := Some s1\<rparr>, r)
                     | (None, s1) \<Rightarrow> (writeJSONOK (ticket_json ticket), R\<lparr>approvalStore := Some s1\<rparr>, r))))"

definition handleCreateApproval :: "('k, 'p) env \<Rightarrow> handler" where
  "handleCreateApproval E =
     requireMethod ''POST'' (with_body read_failed bad_json (dec_approval (e_codec E)) create_approval_body)"

definition handleGetApproval :: handler where
  "handleGetApproval = requireMethod ''GET'' (\<lambda>req R r.
     let ticketID = r_query req ''id''
     in if ticketID = '''' then (writeJSONError 400 ''id is required'', R, r)
        else (case approvalStore R of
            None \<Rightarrow> (no_approval_store, R, r)
          | Some s \<Rightarrow>
              (case GetTicket ticketID s of
                 Inl e \<Rightarrow> (writeJSONError 404 (error_text e), R, r)
               | Inr ticket \<Rightarrow> (writeJSONOK (ticket_json ticket), R, r))))"

text \<open>One request at a time, the read and the write back of \<^verbatim>\<open>handleApprove\<close> and
  \<^verbatim>\<open>handleReject\<close> follow each other.\<close>

definition vote_body :: "(string \<Rightarrow> time \<Rightarrow> ApprovalTicket \<Rightarrow> decision) \<Rightarrow> string \<Rightarrow> handler" where
  "vote_body decide ticketID req R r =
     (if ticketID = '''' then (writeJSONError 400 ''ticket_id is required'', R, r)
      else case PolicyFromContext (r_ctx req) of
          None \<Rightarrow> (writeJSONError 403 ''authentication required'', R, r)
        | Some policy \<Rightarrow>
            (case approvalStore R of
               None \<Rightarrow> (no_approval_store, R, r)
             | Some s \<Rightarrow>
                 (case GetTicket ticketID s of
                    Inl e \<Rightarrow> (writeJSONError 404 (error_text e), R, r)
                  | Inr ticket \<Rightarrow>
                      (case decide (RoleID policy) (r_now req) ticket of
                         Answer st msg \<Rightarrow> (writeJSONError st msg, R, r)
                       | Write_then_answer t st msg \<Rightarrow>
                           (writeJSONError st msg, R\<lparr>approvalStore := Some (snd (UpdateTicket t s))\<rparr>, r)
                       | Write_ticket t \<Rightarrow>
                           (case UpdateTicket t s of
                              (Some e, s1) \<Rightarrow> (writeJSONError 500 (error_text e), R\<lparr>approvalStore := Some s1\<rparr>, r)
                            | (None, s1) \<Rightarrow> (writeJSONOK (ticket_json t), R\<lparr>approvalStore := Some s1\<rparr>, r))))))"

definition handleApprove :: "('k, 'p) env \<Rightarrow> handler" where
  "handleApprove E = requireMethod ''POST'' (with_body read_failed bad_json (dec_ticket (e_codec E)) (vote_body decide_approve))"

definition handleReject :: "('k, 'p) env \<Rightarrow> handler" where
  "handleReject E = requireMethod ''POST'' (with_body read_failed bad_json (dec_ticket (e_codec E)) (vote_body decide_reject))"

definition handleListApprovals :: handler where
  "handleListApprovals = requireMethod ''GET'' (\<lambda>req R r.
     (case approvalStore R of
        None \<Rightarrow> (no_approval_store, R, r)
      | Some s \<Rightarrow>
          let tickets = ListPending s
          in (writeJSONOK (JObj [(''tickets'', JArr (map ticket_json tickets)), (''count'', JInt (int (length tickets)))]), R, r)))"

definition handleApprovals :: "('k, 'p) env \<Rightarrow> handler" where
  "handleApprovals E req R r =
     (if r_method req = ''POST'' then handleCreateApproval E req R r
      else if r_method req = ''GET'' then
        (if r_query req ''id'' \<noteq> '''' then handleGetApproval req R r else handleListApprovals req R r)
      else (writeJSONError 405 ''method not allowed'', R, r))"

section \<open>handler\_audit.go\<close>

definition query_limit :: "int \<Rightarrow> int" where
  "query_limit l =
     (let l = (if l < 0 then 10000 else l); l = (if l = 0 then 100 else l)
      in if l > 10000 then 10000 else l)"

definition parse_bound :: "(string \<Rightarrow> time option) \<Rightarrow> string \<Rightarrow> time option option" where
  "parse_bound parse s = (if s = '''' then Some None else case parse s of None \<Rightarrow> None | Some t \<Rightarrow> Some (Some t))"

definition result_json :: "QueryResult \<Rightarrow> json" where
  "result_json q = JObj [(''payload'', JBytes (Payload (Envelope q))), (''signature'', JString (Signature (Envelope q))),
     (''prev_signature'', JString (PrevSignature (Envelope q))), (''chain_seq'', JInt (uint (ChainSeq (Envelope q)))),
     (''valid'', JBool (Valid q))]"

definition query_body :: "('k, 'p) env \<Rightarrow> auditQueryRequest \<Rightarrow> handler" where
  "query_body E body req R r =
     (case parse_bound (e_rfc3339 E) (q_StartTime body) of
        None \<Rightarrow> (writeJSONError 400 ''invalid start_time (use RFC3339)'', R, r)
      | Some start \<Rightarrow>
          (case parse_bound (e_rfc3339 E) (q_EndTime body) of
             None \<Rightarrow> (writeJSONError 400 ''invalid end_time (use RFC3339)'', R, r)
           | Some finish \<Rightarrow>
               if auditDir R = '''' then (writeJSONError 503 ''audit query not configured (no log directory)'', R, r)
               else (case r_logger R of
                   None \<Rightarrow> (writeJSONError 503 ''audit logger not available for query'', R, r)
                 | Some logger \<Rightarrow>
                     let flt = \<lparr>StartTime = start, EndTime = finish, FilterActor = q_Actor body, FilterAction = q_Action body,
                           Limit = query_limit (q_Limit body)\<rparr>
                     in (case Query (e_audit_json E) (e_sha E) (e_sort E) flt logger of
                           (Inl _, l1) \<Rightarrow> (writeJSONError 500 ''audit query failed'', R\<lparr>r_logger := Some l1\<rparr>, r)
                         | (Inr results, l1) \<Rightarrow>
                             (writeJSONOK (JObj [(''count'', JInt (int (length results))), (''entries'', JArr (map result_json results))]),
                              R\<lparr>r_logger := Some l1\<rparr>, r)))))"

definition handleAuditQuery :: "('k, 'p) env \<Rightarrow> handler" where
  "handleAuditQuery E = requireMethod ''POST'' (with_body read_failed bad_body (dec_query (e_codec E)) (query_body E))"

section \<open>v1\_router.go: register\<close>

text \<open>The routes with their audit action and the chain of middleware. \<^verbatim>\<open>ServeMux\<close> prefers the
  longest pattern, so the subtree of \<^verbatim>\<open>/api/v1/keys/\<close> comes last; paths are clean.\<close>

definition routes :: "('k, 'p) env \<Rightarrow> V1Router \<Rightarrow> (string \<times> handler) list" where
  "routes E R =
     (let U = e_unicode E; A = RequireAuth U (authenticator R) in
      [(''/api/v1/sys/health'', handleHealth),
       (''/api/v1/sys/unseal'', auditMiddleware ''Unseal'' (handleSysUnseal E)),
       (''/api/v1/sys/panic'', auditMiddleware ''EmergencySeal'' (handleEmergencySeal E)),
       (''/api/v1/keys'', auditMiddleware ''CreateKey'' (authAndSeal U ''CreateKey'' (handleCreateKey E))),
       (''/api/v1/keys/transit-pub'', auditMiddleware ''TransitKey'' (handleTransitPub E)),
       (''/api/v1/keys/import'', auditMiddleware ''ImportKey'' (authAndSeal U ''ImportKey'' (handleImportKey E))),
       (''/api/v1/audit/query'', auditMiddleware ''AuditQuery'' (authAndSeal U ''AuditQuery'' (handleAuditQuery E))),
       (''/api/v1/encrypt'', auditMiddleware ''Encrypt'' (authAndSeal U ''Encrypt'' (handleV1Encrypt E))),
       (''/api/v1/decrypt'', auditMiddleware ''Decrypt'' (authAndSeal U ''Decrypt'' (handleV1Decrypt E))),
       (''/api/v1/sign'', auditMiddleware ''Sign'' (authAndSeal U ''Sign'' (handleV1Sign E))),
       (''/api/v1/verify'', auditMiddleware ''Verify'' (authAndSeal U ''Verify'' (handleV1Verify E))),
       (''/api/v1/mac/generate'', auditMiddleware ''GenerateMac'' (authAndSeal U ''GenerateMac'' (handleV1GenerateMac E))),
       (''/api/v1/mac/verify'', auditMiddleware ''VerifyMac'' (authAndSeal U ''VerifyMac'' (handleV1VerifyMac E))),
       (''/api/v1/re-encrypt'', auditMiddleware ''ReEncrypt'' (authAndSeal U ''ReEncrypt'' (handleV1ReEncrypt E))),
       (''/api/v1/keys/gdk-no-plaintext'', auditMiddleware ''GenerateDataKeyWithoutPlaintext'' (authAndSeal U ''KeyOp'' (handleV1GDKWithoutPlaintext E))),
       (''/api/v1/keys/public-key'', auditMiddleware ''GetPublicKey'' (authAndSeal U ''KeyOp'' (handleV1GetPublicKey E))),
       (''/api/v1/keys/asymmetric'', auditMiddleware ''CreateAsymmetricKey'' (authAndSeal U ''KeyOp'' (handleCreateAsymmetricKey E))),
       (''/api/v1/auth/mfa/setup'', auditMiddleware ''MFASetup'' (A ''MFASetup'' (handleMFASetup E))),
       (''/api/v1/auth/mfa/verify'', auditMiddleware ''MFAVerify'' (A ''MFAVerify'' (handleMFAVerify E))),
       (''/api/v1/auth/mfa/disable'', auditMiddleware ''MFADisable'' (A ''MFADisable'' (handleMFADisable E))),
       (''/api/v1/approvals'', auditMiddleware ''Approval'' (A ''Approval'' (handleApprovals E))),
       (''/api/v1/approvals/approve'', auditMiddleware ''ApprovalApprove'' (A ''ApprovalApprove'' (handleApprove E))),
       (''/api/v1/approvals/reject'', auditMiddleware ''ApprovalReject'' (A ''ApprovalReject'' (handleReject E)))])"

definition not_found_handler :: handler where
  "not_found_handler req R r = (Response 404 (JString ''404 page not found''), R, r)"

definition mux :: "('k, 'p) env \<Rightarrow> handler" where
  "mux E req R r =
     (case map_of (routes E R) (r_path req) of
        Some h \<Rightarrow> h req R r
      | None \<Rightarrow>
          if has_prefix (r_path req) ''/api/v1/keys/''
          then auditMiddleware ''KeyOp'' (authAndSeal (e_unicode E) ''KeyOp'' (handleKeyOps E)) req R r
          else not_found_handler req R r)"

end
