(* ===== verification/KeyCache.thy ===== *)
theory KeyCache
  imports LifecycleProps
begin

text \<open>
  The manager's caches against its store. In every reachable state a cached version has the
  material the store has, rotation never overwrites a version, and a version that is not
  destroyed can be read for decryption with the material it was created with, whatever else
  happens to its key.
\<close>

section \<open>Versions keep their material\<close>

definition decryptable :: "KeyState \<Rightarrow> bool" where
  "decryptable s \<longleftrightarrow> s \<in> {StateActive, StateDeactivated, StateSoftDeleted}"

definition good_versions :: "versions \<Rightarrow> bool" where
  "good_versions l \<longleftrightarrow> one_active l
     \<and> (\<forall>k v a u. l k v = Some a \<longrightarrow> KState a = StateActive \<longrightarrow> v < u \<longrightarrow> l k u = None)
     \<and> (\<forall>k v a. l k v = Some a \<longrightarrow> decryptable (KState a))"

lemma good_versionsD:
  assumes "good_versions l"
  shows "one_active l" "l k v = Some a \<Longrightarrow> KState a = StateActive \<Longrightarrow> v < u \<Longrightarrow> l k u = None"
    "l k v = Some a \<Longrightarrow> decryptable (KState a)"
  using assms unfolding good_versions_def by blast+

lemma version_step_decryptable: "version_step a b \<Longrightarrow> decryptable (KState a) \<Longrightarrow> decryptable (KState b)"
  by (auto simp: version_step_def state_step_def decryptable_def)

lemma good_versions_step:
  assumes "abs_step l l'" "good_versions l"
  shows "good_versions l'"
proof -
  have "one_active l'" using one_active_step [OF assms(1)] assms(2) by (simp add: good_versions_def)
  moreover have "(\<forall>k v a u. l' k v = Some a \<longrightarrow> KState a = StateActive \<longrightarrow> v < u \<longrightarrow> l' k u = None)
      \<and> (\<forall>k v a. l' k v = Some a \<longrightarrow> decryptable (KState a))"
    using assms
  proof (induction rule: abs_step.induct)
    case (abs_same l)
    then show ?case unfolding good_versions_def by blast
  next
    case (abs_new l k b)
    then show ?case
      by (auto simp: upd_def created_def decryptable_def good_versions_def)
  next
    case (abs_move l k v a b)
    have "decryptable (KState b)"
      using version_step_decryptable [OF abs_move(2)] good_versionsD(3) [OF abs_move(4,1)] by simp
    with abs_move show ?case
      using good_versionsD(2,3) [OF abs_move(4)] by (auto simp: upd_def)
  next
    case (abs_gone l k v a)
    then show ?case using good_versionsD(2,3) [OF abs_gone(2)] by (auto simp: upd_def)
  next
    case (abs_rotate l k v a b)
    have later: "l k u = None" if "v < u" for u
      using good_versionsD(2) [OF abs_rotate(6) abs_rotate(1,2) that] .
    have other: "KState c \<noteq> StateActive" if "l k u = Some c" "u \<noteq> v" for u c
      using one_activeD(1) [OF good_versionsD(1) [OF abs_rotate(6)] abs_rotate(1) that(1) abs_rotate(2)] that(2) by auto
    let ?l = "upd (upd l k v (Some (a\<lparr>KState := StateDeactivated\<rparr>))) k (v + 1) (Some b)"
    have eq: "?l k' u = (if k' = k \<and> u = v + 1 then Some b
        else if k' = k \<and> u = v then Some (a\<lparr>KState := StateDeactivated\<rparr>) else l k' u)" for k' u
      by (simp add: upd_def)
    have "?l k' u' = None" if c: "?l k' u = Some c" "KState c = StateActive" "u < u'" for k' u u' c
    proof (cases "k' = k")
      case True
      with c other have "u = v + 1" by (auto simp: eq split: if_splits)
      with c(3) True later [of u'] show ?thesis by (simp add: eq)
    next
      case False
      with c good_versionsD(2) [OF abs_rotate(6), of k' u c u'] show ?thesis by (simp add: eq)
    qed
    moreover have "decryptable (KState c)" if "?l k' u = Some c" for k' u c
      using that abs_rotate(5) good_versionsD(3) [OF abs_rotate(6), of k' u c]
      by (auto simp: eq decryptable_def split: if_splits)
    ultimately show ?case by blast
  qed
  ultimately show ?thesis by (simp add: good_versions_def)
qed

lemma kept_material:
  assumes "abs_step l l'" "good_versions l" "l k v = Some a" "l' k v = Some a'"
  shows "EncryptedMaterial a' = EncryptedMaterial a"
  using assms
proof (induction rule: abs_step.induct)
  case (abs_move l k' v' x b)
  then show ?case using version_step_ids [OF abs_move(2)] by (auto simp: upd_def split: if_splits)
next
  case (abs_rotate l k' v' x b)
  have "l k' (v' + 1) = None" using good_versionsD(2) [OF abs_rotate(6) abs_rotate(1,2), of "v' + 1"] by simp
  with abs_rotate show ?case by (auto simp: upd_def split: if_splits)
qed (auto simp: upd_def split: if_splits)

section \<open>Cache coherence\<close>

definition agrees :: "string \<Rightarrow> int \<Rightarrow> KeyMetadata \<Rightarrow> KeyMetadata \<Rightarrow> bool" where
  "agrees k v x a \<longleftrightarrow> EncryptedMaterial x = EncryptedMaterial a \<and> KeyID x = k \<and> Version x = v \<and> decryptable (KState x)"

definition no_negative :: "string \<Rightarrow> int \<Rightarrow> Manager \<Rightarrow> bool" where
  "no_negative k v m \<longleftrightarrow> map_of (negative (cache m)) (metadataKey k v) = None"

definition coherent :: "Manager \<Rightarrow> bool" where
  "coherent m \<longleftrightarrow> good_versions (versions_of m) \<and>
     (\<forall>k v x. cache_get (metadataKey k v) (cache m) = Some x \<longrightarrow>
        (\<exists>a. versions_of m k v = Some a \<and> agrees k v x a) \<and> no_negative k v m)"

lemma coherentD:
  assumes "coherent m"
  shows "good_versions (versions_of m)"
    "cache_get (metadataKey k v) (cache m) = Some x \<Longrightarrow> \<exists>a. versions_of m k v = Some a \<and> agrees k v x a"
    "cache_get (metadataKey k v) (cache m) = Some x \<Longrightarrow> no_negative k v m"
  using assms unfolding coherent_def by blast+

lemma stored_agrees: "good_versions (versions_of m) \<Longrightarrow> versions_of m k v = Some a \<Longrightarrow> agrees k v a a"
  by (auto simp: agrees_def good_versions_def one_active_def)

text \<open>Steps that leave the cache alone and keep every version.\<close>

lemma coherent_keep:
  assumes "coherent m" "cache m' = cache m" "abs_step (versions_of m) (versions_of m')"
    "\<And>k v a. versions_of m k v = Some a \<Longrightarrow> versions_of m' k v \<noteq> None"
  shows "coherent m'"
  unfolding coherent_def
proof (intro conjI allI impI)
  show "good_versions (versions_of m')" using good_versions_step [OF assms(3)] coherentD(1) [OF assms(1)] .
  fix k v x assume x: "cache_get (metadataKey k v) (cache m') = Some x"
  with assms(2) have x': "cache_get (metadataKey k v) (cache m) = Some x" by simp
  from coherentD(2) [OF assms(1) x'] obtain a where a: "versions_of m k v = Some a" "agrees k v x a" by blast
  from assms(4) [OF a(1)] obtain a' where a': "versions_of m' k v = Some a'" by blast
  have "EncryptedMaterial a' = EncryptedMaterial a"
    using kept_material [OF assms(3) coherentD(1) [OF assms(1)] a(1) a'] .
  with a a' show "\<exists>a. versions_of m' k v = Some a \<and> agrees k v x a" by (auto simp: agrees_def)
  show "no_negative k v m'" using coherentD(3) [OF assms(1) x'] assms(2) by (simp add: no_negative_def)
qed

text \<open>Steps that invalidate a key and change only versions of that key.\<close>

lemma map_of_filter_fst: "map_of (filter (\<lambda>(k, _). P k) al) k = (if P k then map_of al k else None)"
  by (induction al) auto

lemma cache_get_invalidateD:
  "cache_get key (cache_invalidate k0 c) = Some x \<Longrightarrow> cache_get key c = Some x \<and> \<not> has_prefix key (''key:'' @ k0 @ '':v:'')"
  by (auto simp: cache_get_def cache_invalidate_def Let_def map_of_filter_fst split: if_splits)

lemma no_negative_invalidate:
  "map_of (negative c) key = None \<Longrightarrow> map_of (negative (cache_invalidate k0 c)) key = None"
  by (simp add: cache_invalidate_def Let_def map_of_filter_fst)

lemma coherent_invalidate:
  assumes "coherent m" "cache m' = cache_invalidate k0 (cache m)" "abs_step (versions_of m) (versions_of m')"
    "\<And>k v. k \<noteq> k0 \<Longrightarrow> versions_of m' k v = versions_of m k v"
  shows "coherent m'"
  unfolding coherent_def
proof (intro conjI allI impI)
  show "good_versions (versions_of m')" using good_versions_step [OF assms(3)] coherentD(1) [OF assms(1)] .
  fix k v x assume x: "cache_get (metadataKey k v) (cache m') = Some x"
  have x': "cache_get (metadataKey k v) (cache m) = Some x"
    and pre: "\<not> has_prefix (metadataKey k v) (''key:'' @ k0 @ '':v:'')"
    using cache_get_invalidateD [OF x [unfolded assms(2)]] by blast+
  from pre have "k \<noteq> k0" using metadataKey_prefixes(1) by blast
  with coherentD(2) [OF assms(1) x'] assms(4)
  show "\<exists>a. versions_of m' k v = Some a \<and> agrees k v x a" by simp
  show "no_negative k v m'"
    using coherentD(3) [OF assms(1) x'] assms(2) no_negative_invalidate by (simp add: no_negative_def)
qed

text \<open>Reading.\<close>

lemma loadMetadata_cases:
  assumes "loadMetadata now keyID v m = (r, m')"
  obtains (hit) x where "cache_get (metadataKey keyID v) (cache m) = Some x" "r = Inr x" "m' = m"
  | (loaded) x where "versions_of m keyID v = Some x" "r = Inr x" "lookm m' = lookm m"
      "cache m' = cache_put (metadataKey keyID v) x (cache m)"
  | (absent) "versions_of m keyID v = None" "lookm m' = lookm m"
      "cache m' = cache_putNegative now (metadataKey keyID v) (cache m)" "cache_get (metadataKey keyID v) (cache m) = None"
  | (failed) "lookm m' = lookm m" "cache m' = cache m" "\<exists>e. r = Inl e"
proof -
  let ?key = "metadataKey keyID v"
  obtain g s where g: "store_Get ?key (store m) = (g, s)" by fastforce
  have look: "look s = lookm m" by (rule kv.get_look [OF g])
  show thesis
  proof (cases "cache_get ?key (cache m)")
    case (Some x)
    then have "r = Inr x" "m' = m" using assms by (simp_all add: loadMetadata_def)
    with Some show ?thesis by (rule hit)
  next
    case None
    have "loadMetadata now keyID v m = (if cache_isNegative now ?key (cache m) then (Inl ErrNotFound, m)
        else case g of
            Inl e \<Rightarrow> (Inl e, m\<lparr>store := s, cache := (if errors_is e ErrNotFound
               then cache_putNegative now ?key (cache m) else cache m)\<rparr>)
          | Inr d \<Rightarrow> (case unmarshal_meta d of
               Inl e \<Rightarrow> (Inl (Wrap ''lifecycle: unmarshal metadata'' e), m\<lparr>store := s\<rparr>)
             | Inr meta \<Rightarrow> (Inr meta, m\<lparr>store := s, cache := cache_put ?key meta (cache m)\<rparr>)))"
      using None g by (simp add: loadMetadata_def Let_def split: sum.split)
    note eq = this [unfolded assms]
    show ?thesis
    proof (cases "cache_isNegative now ?key (cache m)")
      case True
      with eq show ?thesis by (intro failed) simp_all
    next
      case notneg: False
      show ?thesis
      proof (cases g)
        case (Inl e)
        show ?thesis
        proof (cases "errors_is e ErrNotFound")
          case True
          then have "lookm m ?key = None" using kv.get_fail [of ?key "store m" e s] g Inl by blast
          then have "versions_of m keyID v = None" by (simp add: meta_at_def)
          with eq notneg Inl True look None show ?thesis by (intro absent) simp_all
        next
          case False
          with eq notneg Inl look show ?thesis by (intro failed) simp_all
        qed
      next
        case (Inr d)
        then have d: "lookm m ?key = Some d" using kv.get_ok g by blast
        show ?thesis
        proof (cases "unmarshal_meta d")
          case (Inl e)
          with eq notneg Inr look show ?thesis by (intro failed) simp_all
        next
          case x: (Inr x)
          then have "versions_of m keyID v = Some x" using d by (simp add: meta_at_def unmarshal_meta_Inr)
          with eq notneg Inr look x show ?thesis by (intro loaded [of x]) simp_all
        qed
      qed
    qed
  qed
qed

lemma coherent_look:
  assumes "coherent m" "lookm m' = lookm m"
    "\<And>k v x. cache_get (metadataKey k v) (cache m') = Some x \<Longrightarrow>
       (cache_get (metadataKey k v) (cache m) = Some x \<or> versions_of m k v = Some x) \<and> no_negative k v m'"
  shows "coherent m'"
  using assms coherentD [OF assms(1)] stored_agrees [OF coherentD(1) [OF assms(1)]]
  unfolding coherent_def by (metis (no_types, lifting))

lemma coherent_load:
  assumes "coherent m" "loadMetadata now keyID v m = (r, m')"
  shows "coherent m'"
  using assms(2)
proof (cases rule: loadMetadata_cases)
  case hit
  with assms(1) show ?thesis by simp
next
  case (loaded x)
  then show ?thesis
    by (intro coherent_look [OF assms(1)])
      (auto simp: cache_get_def cache_put_def no_negative_def metadataKey_inj
        dest: coherentD(3) [OF assms(1), unfolded cache_get_def] split: if_splits)
next
  case absent
  then show ?thesis
    by (intro coherent_look [OF assms(1)])
      (auto simp: cache_get_def cache_putNegative_def no_negative_def metadataKey_inj
        dest: coherentD(3) [OF assms(1), unfolded cache_get_def no_negative_def] split: if_splits)
next
  case failed
  then show ?thesis
    by (intro coherent_look [OF assms(1)]) (auto simp: no_negative_def dest: coherentD(3) [OF assms(1)])
qed

lemma load_no_negative:
  assumes "loadMetadata now keyID u m = (r, m')" "versions_of m k v \<noteq> None" "no_negative k v m"
  shows "no_negative k v m'"
  using assms(1)
proof (cases rule: loadMetadata_cases)
  case absent
  with assms(2) have "metadataKey k v \<noteq> metadataKey keyID u" by (auto simp: metadataKey_inj)
  with absent assms(3) show ?thesis by (simp add: no_negative_def cache_putNegative_def)
qed (use assms(3) in \<open>auto simp: no_negative_def cache_put_def\<close>)

text \<open>A successful read leaves no negative entry.\<close>

lemma load_ok_no_negative:
  assumes "coherent m" "loadMetadata now keyID v m = (Inr x, m')"
  shows "no_negative keyID v m' \<and> (\<exists>a. versions_of m keyID v = Some a \<and> agrees keyID v x a)"
  using assms(2)
proof (cases rule: loadMetadata_cases)
  case (hit y)
  with coherentD(2,3) [OF assms(1) hit(1)] show ?thesis by simp
next
  case (loaded y)
  with stored_agrees [OF coherentD(1) [OF assms(1)] loaded(1)] show ?thesis
    by (simp add: no_negative_def cache_put_def)
next
  case absent
  from absent(4,1) assms(2) have False
    by (auto simp: loadMetadata_def Let_def meta_at_def unmarshal_meta_Inr split: if_splits prod.splits sum.splits dest!: kv.get_ok)
  then show ?thesis ..
qed auto

lemma GetActiveKey_load:
  assumes "GetActiveKey now keyID m = (r, m')"
  obtains e where "r = Inl e" "lookm m' = lookm m" "cache m' = cache m"
  | v s r1 where "look s = lookm m" "loadMetadata now keyID v (m\<lparr>store := s\<rparr>) = (r1, m')"
      "\<And>x. r = Inr x \<Longrightarrow> r1 = Inr x \<and> KState x = StateActive"
proof -
  obtain g s where g: "findLatestVersion keyID (store m) = (g, s)" by fastforce
  have look: "look s = lookm m" by (rule findLatestVersion_look [OF g])
  show thesis
  proof (cases g)
    case (Inl e)
    with assms g look that(1) show ?thesis by (auto simp: GetActiveKey_def)
  next
    case (Inr v)
    obtain r1 m1 where l: "loadMetadata now keyID v (m\<lparr>store := s\<rparr>) = (r1, m1)" by fastforce
    with assms g Inr have "m' = m1" and "r = Inr x \<Longrightarrow> r1 = Inr x \<and> KState x = StateActive" for x
      by (auto simp: GetActiveKey_def split: sum.splits if_splits)
    with l look that(2) show ?thesis by blast
  qed
qed

lemma coherent_store: "look s = lookm m \<Longrightarrow> coherent (m\<lparr>store := s\<rparr>) = coherent m"
  by (simp add: coherent_def no_negative_def)

lemma same_coherent: "coherent m \<Longrightarrow> cache m' = cache m \<Longrightarrow> lookm m' = lookm m \<Longrightarrow> coherent m'"
  by (simp add: coherent_def no_negative_def)

lemma GetActiveKey_coherent: "coherent m \<Longrightarrow> GetActiveKey now keyID m = (r, m') \<Longrightarrow> coherent m'"
  by (erule GetActiveKey_load) (blast intro: same_coherent coherent_load coherent_store [THEN iffD2])+

lemma GetKeyForDecrypt_load:
  "GetKeyForDecrypt now keyID v m = (r, m') \<Longrightarrow> \<exists>r1. loadMetadata now keyID v m = (r1, m')"
  by (auto simp: GetKeyForDecrypt_def split: prod.splits sum.splits KeyState.splits)

lemma GenerateDataKey_active:
  "GenerateDataKey P now keyID kek m r = (d, m', r') \<Longrightarrow> m' = m \<or> (\<exists>g. GetActiveKey now keyID m = (g, m'))"
  by (auto simp: GenerateDataKey_def split: if_splits option.splits prod.splits sum.splits)

lemma CreateKey_cache:
  assumes "CreateKey P now keyID kek days m r = (res, m', r')"
  shows "cache m' = cache m"
  using assms
proof (cases rule: CreateKey_cases)
  case (okay k dek material r0 m1 m2)
  then show ?thesis
    using quota_check_look [OF okay(6)] saveMetadata_look(1) [OF okay(7)] by (simp add: setLatestVersion_look)
qed

lemma ListKeyIDs_cache: "ListKeyIDs m = (ids, m') \<Longrightarrow> cache m' = cache m"
  by (auto simp: ListKeyIDs_def simp del: list_loop.simps split: prod.splits)

lemma RotateKey_Inl_cache: "RotateKey P ctx now keyID kek m r = (Inl e, m', r') \<Longrightarrow> cache m' = cache m"
  by (auto simp: RotateKey_def split: if_splits option.splits prod.splits sum.splits)

lemma ShredKey_Inl_cache: "ShredKey ctx keyID v m = (Inl e, m') \<Longrightarrow> cache m' = cache m"
  by (auto simp: ShredKey_def split: prod.splits sum.splits)

lemma SoftDeleteKey_cache: "SoftDeleteKey ctx now keyID v m = (x, m') \<Longrightarrow> cache m' = cache m"
  by (auto simp: SoftDeleteKey_def split: prod.splits)

text \<open>The closure of \<^verbatim>\<open>RestoreKey\<close> may have invalidated the cache before the transaction
  failed to commit.\<close>

lemma mem_world: "snd (snd (mem_WithTx ctx fn m w)) \<in> insert w (range (\<lambda>m0. snd (snd (fn m0 w))))"
  by (auto simp: mem_WithTx_def split: option.split)

lemma pg_world: "snd (snd (pg_WithTx fn p w)) \<in> insert w (range (\<lambda>p0. snd (snd (fn p0 w))))"
proof -
  obtain f p1 where c: "pool_call p = (f, p1)" by fastforce
  obtain x p2 w' where f: "fn (p1\<lparr>tx_aborted := False\<rparr>) w = (x, p2, w')" by (rule prod_cases3)
  then have "w' \<in> range (\<lambda>p0. snd (snd (fn p0 w)))" by (metis rangeI snd_conv)
  with c f show ?thesis
    by (auto simp: pg_WithTx_def split: option.split sum.split prod.split)
qed

lemma WithTx_world:
  assumes "store_WithTx ctx fn s w = (r, s', w')"
  shows "w' = w \<or> (\<exists>s0. w' = snd (snd (fn s0 w)))"
proof (cases s)
  case (Mem m)
  let ?fn = "\<lambda>m w. case fn (Mem m) w of (r, Mem m', w') \<Rightarrow> (r, m', w') | (r, Pg _, w') \<Rightarrow> (r, m, w')"
  have "snd (snd (?fn m0 w)) = snd (snd (fn (Mem m0) w))" for m0 by (auto split: prod.split KVStore.split)
  with mem_world [of ctx ?fn m w] assms Mem show ?thesis by (auto split: prod.splits)
next
  case (Pg p)
  let ?fn = "\<lambda>p w. case fn (Pg p) w of (r, Pg p', w') \<Rightarrow> (r, p', w') | (r, Mem _, w') \<Rightarrow> (r, p, w')"
  have "snd (snd (?fn p0 w)) = snd (snd (fn (Pg p0) w))" for p0 by (auto split: prod.split KVStore.split)
  with pg_world [of ?fn p w] assms Pg show ?thesis by (auto split: prod.splits)
qed

lemma RestoreKey_Inl_cache:
  assumes "RestoreKey ctx keyID v m = (Inl e, m')"
  shows "cache m' = cache m \<or> cache m' = cache_invalidate keyID (cache m)"
proof -
  obtain s c where tx: "store_WithTx ctx (restore_tx keyID v) (store m) (cache m) = (Inl e, s, c)" and m': "m' = m\<lparr>store := s, cache := c\<rparr>"
    using assms by (auto simp: RestoreKey_def split: prod.splits sum.splits)
  have closure: "snd (snd (restore_tx keyID v s0 c0)) = c0 \<or> snd (snd (restore_tx keyID v s0 c0)) = cache_invalidate keyID c0" for s0 c0
    by (auto simp: restore_tx_def Let_def split: prod.splits sum.splits option.splits)
  have "c = cache m \<or> c = cache_invalidate keyID (cache m)"
    using WithTx_world [OF tx] closure by metis
  with m' show ?thesis by simp
qed

lemma invalidate_coherent: "coherent m \<Longrightarrow> cache m' = cache_invalidate k (cache m) \<Longrightarrow> lookm m' = lookm m \<Longrightarrow> coherent m'"
  by (rule coherent_invalidate) (simp_all add: abs_same)


lemma upd_other: "k \<noteq> k0 \<Longrightarrow> upd l k0 u x k v = l k v"
  by (simp add: upd_def)

lemma coherent_rotate:
  assumes "coherent m" "RotateKey P ctx now keyID kek m r = (res, m', r')"
  shows "coherent m'"
proof (cases res)
  case (Inl e)
  show ?thesis
  proof (rule coherent_keep [OF assms(1) RotateKey_Inl_cache rotate_refines])
    show "versions_of m' k v \<noteq> None" if "versions_of m k v = Some a" for k v a
      using RotateKey_Inl [OF assms(2) [unfolded Inl]] that by (auto simp: meta_at_set_meta split: if_splits)
  qed (use assms(2) Inl in auto)
next
  case (Inr x)
  obtain nm dek where x: "x = (nm, dek)" by (cases x)
  note rot = assms(2) [unfolded Inr x]
  from rot obtain v old where "lookm m' = (set_meta (set_meta (lookm m) keyID v (Some (old\<lparr>KState := StateDeactivated\<rparr>)))
        keyID (v + 1) (Some nm))(latestVersionMetadataKey keyID \<mapsto> Doc (DInt (v + 1)))"
    and cache: "cache m' = cache_invalidate keyID (cache m)" by (rule RotateKey_Inr) blast
  then show ?thesis
    by (intro coherent_invalidate [OF assms(1) cache rotate_refines [OF assms(2)]]) (simp add: meta_at_set_meta)
qed

lemma coherent_shred:
  assumes "coherent m" "ShredKey ctx keyID v m = (x, m')"
  shows "coherent m'"
proof (cases x)
  case (Inl e)
  with assms ShredKey_Inl ShredKey_Inl_cache show ?thesis by (blast intro: same_coherent)
next
  case (Inr u)
  from ShredKey_Inr [OF assms(2) [unfolded Inr]] show ?thesis
    by (intro coherent_invalidate [OF assms(1) _ shred_refines [OF assms(2)]]) (auto simp: meta_at_set_meta)
qed

lemma coherent_softdelete:
  assumes "coherent m" "SoftDeleteKey ctx now keyID v m = (x, m')"
  shows "coherent m'"
proof (rule coherent_keep [OF assms(1) SoftDeleteKey_cache [OF assms(2)] softdelete_refines [OF assms(2)]])
  show "versions_of m' k u \<noteq> None" if "versions_of m k u = Some a" for k u a
  proof (cases x)
    case (Inl e)
    with SoftDeleteKey_Inl [OF assms(2) [unfolded Inl]] that show ?thesis by simp
  next
    case (Inr y)
    from assms(2) [unfolded Inr] show ?thesis by (rule SoftDeleteKey_Inr) (use that in \<open>auto simp: meta_at_set_meta split: if_splits\<close>)
  qed
qed

lemma coherent_restore:
  assumes "coherent m" "RestoreKey ctx keyID v m = (x, m')"
  shows "coherent m'"
proof (cases x)
  case (Inl e)
  note r = assms(2) [unfolded Inl]
  from RestoreKey_Inl_cache [OF r] RestoreKey_Inl [OF r] assms(1) show ?thesis
    by (auto intro: same_coherent invalidate_coherent)
next
  case (Inr y)
  from assms(2) [unfolded Inr] obtain a where a: "lookm m' = (if KState a = StateSoftDeleted
       then set_meta (lookm m) keyID v (Some (a\<lparr>KState := StateDeactivated, DeletedAt := 0\<rparr>)) else lookm m)"
    "cache m' = (if KState a = StateSoftDeleted then cache_invalidate keyID (cache m) else cache m)"
    by (rule RestoreKey_Inr) blast
  show ?thesis
  proof (cases "KState a = StateSoftDeleted")
    case True
    with a show ?thesis
      by (intro coherent_invalidate [OF assms(1) _ restore_refines [OF assms(2)]]) (auto simp: meta_at_set_meta)
  next
    case False
    with a assms(1) show ?thesis by (auto intro: same_coherent)
  qed
qed

lemma coherent_create:
  assumes "coherent m" "fresh keyID m" "CreateKey P now keyID kek days m r = (res, m', r')"
  shows "coherent m'"
proof (rule coherent_keep [OF assms(1) CreateKey_cache [OF assms(3)]])
  show "abs_step (versions_of m) (versions_of m')" by (rule lc_step_refines [OF step_create [OF assms(2,3)]])
  show "versions_of m' k v \<noteq> None" if "versions_of m k v = Some a" for k v a
    using CreateKey_effect [OF assms(3)] that by (auto simp: meta_at_set_meta)
qed

lemma coherent_step: "lc_step m m' \<Longrightarrow> coherent m \<Longrightarrow> coherent m'"
proof (induction rule: lc_step.induct)
  case (step_read now keyID v m g m')
  then show ?case using GetKeyForDecrypt_load coherent_load by blast
next
  case (step_datakey P now keyID kek m r d m' r')
  then show ?case using GenerateDataKey_active GetActiveKey_coherent by blast
next
  case (step_list m ids m')
  show ?case
    by (rule same_coherent [OF step_list(2) ListKeyIDs_cache [OF step_list(1)] ListKeyIDs_look [OF step_list(1)]])
next
  case (step_invalidate m keyID)
  show ?case by (rule invalidate_coherent [OF step_invalidate, of _ keyID]) (simp_all add: InvalidateCache_def)
next
  case (step_clear m)
  then show ?case by (simp add: coherent_def ClearCache_def cache_clear_def cache_get_def)
qed (blast intro: coherent_create coherent_rotate coherent_shred coherent_softdelete coherent_restore GetActiveKey_coherent)+

lemma coherent_init: "lc_init m \<Longrightarrow> coherent m"
  by (auto simp: lc_init_def coherent_def good_versions_def one_active_def NewManager_def newDekCache_def cache_get_def)

interpretation cached: invariant_system lc_init lc_step coherent
  by unfold_locales (auto intro: coherent_init coherent_step)

section \<open>Versions stay readable\<close>

lemma no_negative_cache: "cache m' = cache m \<Longrightarrow> no_negative k v m \<Longrightarrow> no_negative k v m'"
  by (simp add: no_negative_def)

lemma no_negative_invalidated: "cache m' = cache_invalidate k0 (cache m) \<Longrightarrow> no_negative k v m \<Longrightarrow> no_negative k v m'"
  by (simp add: no_negative_def no_negative_invalidate)

lemma no_negative_active:
  assumes "GetActiveKey now keyID m = (g, m')" "versions_of m k v \<noteq> None" "no_negative k v m"
  shows "no_negative k v m'"
  using assms(1)
proof (rule GetActiveKey_load)
  fix u s r1 assume s: "look s = lookm m" and l: "loadMetadata now keyID u (m\<lparr>store := s\<rparr>) = (r1, m')"
  show ?thesis by (rule load_no_negative [OF l]) (use s assms(2,3) in \<open>simp_all add: no_negative_def\<close>)
qed (use assms(3) no_negative_cache in blast)

lemma no_negative_step:
  "lc_step m m' \<Longrightarrow> versions_of m k v \<noteq> None \<Longrightarrow> no_negative k v m \<Longrightarrow> no_negative k v m'"
proof (induction rule: lc_step.induct)
  case (step_create keyID m P now kek days r res m' r')
  then show ?case using CreateKey_cache no_negative_cache by blast
next
  case (step_rotate P ctx now keyID kek m r res m' r')
  show ?case
  proof (cases res)
    case (Inl e)
    with step_rotate show ?thesis using RotateKey_Inl_cache no_negative_cache by blast
  next
    case (Inr x)
    then have "cache m' = cache_invalidate keyID (cache m)"
      using step_rotate(1) by (cases x) (auto elim: RotateKey_Inr)
    with step_rotate(3) show ?thesis by (simp add: no_negative_invalidated)
  qed
next
  case (step_shred ctx keyID u m x m')
  have "cache m' = cache m \<or> cache m' = cache_invalidate keyID (cache m)"
    using step_shred(1) ShredKey_Inl_cache [of ctx keyID u m _ m'] ShredKey_Inr [of ctx keyID u m _ m']
    by (cases x) auto
  with step_shred(3) show ?case using no_negative_cache no_negative_invalidated by blast
next
  case (step_softdelete ctx now keyID u m x m')
  then show ?case using SoftDeleteKey_cache no_negative_cache by blast
next
  case (step_restore ctx keyID u m x m')
  have "cache m' = cache m \<or> cache m' = cache_invalidate keyID (cache m)"
  proof (cases x)
    case (Inl e)
    with step_restore(1) RestoreKey_Inl_cache [of ctx keyID u m e m'] show ?thesis by simp
  next
    case (Inr y)
    from step_restore(1) [unfolded Inr] show ?thesis by (rule RestoreKey_Inr) presburger
  qed
  with step_restore(3) show ?case using no_negative_cache no_negative_invalidated by blast
next
  case (step_read now keyID u m g m')
  then show ?case using GetKeyForDecrypt_load load_no_negative by blast
next
  case (step_active now keyID m g m')
  then show ?case using no_negative_active by blast
next
  case (step_datakey P now keyID kek m r d m' r')
  then show ?case using GenerateDataKey_active no_negative_active by blast
next
  case (step_list m ids m')
  then show ?case using no_negative_cache [OF ListKeyIDs_cache] by blast
qed (simp_all add: no_negative_def InvalidateCache_def ClearCache_def cache_clear_def no_negative_invalidate)

text \<open>Steps after which the version still exists.\<close>

definition keeps :: "string \<Rightarrow> int \<Rightarrow> Manager \<Rightarrow> Manager \<Rightarrow> bool" where
  "keeps k v m m' \<longleftrightarrow> lc_step m m' \<and> versions_of m' k v \<noteq> None"

lemma tracked:
  assumes "(keeps k v)\<^sup>*\<^sup>* m m'" "coherent m" "versions_of m k v = Some a" "no_negative k v m"
  shows "coherent m' \<and> no_negative k v m' \<and> (\<exists>a'. versions_of m' k v = Some a' \<and> EncryptedMaterial a' = EncryptedMaterial a)"
  using assms(1)
proof (induction rule: rtranclp_induct)
  case base
  with assms show ?case by simp
next
  case (step n n')
  then obtain b where b: "versions_of n k v = Some b" "EncryptedMaterial b = EncryptedMaterial a" by blast
  from step(2) obtain b' where s: "lc_step n n'" "versions_of n' k v = Some b'" by (auto simp: keeps_def)
  have "EncryptedMaterial b' = EncryptedMaterial b"
    using kept_material [OF lc_step_refines [OF s(1)] coherentD(1) b(1) s(2)] step.IH by blast
  with b s step.IH show ?case using coherent_step [OF s(1)] no_negative_step [OF s(1)] by auto
qed

lemma readable_version:
  assumes "coherent m" "no_negative k v m" "versions_of m k v = Some a" "reliable (store m)"
  shows "\<exists>x m'. GetKeyForDecrypt now k v m = (Inr x, m') \<and> EncryptedMaterial x = EncryptedMaterial a \<and> Version x = v"
proof -
  obtain x m' where l: "loadMetadata now k v m = (Inr x, m')"
  proof (cases "cache_get (metadataKey k v) (cache m)")
    case (Some y)
    then show ?thesis using that by (simp add: loadMetadata_def)
  next
    case None
    with assms(2) have "uncached now k v (cache m)" by (simp add: uncached_def no_negative_def cache_isNegative_def)
    from loadMetadata_uncached(1) [OF this assms(4,3)] that show ?thesis by (cases "loadMetadata now k v m") simp
  qed
  from load_ok_no_negative [OF assms(1) l] assms(3) have "agrees k v x a" by auto
  with l show ?thesis by (auto simp: GetKeyForDecrypt_def agrees_def decryptable_def)
qed

end
