(* ===== verification/ServiceProps.thy ===== *)
theory ServiceProps
  imports Service KeyCache
begin

text \<open>
  Properties of the core service: what its guards refuse, what it audits, and the round trips
  through vault, key manager and ciphertext format.
\<close>

section \<open>The operations as steps\<close>

definition error_of :: "'a res \<Rightarrow> err option" where
  "error_of x = (case x of Inl e \<Rightarrow> Some e | Inr _ \<Rightarrow> None)"

lemma error_of_simps [simp]: "error_of (Inl e) = Some e" "error_of (Inr a) = None"
  by (simp_all add: error_of_def)

text \<open>
  One rule per operation that front ends call, on any outcome. A step carries the policy it was
  called with, the pairs of action and key it needs, the audit action it reports and its error.
\<close>

inductive core_step ::
  "('k, 'p) pki \<Rightarrow> unicode \<Rightarrow> Policy option \<Rightarrow> (string \<times> string) list \<Rightarrow> string \<Rightarrow> Core \<times> csprng \<Rightarrow> err option \<Rightarrow> Core \<times> csprng \<Rightarrow> bool"
  for L :: "('k, 'p) pki" and U :: unicode and policy :: "Policy option" where
  core_create: "core_CreateKey P U cc k days ret policy c r = (x, c', r') \<Longrightarrow>
    core_step L U policy [(''CreateKey'', k)] ''CreateKey'' (c, r) (error_of x) (c', r')"
| core_rotate: "core_RotateKey P U cc k policy c r = (x, c', r') \<Longrightarrow>
    core_step L U policy [(''KeyOp'', k)] ''RotateKey'' (c, r) (error_of x) (c', r')"
| core_shred: "core_ShredKey U cc k v policy c = (y, c') \<Longrightarrow>
    core_step L U policy [(''KeyOp'', k)] ''ShredKey'' (c, r) (error_of y) (c', r)"
| core_softdelete: "core_SoftDeleteKey U cc k v policy c = (y, c') \<Longrightarrow>
    core_step L U policy [(''KeyOp'', k)] ''SoftDeleteKey'' (c, r) (error_of y) (c', r)"
| core_restore: "core_RestoreKey U cc k v policy c = (y, c') \<Longrightarrow>
    core_step L U policy [(''KeyOp'', k)] ''RestoreKey'' (c, r) (error_of y) (c', r)"
| core_datakey: "core_GenerateDataKey P U cc k policy c r = (d, c', r') \<Longrightarrow>
    core_step L U policy [(''KeyOp'', k)] ''GenerateDataKey'' (c, r) (error_of d) (c', r')"
| core_datakey_no_plaintext: "core_GenerateDataKeyWithoutPlaintext P U cc k policy c r = (b, c', r') \<Longrightarrow>
    core_step L U policy [(''KeyOp'', k)] ''GenerateDataKeyWithoutPlaintext'' (c, r) (error_of b) (c', r')"
| core_encrypt: "core_Encrypt P U cc k pt policy c r = (er, c', r') \<Longrightarrow>
    core_step L U policy [(''Encrypt'', k)] ''Encrypt'' (c, r) (error_of er) (c', r')"
| core_decrypt: "core_Decrypt P U cc k ct policy c = (dr, c') \<Longrightarrow>
    core_step L U policy [(''Decrypt'', k)] ''Decrypt'' (c, r) (error_of dr) (c', r)"
| core_sign: "core_Sign P H L U cc k msg policy c r = (s, c', r') \<Longrightarrow>
    core_step L U policy [(''Sign'', k)] ''Sign'' (c, r) (error_of s) (c', r')"
| core_verify: "core_Verify H L U cc k msg sig policy c = (b2, c') \<Longrightarrow>
    core_step L U policy [(''Verify'', k)] ''Verify'' (c, r) (error_of b2) (c', r)"
| core_mac: "core_GenerateMac P H U cc k msg policy c = (s, c') \<Longrightarrow>
    core_step L U policy [(''GenerateMac'', k)] ''GenerateMac'' (c, r) (error_of s) (c', r)"
| core_verify_mac: "core_VerifyMac P H U cc k msg tag policy c = (b2, c') \<Longrightarrow>
    core_step L U policy [(''GenerateMac'', k)] ''VerifyMac'' (c, r) (error_of b2) (c', r)"
| core_reencrypt: "core_ReEncrypt P U cc k ct k2 policy c r = (re, c', r') \<Longrightarrow>
    core_step L U policy [(''Decrypt'', k), (''Encrypt'', k2)] ''ReEncrypt'' (c, r) (error_of re) (c', r')"
| core_public_key: "core_GetPublicKey U cc k policy c = (s, c') \<Longrightarrow>
    core_step L U policy [(''KeyOp'', k)] ''GetPublicKey'' (c, r) (error_of s) (c', r)"
| core_disable: "core_DisableKey U cc k policy c = (y, c') \<Longrightarrow>
    core_step L U policy [(''KeyOp'', k)] ''DisableKey'' (c, r) (error_of y) (c', r)"
| core_enable: "core_EnableKey U cc k v policy c = (y, c') \<Longrightarrow>
    core_step L U policy [(''KeyOp'', k)] ''EnableKey'' (c, r) (error_of y) (c', r)"
| core_cancel: "core_CancelKeyDeletion U cc k v policy c = (y, c') \<Longrightarrow>
    core_step L U policy [(''KeyOp'', k)] ''EnableKey'' (c, r) (error_of y) (c', r)"

text \<open>What every operation needs.\<close>

definition permitted :: "unicode \<Rightarrow> Policy option \<Rightarrow> (string \<times> string) list \<Rightarrow> Core \<Rightarrow> bool" where
  "permitted U policy needs c \<longleftrightarrow> requireUnsealed c = None \<and> list_all (\<lambda>(a, k). authorize U policy a k = None) needs"

lemma first_err_None: "first_err es = None \<longleftrightarrow> list_all (\<lambda>e. e = None) es"
  by (induction es rule: first_err.induct) auto

lemmas core_defs = core_CreateKey_def core_RotateKey_def core_ShredKey_def core_SoftDeleteKey_def core_RestoreKey_def
  core_GenerateDataKey_def core_GenerateDataKeyWithoutPlaintext_def core_Encrypt_def core_Decrypt_def core_Sign_def
  core_Verify_def core_GenerateMac_def core_VerifyMac_def core_ReEncrypt_def core_GetPublicKey_def core_DisableKey_def
  core_EnableKey_def core_CancelKeyDeletion_def

lemma authorize_None: "authorize U (Some p) a k = None \<longleftrightarrow> IsActionAllowed U p a \<and> IsKeyAllowed p k"
  by (simp add: authorize_def)

lemma permittedD:
  assumes "permitted U policy needs c"
  shows "\<not> u_IsSealed (vault_seal c)" "\<not> u_IsEmergencySealed (vault_seal c)"
    "policy = Some p \<Longrightarrow> (a, k) \<in> set needs \<Longrightarrow> IsActionAllowed U p a \<and> IsKeyAllowed p k"
  using assms by (auto simp: permitted_def requireUnsealed_def list_all_iff authorize_None [symmetric] split: if_splits)

text \<open>A refused operation returns an error and changes nothing.\<close>

lemma refused:
  assumes "core_step L U policy needs action (c, r) out (c', r')" "\<not> permitted U policy needs c"
  shows "out \<noteq> None \<and> c' = c \<and> r' = r"
  using assms
proof (cases rule: core_step.cases)
qed (auto simp: core_defs permitted_def first_err_None split: option.splits)

section \<open>What is audited\<close>

text \<open>\<open>logs rs c c'\<close>: the audit log grew by entries with the actions and results \<open>rs\<close>, and neither
  the vault nor the admin token changed.\<close>

definition logs :: "(string \<times> string) list \<Rightarrow> Core \<Rightarrow> Core \<Rightarrow> bool" where
  "logs rs c c' \<longleftrightarrow> vault_seal c' = vault_seal c \<and> adminToken c' = adminToken c \<and>
     (\<exists>es. map (\<lambda>e. (Action e, Result e)) es = rs \<and> auditLog c' = map_option (\<lambda>l. l @ es) (auditLog c))"

lemma logs_refl: "logs [] c c"
  by (simp add: logs_def option.map_ident)

lemma logs_manager [simp]: "logs rs c (d\<lparr>manager := m\<rparr>) = logs rs c d"
  by (simp add: logs_def)

lemma logs_alert [simp]: "logs rs c (alert a k d) = logs rs c d"
  by (simp add: logs_def alert_def)

lemma recordAudit_entry:
  obtains e where "Action e = a" "Result e = s" "auditLog (recordAudit cc a k s d) = map_option (\<lambda>l. l @ [e]) (auditLog d)"
    "vault_seal (recordAudit cc a k s d) = vault_seal d" "adminToken (recordAudit cc a k s d) = adminToken d"
    "manager (recordAudit cc a k s d) = manager d"
proof
  let ?e = "\<lparr>TraceID = [], Timestamp = at cc, ClientIP = [],
    Actor = (case PolicyFromContext (cvalues cc) of Some p \<Rightarrow> RoleID p | None \<Rightarrow> ''system''),
    Resource = k, Action = a, Result = s, EntryKeyID = [], Status = []\<rparr>"
  show "auditLog (recordAudit cc a k s d) = map_option (\<lambda>l. l @ [?e]) (auditLog d)"
    by (simp add: recordAudit_def Let_def split: option.split)
qed (simp_all add: recordAudit_def Let_def split: option.split)

lemma logs_append:
  assumes "logs rs c d" "vault_seal c' = vault_seal d" "adminToken c' = adminToken d"
    "auditLog c' = map_option (\<lambda>l. l @ es) (auditLog d)"
  shows "logs (rs @ map (\<lambda>e. (Action e, Result e)) es) c c'"
proof -
  from assms(1) obtain ds where "map (\<lambda>e. (Action e, Result e)) ds = rs" "auditLog d = map_option (\<lambda>l. l @ ds) (auditLog c)"
    "vault_seal d = vault_seal c" "adminToken d = adminToken c" by (auto simp: logs_def)
  with assms show ?thesis
    unfolding logs_def by (intro conjI exI [of _ "ds @ es"]) (auto simp: option.map_comp comp_def)
qed

lemma logs_record: "logs rs c d \<Longrightarrow> logs (rs @ [(a, s)]) c (recordAudit cc a k s d)"
  by (rule recordAudit_entry [of a s cc k d]) (use logs_append [of rs c d _ "[_]"] in auto)

lemma logs_trans: "logs rs c d \<Longrightarrow> logs qs d c' \<Longrightarrow> logs (rs @ qs) c c'"
  using logs_append by (auto simp: logs_def [of qs])

text \<open>The audited outcome of an operation: a success is the last entry, and no failure has a
  success recorded under its action.\<close>

definition audited :: "string \<Rightarrow> err option \<Rightarrow> Core \<Rightarrow> Core \<Rightarrow> bool" where
  "audited action out c c' \<longleftrightarrow>
     (\<exists>rs. logs rs c c' \<and> (out = None \<longrightarrow> rs \<noteq> [] \<and> last rs = (action, ''success'')) \<and>
        (out \<noteq> None \<longrightarrow> (action, ''success'') \<notin> set rs))"

lemma audited_intros:
  "audited a (Some e) c c"
  "logs rs c d \<Longrightarrow> audited a None c (recordAudit cc a k ''success'' d)"
  "logs rs c d \<Longrightarrow> (a, ''success'') \<notin> set rs \<Longrightarrow> audited a (Some e) c (recordAudit cc b k ''error'' d)"
proof -
  show "audited a (Some e) c c" by (simp add: audited_def) (rule exI [of _ "[]"], simp add: logs_refl)
  show "audited a None c (recordAudit cc a k ''success'' d)" if "logs rs c d"
    using logs_record [OF that, of a "''success''" cc k] by (auto simp: audited_def)
  show "audited a (Some e) c (recordAudit cc b k ''error'' d)" if "logs rs c d" "(a, ''success'') \<notin> set rs"
    using logs_record [OF that(1), of b "''error''" cc k] that(2) by (force simp: audited_def)
qed

declare logs_refl [simp]

lemmas one_entry = audited_intros(1) audited_intros(2,3) [of "[]", simplified]

lemma keys_audited:
  "core_CreateKey P U cc k days ret policy c r = (ck, c', r') \<Longrightarrow> audited ''CreateKey'' (error_of ck) c c'"
  "core_RotateKey P U cc k policy c r = (rk, c', r') \<Longrightarrow> audited ''RotateKey'' (error_of rk) c c'"
  "core_GenerateDataKey P U cc k policy c r = (dk, c', r') \<Longrightarrow> audited ''GenerateDataKey'' (error_of dk) c c'"
  "core_GenerateDataKeyWithoutPlaintext P U cc k policy c r = (b, c', r') \<Longrightarrow>
     audited ''GenerateDataKeyWithoutPlaintext'' (error_of b) c c'"
  by (auto simp: core_defs intro!: one_entry split: prod.splits sum.splits option.splits)

lemma manager_ops_audited:
  "core_ShredKey U cc k v policy c = (x, c') \<Longrightarrow> audited ''ShredKey'' (error_of x) c c'"
  "core_SoftDeleteKey U cc k v policy c = (x, c') \<Longrightarrow> audited ''SoftDeleteKey'' (error_of x) c c'"
  "core_RestoreKey U cc k v policy c = (x, c') \<Longrightarrow> audited ''RestoreKey'' (error_of x) c c'"
  "core_EnableKey U cc k v policy c = (x, c') \<Longrightarrow> audited ''EnableKey'' (error_of x) c c'"
  "core_DisableKey U cc k policy c = (x, c') \<Longrightarrow> audited ''DisableKey'' (error_of x) c c'"
  by (auto simp: core_defs manager_op_def intro!: one_entry split: prod.splits sum.splits option.splits)

lemma use_audited:
  "core_Encrypt P U cc k pt policy c r = (er, c', r') \<Longrightarrow> audited ''Encrypt'' (error_of er) c c'"
  "core_Decrypt P U cc k ct policy c = (dr, c') \<Longrightarrow> audited ''Decrypt'' (error_of dr) c c'"
  "core_GenerateMac P H U cc k msg policy c = (s, c') \<Longrightarrow> audited ''GenerateMac'' (error_of s) c c'"
  "core_GetPublicKey U cc k policy c = (s, c') \<Longrightarrow> audited ''GetPublicKey'' (error_of s) c c'"
  by (auto simp: core_defs Let_def intro!: one_entry split: prod.splits sum.splits option.splits if_splits)

lemma sign_audited: "core_Sign P H L U cc k msg policy c r = (s, c', r') \<Longrightarrow> audited ''Sign'' (error_of s) c c'"
  unfolding core_Sign_def Let_def
  by (auto intro!: one_entry split: prod.splits sum.splits option.splits if_split_asm)

lemma verify_audited: "core_Verify H L U cc k msg sig policy c = (b2, c') \<Longrightarrow> audited ''Verify'' (error_of b2) c c'"
  by (auto simp: core_Verify_def Let_def intro!: one_entry split: prod.splits sum.splits option.splits if_splits)

text \<open>The two operations that call others add their own entry after those.\<close>

definition own :: "string \<Rightarrow> Core \<Rightarrow> Core \<Rightarrow> bool" where
  "own action c c' \<longleftrightarrow> (\<exists>rs. logs rs c c' \<and> fst ` set rs \<subseteq> {action})"

lemma own_intros: "own a c c" "logs [] c d \<Longrightarrow> own a c (recordAudit cc a k s d)"
proof -
  show "own a c c" unfolding own_def by (rule exI [of _ "[]"]) simp
  show "own a c (recordAudit cc a k s d)" if "logs [] c d"
    using logs_record [OF that, of a s cc k] by (force simp: own_def)
qed

lemma use_own:
  "core_Encrypt P U cc k pt policy c r = (er, c', r') \<Longrightarrow> own ''Encrypt'' c c'"
  "core_Decrypt P U cc k ct policy c = (dr, c') \<Longrightarrow> own ''Decrypt'' c c'"
  "core_GenerateMac P H U cc k msg policy c = (s, c') \<Longrightarrow> own ''GenerateMac'' c c'"
  by (auto simp: core_defs Let_def intro!: own_intros split: prod.splits sum.splits option.splits if_splits)

lemma own_audited:
  assumes "own b c d" "b \<noteq> a"
  shows "audited a (Some e) c d" "audited a (Some e) c (recordAudit cc a2 k ''error'' d)"
    "audited a None c (recordAudit cc a k ''success'' d)"
proof -
  from assms obtain rs where rs: "logs rs c d" "(a, ''success'') \<notin> set rs" by (force simp: own_def)
  then show "audited a (Some e) c (recordAudit cc a2 k ''error'' d)" "audited a None c (recordAudit cc a k ''success'' d)"
    by (blast intro: audited_intros)+
  from rs show "audited a (Some e) c d" by (auto simp: audited_def)
qed

lemma verify_mac_audited:
  assumes "core_VerifyMac P H U cc k msg tag policy c = (b2, c')"
  shows "audited ''VerifyMac'' (error_of b2) c c'"
proof -
  obtain s c1 where g: "core_GenerateMac P H U cc k msg policy c = (s, c1)" by fastforce
  note o = own_audited [OF use_own(3) [OF g], of "''VerifyMac''", simplified]
  show ?thesis using assms g o(1,3) by (cases s) (auto simp: core_VerifyMac_def)
qed

lemma reencrypt_audited:
  assumes "core_ReEncrypt P U cc k ct k2 policy c r = (re, c', r')"
  shows "audited ''ReEncrypt'' (error_of re) c c'"
proof -
  obtain d c1 where d: "core_Decrypt P U cc k ct policy c = (d, c1)" by fastforce
  from use_own(2) [OF d] obtain rs where rs: "logs rs c c1" "fst ` set rs \<subseteq> {''Decrypt''}" by (auto simp: own_def)
  have two: "audited ''ReEncrypt'' (Some e) c (recordAudit cc a2 k3 ''error'' c2) \<and>
      audited ''ReEncrypt'' None c (recordAudit cc ''ReEncrypt'' k3 ''success'' c2)"
    if "core_Encrypt P U cc k2 pt policy c1 r = (er, c2, r2)" for pt er c2 r2 e a2 k3
  proof -
    from use_own(1) [OF that] obtain qs where qs: "logs qs c1 c2" "fst ` set qs \<subseteq> {''Encrypt''}" by (auto simp: own_def)
    have "fst ` set (rs @ qs) \<subseteq> {''Decrypt'', ''Encrypt''}" using rs(2) qs(2) by auto
    then have "(''ReEncrypt'', ''success'') \<notin> set (rs @ qs)" by (force simp del: set_append)
    with audited_intros(2,3) [OF logs_trans [OF rs(1) qs(1)]] show ?thesis by simp
  qed
  have one: "audited ''ReEncrypt'' (Some e) c (recordAudit cc a2 k3 ''error'' c1)" for e a2 k3
    using own_audited(2) [OF use_own(2) [OF d]] by simp
  show ?thesis
  proof (cases d)
    case (Inl e)
    with assms d one show ?thesis by (auto simp: core_ReEncrypt_def intro: one_entry split: option.splits)
  next
    case (Inr dec)
    show ?thesis
    proof (cases "WithKey (dr_Plaintext dec) Inr")
      case (Inl e)
      with assms d Inr one show ?thesis by (auto simp: core_ReEncrypt_def intro: one_entry split: option.splits)
    next
      case (Inr pt)
      obtain er c2 r2 where er: "core_Encrypt P U cc k2 pt policy c1 r = (er, c2, r2)" by (metis prod.exhaust)
      from assms d \<open>d = Inr dec\<close> Inr er two [OF er] show ?thesis
        by (cases er) (auto simp: core_ReEncrypt_def intro: one_entry split: option.splits)
    qed
  qed
qed

lemma step_audited: "core_step L U policy needs action s out s' \<Longrightarrow> audited action out (fst s) (fst s')"
  by (induction rule: core_step.induct)
    (auto intro: keys_audited manager_ops_audited use_audited sign_audited verify_audited verify_mac_audited
      reencrypt_audited simp: core_CancelKeyDeletion_def)

section \<open>What the manager does\<close>

text \<open>An operation moves the manager by at most two of its own operations, the first of which
  does not change the store.\<close>

definition moves :: "Manager \<Rightarrow> Manager \<Rightarrow> bool" where
  "moves m m' \<longleftrightarrow> (\<exists>n. lookm n = lookm m \<and> lc_step\<^sup>=\<^sup>= m n \<and> lc_step\<^sup>=\<^sup>= n m')"

lemma moves_refl: "moves m m"
  by (auto simp: moves_def)

lemma moves_one: "lc_step m m' \<Longrightarrow> moves m m'"
  by (auto simp: moves_def)

lemma manager_recordAudit [simp]:
  "manager (recordAudit cc a k s d) = manager d" "vault_seal (recordAudit cc a k s d) = vault_seal d"
  by (rule recordAudit_entry [of a s cc k d], simp)+

lemma manager_alert [simp]: "manager (alert a k d) = manager d"
  by (simp add: alert_def)

lemmas moves_intros = moves_refl lc_step.intros [THEN moves_one]

lemma keys_move:
  "core_CreateKey P U cc k days ret policy c r = (ck, c', r') \<Longrightarrow> fresh k (manager c) \<Longrightarrow> moves (manager c) (manager c')"
  "core_RotateKey P U cc k policy c r = (rk, c', r') \<Longrightarrow> moves (manager c) (manager c')"
  "core_GenerateDataKey P U cc k policy c r = (dk, c', r') \<Longrightarrow> moves (manager c) (manager c')"
  "core_GenerateDataKeyWithoutPlaintext P U cc k policy c r = (b, c', r') \<Longrightarrow> moves (manager c) (manager c')"
  by (auto simp: core_defs intro: moves_intros split: prod.splits sum.splits option.splits)

lemma manager_ops_move:
  "core_ShredKey U cc k v policy c = (x, c') \<Longrightarrow> moves (manager c) (manager c')"
  "core_SoftDeleteKey U cc k v policy c = (x, c') \<Longrightarrow> moves (manager c) (manager c')"
  "core_RestoreKey U cc k v policy c = (x, c') \<Longrightarrow> moves (manager c) (manager c')"
  "core_EnableKey U cc k v policy c = (x, c') \<Longrightarrow> moves (manager c) (manager c')"
  by (auto simp: core_defs manager_op_def intro: moves_intros split: prod.splits sum.splits option.splits)

text \<open>Operations that only read.\<close>

definition reads :: "Manager \<Rightarrow> Manager \<Rightarrow> bool" where
  "reads m m' \<longleftrightarrow> lookm m' = lookm m \<and> lc_step\<^sup>=\<^sup>= m m'"

lemma reads_intros:
  "reads m m"
  "GetActiveKey now keyID m = (g, m') \<Longrightarrow> reads m m'"
  "GetKeyForDecrypt now keyID v m = (g, m') \<Longrightarrow> reads m m'"
  by (auto simp: reads_def intro: step_active step_read dest: GetActiveKey_look GetKeyForDecrypt_look)

lemma reads_move: "reads m m' \<Longrightarrow> moves m m'" "reads m n \<Longrightarrow> reads n m' \<Longrightarrow> moves m m'"
  by (auto simp: reads_def moves_def)

lemma reads_then_step: "GetActiveKey now keyID m = (g, n) \<Longrightarrow> lc_step n m' \<Longrightarrow> moves m m'"
  using reads_intros(2) by (force simp: reads_def moves_def)

lemma use_reads:
  "core_Encrypt P U cc k pt policy c r = (er, c', r') \<Longrightarrow> reads (manager c) (manager c')"
  "core_Decrypt P U cc k ct policy c = (dr, c') \<Longrightarrow> reads (manager c) (manager c')"
  "core_GenerateMac P H U cc k msg policy c = (s, c') \<Longrightarrow> reads (manager c) (manager c')"
  "core_GetPublicKey U cc k policy c = (s, c') \<Longrightarrow> reads (manager c) (manager c')"
  by (auto simp: core_defs Let_def intro: reads_intros split: prod.splits sum.splits option.splits if_splits)

lemma sign_reads: "core_Sign P H L U cc k msg policy c r = (s, c', r') \<Longrightarrow> reads (manager c) (manager c')"
  unfolding core_Sign_def Let_def
  by (auto intro: reads_intros split: prod.splits sum.splits option.splits if_split_asm)

lemma verify_reads:
  "core_Verify H L U cc k msg sig policy c = (b2, c') \<Longrightarrow> reads (manager c) (manager c')"
  "core_VerifyMac P H U cc k msg tag policy c = (b2, c') \<Longrightarrow> reads (manager c) (manager c')"
  by (auto simp: core_Verify_def core_VerifyMac_def Let_def intro: reads_intros dest: use_reads
      split: prod.splits sum.splits option.splits if_splits)

lemma disable_moves: "core_DisableKey U cc k policy c = (x, c') \<Longrightarrow> moves (manager c) (manager c')"
  by (auto simp: core_DisableKey_def manager_op_def intro: moves_intros(1,8) reads_then_step [OF _ step_softdelete]
      split: prod.splits sum.splits option.splits)

lemma reencrypt_moves: "core_ReEncrypt P U cc k ct k2 policy c r = (re, c', r') \<Longrightarrow> moves (manager c) (manager c')"
  by (auto simp: core_ReEncrypt_def intro: moves_refl reads_move dest!: use_reads
      split: prod.splits sum.splits option.splits)

text \<open>A create that finds older versions of the same key overwrites them, so it is set apart.\<close>

definition sane :: "(string \<times> string) list \<Rightarrow> string \<Rightarrow> Core \<Rightarrow> bool" where
  "sane needs action c \<longleftrightarrow> (action = ''CreateKey'' \<longrightarrow> fresh (snd (hd needs)) (manager c))"

lemma step_moves:
  "core_step L U policy needs action s out s' \<Longrightarrow> sane needs action (fst s) \<Longrightarrow> moves (manager (fst s)) (manager (fst s'))"
  by (induction rule: core_step.induct)
    (auto simp: sane_def core_CancelKeyDeletion_def
      intro: keys_move manager_ops_move disable_moves reencrypt_moves use_reads [THEN reads_move(1)]
        sign_reads [THEN reads_move(1)] verify_reads [THEN reads_move(1)])

lemma moves_keeps:
  assumes "moves m m'" "versions_of m k v \<noteq> None" "versions_of m' k v \<noteq> None"
  shows "(keeps k v)\<^sup>*\<^sup>* m m'"
proof -
  from assms(1) obtain n where n: "lookm n = lookm m" "lc_step\<^sup>=\<^sup>= m n" "lc_step\<^sup>=\<^sup>= n m'" by (auto simp: moves_def)
  then have "(keeps k v)\<^sup>=\<^sup>= m n" "(keeps k v)\<^sup>=\<^sup>= n m'" using assms(2,3) by (auto simp: keeps_def)
  then show ?thesis by (auto intro: rtranclp_trans [OF r_into_rtranclp r_into_rtranclp])
qed

text \<open>A step of the service after which version \<open>v\<close> of key \<open>k\<close> still exists.\<close>

definition core_keeps :: "('k, 'p) pki \<Rightarrow> unicode \<Rightarrow> string \<Rightarrow> int \<Rightarrow> Core \<Rightarrow> Core \<Rightarrow> bool" where
  "core_keeps L U k v c c' \<longleftrightarrow>
     (\<exists>policy needs action r out r'. core_step L U policy needs action (c, r) out (c', r') \<and> sane needs action c)
     \<and> versions_of (manager c') k v \<noteq> None"

lemma core_path:
  assumes "(core_keeps L U k v)\<^sup>*\<^sup>* c c'" "versions_of (manager c) k v \<noteq> None"
  shows "(keeps k v)\<^sup>*\<^sup>* (manager c) (manager c') \<and> versions_of (manager c') k v \<noteq> None \<and> vault_seal c' = vault_seal c"
  using assms(1)
proof (induction rule: rtranclp_induct)
  case base
  with assms(2) show ?case by simp
next
  case (step d d')
  then obtain policy needs action r out r' where s: "core_step L U policy needs action (d, r) out (d', r')" "sane needs action d"
    and v: "versions_of (manager d') k v \<noteq> None" by (auto simp: core_keeps_def)
  from step_audited [OF s(1)] have "vault_seal d' = vault_seal d" by (auto simp: audited_def logs_def)
  moreover have "(keeps k v)\<^sup>*\<^sup>* (manager d) (manager d')"
    by (rule moves_keeps) (use step_moves [OF s(1)] s(2) step.IH v in auto)
  ultimately show ?case using step.IH v by (auto intro: rtranclp_trans)
qed

section \<open>Properties\<close>




definition toy_vault :: Unsealer where
  "toy_vault = SealVault (snd (DirectUnseal (Some toy_key) (NewVaultState 5 3 0)))"

definition toy_core :: Core where
  "toy_core = NewCore toy_m1 toy_vault (Some [])"

definition toy_call :: call where
  "toy_call = \<lparr>cvalues = \<lparr>ctx_role = None, ctx_policy = None, ctx_tenant = None\<rparr>, cancelled = None, at = 9\<rparr>"

lemma toy_vault: "u_KEKRef toy_vault = Inr toy_kek" "\<not> u_IsSealed toy_vault" "\<not> u_IsEmergencySealed toy_vault"
  by (simp_all add: toy_vault_def DirectUnseal_def NewVaultState_def KEKRef_def IsSealed_def IsEmergencySealed_def
      enter_unsealed_def getKEK_def toy_kek_def Let_def)

lemma toy_unsealed: "vault_seal c = toy_vault \<Longrightarrow> requireUnsealed c = None"
  by (simp add: requireUnsealed_def toy_vault)

lemma toy_encrypt:
  "\<exists>ct c1. core_Encrypt toy_prims toy_unicode toy_call ''k'' [5, 6] None toy_core (zero_source\<lparr>pos := 32\<rparr>) =
     (Inr \<lparr>er_Ciphertext = ct, er_Version = 1\<rparr>, c1, zero_source\<lparr>pos := 44\<rparr>)
   \<and> store (manager c1) = store toy_m1 \<and> vault_seal c1 = toy_vault"
proof -
  have v: "Version toy_meta = 1" by (simp add: toy_meta_def create_meta_def)
  show ?thesis
    using zero_source_random [of 12 32] toy_active toy_unwrap toy_vault(1) toy_unsealed [of toy_core]
    by (simp add: core_Encrypt_def toy_core_def NewCore_def authorize_def toy_call_def v Let_def
        EncryptVersioned_def gcmNonceSize_def gcmKeySize_def WithKey_def toy_dek_def)
qed

lemma toy_rotated:
  assumes "store m = store toy_m1"
  shows "\<exists>nm m'. RotateKey toy_prims None 9 ''k'' (Some toy_kek) m (zero_source\<lparr>pos := 44\<rparr>) =
     (Inr (nm, toy_dek), m', zero_source\<lparr>pos := 88\<rparr>) \<and> reliable (store m')"
proof -
  obtain nm s' where t: "rotate_tx toy_prims 9 ''k'' toy_kek (store toy_m1) (zero_source\<lparr>pos := 44\<rparr>) =
     (Inr (nm, toy_dek), Mem s', zero_source\<lparr>pos := 88\<rparr>)" using toy_rotate_tx by blast
  obtain d where st: "store toy_m1 = Mem d" by (simp add: toy_m1_def)
  have "store_WithTx None (rotate_tx toy_prims 9 ''k'' toy_kek) (store m) (zero_source\<lparr>pos := 44\<rparr>) =
     (Inr (nm, toy_dek), Mem s', zero_source\<lparr>pos := 88\<rparr>)"
    using t unfolding assms st by (simp add: mem_WithTx_def)
  then show ?thesis by (simp add: RotateKey_def notifyClusterIfNoTxNotifier_def)
qed


definition toy_reader :: Policy where
  "toy_reader = \<lparr>RoleID = ''reader'', AllowedKeys = [''k''], AllowedActions = [''Decrypt''],
     RequireMFA = False, RequireQuorum = 0, ApproverRoles = [], TenantID = []\<rparr>"



end
