(* ===== verification/ApiProps.thy ===== *)
theory ApiProps
  imports Handlers ServiceProps AuditProps
begin

text \<open>
  Properties of the HTTP interface as a whole, through the routes of the router: what a caller
  without a valid token can do, what the second factor and the quorum are worth, and where the
  checks on key names are missing.
\<close>

section \<open>Access\<close>

text \<open>Only the audit log may differ.\<close>

definition only_logged :: "V1Router \<Rightarrow> V1Router \<Rightarrow> bool" where
  "only_logged R R' \<longleftrightarrow> (\<exists>log. R' = R\<lparr>core := (core R)\<lparr>auditLog := log\<rparr>\<rparr>)"

lemma only_logged_refl: "only_logged R R"
  unfolding only_logged_def by (rule exI [of _ "auditLog (core R)"]) simp

definition refuses :: "handler \<Rightarrow> request \<Rightarrow> V1Router \<Rightarrow> csprng \<Rightarrow> bool" where
  "refuses h req R r \<longleftrightarrow> (\<exists>s j. h req R r = (Response s j, R, r) \<and> s \<in> {401, 403, 503})"

definition no_token :: "unicode \<Rightarrow> (string \<Rightarrow> Policy res) \<Rightarrow> request \<Rightarrow> bool" where
  "no_token U authenticate req \<longleftrightarrow>
     (\<forall>token p. ExtractBearerToken U (r_header req ''Authorization'') = Inr token \<longrightarrow> authenticate token \<noteq> Inr p)"

lemma RequireAuth_refuses:
  assumes "no_token U authenticate req"
  shows "refuses (RequireAuth U (Some authenticate) action next) req R r"
  using assms by (auto simp: refuses_def no_token_def RequireAuth_def writeJSONError_def split: sum.splits)

lemma authAndSeal_refuses:
  assumes "no_token U authenticate req" "authenticator R = Some authenticate"
  shows "refuses (authAndSeal U action next) req R r"
  using RequireAuth_refuses [OF assms(1), of action "next" R r] assms(2)
  by (auto simp: refuses_def authAndSeal_def requireUnsealedV1_def writeJSONError_def)

lemma audit_refuses:
  assumes "\<And>r. refuses h req R r" "auditMiddleware action h req R r = (resp, R', r')"
  shows "400 \<le> response_status resp \<and> only_logged R R'"
proof (cases "u_IsEmergencySealed (r_seal R)")
  case True
  with assms(2) only_logged_refl [of R] show ?thesis by (auto simp: auditMiddleware_def writeJSONError_def response_status_def)
next
  case False
  let ?t = "if r_trace req = '''' then (case GenerateSecureRandom 16 r of (Inl e, r1) \<Rightarrow> (None, r1)
      | (Inr b, r1) \<Rightarrow> (Some (hex_EncodeToString b), r1)) else (Some (r_trace req), r)"
  obtain t r1 where t: "?t = (t, r1)" by fastforce
  show ?thesis
  proof (cases t)
    case None
    with assms(2) False t only_logged_refl [of R] show ?thesis
      by (auto simp: auditMiddleware_def writeJSONError_def response_status_def)
  next
    case (Some traceID)
    from assms(1) [of r1] obtain s j where h: "h req R r1 = (Response s j, R, r1)" "s \<in> {401, 403, 503}" by (auto simp: refuses_def)
    show ?thesis
    proof (cases "auditLog (core R)")
      case None
      with assms(2) False t Some h only_logged_refl [of R] show ?thesis
        by (auto simp: auditMiddleware_def response_status_def)
    next
      case (Some log)
      with assms(2) False t \<open>t = Some traceID\<close> h show ?thesis
        by (auto simp: auditMiddleware_def response_status_def recovered_def only_logged_def)
    qed
  qed
qed

definition public_routes :: "string list" where
  "public_routes = [''/api/v1/sys/health'', ''/api/v1/sys/unseal'', ''/api/v1/sys/panic'', ''/api/v1/keys/transit-pub'']"

text \<open>Every route that is not public authenticates.\<close>

definition authenticates :: "('k, 'p) env \<Rightarrow> V1Router \<Rightarrow> handler \<Rightarrow> bool" where
  "authenticates E R h \<longleftrightarrow> (\<exists>action a next. h = auditMiddleware action (authAndSeal (e_unicode E) a next)
     \<or> h = auditMiddleware action (RequireAuth (e_unicode E) (authenticator R) a next))"

lemma authenticates_intros [simp]:
  "authenticates E R (auditMiddleware action (authAndSeal (e_unicode E) a next))"
  "authenticates E R (auditMiddleware action (RequireAuth (e_unicode E) (authenticator R) a next))"
  by (auto simp: authenticates_def)

lemma routes_authenticate: "list_all (\<lambda>(p, h). p \<in> set public_routes \<or> authenticates E R h) (routes E R)"
  by (simp add: routes_def Let_def public_routes_def)

lemma authenticates_refuses:
  assumes "authenticates E R h" "no_token (e_unicode E) authenticate req" "authenticator R = Some authenticate"
    "h req R r = (resp, R', r')"
  shows "400 \<le> response_status resp \<and> only_logged R R'"
proof -
  from assms(1) obtain action a "next" where "h = auditMiddleware action (authAndSeal (e_unicode E) a next)
     \<or> h = auditMiddleware action (RequireAuth (e_unicode E) (Some authenticate) a next)" unfolding authenticates_def assms(3) by blast
  then show ?thesis
    using audit_refuses [OF authAndSeal_refuses [OF assms(2,3)]] audit_refuses [OF RequireAuth_refuses [OF assms(2)]] assms(4) by blast
qed


section \<open>Requests with a token\<close>

definition as_policy :: "Policy \<Rightarrow> request \<Rightarrow> request" where
  "as_policy p req =
     (let ctx = WithPolicy (WithRoleID (r_ctx req) (RoleID p)) p;
          ctx = (if TenantID p \<noteq> '''' then WithTenant ctx (TenantID p) else ctx)
      in req\<lparr>r_call := (r_call req)\<lparr>cvalues := ctx\<rparr>\<rparr>)"

text \<open>A valid token whose policy allows the action, on an unsealed vault.\<close>

definition admitted :: "('k, 'p) env \<Rightarrow> string \<Rightarrow> Policy \<Rightarrow> request \<Rightarrow> V1Router \<Rightarrow> bool" where
  "admitted E action p req R \<longleftrightarrow>
     (\<exists>authenticate token. authenticator R = Some authenticate
        \<and> ExtractBearerToken (e_unicode E) (r_header req ''Authorization'') = Inr token \<and> authenticate token = Inr p)
     \<and> IsActionAllowed (e_unicode E) p action
     \<and> \<not> u_IsEmergencySealed (r_seal R) \<and> \<not> u_IsSealed (r_seal R) \<and> r_trace req \<noteq> '''' \<and> auditLog (core R) \<noteq> None"

lemma as_policy_simps [simp]:
  "r_method (as_policy p req) = r_method req" "r_body (as_policy p req) = r_body req" "r_now (as_policy p req) = r_now req"
  "r_path (as_policy p req) = r_path req" "cancelled (r_call (as_policy p req)) = cancelled (r_call req)"
  "PolicyFromContext (r_ctx (as_policy p req)) = Some p"
  by (simp_all add: as_policy_def Let_def WithPolicy_def WithRoleID_def WithTenant_def PolicyFromContext_def)

lemma admitted_runs:
  assumes "admitted E action p req R" "extractKeyIDFromPath (r_path req) = '''' \<or> IsKeyAllowed p (extractKeyIDFromPath (r_path req))"
    "next (as_policy p req) R r = (Response s j, R1, r1)" "auditLog (core R1) \<noteq> None"
  shows "\<exists>log. auditMiddleware act (authAndSeal (e_unicode E) action next) req R r =
    (Response s j, R1\<lparr>core := (core R1)\<lparr>auditLog := Some log\<rparr>\<rparr>, r1)"
proof -
  obtain authenticate token where a: "authenticator R = Some authenticate"
    "ExtractBearerToken (e_unicode E) (r_header req ''Authorization'') = Inr token" "authenticate token = Inr p"
    and ok: "IsActionAllowed (e_unicode E) p action" "\<not> u_IsEmergencySealed (r_seal R)" "\<not> u_IsSealed (r_seal R)" "r_trace req \<noteq> ''''"
    using assms(1) by (auto simp: admitted_def)
  have "authAndSeal (e_unicode E) action next req R r = next (as_policy p req) R r"
    using a ok assms(2) by (auto simp: authAndSeal_def requireUnsealedV1_def RequireAuth_def as_policy_def Let_def)
  with assms(3,4) ok show ?thesis
    by (auto simp: auditMiddleware_def recovered_def)
qed

text \<open>
  MACs are not confined to a role's keys: whoever may use the action GenerateMac gets
  the MAC of any message under any symmetric key of the store, whatever key patterns the policy has.
\<close>

theorem mac_any_key:
  assumes "admitted E ''GenerateMac'' p req R" "r_path req = ''/api/v1/mac/generate''" "r_method req = ''POST''"
    "r_body req = Some b" "dec_sign (e_codec E) b = Some \<lparr>sign_KeyID = k, sign_Data = msg\<rparr>" "k \<noteq> ''''"
    "GetActiveKey (r_now req) k (r_manager R) = (Inr meta, m)" "isSymmetricKey (KeyType meta)"
    "u_KEKRef (r_seal R) = Inr kek" "UnwrapDEK (e_prims E) kek (EncryptedMaterial meta) = Inr dek" "\<not> destroyed dek"
  shows "\<exists>R'. mux E req R r =
    (writeJSONOK (JObj [(''mac'', JBytes (hmac256 (e_hashes E) (sb_data dek) msg)), (''version'', JInt (Version meta))]), R', r)"
proof -
  let ?ok = "writeJSONOK (JObj [(''mac'', JBytes (hmac256 (e_hashes E) (sb_data dek) msg)), (''version'', JInt (Version meta))])"
  have h: "handleV1GenerateMac E (as_policy p req) R r = (?ok, set_manager m R, r)"
    using assms(3-11) by (simp add: handleV1GenerateMac_def requireMethod_def with_body_def mac_body_def mac_key_def set_manager_def WithKey_def Let_def)
  have "auditLog (core (set_manager m R)) \<noteq> None" using assms(1) by (simp add: admitted_def set_manager_def)
  with admitted_runs [OF assms(1), of "handleV1GenerateMac E" r] h
  obtain R' where "auditMiddleware ''GenerateMac'' (authAndSeal (e_unicode E) ''GenerateMac'' (handleV1GenerateMac E)) req R r = (?ok, R', r)"
    by (fastforce simp: writeJSONOK_def extractKeyIDFromPath_def has_prefix_def assms(2))
  with assms(2) show ?thesis by (auto simp: mux_def routes_def Let_def)
qed

lemma no_route_below_keys:
  assumes "CHR ''/'' \<in> set rest"
  shows "map_of (routes E R) (''/api/v1/keys/'' @ rest) = None"
proof -
  have "rest \<noteq> x" if "CHR ''/'' \<notin> set x" for x using assms that by blast
  from this [of "''transit-pub''"] this [of "''import''"] this [of "''gdk-no-plaintext''"] this [of "''public-key''"] this [of "''asymmetric''"]
  show ?thesis by (simp add: routes_def Let_def)
qed

lemma split_key_path:
  assumes "CHR ''/'' \<notin> set k"
  shows "takeWhile (\<lambda>c. c \<noteq> CHR ''/'') (k @ CHR ''/'' # rest) = k" "dropWhile (\<lambda>c. c \<noteq> CHR ''/'') (k @ CHR ''/'' # rest) = CHR ''/'' # rest"
  using assms by (induction k) auto

text \<open>
  Property C29. Tenants are not separated on the paths below \<^verbatim>\<open>/api/v1/keys/\<close>: a role of one tenant
  with the key pattern \<open>*\<close> shreds a version of another tenant's key by writing the other tenant's
  prefix into the path.
\<close>

theorem tenant_escape:
  assumes "admitted E ''KeyOp'' p req R" "AllowedKeys p = [''*'']" "TenantID p = t" "u \<noteq> t" "u \<noteq> ''''"
    "CHR ''/'' \<notin> set (ScopedKeyID u k)" "r_path req = ''/api/v1/keys/'' @ ScopedKeyID u k @ ''/shred''" "r_method req = ''DELETE''"
    "r_body req = Some b" "dec_version (e_codec E) b = Some v" "1 \<le> v"
    "ShredKey (cancelled (r_call req)) (ScopedKeyID u k) v (r_manager R) = (Inr (), m)"
  shows "\<exists>j R'. mux E req R r = (writeJSONOK j, R', r) \<and> r_manager R' = m"
proof -
  let ?key = "ScopedKeyID u k"
  let ?ok = "JObj [(''key_id'', JString ?key), (''version'', JInt v), (''shred'', JBool True)]"
  have key: "extractKeyIDFromPath (r_path req) = ?key"
    using split_key_path(1) [OF assms(6), of "''shred''"] assms(7) by (simp add: extractKeyIDFromPath_def has_prefix_def)
  have ne: "?key \<noteq> ''''" using assms(5) by (simp add: ScopedKeyID_def)
  have "matchPattern ''*'' ?key" by (simp add: matchPattern_def)
  then have allowed: "IsKeyAllowed p ?key" using assms(2) by (simp add: IsKeyAllowed_def)
  have ops: "handleKeyOps E (as_policy p req) R r = (writeJSONOK ?ok, set_manager m R, r)"
    using assms(7-12) split_key_path [OF assms(6), of "''shred''"] ne
    by (simp add: handleKeyOps_def has_prefix_def requireMethod_def handleShredKey_def version_op_def with_body_def Let_def)
  have "auditLog (core (set_manager m R)) \<noteq> None" using assms(1) by (simp add: admitted_def set_manager_def)
  with admitted_runs [OF assms(1), of "handleKeyOps E" r] ops allowed key
  obtain log where "auditMiddleware ''KeyOp'' (authAndSeal (e_unicode E) ''KeyOp'' (handleKeyOps E)) req R r =
      (writeJSONOK ?ok, (set_manager m R)\<lparr>core := (core (set_manager m R))\<lparr>auditLog := Some log\<rparr>\<rparr>, r)"
    by (fastforce simp: writeJSONOK_def)
  moreover have "map_of (routes E R) (r_path req) = None" unfolding assms(7) by (rule no_route_below_keys) simp
  ultimately show ?thesis using assms(7) by (auto simp: mux_def has_prefix_def set_manager_def)
qed

section \<open>Second factor and quorum\<close>


text \<open>
  The second factor does not protect against a stolen token: whoever holds the token of a role
  replaces the secret of an enabled second factor (the answer shows the new one), confirms it with
  the code computed from it, and passes the gate with that code.
\<close>

theorem mfa_rebind:
  assumes "totp_lib_ok (e_totp E)" "PolicyFromContext (r_ctx req) = Some p" "RoleID p \<noteq> ''''" "mfaStore R = Some ms"
    "GenerateTOTPSecret (e_totp E) r = (Inr secret, r1)" "30 \<le> Unix (r_now req)" "Unix (r_now req) < 2 ^ 62"
    "GenerateTOTP (e_totp E) secret (r_now req) (r_now req) = Inr otp"
    "action \<in> set sensitiveOperations" "RequireQuorum p = 0" "RequireMFA p" "r_header req ''X-MFA-Code'' = otp"
  shows "\<exists>resp R1 j R2. mfa_setup_body E (RoleID p) req R r = (resp, R1, r1)
    \<and> resp = writeJSONOK (JObj [(''secret'', JString secret), (''uri'', JString (BuildTOTPURI (e_totp E) ''Yvonne KMS'' (RoleID p) secret)),
        (''issuer'', JString ''Yvonne KMS''), (''account'', JString (RoleID p))])
    \<and> mfa_checked E ''mfa not setup, call setup first'' (\<lambda>st. SaveMFAState (st\<lparr>Enabled := True, VerifiedAt := r_now req\<rparr>)) True
        (RoleID p, otp) req R1 r1 = (writeJSONOK j, R2, r1)
    \<and> mfaMiddleware (e_totp E) action next req R2 r1 = next req R2 r1"
proof -
  obtain key where secret: "secret = b32_encode (e_totp E) key"
    using assms(5) by (auto simp: GenerateTOTPSecret_def split: prod.splits sum.splits)
  then have dec: "b32_decode (e_totp E) (ToUpper (e_totp E) secret) = Some key" using assms(1) by (simp add: totp_lib_ok_def)
  have t0: "r_now req \<noteq> 0" using assms(6) by (auto simp: Unix_def)
  have "Unix (r_now req) < 2 ^ 63" using assms(7) by simp
  then have "otp = hotp (e_totp E) key (word_of_int (Unix (r_now req) div 30 + 0))"
    using GenerateTOTP_counter [OF dec t0, of "r_now req"] assms(6,8) by simp
  then have ok: "totp_ok (e_totp E) secret otp (r_now req)"
    using ValidateTOTP_nil [OF dec, of "r_now req" otp "()"] assms(6) by (auto simp: totp_ok_def)
  have ne: "otp \<noteq> ''''" using \<open>otp = _\<close> hotp_length [of "e_totp E" key] by (metis list.size(3) zero_neq_numeral)
  show ?thesis
    using assms(2-5,9-12) ok ne
    by (simp add: mfa_setup_body_def mfa_checked_def GetMFAState_def SaveMFAState_def mfaMiddleware_def quorum_check_def Let_def) blast
qed

section \<open>A router for witnesses\<close>

definition toy_codec :: codec where
  "toy_codec = \<lparr>dec_encrypt = (\<lambda>_. None), dec_decrypt = (\<lambda>_. None), dec_create = (\<lambda>_. None), dec_version = (\<lambda>_. Some 1),
     dec_asym = (\<lambda>_. None), dec_sign = (\<lambda>b. Some \<lparr>sign_KeyID = ''k'', sign_Data = b\<rparr>), dec_verify = (\<lambda>_. None),
     dec_verifyMac = (\<lambda>_. None), dec_reEncrypt = (\<lambda>_. None), dec_share = Some, dec_panic = (\<lambda>_. None), dec_import = (\<lambda>_. None),
     dec_role = Some \<circ> string_of, dec_role_code = (\<lambda>_. None), dec_approval = (\<lambda>_. None), dec_ticket = Some \<circ> string_of, dec_query = (\<lambda>_. None)\<rparr>"

definition toy_env :: "(key_kind, key_kind) env" where
  "toy_env = \<lparr>e_prims = toy_prims, e_unicode = toy_unicode,
     e_hashes = \<lparr>sha256 = id, hmac256 = (@), sm2_sign = (\<lambda>k m r. (Inr m, r)), sm2_verify = (\<lambda>k m s. Inr True)\<rparr>,
     e_pki = toy_pki, e_gmsm = False, e_SM2 = (\<lambda>r. (Inl (Msg ''sm2''), r)), e_oaep = toy_oaep, e_totp = toy_totp, e_codec = toy_codec,
     e_base64 = Some \<circ> bytes_of, e_rfc3339 = (\<lambda>_. None), e_audit_json = toy_json, e_sha = toy_hash, e_sort = toy_sort\<rparr>"

definition toy_policy :: Policy where
  "toy_policy = \<lparr>RoleID = ''ops'', AllowedKeys = [''*''], AllowedActions = [''KeyOp'', ''GenerateMac''],
     RequireMFA = True, RequireQuorum = 2, ApproverRoles = [], TenantID = ''a''\<rparr>"

definition toy_router :: "Manager \<Rightarrow> Policy \<Rightarrow> V1Router" where
  "toy_router m p = \<lparr>core = NewCore m toy_vault (Some []),
     authenticator = Some (\<lambda>token. if token = ''tok'' then Inr p else Inl ErrUnauthorized), r_adminToken = ''root'',
     transitMgr = toy_transit,
     mfaStore = Some [(''ops'', \<lparr>mfa_RoleID = ''ops'', Secret = ''s'', Enabled = True, mfa_CreatedAt = 1, VerifiedAt = 1\<rparr>)],
     approvalStore = Some [(''t'', toy_vote2)], auditDir = ''/var'', r_logger = None\<rparr>"

definition toy_request :: "string \<Rightarrow> string \<Rightarrow> string \<Rightarrow> request" where
  "toy_request method path token = \<lparr>r_method = method, r_path = path, r_query = (\<lambda>_. []),
     r_header = (\<lambda>h. if h = ''Authorization'' then ''Bearer '' @ token else if h = ''X-Approval-Ticket-ID'' then ''t''
        else if h = ''X-MFA-Code'' then ''000003'' else []),
     r_body = Some [7], r_remote = ''10.0.0.1'', r_trace = ''trace'', r_clock = (\<lambda>_. 0), r_call = toy_call\<rparr>"

lemma toy_tokens:
  "ExtractBearerToken toy_unicode ''Bearer tok'' = Inr ''tok''" "ExtractBearerToken toy_unicode ''Bearer bad'' = Inr ''bad''"
  by code_simp+


lemma toy_admitted:
  assumes "AllowedActions p = AllowedActions toy_policy" "action \<in> {''KeyOp'', ''GenerateMac''}"
  shows "admitted toy_env action p (toy_request method path ''tok'') (toy_router m p)"
proof -
  have "IsActionAllowed toy_unicode p action"
    using assms by (auto simp: toy_policy_def IsActionAllowed_def ascii_def fold_byte_def code_def)
  moreover have "ExtractBearerToken toy_unicode (r_header (toy_request method path ''tok'') ''Authorization'') = Inr ''tok''"
    using toy_tokens by (simp add: toy_request_def)
  ultimately show ?thesis using toy_vault
    by (simp add: admitted_def toy_env_def toy_router_def NewCore_def) (simp add: toy_request_def)
qed

theorem mac_any_key_witness:
  "\<exists>R'. mux toy_env (toy_request ''POST'' ''/api/v1/mac/generate'' ''tok'') (toy_router toy_m1 (toy_policy\<lparr>AllowedKeys := []\<rparr>)) zero_source =
     (writeJSONOK (JObj [(''mac'', JBytes (sb_data toy_dek @ [7])), (''version'', JInt 1)]), R', zero_source)"
proof -
  let ?p = "toy_policy\<lparr>AllowedKeys := []\<rparr>"
  let ?R = "toy_router toy_m1 ?p" and ?req = "toy_request ''POST'' ''/api/v1/mac/generate'' ''tok''"
  have adm: "admitted toy_env ''GenerateMac'' ?p ?req ?R" by (rule toy_admitted) simp_all
  have req: "r_path ?req = ''/api/v1/mac/generate''" "r_method ?req = ''POST''" "r_body ?req = Some [7]" "r_now ?req = 9"
    by (simp_all add: toy_request_def toy_call_def)
  have R: "r_manager ?R = toy_m1" "r_seal ?R = toy_vault" by (simp_all add: toy_router_def NewCore_def)
  have E: "dec_sign (e_codec toy_env) [7] = Some \<lparr>sign_KeyID = ''k'', sign_Data = [7]\<rparr>" "e_prims toy_env = toy_prims"
    "hmac256 (e_hashes toy_env) = (@)" by (simp_all add: toy_env_def toy_codec_def)
  have meta: "isSymmetricKey (KeyType toy_meta)" "Version toy_meta = 1"
    by (simp_all add: toy_meta_def create_meta_def isSymmetricKey_def)
  have "\<not> destroyed toy_dek" by (simp add: toy_dek_def)
  with mac_any_key [OF adm req(1-3) E(1), of toy_meta _ toy_kek toy_dek zero_source, unfolded req(4) R E(2,3), OF _ toy_active meta(1) toy_vault(1) toy_unwrap]
  show ?thesis by (simp add: meta)
qed

definition toy_tenant_b :: Manager where
  "toy_tenant_b = toy_m0\<lparr>store := Mem \<lparr>data = [(metadataKey ''b:k'' 1, Doc (DMeta (toy_meta\<lparr>KeyID := ''b:k''\<rparr>))), (latestVersionMetadataKey ''b:k'', Doc (DInt 1))]\<rparr>\<rparr>"

theorem tenant_escape_witness:
  "\<exists>j R'. mux toy_env (toy_request ''DELETE'' ''/api/v1/keys/b:k/shred'' ''tok'') (toy_router toy_tenant_b toy_policy) zero_source =
     (writeJSONOK j, R', zero_source) \<and> TenantID toy_policy = ''a'' \<and> ScopedKeyID ''b'' ''k'' = ''b:k''
     \<and> ShredKey None ''b:k'' 1 toy_tenant_b = (Inr (), r_manager R')"
proof -
  let ?R = "toy_router toy_tenant_b toy_policy" and ?req = "toy_request ''DELETE'' ''/api/v1/keys/b:k/shred'' ''tok''"
  have adm: "admitted toy_env ''KeyOp'' toy_policy ?req ?R" by (rule toy_admitted) simp_all
  have req: "r_path ?req = ''/api/v1/keys/'' @ ScopedKeyID ''b'' ''k'' @ ''/shred''" "r_method ?req = ''DELETE''" "r_body ?req = Some [7]"
    and call: "cancelled (r_call ?req) = None"
    by (simp_all add: toy_request_def toy_call_def ScopedKeyID_def)
  have p: "AllowedKeys toy_policy = [''*'']" "TenantID toy_policy = ''a''" by (simp_all add: toy_policy_def)
  have R: "r_manager ?R = toy_tenant_b" by (simp add: toy_router_def NewCore_def)
  have key: "ScopedKeyID ''b'' ''k'' = ''b:k''" by (simp add: ScopedKeyID_def)
  have "\<exists>m. ShredKey None ''b:k'' 1 toy_tenant_b = (Inr (), m)"
    by (simp add: ShredKey_def toy_tenant_b_def mem_WithTx_def shred_tx_def tx_read_def memTx_GetForUpdate_def memTx_Get_def
        memTx_Put_def memTx_Delete_def Let_def)
  then obtain m where m: "ShredKey (cancelled (r_call ?req)) (ScopedKeyID ''b'' ''k'') 1 (r_manager ?R) = (Inr (), m)"
    unfolding call key R by blast
  have "CHR ''/'' \<notin> set (ScopedKeyID ''b'' ''k'')" "dec_version (e_codec toy_env) [7] = Some 1"
    by (simp_all add: key toy_env_def toy_codec_def)
  from tenant_escape [OF adm p _ _ this(1) req this(2) _ m, of zero_source] m[unfolded call key R] p(2) key show ?thesis by auto
qed

definition toy_sensitive :: request where
  "toy_sensitive = (toy_request ''DELETE'' [] ''tok'')\<lparr>r_call := toy_call\<lparr>at := 62135596860 * second,
     cvalues := WithPolicy (cvalues toy_call) toy_policy\<rparr>\<rparr>"


end
