(* ===== verification/LocalPki.thy ===== *)
theory LocalPki
  imports Vault KVStore Asymmetric
begin

text \<open>
  \<^verbatim>\<open>internal/seal/local_pki.go\<close>: unsealing with a local RSA private key. The master key is
  stored encrypted under the public key; at start-up the private key is read from a PEM file, the
  master key decrypted and given to the vault, and the file removed. RSA-OAEP and the PKCS#1
  codecs are the parameter \<open>rsa_lib\<close>, beside the codecs of \<open>pki\<close>; the file system is a
  map from paths to contents with a set of paths that cannot be removed.
\<close>

definition WrappedMasterKeyKey :: string where "WrappedMasterKeyKey = ''master-key-wrapped''"

definition oaep_label :: bytes where "oaep_label = map (\<lambda>c. word_of_nat (of_char c)) ''yvonne-master-key''"

record ('k, 'p) rsa_lib =
  MarshalPKCS1PrivateKey :: "'k \<Rightarrow> bytes"
  ParsePKCS1PrivateKey :: "bytes \<Rightarrow> 'k res"
  MarshalPKCS1PublicKey :: "'p \<Rightarrow> bytes"
  ParsePKCS1PublicKey :: "bytes \<Rightarrow> 'p res"
  EncryptOAEP :: "'p \<Rightarrow> bytes \<Rightarrow> bytes \<Rightarrow> csprng \<Rightarrow> bytes res \<times> csprng"
  DecryptOAEP :: "'k \<Rightarrow> bytes \<Rightarrow> bytes \<Rightarrow> bytes res"

record pem_dir =
  pem_files :: "string \<rightharpoonup> bytes"
  unremovable :: "string \<Rightarrow> bool"

section \<open>Operations\<close>

text \<open>The PEM block of a key: no empty input, a block, nothing behind it.\<close>

definition single_block :: "('k, 'p) pki \<Rightarrow> string \<Rightarrow> string \<Rightarrow> string \<Rightarrow> bytes \<Rightarrow> (string \<times> bytes) res" where
  "single_block L noData none trailing pemBytes =
     (if pemBytes = [] then Inl (Msg noData)
      else case pem_Decode L pemBytes of
          None \<Rightarrow> Inl (Msg none)
        | Some (typ, block, rest) \<Rightarrow> if rest \<noteq> [] then Inl (Msg trailing) else Inr (typ, block))"

definition parse_unseal_key :: "('k, 'p) pki \<Rightarrow> ('k, 'p) rsa_lib \<Rightarrow> bytes \<Rightarrow> 'k res" where
  "parse_unseal_key L R pemBytes =
     bindR (single_block L ''local_pki: empty PEM data'' ''local_pki: no PEM block found in private key data''
         ''local_pki: trailing data after private key PEM block'' pemBytes) (\<lambda>(typ, block).
     bindR (if typ = ''RSA PRIVATE KEY'' then wrapR ''local_pki: parse private key'' (ParsePKCS1PrivateKey R block)
            else if typ = ''PRIVATE KEY'' then
              wrapR ''local_pki: parse private key'' (bindR (ParsePKCS8 L block) (\<lambda>key.
                case priv_kind L key of RSA bits \<Rightarrow> Inr key | _ \<Rightarrow> Inl (Msg ''local_pki: not an RSA private key'')))
            else Inl (Msg ''local_pki: unsupported PEM type'')) (\<lambda>key.
       case priv_kind L key of
         RSA bits \<Rightarrow> if bits < 2048 then Inl (Msg ''local_pki: RSA key too short, need at least 2048'') else Inr key
       | _ \<Rightarrow> Inl (Msg ''local_pki: not an RSA private key'')))"

text \<open>\<open>enc\<close> gives the bytes of a document, should one be stored under the key.\<close>

definition val_bytes :: "('d \<Rightarrow> bytes) \<Rightarrow> 'd val \<Rightarrow> bytes" where
  "val_bytes enc v = (case v of Raw b \<Rightarrow> b | Doc d \<Rightarrow> enc d)"

definition unwrap_stored ::
  "('d \<Rightarrow> bytes) \<Rightarrow> ('k, 'p) rsa_lib \<Rightarrow> 'k \<Rightarrow> 'd KVStore \<Rightarrow> bytes res \<times> 'd KVStore" where
  "unwrap_stored enc R key s =
     (case store_Get WrappedMasterKeyKey s of
        (Inl e, s1) \<Rightarrow> (Inl (Wrap ''local_pki: read wrapped master key'' e), s1)
      | (Inr v, s1) \<Rightarrow>
          if val_bytes enc v = [] then (Inl (Msg ''local_pki: wrapped master key is empty''), s1)
          else (wrapR ''local_pki: RSA decrypt failed'' (DecryptOAEP R key oaep_label (val_bytes enc v)), s1))"

text \<open>The deferred removal of the file runs only when the vault was unsealed, and turns success
  into an error when it fails.\<close>

definition remove_pem :: "string \<Rightarrow> pem_dir \<Rightarrow> err option \<times> pem_dir" where
  "remove_pem path d =
     (if unremovable d path then (Some (Msg ''local_pki: CRITICAL failed to delete PEM file after unseal''), d)
      else (None, d\<lparr>pem_files := (pem_files d)(path := None)\<rparr>))"

definition AutoUnseal ::
  "('d \<Rightarrow> bytes) \<Rightarrow> ('k, 'p) pki \<Rightarrow> ('k, 'p) rsa_lib \<Rightarrow> string \<Rightarrow> pem_dir \<Rightarrow> 'w VaultState \<Rightarrow> 'd KVStore \<Rightarrow>
   err option \<times> pem_dir \<times> 'w VaultState \<times> 'd KVStore" where
  "AutoUnseal enc L R pemPath d v s =
     (case pem_files d pemPath of
        None \<Rightarrow> (Some (Wrap ''local_pki: read pem file'' (Msg ''no such file or directory'')), d, v, s)
      | Some pemBytes \<Rightarrow>
          (case parse_unseal_key L R pemBytes of
             Inl e \<Rightarrow> (Some e, d, v, s)
           | Inr key \<Rightarrow>
               (case unwrap_stored enc R key s of
                  (Inl e, s1) \<Rightarrow> (Some e, d, v, s1)
                | (Inr decrypted, s1) \<Rightarrow>
                    (case DirectUnseal (Some (fst (NewSecureBuffer decrypted))) v of
                       (Some e, v1) \<Rightarrow> (Some (Wrap ''local_pki: direct unseal failed'' e), d, v1, s1)
                     | (None, v1) \<Rightarrow> (case remove_pem pemPath d of (e, d1) \<Rightarrow> (e, d1, v1, s1))))))"

definition GenerateUnsealKeyPair ::
  "('k, 'p) pki \<Rightarrow> ('k, 'p) rsa_lib \<Rightarrow> csprng \<Rightarrow> (bytes \<times> bytes) res \<times> csprng" where
  "GenerateUnsealKeyPair L R r =
     (case rsa_GenerateKey L 4096 r of
        (Inl e, r1) \<Rightarrow> (Inl (Wrap ''generate RSA-4096 key pair'' e), r1)
      | (Inr key, r1) \<Rightarrow>
          (Inr (pem_Encode L ''RSA PRIVATE KEY'' (MarshalPKCS1PrivateKey R key),
                pem_Encode L ''RSA PUBLIC KEY'' (MarshalPKCS1PublicKey R (public_of L key))), r1))"

definition parse_wrapping_key :: "('k, 'p) pki \<Rightarrow> ('k, 'p) rsa_lib \<Rightarrow> bytes \<Rightarrow> 'p res" where
  "parse_wrapping_key L R publicKeyPEM =
     bindR (single_block L ''local_pki: empty public key PEM data'' ''local_pki: no PEM block found in public key data''
         ''local_pki: trailing data after public key PEM block'' publicKeyPEM) (\<lambda>(typ, block).
       if typ = ''RSA PUBLIC KEY'' then wrapR ''local_pki: parse PKCS1 public key'' (ParsePKCS1PublicKey R block)
       else if typ = ''PUBLIC KEY'' then
         bindR (wrapR ''local_pki: parse PKIX public key'' (ParsePKIX L block)) (\<lambda>key.
           case pub_kind L key of RSA bits \<Rightarrow> Inr key | _ \<Rightarrow> Inl (Msg ''local_pki: not an RSA public key''))
       else Inl (Msg ''local_pki: unsupported public key PEM type''))"

definition EncryptMasterKeyWithPublicKey ::
  "('k, 'p) pki \<Rightarrow> ('k, 'p) rsa_lib \<Rightarrow> bytes \<Rightarrow> SecureBuffer \<Rightarrow> csprng \<Rightarrow> bytes res \<times> csprng" where
  "EncryptMasterKeyWithPublicKey L R publicKeyPEM mk r =
     (case parse_wrapping_key L R publicKeyPEM of
        Inl e \<Rightarrow> (Inl e, r)
      | Inr pub \<Rightarrow>
          if destroyed mk then (Inl (Panic ''FATAL: Use after free in SecureBuffer''), r)
          else (case EncryptOAEP R pub oaep_label (sb_data mk) r of
                  (c, r1) \<Rightarrow> (wrapR ''local_pki: RSA encrypt master key'' c, r1)))"

section \<open>What is relied on\<close>

text \<open>A generated key is an RSA key of the requested length, PEM and PKCS#1 encodings are read back,
  and a ciphertext under a public key is not empty and decrypts under the private key with the
  same label.\<close>

definition rsa_ok :: "('k, 'p) pki \<Rightarrow> ('k, 'p) rsa_lib \<Rightarrow> bool" where
  "rsa_ok L R \<longleftrightarrow>
     (\<forall>bits r k r'. rsa_GenerateKey L bits r = (Inr k, r') \<longrightarrow> priv_kind L k = RSA bits) \<and>
     (\<forall>typ \<in> {''RSA PRIVATE KEY'', ''RSA PUBLIC KEY''}. \<forall>b. pem_Encode L typ b \<noteq> [] \<and>
        pem_Decode L (pem_Encode L typ b) = Some (typ, b, [])) \<and>
     (\<forall>k. ParsePKCS1PrivateKey R (MarshalPKCS1PrivateKey R k) = Inr k) \<and>
     (\<forall>p. ParsePKCS1PublicKey R (MarshalPKCS1PublicKey R p) = Inr p) \<and>
     (\<forall>k l m r c r'. EncryptOAEP R (public_of L k) l m r = (Inr c, r') \<longrightarrow> c \<noteq> [] \<and> DecryptOAEP R k l c = Inr m)"

section \<open>Unsealing with the generated pair\<close>

lemma GenerateUnsealKeyPair_Inr:
  assumes "rsa_ok L R" "GenerateUnsealKeyPair L R r = (Inr (priv, pub), r')"
  obtains key where "parse_unseal_key L R priv = Inr key" "parse_wrapping_key L R pub = Inr (public_of L key)"
proof -
  from assms(2) obtain key where gen: "rsa_GenerateKey L 4096 r = (Inr key, r')"
    and pems: "priv = pem_Encode L ''RSA PRIVATE KEY'' (MarshalPKCS1PrivateKey R key)"
      "pub = pem_Encode L ''RSA PUBLIC KEY'' (MarshalPKCS1PublicKey R (public_of L key))"
    by (auto simp: GenerateUnsealKeyPair_def split: prod.splits sum.splits)
  from assms(1) gen have kind: "priv_kind L key = RSA 4096" by (auto simp: rsa_ok_def)
  have "parse_unseal_key L R priv = Inr key" "parse_wrapping_key L R pub = Inr (public_of L key)"
    using assms(1) kind
    by (auto simp: pems rsa_ok_def parse_unseal_key_def parse_wrapping_key_def single_block_def)
  then show thesis by (rule that)
qed

text \<open>A master key wrapped under the pair's public key is what the private key unwraps.\<close>

lemma unwrap_wrapped:
  assumes ok: "rsa_ok L R" "GenerateUnsealKeyPair L R r0 = (Inr (priv, pub), r1)"
    and wrap: "EncryptMasterKeyWithPublicKey L R pub mk r = (Inr wrapped, r')"
    and stored: "store_Get WrappedMasterKeyKey s = (Inr (Raw wrapped), s')"
  shows "\<exists>key. parse_unseal_key L R priv = Inr key \<and> unwrap_stored enc R key s = (Inr (sb_data mk), s')"
proof -
  from ok obtain key where key: "parse_unseal_key L R priv = Inr key" "parse_wrapping_key L R pub = Inr (public_of L key)"
    by (rule GenerateUnsealKeyPair_Inr)
  from wrap key(2) have "EncryptOAEP R (public_of L key) oaep_label (sb_data mk) r = (Inr wrapped, r')"
    by (auto simp: EncryptMasterKeyWithPublicKey_def split: if_splits prod.splits)
  with ok(1) have "wrapped \<noteq> []" "DecryptOAEP R key oaep_label wrapped = Inr (sb_data mk)"
    unfolding rsa_ok_def by blast+
  with key(1) stored show ?thesis by (simp add: unwrap_stored_def val_bytes_def)
qed

lemma AutoUnseal_wrapped:
  assumes ok: "rsa_ok L R" "GenerateUnsealKeyPair L R r0 = (Inr (priv, pub), r1)"
    and wrap: "EncryptMasterKeyWithPublicKey L R pub mk r = (Inr wrapped, r')"
    and stored: "store_Get WrappedMasterKeyKey s = (Inr (Raw wrapped), s')"
    and pem: "pem_files d path = Some priv" "\<not> unremovable d path"
    and sealed: "vstate v \<noteq> StateUnsealed" "\<not> emergencySealed v"
  shows "AutoUnseal enc L R path d v s =
    (None, d\<lparr>pem_files := (pem_files d)(path := None)\<rparr>,
     enter_unsealed \<lparr>sb_data = sb_data mk, destroyed = False\<rparr> v, s')"
proof -
  from unwrap_wrapped [OF ok wrap stored, of enc] obtain key where
    "parse_unseal_key L R priv = Inr key" "unwrap_stored enc R key s = (Inr (sb_data mk), s')" by blast
  with pem sealed show ?thesis
    by (simp add: AutoUnseal_def DirectUnseal_def remove_pem_def NewSecureBuffer_def)
qed

text \<open>On every outcome the private-key file and the seal state go together: after success the file
  is gone and the vault open, after a failure the file is still there, and the vault is as it was
  unless the removal was what failed.\<close>

theorem auto_unseal_outcomes:
  assumes "AutoUnseal enc L R path d v s = (e, d', v', s')"
  shows "e = None \<Longrightarrow> vstate v' = StateUnsealed \<and> pem_files d' path = None"
    and "e \<noteq> None \<Longrightarrow> d' = d"
    and "e \<noteq> None \<Longrightarrow> \<not> unremovable d path \<Longrightarrow> v' = v"
    and "vstate v = StateUnsealed \<or> emergencySealed v \<Longrightarrow> e \<noteq> None \<and> v' = v"
  using assms
  by (auto simp: AutoUnseal_def DirectUnseal_def remove_pem_def enter_unsealed_def Let_def
      split: option.splits sum.splits prod.splits if_splits)

end
