(* ===== verification/JwtAuth.thy ===== *)
theory JwtAuth
  imports Auth Asymmetric
begin

text \<open>
  \<^verbatim>\<open>internal/auth/jwt_authenticator.go\<close>, \<^verbatim>\<open>jwt_sm2.go\<close> (its key loader) and
  \<^verbatim>\<open>k8s_authenticator.go\<close>: authentication by signed tokens. The package
  \<^verbatim>\<open>golang-jwt\<close> is the parameter \<open>jwt_lib\<close>: parsing under a list of options and a
  key function, and the accessors of the claims. \<open>jwt_ok\<close> states what its documentation
  promises of a token that is parsed without an error. Files and the X.509 and PEM codecs are
  parameters too.
\<close>

section \<open>The token library\<close>

text \<open>Decoded claims: a JSON value, numbers kept as the text \<^verbatim>\<open>fmt.Sprintf("%v")\<close> prints
  for the decoded \<^verbatim>\<open>float64\<close>.\<close>

datatype claim =
    CStr string | CNum string | CBool bool | CNull
  | CArr "claim list" | CObj "(string \<times> claim) list"

type_synonym MapClaims = "(string \<times> claim) list"

record ParserOptions =
  ValidMethods :: "string list"
  ExpirationRequired :: bool
  expectedIssuer :: "string option"
  expectedAudience :: "string option"

record 'c Token =
  tok_alg :: string
  tok_claims :: 'c
  tok_valid :: bool

record ('v, 'c) jwt_lib =
  jwt_Parse :: "ParserOptions \<Rightarrow> ('c Token \<Rightarrow> 'v res) \<Rightarrow> time \<Rightarrow> string \<Rightarrow> 'c Token option res"
  GetExpirationTime :: "'c \<Rightarrow> time option res"
  GetNotBefore :: "'c \<Rightarrow> time option res"
  GetIssuer :: "'c \<Rightarrow> string res"
  GetAudience :: "'c \<Rightarrow> string list res"
  signature_ok :: "string \<Rightarrow> string \<Rightarrow> 'v \<Rightarrow> bool"

text \<open>
  Documented: a token parsed without an error is marked valid, its algorithm is one of the valid
  methods, its signature verifies under the key the key function gave for it, it has not expired
  and is not used before its time, an expiry is present when required, and issuer and audience
  are the expected ones.
\<close>

definition claims_ok :: "('v, 'c) jwt_lib \<Rightarrow> ParserOptions \<Rightarrow> time \<Rightarrow> 'c \<Rightarrow> bool" where
  "claims_ok J opts now c \<longleftrightarrow>
     (\<exists>e. GetExpirationTime J c = Inr e \<and>
        (case e of None \<Rightarrow> \<not> ExpirationRequired opts | Some t \<Rightarrow> now < t)) \<and>
     (\<exists>n. GetNotBefore J c = Inr n \<and> (case n of None \<Rightarrow> True | Some t \<Rightarrow> t \<le> now)) \<and>
     (case expectedIssuer opts of None \<Rightarrow> True | Some i \<Rightarrow> GetIssuer J c = Inr i) \<and>
     (case expectedAudience opts of None \<Rightarrow> True
      | Some a \<Rightarrow> (\<exists>as. GetAudience J c = Inr as \<and> a \<in> set as))"

definition jwt_ok :: "('v, 'c) jwt_lib \<Rightarrow> bool" where
  "jwt_ok J \<longleftrightarrow> (\<forall>opts keyFunc now s tok. jwt_Parse J opts keyFunc now s = Inr (Some tok) \<longrightarrow>
     tok_valid tok \<and> tok_alg tok \<in> set (ValidMethods opts) \<and>
     (\<exists>key. keyFunc tok = Inr key \<and> signature_ok J s (tok_alg tok) key) \<and>
     claims_ok J opts now (tok_claims tok))"

section \<open>Policies by role\<close>

record MemoryPolicyStore =
  store_policies :: "string \<rightharpoonup> Policy"

definition NewMemoryPolicyStore :: MemoryPolicyStore where
  "NewMemoryPolicyStore = \<lparr>store_policies = Map.empty\<rparr>"

definition AddPolicy :: "Policy option \<Rightarrow> MemoryPolicyStore \<Rightarrow> MemoryPolicyStore" where
  "AddPolicy policy m =
     (case policy of None \<Rightarrow> m
      | Some p \<Rightarrow> if RoleID p \<noteq> '''' then m\<lparr>store_policies := (store_policies m)(RoleID p \<mapsto> p)\<rparr> else m)"

definition memory_LookupPolicy :: "MemoryPolicyStore \<Rightarrow> string \<Rightarrow> Policy option res" where
  "memory_LookupPolicy m roleID =
     (case store_policies m roleID of None \<Rightarrow> Inr None | Some p \<Rightarrow> Inr (Some p))"

section \<open>Loading the verification key\<close>

record JWTConfig =
  SigningMethod :: string
  Secret :: string
  VerifyingKeyPath :: string
  Issuer :: string
  Audience :: "string list"
  RoleClaim :: string

datatype 'p verify_key = PublicKey 'p | HMACKey bytes

record 'p JWTAuthenticator =
  signingMethod :: string
  verifyKey :: "'p verify_key"
  issuer :: string
  audience :: "string list"
  roleClaim :: string
  policyStore :: "string \<Rightarrow> Policy option res"

text \<open>What the loaders call: the file system, PKCS#1, and the SM2 parser, \<open>None\<close> in a build
  without it (\<^verbatim>\<open>jwt_sm2_stub.go\<close>). A signing method is identified with its
  \<^verbatim>\<open>Alg()\<close>; SM2 is registered exactly in the build that has the parser.\<close>

record 'p key_files =
  ReadFile :: "string \<Rightarrow> bytes res"
  ParsePKCS1 :: "bytes \<Rightarrow> 'p res"
  ParseSM2 :: "(bytes \<Rightarrow> 'p res) option"

definition parseSigningMethod :: "'p key_files \<Rightarrow> string \<Rightarrow> string res" where
  "parseSigningMethod F method =
     (if method \<in> set [''RS256'', ''RS384'', ''RS512'', ''ES256'', ''ES384'', ''ES512'', ''HS256'', ''HS384'', ''HS512'']
      then Inr method
      else if method = ''SM2'' then
        (if ParseSM2 F = None then Inl (Msg ''SM2 signing method not available (rebuild with -tags gmsm)'') else Inr ''SM2'')
      else Inl (Msg ''unsupported signing method''))"

definition pem_file :: "('k, 'p) pki \<Rightarrow> 'p key_files \<Rightarrow> string \<Rightarrow> string \<Rightarrow> bytes res" where
  "pem_file L F path noBlock =
     (case ReadFile F path of Inl e \<Rightarrow> Inl (Wrap ''read file'' e)
      | Inr text \<Rightarrow> (case pem_Decode L text of None \<Rightarrow> Inl (Msg noBlock)
          | Some (typ, block, rest) \<Rightarrow> Inr block))"

definition loadRSAPublicKey :: "('k, 'p) pki \<Rightarrow> 'p key_files \<Rightarrow> string \<Rightarrow> 'p res" where
  "loadRSAPublicKey L F path =
     bindR (pem_file L F path ''no PEM block found'') (\<lambda>block.
       case ParsePKIX L block of
         Inr pub \<Rightarrow> (case pub_kind L pub of RSA bits \<Rightarrow> Inr pub | _ \<Rightarrow> Inl (Msg ''not an RSA public key''))
       | Inl _ \<Rightarrow> wrapR ''parse PKIX/PKCS1'' (ParsePKCS1 F block))"

definition loadECDSAPublicKey :: "('k, 'p) pki \<Rightarrow> 'p key_files \<Rightarrow> string \<Rightarrow> 'p res" where
  "loadECDSAPublicKey L F path =
     bindR (pem_file L F path ''no PEM block found'') (\<lambda>block.
       bindR (wrapR ''parse PKIX'' (ParsePKIX L block)) (\<lambda>pub.
         case pub_kind L pub of ECDSA p256 \<Rightarrow> Inr pub | _ \<Rightarrow> Inl (Msg ''not an ECDSA public key'')))"

definition loadSM2PublicKey :: "('k, 'p) pki \<Rightarrow> 'p key_files \<Rightarrow> string \<Rightarrow> 'p res" where
  "loadSM2PublicKey L F path =
     (case ParseSM2 F of
        None \<Rightarrow> Inl (Msg ''auth: SM2 not compiled in (rebuild with -tags gmsm)'')
      | Some parse \<Rightarrow> bindR (pem_file L F path ''auth: no PEM block found'') (\<lambda>block.
          wrapR ''auth: parse SM2 public key'' (parse block)))"

definition load_public :: "string \<Rightarrow> string \<Rightarrow> string \<Rightarrow> (string \<Rightarrow> 'p res) \<Rightarrow> 'p verify_key res" where
  "load_public path missing failed load =
     (if path = '''' then Inl (Msg missing)
      else bindR (wrapR failed (load path)) (\<lambda>pub. Inr (PublicKey pub)))"

definition load_verify_key :: "('k, 'p) pki \<Rightarrow> 'p key_files \<Rightarrow> JWTConfig \<Rightarrow> 'p verify_key res" where
  "load_verify_key L F cfg =
     (let family = take 2 (SigningMethod cfg); path = VerifyingKeyPath cfg in
      if family = ''RS'' then load_public path ''auth: jwt: verifying_key_path required for RSA''
        ''auth: jwt: load RSA public key'' (loadRSAPublicKey L F)
      else if family = ''ES'' then load_public path ''auth: jwt: verifying_key_path required for ECDSA''
        ''auth: jwt: load ECDSA public key'' (loadECDSAPublicKey L F)
      else if family = ''SM'' then load_public path ''auth: jwt: verifying_key_path required for SM2''
        ''auth: jwt: load SM2 public key'' (loadSM2PublicKey L F)
      else if family = ''HS'' then
        (if Secret cfg = '''' then Inl (Msg ''auth: jwt: secret required for HMAC'')
         else Inr (HMACKey (bytes_of (Secret cfg))))
      else Inl (Msg ''auth: jwt: unsupported algorithm family''))"

definition NewJWTAuthenticator ::
  "('k, 'p) pki \<Rightarrow> 'p key_files \<Rightarrow> JWTConfig \<Rightarrow> (string \<Rightarrow> Policy option res) option \<Rightarrow> 'p JWTAuthenticator res" where
  "NewJWTAuthenticator L F cfg store =
     (if SigningMethod cfg = '''' then Inl (Msg ''auth: jwt signing_method is required'')
      else case store of None \<Rightarrow> Inl (Msg ''auth: jwt policy store is nil'')
        | Some lookup \<Rightarrow>
            bindR (wrapR ''auth: jwt'' (parseSigningMethod F (SigningMethod cfg))) (\<lambda>sm.
            bindR (load_verify_key L F cfg) (\<lambda>key.
              Inr \<lparr>signingMethod = sm, verifyKey = key, issuer = Issuer cfg, audience = Audience cfg,
                   roleClaim = (if RoleClaim cfg = '''' then ''sub'' else RoleClaim cfg),
                   policyStore = lookup\<rparr>)))"

section \<open>Roles and audiences\<close>

fun matchAudience :: "string list \<Rightarrow> string list \<Rightarrow> bool" where
  "matchAudience [] configAud = False"
| "matchAudience (t # ts) configAud = (if t \<in> set configAud then True else matchAudience ts configAud)"

text \<open>One step of the path loop; \<open>None\<close> is the early \<^verbatim>\<open>return nil\<close>, taken for a value
  that is no object, a missing field and a JSON null.\<close>

fun walk :: "string list \<Rightarrow> claim \<Rightarrow> claim option" where
  "walk [] current = Some current"
| "walk (part # parts) current =
     (case current of
        CObj object \<Rightarrow> (case map_of object part of
            None \<Rightarrow> None | Some CNull \<Rightarrow> None | Some v \<Rightarrow> walk parts v)
      | _ \<Rightarrow> None)"

fun role_items :: "claim list \<Rightarrow> string list" where
  "role_items [] = []"
| "role_items (CStr s # items) = (if s \<noteq> '''' then s # role_items items else role_items items)"
| "role_items (_ # items) = role_items items"

definition extractRoleIDs :: "MapClaims \<Rightarrow> string \<Rightarrow> string list" where
  "extractRoleIDs claims path =
     (case walk (split_char (CHR ''.'') path) (CObj claims) of
        Some (CStr s) \<Rightarrow> [s]
      | Some (CArr items) \<Rightarrow> role_items items
      | Some (CNum text) \<Rightarrow> [text]
      | _ \<Rightarrow> [])"

definition extractRoleID :: "MapClaims \<Rightarrow> string \<Rightarrow> string" where
  "extractRoleID claims path = (case extractRoleIDs claims path of [] \<Rightarrow> '''' | r # _ \<Rightarrow> r)"

fun first_policy :: "(string \<Rightarrow> Policy option res) \<Rightarrow> string list \<Rightarrow> Policy option" where
  "first_policy lookup [] = None"
| "first_policy lookup (roleID # roleIDs) =
     (case lookup roleID of Inr (Some p) \<Rightarrow> Some p | _ \<Rightarrow> first_policy lookup roleIDs)"

section \<open>Authenticate\<close>

definition jwt_options :: "'p JWTAuthenticator \<Rightarrow> ParserOptions" where
  "jwt_options a =
     \<lparr>ValidMethods = [signingMethod a], ExpirationRequired = True,
      expectedIssuer = (if issuer a \<noteq> '''' then Some (issuer a) else None),
      expectedAudience = (case audience a of [] \<Rightarrow> None | first # _ \<Rightarrow> Some first)\<rparr>"

definition jwt_keyFunc :: "'p JWTAuthenticator \<Rightarrow> 'c Token \<Rightarrow> 'p verify_key res" where
  "jwt_keyFunc a token =
     (if tok_alg token \<noteq> signingMethod a then Inl (Msg ''unexpected signing method'')
      else Inr (verifyKey a))"

definition jwt_claims_checked :: "('p verify_key, MapClaims) jwt_lib \<Rightarrow> 'p JWTAuthenticator \<Rightarrow> MapClaims \<Rightarrow> bool" where
  "jwt_claims_checked J a claims =
     ((case GetExpirationTime J claims of Inr (Some _) \<Rightarrow> True | _ \<Rightarrow> False) \<and>
      (case GetNotBefore J claims of Inr _ \<Rightarrow> True | Inl _ \<Rightarrow> False) \<and>
      (issuer a \<noteq> '''' \<longrightarrow> (case GetIssuer J claims of Inr iss \<Rightarrow> iss = issuer a | Inl _ \<Rightarrow> False)) \<and>
      (audience a \<noteq> [] \<longrightarrow>
        (case GetAudience J claims of Inr aud \<Rightarrow> matchAudience aud (audience a) | Inl _ \<Rightarrow> False)))"

definition jwt_Authenticate ::
  "('p verify_key, MapClaims) jwt_lib \<Rightarrow> 'p JWTAuthenticator \<Rightarrow> time \<Rightarrow> string \<Rightarrow> Policy res" where
  "jwt_Authenticate J a now tokenString =
     (case jwt_Parse J (jwt_options a) (jwt_keyFunc a) now tokenString of
        Inl _ \<Rightarrow> Inl ErrUnauthorized
      | Inr None \<Rightarrow> Inl ErrUnauthorized
      | Inr (Some token) \<Rightarrow>
          if \<not> tok_valid token then Inl ErrUnauthorized
          else if \<not> jwt_claims_checked J a (tok_claims token) then Inl ErrUnauthorized
          else (case extractRoleIDs (tok_claims token) (roleClaim a) of
              [] \<Rightarrow> Inl ErrUnauthorized
            | roleIDs \<Rightarrow> (case first_policy (policyStore a) roleIDs of
                None \<Rightarrow> Inl ErrUnauthorized | Some policy \<Rightarrow> Inr policy)))"

section \<open>Kubernetes service accounts\<close>

definition host_char :: "char \<Rightarrow> bool" where
  "host_char c \<longleftrightarrow> (97 \<le> code c \<and> code c \<le> 122) \<or> (65 \<le> code c \<and> code c \<le> 90) \<or>
     is_digit c \<or> c = CHR ''.'' \<or> c = CHR ''-''"

text \<open>\<^verbatim>\<open>parseIP\<close> says whether \<^verbatim>\<open>net.ParseIP\<close> accepts the text.\<close>

definition validateHost :: "(string \<Rightarrow> bool) \<Rightarrow> string \<Rightarrow> err option" where
  "validateHost parseIP host =
     (if host = '''' then Some (Msg ''empty host'')
      else if contains host ''://'' then Some (Msg ''host contains scheme'')
      else if contains host ''/'' then Some (Msg ''host contains path'')
      else if parseIP host then None
      else if \<not> list_all host_char host then Some (Msg ''host contains invalid character'')
      else None)"

record K8sRoleMapping =
  map_RoleID :: string
  map_AllowedKeys :: "string list"
  map_AllowedActions :: "string list"

record K8sAuthConfig =
  k8s_Issuer :: string
  k8s_Audience :: "string list"
  RoleMapping :: "(string \<times> K8sRoleMapping) list"
  JWKSURL :: string

record k8sSAClaims =
  sa_audience :: "string list"
  Namespace :: string
  ServiceAccountName :: string
  ServiceAccountUID :: string

type_synonym 'v keyfunc = "k8sSAClaims Token \<Rightarrow> 'v res"

text \<open>\<open>jwksKeyFunc\<close> is \<open>None\<close> when nil; \<open>jwks_running\<close> is a non-nil
  \<^verbatim>\<open>jwks\<close> whose background refresh runs.\<close>

record 'v K8sAuthenticator =
  k8s_config :: K8sAuthConfig
  jwksKeyFunc :: "'v keyfunc option"
  jwks_running :: bool
  roleMappings :: "(string \<times> Policy) list"

definition mapping_policy :: "K8sRoleMapping \<Rightarrow> Policy" where
  "mapping_policy m = \<lparr>RoleID = map_RoleID m, AllowedKeys = map_AllowedKeys m,
     AllowedActions = map_AllowedActions m, RequireMFA = False, RequireQuorum = 0,
     ApproverRoles = [], TenantID = ''''\<rparr>"

definition NewK8sAuthenticator ::
  "(string \<Rightarrow> 'v keyfunc res) \<Rightarrow> K8sAuthConfig \<Rightarrow> 'v K8sAuthenticator res" where
  "NewK8sAuthenticator keyfunc_Get cfg =
     (if k8s_Issuer cfg = '''' then Inl (Msg ''auth: k8s: issuer is required'')
      else if k8s_Audience cfg = [] then Inl (Msg ''auth: k8s: audience is required'')
      else if RoleMapping cfg = [] then Inl (Msg ''auth: k8s: role_mapping is required (at least one SA mapping)'')
      else let jwksURL = (if JWKSURL cfg = '''' then k8s_Issuer cfg @ ''/openid/v1/jwks'' else JWKSURL cfg)
           in bindR (wrapR ''auth: k8s: load JWKS'' (keyfunc_Get jwksURL)) (\<lambda>keyFunc.
                Inr \<lparr>k8s_config = cfg, jwksKeyFunc = Some keyFunc, jwks_running = True,
                     roleMappings = map (\<lambda>(sa, m). (sa, mapping_policy m)) (RoleMapping cfg)\<rparr>))"

definition NewK8sAuthenticatorWithKeyFunc ::
  "(string \<Rightarrow> 'v keyfunc res) \<Rightarrow> K8sAuthConfig \<Rightarrow> 'v keyfunc option \<Rightarrow> 'v K8sAuthenticator res" where
  "NewK8sAuthenticatorWithKeyFunc keyfunc_Get cfg keyFunc =
     (let a = (case NewK8sAuthenticator keyfunc_Get cfg of Inr a \<Rightarrow> a
         | Inl _ \<Rightarrow> \<lparr>k8s_config = cfg, jwksKeyFunc = None, jwks_running = False,
             roleMappings = map (\<lambda>(sa, m). (sa, mapping_policy m)) (RoleMapping cfg)\<rparr>)
      in Inr (a\<lparr>jwksKeyFunc := keyFunc, jwks_running := False\<rparr>))"

fun audienceMatches :: "string list \<Rightarrow> string list \<Rightarrow> bool" where
  "audienceMatches [] tokenAud = False"
| "audienceMatches (configured # cs) tokenAud =
     (if configured \<in> set tokenAud then True else audienceMatches cs tokenAud)"

definition k8s_methods :: "string list" where
  "k8s_methods = [''RS256'', ''RS384'', ''RS512'', ''ES256'', ''ES384'', ''ES512'']"

definition k8s_account :: "'v K8sAuthenticator \<Rightarrow> k8sSAClaims \<Rightarrow> Policy res" where
  "k8s_account a claims =
     (if \<not> audienceMatches (k8s_Audience (k8s_config a)) (sa_audience claims)
      then Inl (Wrap ''k8s jwt audience mismatch'' ErrUnauthorized)
      else if Namespace claims = '''' \<or> ServiceAccountName claims = ''''
      then Inl (Wrap ''k8s jwt missing namespace/serviceaccount claims'' ErrUnauthorized)
      else case map_of (roleMappings a) (Namespace claims @ '':'' @ ServiceAccountName claims) of
          None \<Rightarrow> Inl (Wrap ''k8s SA not in role_mapping'' ErrUnauthorized)
        | Some policy \<Rightarrow> Inr policy)"

definition k8s_Authenticate ::
  "('v, k8sSAClaims) jwt_lib \<Rightarrow> 'v K8sAuthenticator \<Rightarrow> time \<Rightarrow> string \<Rightarrow> Policy res" where
  "k8s_Authenticate J a now token =
     (if token = '''' then Inl ErrUnauthorized
      else case k8s_Audience (k8s_config a) of
          [] \<Rightarrow> Inl (Panic ''index out of range'')
        | first # _ \<Rightarrow>
            (case jwksKeyFunc a of
               None \<Rightarrow> Inl (Msg ''auth: k8s: JWKS key function not initialized'')
             | Some keyFunc \<Rightarrow>
                 (case jwt_Parse J \<lparr>ValidMethods = k8s_methods, ExpirationRequired = False,
                        expectedIssuer = Some (k8s_Issuer (k8s_config a)), expectedAudience = Some first\<rparr> keyFunc now token of
                    Inl e \<Rightarrow> Inl (Wrap ''k8s jwt parse'' ErrUnauthorized)
                  | Inr None \<Rightarrow> Inl (Panic ''nil pointer dereference'')
                  | Inr (Some parsed) \<Rightarrow>
                      if \<not> tok_valid parsed then Inl ErrUnauthorized
                      else k8s_account a (tok_claims parsed))))"

definition k8s_Close :: "'v K8sAuthenticator \<Rightarrow> 'v K8sAuthenticator" where
  "k8s_Close a = (if jwks_running a then a\<lparr>jwks_running := False\<rparr> else a)"

text \<open>
  \<^verbatim>\<open>FetchK8sJWKSFromAPI\<close>: the environment, the mounted files, the certificate pool and the
  exchange with the API server, which gets the URL, the bearer token and the CA bytes and answers
  with a status and a body, are parameters.
\<close>

record cluster_env =
  Getenv :: "string \<Rightarrow> string"
  mounted :: "string \<Rightarrow> bytes res"
  cert_pool_ok :: "bytes \<Rightarrow> bool"
  new_request_ok :: "string \<Rightarrow> bool"
  https_get :: "string \<Rightarrow> string \<Rightarrow> bytes \<Rightarrow> (int \<times> bytes) res"
  json_raw :: "bytes \<Rightarrow> bytes res"

definition jwks_url :: "string \<Rightarrow> string \<Rightarrow> string" where
  "jwks_url apiServer apiPort = ''https://'' @ apiServer @ '':'' @ apiPort @ ''/openid/v1/jwks''"

definition fetch_jwks :: "cluster_env \<Rightarrow> string \<Rightarrow> bytes res" where
  "fetch_jwks E url =
     bindR (wrapR ''auth: k8s: read SA token'' (mounted E ''/var/run/secrets/kubernetes.io/serviceaccount/token'')) (\<lambda>saToken.
     bindR (wrapR ''auth: k8s: read CA'' (mounted E ''/var/run/secrets/kubernetes.io/serviceaccount/ca.crt'')) (\<lambda>caCert.
       if \<not> cert_pool_ok E caCert then Inl (Msg ''auth: k8s: failed to parse CA certificate'')
       else if \<not> new_request_ok E url then Inl (Msg ''net/http: invalid request'')
       else bindR (wrapR ''auth: k8s: fetch JWKS'' (https_get E url (''Bearer '' @ string_of saToken) caCert)) (\<lambda>(status, body).
         if status \<noteq> 200 then Inl (Msg ''auth: k8s: JWKS fetch status'')
         else wrapR ''auth: k8s: decode JWKS'' (json_raw E body))))"

definition FetchK8sJWKSFromAPI :: "(string \<Rightarrow> bool) \<Rightarrow> cluster_env \<Rightarrow> bytes res" where
  "FetchK8sJWKSFromAPI parseIP E =
     (let apiServer = Getenv E ''KUBERNETES_SERVICE_HOST'' in
      if apiServer = '''' then Inl (Msg ''auth: k8s: not running in cluster (KUBERNETES_SERVICE_HOST not set)'')
      else case validateHost parseIP apiServer of
          Some e \<Rightarrow> Inl (Wrap ''auth: k8s: invalid KUBERNETES_SERVICE_HOST'' e)
        | None \<Rightarrow>
            (let port = Getenv E ''KUBERNETES_SERVICE_PORT'';
                 apiPort = (if port = '''' then ''443'' else port)
             in case Atoi apiPort of
                  Inl e \<Rightarrow> Inl (Wrap ''auth: k8s: invalid KUBERNETES_SERVICE_PORT'' e)
                | Inr _ \<Rightarrow> fetch_jwks E (jwks_url apiServer apiPort)))"


section \<open>The store's contract\<close>

text \<open>
  What an authenticator relies on: a role's policy is the one added last under its name, and a
  policy without a name is never found. Whatever is added, a role is given a policy of its own
  name only.
\<close>

locale role_store =
  fixes empty :: 's
    and add :: "Policy option \<Rightarrow> 's \<Rightarrow> 's"
    and lookup :: "'s \<Rightarrow> string \<Rightarrow> Policy option res"
  assumes lookup_empty: "lookup empty r = Inr None"
    and lookup_nil: "lookup (add None s) r = lookup s r"
    and lookup_add: "lookup (add (Some p) s) r =
      (if r \<noteq> [] \<and> RoleID p = r then Inr (Some p) else lookup s r)"
begin

definition filled :: "Policy option list \<Rightarrow> 's" where
  "filled ps = foldl (\<lambda>s p. add p s) empty ps"

lemma filled_snoc: "filled (ps @ [p]) = add p (filled ps)"
  by (simp add: filled_def)

lemma lookup_filled:
  "lookup (filled ps) r = Inr (if r = [] then None
     else find (\<lambda>p. RoleID p = r) (rev (List.map_filter id ps)))"
proof (induction ps rule: rev_induct)
  case Nil
  then show ?case by (simp add: filled_def lookup_empty List.map_filter_def)
next
  case (snoc p ps)
  then show ?case
    by (cases p) (auto simp: filled_snoc lookup_nil lookup_add List.map_filter_def)
qed

lemma own_name: "lookup (filled ps) r = Inr (Some p) \<Longrightarrow> RoleID p = r \<and> r \<noteq> []"
  by (auto simp: lookup_filled find_Some_iff split: if_splits)

end

interpretation memory_store: role_store NewMemoryPolicyStore AddPolicy memory_LookupPolicy
  by unfold_locales (auto simp: NewMemoryPolicyStore_def AddPolicy_def memory_LookupPolicy_def)

section \<open>Acceptance\<close>

lemma matchAudience_iff: "matchAudience ts cs \<longleftrightarrow> set ts \<inter> set cs \<noteq> {}"
  by (induction ts) auto

lemma audienceMatches_iff: "audienceMatches cs ts \<longleftrightarrow> set ts \<inter> set cs \<noteq> {}"
  by (induction cs) auto

lemma first_policy_split:
  "first_policy lookup rs = Some p \<longleftrightarrow>
     (\<exists>pre r post. rs = pre @ r # post \<and> lookup r = Inr (Some p) \<and>
        (\<forall>q \<in> set pre. \<nexists>p'. lookup q = Inr (Some p')))"
proof (induction rs)
  case (Cons r rs)
  show ?case
  proof (cases "\<exists>p'. lookup r = Inr (Some p')")
    case True
    then show ?thesis by (force simp: Cons_eq_append_conv)
  next
    case False
    then have step: "first_policy lookup (r # rs) = first_policy lookup rs"
      by (auto split: sum.splits option.splits)
    show ?thesis
    proof
      assume "first_policy lookup (r # rs) = Some p"
      with step Cons obtain pre q post where "rs = pre @ q # post" "lookup q = Inr (Some p)"
        "\<forall>q \<in> set pre. \<nexists>p'. lookup q = Inr (Some p')" by auto
      with False show "\<exists>pre q post. r # rs = pre @ q # post \<and> lookup q = Inr (Some p) \<and>
        (\<forall>q \<in> set pre. \<nexists>p'. lookup q = Inr (Some p'))"
        by (intro exI [of _ "r # pre"] exI [of _ q] exI [of _ post]) simp
    next
      assume "\<exists>pre q post. r # rs = pre @ q # post \<and> lookup q = Inr (Some p) \<and>
        (\<forall>q \<in> set pre. \<nexists>p'. lookup q = Inr (Some p'))"
      then obtain pre q post where split: "r # rs = pre @ q # post" "lookup q = Inr (Some p)"
        "\<forall>q \<in> set pre. \<nexists>p'. lookup q = Inr (Some p')" by blast
      with False obtain pre' where "pre = r # pre'" "rs = pre' @ q # post"
        by (cases pre) auto
      with split step Cons show "first_policy lookup (r # rs) = Some p" by auto
    qed
  qed
qed simp

lemma first_policy_exists:
  "first_policy lookup rs = None \<longleftrightarrow> (\<forall>r \<in> set rs. \<nexists>p. lookup r = Inr (Some p))"
  by (induction rs) (auto split: sum.splits option.splits)

text \<open>The constructor's choices.\<close>

lemma NewJWTAuthenticator_Inr:
  assumes "NewJWTAuthenticator L F cfg store = Inr a"
  obtains lookup key where "store = Some lookup" "load_verify_key L F cfg = Inr key"
    "a = \<lparr>signingMethod = SigningMethod cfg, verifyKey = key, issuer = Issuer cfg, audience = Audience cfg,
          roleClaim = (if RoleClaim cfg = '''' then ''sub'' else RoleClaim cfg), policyStore = lookup\<rparr>"
  using assms
  by (auto simp: NewJWTAuthenticator_def bindR_eq_Inr parseSigningMethod_def split: if_splits option.splits)

text \<open>Secret keys go with the HMAC algorithms and with no other.\<close>

lemma load_verify_key_family:
  "load_verify_key L F cfg = Inr key \<Longrightarrow>
     (case key of HMACKey b \<Rightarrow> take 2 (SigningMethod cfg) = ''HS'' \<and> b = bytes_of (Secret cfg) \<and> b \<noteq> []
      | PublicKey p \<Rightarrow> take 2 (SigningMethod cfg) \<in> {''RS'', ''ES'', ''SM''})"
  by (auto simp: load_verify_key_def load_public_def Let_def bindR_eq_Inr bytes_of_def split: if_splits)

lemma jwt_Authenticate_Inr:
  assumes "jwt_Authenticate J a now s = Inr p"
  obtains token where "jwt_Parse J (jwt_options a) (jwt_keyFunc a) now s = Inr (Some token)"
    "first_policy (policyStore a) (extractRoleIDs (tok_claims token) (roleClaim a)) = Some p"
  using assms
  by (auto simp: jwt_Authenticate_def split: sum.splits option.splits if_splits list.splits)

lemma jwt_refusal: "jwt_Authenticate J a now s = Inl e \<Longrightarrow> e = ErrUnauthorized"
  by (auto simp: jwt_Authenticate_def split: sum.splits option.splits if_splits list.splits)

lemma jwt_verified:
  assumes "jwt_ok J" "jwt_Parse J (jwt_options a) (jwt_keyFunc a) now s = Inr (Some token)"
  shows "tok_alg token = signingMethod a" "signature_ok J s (signingMethod a) (verifyKey a)"
    "claims_ok J (jwt_options a) now (tok_claims token)"
proof -
  from assms have alg: "tok_alg token \<in> set (ValidMethods (jwt_options a))"
    and key: "\<exists>key. jwt_keyFunc a token = Inr key \<and> signature_ok J s (tok_alg token) key"
    and claims: "claims_ok J (jwt_options a) now (tok_claims token)"
    unfolding jwt_ok_def by blast+
  show same: "tok_alg token = signingMethod a" using alg by (simp add: jwt_options_def)
  show "signature_ok J s (signingMethod a) (verifyKey a)" using key same by (auto simp: jwt_keyFunc_def)
  show "claims_ok J (jwt_options a) now (tok_claims token)" by (fact claims)
qed

lemma jwt_sound_parts:
  assumes "jwt_ok J" "NewJWTAuthenticator L F cfg (Some lookup) = Inr a"
  shows "\<And>p. jwt_Authenticate J a now s = Inr p \<Longrightarrow>
      \<exists>claims key pre role post.
        load_verify_key L F cfg = Inr key \<and> signature_ok J s (SigningMethod cfg) key \<and>
        (\<exists>secret. key = HMACKey secret) = (take 2 (SigningMethod cfg) = ''HS'') \<and>
        (\<exists>exp. GetExpirationTime J claims = Inr (Some exp) \<and> now < exp) \<and>
        (Issuer cfg \<noteq> '''' \<longrightarrow> GetIssuer J claims = Inr (Issuer cfg)) \<and>
        (Audience cfg \<noteq> [] \<longrightarrow> (\<exists>aud. GetAudience J claims = Inr aud \<and> hd (Audience cfg) \<in> set aud)) \<and>
        extractRoleIDs claims (roleClaim a) = pre @ role # post \<and> lookup role = Inr (Some p) \<and>
        (\<forall>r \<in> set pre. \<nexists>q. lookup r = Inr (Some q))"
    and "\<And>e. jwt_Authenticate J a now s = Inl e \<Longrightarrow> e = ErrUnauthorized"
proof -
  fix p
  assume "jwt_Authenticate J a now s = Inr p"
  then obtain token where
    parsed: "jwt_Parse J (jwt_options a) (jwt_keyFunc a) now s = Inr (Some token)" and
    found: "first_policy (policyStore a) (extractRoleIDs (tok_claims token) (roleClaim a)) = Some p"
    by (rule jwt_Authenticate_Inr)
  from assms(2) obtain key where key: "load_verify_key L F cfg = Inr key" and
    a: "signingMethod a = SigningMethod cfg" "verifyKey a = key" "issuer a = Issuer cfg"
      "audience a = Audience cfg" "policyStore a = lookup"
    by (rule NewJWTAuthenticator_Inr) simp
  note verified = jwt_verified [OF assms(1) parsed]
  have claims: "(\<exists>exp. GetExpirationTime J (tok_claims token) = Inr (Some exp) \<and> now < exp)"
    "Issuer cfg \<noteq> '''' \<longrightarrow> GetIssuer J (tok_claims token) = Inr (Issuer cfg)"
    "Audience cfg \<noteq> [] \<longrightarrow> (\<exists>aud. GetAudience J (tok_claims token) = Inr aud \<and> hd (Audience cfg) \<in> set aud)"
    using verified(3) by (auto simp: claims_ok_def jwt_options_def a split: option.splits list.splits)
  have family: "(\<exists>secret. key = HMACKey secret) = (take 2 (SigningMethod cfg) = ''HS'')"
    using load_verify_key_family [OF key] by (cases key) auto
  from found obtain pre role post where
    "extractRoleIDs (tok_claims token) (roleClaim a) = pre @ role # post" "lookup role = Inr (Some p)"
    "\<forall>r \<in> set pre. \<nexists>q. lookup r = Inr (Some q)"
    unfolding first_policy_split a by blast
  with key verified(2) a family claims show "\<exists>claims key pre role post.
        load_verify_key L F cfg = Inr key \<and> signature_ok J s (SigningMethod cfg) key \<and>
        (\<exists>secret. key = HMACKey secret) = (take 2 (SigningMethod cfg) = ''HS'') \<and>
        (\<exists>exp. GetExpirationTime J claims = Inr (Some exp) \<and> now < exp) \<and>
        (Issuer cfg \<noteq> '''' \<longrightarrow> GetIssuer J claims = Inr (Issuer cfg)) \<and>
        (Audience cfg \<noteq> [] \<longrightarrow> (\<exists>aud. GetAudience J claims = Inr aud \<and> hd (Audience cfg) \<in> set aud)) \<and>
        extractRoleIDs claims (roleClaim a) = pre @ role # post \<and> lookup role = Inr (Some p) \<and>
        (\<forall>r \<in> set pre. \<nexists>q. lookup r = Inr (Some q))"
    by (intro exI [of _ "tok_claims token"] exI [of _ key] exI [of _ pre] exI [of _ role] exI [of _ post] conjI)
      simp_all
next
  show "e = ErrUnauthorized" if "jwt_Authenticate J a now s = Inl e" for e
    using that by (rule jwt_refusal)
qed


text \<open>A library with one token, for witnesses: its claims, and a parser that checks the
  options.\<close>

definition toy_token :: "MapClaims Token" where
  "toy_token = \<lparr>tok_alg = ''HS256'', tok_claims = [(''realm'', CObj [(''roles'', CArr [CStr ''guest'', CStr ''ops''])])], tok_valid = True\<rparr>"

definition toy_jwt :: "(key_kind verify_key, MapClaims) jwt_lib" where
  "toy_jwt = \<lparr>jwt_Parse = (\<lambda>opts keyFunc now s.
       if s = ''tok'' \<and> ''HS256'' \<in> set (ValidMethods opts) \<and> now < 10 \<and>
          expectedIssuer opts \<in> {None, Some ''idp''} \<and> expectedAudience opts \<in> {None, Some ''kms''} \<and>
          keyFunc toy_token = Inr (HMACKey [115])
       then Inr (Some toy_token) else Inl (Msg ''token is malformed'')),
     GetExpirationTime = (\<lambda>c. Inr (Some 10)), GetNotBefore = (\<lambda>c. Inr None),
     GetIssuer = (\<lambda>c. Inr ''idp''), GetAudience = (\<lambda>c. Inr [''web'', ''kms'']),
     signature_ok = (\<lambda>s alg key. s = ''tok'' \<and> key = HMACKey [115])\<rparr>"

lemma toy_jwt_ok: "jwt_ok toy_jwt"
  unfolding jwt_ok_def
proof (intro allI impI)
  fix opts keyFunc now s tok
  assume "jwt_Parse toy_jwt opts keyFunc now s = Inr (Some tok)"
  then have "tok = toy_token" "s = ''tok''" "''HS256'' \<in> set (ValidMethods opts)" "now < 10"
    "expectedIssuer opts \<in> {None, Some ''idp''}" "expectedAudience opts \<in> {None, Some ''kms''}"
    "keyFunc toy_token = Inr (HMACKey [115])"
    by (auto simp: toy_jwt_def split: if_splits)
  then show "tok_valid tok \<and> tok_alg tok \<in> set (ValidMethods opts) \<and>
     (\<exists>key. keyFunc tok = Inr key \<and> signature_ok toy_jwt s (tok_alg tok) key) \<and>
     claims_ok toy_jwt opts now (tok_claims tok)"
    by (auto simp: toy_jwt_def toy_token_def claims_ok_def)
qed

definition toy_jwt_config :: JWTConfig where
  "toy_jwt_config = \<lparr>SigningMethod = ''HS256'', Secret = ''s'', VerifyingKeyPath = '''', Issuer = ''idp'',
     Audience = [''kms'', ''other''], RoleClaim = ''realm.roles''\<rparr>"

definition ops_policy :: Policy where
  "ops_policy = \<lparr>RoleID = ''ops'', AllowedKeys = [''*''], AllowedActions = [''*''], RequireMFA = False,
     RequireQuorum = 0, ApproverRoles = [], TenantID = ''''\<rparr>"

definition toy_key_files :: "key_kind key_files" where
  "toy_key_files = \<lparr>ReadFile = (\<lambda>p. Inl (Msg ''no such file'')), ParsePKCS1 = (\<lambda>b. Inl (Msg ''bad'')), ParseSM2 = None\<rparr>"

definition toy_authn :: "key_kind JWTAuthenticator res" where
  "toy_authn = NewJWTAuthenticator toy_pki toy_key_files toy_jwt_config
     (Some (memory_LookupPolicy (AddPolicy (Some ops_policy) NewMemoryPolicyStore)))"

lemma toy_authn_built: "\<exists>a. toy_authn = Inr a \<and> jwt_Authenticate toy_jwt a 5 ''tok'' = Inr ops_policy \<and>
  jwt_Authenticate toy_jwt a 11 ''tok'' = Inl ErrUnauthorized"
  by (simp add: toy_authn_def NewJWTAuthenticator_def parseSigningMethod_def toy_jwt_config_def load_verify_key_def
      bytes_of_def jwt_Authenticate_def toy_jwt_def jwt_options_def jwt_keyFunc_def toy_token_def jwt_claims_checked_def
      extractRoleIDs_def memory_LookupPolicy_def AddPolicy_def NewMemoryPolicyStore_def ops_policy_def)


text \<open>A token whose audience is not the first configured one is refused, whichever of the other
  configured audiences it names.\<close>

theorem other_audiences_refused:
  assumes "jwt_ok J" "\<And>c aud. GetAudience J c = Inr aud \<Longrightarrow> first \<notin> set aud"
    and "NewJWTAuthenticator L F cfg (Some lookup) = Inr a" "Audience cfg = first # others"
  shows "jwt_Authenticate J a now s = Inl ErrUnauthorized"
proof (cases "jwt_Authenticate J a now s")
  case (Inr p)
  then obtain token where parsed: "jwt_Parse J (jwt_options a) (jwt_keyFunc a) now s = Inr (Some token)"
    by (rule jwt_Authenticate_Inr)
  from assms(3,4) have "audience a = first # others" by (auto elim: NewJWTAuthenticator_Inr)
  then have "\<exists>as. GetAudience J (tok_claims token) = Inr as \<and> first \<in> set as"
    using jwt_verified(3) [OF assms(1) parsed] by (simp add: claims_ok_def jwt_options_def)
  with assms(2) show ?thesis by blast
qed (auto dest: jwt_refusal)

section \<open>Service accounts\<close>

text \<open>
  Service accounts. An accepted service-account token is signed with one of the
  asymmetric algorithms under a key of the key function, comes from the configured issuer, names
  the first configured audience, and its namespace and account, both present, are mapped to the
  policy returned. No policy mapped this way asks for a second factor, a quorum or a tenant.
\<close>
theorem k8s_sound:
  assumes "jwt_ok J" "NewK8sAuthenticator keyfunc_Get cfg = Inr a" "k8s_Authenticate J a now s = Inr p"
  shows "\<exists>claims alg keyFunc key m.
      jwksKeyFunc a = Some keyFunc \<and> alg \<in> set k8s_methods \<and> signature_ok J s alg key \<and>
      GetIssuer J claims = Inr (k8s_Issuer cfg) \<and>
      (\<exists>aud. GetAudience J claims = Inr aud \<and> hd (k8s_Audience cfg) \<in> set aud) \<and>
      Namespace claims \<noteq> '''' \<and> ServiceAccountName claims \<noteq> '''' \<and>
      map_of (RoleMapping cfg) (Namespace claims @ '':'' @ ServiceAccountName claims) = Some m \<and>
      p = mapping_policy m \<and> \<not> RequireMFA p \<and> RequireQuorum p = 0 \<and> TenantID p = ''''"
proof -
  from assms(2) have a: "k8s_config a = cfg" "roleMappings a = map (\<lambda>(sa, m). (sa, mapping_policy m)) (RoleMapping cfg)"
    by (auto simp: NewK8sAuthenticator_def Let_def bindR_eq_Inr split: if_splits)
  from assms(3) obtain first rest keyFunc token where k: "k8s_Audience cfg = first # rest" "jwksKeyFunc a = Some keyFunc"
    "jwt_Parse J \<lparr>ValidMethods = k8s_methods, ExpirationRequired = False,
       expectedIssuer = Some (k8s_Issuer cfg), expectedAudience = Some first\<rparr> keyFunc now s = Inr (Some token)"
    "k8s_account a (tok_claims token) = Inr p"
    by (auto simp: k8s_Authenticate_def a split: if_splits list.splits option.splits sum.splits)
  from assms(1) k(3) obtain key where v: "tok_alg token \<in> set k8s_methods" "signature_ok J s (tok_alg token) key"
    "GetIssuer J (tok_claims token) = Inr (k8s_Issuer cfg)"
    "\<exists>aud. GetAudience J (tok_claims token) = Inr aud \<and> first \<in> set aud"
    unfolding jwt_ok_def claims_ok_def by fastforce
  from k(4) obtain m where "Namespace (tok_claims token) \<noteq> ''''" "ServiceAccountName (tok_claims token) \<noteq> ''''"
    "map_of (RoleMapping cfg) (Namespace (tok_claims token) @ '':'' @ ServiceAccountName (tok_claims token)) = Some m"
    "p = mapping_policy m"
    by (auto simp: k8s_account_def a map_of_map split: if_splits option.splits)
  with k v show ?thesis
    by (intro exI [of _ "tok_claims token"] exI [of _ "tok_alg token"] exI [of _ keyFunc] exI [of _ key] exI [of _ m])
      (simp add: mapping_policy_def)
qed

text \<open>A library with one service-account token that never expires, for witnesses.\<close>

definition sa_token :: "k8sSAClaims Token" where
  "sa_token = \<lparr>tok_alg = ''RS256'', tok_claims = \<lparr>sa_audience = [''kms''], Namespace = ''default'',
     ServiceAccountName = ''orders'', ServiceAccountUID = ''1''\<rparr>, tok_valid = True\<rparr>"

definition toy_k8s :: "(unit, k8sSAClaims) jwt_lib" where
  "toy_k8s = \<lparr>jwt_Parse = (\<lambda>opts keyFunc now s.
       if s = ''tok'' \<and> ''RS256'' \<in> set (ValidMethods opts) \<and> \<not> ExpirationRequired opts \<and>
          expectedIssuer opts \<in> {None, Some ''idp''} \<and> expectedAudience opts \<in> {None, Some ''kms''} \<and>
          keyFunc sa_token = Inr ()
       then Inr (Some sa_token) else Inl (Msg ''token is malformed'')),
     GetExpirationTime = (\<lambda>c. Inr None), GetNotBefore = (\<lambda>c. Inr None),
     GetIssuer = (\<lambda>c. Inr ''idp''), GetAudience = (\<lambda>c. Inr [''kms'']),
     signature_ok = (\<lambda>s alg key. s = ''tok'')\<rparr>"

lemma toy_k8s_ok: "jwt_ok toy_k8s"
  unfolding jwt_ok_def
proof (intro allI impI)
  fix opts keyFunc now s tok
  assume "jwt_Parse toy_k8s opts keyFunc now s = Inr (Some tok)"
  then have "tok = sa_token" "s = ''tok''" "''RS256'' \<in> set (ValidMethods opts)" "\<not> ExpirationRequired opts"
    "expectedIssuer opts \<in> {None, Some ''idp''}" "expectedAudience opts \<in> {None, Some ''kms''}"
    "keyFunc sa_token = Inr ()"
    by (auto simp: toy_k8s_def split: if_splits)
  then show "tok_valid tok \<and> tok_alg tok \<in> set (ValidMethods opts) \<and>
     (\<exists>key. keyFunc tok = Inr key \<and> signature_ok toy_k8s s (tok_alg tok) key) \<and>
     claims_ok toy_k8s opts now (tok_claims tok)"
    by (auto simp: toy_k8s_def sa_token_def claims_ok_def)
qed

definition toy_k8s_config :: K8sAuthConfig where
  "toy_k8s_config = \<lparr>k8s_Issuer = ''idp'', k8s_Audience = [''kms''],
     RoleMapping = [(''default:orders'', \<lparr>map_RoleID = ''orders'', map_AllowedKeys = [''o*''], map_AllowedActions = [''encrypt'']\<rparr>)],
     JWKSURL = ''''\<rparr>"

definition toy_k8s_authn :: "unit K8sAuthenticator res" where
  "toy_k8s_authn = NewK8sAuthenticator (\<lambda>url. Inr (\<lambda>token. Inr ())) toy_k8s_config"

lemma toy_k8s_accepts:
  "\<exists>a p. toy_k8s_authn = Inr a \<and> k8s_Authenticate toy_k8s a now ''tok'' = Inr p"
  by (simp add: toy_k8s_authn_def NewK8sAuthenticator_def toy_k8s_config_def k8s_Authenticate_def toy_k8s_def
      k8s_methods_def sa_token_def k8s_account_def)

theorem k8s_sound_witness:
  "\<exists>a p. toy_k8s_authn = Inr a \<and> k8s_Authenticate toy_k8s a 7 ''tok'' = Inr p \<and> \<not> RequireMFA p"
proof -
  obtain a p where a: "toy_k8s_authn = Inr a" "k8s_Authenticate toy_k8s a 7 ''tok'' = Inr p"
    using toy_k8s_accepts by blast
  from k8s_sound [OF toy_k8s_ok a(1) [unfolded toy_k8s_authn_def] a(2)] have "\<not> RequireMFA p" by blast
  with a show ?thesis by blast
qed

text \<open>A token without an expiry is accepted at any time: the parser is not told to require one.\<close>

theorem k8s_no_expiry:
  "\<exists>J a. jwt_ok J \<and> (\<forall>c. GetExpirationTime J c = Inr None) \<and> toy_k8s_authn = Inr a \<and>
     (\<forall>now. \<exists>p. k8s_Authenticate J a now ''tok'' = Inr p)"
proof -
  obtain a where a: "toy_k8s_authn = Inr a" using toy_k8s_accepts by blast
  from a have "\<exists>p. k8s_Authenticate toy_k8s a now ''tok'' = Inr p" for now
    using toy_k8s_accepts [of now] by (metis sum.inject(2))
  with a toy_k8s_ok show ?thesis by (intro exI [of _ toy_k8s] exI [of _ a]) (simp add: toy_k8s_def)
qed

text \<open>The constructor that takes a key function ignores the configuration's errors; without an
  audience every request then panics.\<close>

theorem k8s_keyfunc_panics:
  assumes "k8s_Audience cfg = []" "token \<noteq> ''''"
  shows "\<exists>a. NewK8sAuthenticatorWithKeyFunc keyfunc_Get cfg keyFunc = Inr a \<and>
     k8s_Authenticate J a now token = Inl (Panic ''index out of range'')"
  using assms by (simp add: NewK8sAuthenticatorWithKeyFunc_def NewK8sAuthenticator_def k8s_Authenticate_def Let_def)

section \<open>Where the keys are fetched from\<close>

lemma contains_char: "contains s [c] \<longleftrightarrow> c \<in> set s"
  by (induction s) (auto simp: has_prefix_def)

lemma validateHost_ok:
  "validateHost parseIP host = None \<Longrightarrow> host \<noteq> '''' \<and> CHR ''/'' \<notin> set host \<and>
     (parseIP host \<or> list_all host_char host)"
  by (auto simp: validateHost_def contains_char split: if_splits)

text \<open>The service-account token is only ever sent to the one path on the host of the environment,
  whose name has no slash and no character outside names unless it is an address, on a port that
  is a number.\<close>

theorem jwks_target:
  assumes "FetchK8sJWKSFromAPI parseIP E = Inr keys"
  shows "\<exists>host port token ca body n. FetchK8sJWKSFromAPI parseIP E = json_raw E body \<and>
     https_get E (jwks_url host port) (''Bearer '' @ string_of token) ca = Inr (200, body) \<and>
     host = Getenv E ''KUBERNETES_SERVICE_HOST'' \<and> CHR ''/'' \<notin> set host \<and>
     (parseIP host \<or> list_all host_char host) \<and> Atoi port = Inr n \<and> cert_pool_ok E ca"
proof -
  let ?host = "Getenv E ''KUBERNETES_SERVICE_HOST''"
  from assms obtain port n where host: "validateHost parseIP ?host = None" and n: "Atoi port = Inr n" and
    fetch: "fetch_jwks E (jwks_url ?host port) = Inr keys"
    by (auto simp: FetchK8sJWKSFromAPI_def Let_def split: if_splits option.splits sum.splits)
  from fetch obtain token ca body where "https_get E (jwks_url ?host port) (''Bearer '' @ string_of token) ca = Inr (200, body)"
    "cert_pool_ok E ca" "json_raw E body = Inr keys"
    by (auto simp: fetch_jwks_def bindR_eq_Inr split: if_splits prod.splits)
  with validateHost_ok [OF host] n assms show ?thesis by (metis (no_types, lifting))
qed

end
