(* ===== verification/Cli.thy ===== *)
theory Cli
  imports LocalPki Backup Config AuditLog
begin

text \<open>
  The maintenance commands of \<^verbatim>\<open>cmd/yvonne/main.go\<close>: generating the unseal key pair,
  initialising the master key, splitting and restoring its cold backup, verifying the audit log,
  and the helpers that write a file atomically and check a path. A command ends with \<open>None\<close>
  or with the error it reports before the process exits. Connecting to the database is a parameter
  that yields the store.
\<close>

section \<open>Writing a file atomically\<close>

text \<open>
  Files with contents and permission bits. Any system call may fail; a failed write leaves a
  prefix of the data in the file. \<open>temp_name\<close> is the name \<^verbatim>\<open>os.CreateTemp\<close> chooses in the
  directory of the path. The function returns every state of the file system it passes through,
  in order.
\<close>

datatype syscall = SysCreate | SysWrite | SysSync | SysClose | SysChmod | SysRename | SysRemove

record cli_fs =
  cfiles :: "string \<rightharpoonup> bytes \<times> nat"
  cfails :: "syscall \<Rightarrow> bool"
  short_write :: nat
  temp_name :: "string \<Rightarrow> string"

definition set_file :: "string \<Rightarrow> (bytes \<times> nat) option \<Rightarrow> cli_fs \<Rightarrow> cli_fs" where
  "set_file p f s = s\<lparr>cfiles := (cfiles s)(p := f)\<rparr>"

definition remove_file :: "string \<Rightarrow> cli_fs \<Rightarrow> cli_fs" where
  "remove_file p s = (if cfails s SysRemove then s else set_file p None s)"

definition atomicWriteFileSecure :: "string \<Rightarrow> bytes \<Rightarrow> cli_fs \<Rightarrow> err option \<times> cli_fs list" where
  "atomicWriteFileSecure path bs s =
     (if cfails s SysCreate then (Some (Msg ''create temp file''), [s])
      else
        let tmpPath = temp_name s path;
            created = set_file tmpPath (Some ([], 0x180)) s;
            partly = set_file tmpPath (Some (take (short_write s) bs, 0x180)) created;
            written = set_file tmpPath (Some (bs, 0x180)) created;
            locked = set_file tmpPath (Some (bs, 0x100)) written;
            renamed = set_file tmpPath None (set_file path (Some (bs, 0x100)) locked)
        in if cfails s SysWrite then (Some (Msg ''write temp file''), [s, created, partly, remove_file tmpPath partly])
           else if cfails s SysSync then (Some (Msg ''sync temp file''), [s, created, written, remove_file tmpPath written])
           else if cfails s SysClose then (Some (Msg ''close temp file''), [s, created, written, remove_file tmpPath written])
           else if cfails s SysChmod then (Some (Msg ''chmod temp file''), [s, created, written, remove_file tmpPath written])
           else if cfails s SysRename then
             (Some (Msg ''rename temp to final''), [s, created, written, locked, remove_file tmpPath locked])
           else (None, [s, created, written, locked, renamed]))"

definition validatePath :: "string \<Rightarrow> err option" where
  "validatePath path =
     (if path = '''' then Some (Msg ''empty path'')
      else let clean = filepath_Clean path in
        if clean = ''..'' \<or> has_prefix clean ''../'' then Some (Msg ''path contains parent directory traversal'')
        else if \<exists>part \<in> set (split_char (CHR ''/'') clean). part = ''..'' then Some (Msg ''path contains parent directory traversal'')
        else None)"

section \<open>The commands\<close>

definition runUnsealKeygenCmd ::
  "('k, 'p) pki \<Rightarrow> ('k, 'p) rsa_lib \<Rightarrow> string \<Rightarrow> cli_fs \<Rightarrow> csprng \<Rightarrow> bytes res \<times> cli_fs \<times> csprng" where
  "runUnsealKeygenCmd L R outPath s r =
     (if outPath = '''' then (Inl (Msg ''error: --out is required for unseal-keygen command''), s, r)
      else case GenerateUnsealKeyPair L R r of
          (Inl e, r1) \<Rightarrow> (Inl (Wrap ''generate key pair failed'' e), s, r1)
        | (Inr (privPEM, pubPEM), r1) \<Rightarrow>
            if cfails s SysWrite then (Inl (Msg ''write private key file failed''), s, r1)
            else (Inr pubPEM, set_file outPath (Some (privPEM, 0x180)) s, r1))"

text \<open>Steps 4 to 9 of \<^verbatim>\<open>runInitCmd\<close>, on the connected store.\<close>

definition store_wrapped ::
  "('d \<Rightarrow> bytes) \<Rightarrow> bytes \<Rightarrow> string \<Rightarrow> cli_fs \<Rightarrow> 'd KVStore \<Rightarrow> err option \<times> cli_fs \<times> 'd KVStore" where
  "store_wrapped enc wrappedCMK wrappedOut f s =
     (case store_Put WrappedMasterKeyKey (Raw wrappedCMK) s of
        (Some e, s1) \<Rightarrow> (Some (Wrap ''write wrapped CMK to DB'' e), f, s1)
      | (None, s1) \<Rightarrow>
          (case (if wrappedOut = '''' then (None, [f]) else atomicWriteFileSecure wrappedOut wrappedCMK f) of
             (Some e, fs) \<Rightarrow> (Some (Wrap ''write wrapped CMK to USB'' e), last fs, s1)
           | (None, fs) \<Rightarrow>
               (case store_Get WrappedMasterKeyKey s1 of
                  (Inl e, s2) \<Rightarrow> (Some (Wrap ''verification read failed'' e), last fs, s2)
                | (Inr v, s2) \<Rightarrow>
                    if length (val_bytes enc v) \<noteq> length wrappedCMK then (Some (Msg ''verification failed''), last fs, s2)
                    else (None, last fs, s2))))"

definition init_master_key ::
  "('d \<Rightarrow> bytes) \<Rightarrow> ('k, 'p) pki \<Rightarrow> ('k, 'p) rsa_lib \<Rightarrow> bytes \<Rightarrow> string \<Rightarrow> cli_fs \<Rightarrow> 'd KVStore \<Rightarrow> csprng \<Rightarrow>
   err option \<times> cli_fs \<times> 'd KVStore \<times> csprng" where
  "init_master_key enc L R pubKeyPEM wrappedOut f s r =
     (case store_Get WrappedMasterKeyKey s of
        (existing, s1) \<Rightarrow>
          if (case existing of Inr v \<Rightarrow> val_bytes enc v \<noteq> [] | Inl _ \<Rightarrow> False)
          then (Some (Msg ''FATAL: master-key-wrapped already exists in DB''), f, s1, r)
          else case NewSecureBufferFromRandom 32 r of
              (Inl e, r1) \<Rightarrow> (Some (Wrap ''generate CMK'' e), f, s1, r1)
            | (Inr cmk, r1) \<Rightarrow>
                (case EncryptMasterKeyWithPublicKey L R pubKeyPEM cmk r1 of
                   (Inl e, r2) \<Rightarrow> (Some (Wrap ''encrypt CMK with public key'' e), f, s1, r2)
                 | (Inr wrappedCMK, r2) \<Rightarrow>
                     (case store_wrapped enc wrappedCMK wrappedOut f s1 of (e, f1, s2) \<Rightarrow> (e, f1, s2, r2))))"

definition runInitCmd ::
  "config_env \<Rightarrow> (bytes \<Rightarrow> YvonneConfig \<Rightarrow> YvonneConfig res) \<Rightarrow> (string \<Rightarrow> 'd KVStore res) \<Rightarrow> ('d \<Rightarrow> bytes) \<Rightarrow>
   ('k, 'p) pki \<Rightarrow> ('k, 'p) rsa_lib \<Rightarrow> string \<Rightarrow> string \<Rightarrow> string \<Rightarrow> cli_fs \<Rightarrow> csprng \<Rightarrow>
   err option \<times> cli_fs \<times> 'd KVStore option \<times> csprng" where
  "runInitCmd E unmarshal connect enc L R configPath pubKeyPath wrappedOut f r =
     (if configPath = '''' then (Some (Msg ''error: --config is required for init command''), f, None, r)
      else if pubKeyPath = '''' then (Some (Msg ''error: --pub-key is required for init command''), f, None, r)
      else case LoadYvonneConfig E unmarshal configPath of
          Inl e \<Rightarrow> (Some (Wrap ''load config'' e), f, None, r)
        | Inr cfg \<Rightarrow>
            if storage_Type (Storage cfg) \<noteq> ''postgres'' then
              (Some (Msg ''init: storage.type must be postgres for cluster mode initialization''), f, None, r)
            else (case env_ReadFile E pubKeyPath of
                Inl e \<Rightarrow> (Some (Wrap ''read public key'' e), f, None, r)
              | Inr pubKeyPEM \<Rightarrow>
                  (case connect (mode_DSN (Storage cfg)) of
                     Inl e \<Rightarrow> (Some (Wrap ''connect postgres'' e), f, None, r)
                   | Inr s \<Rightarrow>
                       (case init_master_key enc L R pubKeyPEM wrappedOut f s r of
                          (e, f1, s1, r1) \<Rightarrow> (e, f1, Some s1, r1)))))"

definition runBackupSplitCmd ::
  "config_env \<Rightarrow> (bytes \<Rightarrow> YvonneConfig \<Rightarrow> YvonneConfig res) \<Rightarrow> (string \<Rightarrow> 'd KVStore res) \<Rightarrow> ('d \<Rightarrow> bytes) \<Rightarrow>
   (bytes \<Rightarrow> bytes \<Rightarrow> bytes) \<Rightarrow> string \<Rightarrow> string \<Rightarrow> int \<Rightarrow> int \<Rightarrow> csprng \<Rightarrow> fs \<Rightarrow> string list res \<times> csprng \<times> fs" where
  "runBackupSplitCmd E unmarshal connect enc hmac configPath outDir tot thr r d =
     (if configPath = '''' \<or> outDir = '''' then (Inl (Msg ''error: --config and --out-dir are required''), r, d)
      else case LoadYvonneConfig E unmarshal configPath of
          Inl e \<Rightarrow> (Inl (Wrap ''load config'' e), r, d)
        | Inr cfg \<Rightarrow>
            (case connect (mode_DSN (Storage cfg)) of
               Inl e \<Rightarrow> (Inl (Wrap ''connect postgres'' e), r, d)
             | Inr s \<Rightarrow>
                 (case store_Get WrappedMasterKeyKey s of
                    (Inl e, s1) \<Rightarrow> (Inl (Wrap ''read wrapped CMK from DB'' e), r, d)
                  | (Inr v, s1) \<Rightarrow>
                      (case SplitWrappedCMKToFiles hmac (val_bytes enc v) tot thr outDir r d of
                         (paths, r1, d1) \<Rightarrow> (wrapR ''split'' paths, r1, d1)))))"

fun first_bad_path :: "string list \<Rightarrow> err option" where
  "first_bad_path [] = None"
| "first_bad_path (p # ps) = (case validatePath p of Some e \<Rightarrow> Some e | None \<Rightarrow> first_bad_path ps)"

definition runBackupRestoreCmd ::
  "(bytes \<Rightarrow> bytes \<Rightarrow> bytes) \<Rightarrow> string \<Rightarrow> string list \<Rightarrow> fs \<Rightarrow> cli_fs \<Rightarrow> err option \<times> cli_fs" where
  "runBackupRestoreCmd hmac outPath sharePaths d f =
     (if outPath = '''' then (Some (Msg ''error: --out is required''), f)
      else case validatePath outPath of
          Some e \<Rightarrow> (Some (Wrap ''error: invalid --out path'' e), f)
        | None \<Rightarrow>
            if length sharePaths < 2 then (Some (Msg ''error: need at least 2 share files''), f)
            else (case first_bad_path sharePaths of
                Some e \<Rightarrow> (Some (Wrap ''error: invalid share path'' e), f)
              | None \<Rightarrow>
                  (case CombineWrappedCMKFromFiles hmac sharePaths d of
                     Inl e \<Rightarrow> (Some (Wrap ''restore'' e), f)
                   | Inr wrappedCMK \<Rightarrow>
                       (case atomicWriteFileSecure outPath wrappedCMK f of (e, fs) \<Rightarrow> (e, last fs)))))"

text \<open>The exit status of \<^verbatim>\<open>audit-verify\<close>; the temporary logger has a key of its own.\<close>

definition runAuditVerifyCmd ::
  "audit_json \<Rightarrow> hash_alg \<Rightarrow> (QueryResult list \<Rightarrow> QueryResult list) \<Rightarrow> QueryFilter \<Rightarrow> string \<Rightarrow> disk \<Rightarrow> disk \<Rightarrow> csprng \<Rightarrow> int" where
  "runAuditVerifyCmd J sha256 srt all_entries dirName writer dir r =
     (if dirName = '''' then 1
      else case NewAuditLogger sha256 writer dir r of
          (Inl e, r1) \<Rightarrow> 1
        | (Inr logger, r1) \<Rightarrow>
            (case fst (Query J sha256 srt (all_entries\<lparr>Limit := -1\<rparr>) logger) of
               Inl e \<Rightarrow> 1
             | Inr results \<Rightarrow> if results = [] then 0
                 else if \<exists>q \<in> set results. \<not> Valid q then 1 else 0))"

section \<open>The file is replaced as a whole\<close>

lemma set_file_simps [simp]:
  "cfiles (set_file p f s) q = (if q = p then f else cfiles s q)"
  "cfails (set_file p f s) = cfails s" "temp_name (set_file p f s) = temp_name s"
  by (simp_all add: set_file_def)

lemma remove_file_other [simp]: "q \<noteq> p \<Longrightarrow> cfiles (remove_file p s) q = cfiles s q"
  by (simp add: remove_file_def)

lemma atomic_write_parts:
  assumes tmp: "temp_name s path \<noteq> path" "cfiles s (temp_name s path) = None"
    and run: "atomicWriteFileSecure path bs s = (e, states)"
  shows "\<forall>t \<in> set states. cfiles t path \<in> {cfiles s path, Some (bs, 0x100)}"
    and "\<forall>t \<in> set states. \<forall>q. q \<noteq> path \<and> q \<noteq> temp_name s path \<longrightarrow> cfiles t q = cfiles s q"
    and "cfiles (last states) path = (if e = None then Some (bs, 0x100) else cfiles s path)"
    and "\<not> cfails s SysRemove \<Longrightarrow> cfiles (last states) (temp_name s path) = None"
proof -
  note defs = atomicWriteFileSecure_def Let_def
  show "\<forall>t \<in> set states. cfiles t path \<in> {cfiles s path, Some (bs, 0x100)}"
    using run tmp(1) by (auto simp: defs split: if_splits)
  show "\<forall>t \<in> set states. \<forall>q. q \<noteq> path \<and> q \<noteq> temp_name s path \<longrightarrow> cfiles t q = cfiles s q"
    using run by (auto simp: defs split: if_splits)
  show "cfiles (last states) path = (if e = None then Some (bs, 0x100) else cfiles s path)"
    using run tmp(1) by (auto simp: defs split: if_splits)
  show "\<not> cfails s SysRemove \<Longrightarrow> cfiles (last states) (temp_name s path) = None"
    using run tmp by (auto simp: defs remove_file_def split: if_splits)
qed

text \<open>
  Property C32. A file is replaced as a whole: whatever system call fails, in every state on the way
  the path holds what it held before, or the complete new contents readable only by the owner. It
  holds the new contents at the end exactly when the function succeeds, no other file is touched,
  and the temporary file is left behind only when its removal fails.
\<close>
theorem atomic_write:
  assumes tmp: "temp_name s path \<noteq> path" "cfiles s (temp_name s path) = None"
    and run: "atomicWriteFileSecure path bs s = (e, states)"
  shows "(\<forall>t \<in> set states. cfiles t path \<in> {cfiles s path, Some (bs, 0x100)})
    \<and> (\<forall>t \<in> set states. \<forall>q. q \<noteq> path \<and> q \<noteq> temp_name s path \<longrightarrow> cfiles t q = cfiles s q)
    \<and> cfiles (last states) path = (if e = None then Some (bs, 0x100) else cfiles s path)
    \<and> (\<not> cfails s SysRemove \<longrightarrow> cfiles (last states) (temp_name s path) = None)"
  using atomic_write_parts [OF assms] by simp

definition toy_fs :: "(syscall \<Rightarrow> bool) \<Rightarrow> cli_fs" where
  "toy_fs bad = \<lparr>cfiles = [''/usb/cmk'' \<mapsto> ([9], 0x100)], cfails = bad, short_write = 1,
     temp_name = \<lambda>p. ''/usb/.yvonne-tmp-1''\<rparr>"

theorem atomic_write_witness:
  "\<exists>e states. atomicWriteFileSecure ''/usb/cmk'' [1, 2] (toy_fs (\<lambda>c. c = SysSync)) = (Some e, states) \<and>
     length states = 4 \<and> cfiles (last states) ''/usb/cmk'' = Some ([9], 0x100)"
proof -
  have run: "\<exists>e states. atomicWriteFileSecure ''/usb/cmk'' [1, 2] (toy_fs (\<lambda>c. c = SysSync)) = (Some e, states) \<and> length states = 4"
    by (simp add: atomicWriteFileSecure_def toy_fs_def Let_def)
  then obtain e states where
    r: "atomicWriteFileSecure ''/usb/cmk'' [1, 2] (toy_fs (\<lambda>c. c = SysSync)) = (Some e, states)" "length states = 4" by blast
  have "cfiles (last states) ''/usb/cmk'' = Some ([9], 0x100)"
    using atomic_write [OF _ _ r(1)] by (simp add: toy_fs_def)
  with r show ?thesis by blast
qed

text \<open>A path with parent references passes when cleaning removes them.\<close>

lemma validatePath_examples:
  "validatePath ''/backups/../etc/cmk'' = None" "validatePath ''../cmk'' \<noteq> None" "validatePath ''a/../../cmk'' \<noteq> None"
  by code_simp+

section \<open>From key generation to an open vault\<close>

lemma init_master_key_None:
  assumes "init_master_key enc L R pub out f s r = (None, f', s', r')"
  obtains cmk wrapped r1 v where "NewSecureBufferFromRandom 32 r = (Inr cmk, r1)"
    "EncryptMasterKeyWithPublicKey L R pub cmk r1 = (Inr wrapped, r')" "look s' WrappedMasterKeyKey = entry (Raw wrapped)"
proof -
  from assms obtain cmk wrapped r1 s1 where run: "NewSecureBufferFromRandom 32 r = (Inr cmk, r1)"
    "EncryptMasterKeyWithPublicKey L R pub cmk r1 = (Inr wrapped, r')" "store_wrapped enc wrapped out f s1 = (None, f', s')"
    by (auto simp: init_master_key_def split: prod.splits sum.splits if_splits)
  from run(3) obtain s2 v where "store_Put WrappedMasterKeyKey (Raw wrapped) s1 = (None, s2)"
    "store_Get WrappedMasterKeyKey s2 = (Inr v, s')"
    by (auto simp: store_wrapped_def split: prod.splits sum.splits if_splits option.splits)
  then have "look s' WrappedMasterKeyKey = entry (Raw wrapped)"
    using kv.put_ok kv.get_ok by (metis fun_upd_same)
  with run show thesis using that by blast
qed

lemma random_key_length: "NewSecureBufferFromRandom n r = (Inr k, r') \<Longrightarrow> int (length (sb_data k)) = n \<and> \<not> destroyed k"
  by (auto simp: NewSecureBufferFromRandom_def split: prod.splits sum.splits dest: GenerateSecureRandom_length)

text \<open>
  Property C13. Initialisation and unsealing fit together. When the key pair was generated, its
  public half given to the initialisation and its private half to the server, and the
  initialisation reported success, then automatic unsealing of a sealed vault succeeds as soon as
  the database answers: the vault holds the 32 random bytes the initialisation drew, and the file
  with the private key is gone.
\<close>
theorem init_then_unseal:
  assumes ok: "rsa_ok L R"
    and gen: "runUnsealKeygenCmd L R keyFile f0 r0 = (Inr pub, f1, r1)" "cfiles f1 keyFile = Some (priv, mode)"
    and init: "env_ReadFile E pubFile = Inr pub"
      "runInitCmd E unmarshal connect enc L R configFile pubFile usb f2 r2 = (None, f3, Some s, r3)"
    and server: "pem_files d path = Some priv" "\<not> unremovable d path" "vstate v = StateSealed" "\<not> emergencySealed v"
    and db: "store_Get WrappedMasterKeyKey s = (Inr stored, s')"
  shows "\<exists>cmk r'. NewSecureBufferFromRandom 32 r2 = (Inr cmk, r') \<and> length (sb_data cmk) = 32 \<and>
    AutoUnseal enc L R path d v s = (None, d\<lparr>pem_files := (pem_files d)(path := None)\<rparr>, enter_unsealed cmk v, s')"
proof -
  from gen have pair: "\<exists>r. GenerateUnsealKeyPair L R r0 = (Inr (priv, pub), r)"
    by (auto simp: runUnsealKeygenCmd_def split: if_splits prod.splits sum.splits)
  from init obtain s0 where "init_master_key enc L R pub usb f2 s0 r2 = (None, f3, s, r3)"
    by (auto simp: runInitCmd_def split: if_splits sum.splits prod.splits)
  then obtain cmk wrapped r' where cmk: "NewSecureBufferFromRandom 32 r2 = (Inr cmk, r')"
    "EncryptMasterKeyWithPublicKey L R pub cmk r' = (Inr wrapped, r3)" and look: "look s WrappedMasterKeyKey = entry (Raw wrapped)"
    by (rule init_master_key_None)
  from look db have stored: "stored = Raw wrapped"
    using kv.get_ok [OF db] by (auto simp: entry_def split: if_splits)
  have live: "length (sb_data cmk) = 32" "\<not> destroyed cmk" using random_key_length [OF cmk(1)] by auto
  from pair obtain r where "GenerateUnsealKeyPair L R r0 = (Inr (priv, pub), r)" by blast
  from AutoUnseal_wrapped [OF ok this cmk(2) db [unfolded stored] server(1,2), of v enc] server(3,4)
  have "AutoUnseal enc L R path d v s = (None, d\<lparr>pem_files := (pem_files d)(path := None)\<rparr>,
      enter_unsealed \<lparr>sb_data = sb_data cmk, destroyed = False\<rparr> v, s')" by simp
  moreover have "\<lparr>sb_data = sb_data cmk, destroyed = False\<rparr> = cmk" using live by simp
  ultimately show ?thesis using cmk live by auto
qed

text \<open>A library with one key pair, for witnesses.\<close>

definition one_pki :: "(unit, unit) pki" where
  "one_pki = \<lparr>rsa_GenerateKey = (\<lambda>bits r. (if bits = 4096 then Inr () else Inl (Msg ''toy''), r)),
     ecdsa_GenerateKey = (\<lambda>r. (Inl (Msg ''toy''), r)), priv_kind = (\<lambda>k. RSA 4096), pub_kind = (\<lambda>k. RSA 4096), public_of = id,
     raw_sign = (\<lambda>k d r. (Inl (Msg ''toy''), r)), raw_verify = (\<lambda>p d s. False),
     MarshalPKCS8 = (\<lambda>k. Inr [1]), ParsePKCS8 = (\<lambda>b. Inr ()), MarshalPKIX = (\<lambda>k. Inr [1]), ParsePKIX = (\<lambda>b. Inr ()),
     pem_Encode = (\<lambda>t b. (if t = ''RSA PRIVATE KEY'' then 1 else 2) # b),
     pem_Decode = (\<lambda>p. if p = [] then None else Some (if hd p = 1 then ''RSA PRIVATE KEY'' else ''RSA PUBLIC KEY'', tl p, []))\<rparr>"

definition one_rsa :: "(unit, unit) rsa_lib" where
  "one_rsa = \<lparr>MarshalPKCS1PrivateKey = (\<lambda>k. [7]), ParsePKCS1PrivateKey = (\<lambda>b. Inr ()),
     MarshalPKCS1PublicKey = (\<lambda>p. [8]), ParsePKCS1PublicKey = (\<lambda>b. Inr ()),
     EncryptOAEP = (\<lambda>p l m r. (Inr (0 # m), r)), DecryptOAEP = (\<lambda>k l c. Inr (tl c))\<rparr>"

lemma one_rsa_ok: "rsa_ok one_pki one_rsa"
  by (simp add: rsa_ok_def one_pki_def one_rsa_def)

lemma zero_source_key: "NewSecureBufferFromRandom 32 zero_source = (Inr \<lparr>sb_data = replicate 32 0, destroyed = False\<rparr>, zero_source\<lparr>pos := 32\<rparr>)"
proof -
  have "map (\<lambda>i. Some (0 :: byte)) [0..<32] = map Some (replicate 32 0)" by (simp add: map_replicate_const)
  then have "those (map (\<lambda>i. Some (0 :: byte)) [0..<32]) = Some (replicate 32 0)" by (simp only: those_Some)
  then show ?thesis
    by (simp add: NewSecureBufferFromRandom_def GenerateSecureRandom_def rand_Read_def zero_source_def)
qed

definition quiet_db :: "(string \<times> unit val) list \<Rightarrow> (nat \<Rightarrow> string option) \<Rightarrow> unit KVStore" where
  "quiet_db rs bad = Pg \<lparr>rows = rs, notified = [], healthy = True, faults = bad, tick = 0, tx_aborted = False\<rparr>"

definition cli_env :: config_env where
  "cli_env = \<lparr>env_get = \<lambda>n. '''', env_ReadFile = \<lambda>p. if p = ''pub.pem'' then Inr [2, 8] else Inr [], scan_other = \<lambda>s. None\<rparr>"

definition init_run :: "unit KVStore \<Rightarrow> err option \<times> cli_fs \<times> unit KVStore option \<times> csprng" where
  "init_run db = runInitCmd cli_env (\<lambda>raw cfg. Inr cluster_example) (\<lambda>dsn. Inr db) (\<lambda>d. []) one_pki one_rsa
     ''y.json'' ''pub.pem'' '''' (toy_fs (\<lambda>c. False)) zero_source"

lemma init_run_master_key:
  "init_run db = (case init_master_key (\<lambda>d. []) one_pki one_rsa [2, 8] '''' (toy_fs (\<lambda>c. False)) db zero_source of
     (e, f1, s1, r1) \<Rightarrow> (e, f1, Some s1, r1))"
proof -
  have "LoadYvonneConfig cli_env (\<lambda>raw cfg. Inr cluster_example) ''y.json'' = Inr cluster_example"
    by (simp add: LoadYvonneConfig_def read_and_decode_def applyYvonneEnvOverrides_def env_string_def cli_env_def cluster_example_valid)
  moreover have "storage_Type (Storage cluster_example) = ''postgres''" by (simp add: cluster_example_def)
  moreover have "env_ReadFile cli_env ''pub.pem'' = Inr [2, 8]" by (simp add: cli_env_def)
  ultimately show ?thesis by (simp add: init_run_def runInitCmd_def)
qed

lemma wrap_zeros: "EncryptMasterKeyWithPublicKey one_pki one_rsa [2, 8] \<lparr>sb_data = b, destroyed = False\<rparr> r = (Inr (0 # b), r)"
  by (simp add: EncryptMasterKeyWithPublicKey_def parse_wrapping_key_def single_block_def one_pki_def one_rsa_def)

lemma init_run_empty:
  "init_run (quiet_db [] (\<lambda>i. None)) =
     (None, toy_fs (\<lambda>c. False), Some (Pg \<lparr>rows = [(WrappedMasterKeyKey, Raw (0 # replicate 32 0))], notified = [], healthy = True,
        faults = (\<lambda>i. None), tick = 3, tx_aborted = False\<rparr>), zero_source\<lparr>pos := 32\<rparr>)"
  by (simp add: init_run_master_key init_master_key_def quiet_db_def pg_Get_def pool_call_def zero_source_key wrap_zeros
      store_wrapped_def pg_Put_def val_bytes_def WrappedMasterKeyKey_def)

theorem init_then_unseal_witness:
  "\<exists>cmk s d' s'. init_run (quiet_db [] (\<lambda>i. None)) = (None, toy_fs (\<lambda>c. False), Some s, zero_source\<lparr>pos := 32\<rparr>) \<and>
     length (sb_data cmk) = 32 \<and>
     AutoUnseal (\<lambda>d. []) one_pki one_rsa ''key.pem'' \<lparr>pem_files = [''key.pem'' \<mapsto> [1, 7]], unremovable = \<lambda>p. False\<rparr>
       (NewVaultState 5 3 0 :: unit VaultState) s = (None, d', enter_unsealed cmk (NewVaultState 5 3 0), s')"
proof -
  let ?f = "set_file ''key.pem'' (Some ([1, 7], 0x180)) (toy_fs (\<lambda>c. False))"
  have gen: "runUnsealKeygenCmd one_pki one_rsa ''key.pem'' (toy_fs (\<lambda>c. False)) zero_source = (Inr [2, 8], ?f, zero_source)"
    by (simp add: runUnsealKeygenCmd_def GenerateUnsealKeyPair_def one_pki_def one_rsa_def toy_fs_def)
  have priv: "cfiles ?f ''key.pem'' = Some ([1, 7], 0x180)" by simp
  have pub: "env_ReadFile cli_env ''pub.pem'' = Inr [2, 8]" by (simp add: cli_env_def)
  obtain s where s: "init_run (quiet_db [] (\<lambda>i. None)) = (None, toy_fs (\<lambda>c. False), Some s, zero_source\<lparr>pos := 32\<rparr>)"
    "\<exists>w s'. store_Get WrappedMasterKeyKey s = (Inr w, s')"
    unfolding init_run_empty by (simp add: pg_Get_def pool_call_def)
  then obtain w s' where db: "store_Get WrappedMasterKeyKey s = (Inr w, s')" by blast
  let ?d = "\<lparr>pem_files = [''key.pem'' \<mapsto> [1, 7]], unremovable = \<lambda>p. False\<rparr>"
  have "pem_files ?d ''key.pem'' = Some [1, 7]" "\<not> unremovable ?d ''key.pem''"
    "vstate (NewVaultState 5 3 0 :: unit VaultState) = StateSealed" "\<not> emergencySealed (NewVaultState 5 3 0 :: unit VaultState)"
    by (simp_all add: NewVaultState_def)
  from init_then_unseal [OF one_rsa_ok gen priv pub s(1) [unfolded init_run_def] this db] s(1)
  show ?thesis by blast
qed

text \<open>
  Initialisation can destroy the master key it means to protect: the check for an
  existing key takes a failed read for its absence. On a store that holds a wrapped master key and
  fails the first read only, the command succeeds and the stored key is the new one.
\<close>
theorem init_overwrites:
  "\<exists>db s f r. look db WrappedMasterKeyKey = Some (Raw [1, 2, 3]) \<and> init_run db = (None, f, Some s, r) \<and>
     look s WrappedMasterKeyKey = Some (Raw (0 # replicate 32 0))"
proof -
  let ?db = "quiet_db [(WrappedMasterKeyKey, Raw [1, 2, 3])] (\<lambda>i. if i = 0 then Some ''i/o timeout'' else None)"
  have "\<exists>s f r. init_run ?db = (None, f, Some s, r) \<and> look s WrappedMasterKeyKey = Some (Raw (0 # replicate 32 0))"
    by (simp add: init_run_master_key init_master_key_def quiet_db_def pg_Get_def pool_call_def markUnhealthy_def zero_source_key wrap_zeros
        store_wrapped_def pg_Put_def val_bytes_def WrappedMasterKeyKey_def)
  moreover have "look ?db WrappedMasterKeyKey = Some (Raw [1, 2, 3])" by (simp add: quiet_db_def)
  ultimately show ?thesis by blast
qed

text \<open>The verification command reports success exactly when every entry verifies under the key of
  its own fresh logger.\<close>

theorem audit_verify_exit:
  assumes "NewAuditLogger H w dir r = (Inr logger, r')" "name \<noteq> ''''"
    and "fst (Query J H srt (flt\<lparr>Limit := -1\<rparr>) logger) = Inr results"
  shows "runAuditVerifyCmd J H srt flt name w dir r = 0 \<longleftrightarrow> (\<forall>q \<in> set results. Valid q)"
  using assms by (auto simp: runAuditVerifyCmd_def)

end
