(* ===== verification/Daemon.thy ===== *)
theory Daemon
  imports Http LifecycleProps
begin

text \<open>
  \<^verbatim>\<open>internal/lifecycle/daemon.go\<close> and \<^verbatim>\<open>internal/storage/pg_locker.go\<close>: the rotation
  daemon of a cluster. Each node scans once an hour under an advisory lock of the database and
  rotates the keys that are due. A panic in the daemon's goroutine ends the process; that is the
  outcome \<open>Crashed\<close>. The logged lines are left out.
\<close>

section \<open>pg\_locker.go\<close>

text \<open>
  The lock is held by a session of the database, or free. \<^verbatim>\<open>pg_try_advisory_lock\<close> grants it
  to the session that already holds it, too. \<open>conn\<close> is the outcome of taking a connection from the
  pool, \<open>query\<close> the failure of the query.
\<close>

type_synonym session = nat
type_synonym advisory = "session option"

definition TryAcquire :: "session res \<Rightarrow> err option \<Rightarrow> advisory \<Rightarrow> session option res \<times> advisory" where
  "TryAcquire conn query lock =
     (case conn of
        Inl e \<Rightarrow> (Inl (Wrap ''advisory lock: acquire connection'' e), lock)
      | Inr c \<Rightarrow>
          (case query of
             Some e \<Rightarrow> (Inl (Wrap ''advisory lock: pg_try_advisory_lock'' e), lock)
           | None \<Rightarrow>
               if lock = None \<or> lock = Some c then (Inr (Some c), Some c)
               else (Inr None, lock)))"

definition release_lock :: "session \<Rightarrow> advisory \<Rightarrow> advisory" where
  "release_lock c lock = (if lock = Some c then None else lock)"

section \<open>daemon.go\<close>

definition SystemDaemonActor :: string where
  "SystemDaemonActor = ''SYSTEM_DAEMON''"

record AuditEntry =
  ae_Timestamp :: time
  ae_Actor :: string
  ae_Action :: string
  ae_Resource :: string
  ae_Result :: string

text \<open>\<open>auditFn\<close> is the list of the entries it was handed; its error is only logged. \<open>None\<close> is nil.\<close>

record RotationDaemon =
  d_manager :: Manager
  d_seal :: Unsealer
  auditFn :: "AuditEntry list option"
  scanInterval :: duration

definition NewRotationDaemon :: "Manager \<Rightarrow> Unsealer \<Rightarrow> AuditEntry list option \<Rightarrow> RotationDaemon" where
  "NewRotationDaemon m s audit = \<lparr>d_manager = m, d_seal = s, auditFn = audit, scanInterval = hour\<rparr>"

definition SetScanInterval :: "duration \<Rightarrow> RotationDaemon \<Rightarrow> RotationDaemon" where
  "SetScanInterval i d = d\<lparr>scanInterval := i\<rparr>"

text \<open>The conditions of the loop, in its order.\<close>

definition rotation_wanted :: "time \<Rightarrow> KeyMetadata \<Rightarrow> bool" where
  "rotation_wanted now meta =
     (if KState meta \<noteq> StateActive then False
      else if RotationPeriodDays meta \<le> 0 then False
      else if isZero (NextRotationAt meta) then False
      else \<not> NextRotationAt meta > now)"

fun expired_loop :: "time \<Rightarrow> lc_doc kv \<Rightarrow> KeyMetadata list" where
  "expired_loop now [] = []"
| "expired_loop now ((k, d) # items) =
     (case unmarshal_meta d of
        Inl _ \<Rightarrow> expired_loop now items
      | Inr meta \<Rightarrow> (if rotation_wanted now meta then [meta] else []) @ expired_loop now items)"

definition scanExpiredKeys :: "time \<Rightarrow> RotationDaemon \<Rightarrow> KeyMetadata list res \<times> RotationDaemon" where
  "scanExpiredKeys now d =
     (case store_ScanPrefix ''key:'' (store (d_manager d)) of
        (Inl e, s) \<Rightarrow> (Inl e, d\<lparr>d_manager := (d_manager d)\<lparr>store := s\<rparr>\<rparr>)
      | (Inr items, s) \<Rightarrow> (Inr (expired_loop now items), d\<lparr>d_manager := (d_manager d)\<lparr>store := s\<rparr>\<rparr>))"

datatype outcome = Crashed | Ran RotationDaemon

definition audit_entry :: "time \<Rightarrow> string \<Rightarrow> string \<Rightarrow> AuditEntry" where
  "audit_entry now keyID result =
     \<lparr>ae_Timestamp = now, ae_Actor = SystemDaemonActor, ae_Action = ''AutoRotate'', ae_Resource = keyID, ae_Result = result\<rparr>"

definition hand_over :: "AuditEntry \<Rightarrow> RotationDaemon \<Rightarrow> RotationDaemon" where
  "hand_over e d = d\<lparr>auditFn := map_option (\<lambda>es. es @ [e]) (auditFn d)\<rparr>"

text \<open>
  The error of \<^verbatim>\<open>KEKRef\<close> is dropped. When it fails before calling the closure,
  \<open>rotateErr\<close> and \<open>newMeta\<close> are still nil, and the line that logs the success reads
  \<^verbatim>\<open>newMeta.Version\<close>.
\<close>

definition rotateAndAudit ::
  "prims \<Rightarrow> err option \<Rightarrow> time \<Rightarrow> KeyMetadata \<Rightarrow> RotationDaemon \<Rightarrow> csprng \<Rightarrow> outcome \<times> csprng" where
  "rotateAndAudit P ctx now meta d r =
     (case u_KEKRef (d_seal d) of
        Inl _ \<Rightarrow> (Crashed, r)
      | Inr kek \<Rightarrow>
          (case RotateKey P ctx now (KeyID meta) (Some kek) (d_manager d) r of
             (Inl e, m, r1) \<Rightarrow>
               (Ran (hand_over (audit_entry now (KeyID meta) (''failure: '' @ error_text e)) (d\<lparr>d_manager := m\<rparr>)), r1)
           | (Inr (newMeta, _), m, r1) \<Rightarrow>
               (Ran (hand_over (audit_entry now (KeyID meta) ''success'') (d\<lparr>d_manager := m\<rparr>)), r1)))"

text \<open>\<open>ctx i\<close> is the context's error before the \<open>i\<close>-th key, \<open>clock i\<close> the time then.\<close>

fun rotate_loop ::
  "prims \<Rightarrow> (nat \<Rightarrow> err option) \<Rightarrow> (nat \<Rightarrow> time) \<Rightarrow> nat \<Rightarrow> KeyMetadata list \<Rightarrow> RotationDaemon \<Rightarrow> csprng \<Rightarrow> outcome \<times> csprng" where
  "rotate_loop P ctx clock i [] d r = (Ran d, r)"
| "rotate_loop P ctx clock i (meta # metas) d r =
     (if ctx i \<noteq> None then (Ran d, r)
      else case rotateAndAudit P (ctx i) (clock i) meta d r of
          (Crashed, r1) \<Rightarrow> (Crashed, r1)
        | (Ran d1, r1) \<Rightarrow> rotate_loop P ctx clock (Suc i) metas d1 r1)"

text \<open>The deferred release runs however the scan ends.\<close>

definition scanOnce ::
  "prims \<Rightarrow> session res \<Rightarrow> err option \<Rightarrow> (nat \<Rightarrow> err option) \<Rightarrow> time \<Rightarrow> (nat \<Rightarrow> time) \<Rightarrow> RotationDaemon \<Rightarrow> advisory \<Rightarrow> csprng \<Rightarrow>
   outcome \<times> advisory \<times> csprng" where
  "scanOnce P conn query ctx now clock d lock r =
     (case TryAcquire conn query lock of
        (Inl e, lock1) \<Rightarrow> (Ran d, lock1, r)
      | (Inr None, lock1) \<Rightarrow> (Ran d, lock1, r)
      | (Inr (Some c), lock1) \<Rightarrow>
          (case scanExpiredKeys now d of
             (Inl e, d1) \<Rightarrow> (Ran d1, release_lock c lock1, r)
           | (Inr metas, d1) \<Rightarrow>
               if metas = [] then (Ran d1, release_lock c lock1, r)
               else (case rotate_loop P ctx clock 0 metas d1 r of (x, r1) \<Rightarrow> (x, release_lock c lock1, r1))))"

text \<open>\<^verbatim>\<open>loop\<close>: one round per tick until the context is done.\<close>

datatype daemon_event = Tick "session res" "err option" "nat \<Rightarrow> err option" time "nat \<Rightarrow> time" | Done

fun daemon_loop :: "prims \<Rightarrow> daemon_event list \<Rightarrow> RotationDaemon \<Rightarrow> advisory \<Rightarrow> csprng \<Rightarrow> outcome \<times> advisory \<times> csprng" where
  "daemon_loop P [] d lock r = (Ran d, lock, r)"
| "daemon_loop P (Done # es) d lock r = (Ran d, lock, r)"
| "daemon_loop P (Tick conn query ctx now clock # es) d lock r =
     (case scanOnce P conn query ctx now clock d lock r of
        (Crashed, lock1, r1) \<Rightarrow> (Crashed, lock1, r1)
      | (Ran d1, lock1, r1) \<Rightarrow> daemon_loop P es d1 lock1 r1)"

section \<open>What one scan does\<close>

lemma rotation_wanted_iff:
  "rotation_wanted now a \<longleftrightarrow> KState a = StateActive \<and> 0 < RotationPeriodDays a \<and> \<not> isZero (NextRotationAt a) \<and> NextRotationAt a \<le> now"
  by (auto simp: rotation_wanted_def)

lemma expired_loop_set: "set (expired_loop now items) = {a. (\<exists>k. (k, Doc (DMeta a)) \<in> set items) \<and> rotation_wanted now a}"
  by (induction items rule: expired_loop.induct) (auto simp: unmarshal_meta_Inr split: sum.splits)

text \<open>The keys a manager has due.\<close>

definition due_keys :: "time \<Rightarrow> Manager \<Rightarrow> string set" where
  "due_keys now m = {k. \<exists>v a. meta_at (look (store m)) k v = Some a \<and> rotation_wanted now a}"

text \<open>Periods for which the due date does not overflow.\<close>

definition sane_periods :: "Manager \<Rightarrow> bool" where
  "sane_periods m \<longleftrightarrow> (\<forall>k v a. meta_at (look (store m)) k v = Some a \<longrightarrow> RotationPeriodDays a \<le> 106751)"

lemma rotation_due_later:
  assumes "0 < days" "days \<le> 106751"
  shows "now < rotation_due now days"
proof -
  have "wrap64 (days * 24) = days * 24" "wrap64 (days * 24 * hour) = days * 24 * hour"
    using assms by (auto intro!: wrap64_id)
  with assms show ?thesis by (simp add: rotation_due_def)
qed

lemma rotated_not_wanted:
  assumes "0 < now" "now \<le> t" "days \<le> 106751"
  shows "\<not> rotation_wanted now (rotated_meta keyID v material k t days)"
  using assms rotation_due_later [of days t] by (auto simp: rotation_wanted_iff rotated_meta_def)

lemma RotateKey_due:
  assumes "RotateKey P ctx t keyID kek m r = (Inr x, m', r')" "one_active (meta_at (look (store m)))" "sane_periods m" "0 < now" "now \<le> t"
  shows "due_keys now m' \<subseteq> due_keys now m - {keyID} \<and> sane_periods m'"
proof -
  obtain nm dek where x: "x = (nm, dek)" by (cases x)
  from assms(1) [unfolded x] obtain k v old material r0 where
    old: "meta_at (look (store m)) keyID v = Some old" "KState old = StateActive"
    and nm: "nm = rotated_meta keyID (v + 1) material k t (RotationPeriodDays old)"
    and look: "look (store m') = (set_meta (set_meta (look (store m)) keyID v (Some (old\<lparr>KState := StateDeactivated\<rparr>)))
        keyID (v + 1) (Some nm))(latestVersionMetadataKey keyID \<mapsto> Doc (DInt (v + 1)))"
    by (rule RotateKey_Inr)
  have days: "RotationPeriodDays old \<le> 106751" using assms(3) old(1) by (auto simp: sane_periods_def)
  have at: "meta_at (look (store m')) k' v' = (if k' = keyID \<and> v' = v + 1 then Some nm
      else if k' = keyID \<and> v' = v then Some (old\<lparr>KState := StateDeactivated\<rparr>) else meta_at (look (store m)) k' v')" for k' v'
    by (simp add: look meta_at_set_meta)
  have "\<not> rotation_wanted now nm" using rotated_not_wanted [OF assms(4,5) days] nm by simp
  moreover have "v' = v" if "meta_at (look (store m)) keyID v' = Some a" "rotation_wanted now a" for v' a
    using one_activeD [OF assms(2)] old that by (metis rotation_wanted_iff)
  ultimately have "due_keys now m' \<subseteq> due_keys now m - {keyID}"
    by (fastforce simp: due_keys_def at rotation_wanted_iff split: if_splits)
  moreover have "sane_periods m'"
    using assms(3) days by (auto simp: sane_periods_def at nm rotated_meta_def split: if_splits)
  ultimately show ?thesis ..
qed


lemma RotateKey_failed:
  assumes "RotateKey P ctx t keyID kek m r = (Inl e, m', r')"
  shows "due_keys now m' \<subseteq> due_keys now m" "sane_periods m \<Longrightarrow> sane_periods m'"
    "k \<noteq> keyID \<Longrightarrow> meta_at (look (store m')) k v = meta_at (look (store m)) k v"
proof -
  consider "look (store m') = look (store m)"
    | v old where "meta_at (look (store m)) keyID v = Some old"
      "look (store m') = set_meta (look (store m)) keyID v (Some (old\<lparr>KState := StateDeactivated\<rparr>))"
    using RotateKey_Inl [OF assms] by blast
  note cases = this
  show "due_keys now m' \<subseteq> due_keys now m"
    by (cases rule: cases) (fastforce simp: due_keys_def meta_at_set_meta rotation_wanted_iff split: if_splits)+
  show "sane_periods m'" if "sane_periods m"
    using that by (cases rule: cases) (fastforce simp: sane_periods_def meta_at_set_meta split: if_splits)+
  show "meta_at (look (store m')) k v = meta_at (look (store m)) k v" if "k \<noteq> keyID"
    using that by (cases rule: cases) (simp_all add: meta_at_set_meta)
qed

lemma RotateKey_others:
  assumes "RotateKey P ctx t keyID kek m r = (Inr x, m', r')" "k \<noteq> keyID"
  shows "meta_at (look (store m')) k v = meta_at (look (store m)) k v"
proof -
  obtain nm dek where "x = (nm, dek)" by (cases x)
  with assms(1) have "RotateKey P ctx t keyID kek m r = (Inr (nm, dek), m', r')" by simp
  then show ?thesis by (rule RotateKey_Inr) (simp add: meta_at_set_meta assms(2))
qed

text \<open>What the loop over the expired keys keeps and does, for a vault that hands out its key.\<close>

definition succeeded :: "AuditEntry list \<Rightarrow> string set" where
  "succeeded es = ae_Resource ` {e \<in> set es. ae_Result e = ''success''}"

lemma rotateAndAudit_ok:
  assumes "u_KEKRef (d_seal d) = Inr kek" "one_active (meta_at (look (store (d_manager d))))" "sane_periods (d_manager d)"
    "auditFn d = Some es" "0 < now" "now \<le> t"
  obtains d' r' e where "rotateAndAudit P ctx t meta d r = (Ran d', r')" "d_seal d' = d_seal d"
    "one_active (meta_at (look (store (d_manager d'))))" "sane_periods (d_manager d')" "auditFn d' = Some (es @ [e])"
    "ae_Actor e = SystemDaemonActor" "ae_Resource e = KeyID meta"
    "due_keys now (d_manager d') \<subseteq> due_keys now (d_manager d) - succeeded [e]"
    "\<And>k v. k \<noteq> KeyID meta \<Longrightarrow> meta_at (look (store (d_manager d'))) k v = meta_at (look (store (d_manager d))) k v"
proof -
  obtain x m r' where rot: "RotateKey P ctx t (KeyID meta) (Some kek) (d_manager d) r = (x, m, r')" by (metis prod_cases3)
  have reach: "one_active (meta_at (look (store m)))" using lifecycle.inv_step [OF assms(2) step_rotate [OF rot]] .
  show ?thesis
  proof (cases x)
    case (Inl e)
    let ?e = "audit_entry t (KeyID meta) (''failure: '' @ error_text e)"
    from rot Inl have rot': "RotateKey P ctx t (KeyID meta) (Some kek) (d_manager d) r = (Inl e, m, r')" by simp
    show ?thesis
      by (rule that [of "hand_over ?e (d\<lparr>d_manager := m\<rparr>)" r' ?e])
        (use assms rot' reach RotateKey_failed [OF rot'] in
          \<open>auto simp: rotateAndAudit_def hand_over_def audit_entry_def succeeded_def\<close>)
  next
    case (Inr y)
    let ?e = "audit_entry t (KeyID meta) ''success''"
    from rot Inr have rot': "RotateKey P ctx t (KeyID meta) (Some kek) (d_manager d) r = (Inr y, m, r')" by simp
    show ?thesis
      by (rule that [of "hand_over ?e (d\<lparr>d_manager := m\<rparr>)" r' ?e])
        (use assms rot' reach RotateKey_due [OF rot' assms(2,3,5,6)] RotateKey_others [OF rot'] in
          \<open>auto simp: rotateAndAudit_def hand_over_def audit_entry_def succeeded_def split: prod.split\<close>)
  qed
qed

lemma rotate_loop_ok:
  assumes "u_KEKRef (d_seal d) = Inr kek" "one_active (meta_at (look (store (d_manager d))))" "sane_periods (d_manager d)"
    "auditFn d = Some es" "0 < now" "\<And>i. now \<le> clock i"
  shows "\<exists>d' r' new. rotate_loop P (\<lambda>_. None) clock i metas d r = (Ran d', r')
    \<and> one_active (meta_at (look (store (d_manager d')))) \<and> auditFn d' = Some (es @ new)
    \<and> (\<forall>e \<in> set new. ae_Actor e = SystemDaemonActor) \<and> map ae_Resource new = map KeyID metas
    \<and> due_keys now (d_manager d') \<subseteq> due_keys now (d_manager d) - succeeded new
    \<and> (\<forall>k v. k \<notin> KeyID ` set metas \<longrightarrow> meta_at (look (store (d_manager d'))) k v = meta_at (look (store (d_manager d))) k v)"
  using assms(1-4)
proof (induction metas arbitrary: i d r es)
  case Nil
  then show ?case by (auto simp: succeeded_def)
next
  case (Cons meta metas)
  obtain d1 r1 e where d1: "rotateAndAudit P None (clock i) meta d r = (Ran d1, r1)" "d_seal d1 = d_seal d"
    "one_active (meta_at (look (store (d_manager d1))))" "sane_periods (d_manager d1)" "auditFn d1 = Some (es @ [e])"
    and e: "ae_Actor e = SystemDaemonActor" "ae_Resource e = KeyID meta"
    and due: "due_keys now (d_manager d1) \<subseteq> due_keys now (d_manager d) - succeeded [e]"
    and other: "\<And>k v. k \<noteq> KeyID meta \<Longrightarrow> meta_at (look (store (d_manager d1))) k v = meta_at (look (store (d_manager d))) k v"
    using rotateAndAudit_ok [OF Cons.prems assms(5) assms(6)] by metis
  obtain d' r' new where "rotate_loop P (\<lambda>_. None) clock (Suc i) metas d1 r1 = (Ran d', r')"
    "one_active (meta_at (look (store (d_manager d'))))" "auditFn d' = Some ((es @ [e]) @ new)"
    "\<forall>e \<in> set new. ae_Actor e = SystemDaemonActor" "map ae_Resource new = map KeyID metas"
    "due_keys now (d_manager d') \<subseteq> due_keys now (d_manager d1) - succeeded new"
    "\<forall>k v. k \<notin> KeyID ` set metas \<longrightarrow> meta_at (look (store (d_manager d'))) k v = meta_at (look (store (d_manager d1))) k v"
    using Cons.IH [of d1 "es @ [e]" "Suc i" r1] Cons.prems(1) d1 by auto
  with d1 e due other show ?case
    by (intro exI [of _ d'] exI [of _ r'] exI [of _ "e # new"]) (auto simp: succeeded_def)
qed

lemma store_scan_reliable:
  assumes "reliable s"
  obtains items s' where "store_ScanPrefix ''key:'' s = (Inr items, s')" "look s' = look s" "reliable s'"
    "set items = {(k, d) \<in> set (kvs_of s). has_prefix k ''key:''}"
proof (cases s)
  case (Mem m)
  then show ?thesis by (intro that) (auto simp: mem_ScanPrefix_def)
next
  case (Pg p)
  have "no_wildcard ''key:''" by (simp add: no_wildcard_def)
  from sql_like_prefix [OF this] have like: "sql_like ''key:%'' k \<longleftrightarrow> has_prefix k ''key:''" for k by simp
  from Pg assms show ?thesis
    by (intro that) (auto simp: pg_ScanPrefix_def pool_call_def like pg_look_map_of simp del: sql_like.simps)
qed

lemma scan_due:
  assumes "reliable (store (d_manager d))" "wf_store (store (d_manager d))" "one_active (meta_at (look (store (d_manager d))))"
    "filed (kvs_of (store (d_manager d)))"
  obtains metas d' where "scanExpiredKeys now d = (Inr metas, d')" "d' = d\<lparr>d_manager := (d_manager d)\<lparr>store := store (d_manager d')\<rparr>\<rparr>"
    "look (store (d_manager d')) = look (store (d_manager d))" "KeyID ` set metas = due_keys now (d_manager d)"
proof -
  let ?s = "store (d_manager d)"
  obtain items s' where scan: "store_ScanPrefix ''key:'' ?s = (Inr items, s')" "look s' = look ?s"
    and items: "set items = {(k, d) \<in> set (kvs_of ?s). has_prefix k ''key:''}"
    using store_scan_reliable [OF assms(1)] .
  have stored: "(k, Doc (DMeta a)) \<in> set (kvs_of ?s) \<longleftrightarrow> look ?s k = Some (Doc (DMeta a))" for k a
    using assms(2) by (simp add: look_kvs wf_store_def)
  have "KeyID ` set (expired_loop now items) = due_keys now (d_manager d)"
  proof (intro equalityI subsetI)
    fix k assume "k \<in> KeyID ` set (expired_loop now items)"
    then obtain name a where a: "look ?s name = Some (Doc (DMeta a))" "rotation_wanted now a" "k = KeyID a" "has_prefix name ''key:''"
      by (auto simp: expired_loop_set items stored)
    moreover from a have "name = metadataKey (KeyID a) (Version a)" using assms(4) stored by (auto simp: filed_def)
    ultimately have "meta_at (look ?s) k (Version a) = Some a" by (simp add: meta_at_def)
    with a(2) show "k \<in> due_keys now (d_manager d)" by (auto simp: due_keys_def)
  next
    fix k assume "k \<in> due_keys now (d_manager d)"
    then obtain v a where a: "meta_at (look ?s) k v = Some a" "rotation_wanted now a" by (auto simp: due_keys_def)
    then have "look ?s (metadataKey k v) = Some (Doc (DMeta a))"
      by (auto simp: meta_at_def split: option.splits val.splits lc_doc.splits)
    with a metadataKey_prefixes(2) [of k v] one_activeD(2) [OF assms(3) a(1)] show "k \<in> KeyID ` set (expired_loop now items)"
      by (force simp: expired_loop_set items stored)
  qed
  then show ?thesis
    using scan by (intro that [of "expired_loop now items" "d\<lparr>d_manager := (d_manager d)\<lparr>store := s'\<rparr>\<rparr>"]) (auto simp: scanExpiredKeys_def)
qed



text \<open>
  A sealed vault turns the daemon into a crash of the whole process: if any key is due
  when the hourly scan gets the lock, the first rotation reads the version of a nil result.
\<close>

theorem daemon_crashes_sealed:
  assumes "u_KEKRef (d_seal d) = Inl e" "scanExpiredKeys now d = (Inr (meta # metas), d1)" "ctx 0 = None"
  shows "fst (scanOnce P (Inr c) None ctx now clock d None r) = Crashed"
proof -
  have "d_seal d1 = d_seal d" using assms(2) by (auto simp: scanExpiredKeys_def split: prod.splits sum.splits)
  with assms show ?thesis by (simp add: scanOnce_def TryAcquire_def rotateAndAudit_def)
qed

section \<open>A key that is due, for witnesses\<close>

definition daily_meta :: KeyMetadata where
  "daily_meta = create_meta ''k'' (replicate 12 0 @ replicate 16 0 @ replicate 32 0) toy_kek 7 1"

definition daily_manager :: Manager where
  "daily_manager = toy_m0\<lparr>store := Mem \<lparr>data = [(metadataKey ''k'' 1, Doc (DMeta daily_meta)), (latestVersionMetadataKey ''k'', Doc (DInt 1))]\<rparr>\<rparr>"

definition daily_time :: time where
  "daily_time = 100000 * second"

definition daily_daemon :: "Unsealer \<Rightarrow> RotationDaemon" where
  "daily_daemon s = NewRotationDaemon daily_manager s (Some [])"

definition open_seal :: Unsealer where
  "open_seal = SealVault (snd (DirectUnseal (Some toy_key) (NewVaultState 5 3 0)))"

lemma daily_reachable: "reachable lc_init lc_step daily_manager"
proof -
  have "CreateKey toy_prims 7 ''k'' (Some toy_kek) 1 toy_m0 (zero_source\<lparr>pos := 0\<rparr>) =
     (Inr (daily_meta, toy_dek), daily_manager, zero_source\<lparr>pos := 44\<rparr>)"
    using toy_random [of 0] toy_wrap [of 32]
    by (simp add: CreateKey_def quota_check_def toy_dek_size toy_m0_def daily_manager_def NewManager_def saveMetadata_def
      setLatestVersion_def mem_Put_def NewMemoryStore_def daily_meta_def [symmetric] create_meta_def Let_def)
      (simp add: daily_meta_def create_meta_def)
  moreover have "reachable lc_init lc_step toy_m0"
    by (rule reachable_init, unfold lc_init_def, rule exI [of _ "Mem NewMemoryStore"])
      (simp add: toy_m0_def NewMemoryStore_def meta_at_def)
  ultimately show ?thesis using toy_fresh by (meson reachable_step step_create)
qed

lemma daily_wanted: "rotation_wanted daily_time daily_meta"
proof -
  have "wrap64 24 = 24" "wrap64 86400000000000 = 86400000000000" by (auto intro!: wrap64_id)
  then show ?thesis
    by (simp add: rotation_wanted_iff daily_time_def daily_meta_def create_meta_def rotation_due_def isZero_def)
qed

lemma daily_at: "meta_at (look (store daily_manager)) k v = Some a \<longleftrightarrow> k = ''k'' \<and> v = 1 \<and> a = daily_meta"
  by (auto simp: daily_manager_def meta_at_def metadataKey_inj split: if_splits)

lemma daily_due: "due_keys daily_time daily_manager = {''k''}"
  using daily_wanted by (auto simp: due_keys_def daily_at)

lemma open_seal: "u_KEKRef open_seal = Inr toy_kek"
  by (simp add: open_seal_def DirectUnseal_def NewVaultState_def KEKRef_def enter_unsealed_def getKEK_def toy_kek_def Let_def)


theorem daemon_crashes_sealed_witness:
  "fst (scanOnce toy_prims (Inr 1) None (\<lambda>_. None) daily_time (\<lambda>_. daily_time)
     (daily_daemon (SealVault (NewVaultState 5 3 0))) None zero_source) = Crashed"
proof -
  let ?d = "daily_daemon (SealVault (NewVaultState 5 3 0))"
  have "\<exists>e. u_KEKRef (d_seal ?d) = Inl e"
    by (simp add: daily_daemon_def NewRotationDaemon_def NewVaultState_def KEKRef_def getKEK_def Let_def)
  moreover have "\<exists>d1. scanExpiredKeys daily_time ?d = (Inr [daily_meta], d1)"
    using daily_wanted metadataKey_prefixes(2) [of "''k''" 1]
    by (simp add: scanExpiredKeys_def daily_daemon_def NewRotationDaemon_def daily_manager_def mem_ScanPrefix_def)
  ultimately show ?thesis using daemon_crashes_sealed [of ?d _ daily_time daily_meta "[]" _ "\<lambda>_. None"] by fastforce
qed

end
