(* ===== verification/Bootstrap.thy ===== *)
theory Bootstrap
  imports Daemon ApiProps AuditProps Config LocalPki
begin

text \<open>
  \<^verbatim>\<open>internal/bootstrap/bootstrap.go\<close>, the constructor of \<^verbatim>\<open>v1_router.go\<close> and the part of
  \<^verbatim>\<open>cmd/yvonne/main.go\<close> that decides what is listened on: assembling a server from a
  configuration. The result of an assembly is a server, an error returned to the caller, or the
  end of the process by a panic or a fatal log line. What lies outside (database connection, key
  set download, syslog, build tags, files, the crypto libraries) is in \<open>boot_env\<close>. Go's shared
  pointers are copied values here: at the end of the assembly all holders agree.
\<close>

text \<open>The panics and fatal log lines, one constructor per place.\<close>

datatype fatal =
    InvalidMode | MemoryStorage | AutoUnsealForbidden | UnsupportedUnseal | NoAuthenticator
  | SyslogFailed | AuditFileFailed | GMSMNotCompiled | LocalPKIFailed | HSMInitFailed
  | JWTInitFailed | K8sInitFailed | GRPCTLSError | GRPCPlaintext | NilDereference

datatype 'a built = Built 'a | BuildError err | Fatal fatal

section \<open>Authenticators\<close>

datatype ('p, 'v) Authn =
    AppRoleAuthn AppRoleAuthenticator
  | JWTAuthn "'p JWTAuthenticator"
  | K8sAuthn "'v K8sAuthenticator"
  | MultiAuthn "('p, 'v) Authn" "('p, 'v) Authn"

record ('k, 'p, 'v) boot_env =
  b_config :: config_env
  b_pool_ok :: "bytes \<Rightarrow> bool"
  gmsm_tag :: bool
  hsm_tag :: bool
  b_aead :: aead
  b_connect :: "string \<Rightarrow> lc_doc KVStore res"
  b_doc_bytes :: "lc_doc \<Rightarrow> bytes"
  b_syslog :: "string \<Rightarrow> SyslogWriter res"
  b_unicode :: unicode
  b_hash :: hash_alg
  b_now :: time
  b_stdout :: disk
  b_log_dir :: disk
  b_pki :: "('k, 'p) pki"
  b_rsa :: "('k, 'p) rsa_lib"
  b_pem_dir :: pem_dir
  b_key_files :: "'p key_files"
  b_jwt :: "('p verify_key, MapClaims) jwt_lib"
  b_k8s_jwt :: "('v, k8sSAClaims) jwt_lib"
  b_keyfunc_Get :: "string \<Rightarrow> 'v keyfunc res"

text \<open>A request's token is checked at the time of the request.\<close>

fun authn_run :: "('k, 'p, 'v) boot_env \<Rightarrow> time \<Rightarrow> ('p, 'v) Authn \<Rightarrow> string \<Rightarrow> Policy res" where
  "authn_run B now (AppRoleAuthn a) token = Authenticate a token"
| "authn_run B now (JWTAuthn a) token = jwt_Authenticate (b_jwt B) a now token"
| "authn_run B now (K8sAuthn a) token = k8s_Authenticate (b_k8s_jwt B) a now token"
| "authn_run B now (MultiAuthn a1 a2) token = multi_Authenticate [Some (authn_run B now a1), Some (authn_run B now a2)] token"

definition role_policy :: "AppRoleEntry \<Rightarrow> Policy" where
  "role_policy r = \<lparr>RoleID = entry_RoleID r, AllowedKeys = entry_AllowedKeys r, AllowedActions = entry_AllowedActions r,
     RequireMFA = False, RequireQuorum = 0, ApproverRoles = [], TenantID = entry_TenantID r\<rparr>"

definition load_roles :: "AppRoleEntry list \<Rightarrow> AppRoleAuthenticator \<times> MemoryPolicyStore" where
  "load_roles rs = foldl (\<lambda>(a, ps) r. (RegisterPolicy (entry_RoleID r) (entry_Token r) (role_policy r) a, AddPolicy (Some (role_policy r)) ps))
     (NewAppRoleAuthenticator, NewMemoryPolicyStore) rs"

text \<open>Roles, then tokens, which replace the roles' authenticator, then service accounts, which are
  tried after whatever there is.\<close>

definition build_authenticator :: "('k, 'p, 'v) boot_env \<Rightarrow> AuthModeConf \<Rightarrow> ('p, 'v) Authn built" where
  "build_authenticator B conf =
     (let (appAuth, policies) = (if AppRoles conf = [] then (NewAppRoleAuthenticator, NewMemoryPolicyStore) else load_roles (AppRoles conf));
          fromRoles = (if AppRoles conf = [] then None else Some (AppRoleAuthn appAuth));
          fromJWT = (if SigningMethod (mode_JWT conf) = '''' then Inr fromRoles
            else map_sum (\<lambda>e. e) (\<lambda>a. Some (JWTAuthn a))
              (NewJWTAuthenticator (b_pki B) (b_key_files B) (JWTConfig.truncate (mode_JWT conf)) (Some (memory_LookupPolicy policies))))
      in case fromJWT of
           Inl e \<Rightarrow> Fatal JWTInitFailed
         | Inr existing \<Rightarrow>
             (case (if k8s_Enabled (mode_K8s conf)
                    then map_sum (\<lambda>e. e) Some (NewK8sAuthenticator (b_keyfunc_Get B) (K8sAuthConfig.truncate (mode_K8s conf)))
                    else Inr None) of
                Inl e \<Rightarrow> Fatal K8sInitFailed
              | Inr None \<Rightarrow> (case existing of
                    None \<Rightarrow> Fatal NoAuthenticator
                  | Some a \<Rightarrow> Built a)
              | Inr (Some k) \<Rightarrow> (case existing of None \<Rightarrow> Built (K8sAuthn k) | Some a \<Rightarrow> Built (MultiAuthn a (K8sAuthn k)))))"

section \<open>Parts of the server\<close>

record AdminServer =
  a_seal :: Unsealer
  a_adminToken :: string

record ('p, 'v) Server =
  V1Router_of :: "time \<Rightarrow> V1Router"
  AdminServer_of :: "AdminServer option"
  GRPCServer_of :: "(('p, 'v) Authn option \<times> tls_settings option) option"
  MCPServer_of :: "(string \<times> string list) option"
  Core_of :: Core
  VaultState_of :: Unsealer
  Store_of :: "lc_doc KVStore"
  MasterKey_of :: "SecureBuffer option"
  RotationDaemon_of :: "RotationDaemon option"

definition NewV1Router ::
  "Unsealer \<Rightarrow> AuditLogger option \<Rightarrow> Manager \<Rightarrow> (string \<Rightarrow> Policy res) option \<Rightarrow> V1Router" where
  "NewV1Router s log mgr authn =
     \<lparr>core = NewCore mgr s (Some []), authenticator = authn, r_adminToken = '''', transitMgr = NewTransitKeyManager,
      mfaStore = None, approvalStore = None, auditDir = '''', r_logger = log\<rparr>"

definition setVaultCryptoSuite :: "bool \<Rightarrow> YvonneConfig \<Rightarrow> 'w VaultState \<Rightarrow> 'w VaultState built" where
  "setVaultCryptoSuite gmsm cfg v =
     (if Suite (Crypto cfg) = ''gmsm'' then
        (if gmsm then Built (v\<lparr>cryptoSuite := Some GMSMCipher\<rparr>)
         else Fatal GMSMNotCompiled)
      else if Suite (Crypto cfg) = ''standard'' \<or> Suite (Crypto cfg) = '''' then Built (v\<lparr>cryptoSuite := Some StandardCipher\<rparr>)
      else Built v)"

definition buildClusterAuditLogger ::
  "('k, 'p, 'v) boot_env \<Rightarrow> YvonneConfig \<Rightarrow> csprng \<Rightarrow> AuditLogger built \<times> csprng" where
  "buildClusterAuditLogger B cfg r =
     (let filename = (if audit_Filename (Audit cfg) = '''' then ''audit.log'' else audit_Filename (Audit cfg));
          tag = (if SyslogTag (Audit cfg) = '''' then ''yvonne-kms'' else SyslogTag (Audit cfg))
      in case (if SyslogEnabled (Audit cfg) then map_sum (\<lambda>e. e) Some (b_syslog B tag) else Inr None) of
           Inl e \<Rightarrow> (Fatal SyslogFailed, r)
         | Inr sw \<Rightarrow>
             (case NewDualWriteLogger (b_unicode B) (b_hash B) (b_now B) filename sw (b_stdout B) (b_log_dir B) r of
                (Inl e, d, r1) \<Rightarrow> (Fatal AuditFileFailed, r1)
              | (Inr logger, d, r1) \<Rightarrow> (Built logger, r1)))"

definition buildAdminServer :: "YvonneConfig \<Rightarrow> Unsealer \<Rightarrow> AdminServer option" where
  "buildAdminServer cfg u =
     (if Mode cfg = ModeDev \<or> admin_Enabled (Admin (Server cfg))
      then Some \<lparr>a_seal = u, a_adminToken = admin_Token (Admin (Server cfg))\<rparr>
      else None)"

definition mcp_of :: "YvonneConfig \<Rightarrow> (string \<times> string list) option" where
  "mcp_of cfg = (if mcp_Enabled (MCP (Server cfg)) then Some (mcp_Token (MCP (Server cfg)), mcp_AllowedKeys (MCP (Server cfg))) else None)"

section \<open>Developer mode\<close>

definition buildDevMode ::
  "('k, 'p, 'v) boot_env \<Rightarrow> YvonneConfig \<Rightarrow> AuditLogger \<Rightarrow> csprng \<Rightarrow> ('p, 'v) Server built \<times> csprng" where
  "buildDevMode B cfg log r =
     (case NewSecureBufferFromRandom 32 r of
        (Inl e, r1) \<Rightarrow> (BuildError (Wrap ''bootstrap: dev generate master key'' e), r1)
      | (Inr mk, r1) \<Rightarrow>
          (case setVaultCryptoSuite (gmsm_tag B) cfg (NewVaultState 1 1 0) of
             Fatal m \<Rightarrow> (Fatal m, r1)
           | BuildError e \<Rightarrow> (BuildError e, r1)
           | Built v0 \<Rightarrow>
               (case DirectUnseal (Some mk) v0 of
                  (Some e, v) \<Rightarrow> (BuildError (Wrap ''bootstrap: dev direct unseal failed'' e), r1)
                | (None, v) \<Rightarrow>
                    let mgr = NewManager (Mem NewMemoryStore); u = SealVault v
                    in (Built \<lparr>V1Router_of = (\<lambda>now. NewV1Router u (Some log) mgr None),
                          AdminServer_of = buildAdminServer cfg u,
                          GRPCServer_of = (if grpc_Enabled (GRPC (Server cfg)) then Some (None, None) else None),
                          MCPServer_of = mcp_of cfg,
                          Core_of = SetAdminToken (admin_Token (Admin (Server cfg))) (NewCore mgr u (Some [])),
                          VaultState_of = u, Store_of = Mem NewMemoryStore, MasterKey_of = Some mk,
                          RotationDaemon_of = None\<rparr>, r1))))"

section \<open>Cluster mode\<close>

definition hsm_backend :: "('k, 'p, 'v) boot_env \<Rightarrow> string \<Rightarrow> csprng \<Rightarrow> CryptoBackend res \<times> csprng" where
  "hsm_backend B name r =
     (if \<not> hsm_tag B then (Inl (Msg ''seal: HSM support not compiled in (rebuild with -tags hsm)''), r)
      else case BuildHSMBackend name r of
          (Inl e, r1) \<Rightarrow> (Inl e, r1) | (Inr b, r1) \<Rightarrow> (Inr (mock_backend (b_aead B) b), r1))"

text \<open>The seal: share counts of zero mean the defaults; a vault gets the callback that clears the
  key cache.\<close>

definition build_unsealer ::
  "('k, 'p, 'v) boot_env \<Rightarrow> YvonneConfig \<Rightarrow> lc_doc KVStore \<Rightarrow> csprng \<Rightarrow> (Unsealer \<times> Unsealer \<times> lc_doc KVStore) built \<times> csprng" where
  "build_unsealer B cfg pg r =
     (let u = Unseal cfg;
          tot = (if unseal_TotalShares u = 0 then 5 else unseal_TotalShares u);
          thr = (if unseal_Threshold u = 0 then 3 else unseal_Threshold u);
          linked = (\<lambda>v. SealVault (v\<lparr>onEmergencySeal := Some ClearCache\<rparr>))
      in case setVaultCryptoSuite (gmsm_tag B) cfg (NewVaultState tot thr (30 * minute)) of
           Fatal m \<Rightarrow> (Fatal m, r)
         | BuildError e \<Rightarrow> (BuildError e, r)
         | Built v \<Rightarrow>
             if unseal_Type u = ''shamir'' then (Built (linked v, linked v, pg), r)
             else if unseal_Type u = ''local_pki'' then
               (case AutoUnseal (b_doc_bytes B) (b_pki B) (b_rsa B) (PKIKeyPath u) (b_pem_dir B) v pg of
                  (Some e, d, v1, pg1) \<Rightarrow> (Fatal LocalPKIFailed, r)
                | (None, d, v1, pg1) \<Rightarrow> (Built (linked v1, linked v1, pg1), r))
             else if unseal_Type u = ''hsm'' then
               (case hsm_backend B (HSMBackend u) r of
                  (Inl e, r1) \<Rightarrow> (Fatal HSMInitFailed, r1)
                | (Inr b, r1) \<Rightarrow> (Built (SealHSM (NewHSMUnsealer b), SealVault v, pg), r1))
             else (Fatal UnsupportedUnseal, r))"

text \<open>The nil server that a disabled admin page yields is written to right away.\<close>

definition build_grpc ::
  "('k, 'p, 'v) boot_env \<Rightarrow> YvonneConfig \<Rightarrow> ('p, 'v) Authn \<Rightarrow> (('p, 'v) Authn option \<times> tls_settings option) option built" where
  "build_grpc B cfg a =
     (if \<not> grpc_Enabled (GRPC (Server cfg)) then Built None
      else case BuildTLSConfig (b_config B) (b_pool_ok B) (grpc_TLS (GRPC (Server cfg))) of
          Inl e \<Rightarrow> Fatal GRPCTLSError
        | Inr None \<Rightarrow> Fatal GRPCPlaintext
        | Inr (Some t) \<Rightarrow> Built (Some (Some a, Some t)))"

definition cluster_server ::
  "('k, 'p, 'v) boot_env \<Rightarrow> YvonneConfig \<Rightarrow> AuditLogger \<Rightarrow> Unsealer \<Rightarrow> Unsealer \<Rightarrow> lc_doc KVStore \<Rightarrow> ('p, 'v) Authn \<Rightarrow> ('p, 'v) Server built" where
  "cluster_server B cfg log u adminSeal pg a =
     (let mgr = NewManager pg;
          router = (\<lambda>now. (NewV1Router u (Some log) mgr (Some (authn_run B now a)))
             \<lparr>mfaStore := (if mfa_Enabled (MFA cfg) then Some [] else None), approvalStore := Some NewMemoryApprovalStore\<rparr>)
      in case buildAdminServer cfg adminSeal of
           None \<Rightarrow> Fatal NilDereference
         | Some admin \<Rightarrow>
             (case build_grpc B cfg a of
                Fatal m \<Rightarrow> Fatal m
              | BuildError e \<Rightarrow> BuildError e
              | Built grpc \<Rightarrow>
                  if mcp_Enabled (MCP (Server cfg)) \<and> mcp_Token (MCP (Server cfg)) = ''''
                  then BuildError (Msg ''bootstrap: mcp.token is required when mcp.enabled=true'')
                  else Built \<lparr>V1Router_of = router, AdminServer_of = Some admin, GRPCServer_of = grpc, MCPServer_of = mcp_of cfg,
                         Core_of = SetAdminToken (admin_Token (Admin (Server cfg))) (NewCore mgr u (Some [])),
                         VaultState_of = u, Store_of = pg, MasterKey_of = None,
                         RotationDaemon_of = Some (NewRotationDaemon mgr u (Some []))\<rparr>))"

definition buildClusterMode ::
  "('k, 'p, 'v) boot_env \<Rightarrow> YvonneConfig \<Rightarrow> AuditLogger \<Rightarrow> csprng \<Rightarrow> ('p, 'v) Server built \<times> csprng" where
  "buildClusterMode B cfg log r =
     (if storage_Type (Storage cfg) = ''memory'' then (Fatal MemoryStorage, r)
      else if unseal_Type (Unseal cfg) = ''auto'' then (Fatal AutoUnsealForbidden, r)
      else case b_connect B (mode_DSN (Storage cfg)) of
          Inl e \<Rightarrow> (BuildError (Wrap ''bootstrap: cluster create pg store'' e), r)
        | Inr pg \<Rightarrow>
            (case build_unsealer B cfg pg r of
               (Fatal m, r1) \<Rightarrow> (Fatal m, r1)
             | (BuildError e, r1) \<Rightarrow> (BuildError e, r1)
             | (Built (u, adminSeal, pg1), r1) \<Rightarrow>
                 (case build_authenticator B (Auth_conf cfg) of
                    Fatal m \<Rightarrow> (Fatal m, r1)
                  | BuildError e \<Rightarrow> (BuildError e, r1)
                  | Built a \<Rightarrow> (cluster_server B cfg log u adminSeal pg1 a, r1))))"

definition BuildYvonne ::
  "('k, 'p, 'v) boot_env \<Rightarrow> YvonneConfig option \<Rightarrow> csprng \<Rightarrow> ('p, 'v) Server built \<times> csprng" where
  "BuildYvonne B config r =
     (case config of
        None \<Rightarrow> (BuildError (Msg ''bootstrap: nil config''), r)
      | Some cfg \<Rightarrow>
          if Mode cfg = ModeDev then
            (case NewAuditLogger (b_hash B) (b_stdout B) (b_log_dir B) r of
               (Inl e, r1) \<Rightarrow> (BuildError (Wrap ''bootstrap: dev create audit logger'' e), r1)
             | (Inr log, r1) \<Rightarrow> buildDevMode B cfg log r1)
          else if Mode cfg = ModeCluster then
            (case buildClusterAuditLogger B cfg r of
               (Fatal m, r1) \<Rightarrow> (Fatal m, r1)
             | (BuildError e, r1) \<Rightarrow> (BuildError e, r1)
             | (Built log, r1) \<Rightarrow> buildClusterMode B cfg log r1)
          else (Fatal InvalidMode, r))"

text \<open>\<^verbatim>\<open>Server.Close\<close>: the logger is closed, the developer master key wiped, the pool closed.\<close>

definition server_Close :: "('p, 'v) Server \<Rightarrow> ('p, 'v) Server" where
  "server_Close s = s\<lparr>MasterKey_of := map_option Wipe (MasterKey_of s)\<rparr>"

section \<open>What is listened on (main.go)\<close>

record listener =
  l_addr :: string
  l_port :: int
  l_tls :: bool
  l_what :: string

definition admin_listener :: "YvonneConfig \<Rightarrow> listener" where
  "admin_listener cfg =
     (let a = Admin (Server cfg) in
      if admin_BindAddr a \<noteq> '''' \<and> admin_BindPort a \<noteq> 0
      then \<lparr>l_addr = admin_BindAddr a, l_port = admin_BindPort a, l_tls = False, l_what = ''admin''\<rparr>
      else \<lparr>l_addr = ''127.0.0.1'', l_port = 8250, l_tls = False, l_what = ''admin''\<rparr>)"

definition api_listener :: "YvonneConfig \<Rightarrow> listener" where
  "api_listener cfg =
     \<lparr>l_addr = BindAddr (Server cfg), l_port = BindPort (Server cfg), l_tls = tls_Enabled (TLS (Server cfg)), l_what = ''api''\<rparr>"

definition listeners :: "YvonneConfig \<Rightarrow> ('p, 'v) Server \<Rightarrow> listener list" where
  "listeners cfg s =
     (let sc = Server cfg in
      [api_listener cfg] @
      (case AdminServer_of s of None \<Rightarrow> [] | Some _ \<Rightarrow> [admin_listener cfg]) @
      (case GRPCServer_of s of Some (_, t) \<Rightarrow>
         if grpc_Enabled (GRPC sc)
         then [\<lparr>l_addr = grpc_BindAddr (GRPC sc), l_port = grpc_BindPort (GRPC sc), l_tls = (t \<noteq> None), l_what = ''grpc''\<rparr>] else []
       | None \<Rightarrow> []) @
      (case MCPServer_of s of Some _ \<Rightarrow>
         if HTTPBindPort (MCP sc) > 0
         then [\<lparr>l_addr = HTTPBindAddr (MCP sc), l_port = HTTPBindPort (MCP sc), l_tls = False, l_what = ''mcp''\<rparr>] else []
       | None \<Rightarrow> []))"

section \<open>The configured roles\<close>

lemma load_roles_snoc:
  "load_roles (rs @ [r]) = (RegisterPolicy (entry_RoleID r) (entry_Token r) (role_policy r) (fst (load_roles rs)),
     AddPolicy (Some (role_policy r)) (snd (load_roles rs)))"
  by (simp add: load_roles_def split: prod.split)

lemma auth_wf_load_roles: "auth_wf (fst (load_roles rs))"
proof (induction rs rule: rev_induct)
  case Nil
  then show ?case by (simp add: load_roles_def auth_wf_new)
next
  case (snoc r rs)
  then show ?case by (simp add: load_roles_snoc auth_wf_RegisterPolicy)
qed

lemma snd_load_roles: "snd (load_roles rs) = memory_store.filled (map (Some \<circ> role_policy) rs)"
proof (induction rs rule: rev_induct)
  case Nil
  then show ?case by (simp add: load_roles_def memory_store.filled_def)
next
  case (snoc r rs)
  then show ?case by (simp add: load_roles_snoc memory_store.filled_snoc del: map_append) (simp add: memory_store.filled_snoc)
qed

text \<open>
  Every configured role can log in: when the roles of a configuration have pairwise
  distinct names and tokens and no empty token, each token authenticates as its role with exactly
  the configured keys, actions and tenant, any other text is refused, and the token authenticator
  finds the same policy under the role's name.
\<close>
theorem configured_roles:
  assumes "distinct (map entry_RoleID rs)" "distinct (map entry_Token rs)"
    and "\<And>r. r \<in> set rs \<Longrightarrow> entry_Token r \<noteq> '''' \<and> entry_RoleID r \<noteq> ''''"
  shows "r \<in> set rs \<Longrightarrow> Authenticate (fst (load_roles rs)) (entry_Token r) = Inr (role_policy r)"
    and "t \<notin> entry_Token ` set rs \<Longrightarrow> Authenticate (fst (load_roles rs)) t = Inl ErrUnauthorized"
    and "r \<in> set rs \<Longrightarrow> memory_LookupPolicy (snd (load_roles rs)) (entry_RoleID r) = Inr (Some (role_policy r))"
proof -
  have role [simp]: "(role_policy r)\<lparr>RoleID := entry_RoleID r\<rparr> = role_policy r" "RoleID (role_policy r) = entry_RoleID r" for r
    by (simp_all add: role_policy_def)
  have all: "(\<forall>r \<in> set rs. Authenticate (fst (load_roles rs)) (entry_Token r) = Inr (role_policy r)) \<and>
      (\<forall>t. t \<notin> entry_Token ` set rs \<longrightarrow> Authenticate (fst (load_roles rs)) t = Inl ErrUnauthorized)"
    using assms
  proof (induction rs rule: rev_induct)
    case Nil
    then show ?case by (simp add: load_roles_def NewAppRoleAuthenticator_def Authenticate_def)
  next
    case (snoc x xs)
    then have IH: "\<forall>r \<in> set xs. Authenticate (fst (load_roles xs)) (entry_Token r) = Inr (role_policy r)"
      "\<forall>t. t \<notin> entry_Token ` set xs \<longrightarrow> Authenticate (fst (load_roles xs)) t = Inl ErrUnauthorized" by auto
    have new: "\<And>y. y \<in> set xs \<Longrightarrow> entry_Token y \<noteq> entry_Token x \<and> entry_RoleID y \<noteq> entry_RoleID x \<and> entry_Token y \<noteq> ''''"
      "entry_Token x \<noteq> ''''" using snoc.prems by (auto simp: image_iff)
    show ?case
      using IH new by (auto simp: load_roles_snoc Authenticate_RegisterPolicy [OF auth_wf_load_roles])
  qed
  then show "r \<in> set rs \<Longrightarrow> Authenticate (fst (load_roles rs)) (entry_Token r) = Inr (role_policy r)"
    "t \<notin> entry_Token ` set rs \<Longrightarrow> Authenticate (fst (load_roles rs)) t = Inl ErrUnauthorized" by blast+
  assume r: "r \<in> set rs"
  have "find (\<lambda>p. RoleID p = entry_RoleID r) (map role_policy (rev rs)) = Some (role_policy r)"
  proof -
    have "\<exists>p. find (\<lambda>p. RoleID p = entry_RoleID r) (map role_policy (rev rs)) = Some p"
      using r by (auto simp: find_None_iff simp flip: not_None_eq)
    then obtain p where p: "find (\<lambda>p. RoleID p = entry_RoleID r) (map role_policy (rev rs)) = Some p" by blast
    then obtain x where "x \<in> set rs" "p = role_policy x" "entry_RoleID x = entry_RoleID r"
      by (auto simp: find_Some_iff) (metis nth_mem set_rev length_rev)
    with assms(1) r p show ?thesis by (metis distinct_map inj_on_def)
  qed
  with assms(3) [OF r] show "memory_LookupPolicy (snd (load_roles rs)) (entry_RoleID r) = Inr (Some (role_policy r))"
    by (simp add: snd_load_roles memory_store.lookup_filled List.map_filter_def rev_map comp_def)
qed

definition two_roles :: "AppRoleEntry list" where
  "two_roles = [\<lparr>entry_RoleID = ''ops'', entry_Token = ''t1'', entry_AllowedKeys = [''*''], entry_AllowedActions = [''*''], entry_TenantID = ''''\<rparr>,
     \<lparr>entry_RoleID = ''app'', entry_Token = ''t2'', entry_AllowedKeys = [''a*''], entry_AllowedActions = [''Encrypt''], entry_TenantID = ''acme''\<rparr>]"

theorem configured_roles_witness:
  "Authenticate (fst (load_roles two_roles)) ''t2'' = Inr (role_policy (two_roles ! 1)) \<and>
   Authenticate (fst (load_roles two_roles)) ''t3'' = Inl ErrUnauthorized"
proof -
  have d: "distinct (map entry_RoleID two_roles)" "distinct (map entry_Token two_roles)"
    "\<And>r. r \<in> set two_roles \<Longrightarrow> entry_Token r \<noteq> '''' \<and> entry_RoleID r \<noteq> ''''" by (auto simp: two_roles_def)
  have m: "two_roles ! 1 \<in> set two_roles" "entry_Token (two_roles ! 1) = ''t2''" "''t3'' \<notin> entry_Token ` set two_roles"
    by (simp_all add: two_roles_def)
  show ?thesis using configured_roles(1) [OF d m(1)] configured_roles(2) [OF d m(3)] m(2) by simp
qed

section \<open>What a validated configuration is assembled to\<close>

lemma map_sum_Inr [simp]: "map_sum f g x = Inr y \<longleftrightarrow> (\<exists>z. x = Inr z \<and> y = g z)"
  by (cases x) auto

lemma build_authenticator_roles:
  assumes "AppRoles conf \<noteq> []" "build_authenticator B conf = Fatal m"
  shows "m \<in> {JWTInitFailed, K8sInitFailed}"
  using assms by (auto simp: build_authenticator_def Let_def split: prod.splits if_splits sum.splits option.splits)

lemma build_unsealer_type:
  assumes "unseal_Type (Unseal cfg) \<in> {''shamir'', ''local_pki'', ''hsm''}" "build_unsealer B cfg pg r = (Fatal m, r')"
  shows "m \<in> {GMSMNotCompiled,
     LocalPKIFailed, HSMInitFailed}"
  using assms by (auto simp: build_unsealer_def setVaultCryptoSuite_def Let_def split: prod.splits if_splits sum.splits option.splits built.splits)

lemma cluster_server_Fatal:
  "cluster_server B cfg log u as pg a = Fatal m \<Longrightarrow>
     m \<in> {NilDereference, GRPCTLSError,
       GRPCPlaintext}"
  by (auto simp: cluster_server_def build_grpc_def Let_def split: if_splits sum.splits option.splits built.splits)

lemma buildClusterAuditLogger_Fatal:
  "buildClusterAuditLogger B cfg r = (Fatal m, r') \<Longrightarrow>
     m \<in> {SyslogFailed,
       AuditFileFailed}"
  by (auto simp: buildClusterAuditLogger_def Let_def split: sum.splits prod.splits if_splits)

text \<open>The endings of the process that stand for a configuration the validator should have caught.\<close>

definition config_fatal :: "fatal set" where
  "config_fatal = {InvalidMode,
     MemoryStorage,
     AutoUnsealForbidden,
     UnsupportedUnseal,
     NoAuthenticator}"

lemma build_authenticator_no_error: "build_authenticator B conf \<noteq> BuildError e"
  by (auto simp: build_authenticator_def Let_def split: prod.splits if_splits sum.splits option.splits)

lemma buildClusterMode_Built:
  assumes "buildClusterMode B cfg log r = (Built s, r')"
  obtains pg0 u as pg a r1 where "b_connect B (mode_DSN (Storage cfg)) = Inr pg0"
    "build_unsealer B cfg pg0 r = (Built (u, as, pg), r1)" "build_authenticator B (Auth_conf cfg) = Built a"
    "cluster_server B cfg log u as pg a = Built s"
  using assms by (auto simp: buildClusterMode_def split: if_splits sum.splits prod.splits built.splits)

lemma cluster_server_Built:
  assumes "cluster_server B cfg log u as pg a = Built s"
  shows "V1Router_of s = (\<lambda>now. (NewV1Router u (Some log) (NewManager pg) (Some (authn_run B now a)))
      \<lparr>mfaStore := (if mfa_Enabled (MFA cfg) then Some [] else None), approvalStore := Some NewMemoryApprovalStore\<rparr>)"
    "VaultState_of s = u" "Store_of s = pg" "MasterKey_of s = None" "RotationDaemon_of s \<noteq> None"
    "\<exists>admin. AdminServer_of s = Some admin \<and> admin_Enabled (Admin (Server cfg)) \<or> Mode cfg = ModeDev"
    "\<And>x t. GRPCServer_of s = Some (x, t) \<Longrightarrow> x = Some a \<and> t \<noteq> None"
  using assms
  by (auto simp: cluster_server_def build_grpc_def buildAdminServer_def Let_def
      split: if_splits sum.splits option.splits built.splits)

lemma build_unsealer_shamir:
  assumes "unseal_Type (Unseal cfg) = ''shamir''" "build_unsealer B cfg pg r = (Built (u, as, pg'), r')"
    and "unseal_TotalShares (Unseal cfg) \<noteq> 0" "unseal_Threshold (Unseal cfg) \<noteq> 0"
  shows "\<exists>v. u = SealVault v \<and> vstate v = StateSealed \<and> key_mem v = [] \<and>
    threshold v = unseal_Threshold (Unseal cfg) \<and> total v = unseal_TotalShares (Unseal cfg)"
  using assms
  by (auto simp: build_unsealer_def setVaultCryptoSuite_def NewVaultState_def Let_def split: if_splits built.splits)

lemma build_config_fatal:
  assumes valid: "ValidateYvonneConfig cfg = None" and run: "BuildYvonne B (Some cfg) r = (Fatal m, r')"
  shows "m \<notin> config_fatal"
proof (cases "Mode cfg = ModeDev")
  case True
  with run show ?thesis
    by (auto simp: BuildYvonne_def buildDevMode_def setVaultCryptoSuite_def config_fatal_def Let_def
        split: sum.splits prod.splits if_splits built.splits option.splits)
next
  case False
  with valid have mode: "Mode cfg = ModeCluster" by (auto simp: ValidateYvonneConfig_def split: if_splits)
  have ne: "ModeCluster \<noteq> ModeDev" by (simp add: ModeDev_def ModeCluster_def)
  note vc = validated_cluster [OF valid]
  have storage: "storage_Type (Storage cfg) \<noteq> ''memory''" "unseal_Type (Unseal cfg) \<noteq> ''auto''"
    using vc(1,3) [OF mode] by auto
  from run mode ne have "(\<exists>r1 r2. buildClusterAuditLogger B cfg r1 = (Fatal m, r2)) \<or>
    (\<exists>log r1 r2. buildClusterMode B cfg log r1 = (Fatal m, r2))"
    by (auto simp: BuildYvonne_def split: prod.splits built.splits)
  moreover have "m \<notin> config_fatal" if "buildClusterAuditLogger B cfg r1 = (Fatal m, r2)" for r1 r2
    using buildClusterAuditLogger_Fatal [OF that] by (auto simp: config_fatal_def)
  moreover have "m \<notin> config_fatal" if cm: "buildClusterMode B cfg log r1 = (Fatal m, r2)" for log r1 r2
  proof -
    from cm storage have "(\<exists>pg r3 r4. build_unsealer B cfg pg r3 = (Fatal m, r4)) \<or> build_authenticator B (Auth_conf cfg) = Fatal m \<or>
      (\<exists>u as pg a. cluster_server B cfg log u as pg a = Fatal m)"
      by (auto simp: buildClusterMode_def split: sum.splits prod.splits built.splits)
    then show ?thesis
      using build_unsealer_type [OF vc(3) [OF mode]] build_authenticator_roles [OF vc(8) [OF mode]] cluster_server_Fatal
      by (auto simp: config_fatal_def) blast+
  qed
  ultimately show ?thesis by blast
qed

lemma validated_assembles_parts:
  assumes valid: "ValidateYvonneConfig cfg = None" and run: "BuildYvonne B (Some cfg) r = (out, r')"
  shows "\<And>m. out = Fatal m \<Longrightarrow> m \<notin> config_fatal"
    and "\<And>s now. out = Built s \<Longrightarrow> Mode cfg = ModeCluster \<Longrightarrow>
      authenticator (V1Router_of s now) \<noteq> None \<and> RotationDaemon_of s \<noteq> None \<and>
      (\<exists>pg. b_connect B (mode_DSN (Storage cfg)) = Inr pg) \<and>
      (\<forall>x t. GRPCServer_of s = Some (x, t) \<longrightarrow> x \<noteq> None \<and> t \<noteq> None)"
    and "\<And>s. out = Built s \<Longrightarrow> Mode cfg = ModeCluster \<Longrightarrow> unseal_Type (Unseal cfg) = ''shamir'' \<Longrightarrow>
      (\<exists>v. VaultState_of s = SealVault v \<and> vstate v = StateSealed \<and> key_mem v = [] \<and>
        2 \<le> threshold v \<and> threshold v \<le> total v \<and> total v \<le> 255)"
proof -
  have ne: "ModeCluster \<noteq> ModeDev" by (simp add: ModeDev_def ModeCluster_def)
  note vc = validated_cluster [OF valid]
  show "m \<notin> config_fatal" if "out = Fatal m" for m
    using build_config_fatal [OF valid run [unfolded that]] .
  fix s
  assume built: "out = Built s" and mode: "Mode cfg = ModeCluster"
  from run built mode ne obtain log r1 r2 where "buildClusterMode B cfg log r1 = (Built s, r2)"
    by (auto simp: BuildYvonne_def split: prod.splits built.splits)
  then obtain pg0 u as pg a r3 where parts: "b_connect B (mode_DSN (Storage cfg)) = Inr pg0"
    "build_unsealer B cfg pg0 r1 = (Built (u, as, pg), r3)" "build_authenticator B (Auth_conf cfg) = Built a"
    "cluster_server B cfg log u as pg a = Built s" by (rule buildClusterMode_Built)
  note server = cluster_server_Built [OF parts(4)]
  show "authenticator (V1Router_of s now) \<noteq> None \<and> RotationDaemon_of s \<noteq> None \<and>
      (\<exists>pg. b_connect B (mode_DSN (Storage cfg)) = Inr pg) \<and>
      (\<forall>x t. GRPCServer_of s = Some (x, t) \<longrightarrow> x \<noteq> None \<and> t \<noteq> None)" for now
    using parts(1) server(5) server(7) by (simp add: server(1) NewV1Router_def) blast
  assume shamir: "unseal_Type (Unseal cfg) = ''shamir''"
  from vc(4) [OF mode shamir] have counts: "2 \<le> unseal_Threshold (Unseal cfg)"
    "unseal_Threshold (Unseal cfg) \<le> unseal_TotalShares (Unseal cfg)" "unseal_TotalShares (Unseal cfg) \<le> 255" by auto
  with build_unsealer_shamir [OF shamir parts(2)] server(2)
  show "\<exists>v. VaultState_of s = SealVault v \<and> vstate v = StateSealed \<and> key_mem v = [] \<and>
        2 \<le> threshold v \<and> threshold v \<le> total v \<and> total v \<le> 255" by auto
qed


text \<open>An environment in which every step succeeds, for witnesses.\<close>

definition toy_boot :: "(key_kind, key_kind, unit) boot_env" where
  "toy_boot =
     \<lparr>b_config = \<lparr>env_get = \<lambda>n. '''', env_ReadFile = \<lambda>p. Inr [], scan_other = \<lambda>s. None\<rparr>, b_pool_ok = (\<lambda>b. True),
      gmsm_tag = False, hsm_tag = False, b_aead = toy_aead,
      b_connect = (\<lambda>dsn. Inr (Pg \<lparr>rows = [], notified = [], healthy = True, faults = (\<lambda>i. None), tick = 0, tx_aborted = False\<rparr>)),
      b_doc_bytes = (\<lambda>d. []), b_syslog = (\<lambda>tag. Inl (Msg ''dial'')), b_unicode = toy_unicode, b_hash = toy_hash, b_now = 5,
      b_stdout = no_files, b_log_dir = no_files, b_pki = toy_pki,
      b_rsa = \<lparr>MarshalPKCS1PrivateKey = (\<lambda>k. []), ParsePKCS1PrivateKey = (\<lambda>b. Inl (Msg ''bad'')), MarshalPKCS1PublicKey = (\<lambda>p. []),
        ParsePKCS1PublicKey = (\<lambda>b. Inl (Msg ''bad'')), EncryptOAEP = (\<lambda>p l m r. (Inl (Msg ''bad''), r)), DecryptOAEP = (\<lambda>k l c. Inl (Msg ''bad''))\<rparr>,
      b_pem_dir = \<lparr>pem_files = Map.empty, unremovable = (\<lambda>p. False)\<rparr>, b_key_files = toy_key_files, b_jwt = toy_jwt,
      b_k8s_jwt = toy_k8s, b_keyfunc_Get = (\<lambda>url. Inr (\<lambda>token. Inr ()))\<rparr>"

lemma toy_boot_audit:
  "\<exists>log r'. buildClusterAuditLogger toy_boot (cluster_example\<lparr>Server := sc\<rparr>) zero_source = (Built log, r')"
proof -
  obtain l0 dir' r' where "NewDualWriteLogger toy_unicode toy_hash 5 ''audit.log'' None no_files no_files zero_source = (Inr l0, dir', r')"
    using toy_logger by blast
  then show ?thesis by (simp add: buildClusterAuditLogger_def toy_boot_def cluster_example_def)
qed

lemma cluster_example_fields:
  "Mode (cluster_example\<lparr>Server := sc\<rparr>) = ModeCluster" "storage_Type (Storage cluster_example) = ''postgres''"
  "unseal_Type (Unseal cluster_example) = ''shamir''" "Auth_conf cluster_example = \<lparr>AppRoles = AppRoles (Auth_conf cluster_example), mode_JWT = zero_JWT, mode_K8s = zero_K8s\<rparr>"
  "AppRoles (Auth_conf cluster_example) \<noteq> []" "Suite (Crypto cluster_example) = ''''"
  by (simp_all add: cluster_example_def yvonne_default_def)

lemma toy_authenticator: "\<exists>a. build_authenticator toy_boot (Auth_conf cluster_example) = Built a"
  using cluster_example_fields(5)
  by (subst cluster_example_fields(4)) (simp add: build_authenticator_def zero_JWT_def zero_K8s_def split: prod.split)

lemma toy_unsealer: "\<exists>u as pg1. build_unsealer toy_boot (cluster_example\<lparr>Server := sc\<rparr>) pg r = (Built (u, as, pg1), r)"
  using cluster_example_fields(3,6) by (simp add: build_unsealer_def setVaultCryptoSuite_def Let_def)

text \<open>Up to the last step the assembly of the example succeeds, whatever its server section.\<close>

lemma toy_build:
  "\<exists>log u as pg a r'. BuildYvonne toy_boot (Some (cluster_example\<lparr>Server := sc\<rparr>)) zero_source =
     (cluster_server toy_boot (cluster_example\<lparr>Server := sc\<rparr>) log u as pg a, r')"
proof -
  let ?cfg = "cluster_example\<lparr>Server := sc\<rparr>"
  have ne: "ModeCluster \<noteq> ModeDev" by (simp add: ModeDev_def ModeCluster_def)
  obtain log r1 where log: "buildClusterAuditLogger toy_boot ?cfg zero_source = (Built log, r1)" using toy_boot_audit by blast
  obtain pg0 where pg0: "b_connect toy_boot (mode_DSN (Storage cluster_example)) = Inr pg0" by (simp add: toy_boot_def)
  obtain a where a: "build_authenticator toy_boot (Auth_conf cluster_example) = Built a" using toy_authenticator by blast
  obtain u as pg1 where u: "build_unsealer toy_boot ?cfg pg0 r1 = (Built (u, as, pg1), r1)" using toy_unsealer by blast
  have "BuildYvonne toy_boot (Some ?cfg) zero_source = (cluster_server toy_boot ?cfg log u as pg1 a, r1)"
    using log pg0 a u ne cluster_example_fields(1-3) by (simp add: BuildYvonne_def buildClusterMode_def)
  then show ?thesis by blast
qed

lemma toy_server: "\<exists>s. cluster_server toy_boot (cluster_example\<lparr>Server := Server cluster_example\<rparr>) log u as pg a = Built s"
  by (simp add: cluster_server_def buildAdminServer_def build_grpc_def mcp_of_def cluster_example_def yvonne_default_def
      zero_GRPC_def zero_MCP_def Let_def)

lemma valid_server: "ValidateYvonneConfig (cluster_example\<lparr>Server := sc\<rparr>) = None"
proof -
  have "validateClusterConfig (cluster_example\<lparr>Server := sc\<rparr>) = validateClusterConfig cluster_example"
    by (simp add: validateClusterConfig_def)
  then show ?thesis using cluster_example_valid by (auto simp: ValidateYvonneConfig_def split: if_splits)
qed


section \<open>Where the assembly does not do what it means to\<close>

text \<open>
  With the admin page switched off no cluster server is ever assembled: the builder
  returns a nil server in that case, and the assembly calls its setters. A configuration that
  validates ends the process this way.
\<close>
theorem admin_disabled_crashes:
  assumes "Mode cfg = ModeCluster" "\<not> admin_Enabled (Admin (Server cfg))"
  shows "fst (BuildYvonne B (Some cfg) r) \<noteq> Built s"
    and "\<exists>sc r'. ValidateYvonneConfig (cluster_example\<lparr>Server := sc\<rparr>) = None \<and>
      BuildYvonne toy_boot (Some (cluster_example\<lparr>Server := sc\<rparr>)) zero_source = (Fatal NilDereference, r')"
proof -
  have ne: "ModeCluster \<noteq> ModeDev" by (simp add: ModeDev_def ModeCluster_def)
  have none: "cluster_server B cfg log u as pg a = Fatal NilDereference" for log u as pg a
    using assms ne by (simp add: cluster_server_def buildAdminServer_def Let_def)
  show "fst (BuildYvonne B (Some cfg) r) \<noteq> Built s"
    using assms ne none
    by (auto simp: BuildYvonne_def buildClusterMode_def split: prod.splits built.splits sum.splits)
  define sc where "sc = (Server cluster_example)\<lparr>Admin := \<lparr>admin_Enabled = False, admin_BindAddr = '''', admin_BindPort = 0, admin_Token = ''''\<rparr>\<rparr>"
  obtain log u as pg a r' where b: "BuildYvonne toy_boot (Some (cluster_example\<lparr>Server := sc\<rparr>)) zero_source =
     (cluster_server toy_boot (cluster_example\<lparr>Server := sc\<rparr>) log u as pg a, r')" using toy_build by blast
  have "\<not> admin_Enabled (Admin (Server (cluster_example\<lparr>Server := sc\<rparr>)))" by (simp add: sc_def)
  then have "cluster_server toy_boot (cluster_example\<lparr>Server := sc\<rparr>) log u as pg a = Fatal NilDereference"
    using cluster_example_fields(1) ne by (simp add: cluster_server_def buildAdminServer_def Let_def)
  with b valid_server show "\<exists>sc r'. ValidateYvonneConfig (cluster_example\<lparr>Server := sc\<rparr>) = None \<and>
      BuildYvonne toy_boot (Some (cluster_example\<lparr>Server := sc\<rparr>)) zero_source = (Fatal NilDereference, r')" by metis
qed

theorem admin_disabled_crashes_witness:
  "\<exists>cfg. Mode cfg = ModeCluster \<and> \<not> admin_Enabled (Admin (Server cfg)) \<and> (\<forall>s. fst (BuildYvonne toy_boot (Some cfg) zero_source) \<noteq> Built s)"
proof -
  define cfg where "cfg = cluster_example\<lparr>Server := (Server cluster_example)\<lparr>Admin :=
    \<lparr>admin_Enabled = False, admin_BindAddr = '''', admin_BindPort = 0, admin_Token = ''''\<rparr>\<rparr>\<rparr>"
  have c: "Mode cfg = ModeCluster" "\<not> admin_Enabled (Admin (Server cfg))"
    using cluster_example_fields(1) by (simp_all add: cfg_def)
  with admin_disabled_crashes(1) [OF c] show ?thesis by blast
qed

text \<open>The router of every assembled server has no admin token and no audit directory.\<close>

lemma built_router:
  assumes "BuildYvonne B (Some cfg) r = (Built s, r')"
  shows "r_adminToken (V1Router_of s now) = ''''" "auditDir (V1Router_of s now) = ''''"
proof -
  have ne: "ModeCluster \<noteq> ModeDev" by (simp add: ModeDev_def ModeCluster_def)
  have "(\<exists>u log mgr. V1Router_of s now = NewV1Router u log mgr None) \<or>
      (\<exists>log r1 r2. buildClusterMode B cfg log r1 = (Built s, r2))"
    using assms
    by (auto simp: BuildYvonne_def buildDevMode_def Let_def split: if_splits sum.splits prod.splits built.splits option.splits) blast+
  then have "r_adminToken (V1Router_of s now) = '''' \<and> auditDir (V1Router_of s now) = ''''"
  proof (elim disjE exE)
    fix log r1 r2
    assume "buildClusterMode B cfg log r1 = (Built s, r2)"
    then show ?thesis
      by (rule buildClusterMode_Built) (simp add: cluster_server_Built(1) NewV1Router_def)
  qed (simp add: NewV1Router_def)
  then show "r_adminToken (V1Router_of s now) = ''''" "auditDir (V1Router_of s now) = ''''" by blast+
qed

lemma dead_endpoints_parts:
  assumes "BuildYvonne B (Some cfg) r = (Built s, r')"
  shows "\<exists>status msg. status \<in> {400, 403, 405} \<and>
      handleEmergencySeal E req (V1Router_of s now) rs = (writeJSONError status msg, V1Router_of s now, rs)"
    and "\<exists>status msg. status \<in> {400, 405, 503} \<and>
      handleAuditQuery E req (V1Router_of s now) rs = (writeJSONError status msg, V1Router_of s now, rs)"
  using built_router [OF assms, of now]
  by (auto simp: handleEmergencySeal_def handleAuditQuery_def requireMethod_def with_body_def panic_body_def query_body_def
      split: option.splits)

text \<open>
  Two endpoints are dead in every assembled server, in both modes and with every
  configuration: the emergency seal answers each request with an error and leaves the router as it
  is, because the admin token is given to the core and never to the router, and the audit query
  never answers with entries, because nothing sets its log directory.
\<close>
theorem dead_endpoints:
  assumes "BuildYvonne B (Some cfg) r = (Built s, r')"
  shows "(\<exists>status msg. status \<in> {400, 403, 405} \<and>
      handleEmergencySeal E req (V1Router_of s now) rs = (writeJSONError status msg, V1Router_of s now, rs))
    \<and> (\<exists>status msg. status \<in> {400, 405, 503} \<and>
      handleAuditQuery E req (V1Router_of s now) rs = (writeJSONError status msg, V1Router_of s now, rs))"
  by (intro conjI dead_endpoints_parts [OF assms])

theorem dead_endpoints_witness:
  "\<exists>s r' status msg. BuildYvonne toy_boot (Some (cluster_example\<lparr>Server := Server cluster_example\<rparr>)) zero_source = (Built s, r') \<and>
     handleEmergencySeal toy_env (toy_request ''POST'' ''/api/v1/sys/panic'' ''tok'') (V1Router_of s 7) zero_source = (writeJSONError status msg, V1Router_of s 7, zero_source)"
proof -
  let ?cfg = "cluster_example\<lparr>Server := Server cluster_example\<rparr>"
  obtain log u as pg a r' where b: "BuildYvonne toy_boot (Some ?cfg) zero_source = (cluster_server toy_boot ?cfg log u as pg a, r')"
    using toy_build by blast
  have "\<exists>s. cluster_server toy_boot ?cfg log u as pg a = Built s" by (rule toy_server)
  then obtain s where s: "BuildYvonne toy_boot (Some ?cfg) zero_source = (Built s, r')" using b by auto
  from dead_endpoints [OF s] s show ?thesis by blast
qed

text \<open>With tokens configured, the roles' own tokens are no longer accepted: the token authenticator
  takes the place of the roles' one.\<close>

theorem tokens_replace_roles:
  assumes "SigningMethod (mode_JWT conf) \<noteq> ''''" "\<not> k8s_Enabled (mode_K8s conf)" "build_authenticator B conf = Built a"
  shows "\<exists>j. a = JWTAuthn j"
  using assms by (auto simp: build_authenticator_def Let_def split: prod.splits if_splits sum.splits option.splits)

text \<open>The older validator insists on a loopback address for the admin page; the one in use does not,
  and the page is served without TLS.\<close>

theorem admin_exposed:
  "\<exists>sc. ValidateYvonneConfig (cluster_example\<lparr>Server := sc\<rparr>) = None \<and> validate_server sc \<noteq> [] \<and>
     admin_listener (cluster_example\<lparr>Server := sc\<rparr>) = \<lparr>l_addr = ''0.0.0.0'', l_port = 8250, l_tls = False, l_what = ''admin''\<rparr>"
proof -
  define sc where "sc = (Server cluster_example)\<lparr>Admin := \<lparr>admin_Enabled = True, admin_BindAddr = ''0.0.0.0'', admin_BindPort = 8250, admin_Token = ''''\<rparr>\<rparr>"
  have "validate_server sc \<noteq> []" "admin_listener (cluster_example\<lparr>Server := sc\<rparr>) = \<lparr>l_addr = ''0.0.0.0'', l_port = 8250, l_tls = False, l_what = ''admin''\<rparr>"
    by (simp_all add: sc_def validate_server_def admin_listener_def Let_def)
  with valid_server show ?thesis by blast
qed

text \<open>In developer mode the vault is open from the start and nothing is authenticated; closing the
  server wipes the key.\<close>

theorem dev_mode_open:
  assumes "Mode cfg = ModeDev" "BuildYvonne B (Some cfg) r = (Built s, r')"
  shows "authenticator (V1Router_of s now) = None" "Store_of s = Mem NewMemoryStore"
    "\<exists>v mk. VaultState_of s = SealVault v \<and> IsUnsealed v \<and> MasterKey_of s = Some mk \<and> length (sb_data mk) = 32 \<and>
       MasterKey_of (server_Close s) = Some (Wipe mk)"
proof -
  from assms obtain log r1 where "buildDevMode B cfg log r1 = (Built s, r')"
    by (auto simp: BuildYvonne_def split: prod.splits sum.splits)
  then obtain mk r2 v0 v where mk: "NewSecureBufferFromRandom 32 r1 = (Inr mk, r2)" and v: "DirectUnseal (Some mk) v0 = (None, v)"
    and s: "V1Router_of s = (\<lambda>now. NewV1Router (SealVault v) (Some log) (NewManager (Mem NewMemoryStore)) None)"
      "VaultState_of s = SealVault v" "Store_of s = Mem NewMemoryStore" "MasterKey_of s = Some mk"
    by (auto simp: buildDevMode_def Let_def split: prod.splits sum.splits built.splits option.splits)
  have "length (sb_data mk) = 32"
    using mk by (auto simp: NewSecureBufferFromRandom_def split: prod.splits sum.splits dest: GenerateSecureRandom_length)
  moreover have "IsUnsealed v"
    using v by (auto simp: DirectUnseal_def enter_unsealed_def IsUnsealed_def Let_def split: if_splits)
  ultimately show "authenticator (V1Router_of s now) = None" "Store_of s = Mem NewMemoryStore"
    "\<exists>v mk. VaultState_of s = SealVault v \<and> IsUnsealed v \<and> MasterKey_of s = Some mk \<and> length (sb_data mk) = 32 \<and>
       MasterKey_of (server_Close s) = Some (Wipe mk)"
    using s by (auto simp: NewV1Router_def server_Close_def)
qed

end
