(* ===== verification/Client.thy ===== *)
theory Client
  imports Http
begin

text \<open>
  \<^verbatim>\<open>sdk/go/yvonne\<close>: the Go client of the HTTP interface, with retries, a circuit breaker
  and trace identifiers. Sending a request is a parameter, a function of the number of the attempt;
  so are the clock, the cancelling of the caller's context while the client waits, and the JSON
  codec. Floating-point arithmetic, used for the waiting times only, is the parameter
  \<open>float_ops\<close>.
\<close>

section \<open>The circuit breaker\<close>

datatype circuitState = circuitClosed | circuitOpen | circuitHalfOpen

record CircuitBreakerConfig =
  FailureThreshold :: int
  ResetTimeout :: duration

definition DefaultCircuitBreakerConfig :: CircuitBreakerConfig where
  "DefaultCircuitBreakerConfig = \<lparr>FailureThreshold = 10, ResetTimeout = 60 * second\<rparr>"

text \<open>\<open>lastFailureTime\<close> is 0, the Unix epoch, until a failure is recorded; the model's clock
  counts from there.\<close>

record CircuitBreaker =
  cb_config :: CircuitBreakerConfig
  cb_state :: circuitState
  failureCount :: int
  lastFailureTime :: time

definition NewCircuitBreaker :: "CircuitBreakerConfig option \<Rightarrow> CircuitBreaker" where
  "NewCircuitBreaker cfg = \<lparr>cb_config = (case cfg of None \<Rightarrow> DefaultCircuitBreakerConfig | Some c \<Rightarrow> c),
     cb_state = circuitClosed, failureCount = 0, lastFailureTime = 0\<rparr>"

definition Allow :: "time \<Rightarrow> CircuitBreaker \<Rightarrow> bool \<times> CircuitBreaker" where
  "Allow now cb =
     (case cb_state cb of
        circuitClosed \<Rightarrow> (True, cb)
      | circuitOpen \<Rightarrow>
          if now - lastFailureTime cb > ResetTimeout (cb_config cb) then (True, cb\<lparr>cb_state := circuitHalfOpen\<rparr>)
          else (False, cb)
      | circuitHalfOpen \<Rightarrow> (True, cb))"

definition RecordSuccess :: "CircuitBreaker \<Rightarrow> CircuitBreaker" where
  "RecordSuccess cb = cb\<lparr>failureCount := 0, cb_state := circuitClosed\<rparr>"

definition RecordFailure :: "time \<Rightarrow> CircuitBreaker \<Rightarrow> CircuitBreaker" where
  "RecordFailure now cb =
     (let cb1 = cb\<lparr>failureCount := failureCount cb + 1, lastFailureTime := now\<rparr>
      in if failureCount cb1 \<ge> FailureThreshold (cb_config cb) then cb1\<lparr>cb_state := circuitOpen\<rparr> else cb1)"

fun cb_State :: "circuitState \<Rightarrow> string" where
  "cb_State circuitClosed = ''closed''"
| "cb_State circuitOpen = ''open''"
| "cb_State circuitHalfOpen = ''half-open''"

section \<open>Configuration\<close>

record RetryConfig =
  MaxRetries :: int
  InitialBackoff :: duration
  MaxBackoff :: duration
  RetryableStatus :: "(int \<times> bool) list option"

definition DefaultRetryConfig :: RetryConfig where
  "DefaultRetryConfig = \<lparr>MaxRetries = 3, InitialBackoff = 100000000, MaxBackoff = 5 * second,
     RetryableStatus = Some [(502, True), (503, True), (504, True)]\<rparr>"

record Client =
  baseURL :: string
  token :: string
  timeout :: duration
  retryConfig :: "RetryConfig option"
  circuitBreaker :: "CircuitBreaker option"
  traceIDHeader :: string

definition New :: "string \<Rightarrow> string \<Rightarrow> Client" where
  "New url tok = \<lparr>baseURL = url, token = tok, timeout = 30 * second, retryConfig = None, circuitBreaker = None, traceIDHeader = ''''\<rparr>"

datatype ClientOption =
    WithRetry "RetryConfig option" | WithCircuitBreaker "CircuitBreakerConfig option" | WithTraceID string | WithTimeout duration

fun apply_option :: "ClientOption \<Rightarrow> Client \<Rightarrow> Client" where
  "apply_option (WithRetry cfg) c = c\<lparr>retryConfig := cfg\<rparr>"
| "apply_option (WithCircuitBreaker cfg) c = c\<lparr>circuitBreaker := Some (NewCircuitBreaker cfg)\<rparr>"
| "apply_option (WithTraceID header) c = c\<lparr>traceIDHeader := header\<rparr>"
| "apply_option (WithTimeout d) c = c\<lparr>timeout := d\<rparr>"

definition NewWithOpts :: "string \<Rightarrow> string \<Rightarrow> ClientOption list \<Rightarrow> Client" where
  "NewWithOpts url tok opts = foldl (\<lambda>c opt. apply_option opt c) (New url tok) opts"

section \<open>Which errors are retried\<close>

fun index_from :: "string \<Rightarrow> string \<Rightarrow> nat \<Rightarrow> nat \<Rightarrow> int" where
  "index_from s sub i 0 = -1"
| "index_from s sub i (Suc n) = (if take (length sub) (drop i s) = sub then int i else index_from s sub (i + 1) n)"

text \<open>The loop runs while \<open>i \<le> len(s) - len(sub)\<close>.\<close>

definition indexOfStr :: "string \<Rightarrow> string \<Rightarrow> int" where
  "indexOfStr s sub = index_from s sub 0 (length s + 1 - length sub)"

definition containsStr :: "string \<Rightarrow> string \<Rightarrow> bool" where
  "containsStr s sub \<longleftrightarrow> length s \<ge> length sub \<and> (s = sub \<or> indexOfStr s sub \<ge> 0)"

definition isRetryable :: "Client \<Rightarrow> err \<Rightarrow> bool" where
  "isRetryable c e =
     (case retryConfig c of
        None \<Rightarrow> False
      | Some cfg \<Rightarrow>
          (case RetryableStatus cfg of
             None \<Rightarrow> False
           | Some codes \<Rightarrow>
               if \<exists>(status, _) \<in> set codes. containsStr (error_text e) (''HTTP '' @ dec_int status) then True
               else \<not> containsStr (error_text e) ''HTTP ''))"

section \<open>Trace identifiers\<close>

text \<open>The failure of the random source is ignored, and the bytes stay zero.\<close>

definition generateTraceID :: "csprng \<Rightarrow> string \<times> csprng" where
  "generateTraceID r = (case rand_Read 16 r of
     (Some b, r1) \<Rightarrow> (hex_EncodeToString b, r1) | (None, r1) \<Rightarrow> (hex_EncodeToString (replicate 16 0), r1))"

text \<open>The trace identifier of the caller's context, \<open>None\<close> when it has none.\<close>

definition injectTraceID :: "Client \<Rightarrow> string option \<Rightarrow> csprng \<Rightarrow> string option \<times> csprng" where
  "injectTraceID c trace r =
     (if traceIDHeader c = '''' then (trace, r)
      else case trace of
          Some t \<Rightarrow> if t = '''' then (case generateTraceID r of (t', r1) \<Rightarrow> (Some t', r1)) else (trace, r)
        | None \<Rightarrow> (case generateTraceID r of (t', r1) \<Rightarrow> (Some t', r1)))"

definition TraceIDFromContext :: "string option \<Rightarrow> string" where
  "TraceIDFromContext trace = (case trace of Some v \<Rightarrow> v | None \<Rightarrow> '''')"

section \<open>One request\<close>

record http_request =
  h_method :: string
  h_url :: string
  h_headers :: "(string \<times> string) list"
  h_body :: "bytes option"

text \<open>
  \<open>encode\<close> marshals a body, \<open>new_ok\<close> says whether the request can be built, \<open>err_field\<close> is
  the error text of the response's envelope (empty when there is none or it does not decode), and
  \<open>decode\<close> reads the caller's structure.
\<close>

record ('b, 'o) codec_ops =
  encode :: "'b \<Rightarrow> bytes res"
  new_ok :: "string \<Rightarrow> string \<Rightarrow> bool"
  err_field :: "bytes \<Rightarrow> string"
  decode :: "bytes \<Rightarrow> 'o res"

definition build_request :: "('b, 'o) codec_ops \<Rightarrow> Client \<Rightarrow> string option \<Rightarrow> string \<Rightarrow> string \<Rightarrow> 'b option \<Rightarrow> http_request res" where
  "build_request K c trace method path body =
     bindR (case body of None \<Rightarrow> Inr None | Some b \<Rightarrow> wrapR ''yvonne: marshal body'' (map_sum (\<lambda>e. e) Some (encode K b))) (\<lambda>raw.
       if \<not> new_ok K method (baseURL c @ path) then Inl (Wrap ''yvonne: new request'' (Msg ''net/http: invalid request''))
       else Inr \<lparr>h_method = method, h_url = baseURL c @ path,
         h_headers = (if body = None then [] else [(''Content-Type'', ''application/json'')]) @
           (if token c = '''' then [] else [(''Authorization'', ''Bearer '' @ token c)]) @
           (if traceIDHeader c = '''' \<or> TraceIDFromContext trace = '''' then [] else [(traceIDHeader c, TraceIDFromContext trace)]),
         h_body = raw\<rparr>)"

definition read_response :: "('b, 'o) codec_ops \<Rightarrow> (int \<times> bytes) res \<Rightarrow> 'o res" where
  "read_response K answer =
     (case answer of
        Inl e \<Rightarrow> Inl (Wrap ''yvonne: http'' e)
      | Inr (status, raw) \<Rightarrow>
          if status \<ge> 400 then
            (if err_field K raw \<noteq> '''' then Inl (Msg (''yvonne: HTTP '' @ dec_int status @ '': '' @ err_field K raw))
             else Inl (Msg (''yvonne: HTTP '' @ dec_int status)))
          else wrapR ''yvonne: decode response'' (decode K raw))"

text \<open>The requests that reach the network are listed, too.\<close>

definition doOnce ::
  "('b, 'o) codec_ops \<Rightarrow> (http_request \<Rightarrow> (int \<times> bytes) res) \<Rightarrow> Client \<Rightarrow> string option \<Rightarrow> string \<Rightarrow> string \<Rightarrow> 'b option \<Rightarrow>
   'o res \<times> http_request list" where
  "doOnce K send c trace method path body =
     (case build_request K c trace method path body of
        Inl e \<Rightarrow> (Inl e, [])
      | Inr req \<Rightarrow> (read_response K (send req), [req]))"

section \<open>Retrying\<close>

record ('b, 'o) world =
  w_codec :: "('b, 'o) codec_ops"
  w_send :: "nat \<Rightarrow> http_request \<Rightarrow> (int \<times> bytes) res"
  w_now :: "nat \<Rightarrow> time"
  w_cancelled :: "nat \<Rightarrow> err option"

definition note_failure :: "time \<Rightarrow> Client \<Rightarrow> Client" where
  "note_failure now c = c\<lparr>circuitBreaker := map_option (RecordFailure now) (circuitBreaker c)\<rparr>"

definition note_success :: "Client \<Rightarrow> Client" where
  "note_success c = c\<lparr>circuitBreaker := map_option RecordSuccess (circuitBreaker c)\<rparr>"

text \<open>The loop from one attempt on, with the number of attempts left.\<close>

fun attempts ::
  "('b, 'o) world \<Rightarrow> string \<Rightarrow> string \<Rightarrow> 'b option \<Rightarrow> nat \<Rightarrow> nat \<Rightarrow> err \<Rightarrow> string option \<Rightarrow> Client \<Rightarrow> csprng \<Rightarrow>
   'o res \<times> http_request list \<times> Client \<times> csprng" where
  "attempts W method path body attempt 0 lastErr trace c r = (Inl (Wrap ''yvonne: max retries exceeded'' lastErr), [], c, r)"
| "attempts W method path body attempt (Suc left) lastErr trace c r =
     (case (if attempt > 0 then w_cancelled W attempt else None) of
        Some e \<Rightarrow> (Inl e, [], c, r)
      | None \<Rightarrow>
          (case injectTraceID c trace r of
             (trace1, r1) \<Rightarrow>
               (case doOnce (w_codec W) (w_send W attempt) c trace1 method path body of
                  (Inr out, sent) \<Rightarrow> (Inr out, sent, note_success c, r1)
                | (Inl e, sent) \<Rightarrow>
                    let c1 = note_failure (w_now W attempt) c
                    in if \<not> isRetryable c e then (Inl e, sent, c1, r1)
                       else (case attempts W method path body (attempt + 1) left e trace1 c1 r1 of
                               (res, others, c2, r2) \<Rightarrow> (res, sent @ others, c2, r2)))))"

text \<open>With a negative number of retries the loop is not entered and the error wrapped is nil.\<close>

definition doWithRetry ::
  "('b, 'o) world \<Rightarrow> string \<Rightarrow> string \<Rightarrow> 'b option \<Rightarrow> string option \<Rightarrow> Client \<Rightarrow> csprng \<Rightarrow>
   'o res \<times> http_request list \<times> Client \<times> csprng" where
  "doWithRetry W method path body trace c r =
     (case (case circuitBreaker c of None \<Rightarrow> (True, None) | Some cb \<Rightarrow> (case Allow (w_now W 0) cb of (ok, cb1) \<Rightarrow> (ok, Some cb1))) of
        (False, cb) \<Rightarrow> (Inl ErrCircuitOpen, [], c\<lparr>circuitBreaker := cb\<rparr>, r)
      | (True, cb) \<Rightarrow>
          (let maxRetries = (case retryConfig c of None \<Rightarrow> 0 | Some cfg \<Rightarrow> MaxRetries cfg)
           in attempts W method path body 0 (nat (maxRetries + 1)) (Msg ''%!w(<nil>)'') trace (c\<lparr>circuitBreaker := cb\<rparr>) r))"

definition client_do ::
  "('b, 'o) world \<Rightarrow> string \<Rightarrow> string \<Rightarrow> 'b option \<Rightarrow> string option \<Rightarrow> Client \<Rightarrow> csprng \<Rightarrow>
   'o res \<times> http_request list \<times> Client \<times> csprng" where
  "client_do W method path body trace c r =
     (if retryConfig c \<noteq> None \<or> circuitBreaker c \<noteq> None then doWithRetry W method path body trace c r
      else case doOnce (w_codec W) (w_send W 0) c trace method path body of (res, sent) \<Rightarrow> (res, sent, c, r))"

section \<open>The operations\<close>

record 'd reply =
  reply_OK :: bool
  reply_Data :: 'd
  reply_Err :: string

datatype sdk_body = CreateBody string "bool option" | VersionBody int | EncryptBody string string | DecryptBody string string

text \<open>\<open>base64\<close> is \<^verbatim>\<open>base64.StdEncoding.EncodeToString\<close>.\<close>

type_synonym ('d, 'a) sdk_call =
  "(sdk_body, 'd reply) world \<Rightarrow> string option \<Rightarrow> Client \<Rightarrow> csprng \<Rightarrow> 'a res \<times> http_request list \<times> Client \<times> csprng"

definition checked :: "'d reply \<Rightarrow> 'd res" where
  "checked resp = (if \<not> reply_OK resp then Inl (Msg (''yvonne: '' @ reply_Err resp)) else Inr (reply_Data resp))"

definition sdk_request :: "string \<Rightarrow> string \<Rightarrow> sdk_body option \<Rightarrow> ('d reply \<Rightarrow> 'a res) \<Rightarrow> ('d, 'a) sdk_call" where
  "sdk_request method path body finish W trace c r =
     (case client_do W method path body trace c r of
        (Inl e, sent, c1, r1) \<Rightarrow> (Inl e, sent, c1, r1)
      | (Inr resp, sent, c1, r1) \<Rightarrow> (finish resp, sent, c1, r1))"

definition sdk_Health :: "('d, 'd) sdk_call" where
  "sdk_Health = sdk_request ''GET'' ''/api/v1/sys/health'' None (\<lambda>resp. Inr (reply_Data resp))"

definition sdk_CreateKey :: "string \<Rightarrow> bool option \<Rightarrow> ('d, 'd) sdk_call" where
  "sdk_CreateKey keyID returnDEK = sdk_request ''POST'' ''/api/v1/keys'' (Some (CreateBody keyID returnDEK)) checked"

definition sdk_RotateKey :: "string \<Rightarrow> ('d, 'd) sdk_call" where
  "sdk_RotateKey keyID = sdk_request ''POST'' (''/api/v1/keys/'' @ keyID @ ''/rotate'') None checked"

definition sdk_ShredKey :: "string \<Rightarrow> int \<Rightarrow> ('d, unit) sdk_call" where
  "sdk_ShredKey keyID version = sdk_request ''DELETE'' (''/api/v1/keys/'' @ keyID @ ''/shred'') (Some (VersionBody version))
     (\<lambda>resp. bindR (checked resp) (\<lambda>_. Inr ()))"

definition sdk_Encrypt :: "(bytes \<Rightarrow> string) \<Rightarrow> string \<Rightarrow> bytes \<Rightarrow> ('d, 'd) sdk_call" where
  "sdk_Encrypt base64 keyID plaintext = sdk_request ''POST'' ''/api/v1/encrypt'' (Some (EncryptBody keyID (base64 plaintext))) checked"

definition sdk_Decrypt :: "(bytes \<Rightarrow> string) \<Rightarrow> string \<Rightarrow> bytes \<Rightarrow> ('d, 'd) sdk_call" where
  "sdk_Decrypt base64 keyID ciphertext = sdk_request ''POST'' ''/api/v1/decrypt'' (Some (DecryptBody keyID (base64 ciphertext))) checked"

definition sdk_GenerateDataKey :: "string \<Rightarrow> ('d, 'd) sdk_call" where
  "sdk_GenerateDataKey keyID = sdk_request ''POST'' (''/api/v1/keys/'' @ keyID @ ''/generate-data-key'') None checked"

section \<open>Waiting times\<close>

record 'f float_ops =
  f_of_int :: "int \<Rightarrow> 'f"
  f_to_int :: "'f \<Rightarrow> int"
  f_mul :: "'f \<Rightarrow> 'f \<Rightarrow> 'f"
  f_add :: "'f \<Rightarrow> 'f \<Rightarrow> 'f"
  f_sub :: "'f \<Rightarrow> 'f \<Rightarrow> 'f"
  f_div :: "'f \<Rightarrow> 'f \<Rightarrow> 'f"
  f_pow :: "'f \<Rightarrow> 'f \<Rightarrow> 'f"
  f_02 :: 'f

text \<open>\<^verbatim>\<open>randFloat\<close>: eight random bytes, big-endian, over the largest 64-bit number.\<close>

definition randFloat :: "'f float_ops \<Rightarrow> csprng \<Rightarrow> 'f \<times> csprng" where
  "randFloat F r =
     (let (b, r1) = rand_Read 8 r;
          v = foldl (\<lambda>v x. 256 * v + uint x) 0 (case b of Some bs \<Rightarrow> bs | None \<Rightarrow> replicate 8 0)
      in (f_div F (f_of_int F v) (f_of_int F (2 ^ 64 - 1)), r1))"

definition calculateBackoff :: "'f float_ops \<Rightarrow> Client \<Rightarrow> int \<Rightarrow> csprng \<Rightarrow> duration \<times> csprng" where
  "calculateBackoff F c attempt r =
     (case retryConfig c of
        None \<Rightarrow> (100000000, r)
      | Some cfg \<Rightarrow>
          (let backoff = f_mul F (f_of_int F (InitialBackoff cfg)) (f_pow F (f_of_int F 2) (f_of_int F (attempt - 1)))
           in if f_to_int F backoff > MaxBackoff cfg then (MaxBackoff cfg, r)
              else (case randFloat F r of
                      (x, r1) \<Rightarrow>
                        let jitter = f_mul F (f_mul F backoff (f_02 F)) (f_sub F (f_mul F (f_of_int F 2) x) (f_of_int F 1))
                        in (f_to_int F (f_add F backoff jitter), r1))))"

section \<open>The breaker as a state machine\<close>

inductive cb_step :: "CircuitBreaker \<Rightarrow> CircuitBreaker \<Rightarrow> bool" where
  step_allow: "cb_step cb (snd (Allow now cb))"
| step_success: "cb_step cb (RecordSuccess cb)"
| step_failure: "cb_step cb (RecordFailure now cb)"

inductive_cases cb_stepE: "cb_step cb cb'"

definition cb_init :: "CircuitBreaker \<Rightarrow> bool" where
  "cb_init cb \<longleftrightarrow> (\<exists>cfg. cb = NewCircuitBreaker cfg)"

definition cb_inv :: "CircuitBreaker \<Rightarrow> bool" where
  "cb_inv cb \<longleftrightarrow> 0 \<le> failureCount cb \<and>
     (FailureThreshold (cb_config cb) \<ge> 1 \<longrightarrow> (cb_state cb = circuitClosed \<longleftrightarrow> failureCount cb < FailureThreshold (cb_config cb)))"

interpretation breaker: invariant_system cb_init cb_step cb_inv
proof
  show "cb_inv cb" if "cb_init cb" for cb
    using that by (auto simp: cb_init_def cb_inv_def NewCircuitBreaker_def)
  show "cb_inv cb'" if "cb_inv cb" "cb_step cb cb'" for cb cb'
    using that(2,1) by cases (auto simp: cb_inv_def Allow_def RecordSuccess_def RecordFailure_def Let_def split: circuitState.splits)
qed

lemma breaker_contract_parts:
  assumes "reachable cb_init cb_step cb" "FailureThreshold (cb_config cb) \<ge> 1"
  shows "cb_state cb = circuitClosed \<longleftrightarrow> failureCount cb < FailureThreshold (cb_config cb)"
    and "fst (Allow now cb) \<longleftrightarrow> cb_state cb \<noteq> circuitOpen \<or> now - lastFailureTime cb > ResetTimeout (cb_config cb)"
    and "cb_state cb = circuitHalfOpen \<Longrightarrow> now \<le> t + ResetTimeout (cb_config cb) \<Longrightarrow> \<not> fst (Allow now (RecordFailure t cb))"
    and "fst (Allow now (RecordSuccess cb)) \<and> cb_state (RecordSuccess cb) = circuitClosed"
proof -
  have inv: "cb_inv cb" using assms(1) by (rule breaker.reachable_inv)
  with assms(2) show closed: "cb_state cb = circuitClosed \<longleftrightarrow> failureCount cb < FailureThreshold (cb_config cb)"
    by (simp add: cb_inv_def)
  show "fst (Allow now cb) \<longleftrightarrow> cb_state cb \<noteq> circuitOpen \<or> now - lastFailureTime cb > ResetTimeout (cb_config cb)"
    by (auto simp: Allow_def split: circuitState.splits)
  show "\<not> fst (Allow now (RecordFailure t cb))" if "cb_state cb = circuitHalfOpen" "now \<le> t + ResetTimeout (cb_config cb)"
    using that closed by (auto simp: Allow_def RecordFailure_def Let_def)
  show "fst (Allow now (RecordSuccess cb)) \<and> cb_state (RecordSuccess cb) = circuitClosed"
    by (simp add: Allow_def RecordSuccess_def)
qed


definition half_open_breaker :: CircuitBreaker where
  "half_open_breaker = snd (Allow 20 (RecordFailure 5 (NewCircuitBreaker (Some \<lparr>FailureThreshold = 1, ResetTimeout = 10\<rparr>))))"


section \<open>How often a request is sent\<close>

lemma doOnce_sent: "doOnce K send c trace method path body = (res, sent) \<Longrightarrow>
  length sent \<le> 1 \<and> (\<forall>q \<in> set sent. h_method q = method \<and> h_url q = baseURL c @ path)"
  by (auto simp: doOnce_def build_request_def bindR_eq_Inr split: sum.splits if_splits)

lemma note_simps [simp]:
  "retryConfig (note_failure t c) = retryConfig c" "baseURL (note_failure t c) = baseURL c" "token (note_failure t c) = token c"
  "traceIDHeader (note_failure t c) = traceIDHeader c" "retryConfig (note_success c) = retryConfig c"
  by (simp_all add: note_failure_def note_success_def)

lemma attempts_sent:
  "attempts W meth path body attempt left e trace c r = (res, sent, c', r') \<Longrightarrow>
   length sent \<le> left \<and> (\<forall>q \<in> set sent. h_method q = meth \<and> h_url q = baseURL c @ path)"
proof (induction W meth path body attempt left e trace c r arbitrary: res sent c' r' rule: attempts.induct)
  case (2 W meth path body attempt left lastErr trace c r)
  show ?case
  proof (cases "(if attempt > 0 then w_cancelled W attempt else None)")
    case None
    obtain trace1 r1 where t: "injectTraceID c trace r = (trace1, r1)" by fastforce
    obtain out s1 where d: "doOnce (w_codec W) (w_send W attempt) c trace1 meth path body = (out, s1)" by fastforce
    note one = doOnce_sent [OF d]
    show ?thesis
    proof (cases out)
      case (Inl err)
      show ?thesis
      proof (cases "isRetryable c err")
        case True
        obtain res2 s2 c2 r2 where a: "attempts W meth path body (attempt + 1) left err trace1 (note_failure (w_now W attempt) c) r1 = (res2, s2, c2, r2)"
          by (metis prod_cases4)
        have nn: "\<not> \<not> isRetryable c err" using True by simp
        from "2.IH" [OF None t [symmetric] d [symmetric] Inl refl nn a]
        have "length s2 \<le> left" "\<forall>q \<in> set s2. h_method q = meth \<and> h_url q = baseURL c @ path" by auto
        with "2.prems" None t d Inl True a one show ?thesis by (auto simp: Let_def)
      qed (use "2.prems" None t d Inl one in \<open>auto simp: Let_def\<close>)
    qed (use "2.prems" None t d one in auto)
  qed (use "2.prems" in auto)
qed auto

lemma retry_bounded_parts:
  assumes "client_do W method path body trace c r = (res, sent, c', r')"
  shows "int (length sent) \<le> (case retryConfig c of None \<Rightarrow> 1 | Some cfg \<Rightarrow> max 0 (MaxRetries cfg + 1))"
    and "\<forall>q \<in> set sent. h_method q = method \<and> h_url q = baseURL c @ path"
    and "circuitBreaker c = Some cb \<Longrightarrow> \<not> fst (Allow (w_now W 0) cb) \<Longrightarrow> res = Inl ErrCircuitOpen \<and> sent = []"
proof -
  have "length sent \<le> (case retryConfig c of None \<Rightarrow> 1 | Some cfg \<Rightarrow> nat (MaxRetries cfg + 1)) \<and>
    (\<forall>q \<in> set sent. h_method q = method \<and> h_url q = baseURL c @ path)"
  proof (cases "retryConfig c \<noteq> None \<or> circuitBreaker c \<noteq> None")
    case True
    with assms have "doWithRetry W method path body trace c r = (res, sent, c', r')" by (simp add: client_do_def)
    then consider "sent = []" | cb n where "attempts W method path body 0 n (Msg ''%!w(<nil>)'') trace (c\<lparr>circuitBreaker := cb\<rparr>) r = (res, sent, c', r')"
      "n = (case retryConfig c of None \<Rightarrow> 1 | Some cfg \<Rightarrow> nat (MaxRetries cfg + 1))"
      by (auto simp: doWithRetry_def Let_def split: prod.splits option.splits bool.splits)
    then show ?thesis by cases (auto dest: attempts_sent)
  next
    case False
    with assms show ?thesis by (auto simp: client_do_def split: prod.splits dest: doOnce_sent)
  qed
  then show "int (length sent) \<le> (case retryConfig c of None \<Rightarrow> 1 | Some cfg \<Rightarrow> max 0 (MaxRetries cfg + 1))"
    "\<forall>q \<in> set sent. h_method q = method \<and> h_url q = baseURL c @ path"
    by (auto split: option.splits)
  show "res = Inl ErrCircuitOpen \<and> sent = []" if "circuitBreaker c = Some cb" "\<not> fst (Allow (w_now W 0) cb)"
    using assms that by (auto simp: client_do_def doWithRetry_def split: prod.splits bool.splits)
qed

text \<open>
  A call sends its request at most once more than the configured number of retries,
  always with the same method and address; without a retry configuration at most once; and not at
  all while the breaker refuses it.
\<close>
theorem retry_bounded:
  assumes "client_do W method path body trace c r = (res, sent, c', r')"
  shows "int (length sent) \<le> (case retryConfig c of None \<Rightarrow> 1 | Some cfg \<Rightarrow> max 0 (MaxRetries cfg + 1))
    \<and> (\<forall>q \<in> set sent. h_method q = method \<and> h_url q = baseURL c @ path)
    \<and> (\<forall>cb. circuitBreaker c = Some cb \<and> \<not> fst (Allow (w_now W 0) cb) \<longrightarrow> res = Inl ErrCircuitOpen \<and> sent = [])"
  using retry_bounded_parts [OF assms] by blast

definition flaky :: "(int \<times> bytes) res \<Rightarrow> (sdk_body, unit reply) world" where
  "flaky answer = \<lparr>w_codec = \<lparr>encode = (\<lambda>b. Inr [0]), new_ok = (\<lambda>m u. True), err_field = (\<lambda>b. ''''), decode = (\<lambda>b. Inl (Msg ''unexpected EOF''))\<rparr>,
     w_send = (\<lambda>i q. answer), w_now = (\<lambda>i. int i), w_cancelled = (\<lambda>i. None)\<rparr>"

definition eager_client :: Client where
  "eager_client = NewWithOpts ''http://kms'' ''t'' [WithRetry (Some DefaultRetryConfig)]"

lemma eager_simps: "retryConfig eager_client = Some DefaultRetryConfig" "circuitBreaker eager_client = None" "baseURL eager_client = ''http://kms''"
  "token eager_client = ''t''" "traceIDHeader eager_client = ''''"
  by (simp_all add: eager_client_def NewWithOpts_def New_def)

lemma eof_retryable: "isRetryable eager_client (Wrap ''yvonne: decode response'' (Msg ''unexpected EOF''))"
  unfolding isRetryable_def eager_simps by code_simp

lemma flaky_once:
  "\<exists>q. doOnce (w_codec (flaky (Inr (200, [])))) (w_send (flaky (Inr (200, []))) i) eager_client trace m p None =
     (Inl (Wrap ''yvonne: decode response'' (Msg ''unexpected EOF'')), [q])"
  by (simp add: doOnce_def build_request_def read_response_def flaky_def)

text \<open>A rotation whose response is cut short is sent four times: the server, which answered with
  200 each time, rotates the key four times.\<close>

theorem rotation_repeated:
  "\<exists>res sent c' r'. sdk_RotateKey ''k'' (flaky (Inr (200, []))) None eager_client r = (res, sent, c', r') \<and> length sent = 4 \<and>
     (\<forall>q \<in> set sent. h_method q = ''POST'' \<and> h_url q = ''http://kms/api/v1/keys/k/rotate'')"
proof -
  let ?W = "flaky (Inr (200, []))" and ?p = "''/api/v1/keys/k/rotate''"
  have same: "note_failure t eager_client = eager_client" for t by (simp add: note_failure_def eager_simps)
  have inject: "injectTraceID eager_client tr r = (tr, r)" for tr r by (simp add: injectTraceID_def eager_simps)
  have can: "w_cancelled ?W i = None" for i by (simp add: flaky_def)
  have loop: "\<exists>e' sent. attempts ?W ''POST'' ?p None i n e tr eager_client r = (Inl e', sent, eager_client, r) \<and> length sent = n" for i n e tr
  proof (induction n arbitrary: i e)
    case (Suc n)
    obtain q where d: "doOnce (w_codec ?W) (w_send ?W i) eager_client tr ''POST'' ?p None =
        (Inl (Wrap ''yvonne: decode response'' (Msg ''unexpected EOF'')), [q])" using flaky_once by blast
    obtain e' sent where "attempts ?W ''POST'' ?p None (i + 1) n (Wrap ''yvonne: decode response'' (Msg ''unexpected EOF'')) tr eager_client r =
        (Inl e', sent, eager_client, r)" "length sent = n" using Suc by blast
    moreover have "(if 0 < i then w_cancelled ?W i else None) = None" by (simp add: can)
    ultimately show ?case
      unfolding attempts.simps inject d Let_def prod.case by (simp only: option.case sum.case prod.case same eof_retryable if_True) simp
  qed simp
  have "client_do ?W ''POST'' ?p None None eager_client r = attempts ?W ''POST'' ?p None 0 4 (Msg ''%!w(<nil>)'') None eager_client r"
    by (simp add: client_do_def doWithRetry_def eager_simps DefaultRetryConfig_def) (simp add: eager_client_def NewWithOpts_def New_def)
  moreover obtain e' sent where a: "attempts ?W ''POST'' ?p None 0 4 (Msg ''%!w(<nil>)'') None eager_client r = (Inl e', sent, eager_client, r)" "length sent = 4"
    using loop by blast
  moreover have "\<forall>q \<in> set sent. h_method q = ''POST'' \<and> h_url q = ''http://kms/api/v1/keys/k/rotate''"
    using attempts_sent [OF a(1)] by (simp add: eager_simps)
  ultimately show ?thesis by (simp add: sdk_RotateKey_def sdk_request_def)
qed

theorem retry_bounded_witness:
  "\<exists>res sent c' r'. client_do (flaky (Inr (200, []))) ''POST'' ''/x'' None None eager_client zero_source = (res, sent, c', r') \<and> length sent \<le> 4"
proof -
  obtain res sent c' r' where run: "client_do (flaky (Inr (200, []))) ''POST'' ''/x'' None None eager_client zero_source = (res, sent, c', r')"
    by (metis prod_cases4)
  from retry_bounded [OF run] have "length sent \<le> 4" by (simp add: eager_simps DefaultRetryConfig_def)
  with run show ?thesis by blast
qed

text \<open>The hand-written search is \<^verbatim>\<open>strings.Contains\<close>.\<close>

lemma index_from_found:
  "index_from s sub i n \<ge> 0 \<longleftrightarrow> (\<exists>j. i \<le> j \<and> j < i + n \<and> take (length sub) (drop j s) = sub)"
proof (induction s sub i n rule: index_from.induct)
  case (2 s sub i n)
  show ?case
  proof (cases "take (length sub) (drop i s) = sub")
    case False
    then have "i \<le> j \<and> j < i + Suc n \<and> take (length sub) (drop j s) = sub \<longleftrightarrow>
        i + 1 \<le> j \<and> j < i + 1 + n \<and> take (length sub) (drop j s) = sub" for j by (cases "j = i") auto
    with 2 False show ?thesis by simp
  qed auto
qed auto

lemma contains_iff: "contains s p \<longleftrightarrow> (\<exists>j. j + length p \<le> length s \<and> take (length p) (drop j s) = p)"
proof (induction s)
  case (Cons c s)
  have "contains (c # s) p \<longleftrightarrow> (length p \<le> length (c # s) \<and> take (length p) (c # s) = p) \<or>
      (\<exists>j. j + length p \<le> length s \<and> take (length p) (drop j s) = p)"
    using Cons by (simp add: has_prefix_def)
  also have "\<dots> \<longleftrightarrow> (\<exists>j. j + length p \<le> length (c # s) \<and> take (length p) (drop j (c # s)) = p)" (is "?l \<longleftrightarrow> ?r")
  proof
    assume ?l
    then show ?r by (metis (no_types, lifting) add_0 add_Suc drop0 drop_Suc_Cons length_Cons not_less_eq_eq)
  next
    assume ?r
    then obtain j where j: "j + length p \<le> length (c # s)" "take (length p) (drop j (c # s)) = p" by blast
    then show ?l by (cases j) auto
  qed
  finally show ?case .
qed auto

lemma containsStr_contains: "containsStr s sub = contains s sub"
proof -
  have "indexOfStr s sub \<ge> 0 \<longleftrightarrow> (\<exists>j. j + length sub \<le> length s \<and> take (length sub) (drop j s) = sub)"
    by (simp add: indexOfStr_def index_from_found less_diff_conv less_Suc_eq_le)
  then show ?thesis by (auto simp: containsStr_def contains_iff)
qed

end
