(* ===== verification/Rpc.thy ===== *)
theory Rpc
  imports Http ServiceProps
begin

text \<open>
  The two other front ends of the service core: \<^verbatim>\<open>internal/grpc\<close> (interceptor, methods and the
  codec that wipes secrets after encoding) and \<^verbatim>\<open>internal/mcp\<close> (the two tools offered to
  agents). Messages are values of a datatype with one constructor per message type of the service;
  the protocol libraries, base64 and the encoding of messages are parameters.
\<close>

section \<open>gRPC: messages and errors\<close>

text \<open>Numbers of messages are \<^verbatim>\<open>int32\<close>.\<close>

datatype grpc_request =
    HealthRequest
  | EmergencySealRequest (Confirm: bool) (req_AdminToken: string)
  | UnsealRequest
  | CreateKeyRequest string "32 word" bool
  | RotateKeyRequest string
  | ShredKeyRequest string "32 word"
  | SoftDeleteKeyRequest string "32 word"
  | RestoreKeyRequest string "32 word"
  | GenerateDataKeyRequest string
  | EncryptRequest string bytes
  | DecryptRequest string bytes
  | TransitPubRequest
  | ImportKeyRequest
  | AuditQueryRequest

datatype grpc_response =
    HealthResponse string bool
  | EmergencySealResponse bool string
  | CreateKeyResponse string "32 word" bytes
  | RotateKeyResponse string "32 word" bytes
  | ShredKeyResponse bool
  | SoftDeleteKeyResponse bool
  | RestoreKeyResponse bool
  | GenerateDataKeyResponse bytes bytes
  | EncryptResponse bytes "32 word"
  | DecryptResponse bytes "32 word"

text \<open>Errors made with \<^verbatim>\<open>status.Errorf\<close> carry a code; others are sent as unknown.\<close>

datatype codes = Unauthenticated | Unavailable | Internal

datatype grpc_error = Status codes string | Failed err

definition service_prefix :: string where
  "service_prefix = ''/yvonne.v1.YvonneService/''"

fun method_name :: "grpc_request \<Rightarrow> string" where
  "method_name HealthRequest = ''Health''"
| "method_name (EmergencySealRequest _ _) = ''EmergencySeal''"
| "method_name UnsealRequest = ''Unseal''"
| "method_name (CreateKeyRequest _ _ _) = ''CreateKey''"
| "method_name (RotateKeyRequest _) = ''RotateKey''"
| "method_name (ShredKeyRequest _ _) = ''ShredKey''"
| "method_name (SoftDeleteKeyRequest _ _) = ''SoftDeleteKey''"
| "method_name (RestoreKeyRequest _ _) = ''RestoreKey''"
| "method_name (GenerateDataKeyRequest _) = ''GenerateDataKey''"
| "method_name (EncryptRequest _ _) = ''Encrypt''"
| "method_name (DecryptRequest _ _) = ''Decrypt''"
| "method_name TransitPubRequest = ''TransitPub''"
| "method_name ImportKeyRequest = ''ImportKey''"
| "method_name AuditQueryRequest = ''AuditQuery''"

abbreviation FullMethod :: "grpc_request \<Rightarrow> string" where
  "FullMethod req \<equiv> service_prefix @ method_name req"

section \<open>server.go\<close>

definition safeInt32 :: "int \<Rightarrow> 32 word" where
  "safeInt32 v = (if v > 2147483647 \<or> v < - 2147483648 then 0 else word_of_int v)"

text \<open>Base64 of the standard library's encoding: a text that is not valid still yields the bytes
  before the error.\<close>

record base64 =
  EncodeToString :: "bytes \<Rightarrow> string"
  decoded :: "string \<Rightarrow> bytes"
  decode_ok :: "string \<Rightarrow> bool"

definition base64_ok :: "base64 \<Rightarrow> bool" where
  "base64_ok B \<longleftrightarrow> (\<forall>b. decoded B (EncodeToString B b) = b \<and> decode_ok B (EncodeToString B b))"

type_synonym 'a served = "'a res \<times> Core \<times> csprng"

text \<open>\<^verbatim>\<open>_ = buf.WithKey(...)\<close> copying the secret: its error is dropped, a panic is not.\<close>

definition exposed :: "SecureBuffer \<Rightarrow> (bytes \<Rightarrow> 'a) \<Rightarrow> 'a res" where
  "exposed b f = (case WithKey b Inr of Inl e \<Rightarrow> Inl e | Inr secret \<Rightarrow> Inr (f secret))"

definition grpc_Health :: "Core \<Rightarrow> csprng \<Rightarrow> grpc_response served" where
  "grpc_Health c r = (case Health c of (state, emergency) \<Rightarrow> (Inr (HealthResponse state emergency), c, r))"

definition grpc_EmergencySeal :: "call \<Rightarrow> bool \<Rightarrow> string \<Rightarrow> Core \<Rightarrow> csprng \<Rightarrow> grpc_response served" where
  "grpc_EmergencySeal cc confirm token c r =
     (if \<not> confirm then (Inl (Msg ''grpc: confirm must be true''), c, r)
      else case core_EmergencySeal cc token c of
          (Inl e, c1) \<Rightarrow> (Inl e, c1, r)
        | (Inr _, c1) \<Rightarrow> (Inr (EmergencySealResponse True ''vault is now emergency sealed''), c1, r))"

definition grpc_CreateKey ::
  "prims \<Rightarrow> unicode \<Rightarrow> call \<Rightarrow> string \<Rightarrow> 32 word \<Rightarrow> bool \<Rightarrow> Core \<Rightarrow> csprng \<Rightarrow> grpc_response served" where
  "grpc_CreateKey P U cc keyID days returnDEK c r =
     (case core_CreateKey P U cc keyID (sint days) returnDEK (PolicyFromContext (cvalues cc)) c r of
        (Inl e, c1, r1) \<Rightarrow> (Inl e, c1, r1)
      | (Inr result, c1, r1) \<Rightarrow>
          let answer = CreateKeyResponse (ck_KeyID result) (safeInt32 (ck_Version result))
          in (case ck_PlaintextDEK result of None \<Rightarrow> Inr (answer []) | Some dek \<Rightarrow> exposed dek answer, c1, r1))"

definition grpc_RotateKey :: "prims \<Rightarrow> unicode \<Rightarrow> call \<Rightarrow> string \<Rightarrow> Core \<Rightarrow> csprng \<Rightarrow> grpc_response served" where
  "grpc_RotateKey P U cc keyID c r =
     (case core_RotateKey P U cc keyID (PolicyFromContext (cvalues cc)) c r of
        (Inl e, c1, r1) \<Rightarrow> (Inl e, c1, r1)
      | (Inr (kid, version, dek), c1, r1) \<Rightarrow> (exposed dek (RotateKeyResponse kid (safeInt32 version)), c1, r1))"

text \<open>The three methods on one version.\<close>

definition version_call ::
  "(Policy option \<Rightarrow> Core \<Rightarrow> unit res \<times> Core) \<Rightarrow> grpc_response \<Rightarrow> call \<Rightarrow> Core \<Rightarrow> csprng \<Rightarrow> grpc_response served" where
  "version_call f answer cc c r =
     (case f (PolicyFromContext (cvalues cc)) c of (Inl e, c1) \<Rightarrow> (Inl e, c1, r) | (Inr _, c1) \<Rightarrow> (Inr answer, c1, r))"

definition grpc_ShredKey :: "unicode \<Rightarrow> call \<Rightarrow> string \<Rightarrow> 32 word \<Rightarrow> Core \<Rightarrow> csprng \<Rightarrow> grpc_response served" where
  "grpc_ShredKey U cc keyID version = version_call (core_ShredKey U cc keyID (sint version)) (ShredKeyResponse True) cc"

definition grpc_SoftDeleteKey :: "unicode \<Rightarrow> call \<Rightarrow> string \<Rightarrow> 32 word \<Rightarrow> Core \<Rightarrow> csprng \<Rightarrow> grpc_response served" where
  "grpc_SoftDeleteKey U cc keyID version = version_call (core_SoftDeleteKey U cc keyID (sint version)) (SoftDeleteKeyResponse True) cc"

definition grpc_RestoreKey :: "unicode \<Rightarrow> call \<Rightarrow> string \<Rightarrow> 32 word \<Rightarrow> Core \<Rightarrow> csprng \<Rightarrow> grpc_response served" where
  "grpc_RestoreKey U cc keyID version = version_call (core_RestoreKey U cc keyID (sint version)) (RestoreKeyResponse True) cc"

text \<open>The data key goes through a text buffer, whose writes do not fail.\<close>

definition grpc_GenerateDataKey ::
  "prims \<Rightarrow> base64 \<Rightarrow> unicode \<Rightarrow> call \<Rightarrow> string \<Rightarrow> Core \<Rightarrow> csprng \<Rightarrow> grpc_response served" where
  "grpc_GenerateDataKey P B U cc keyID c r =
     (case core_GenerateDataKey P U cc keyID (PolicyFromContext (cvalues cc)) c r of
        (Inl e, c1, r1) \<Rightarrow> (Inl e, c1, r1)
      | (Inr result, c1, r1) \<Rightarrow>
          (case WriteBase64To (EncodeToString B) (\<lambda>_. None) result of
             (Some e, _) \<Rightarrow> (Inl e, c1, r1)
           | (None, _) \<Rightarrow>
               (case plaintextDEK result of
                  None \<Rightarrow> (Inl (Msg ''service: plaintext DEK already wiped or nil''), c1, r1)
                | Some dek \<Rightarrow>
                    (exposed dek (\<lambda>secret. GenerateDataKeyResponse (decoded B (EncodeToString B secret)) (dk_Ciphertext result)), c1, r1))))"

definition grpc_Encrypt :: "prims \<Rightarrow> unicode \<Rightarrow> call \<Rightarrow> string \<Rightarrow> bytes \<Rightarrow> Core \<Rightarrow> csprng \<Rightarrow> grpc_response served" where
  "grpc_Encrypt P U cc keyID plaintext c r =
     (case core_Encrypt P U cc keyID plaintext (PolicyFromContext (cvalues cc)) c r of
        (Inl e, c1, r1) \<Rightarrow> (Inl e, c1, r1)
      | (Inr result, c1, r1) \<Rightarrow> (Inr (EncryptResponse (er_Ciphertext result) (safeInt32 (er_Version result))), c1, r1))"

definition grpc_Decrypt :: "prims \<Rightarrow> unicode \<Rightarrow> call \<Rightarrow> string \<Rightarrow> bytes \<Rightarrow> Core \<Rightarrow> csprng \<Rightarrow> grpc_response served" where
  "grpc_Decrypt P U cc keyID ciphertext c r =
     (case core_Decrypt P U cc keyID ciphertext (PolicyFromContext (cvalues cc)) c of
        (Inl e, c1) \<Rightarrow> (Inl e, c1, r)
      | (Inr result, c1) \<Rightarrow> (exposed (dr_Plaintext result) (\<lambda>plain. DecryptResponse plain (safeInt32 (dr_Version result))), c1, r))"

definition unsupported :: "string \<Rightarrow> Core \<Rightarrow> csprng \<Rightarrow> grpc_response served" where
  "unsupported msg c r = (Inl (Msg msg), c, r)"

fun grpc_method :: "prims \<Rightarrow> base64 \<Rightarrow> unicode \<Rightarrow> call \<Rightarrow> grpc_request \<Rightarrow> Core \<Rightarrow> csprng \<Rightarrow> grpc_response served" where
  "grpc_method P B U cc HealthRequest = grpc_Health"
| "grpc_method P B U cc (EmergencySealRequest confirm token) = grpc_EmergencySeal cc confirm token"
| "grpc_method P B U cc UnsealRequest = unsupported ''grpc: unseal not supported via gRPC (use HTTP or admin UI)''"
| "grpc_method P B U cc (CreateKeyRequest k days ret) = grpc_CreateKey P U cc k days ret"
| "grpc_method P B U cc (RotateKeyRequest k) = grpc_RotateKey P U cc k"
| "grpc_method P B U cc (ShredKeyRequest k v) = grpc_ShredKey U cc k v"
| "grpc_method P B U cc (SoftDeleteKeyRequest k v) = grpc_SoftDeleteKey U cc k v"
| "grpc_method P B U cc (RestoreKeyRequest k v) = grpc_RestoreKey U cc k v"
| "grpc_method P B U cc (GenerateDataKeyRequest k) = grpc_GenerateDataKey P B U cc k"
| "grpc_method P B U cc (EncryptRequest k plaintext) = grpc_Encrypt P U cc k plaintext"
| "grpc_method P B U cc (DecryptRequest k ciphertext) = grpc_Decrypt P U cc k ciphertext"
| "grpc_method P B U cc TransitPubRequest = unsupported ''grpc: TransitPub not implemented via gRPC (use HTTP)''"
| "grpc_method P B U cc ImportKeyRequest = unsupported ''grpc: ImportKey not implemented via gRPC (use HTTP)''"
| "grpc_method P B U cc AuditQueryRequest = unsupported ''grpc: AuditQuery not implemented via gRPC (use HTTP)''"

section \<open>interceptor.go\<close>

text \<open>\<open>md\<close> is \<^verbatim>\<open>metadata.MD.Get\<close> of the incoming metadata, if there is any.\<close>

definition grpc_authenticate ::
  "(string \<Rightarrow> Policy res) option \<Rightarrow> (string \<Rightarrow> string list) option \<Rightarrow> Policy option res" where
  "grpc_authenticate authn md =
     (case authn of
        None \<Rightarrow> Inr None
      | Some run \<Rightarrow>
          (case md of
             None \<Rightarrow> Inl (Msg ''no metadata in context'')
           | Some get \<Rightarrow>
               (case get ''authorization'' of
                  [] \<Rightarrow> Inl (Msg ''no authorization token'')
                | token # _ \<Rightarrow>
                    if length token \<le> 7 \<or> take 7 token \<noteq> ''Bearer '' then Inl (Msg ''invalid token format'')
                    else map_sum id Some (run (drop 7 token)))))"

definition isSealExempt :: "string \<Rightarrow> bool" where
  "isSealExempt method \<longleftrightarrow> method = service_prefix @ ''Health'' \<or> method = service_prefix @ ''EmergencySeal''"

text \<open>The recovered panic of the method.\<close>

definition recovered_status :: "grpc_response res \<Rightarrow> grpc_error + grpc_response" where
  "recovered_status x =
     (case x of Inl (Panic m) \<Rightarrow> Inl (Status Internal ''internal error'') | Inl e \<Rightarrow> Inl (Failed e) | Inr y \<Rightarrow> Inr y)"

definition InterceptorChain ::
  "(string \<Rightarrow> Policy res) option \<Rightarrow> (string \<Rightarrow> string list) option \<Rightarrow>
   (call \<Rightarrow> grpc_request \<Rightarrow> Core \<Rightarrow> csprng \<Rightarrow> grpc_response served) \<Rightarrow>
   call \<Rightarrow> grpc_request \<Rightarrow> Core \<Rightarrow> csprng \<Rightarrow> (grpc_error + grpc_response) \<times> Core \<times> csprng" where
  "InterceptorChain authn md handler cc req c r =
     (case (if FullMethod req \<noteq> service_prefix @ ''Health'' then grpc_authenticate authn md else Inr None) of
        Inl e \<Rightarrow> (Inl (Status Unauthenticated (''authentication failed: '' @ error_text e)), c, r)
      | Inr policy \<Rightarrow>
          let cc1 = (case policy of None \<Rightarrow> cc | Some p \<Rightarrow> cc\<lparr>cvalues := WithPolicy (cvalues cc) p\<rparr>)
          in if \<not> isSealExempt (FullMethod req) \<and> u_IsEmergencySealed (vault_seal c)
             then (Inl (Status Unavailable ''vault is emergency sealed''), c, r)
             else if \<not> isSealExempt (FullMethod req) \<and> u_IsSealed (vault_seal c)
             then (Inl (Status Unavailable ''vault is sealed''), c, r)
             else (case handler cc1 req c r of (x, c1, r1) \<Rightarrow> (recovered_status x, c1, r1)))"

definition grpc_serve ::
  "prims \<Rightarrow> base64 \<Rightarrow> unicode \<Rightarrow> (string \<Rightarrow> Policy res) option \<Rightarrow> (string \<Rightarrow> string list) option \<Rightarrow>
   call \<Rightarrow> grpc_request \<Rightarrow> Core \<Rightarrow> csprng \<Rightarrow> (grpc_error + grpc_response) \<times> Core \<times> csprng" where
  "grpc_serve P B U authn md = InterceptorChain authn md (grpc_method P B U)"

section \<open>wiping\_codec.go\<close>

text \<open>The message in memory after its fields were cleared.\<close>

definition clearBytes :: "bytes \<Rightarrow> bytes" where
  "clearBytes b = map (\<lambda>_. 0) b"

fun wipeSensitiveBytes :: "grpc_response \<Rightarrow> grpc_response" where
  "wipeSensitiveBytes (DecryptResponse plain v) = DecryptResponse (clearBytes plain) v"
| "wipeSensitiveBytes (CreateKeyResponse k v dek) = CreateKeyResponse k v (clearBytes dek)"
| "wipeSensitiveBytes (RotateKeyResponse k v dek) = RotateKeyResponse k v (clearBytes dek)"
| "wipeSensitiveBytes (GenerateDataKeyResponse dek ct) = GenerateDataKeyResponse (clearBytes dek) ct"
| "wipeSensitiveBytes m = m"

text \<open>\<open>base\<close> is the wrapped encoder: what is sent, and the message that stays behind.\<close>

definition Marshal :: "(grpc_response \<Rightarrow> bytes res) \<Rightarrow> grpc_response \<Rightarrow> bytes res \<times> grpc_response" where
  "Marshal base m = (base m, wipeSensitiveBytes m)"

section \<open>mcp/server.go\<close>

record mcp_config =
  mc_Token :: string
  mc_AllowedKeys :: "string list"

text \<open>Values of a request's metadata that are not texts are \<open>MetaOther\<close>.\<close>

datatype meta_value = MetaString string | MetaOther

record CallToolResult =
  tool_Text :: string
  IsError :: bool

definition errorResult :: "string \<Rightarrow> CallToolResult" where
  "errorResult msg = \<lparr>tool_Text = ''ERROR: '' @ msg, IsError = True\<rparr>"

definition mcp_authenticate :: "mcp_config \<Rightarrow> (string \<rightharpoonup> meta_value) option \<Rightarrow> bool" where
  "mcp_authenticate cfg meta =
     (if mc_Token cfg = '''' then False
      else case meta of
          None \<Rightarrow> False
        | Some m \<Rightarrow> (case m ''mcp_token'' of Some (MetaString t) \<Rightarrow> t = mc_Token cfg | _ \<Rightarrow> False))"

fun allowed_key_loop :: "string list \<Rightarrow> string \<Rightarrow> bool" where
  "allowed_key_loop [] keyID = False"
| "allowed_key_loop (k # ks) keyID = (k = keyID \<or> k = ''*'' \<or> allowed_key_loop ks keyID)"

definition mcp_isKeyAllowed :: "mcp_config \<Rightarrow> string \<Rightarrow> bool" where
  "mcp_isKeyAllowed cfg keyID = allowed_key_loop (mc_AllowedKeys cfg) keyID"

definition mcp_policy :: "mcp_config \<Rightarrow> string \<Rightarrow> Policy" where
  "mcp_policy cfg action = \<lparr>RoleID = ''mcp-agent'', AllowedKeys = mc_AllowedKeys cfg, AllowedActions = [action],
     RequireMFA = False, RequireQuorum = 0, ApproverRoles = [], TenantID = []\<rparr>"

definition yvonne_encrypt ::
  "prims \<Rightarrow> base64 \<Rightarrow> unicode \<Rightarrow> mcp_config \<Rightarrow> (string \<rightharpoonup> meta_value) option \<Rightarrow> call \<Rightarrow> string \<Rightarrow> string \<Rightarrow>
   Core \<Rightarrow> csprng \<Rightarrow> CallToolResult served" where
  "yvonne_encrypt P B U cfg meta cc keyID plaintext c r =
     (if \<not> mcp_authenticate cfg meta then (Inr (errorResult ''unauthorized: invalid or missing mcp token''), c, r)
      else if \<not> decode_ok B plaintext then (Inr (errorResult ''invalid base64 plaintext''), c, r)
      else case core_Encrypt P U cc keyID (decoded B plaintext) (Some (mcp_policy cfg ''Encrypt'')) c r of
          (Inl e, c1, r1) \<Rightarrow> (Inr (errorResult (''encrypt failed: '' @ error_text e)), c1, r1)
        | (Inr result, c1, r1) \<Rightarrow> (Inr \<lparr>tool_Text = EncodeToString B (er_Ciphertext result), IsError = False\<rparr>, c1, r1))"

definition maxMCPDecryptSize :: nat where
  "maxMCPDecryptSize = 64 * 1024"

definition yvonne_decrypt ::
  "prims \<Rightarrow> base64 \<Rightarrow> unicode \<Rightarrow> mcp_config \<Rightarrow> (string \<rightharpoonup> meta_value) option \<Rightarrow> call \<Rightarrow> string \<Rightarrow> string \<Rightarrow>
   Core \<Rightarrow> csprng \<Rightarrow> CallToolResult served" where
  "yvonne_decrypt P B U cfg meta cc keyID ciphertext c r =
     (if \<not> mcp_authenticate cfg meta then (Inr (errorResult ''unauthorized: invalid or missing mcp token''), c, r)
      else if \<not> mcp_isKeyAllowed cfg keyID then (Inr (errorResult ''key not in MCP whitelist''), c, r)
      else if \<not> decode_ok B ciphertext then (Inr (errorResult ''invalid base64 ciphertext''), c, r)
      else if length (decoded B ciphertext) > maxMCPDecryptSize then (Inr (errorResult ''ciphertext too large for MCP (max 64KB)''), c, r)
      else case core_Decrypt P U cc keyID (decoded B ciphertext) (Some (mcp_policy cfg ''Decrypt'')) c of
          (Inl e, c1) \<Rightarrow> (Inr (errorResult (''decrypt failed: '' @ error_text e)), c1, r)
        | (Inr result, c1) \<Rightarrow>
            (exposed (dr_Plaintext result) (\<lambda>plain. \<lparr>tool_Text = EncodeToString B plain, IsError = False\<rparr>), c1, r))"

section \<open>gRPC: every effect is authorised\<close>

text \<open>The actions on keys that a request needs, as in the service core.\<close>

fun rpc_needs :: "grpc_request \<Rightarrow> (string \<times> string) list" where
  "rpc_needs (CreateKeyRequest k _ _) = [(''CreateKey'', k)]"
| "rpc_needs (RotateKeyRequest k) = [(''KeyOp'', k)]"
| "rpc_needs (ShredKeyRequest k _) = [(''KeyOp'', k)]"
| "rpc_needs (SoftDeleteKeyRequest k _) = [(''KeyOp'', k)]"
| "rpc_needs (RestoreKeyRequest k _) = [(''KeyOp'', k)]"
| "rpc_needs (GenerateDataKeyRequest k) = [(''KeyOp'', k)]"
| "rpc_needs (EncryptRequest k _) = [(''Encrypt'', k)]"
| "rpc_needs (DecryptRequest k _) = [(''Decrypt'', k)]"
| "rpc_needs _ = []"

lemmas method_defs = grpc_CreateKey_def grpc_RotateKey_def grpc_ShredKey_def grpc_SoftDeleteKey_def grpc_RestoreKey_def
  grpc_GenerateDataKey_def grpc_Encrypt_def grpc_Decrypt_def version_call_def

text \<open>A refused request fails and changes nothing.\<close>

lemma refused_all:
  assumes "\<not> permitted U policy [(''CreateKey'', k)] c"
  shows "\<exists>e. core_CreateKey P U cc k days ret policy c r = (Inl e, c, r)"
  using assms by (auto simp: core_CreateKey_def permitted_def first_err_None split: option.splits)

lemma refused_keyop:
  assumes "\<not> permitted U policy [(''KeyOp'', k)] c"
  shows "\<exists>e. core_RotateKey P U cc k policy c r = (Inl e, c, r)" "\<exists>e. core_ShredKey U cc k v policy c = (Inl e, c)"
    "\<exists>e. core_SoftDeleteKey U cc k v policy c = (Inl e, c)" "\<exists>e. core_RestoreKey U cc k v policy c = (Inl e, c)"
    "\<exists>e. core_GenerateDataKey P U cc k policy c r = (Inl e, c, r)"
  using assms by (auto simp: core_defs permitted_def first_err_None split: option.splits)

lemma refused_use:
  "\<not> permitted U policy [(''Encrypt'', k)] c \<Longrightarrow> \<exists>e. core_Encrypt P U cc k pt policy c r = (Inl e, c, r)"
  "\<not> permitted U policy [(''Decrypt'', k)] c \<Longrightarrow> \<exists>e. core_Decrypt P U cc k ct policy c = (Inl e, c)"
  by (auto simp: core_defs permitted_def first_err_None split: option.splits)

lemma method_refused:
  assumes "\<not> permitted U (PolicyFromContext (cvalues cc)) (rpc_needs req) c" "rpc_needs req \<noteq> []"
  shows "\<exists>e. grpc_method P B U cc req c r = (Inl e, c, r)"
  using assms
proof (cases req)
  case (CreateKeyRequest k days ret)
  with assms refused_all [of U _ k c P cc "sint days" ret r] show ?thesis by (fastforce simp: method_defs)
next
  case (RotateKeyRequest k)
  with assms refused_keyop(1) [of U _ k c P cc r] show ?thesis by (fastforce simp: method_defs)
next
  case (ShredKeyRequest k v)
  with assms refused_keyop(2) [of U _ k c cc "sint v"] show ?thesis by (fastforce simp: method_defs)
next
  case (SoftDeleteKeyRequest k v)
  with assms refused_keyop(3) [of U _ k c cc "sint v"] show ?thesis by (fastforce simp: method_defs)
next
  case (RestoreKeyRequest k v)
  with assms refused_keyop(4) [of U _ k c cc "sint v"] show ?thesis by (fastforce simp: method_defs)
next
  case (GenerateDataKeyRequest k)
  with assms refused_keyop(5) [of U _ k c P cc r] show ?thesis by (fastforce simp: method_defs)
next
  case (EncryptRequest k pt)
  with assms refused_use(1) [of U _ k c P cc pt r] show ?thesis by (fastforce simp: method_defs)
next
  case (DecryptRequest k ct)
  with assms refused_use(2) [of U _ k c P cc ct] show ?thesis by (fastforce simp: method_defs)
qed auto

text \<open>The requests that need no action on a key: only the emergency seal has an effect.\<close>

lemma method_other:
  assumes "rpc_needs req = []" "req \<noteq> HealthRequest" "\<And>confirm t. req \<noteq> EmergencySealRequest confirm t"
  shows "\<exists>e. grpc_method P B U cc req c r = (Inl e, c, r)"
  using assms by (cases req) (auto simp: unsupported_def)

lemma authenticate_Inr:
  assumes "grpc_authenticate (Some run) md = Inr policy"
  obtains get token rest p where "md = Some get" "get ''authorization'' = (''Bearer '' @ token) # rest" "token \<noteq> []"
    "run token = Inr p" "policy = Some p"
proof -
  from assms obtain get t rest where g: "md = Some get" "get ''authorization'' = t # rest"
    and t: "7 < length t" "take 7 t = ''Bearer ''" "map_sum id Some (run (drop 7 t)) = Inr policy"
    by (auto simp: grpc_authenticate_def not_le split: option.splits list.splits if_splits)
  have "t = ''Bearer '' @ drop 7 t" "drop 7 t \<noteq> []" using t(1) by (metis append_take_drop_id t(2), simp)
  moreover obtain p where "run (drop 7 t) = Inr p" "policy = Some p" using t(3) by (cases "run (drop 7 t)") auto
  ultimately show thesis using that g by metis
qed

lemma seal_exempt: "isSealExempt (FullMethod req) \<longleftrightarrow> req = HealthRequest \<or> (\<exists>confirm t. req = EmergencySealRequest confirm t)"
  by (cases req) (auto simp: isSealExempt_def)

lemma health_method: "method_name req = ''Health'' \<longleftrightarrow> req = HealthRequest"
  by (cases req) auto

lemma recovered_Inl: "\<exists>e'. recovered_status (Inl e) = Inl e'"
  by (auto simp: recovered_status_def split: err.splits)

lemma chain_authenticated:
  assumes "grpc_serve P B U (Some run) md cc req c r = (res, c', r')" "req \<noteq> HealthRequest"
    and "grpc_authenticate (Some run) md = Inr (Some p)"
    and "grpc_method P B U (cc\<lparr>cvalues := WithPolicy (cvalues cc) p\<rparr>) req c r = (x, c1, r1)"
  obtains "\<not> isSealExempt (FullMethod req)" "u_IsSealed (vault_seal c) \<or> u_IsEmergencySealed (vault_seal c)"
      "\<exists>e. res = Inl e" "c' = c" "r' = r"
  | "isSealExempt (FullMethod req) \<or> \<not> u_IsSealed (vault_seal c) \<and> \<not> u_IsEmergencySealed (vault_seal c)"
      "res = recovered_status x" "c' = c1" "r' = r1"
  using assms by (auto simp: grpc_serve_def InterceptorChain_def health_method Let_def split: if_splits)

lemma emergency_guarded:
  assumes "grpc_method P B U cc (EmergencySealRequest confirm t) c r = (x, c1, r1)"
  shows "(\<exists>e. x = Inl e) \<and> c1 = c \<and> r1 = r \<or>
    confirm \<and> adminToken c \<noteq> [] \<and> (vault_seal c1 \<noteq> vault_seal c \<longrightarrow> t = adminToken c)"
proof (cases "confirm \<and> adminToken c \<noteq> []")
  case True
  then have "vault_seal c1 = vault_seal c" if "t \<noteq> adminToken c"
    using that assms by (auto simp: grpc_EmergencySeal_def core_EmergencySeal_def recordAudit_def Let_def split: option.splits)
  with True show ?thesis by blast
next
  case False
  then show ?thesis using assms by (auto simp: grpc_EmergencySeal_def core_EmergencySeal_def split: if_splits)
qed

lemma operation_guarded:
  assumes "grpc_method P B U cc req c r = (x, c1, r1)" "PolicyFromContext (cvalues cc) = Some p"
    and "req \<noteq> HealthRequest" "\<nexists>confirm t. req = EmergencySealRequest confirm t"
  shows "(\<exists>e. x = Inl e) \<and> c1 = c \<and> r1 = r \<or>
    rpc_needs req \<noteq> [] \<and> (\<forall>(a, k) \<in> set (rpc_needs req). IsActionAllowed U p a \<and> IsKeyAllowed p k)"
proof (cases "rpc_needs req \<noteq> [] \<and> permitted U (Some p) (rpc_needs req) c")
  case True
  then show ?thesis using permittedD(3) by (metis (mono_tags, lifting) case_prodI2)
next
  case False
  then show ?thesis using method_refused [of U cc req c P B r] method_other [of req P B U cc c r] assms by auto
qed

text \<open>
  Property C9. Over gRPC every effect is authorised: with an authenticator, a request other than
  Health either fails without changing the service or drawing a random byte, or it carries a bearer
  token that the authenticator accepts, and then it is an emergency seal that was confirmed while an
  admin token is configured, and that seals only if it names that token, or a key operation on an
  unsealed vault whose action and key the caller's policy allows.
\<close>
theorem grpc_guarded:
  assumes "grpc_serve P B U (Some run) md cc req c r = (res, c', r')" "req \<noteq> HealthRequest"
  shows "(\<exists>e. res = Inl e) \<and> c' = c \<and> r' = r \<or>
    (\<exists>get token rest p. md = Some get \<and> get ''authorization'' = (''Bearer '' @ token) # rest \<and> token \<noteq> [] \<and> run token = Inr p \<and>
      (case req of
         EmergencySealRequest confirm t \<Rightarrow> confirm \<and> adminToken c \<noteq> [] \<and> (vault_seal c' \<noteq> vault_seal c \<longrightarrow> t = adminToken c)
       | _ \<Rightarrow> rpc_needs req \<noteq> [] \<and> \<not> u_IsSealed (vault_seal c) \<and> \<not> u_IsEmergencySealed (vault_seal c) \<and>
           (\<forall>(a, k) \<in> set (rpc_needs req). IsActionAllowed U p a \<and> IsKeyAllowed p k)))"
proof (cases "grpc_authenticate (Some run) md")
  case (Inl e)
  with assms show ?thesis by (auto simp: grpc_serve_def InterceptorChain_def health_method)
next
  case (Inr policy)
  from authenticate_Inr [OF Inr] obtain get token rest p where g: "md = Some get" "get ''authorization'' = (''Bearer '' @ token) # rest"
    "token \<noteq> []" "run token = Inr p" "policy = Some p" .
  let ?cc = "cc\<lparr>cvalues := WithPolicy (cvalues cc) p\<rparr>"
  obtain x c1 r1 where m: "grpc_method P B U ?cc req c r = (x, c1, r1)" by (metis prod.exhaust)
  from chain_authenticated [OF assms Inr [unfolded g(5)] m] show ?thesis
  proof cases
    case 1
    then show ?thesis by blast
  next
    case 2
    show ?thesis
    proof (cases "\<exists>confirm t. req = EmergencySealRequest confirm t")
      case True
      then obtain confirm t where req: "req = EmergencySealRequest confirm t" by blast
      from emergency_guarded [OF m [unfolded req]] 2 g req recovered_Inl show ?thesis by auto
    next
      case False
      have "PolicyFromContext (cvalues ?cc) = Some p" by (simp add: PolicyFromContext_def WithPolicy_def)
      from operation_guarded [OF m this assms(2) False]
      show ?thesis
      proof
        assume "(\<exists>e. x = Inl e) \<and> c1 = c \<and> r1 = r"
        with 2 recovered_Inl show ?thesis by metis
      next
        assume "rpc_needs req \<noteq> [] \<and> (\<forall>(a, k) \<in> set (rpc_needs req). IsActionAllowed U p a \<and> IsKeyAllowed p k)"
        with 2 g False assms(2) show ?thesis by (auto simp: seal_exempt split: grpc_request.splits)
      qed
    qed
  qed
qed

definition rpc_users :: "string \<Rightarrow> Policy res" where
  "rpc_users t = (if t = ''s3cret'' then Inr toy_reader else Inl ErrUnauthorized)"

definition plain_base64 :: base64 where
  "plain_base64 = \<lparr>EncodeToString = map (\<lambda>b. char_of (unat b)), decoded = map (\<lambda>ch. word_of_nat (of_char ch)), decode_ok = (\<lambda>_. True)\<rparr>"

theorem grpc_guarded_witness:
  "\<exists>e. grpc_serve toy_prims plain_base64 toy_unicode (Some rpc_users) (Some (\<lambda>_. [''Bearer s3cret''])) toy_call (ShredKeyRequest ''k'' 1) toy_core zero_source =
     (Inl e, toy_core, zero_source)"
proof -
  obtain res c' r' where s: "grpc_serve toy_prims plain_base64 toy_unicode (Some rpc_users) (Some (\<lambda>_. [''Bearer s3cret''])) toy_call (ShredKeyRequest ''k'' 1) toy_core zero_source =
     (res, c', r')" by (metis prod.exhaust)
  have "\<not> IsActionAllowed toy_unicode toy_reader ''KeyOp''"
    by (simp add: IsActionAllowed_def toy_reader_def ascii_def fold_byte_def code_def)
  then have no: "run token = Inr p \<Longrightarrow> run = rpc_users \<Longrightarrow> \<not> IsActionAllowed toy_unicode p ''KeyOp''" for run token p
    by (auto simp: rpc_users_def split: if_splits)
  from grpc_guarded [OF s] no show ?thesis using s by auto
qed

section \<open>gRPC: tenants are not kept apart\<close>

lemma authorize_tenant: "authorize U (map_option (\<lambda>p. p\<lparr>TenantID := t p\<rparr>) policy) = authorize U policy"
  by (auto simp: fun_eq_iff authorize_def IsActionAllowed_def IsKeyAllowed_def split: option.splits)

definition with_policy :: "Policy option \<Rightarrow> call \<Rightarrow> call" where
  "with_policy policy cc = (case policy of None \<Rightarrow> cc | Some p \<Rightarrow> cc\<lparr>cvalues := WithPolicy (cvalues cc) p\<rparr>)"

lemma recordAudit_tenant:
  "recordAudit (with_policy (Some (p\<lparr>TenantID := t\<rparr>)) cc) = recordAudit (with_policy (Some p) cc)"
  by (auto simp: fun_eq_iff recordAudit_def with_policy_def PolicyFromContext_def WithPolicy_def split: option.splits)

lemma with_policy_simps [simp]: "at (with_policy q cc) = at cc" "cancelled (with_policy q cc) = cancelled cc"
  "PolicyFromContext (cvalues (with_policy (Some p) cc)) = Some p"
  by (simp_all add: with_policy_def PolicyFromContext_def WithPolicy_def split: option.splits)

lemma method_tenant:
  "grpc_method P B U (with_policy (Some (p\<lparr>TenantID := t\<rparr>)) cc) req = grpc_method P B U (with_policy (Some p) cc) req"
proof -
  have a: "authorize U (Some (p\<lparr>TenantID := t\<rparr>)) = authorize U (Some p)"
    using authorize_tenant [of U "\<lambda>_. t" "Some p"] by simp
  note rules = a recordAudit_tenant with_policy_simps
  have "grpc_EmergencySeal (with_policy (Some (p\<lparr>TenantID := t\<rparr>)) cc) = grpc_EmergencySeal (with_policy (Some p) cc)"
    by (intro ext) (simp only: grpc_EmergencySeal_def core_EmergencySeal_def rules)
  moreover have "core_CreateKey P U (with_policy (Some (p\<lparr>TenantID := t\<rparr>)) cc) k d b (Some (p\<lparr>TenantID := t\<rparr>)) = core_CreateKey P U (with_policy (Some p) cc) k d b (Some p)"
    "core_RotateKey P U (with_policy (Some (p\<lparr>TenantID := t\<rparr>)) cc) k (Some (p\<lparr>TenantID := t\<rparr>)) = core_RotateKey P U (with_policy (Some p) cc) k (Some p)"
    "core_GenerateDataKey P U (with_policy (Some (p\<lparr>TenantID := t\<rparr>)) cc) k (Some (p\<lparr>TenantID := t\<rparr>)) = core_GenerateDataKey P U (with_policy (Some p) cc) k (Some p)" for k d b
    unfolding fun_eq_iff core_CreateKey_def core_RotateKey_def core_GenerateDataKey_def rules by blast+
  moreover have "core_ShredKey U (with_policy (Some (p\<lparr>TenantID := t\<rparr>)) cc) k v (Some (p\<lparr>TenantID := t\<rparr>)) = core_ShredKey U (with_policy (Some p) cc) k v (Some p)"
    "core_SoftDeleteKey U (with_policy (Some (p\<lparr>TenantID := t\<rparr>)) cc) k v (Some (p\<lparr>TenantID := t\<rparr>)) = core_SoftDeleteKey U (with_policy (Some p) cc) k v (Some p)"
    "core_RestoreKey U (with_policy (Some (p\<lparr>TenantID := t\<rparr>)) cc) k v (Some (p\<lparr>TenantID := t\<rparr>)) = core_RestoreKey U (with_policy (Some p) cc) k v (Some p)" for k v
    unfolding fun_eq_iff core_ShredKey_def core_SoftDeleteKey_def core_RestoreKey_def manager_op_def rules by blast+
  moreover have "core_Encrypt P U (with_policy (Some (p\<lparr>TenantID := t\<rparr>)) cc) k x (Some (p\<lparr>TenantID := t\<rparr>)) = core_Encrypt P U (with_policy (Some p) cc) k x (Some p)"
    "core_Decrypt P U (with_policy (Some (p\<lparr>TenantID := t\<rparr>)) cc) k x (Some (p\<lparr>TenantID := t\<rparr>)) = core_Decrypt P U (with_policy (Some p) cc) k x (Some p)" for k x
    unfolding fun_eq_iff core_Encrypt_def core_Decrypt_def rules by blast+
  ultimately show ?thesis by (cases req) (simp_all add: fun_eq_iff method_defs)
qed

text \<open>Whatever tenants the callers' policies name, a request has the same result and the same
  effect: unlike the HTTP handlers, gRPC never scopes a key's name to the caller's tenant.\<close>

theorem grpc_tenant_blind:
  "grpc_serve P B U (Some (\<lambda>token. map_sum id (\<lambda>p. p\<lparr>TenantID := t p\<rparr>) (run token))) md = grpc_serve P B U (Some run) md"
proof -
  let ?run = "\<lambda>token. map_sum id (\<lambda>p. p\<lparr>TenantID := t p\<rparr>) (run token)"
  have auth: "grpc_authenticate (Some ?run) md = map_sum id (map_option (\<lambda>p. p\<lparr>TenantID := t p\<rparr>)) (grpc_authenticate (Some run) md)"
    by (auto simp: grpc_authenticate_def sum.map_comp comp_def split: option.splits list.splits)
  have cc: "(case q of None \<Rightarrow> cc | Some p \<Rightarrow> cc\<lparr>cvalues := WithPolicy (cvalues cc) p\<rparr>) = with_policy q cc" for q cc
    by (simp add: with_policy_def)
  have same: "grpc_method P B U (with_policy (map_option (\<lambda>p. p\<lparr>TenantID := t p\<rparr>) q) cc) = grpc_method P B U (with_policy q cc)" for q cc
    by (cases q) (simp_all add: fun_eq_iff method_tenant)
  show ?thesis
    by (cases "grpc_authenticate (Some run) md") (auto simp: fun_eq_iff grpc_serve_def InterceptorChain_def auth cc same Let_def)
qed

section \<open>What stays in memory\<close>

definition secret_of :: "grpc_response \<Rightarrow> bytes" where
  "secret_of m = (case m of DecryptResponse plain _ \<Rightarrow> plain | CreateKeyResponse _ _ dek \<Rightarrow> dek | RotateKeyResponse _ _ dek \<Rightarrow> dek
     | GenerateDataKeyResponse dek _ \<Rightarrow> dek | _ \<Rightarrow> [])"

text \<open>What is sent is the encoding of the message as the method returned it, and what stays
  behind holds only zeros where the secret was.\<close>

theorem marshal_wipes:
  assumes "Marshal base m = (sent, left)"
  shows "sent = base m" "secret_of left = replicate (length (secret_of m)) 0" "secret_of m = [] \<Longrightarrow> left = m"
  using assms by (cases m; auto simp: Marshal_def secret_of_def clearBytes_def map_replicate_const)+

section \<open>MCP: what an agent can do\<close>

lemma allowed_key_loop_iff: "allowed_key_loop ks k \<longleftrightarrow> k \<in> set ks \<or> ''*'' \<in> set ks"
  by (induction ks) auto

lemma mcp_authenticate_iff:
  "mcp_authenticate cfg meta \<longleftrightarrow> mc_Token cfg \<noteq> '''' \<and> (\<exists>m. meta = Some m \<and> m ''mcp_token'' = Some (MetaString (mc_Token cfg)))"
  by (auto simp: mcp_authenticate_def split: option.splits meta_value.splits)

text \<open>
  What the tools for agents let through: a call either answers with an error and
  changes nothing, or its metadata holds the configured, non-empty token, the vault is unsealed and
  the key is allowed, for encryption by a pattern of the list of keys, for decryption by its very
  name or a star in that list, and then the ciphertext has at most 64 KiB.
\<close>
theorem mcp_guarded:
  shows "yvonne_decrypt P B U cfg meta cc k ct c r = (res, c', r') \<Longrightarrow>
      (\<exists>msg. res = Inr (errorResult msg)) \<and> c' = c \<and> r' = r \<or>
      mc_Token cfg \<noteq> '''' \<and> (\<exists>m. meta = Some m \<and> m ''mcp_token'' = Some (MetaString (mc_Token cfg))) \<and>
      \<not> u_IsSealed (vault_seal c) \<and> \<not> u_IsEmergencySealed (vault_seal c) \<and>
      (k \<in> set (mc_AllowedKeys cfg) \<or> ''*'' \<in> set (mc_AllowedKeys cfg)) \<and> length (decoded B ct) \<le> 65536"
    and "yvonne_encrypt P B U cfg meta cc k pt c r = (res, c', r') \<Longrightarrow>
      (\<exists>msg. res = Inr (errorResult msg)) \<and> c' = c \<and> r' = r \<or>
      mc_Token cfg \<noteq> '''' \<and> (\<exists>m. meta = Some m \<and> m ''mcp_token'' = Some (MetaString (mc_Token cfg))) \<and>
      \<not> u_IsSealed (vault_seal c) \<and> \<not> u_IsEmergencySealed (vault_seal c) \<and>
      (\<exists>pattern \<in> set (mc_AllowedKeys cfg). matchPattern pattern k)"
proof -
  assume d: "yvonne_decrypt P B U cfg meta cc k ct c r = (res, c', r')"
  let ?p = "mcp_policy cfg ''Decrypt''"
  consider "\<not> permitted U (Some ?p) [(''Decrypt'', k)] c" | "permitted U (Some ?p) [(''Decrypt'', k)] c" by blast
  then show "(\<exists>msg. res = Inr (errorResult msg)) \<and> c' = c \<and> r' = r \<or>
      mc_Token cfg \<noteq> '''' \<and> (\<exists>m. meta = Some m \<and> m ''mcp_token'' = Some (MetaString (mc_Token cfg))) \<and>
      \<not> u_IsSealed (vault_seal c) \<and> \<not> u_IsEmergencySealed (vault_seal c) \<and>
      (k \<in> set (mc_AllowedKeys cfg) \<or> ''*'' \<in> set (mc_AllowedKeys cfg)) \<and> length (decoded B ct) \<le> 65536"
  proof cases
    case 1
    from refused_use(2) [OF this] obtain e where "core_Decrypt P U cc k (decoded B ct) (Some ?p) c = (Inl e, c)" by blast
    with d show ?thesis by (auto simp: yvonne_decrypt_def split: if_splits)
  next
    case 2
    with d permittedD(1,2) [OF 2] show ?thesis
      by (auto simp: yvonne_decrypt_def mcp_authenticate_iff mcp_isKeyAllowed_def allowed_key_loop_iff maxMCPDecryptSize_def split: if_splits)
  qed
next
  assume e: "yvonne_encrypt P B U cfg meta cc k pt c r = (res, c', r')"
  let ?p = "mcp_policy cfg ''Encrypt''"
  consider "\<not> permitted U (Some ?p) [(''Encrypt'', k)] c" | "permitted U (Some ?p) [(''Encrypt'', k)] c" by blast
  then show "(\<exists>msg. res = Inr (errorResult msg)) \<and> c' = c \<and> r' = r \<or>
      mc_Token cfg \<noteq> '''' \<and> (\<exists>m. meta = Some m \<and> m ''mcp_token'' = Some (MetaString (mc_Token cfg))) \<and>
      \<not> u_IsSealed (vault_seal c) \<and> \<not> u_IsEmergencySealed (vault_seal c) \<and>
      (\<exists>pattern \<in> set (mc_AllowedKeys cfg). matchPattern pattern k)"
  proof cases
    case 1
    from refused_use(1) [OF this] obtain x where "core_Encrypt P U cc k (decoded B pt) (Some ?p) c r = (Inl x, c, r)" by blast
    with e show ?thesis by (auto simp: yvonne_encrypt_def split: if_splits)
  next
    case 2
    then have "IsKeyAllowed ?p k" using permittedD(3) [OF 2] by simp
    then have "\<exists>pattern \<in> set (mc_AllowedKeys cfg). matchPattern pattern k" by (simp add: IsKeyAllowed_iff mcp_policy_def)
    with e permittedD(1,2) [OF 2] show ?thesis
      by (auto simp: yvonne_encrypt_def mcp_authenticate_iff split: if_splits)
  qed
qed

definition agent_config :: mcp_config where
  "agent_config = \<lparr>mc_Token = ''m'', mc_AllowedKeys = [''app-*'', ''k'']\<rparr>"

definition agent_meta :: "(string \<rightharpoonup> meta_value) option" where
  "agent_meta = Some [''mcp_token'' \<mapsto> MetaString ''m'']"

theorem mcp_guarded_witness:
  "\<exists>msg. yvonne_decrypt toy_prims plain_base64 toy_unicode agent_config agent_meta toy_call ''app-1'' ''x'' toy_core zero_source =
     (Inr (errorResult msg), toy_core, zero_source)"
proof -
  obtain res c' r' where s: "yvonne_decrypt toy_prims plain_base64 toy_unicode agent_config agent_meta toy_call ''app-1'' ''x'' toy_core zero_source =
     (res, c', r')" by (metis prod.exhaust)
  from mcp_guarded(1) [OF s] show ?thesis using s by (auto simp: agent_config_def)
qed

text \<open>The list of keys means patterns to the policy but names to the decryption tool: what an agent
  encrypts under a pattern it cannot decrypt, whatever the ciphertext.\<close>

theorem mcp_patterns:
  "authorize U (Some (mcp_policy agent_config ''Encrypt'')) ''Encrypt'' ''app-1'' = None"
  "yvonne_decrypt P B U agent_config agent_meta cc ''app-1'' ct c r = (Inr (errorResult ''key not in MCP whitelist''), c, r)"
proof -
  have "IsKeyAllowed (mcp_policy agent_config ''Encrypt'') ''app-1''"
    by (simp add: IsKeyAllowed_iff mcp_policy_def agent_config_def matchPattern_def has_suffix_def has_prefix_def)
  moreover have "IsActionAllowed U (mcp_policy agent_config ''Encrypt'') ''Encrypt''"
    by (simp add: IsActionAllowed_def mcp_policy_def ascii_def fold_byte_def code_def)
  ultimately show "authorize U (Some (mcp_policy agent_config ''Encrypt'')) ''Encrypt'' ''app-1'' = None" by (simp add: authorize_def)
  show "yvonne_decrypt P B U agent_config agent_meta cc ''app-1'' ct c r = (Inr (errorResult ''key not in MCP whitelist''), c, r)"
    by (simp add: yvonne_decrypt_def mcp_authenticate_iff agent_config_def agent_meta_def mcp_isKeyAllowed_def)
qed

end
