(* ===== verification/Float64.thy ===== *)
theory Float64
  imports Prelude "HOL-Library.Log_Nat"
begin

text \<open>
  Go's \<^verbatim>\<open>float64\<close> as the rate limiter and the metrics use it: a number is the rational it
  stands for, and every operation is the exact one followed by rounding to 53 significant bits,
  to nearest, ties to even. The range of exponents is not bounded; the values of these components
  (seconds, tokens, counts) are far from its ends.
\<close>

section \<open>Rounding\<close>

definition round_even :: "rat \<Rightarrow> int" where
  "round_even y =
     (let n = \<lfloor>y\<rfloor>; d = y - of_int n
      in if d < 1 / 2 then n else if d > 1 / 2 then n + 1 else if even n then n else n + 1)"

text \<open>The binary exponent of a positive number, from the lengths of numerator and denominator.\<close>

definition ilog :: "rat \<Rightarrow> int" where
  "ilog x = (case quotient_of x of (p, q) \<Rightarrow> let k = bitlen p - bitlen q in if 2 powi k \<le> x then k else k - 1)"

definition fl :: "rat \<Rightarrow> rat" where
  "fl x = (if x = 0 then 0 else let e = ilog \<bar>x\<bar> - 52 in of_int (round_even (x / 2 powi e)) * 2 powi e)"

lemma round_even_int [simp]: "round_even (of_int n) = n"
  by (simp add: round_even_def)

lemma round_even_error: "\<bar>of_int (round_even y) - y\<bar> \<le> 1 / 2"
  using floor_correct [of y] by (auto simp: round_even_def Let_def)

lemma powi_mono: "a \<le> b \<Longrightarrow> (2 :: rat) powi a \<le> 2 powi b"
  by (simp add: power_int_increasing)

lemma ilog_bounds:
  assumes "0 < x"
  shows "2 powi ilog x \<le> x" "x < 2 powi (ilog x + 1)"
proof -
  obtain p q where pq: "quotient_of x = (p, q)" by (metis surj_pair)
  then have q: "0 < q" and x: "x = of_int p / of_int q" using quotient_of_denom_pos quotient_of_div by blast+
  with assms have p: "0 < p" by (simp add: zero_less_divide_iff)
  have pow: "(2 :: rat) ^ nat (bitlen i - 1) \<le> of_int i" "of_int i < (2 :: rat) ^ nat (bitlen i)" if "0 < i" for i
    using bitlen_bounds [OF that] by (metis of_int_le_iff of_int_numeral of_int_power, metis of_int_less_iff of_int_numeral of_int_power)
  have len: "0 < bitlen i" if "0 < i" for i using that bitlen_nonneg [of i] bitlen_eq_zero_iff [of i] by linarith
  have b: "(2 :: rat) powi (bitlen i - 1) \<le> of_int i" "of_int i < (2 :: rat) powi bitlen i" if "0 < i" for i
    using pow [OF that] len [OF that] by (simp_all add: power_int_def)
  have k: "x < 2 powi (bitlen p - bitlen q + 1)" "2 powi (bitlen p - bitlen q - 1) \<le> x"
  proof -
    have "x < 2 powi bitlen p / 2 powi (bitlen q - 1)"
      unfolding x using b(2) [OF p] b(1) [OF q] p by (intro frac_less) auto
    also have "\<dots> = 2 powi (bitlen p - bitlen q + 1)" by (simp add: power_int_diff power_int_add)
    finally show "x < 2 powi (bitlen p - bitlen q + 1)" .
    have "2 powi (bitlen p - 1) / 2 powi bitlen q \<le> x"
      unfolding x using b(1) [OF p] b(2) [OF q] q p by (intro frac_le) auto
    moreover have "2 powi (bitlen p - bitlen q - 1) = 2 powi (bitlen p - 1) / (2 :: rat) powi bitlen q"
      by (simp add: power_int_diff)
    ultimately show "2 powi (bitlen p - bitlen q - 1) \<le> x" by simp
  qed
  show "2 powi ilog x \<le> x" "x < 2 powi (ilog x + 1)"
    using k by (auto simp: ilog_def pq Let_def)
qed

lemma fl_0 [simp]: "fl 0 = 0"
  by (simp add: fl_def)

text \<open>Half a unit in the last place.\<close>

lemma fl_error: "\<bar>fl x - x\<bar> \<le> \<bar>x\<bar> * 2 powi (- 53)"
proof (cases "x = 0")
  case False
  let ?e = "ilog \<bar>x\<bar> - 52" let ?u = "2 powi ?e :: rat"
  have u: "0 < ?u" by simp
  have "fl x - x = (of_int (round_even (x / ?u)) - x / ?u) * ?u"
    using u False by (simp add: fl_def Let_def algebra_simps)
  then have "\<bar>fl x - x\<bar> = \<bar>of_int (round_even (x / ?u)) - x / ?u\<bar> * ?u" using u by (simp add: abs_mult)
  also have "\<dots> \<le> 1 / 2 * ?u" using round_even_error u by (intro mult_right_mono) auto
  also have "\<dots> = 2 powi ilog \<bar>x\<bar> * 2 powi (- 53)" by (simp add: power_int_diff power_int_minus)
  also have "\<dots> \<le> \<bar>x\<bar> * 2 powi (- 53)" using ilog_bounds(1) [of "\<bar>x\<bar>"] False by (intro mult_right_mono) auto
  finally show ?thesis .
qed simp

lemma fl_bounds:
  assumes "0 \<le> x"
  shows "fl x \<le> x * (1 + 2 powi (- 53))" "x * (1 - 2 powi (- 53)) \<le> fl x"
proof -
  have "fl x - x \<le> x * 2 powi (- 53)" "x - fl x \<le> x * 2 powi (- 53)"
    using fl_error [of x] abs_ge_self [of "fl x - x"] abs_ge_minus_self [of "fl x - x"] assms
    unfolding abs_of_nonneg [OF assms] by linarith+
  then show "fl x \<le> x * (1 + 2 powi (- 53))" "x * (1 - 2 powi (- 53)) \<le> fl x"
    unfolding distrib_left right_diff_distrib mult_1_right by linarith+
qed

lemma fl_nonneg:
  assumes "0 \<le> x"
  shows "0 \<le> fl x"
proof -
  have "0 \<le> x * (1 - 2 powi (- 53))" using assms by (intro mult_nonneg_nonneg) (simp_all add: power_int_minus)
  then show ?thesis using fl_bounds(2) [OF assms] by linarith
qed

text \<open>Integers below \<open>2\<^sup>5\<^sup>3\<close> are exact.\<close>

lemma fl_int [simp]: "\<bar>n\<bar> < 2 ^ 53 \<Longrightarrow> fl (of_int n) = of_int n"
proof (cases "n = 0")
  case False
  assume n: "\<bar>n\<bar> < 2 ^ 53"
  let ?x = "of_int n :: rat" let ?e = "ilog \<bar>?x\<bar> - 52"
  have "2 powi ilog \<bar>?x\<bar> \<le> \<bar>?x\<bar>" using ilog_bounds(1) [of "\<bar>?x\<bar>"] False by simp
  moreover have "\<bar>?x\<bar> < (2 :: rat) powi 53" using n by (simp flip: of_int_abs)
  ultimately have "\<not> 53 \<le> ilog \<bar>?x\<bar>" using powi_mono [of 53 "ilog \<bar>?x\<bar>"] by linarith
  then have e: "?e \<le> 0" by simp
  have "?x / 2 powi ?e = of_int (n * 2 ^ nat (- ?e))"
    using e by (simp add: power_int_def power_one_over)
  then have "fl ?x = of_int (n * 2 ^ nat (- ?e)) * 2 powi ?e" using False by (simp only: fl_def Let_def round_even_int) simp
  also have "\<dots> = ?x" using e by (simp add: power_int_def power_one_over)
  finally show ?thesis .
qed simp

end
