(* ===== verification/Metrics.thy ===== *)
theory Metrics
  imports Totp Float64
begin

text \<open>
  \<^verbatim>\<open>internal/metrics/registry.go\<close>: request counters by action, failure counters and the
  histogram of request durations, with their text form. Counters are 64-bit words. The readings of
  the Go runtime are a parameter.
\<close>

section \<open>Durations\<close>

definition Seconds :: "duration \<Rightarrow> rat" where
  "Seconds d =
     (let sec = quot d second; nsec = d - sec * second
      in fl (fl (of_int sec) + fl (of_int nsec / 1000000000)))"

lemma Seconds_bounds:
  assumes "0 \<le> d" "d < 2 ^ 63"
  shows "0 \<le> Seconds d" "Seconds d \<le> of_int d / 1000000000 * (1 + 2 powi (- 53)) * (1 + 2 powi (- 53))"
proof -
  define u :: rat where "u = 1 + 2 powi (- 53)"
  let ?s = "d div 1000000000" and ?n = "d mod 1000000000"
  have q: "quot d second = ?s" "d - ?s * second = ?n" using assms by (simp_all add: quot_def minus_div_mult_eq_mod)
  have s: "0 \<le> ?s" "?s < 2 ^ 53" "0 \<le> ?n" using assms by (auto simp: div_less_iff_less_mult)
  then have fs: "fl (of_int ?s) = of_int ?s" by (intro fl_int) simp
  let ?f = "fl (of_int ?n / 1000000000)"
  have n: "0 \<le> ?f" "?f \<le> of_int ?n / 1000000000 * u"
    unfolding u_def using s(3) by (simp add: fl_nonneg, intro fl_bounds(1), simp)
  have u: "1 \<le> u" by (simp add: u_def)
  have d: "of_int d = (of_int ?s * 1000000000 + of_int ?n :: rat)"
    by (metis div_mult_mod_eq of_int_add of_int_mult of_int_numeral)
  have "of_int ?s + ?f \<le> of_int ?s * u + of_int ?n / 1000000000 * u"
    using n(2) mult_left_mono [OF u, of "of_int ?s"] s(1) by simp
  also have "\<dots> = of_int d / 1000000000 * u" unfolding d by (simp add: field_simps)
  finally have sum: "of_int ?s + ?f \<le> of_int d / 1000000000 * u" .
  have nonneg: "0 \<le> of_int ?s + ?f" using n(1) s(1) by simp
  have eq: "Seconds d = fl (of_int ?s + ?f)" by (simp only: Seconds_def Let_def q fs)
  show "0 \<le> Seconds d" unfolding eq by (rule fl_nonneg [OF nonneg])
  have "Seconds d \<le> (of_int ?s + ?f) * u" unfolding eq u_def by (rule fl_bounds(1) [OF nonneg])
  also have "\<dots> \<le> of_int d / 1000000000 * u * u" using sum u by (intro mult_right_mono) linarith+
  finally show "Seconds d \<le> of_int d / 1000000000 * (1 + 2 powi (- 53)) * (1 + 2 powi (- 53))" by (simp only: u_def)
qed

section \<open>Histogram\<close>

record Histogram =
  h_name :: string
  h_help :: string
  upper_bounds :: "rat list"
  counts :: "64 word list"
  h_sum :: rat
  h_count :: "64 word"

definition NewHistogram :: "string \<Rightarrow> string \<Rightarrow> rat list \<Rightarrow> Histogram" where
  "NewHistogram n h bounds =
     \<lparr>h_name = n, h_help = h, upper_bounds = bounds, counts = replicate (length bounds + 1) 0, h_sum = 0, h_count = 0\<rparr>"

text \<open>The loop over the bounds; the entry after them is the one of infinity.\<close>

fun observe_loop :: "rat \<Rightarrow> rat list \<Rightarrow> 64 word list \<Rightarrow> 64 word list" where
  "observe_loop v (b # bs) (c # cs) = (if v \<le> b then c + 1 else c) # observe_loop v bs cs"
| "observe_loop v [] (c # cs) = (c + 1) # cs"
| "observe_loop v bs [] = []"

definition Observe :: "rat \<Rightarrow> Histogram \<Rightarrow> Histogram" where
  "Observe v h = h\<lparr>h_sum := fl (h_sum h + v), h_count := h_count h + 1, counts := observe_loop v (upper_bounds h) (counts h)\<rparr>"

definition Snapshot :: "Histogram \<Rightarrow> 64 word \<times> rat \<times> 64 word list" where
  "Snapshot h = (h_count h, h_sum h, counts h)"

section \<open>Registry\<close>

text \<open>The request counters in the map's iteration order.\<close>

record Registry =
  apiDuration :: Histogram
  decryptFailures :: "64 word"
  encryptFailures :: "64 word"
  unsealFailures :: "64 word"
  apiRequests :: "(string \<times> 64 word) list"

definition NewRegistry :: Registry where
  "NewRegistry = \<lparr>apiDuration = NewHistogram ''yvonne_api_request_duration_seconds'' ''API request duration in seconds''
       (map fl [5 / 1000, 1 / 100, 25 / 1000, 5 / 100, 1 / 10, 25 / 100, 5 / 10, 1, 25 / 10, 5, 10]),
     decryptFailures = 0, encryptFailures = 0, unsealFailures = 0, apiRequests = []\<rparr>"

definition metric_actions :: "string list" where
  "metric_actions = [''Encrypt'', ''Decrypt'', ''CreateKey'', ''RotateKey'', ''ShredKey'', ''SoftDeleteKey'', ''RestoreKey'',
     ''GenerateDataKey'', ''ImportKey'', ''Unseal'', ''EmergencySeal'', ''AuditQuery'', ''TransitKey'', ''Health'', ''DegradedMode'']"

definition maxActionLen :: nat where
  "maxActionLen = 64"

fun incr :: "string \<Rightarrow> (string \<times> 64 word) list \<Rightarrow> (string \<times> 64 word) list" where
  "incr a [] = [(a, 1)]"
| "incr a ((b, n) # xs) = (if a = b then (b, n + 1) # xs else (b, n) # incr a xs)"

definition metric_label :: "string \<Rightarrow> string" where
  "metric_label action = (if length action > maxActionLen \<or> action \<notin> set metric_actions then ''Unknown'' else action)"

definition RecordAPIRequest :: "string \<Rightarrow> duration \<Rightarrow> bool \<Rightarrow> Registry \<Rightarrow> Registry" where
  "RecordAPIRequest action d success g =
     (let a = metric_label action;
          g1 = g\<lparr>apiDuration := Observe (Seconds d) (apiDuration g), apiRequests := incr a (apiRequests g)\<rparr>
      in if success then g1
         else if a = ''Decrypt'' then g1\<lparr>decryptFailures := decryptFailures g1 + 1\<rparr>
         else if a = ''Encrypt'' then g1\<lparr>encryptFailures := encryptFailures g1 + 1\<rparr>
         else if a = ''Unseal'' then g1\<lparr>unsealFailures := unsealFailures g1 + 1\<rparr>
         else g1)"

section \<open>Text form\<close>

abbreviation newline :: string where "newline \<equiv> [CHR 0x0A]"

definition trim_right :: "char \<Rightarrow> string \<Rightarrow> string" where
  "trim_right c s = rev (dropWhile (\<lambda>x. x = c) (rev s))"

text \<open>\<^verbatim>\<open>%.6f\<close>, correctly rounded.\<close>

definition fixed6 :: "rat \<Rightarrow> string" where
  "fixed6 x =
     (let n = nat \<bar>round_even (x * 1000000)\<bar>; ds = dec_nat (n mod 1000000)
      in (if x < 0 then ''-'' else []) @ dec_nat (n div 1000000) @ ''.'' @ replicate (6 - length ds) CHR ''0'' @ ds)"

definition formatFloat :: "rat \<Rightarrow> string" where
  "formatFloat x = trim_right CHR ''.'' (trim_right CHR ''0'' (fixed6 x))"

definition dec_word :: "64 word \<Rightarrow> string" where
  "dec_word w = dec_nat (unat w)"

definition metric_block :: "string \<Rightarrow> string \<Rightarrow> string \<Rightarrow> string \<Rightarrow> string" where
  "metric_block kind n h v =
     ''# HELP '' @ n @ '' '' @ h @ newline @ ''# TYPE '' @ n @ '' '' @ kind @ newline @ n @ '' '' @ v @ newline @ newline"

definition writeCounter :: "string \<Rightarrow> string \<Rightarrow> 64 word \<Rightarrow> string" where
  "writeCounter n h v = metric_block ''counter'' n h (dec_word v)"

definition writeGauge :: "string \<Rightarrow> string \<Rightarrow> rat \<Rightarrow> string" where
  "writeGauge n h v = metric_block ''gauge'' n h (formatFloat v)"

definition WritePrometheus :: "Histogram \<Rightarrow> string" where
  "WritePrometheus h =
     (let n = h_name h in
      ''# HELP '' @ n @ '' '' @ h_help h @ newline @ ''# TYPE '' @ n @ '' histogram'' @ newline @
      concat (map2 (\<lambda>b c. n @ ''_bucket{le='' @ [CHR 0x22] @ formatFloat b @ [CHR 0x22] @ ''} '' @ dec_word c @ newline) (upper_bounds h) (counts h)) @
      n @ ''_bucket{le='' @ [CHR 0x22] @ ''+Inf'' @ [CHR 0x22] @ ''} '' @ dec_word (counts h ! length (upper_bounds h)) @ newline @
      n @ ''_sum '' @ formatFloat (h_sum h) @ newline @ n @ ''_count '' @ dec_word (h_count h) @ newline @ newline)"

text \<open>Action names are plain, so that quoting only adds quotes.\<close>

definition registry_ServeHTTP :: "string \<Rightarrow> Registry \<Rightarrow> string" where
  "registry_ServeHTTP runtime g =
     WritePrometheus (apiDuration g) @
     writeCounter ''yvonne_decrypt_failures_total'' ''Total number of failed decrypt operations'' (decryptFailures g) @
     writeCounter ''yvonne_encrypt_failures_total'' ''Total number of failed encrypt operations'' (encryptFailures g) @
     writeCounter ''yvonne_unseal_failures_total'' ''Total number of failed unseal operations'' (unsealFailures g) @
     concat (map (\<lambda>(a, n). writeCounter (''yvonne_api_requests_total{action='' @ [CHR 0x22] @ a @ [CHR 0x22] @ ''}'') ''Total API requests by action'' n)
       (apiRequests g)) @
     runtime"

section \<open>What the histogram counts\<close>

definition observed :: "rat list \<Rightarrow> Histogram \<Rightarrow> Histogram" where
  "observed vs h = foldl (\<lambda>h v. Observe v h) h vs"

lemma observed_snoc [simp]: "observed [] h = h" "observed (vs @ [v]) h = Observe v (observed vs h)"
  by (simp_all add: observed_def)

lemma observe_loop_map:
  "observe_loop v bs (map f bs @ [c]) = map (\<lambda>b. f b + (if v \<le> b then 1 else 0)) bs @ [c + 1]"
  by (induction bs) auto

lemma observed_simps: "upper_bounds (observed vs h) = upper_bounds h" "h_count (observed vs h) = h_count h + of_nat (length vs)"
  by (induction vs rule: rev_induct) (simp_all add: Observe_def)

text \<open>Every entry counts the observations up to its bound, the last one all of them, modulo the
  width of the counters.\<close>

theorem histogram_counts:
  "counts (observed vs (NewHistogram n h bs)) =
     map (\<lambda>b. of_nat (length (filter (\<lambda>v. v \<le> b) vs))) bs @ [of_nat (length vs)]"
proof (induction vs rule: rev_induct)
  case Nil
  then show ?case by (simp add: NewHistogram_def replicate_append_same map_replicate_const)
next
  case (snoc v vs)
  have "upper_bounds (observed vs (NewHistogram n h bs)) = bs" by (simp add: observed_simps NewHistogram_def)
  with snoc show ?case by (simp add: Observe_def observe_loop_map add.commute)
qed

section \<open>How many series there are\<close>

definition recorded :: "(string \<times> duration \<times> bool) list \<Rightarrow> Registry" where
  "recorded es = foldl (\<lambda>g (a, d, ok). RecordAPIRequest a d ok g) NewRegistry es"

lemma incr_keys: "map fst (incr a xs) = (if a \<in> fst ` set xs then map fst xs else map fst xs @ [a])"
  by (induction a xs rule: incr.induct) auto

text \<open>Whatever actions are recorded, at most sixteen series of requests come out: the fifteen
  listed actions and \<open>Unknown\<close>.\<close>

theorem series_bounded:
  "fst ` set (apiRequests (recorded es)) \<subseteq> insert ''Unknown'' (set metric_actions)" "length (apiRequests (recorded es)) \<le> 16"
proof -
  have step: "apiRequests (RecordAPIRequest a d ok g) = incr (metric_label a) (apiRequests g)" for a d ok g
    by (simp add: RecordAPIRequest_def Let_def)
  have lab: "metric_label a \<in> insert ''Unknown'' (set metric_actions)" for a by (simp add: metric_label_def)
  have inv: "fst ` set (apiRequests (recorded es)) \<subseteq> insert ''Unknown'' (set metric_actions) \<and> distinct (map fst (apiRequests (recorded es)))"
  proof (induction es rule: rev_induct)
    case Nil
    then show ?case by (simp add: recorded_def NewRegistry_def)
  next
    case (snoc e es)
    obtain a d ok where "e = (a, d, ok)" by (cases e)
    moreover have "fst ` set (incr (metric_label a) xs) = insert (metric_label a) (fst ` set xs)" for xs
      using arg_cong [OF incr_keys [of "metric_label a" xs], of set] by (auto split: if_splits)
    ultimately show ?case using snoc lab [of a] by (auto simp: recorded_def step incr_keys)
  qed
  then show "fst ` set (apiRequests (recorded es)) \<subseteq> insert ''Unknown'' (set metric_actions)" by blast
  have "length (apiRequests (recorded es)) = card (fst ` set (apiRequests (recorded es)))"
    using inv distinct_card [of "map fst (apiRequests (recorded es))"] by simp
  also have "\<dots> \<le> card (insert ''Unknown'' (set metric_actions))" using inv by (intro card_mono) auto
  also have "\<dots> \<le> Suc (length metric_actions)" using card_length [of metric_actions] by (simp add: card_insert_if)
  finally show "length (apiRequests (recorded es)) \<le> 16" by (simp add: metric_actions_def)
qed

end
