(* ===== verification/Edge.thy ===== *)
theory Edge
  imports Handlers Metrics
begin

text \<open>
  The outermost layer of the HTTP API: \<^verbatim>\<open>ratelimit.go\<close>, \<^verbatim>\<open>cors.go\<close> and, of
  \<^verbatim>\<open>v1_router.go\<close>, \<^verbatim>\<open>ServeHTTP\<close> and the metrics route. A request is counted
  against the token bucket of its client before anything else happens. Tokens are
  \<^verbatim>\<open>float64\<close>; one call of \<^verbatim>\<open>Allow\<close> reads the clock once.
\<close>

section \<open>ratelimit.go: token buckets\<close>

record tokenBucket =
  b_tokens :: rat
  b_last :: time

text \<open>A nil set of proxies is the empty list.\<close>

record RateLimiter =
  buckets :: "string \<rightharpoonup> tokenBucket"
  rl_rate :: rat
  burst :: int
  lastClean :: time
  trustedProxies :: "string list"

definition NewRateLimiter :: "time \<Rightarrow> rat \<Rightarrow> int \<Rightarrow> RateLimiter" where
  "NewRateLimiter now rate b = \<lparr>buckets = Map.empty, rl_rate = rate, burst = b, lastClean = now, trustedProxies = []\<rparr>"

definition SetTrustedProxies :: "string list \<Rightarrow> RateLimiter \<Rightarrow> RateLimiter" where
  "SetTrustedProxies proxies rl = rl\<lparr>trustedProxies := proxies\<rparr>"

text \<open>\<^verbatim>\<open>time.Time.Sub\<close> saturates.\<close>

definition time_Sub :: "time \<Rightarrow> time \<Rightarrow> duration" where
  "time_Sub t u = max (- (2 ^ 63)) (min (2 ^ 63 - 1) (t - u))"

definition clean_buckets :: "time \<Rightarrow> (string \<rightharpoonup> tokenBucket) \<Rightarrow> (string \<rightharpoonup> tokenBucket)" where
  "clean_buckets now bs = (\<lambda>k. case bs k of None \<Rightarrow> None | Some b \<Rightarrow> if time_Sub now (b_last b) > 10 * minute then None else Some b)"

definition refill :: "rat \<Rightarrow> int \<Rightarrow> time \<Rightarrow> tokenBucket \<Rightarrow> rat" where
  "refill rate bu now b =
     (let t = fl (b_tokens b + fl (Seconds (time_Sub now (b_last b)) * rate))
      in if t > fl (of_int bu) then fl (of_int bu) else t)"

definition rl_Allow :: "time \<Rightarrow> string \<Rightarrow> RateLimiter \<Rightarrow> bool \<times> RateLimiter" where
  "rl_Allow now ip rl =
     (let rl1 = (if time_Sub now (lastClean rl) > 5 * minute
            then rl\<lparr>buckets := clean_buckets now (buckets rl), lastClean := now\<rparr> else rl);
          b = (case buckets rl1 ip of None \<Rightarrow> \<lparr>b_tokens = fl (of_int (burst rl)), b_last = now\<rparr> | Some b \<Rightarrow> b);
          t = refill (rl_rate rl) (burst rl) now b
      in if t < 1 then (False, rl1\<lparr>buckets := (buckets rl1)(ip \<mapsto> \<lparr>b_tokens = t, b_last = now\<rparr>)\<rparr>)
         else (True, rl1\<lparr>buckets := (buckets rl1)(ip \<mapsto> \<lparr>b_tokens = fl (t - 1), b_last = now\<rparr>)\<rparr>))"

section \<open>ratelimit.go: the client's address\<close>

text \<open>\<^verbatim>\<open>net.SplitHostPort\<close>: the host, or nothing on an error.\<close>

definition last_colon :: "string \<Rightarrow> nat option" where
  "last_colon s = (if CHR '':'' \<in> set s then Some (length s - 1 - length (takeWhile (\<lambda>c. c \<noteq> CHR '':'') (rev s))) else None)"

definition SplitHostPort :: "string \<Rightarrow> string option" where
  "SplitHostPort s =
     (case last_colon s of
        None \<Rightarrow> None
      | Some i \<Rightarrow>
          if hd s = CHR ''['' then
            let stop = length (takeWhile (\<lambda>c. c \<noteq> CHR '']'') s)
            in if CHR '']'' \<notin> set s \<or> stop + 1 \<noteq> i then None
               else if CHR ''['' \<in> set (drop 1 s) \<or> CHR '']'' \<in> set (drop (stop + 1) s) then None
               else Some (take (stop - 1) (drop 1 s))
          else let host = take i s
               in if CHR '':'' \<in> set host \<or> CHR ''['' \<in> set s \<or> CHR '']'' \<in> set s then None else Some host)"

definition host_of :: "string \<Rightarrow> string" where
  "host_of remote = (case SplitHostPort remote of None \<Rightarrow> remote | Some h \<Rightarrow> h)"

text \<open>The element before the first comma, unless the comma comes first.\<close>

definition first_forwarded :: "string \<Rightarrow> string" where
  "first_forwarded xff =
     (let idx = length (takeWhile (\<lambda>c. c \<noteq> CHR '','') xff)
      in if CHR '','' \<in> set xff \<and> idx > 0 then take idx xff else xff)"

definition clientIPFromRequest :: "unicode \<Rightarrow> request \<Rightarrow> string \<Rightarrow> string list \<Rightarrow> string" where
  "clientIPFromRequest U req remote proxies =
     (let direct = host_of remote;
          xff = r_header req ''X-Forwarded-For''; xri = r_header req ''X-Real-IP''
      in if proxies \<noteq> [] \<and> direct \<in> set proxies then
           (if xff \<noteq> '''' then TrimSpace U (first_forwarded xff)
            else if xri \<noteq> '''' then TrimSpace U xri
            else direct)
         else direct)"

definition rl_clientIP :: "unicode \<Rightarrow> RateLimiter \<Rightarrow> request \<Rightarrow> string" where
  "rl_clientIP U rl req = clientIPFromRequest U req (r_remote req) (trustedProxies rl)"

definition clientIP :: "unicode \<Rightarrow> request \<Rightarrow> string" where
  "clientIP U req = clientIPFromRequest U req (r_remote req) []"

section \<open>cors.go\<close>

type_synonym headers = "(string \<times> string) list"

record CORSConfig =
  AllowedOrigins :: "string list"
  AllowedMethods :: "string list"
  AllowedHeaders :: "string list"
  AllowCredentials :: bool
  MaxAge :: int

definition DefaultCORSConfig :: CORSConfig where
  "DefaultCORSConfig = \<lparr>AllowedOrigins = [''*''], AllowedMethods = [''GET'', ''POST'', ''PUT'', ''PATCH'', ''DELETE'', ''OPTIONS''],
     AllowedHeaders = [''Authorization'', ''Content-Type'', ''X-Request-ID''], AllowCredentials = False, MaxAge = 600\<rparr>"

fun isOriginAllowed :: "string \<Rightarrow> string list \<Rightarrow> bool" where
  "isOriginAllowed origin [] = False"
| "isOriginAllowed origin (a # as) = (a = ''*'' \<or> a = origin \<or> isOriginAllowed origin as)"

fun joined :: "string list \<Rightarrow> string" where
  "joined [] = ''''"
| "joined [x] = x"
| "joined (x # xs) = x @ '', '' @ joined xs"

definition cors_headers :: "CORSConfig \<Rightarrow> string \<Rightarrow> headers" where
  "cors_headers cfg origin =
     (if origin \<noteq> '''' \<and> isOriginAllowed origin (AllowedOrigins cfg) then
        [(''Access-Control-Allow-Origin'', origin), (''Access-Control-Allow-Methods'', joined (AllowedMethods cfg)),
         (''Access-Control-Allow-Headers'', joined (AllowedHeaders cfg))] @
        (if AllowCredentials cfg then [(''Access-Control-Allow-Credentials'', ''true'')] else []) @
        [(''Access-Control-Max-Age'', ''600'')]
      else [])"

text \<open>A handler that also writes headers.\<close>

type_synonym 's edge_handler = "request \<Rightarrow> 's \<Rightarrow> csprng \<Rightarrow> (headers \<times> response) \<times> 's \<times> csprng"

definition no_content :: response where
  "no_content = Response 204 JNull"

definition CORSMiddleware :: "CORSConfig \<Rightarrow> 's edge_handler \<Rightarrow> 's edge_handler" where
  "CORSMiddleware cfg next req s r =
     (let hs = cors_headers cfg (r_header req ''Origin'')
      in if r_method req = ''OPTIONS'' then ((hs, no_content), s, r)
         else case next req s r of ((hs1, resp), s1, r1) \<Rightarrow> ((hs @ hs1, resp), s1, r1))"

definition too_many :: "headers \<times> response" where
  "too_many = ([(''Retry-After'', ''1'')], writeJSONError 429 ''rate limit exceeded'')"

text \<open>\<^verbatim>\<open>RateLimiter.Middleware\<close>\<close>

definition rl_Middleware :: "unicode \<Rightarrow> 's edge_handler \<Rightarrow> (RateLimiter \<times> 's) edge_handler" where
  "rl_Middleware U next req st r =
     (case st of (rl, s) \<Rightarrow>
        (case rl_Allow (r_now req) (rl_clientIP U rl req) rl of
           (False, rl1) \<Rightarrow> (too_many, (rl1, s), r)
         | (True, rl1) \<Rightarrow> (case next req s r of (out, s1, r1) \<Rightarrow> (out, (rl1, s1), r1))))"

section \<open>v1\_router.go: metrics route and ServeHTTP\<close>

definition loopbackOnly :: "handler \<Rightarrow> handler" where
  "loopbackOnly next req R r =
     (let host = host_of (r_remote req)
      in if host = '''' then next req R r
         else if host \<noteq> ''127.0.0.1'' \<and> host \<noteq> ''::1'' \<and> host \<noteq> ''localhost''
         then (writeJSONError 403 ''metrics endpoint allows loopback only'', R, r)
         else next req R r)"

definition metricsHandler :: "string \<Rightarrow> Registry \<Rightarrow> handler" where
  "metricsHandler runtime g req R r = (Response 200 (JString (registry_ServeHTTP runtime g)), R, r)"

definition metrics_route :: "unicode \<Rightarrow> string \<Rightarrow> Registry \<Rightarrow> handler" where
  "metrics_route U runtime g req R r =
     (if authenticator R \<noteq> None
      then auditMiddleware ''Metrics'' (RequireAuth U (authenticator R) ''Metrics'' (metricsHandler runtime g)) req R r
      else loopbackOnly (metricsHandler runtime g) req R r)"

definition edge_mux :: "('k, 'p) env \<Rightarrow> string \<Rightarrow> Registry option \<Rightarrow> handler" where
  "edge_mux E runtime reg req R r =
     (case reg of
        Some g \<Rightarrow> if r_path req = ''/metrics'' then metrics_route (e_unicode E) runtime g req R r else mux E req R r
      | None \<Rightarrow> mux E req R r)"

definition maxRequestBodyBytes :: nat where
  "maxRequestBodyBytes = 2 ^ 20"

text \<open>\<^verbatim>\<open>http.MaxBytesReader\<close>: a longer body cannot be read to its end.\<close>

definition limit_body :: "request \<Rightarrow> request" where
  "limit_body req = req\<lparr>r_body := (case r_body req of Some b \<Rightarrow> if length b > maxRequestBodyBytes then None else Some b | None \<Rightarrow> None)\<rparr>"

definition ServeHTTP ::
  "('k, 'p) env \<Rightarrow> CORSConfig \<Rightarrow> string \<Rightarrow> Registry option \<Rightarrow> (RateLimiter option \<times> V1Router) edge_handler" where
  "ServeHTTP E cors runtime reg req st r =
     (case st of (lm, R) \<Rightarrow>
        (case (case lm of None \<Rightarrow> (True, None)
               | Some rl \<Rightarrow> map_prod id Some (rl_Allow (r_now req) (rl_clientIP (e_unicode E) rl req) rl)) of
           (False, lm1) \<Rightarrow> (too_many, (lm1, R), r)
         | (True, lm1) \<Rightarrow>
             (let hs = cors_headers cors (r_header req ''Origin'')
              in if r_method req = ''OPTIONS'' then ((hs, no_content), (lm1, R), r)
                 else case edge_mux E runtime reg (limit_body req) R r of (resp, R1, r1) \<Rightarrow> ((hs, resp), (lm1, R1), r1))))"

section \<open>How many requests pass\<close>

text \<open>The requests of a run in the order the limiter sees them, with its answers.\<close>

fun limiter_run :: "unicode \<Rightarrow> request list \<Rightarrow> RateLimiter \<Rightarrow> bool list \<times> RateLimiter" where
  "limiter_run U [] rl = ([], rl)"
| "limiter_run U (q # qs) rl =
     (case rl_Allow (r_now q) (rl_clientIP U rl q) rl of
        (ok, rl1) \<Rightarrow> (case limiter_run U qs rl1 of (oks, rl2) \<Rightarrow> (ok # oks, rl2)))"

abbreviation ulp :: rat where "ulp \<equiv> 2 powi (- 53)"

text \<open>The most that time can add, rounding included.\<close>

definition grown :: "rat \<Rightarrow> duration \<Rightarrow> rat" where
  "grown rate d = of_int d / 1000000000 * rate * (1 + ulp) ^ 3"

lemma grown_add: "grown rate (a + b) = grown rate a + grown rate b"
  by (simp only: grown_def of_int_add add_divide_distrib distrib_right)

lemma grown_nonneg: "0 \<le> rate \<Longrightarrow> 0 \<le> d \<Longrightarrow> 0 \<le> grown rate d"
  unfolding grown_def by (intro mult_nonneg_nonneg) auto

lemma refill_bounds:
  assumes rate: "0 \<le> rate" and bu: "0 < bu" "bu < 2 ^ 53" and b: "0 \<le> b_tokens b" "b_last b \<le> now"
  shows "0 \<le> refill rate bu now b" "refill rate bu now b \<le> of_int bu"
    "refill rate bu now b \<le> b_tokens b + grown rate (now - b_last b) + of_int bu * ulp"
proof -
  define u :: rat where "u = 1 + ulp"
  have u: "1 \<le> u" by (simp add: u_def)
  let ?d = "time_Sub now (b_last b)" and ?D = "now - b_last b"
  have d: "0 \<le> ?d" "?d < 2 ^ 63" "?d \<le> ?D" using b(2) by (auto simp: time_Sub_def)
  note sec = Seconds_bounds [OF d(1,2)]
  let ?P = "fl (Seconds ?d * rate)"
  have P0: "0 \<le> ?P" using sec(1) rate by (intro fl_nonneg) simp
  have "?P \<le> Seconds ?d * rate * u" unfolding u_def using sec(1) rate by (intro fl_bounds(1)) simp
  also have "\<dots> \<le> of_int ?D / 1000000000 * u * u * rate * u"
  proof -
    have "of_int ?d / 1000000000 * u * u \<le> of_int ?D / 1000000000 * u * u"
      using d(3) u by (intro mult_right_mono) (auto simp: divide_right_mono)
    then show ?thesis using sec(2) rate u by (intro mult_right_mono) (auto simp: u_def)
  qed
  also have "\<dots> = grown rate ?D" by (simp only: grown_def u_def [symmetric] power3_eq_cube mult_ac)
  finally have P: "?P \<le> grown rate ?D" .
  let ?S = "b_tokens b + ?P"
  have bu': "fl (of_int bu) = of_int bu" using bu by simp
  have S: "0 \<le> ?S" using b(1) P0 by simp
  show "0 \<le> refill rate bu now b" using fl_nonneg [OF S] bu by (simp add: refill_def bu' Let_def)
  show "refill rate bu now b \<le> of_int bu" by (simp add: refill_def bu' Let_def)
  have up: "0 \<le> ulp" by simp
  have "refill rate bu now b \<le> ?S + of_int bu * ulp"
  proof (cases "?S \<le> of_int bu")
    case True
    have "refill rate bu now b \<le> fl ?S" by (simp add: refill_def bu' Let_def)
    also have "\<dots> \<le> ?S * (1 + ulp)" by (rule fl_bounds(1) [OF S])
    also have "\<dots> = ?S + ?S * ulp" unfolding distrib_left by simp
    also have "\<dots> \<le> ?S + of_int bu * ulp" using mult_right_mono [OF True up] by (rule add_left_mono)
    finally show ?thesis .
  next
    case False
    have "refill rate bu now b \<le> of_int bu" by (simp add: refill_def bu' Let_def)
    moreover have "0 \<le> of_int bu * ulp" using bu up by (intro mult_nonneg_nonneg) auto
    ultimately show ?thesis using False by linarith
  qed
  then show "refill rate bu now b \<le> b_tokens b + grown rate ?D + of_int bu * ulp" using P by linarith
qed

text \<open>What is known about the bucket of one client after \<open>n\<close> of its \<open>m\<close> requests passed, at time
  \<open>t\<close>, with a limiter made at \<open>t0\<close>.\<close>

definition bucket_inv :: "rat \<Rightarrow> int \<Rightarrow> time \<Rightarrow> time \<Rightarrow> nat \<Rightarrow> nat \<Rightarrow> tokenBucket option \<Rightarrow> bool" where
  "bucket_inv rate bu t0 t n m bo \<longleftrightarrow>
     (let slack = of_nat m * (2 * (of_int bu * ulp))
      in case bo of
           None \<Rightarrow> of_nat n \<le> grown rate (t - t0) + slack
         | Some b \<Rightarrow> 0 \<le> b_tokens b \<and> t0 \<le> b_last b \<and> b_last b \<le> t \<and>
             of_nat n + b_tokens b \<le> of_int bu + grown rate (b_last b - t0) + slack)"

lemma bucket_inv_bound:
  assumes "bucket_inv rate bu t0 t n m bo" "0 \<le> rate" "0 < bu"
  shows "of_nat n \<le> of_int bu + grown rate (t - t0) + of_nat m * (2 * (of_int bu * ulp))"
proof (cases bo)
  case None
  with assms show ?thesis by (simp add: bucket_inv_def)
next
  case (Some b)
  with assms have "of_nat n + b_tokens b \<le> of_int bu + grown rate (b_last b - t0) + of_nat m * (2 * (of_int bu * ulp))"
    "0 \<le> b_tokens b" "0 \<le> t - b_last b" by (auto simp: bucket_inv_def Let_def)
  moreover have "grown rate (t - t0) = grown rate (b_last b - t0) + grown rate (t - b_last b)"
    using grown_add [of rate "b_last b - t0" "t - b_last b"] by simp
  ultimately show ?thesis using grown_nonneg [OF assms(2), of "t - b_last b"] by linarith
qed

lemma bucket_inv_later:
  assumes "bucket_inv rate bu t0 t n m bo" "t \<le> t'" "0 \<le> rate"
  shows "bucket_inv rate bu t0 t' n m bo"
proof -
  have "grown rate (t' - t0) = grown rate (t - t0) + grown rate (t' - t)"
    using grown_add [of rate "t - t0" "t' - t"] by simp
  with assms grown_nonneg [OF assms(3), of "t' - t"] show ?thesis
    by (auto simp: bucket_inv_def Let_def split: option.splits)
qed

text \<open>Forgetting a bucket that was idle for ten minutes gives its client nothing, as it would be
  full again.\<close>

lemma bucket_inv_clean:
  assumes "bucket_inv rate bu t0 t n m (Some b)" "0 \<le> rate" "of_int bu \<le> 600 * rate" "10 * minute < t - b_last b"
  shows "bucket_inv rate bu t0 t n m None"
proof -
  from assms(1) have i: "0 \<le> b_tokens b" "of_nat n + b_tokens b \<le> of_int bu + grown rate (b_last b - t0) + of_nat m * (2 * (of_int bu * ulp))"
    by (auto simp: bucket_inv_def Let_def)
  have "600 * rate \<le> of_int (t - b_last b) / 1000000000 * rate"
  proof -
    have "(of_int (10 * minute) :: rat) \<le> of_int (t - b_last b)" using assms(4) by (intro of_int_le_iff [THEN iffD2]) simp
    then have "600 \<le> (of_int (t - b_last b) :: rat) / 1000000000" by (simp add: field_simps)
    then show ?thesis using assms(2) by (rule mult_right_mono)
  qed
  also have "\<dots> \<le> grown rate (t - b_last b)"
  proof -
    have "0 \<le> of_int (t - b_last b) / 1000000000 * rate" using assms(2,4) by (intro mult_nonneg_nonneg) auto
    moreover have "(1 :: rat) \<le> (1 + ulp) ^ 3" by (rule one_le_power) simp
    ultimately show ?thesis unfolding grown_def by (metis mult_left_mono mult_1_right)
  qed
  finally have "of_int bu \<le> grown rate (t - b_last b)" using assms(3) by linarith
  moreover have "grown rate (t - t0) = grown rate (b_last b - t0) + grown rate (t - b_last b)"
    using grown_add [of rate "b_last b - t0" "t - b_last b"] by simp
  ultimately show ?thesis using i by (simp add: bucket_inv_def Let_def)
qed

lemma bucket_inv_fresh:
  "bucket_inv rate bu t0 t n m None \<Longrightarrow> t0 \<le> t \<Longrightarrow> 0 < bu \<Longrightarrow> bucket_inv rate bu t0 t n m (Some \<lparr>b_tokens = of_int bu, b_last = t\<rparr>)"
  by (simp add: bucket_inv_def)

lemma bucket_inv_take:
  assumes i: "bucket_inv rate bu t0 t n m (Some b)" and rate: "0 \<le> rate" and bu: "0 < bu" "bu < 2 ^ 53"
  defines "s \<equiv> refill rate bu t b"
  shows "s < 1 \<Longrightarrow> bucket_inv rate bu t0 t n (Suc m) (Some \<lparr>b_tokens = s, b_last = t\<rparr>)"
    and "\<not> s < 1 \<Longrightarrow> bucket_inv rate bu t0 t (Suc n) (Suc m) (Some \<lparr>b_tokens = fl (s - 1), b_last = t\<rparr>)"
proof -
  from i have b: "0 \<le> b_tokens b" "t0 \<le> b_last b" "b_last b \<le> t"
    and n: "of_nat n + b_tokens b \<le> of_int bu + grown rate (b_last b - t0) + of_nat m * (2 * (of_int bu * ulp))"
    by (auto simp: bucket_inv_def Let_def)
  note r = refill_bounds [OF rate bu b(1,3), folded s_def]
  have g: "grown rate (t - t0) = grown rate (b_last b - t0) + grown rate (t - b_last b)"
    using grown_add [of rate "b_last b - t0" "t - b_last b"] by simp
  have up: "0 \<le> of_int bu * ulp" using bu by (intro mult_nonneg_nonneg) auto
  have slack: "of_nat (Suc m) * (2 * (of_int bu * ulp)) = of_nat m * (2 * (of_int bu * ulp)) + (of_int bu * ulp + of_int bu * ulp)"
    unfolding of_nat_Suc distrib_right by linarith
  have sum: "of_nat n + s \<le> of_int bu + grown rate (t - t0) + of_nat m * (2 * (of_int bu * ulp)) + of_int bu * ulp"
    using n r(3) g by linarith
  show "s < 1 \<Longrightarrow> bucket_inv rate bu t0 t n (Suc m) (Some \<lparr>b_tokens = s, b_last = t\<rparr>)"
    unfolding bucket_inv_def Let_def slack option.case tokenBucket.simps using sum r(1) b up by linarith
  assume "\<not> s < 1"
  then have s: "0 \<le> s - 1" by simp
  have "fl (s - 1) \<le> (s - 1) * (1 + ulp)" by (rule fl_bounds(1) [OF s])
  also have "\<dots> = (s - 1) + (s - 1) * ulp" unfolding distrib_left by simp
  also have "\<dots> \<le> (s - 1) + of_int bu * ulp" using r(2) by (intro add_left_mono mult_right_mono) auto
  finally have "of_nat (Suc n) + fl (s - 1) \<le> of_nat n + s + of_int bu * ulp" by simp
  then show "bucket_inv rate bu t0 t (Suc n) (Suc m) (Some \<lparr>b_tokens = fl (s - 1), b_last = t\<rparr>)"
    unfolding bucket_inv_def Let_def slack option.case tokenBucket.simps using sum b fl_nonneg [OF s] by linarith
qed

lemma clean_inv:
  assumes "bucket_inv rate bu t0 t n m (bs k)" "0 \<le> rate" "of_int bu \<le> 600 * rate"
  shows "bucket_inv rate bu t0 t n m (clean_buckets t bs k)"
proof (cases "bs k")
  case (Some b)
  have "10 * minute < t - b_last b" if "time_Sub t (b_last b) > 10 * minute" using that by (auto simp: time_Sub_def)
  with assms Some bucket_inv_clean [of rate bu t0 t n m b] show ?thesis by (auto simp: clean_buckets_def)
qed (use assms in \<open>simp add: clean_buckets_def\<close>)

lemma Allow_inv:
  assumes "bucket_inv (rl_rate rl) (burst rl) t0 t n m (buckets rl ip)" "t \<le> now" "t0 \<le> t"
    and rate: "0 \<le> rl_rate rl" "of_int (burst rl) \<le> 600 * rl_rate rl" and bu: "0 < burst rl" "burst rl < 2 ^ 53"
    and "rl_Allow now ip' rl = (ok, rl')"
  shows "bucket_inv (rl_rate rl) (burst rl) t0 now (if ip' = ip \<and> ok then Suc n else n) (if ip' = ip then Suc m else m) (buckets rl' ip)"
    and "rl_rate rl' = rl_rate rl" "burst rl' = burst rl" "trustedProxies rl' = trustedProxies rl"
proof -
  define rl1 where "rl1 = (if time_Sub now (lastClean rl) > 5 * minute
    then rl\<lparr>buckets := clean_buckets now (buckets rl), lastClean := now\<rparr> else rl)"
  define b where "b = (case buckets rl1 ip' of None \<Rightarrow> \<lparr>b_tokens = fl (of_int (burst rl)), b_last = now\<rparr> | Some b \<Rightarrow> b)"
  define s where "s = refill (rl_rate rl) (burst rl) now b"
  have same: "rl_rate rl1 = rl_rate rl" "burst rl1 = burst rl" "trustedProxies rl1 = trustedProxies rl" by (simp_all add: rl1_def)
  have out: "ok = (\<not> s < 1)" "rl' = rl1\<lparr>buckets := (buckets rl1)(ip' \<mapsto> \<lparr>b_tokens = (if ok then fl (s - 1) else s), b_last = now\<rparr>)\<rparr>"
  proof -
    have "rl_Allow now ip' rl = (if s < 1 then (False, rl1\<lparr>buckets := (buckets rl1)(ip' \<mapsto> \<lparr>b_tokens = s, b_last = now\<rparr>)\<rparr>)
       else (True, rl1\<lparr>buckets := (buckets rl1)(ip' \<mapsto> \<lparr>b_tokens = fl (s - 1), b_last = now\<rparr>)\<rparr>))"
      unfolding rl_Allow_def Let_def s_def b_def rl1_def by (rule refl)
    with assms(8) show "ok = (\<not> s < 1)" "rl' = rl1\<lparr>buckets := (buckets rl1)(ip' \<mapsto> \<lparr>b_tokens = (if ok then fl (s - 1) else s), b_last = now\<rparr>)\<rparr>"
      by (auto split: if_splits)
  qed
  have "bucket_inv (rl_rate rl) (burst rl) t0 now n m (buckets rl ip)" by (rule bucket_inv_later [OF assms(1,2) rate(1)])
  then have i: "bucket_inv (rl_rate rl) (burst rl) t0 now n m (buckets rl1 ip)" using clean_inv rate by (simp add: rl1_def)
  show "bucket_inv (rl_rate rl) (burst rl) t0 now (if ip' = ip \<and> ok then Suc n else n) (if ip' = ip then Suc m else m) (buckets rl' ip)"
  proof (cases "ip' = ip")
    case True
    have "bucket_inv (rl_rate rl) (burst rl) t0 now n m (Some b)"
      using i bucket_inv_fresh [of "rl_rate rl" "burst rl" t0 now n m] assms(2,3) bu True
      by (cases "buckets rl1 ip") (simp_all add: b_def)
    from bucket_inv_take [OF this rate(1) bu] True out show ?thesis by (auto simp: s_def)
  next
    case False
    with i out show ?thesis by simp
  qed
  show "rl_rate rl' = rl_rate rl" "burst rl' = burst rl" "trustedProxies rl' = trustedProxies rl" using out same by simp_all
qed

definition passed :: "string \<Rightarrow> request list \<Rightarrow> bool list \<Rightarrow> nat" where
  "passed ip qs oks = length (filter (\<lambda>(q, ok). host_of (r_remote q) = ip \<and> ok) (zip qs oks))"

lemma untrusted_address: "trustedProxies rl = [] \<Longrightarrow> rl_clientIP U rl q = host_of (r_remote q)"
  by (simp add: rl_clientIP_def clientIPFromRequest_def)

lemma run_inv:
  assumes "bucket_inv (rl_rate rl) (burst rl) t0 t n m (buckets rl ip)" "t0 \<le> t" "sorted (t # map r_now qs)" "trustedProxies rl = []"
    and "0 \<le> rl_rate rl" "of_int (burst rl) \<le> 600 * rl_rate rl" "0 < burst rl" "burst rl < 2 ^ 53"
    and "limiter_run U qs rl = (oks, rl')"
  shows "bucket_inv (rl_rate rl) (burst rl) t0 (last (t # map r_now qs)) (n + passed ip qs oks)
    (m + length (filter (\<lambda>q. host_of (r_remote q) = ip) qs)) (buckets rl' ip)"
  using assms
proof (induction qs arbitrary: rl t n m oks)
  case Nil
  then show ?case by (simp add: passed_def)
next
  case (Cons q qs)
  obtain ok rl1 where a: "rl_Allow (r_now q) (host_of (r_remote q)) rl = (ok, rl1)" by (metis prod.exhaust)
  obtain oks1 where r: "limiter_run U qs rl1 = (oks1, rl')" "oks = ok # oks1"
    using Cons.prems(9) a by (auto simp: untrusted_address [OF Cons.prems(4)] split: prod.splits)
  have t: "t \<le> r_now q" "sorted (r_now q # map r_now qs)" using Cons.prems(3) by auto
  note s = Allow_inv [OF Cons.prems(1) t(1) Cons.prems(2,5,6,7,8) a]
  have "t0 \<le> r_now q" using t(1) Cons.prems(2) by linarith
  from Cons.IH [OF s(1) [folded s(2,3)] this t(2)] Cons.prems(4-8) r(1) s(2,3,4)
  show ?case by (simp add: passed_def r(2) split: if_splits)
qed

text \<open>
  Property C15. The rate limiter bounds every client: in a run of requests in the order of time,
  with a limiter that trusts no proxy and refills a bucket within ten minutes, the requests of one
  remote host that pass are at most the burst plus the rate times the elapsed time, up to the
  rounding of \<^verbatim>\<open>float64\<close>, whatever headers the requests carry, whatever other hosts send
  and however often idle buckets are dropped.
\<close>
theorem rate_limited:
  assumes "limiter_run U qs (NewRateLimiter t0 rate bu) = (oks, rl')" "sorted (t0 # map r_now qs)"
    and "0 \<le> rate" "0 < bu" "bu < 2 ^ 53" "of_int bu \<le> 600 * rate"
  shows "of_nat (passed ip qs oks) \<le> of_int bu
    + of_int (last (t0 # map r_now qs) - t0) / 1000000000 * rate * (1 + 2 powi (- 53)) ^ 3
    + of_nat (length (filter (\<lambda>q. host_of (r_remote q) = ip) qs)) * (2 * (of_int bu * 2 powi (- 53)))"
proof -
  let ?rl = "NewRateLimiter t0 rate bu"
  have new: "rl_rate ?rl = rate" "burst ?rl = bu" "buckets ?rl ip = None" "trustedProxies ?rl = []" by (simp_all add: NewRateLimiter_def)
  have "bucket_inv rate bu t0 t0 0 0 (buckets ?rl ip)" by (simp add: bucket_inv_def new grown_def)
  from run_inv [of ?rl t0 t0 0 0 ip qs U oks rl'] this assms
  have "bucket_inv rate bu t0 (last (t0 # map r_now qs)) (passed ip qs oks) (length (filter (\<lambda>q. host_of (r_remote q) = ip) qs)) (buckets rl' ip)"
    by (simp add: new del: last.simps)
  from bucket_inv_bound [OF this assms(3,4)] show ?thesis by (simp only: grown_def)
qed

definition flood :: "nat \<Rightarrow> string \<Rightarrow> request list" where
  "flood n forged = replicate n \<lparr>r_method = ''POST'', r_path = ''/api/v1/encrypt'', r_query = (\<lambda>_. ''''),
     r_header = (\<lambda>h. if h = ''X-Forwarded-For'' then forged else ''''), r_body = None, r_remote = ''10.0.0.7:4711'', r_trace = '''',
     r_clock = (\<lambda>_. 0), r_call = call.make \<lparr>ctx_role = None, ctx_policy = None, ctx_tenant = None\<rparr> None 5\<rparr>"

definition no_unicode :: unicode where
  "no_unicode = \<lparr>u_fold = (\<lambda>_ _. False), u_trim = id, u_trim_right = id\<rparr>"

text \<open>The limiter of the router: of five thousand requests at one moment at most a thousand pass.\<close>

theorem rate_limited_witness:
  "passed ''10.0.0.7'' (flood 5000 ''1.2.3.4'') (fst (limiter_run no_unicode (flood 5000 ''1.2.3.4'') (NewRateLimiter 5 100 1000))) \<le> 1000"
proof -
  let ?qs = "flood 5000 ''1.2.3.4''"
  have now: "map r_now ?qs = replicate 5000 5" by (simp add: flood_def call.make_def)
  obtain oks rl' where run: "limiter_run no_unicode ?qs (NewRateLimiter 5 100 1000) = (oks, rl')" by (metis prod.exhaust)
  have srt: "sorted (5 # map r_now ?qs)" unfolding now by (simp add: sorted_replicate)
  have last: "last (5 # map r_now ?qs) = 5" unfolding now by (simp add: last_replicate)
  have len: "length (filter (\<lambda>q. host_of (r_remote q) = ''10.0.0.7'') ?qs) \<le> 5000"
    using length_filter_le [of _ ?qs] by (simp add: flood_def)
  from rate_limited [OF run srt, of "''10.0.0.7''"]
  have "of_nat (passed ''10.0.0.7'' ?qs oks) \<le> (1000 :: rat) + of_nat (length (filter (\<lambda>q. host_of (r_remote q) = ''10.0.0.7'') ?qs)) * (2 * (1000 * 2 powi (- 53)))"
    unfolding last by simp
  also have "\<dots> \<le> 1000 + of_nat 5000 * (2 * (1000 * 2 powi (- 53)))"
    using len by (intro add_left_mono mult_right_mono of_nat_mono) auto
  also have "\<dots> < (1001 :: rat)" by (simp add: power_int_minus)
  finally have "of_nat (passed ''10.0.0.7'' ?qs oks) < (of_nat 1001 :: rat)" by simp
  then have "passed ''10.0.0.7'' ?qs oks < 1001" by (simp only: of_nat_less_iff)
  with run show ?thesis by simp
qed

section \<open>What never reaches the router\<close>

lemma isOriginAllowed_iff: "isOriginAllowed origin as \<longleftrightarrow> ''*'' \<in> set as \<or> origin \<in> set as"
  by (induction as) auto

text \<open>A request over its limit and a preflight request are answered before routing: the router's
  state, its audit log included, and the random source stay as they are.\<close>

theorem edge_short_circuits:
  assumes "ServeHTTP E cors runtime reg req (lm, R) r = (out, (lm', R'), r')"
  shows "lm = Some rl \<Longrightarrow> \<not> fst (rl_Allow (r_now req) (rl_clientIP (e_unicode E) rl req) rl) \<Longrightarrow> out = too_many \<and> R' = R \<and> r' = r"
    and "r_method req = ''OPTIONS'' \<Longrightarrow> snd out \<in> {snd too_many, no_content} \<and> R' = R \<and> r' = r"
  using assms by (cases "lm"; auto simp: ServeHTTP_def Let_def map_prod_def split: prod.splits bool.splits if_splits)+

text \<open>The configuration that the router starts with names the caller's origin, whatever it is.\<close>

theorem any_origin:
  assumes "origin \<noteq> ''''"
  shows "(''Access-Control-Allow-Origin'', origin) \<in> set (cors_headers DefaultCORSConfig origin)"
  using assms by (simp add: cors_headers_def DefaultCORSConfig_def)

text \<open>Without an authenticator only the local host reads the metrics.\<close>

theorem metrics_local:
  assumes "authenticator R = None" "host_of (r_remote req) \<notin> {'''', ''127.0.0.1'', ''::1'', ''localhost''}"
  shows "metrics_route U runtime g req R r = (writeJSONError 403 ''metrics endpoint allows loopback only'', R, r)"
  using assms by (simp add: metrics_route_def loopbackOnly_def)

end
