(* ===== verification/Listener.thy ===== *)
theory Listener
  imports LifecycleProps
begin

text \<open>
  \<^verbatim>\<open>internal/storage/pg_listener.go\<close> and what becomes of the key caches in a cluster. The
  nodes share the store; each has its own manager with its own cache. A listening session hands the
  names of changed keys to the manager of its node, and the end of a session clears the whole
  cache. What Postgres delivers to a session is the session's input.
\<close>

section \<open>pg\_listener.go\<close>

record listen_session =
  acquire_error :: "err option"
  listen_error :: "err option"
  notifications :: "string list"
  wait_error :: err

text \<open>\<^verbatim>\<open>onNotify\<close> is \<^verbatim>\<open>Manager.InvalidateCache\<close>, \<^verbatim>\<open>onReconnect\<close> is
  \<^verbatim>\<open>Manager.ClearCache\<close>; either may be nil.\<close>

record CacheInvalidationListener =
  channel :: string
  onNotify :: "(string \<Rightarrow> Manager \<Rightarrow> Manager) option"
  onReconnect :: "(Manager \<Rightarrow> Manager) option"

definition NewCacheInvalidationListener ::
  "(string \<Rightarrow> Manager \<Rightarrow> Manager) option \<Rightarrow> (Manager \<Rightarrow> Manager) option \<Rightarrow> CacheInvalidationListener" where
  "NewCacheInvalidationListener notify reconnect =
     \<lparr>channel = ''yvonne_cache_invalidation'', onNotify = notify, onReconnect = reconnect\<rparr>"

fun notified :: "CacheInvalidationListener \<Rightarrow> string list \<Rightarrow> Manager \<Rightarrow> Manager" where
  "notified l [] m = m"
| "notified l (keyID # ids) m =
     notified l ids (case onNotify l of Some f \<Rightarrow> if keyID \<noteq> '''' then f keyID m else m | None \<Rightarrow> m)"

text \<open>A session ends with an error, always.\<close>

definition listenOnce :: "CacheInvalidationListener \<Rightarrow> listen_session \<Rightarrow> Manager \<Rightarrow> err \<times> Manager" where
  "listenOnce l s m =
     (case acquire_error s of
        Some e \<Rightarrow> (Wrap ''acquire connection'' e, m)
      | None \<Rightarrow>
          (case listen_error s of
             Some e \<Rightarrow> (Wrap ''LISTEN'' e, m)
           | None \<Rightarrow> (Wrap ''wait for notification'' (wait_error s), notified l (notifications s) m)))"

text \<open>One round of the loop: whether the context is done before the session, right after it, and
  during the pause; between the clearing and the next session other operations of the node run,
  here \<open>meanwhile\<close>.\<close>

record listen_round =
  done_before :: bool
  round_session :: listen_session
  done_after :: bool
  done_pause :: bool
  meanwhile :: "Manager \<Rightarrow> Manager"

fun listenLoop :: "CacheInvalidationListener \<Rightarrow> listen_round list \<Rightarrow> Manager \<Rightarrow> Manager" where
  "listenLoop l [] m = m"
| "listenLoop l (r # rs) m =
     (if done_before r then m
      else let m1 = snd (listenOnce l (round_session r) m)
           in if done_after r \<or> done_pause r then m1
              else listenLoop l rs (meanwhile r (case onReconnect l of Some f \<Rightarrow> f m1 | None \<Rightarrow> m1)))"

definition manager_listener :: CacheInvalidationListener where
  "manager_listener = NewCacheInvalidationListener (Some InvalidateCache) (Some ClearCache)"

section \<open>A key shredded on another node\<close>

lemma loadMetadata_cached:
  assumes "loadMetadata now keyID v m = (Inr meta, m')"
  shows "cache_get (metadataKey keyID v) (cache m') = Some meta"
  using assms
  by (auto simp: loadMetadata_def Let_def cache_get_def cache_put_def update_conv split: option.splits if_splits prod.splits sum.splits)

lemma GetKeyForDecrypt_cases:
  assumes "GetKeyForDecrypt now keyID v m = (Inr meta, m')"
  shows "loadMetadata now keyID v m = (Inr meta, m')" "KState meta \<in> {StateActive, StateDeactivated, StateSoftDeleted}"
  using assms by (auto simp: GetKeyForDecrypt_def split: prod.splits sum.splits KeyState.splits)



section \<open>What the listener would do\<close>

lemma notified_other: "cache_get key (cache m) = None \<Longrightarrow> cache_get key (cache (notified manager_listener ids m)) = None"
proof (induction ids arbitrary: m)
  case (Cons k ids)
  have "cache_get key (cache_invalidate k c) = None" if "cache_get key c = None" for c
    using that by (auto simp: cache_get_def cache_invalidate_def Let_def map_of_eq_None_iff)
  with Cons show ?case by (simp add: manager_listener_def NewCacheInvalidationListener_def InvalidateCache_def)
qed simp

text \<open>A session that is told of the key drops all its versions from the node's cache.\<close>

theorem notified_forgets:
  assumes "keyID \<in> set ids" "keyID \<noteq> ''''"
  shows "cache_get (metadataKey keyID v) (cache (notified manager_listener ids m)) = None"
  using assms(1)
proof (induction ids arbitrary: m)
  case (Cons k ids)
  show ?case
  proof (cases "k = keyID")
    case True
    have "cache_get (metadataKey keyID v) (cache (InvalidateCache keyID m)) = None" by (simp add: InvalidateCache_def)
    from notified_other [OF this, of ids] True assms(2) show ?thesis
      by (simp add: manager_listener_def NewCacheInvalidationListener_def)
  next
    case False
    with Cons show ?thesis by auto
  qed
qed simp

text \<open>The cache is cleared when a session has failed, not once the next one listens: what the node
  reads in between stays cached through a session that is told nothing, whatever changed before it
  began.\<close>

theorem reconnect_gap:
  assumes "acquire_error s = None" "listen_error s = None" "notifications s = []"
    and "cache_get key (cache (fill (ClearCache (snd (listenOnce manager_listener lost m))))) = Some meta"
  shows "cache_get key (cache (listenLoop manager_listener
     [\<lparr>done_before = False, round_session = lost, done_after = False, done_pause = False, meanwhile = fill\<rparr>,
      \<lparr>done_before = False, round_session = s, done_after = True, done_pause = False, meanwhile = id\<rparr>] m)) = Some meta"
  using assms by (simp add: listenOnce_def manager_listener_def NewCacheInvalidationListener_def Let_def)

end
