(* ===== verification/Scans.thy ===== *)
theory Scans
  imports Daemon
begin

text \<open>
  The scans of \<^verbatim>\<open>lifecycle/manager.go\<close> that read all entries at once: the fallbacks
  \<^verbatim>\<open>countKeysLegacy\<close>, \<^verbatim>\<open>listKeyIDsLegacy\<close> and \<^verbatim>\<open>reapExpiredSoftDeletesLegacy\<close> for stores
  that cannot page. Listing and counting are proved to agree with the paged versions. The reaper
  does not: the paged one moves its offset over a range from which it deletes, and skips as many
  entries as the page before lost.
\<close>

section \<open>The fallbacks\<close>

text \<open>
  \<open>scans\<close> is the answer to the type assertion on \<^verbatim>\<open>storage.PrefixScanner\<close>; \<open>ord\<close> is the order
  in which Go's range visits the map that \<^verbatim>\<open>ScanPrefix\<close> returns, some permutation.
\<close>

definition some_order :: "(lc_doc kv \<Rightarrow> lc_doc kv) \<Rightarrow> bool" where
  "some_order ord \<longleftrightarrow> (\<forall>items. mset (ord items) = mset items)"

definition countKeysLegacy :: "bool \<Rightarrow> (lc_doc kv \<Rightarrow> lc_doc kv) \<Rightarrow> Manager \<Rightarrow> nat res \<times> Manager" where
  "countKeysLegacy scans ord m =
     (if \<not> scans then (Inr 0, m)
      else case store_ScanPrefix ''key:'' (store m) of
          (Inl e, s) \<Rightarrow> (Inl e, m\<lparr>store := s\<rparr>)
        | (Inr items, s) \<Rightarrow> (Inr (length (collect_ids [] (ord items))), m\<lparr>store := s\<rparr>))"

definition listKeyIDsLegacy :: "bool \<Rightarrow> (lc_doc kv \<Rightarrow> lc_doc kv) \<Rightarrow> Manager \<Rightarrow> string list res \<times> Manager" where
  "listKeyIDsLegacy scans ord m =
     (if \<not> scans then (Inr [], m)
      else case store_ScanPrefix ''key:'' (store m) of
          (Inl e, s) \<Rightarrow> (Inl e, m\<lparr>store := s\<rparr>)
        | (Inr items, s) \<Rightarrow> (Inr (collect_ids [] (ord items)), m\<lparr>store := s\<rparr>))"

definition reapExpiredSoftDeletesLegacy ::
  "bool \<Rightarrow> (lc_doc kv \<Rightarrow> lc_doc kv) \<Rightarrow> time \<Rightarrow> duration \<Rightarrow> Manager \<Rightarrow> (string \<times> int) list \<times> Manager" where
  "reapExpiredSoftDeletesLegacy scans ord now ttl m =
     (if \<not> scans then ([], m)
      else case store_ScanPrefix ''key:'' (store m) of
          (Inl e, s) \<Rightarrow> ([], m\<lparr>store := s\<rparr>)
        | (Inr items, s) \<Rightarrow> reap_page (now - ttl) (ord items) (m\<lparr>store := s\<rparr>))"

section \<open>One scan sees what the pages see\<close>

lemma some_orderD:
  assumes "some_order ord"
  shows "set (ord items) = set items" "distinct (map fst (ord items)) = distinct (map fst items)"
proof -
  have m: "mset (ord items) = mset items" using assms by (simp add: some_order_def)
  then show "set (ord items) = set items" by (rule mset_eq_setD)
  from m have "mset (map fst (ord items)) = mset (map fst items)" by simp
  then show "distinct (map fst (ord items)) = distinct (map fst items)" by (metis mset_eq_imp_distinct_iff)
qed

text \<open>A successful scan returns the entries the pages are cut from, in another order.\<close>

lemma ScanPrefix_items:
  assumes "store_ScanPrefix ''key:'' s = (Inr items, s')" "wf_store s"
  shows "set items = set (all_items ''key:'' s)" "distinct (map fst items)" "look s' = look s"
proof -
  have nw: "no_wildcard ''key:''" by (simp add: no_wildcard_def)
  from sql_like_prefix [OF this] have like: "sql_like ''key:%'' k \<longleftrightarrow> has_prefix k ''key:''" for k by simp
  have it: "items = filter (\<lambda>(k, v). has_prefix k ''key:'') (kvs_of s) \<and> kvs_of s' = kvs_of s"
    using assms(1) by (cases s)
      (auto simp: mem_ScanPrefix_def pg_ScanPrefix_def pool_call_def like simp del: sql_like.simps
        split: option.splits prod.splits intro!: filter_cong)
  have "(k, d) \<in> set items \<longleftrightarrow> look s k = Some d \<and> has_prefix k ''key:''" for k d
    using it assms(2) by (auto simp: look_kvs wf_store_def)
  then show "set items = set (all_items ''key:'' s)" using all_items_set [of _ _ "''key:''" s] by auto
  show "distinct (map fst items)" using it assms(2) by (auto simp: wf_store_def distinct_map intro: inj_on_subset)
  show "look s' = look s" using it by (simp add: look_kvs)
qed

lemma ids_of_cong: "set xs = set ys \<Longrightarrow> ids_of xs = ids_of ys"
  by (simp add: ids_of_def)

lemma scan_ids:
  assumes "store_ScanPrefix ''key:'' (store m) = (Inr items, s')" "wf_store (store m)" "some_order ord"
  shows "set (collect_ids [] (ord items)) = stored_ids m" "distinct (collect_ids [] (ord items))"
proof -
  have "ids_of (ord items) = stored_ids m"
    using ids_of_cong [of "ord items" "all_items ''key:'' (store m)"] ScanPrefix_items(1) [OF assms(1,2)]
      some_orderD(1) [OF assms(3)] ids_of_all [of m] by simp
  with collect_ids [of "[]" "ord items"] show "set (collect_ids [] (ord items)) = stored_ids m"
    "distinct (collect_ids [] (ord items))" by simp_all
qed

text \<open>
  When they succeed, the fallbacks list the same names as the paged scans, and count as many,
  whatever the order of the map.
\<close>

theorem legacy_scans_agree:
  assumes "wf_store (store m)" "some_order ord"
  shows "(fst (listKeyIDsLegacy True ord m) = Inr xs \<and> fst (ListKeyIDs m) = Inr ys \<longrightarrow> mset xs = mset ys)
    \<and> (fst (countKeysLegacy True ord m) = Inr a \<and> fst (countKeys m) = Inr b \<longrightarrow> a = b)"
proof (intro conjI impI)
  assume l: "fst (listKeyIDsLegacy True ord m) = Inr xs \<and> fst (ListKeyIDs m) = Inr ys"
  then have "set xs = stored_ids m \<and> distinct xs"
    using scan_ids [OF _ assms] by (auto simp: listKeyIDsLegacy_def split: prod.splits sum.splits)
  moreover have "set ys = stored_ids m \<and> distinct ys"
    using l list_loop_all [of m ys] by (auto simp: ListKeyIDs_def simp del: list_loop.simps split: prod.splits)
  ultimately show "mset xs = mset ys" by (metis set_eq_iff_mset_eq_distinct)
next
  assume c: "fst (countKeysLegacy True ord m) = Inr a \<and> fst (countKeys m) = Inr b"
  then have "a = card (stored_ids m)"
    using scan_ids [OF _ assms] distinct_card by (fastforce simp: countKeysLegacy_def split: prod.splits sum.splits)
  moreover obtain ids s where "list_loop (length (kvs_of (store m)) + 1) 0 [] (store m) = (Inr ids, s)" "b = length ids"
    using c by (auto simp: countKeys_def simp del: list_loop.simps split: prod.splits sum.splits)
  ultimately show "a = b" using list_loop_all [of m ids s] by (metis distinct_card)
qed

section \<open>The reaper and its pages\<close>

lemma doomed_cong: "set xs = set ys \<Longrightarrow> doomed c xs = doomed c ys"
  by (simp add: doomed_def)

lemma doomed_all:
  assumes "\<forall>(k, d)\<in>set items. \<exists>a. d = Doc (DMeta a) \<and> expired c a"
  shows "doomed c items = fst ` set items"
proof
  show "doomed c items \<subseteq> fst ` set items" by (force simp: doomed_def)
  show "fst ` set items \<subseteq> doomed c items"
  proof
    fix k assume "k \<in> fst ` set items"
    then obtain d where "(k, d) \<in> set items" by auto
    with assms show "k \<in> doomed c items" by (auto simp: doomed_def)
  qed
qed

lemma filed_cong: "set xs = set ys \<Longrightarrow> filed xs = filed ys"
  by (simp add: filed_def)

text \<open>One pass removes every expired version and nothing else, however many entries there are.\<close>

lemma legacy_reaper:
  assumes "reliable (store m)" "wf_store (store m)" "filed (kvs_of (store m))" "some_order ord"
    and "reapExpiredSoftDeletesLegacy True ord now ttl m = (reaped, m')"
  shows "lookm m' = (\<lambda>k. if k \<in> doomed (now - ttl) (all_items ''key:'' (store m)) then None else lookm m k)"
proof -
  let ?all = "all_items ''key:'' (store m)"
  obtain items s' where scan: "store_ScanPrefix ''key:'' (store m) = (Inr items, s')" "look s' = look (store m)" "reliable s'"
    using assms(1) by (rule store_scan_reliable)
  note it = ScanPrefix_items [OF scan(1) assms(2)] and ord = some_orderD [OF assms(4), of items]
  have s: "set (ord items) = set ?all" using it(1) ord(1) by simp
  note all = all_items_props [OF assms(2,3), of "''key:''"]
  have f: "filed (ord items)" using all(1) filed_cong [OF s] by simp
  have d: "distinct (map fst (ord items))" using ord(2) it(2) by simp
  have l: "\<forall>(k, d)\<in>set (ord items). lookm (m\<lparr>store := s'\<rparr>) k = Some d" using all(3) scan(2) unfolding s by simp
  from reap_page_reliable [OF _ f d l, of "now - ttl"] scan(3)
  have "lookm (snd (reap_page (now - ttl) (ord items) (m\<lparr>store := s'\<rparr>))) =
      (\<lambda>k. if k \<in> doomed (now - ttl) (ord items) then None else lookm (m\<lparr>store := s'\<rparr>) k)" by simp
  moreover have "m' = snd (reap_page (now - ttl) (ord items) (m\<lparr>store := s'\<rparr>))"
    using assms(5) scan(1) by (simp add: reapExpiredSoftDeletesLegacy_def)
  ultimately show ?thesis using doomed_cong [OF s] scan(2) by auto
qed

lemma drop_filter_none: "\<lbrakk>\<forall>x\<in>set (take n xs). \<not> P x; \<forall>x\<in>set (drop n xs). P x\<rbrakk> \<Longrightarrow> filter P xs = drop n xs"
  using filter_append [of P "take n xs" "drop n xs"] by simp

text \<open>What is left of the entries when a set of keys is gone.\<close>

lemma all_items_without:
  assumes "wf_store s" "wf_store s'" "look s' = (\<lambda>k. if k \<in> K then None else look s k)"
  shows "all_items pre s' = filter (\<lambda>(k, d). k \<notin> K) (all_items pre s)"
proof -
  let ?ks = "matches pre (kvs_of s)" and ?ks' = "matches pre (kvs_of s')"
  have "set ?ks' = set (filter (\<lambda>k. k \<notin> K) ?ks)"
    using assms(3) by (auto simp: matches_set)
  moreover have "sorted ?ks'" "sorted (filter (\<lambda>k. k \<notin> K) ?ks)" "distinct ?ks'" "distinct ?ks"
    using assms(1,2) by (simp_all add: matches_def wf_store_def sorted_wrt_filter)
  ultimately have ks: "?ks' = filter (\<lambda>k. k \<notin> K) ?ks" by (metis sorted_distinct_set_unique distinct_filter)
  show ?thesis unfolding all_items_def ks using assms(3) by (simp add: filter_map comp_def cong: filter_cong)
qed

text \<open>Transactions keep the keys of the store unique.\<close>

lemma WithTx_wf:
  assumes "\<And>s. wf_store s \<Longrightarrow> wf_store (fst (snd (fn s w)))" "wf_store s"
  shows "wf_store (fst (snd (store_WithTx ctx fn s w)))"
proof (cases s)
  case (Mem m)
  with assms(1) [of s] assms(2) show ?thesis
    by (cases "fn s w") (auto simp: mem_WithTx_def split: option.splits prod.splits KVStore.splits)
next
  case (Pg p)
  let ?p = "p\<lparr>tick := tick p + 1, tx_aborted := False\<rparr>"
  have "wf_store (Pg ?p)" using assms(2) Pg by (simp add: wf_store_def)
  from assms(1) [OF this] have "wf_store (fst (snd (fn (Pg ?p) w)))" .
  then show ?thesis using assms(2) Pg
    by (cases "fn (Pg ?p) w")
      (auto simp: pg_WithTx_def pool_call_def tx_call_def pg_rollback_def wf_store_def Let_def
        split: option.splits prod.splits sum.splits KVStore.splits if_splits)
qed

lemma shred_tx_wf: "wf_store s \<Longrightarrow> wf_store (fst (snd (shred_tx k v s u)))"
proof -
  assume w: "wf_store s"
  have r: "wf_store (snd (tx_read a b key s'))" if "wf_store s'" for a b key s'
    using wf_store_ops(5) [OF that, of key] by (auto simp: tx_read_def split: prod.splits sum.splits)
  have op: "wf_store s2" if "wf_store s1" "tx_Put k d s1 = (e, s2) \<or> tx_Delete k s1 = (e, s2)" for s1 s2 e k and d :: "lc_doc val"
    using wf_store_ops(4) [OF that(1), of k d] wf_store_ops(6) [OF that(1), of k] that(2) by auto
  obtain x s1 where t: "tx_read ''lifecycle: lock for shred'' ''lifecycle: unmarshal for shred'' (metadataKey k v) s = (x, s1)"
    by fastforce
  with r [OF w] have s1: "wf_store s1" by (metis snd_conv)
  show ?thesis using t s1 op wf_store_ops(7)
    by (simp add: shred_tx_def Let_def split: sum.split option.split prod.split) blast
qed

lemma ShredKey_wf: "wf_store (store m) \<Longrightarrow> wf_store (store (snd (ShredKey ctx k v m)))"
  using WithTx_wf [of "shred_tx k v" "()" "store m" ctx] shred_tx_wf
  by (auto simp: ShredKey_def notifyClusterIfNoTxNotifier_def pg_NotifyInvalidation_def pool_call_def wf_store_def
      split: prod.splits sum.splits option.splits KVStore.splits)

lemma reap_page_wf: "wf_store (store m) \<Longrightarrow> wf_store (store (snd (reap_page cutoff items m)))"
proof (induction items arbitrary: m)
  case (Cons x items)
  have sh: "wf_store (store m1)" if "ShredKey None (KeyID a) (Version a) m = (y, m1)" for a y m1
    using ShredKey_wf [OF Cons.prems, of None "KeyID a" "Version a"] that by simp
  have "wf_store (store m2)" if "reap_page cutoff items m1 = (l, m2)" "wf_store (store m1)" for l m1 m2
    using Cons.IH [OF that(2)] that(1) by simp
  with sh Cons.prems Cons.IH show ?case by (cases x) (auto split: prod.split sum.split, blast+)
qed simp

text \<open>
  A page of expired entries is removed as a whole, and the entries behind it move up by its length.
\<close>

lemma reap_page_drops:
  assumes "reliable (store m)" "wf_store (store m)" "filed (kvs_of (store m))"
    and "\<forall>(k, d)\<in>set (all_items ''key:'' (store m)). \<exists>a. d = Doc (DMeta a) \<and> expired c a"
  shows "all_items ''key:'' (store (snd (reap_page c (take n (all_items ''key:'' (store m))) m))) =
    drop n (all_items ''key:'' (store m))
    \<and> reliable (store (snd (reap_page c (take n (all_items ''key:'' (store m))) m)))"
proof -
  let ?all = "all_items ''key:'' (store m)" and ?m = "snd (reap_page c (take n (all_items ''key:'' (store m))) m)"
  note props = all_items_props [OF assms(2,3), of "''key:''"]
  have f: "filed (take n ?all)" using props(1) by (auto simp: filed_def dest: in_set_takeD)
  have d: "distinct (map fst (take n ?all))" using props(2) by (simp flip: take_map)
  have l: "\<forall>(k, d)\<in>set (take n ?all). lookm m k = Some d" using props(3) by (auto dest: in_set_takeD)
  have dm: "doomed c (take n ?all) = fst ` set (take n ?all)"
    by (rule doomed_all) (use assms(4) in \<open>auto dest: in_set_takeD\<close>)
  have lk: "look (store ?m) = (\<lambda>k. if k \<in> fst ` set (take n ?all) then None else look (store m) k)"
    using reap_page_reliable [OF assms(1) f d l, of c] dm by simp
  have disj: "fst ` set (take n ?all) \<inter> fst ` set (drop n ?all) = {}"
    using props(2) append_take_drop_id [of n ?all] by (metis distinct_append map_append set_map)
  have "all_items ''key:'' (store ?m) = filter (\<lambda>(k, d). k \<notin> fst ` set (take n ?all)) ?all"
    by (rule all_items_without [OF assms(2) reap_page_wf [OF assms(2)] lk])
  also have "\<dots> = drop n ?all" using disj by (intro drop_filter_none) force+
  finally show ?thesis using reap_page_reliable [OF assms(1) f d l, of c] by simp
qed

text \<open>
  The pages of the reaper skip entries: with between 1000 and 2000 stored versions, all of them
  soft-deleted long enough, one run removes the first 1000 and keeps the rest, where the scan in
  one piece removes them all.
\<close>

theorem paged_reaper_skips:
  assumes "reliable (store m)" "wf_store (store m)" "filed (kvs_of (store m))" "some_order ord"
    and "\<forall>(k, d)\<in>set (all_items ''key:'' (store m)). \<exists>a. d = Doc (DMeta a) \<and> expired (now - ttl) a"
    and "1000 \<le> length (all_items ''key:'' (store m))" "length (all_items ''key:'' (store m)) \<le> 2000"
  shows "all_items ''key:'' (store (snd (reapExpiredSoftDeletes now ttl m))) = drop 1000 (all_items ''key:'' (store m))
    \<and> (\<forall>k. has_prefix k ''key:'' \<longrightarrow> lookm (snd (reapExpiredSoftDeletesLegacy True ord now ttl m)) k = None)"
proof
  let ?all = "all_items ''key:'' (store m)" and ?c = "now - ttl"
  obtain items tot s1 where p: "store_ScanPrefixPaged ''key:'' 0 1000 (store m) = (Inr (items, tot), s1)" and r1: "reliable s1"
    using reliable_scan [OF assms(1)] by fastforce
  have items: "items = take 1000 ?all" and all1: "all_items ''key:'' s1 = ?all" using page_items [OF p] by simp_all
  have kvs: "kvs_of s1 = kvs_of (store m)" using ScanPrefixPaged_keep [OF p] by simp
  define m1 where "m1 = snd (reap_page ?c items (m\<lparr>store := s1\<rparr>))"
  have prems: "reliable (store (m\<lparr>store := s1\<rparr>))" "wf_store (store (m\<lparr>store := s1\<rparr>))" "filed (kvs_of (store (m\<lparr>store := s1\<rparr>)))"
    "\<forall>(k, d)\<in>set (all_items ''key:'' (store (m\<lparr>store := s1\<rparr>))). \<exists>a. d = Doc (DMeta a) \<and> expired ?c a"
    using r1 kvs assms(2,3,5) all1 by (simp_all add: wf_store_def)
  have left: "all_items ''key:'' (store m1) = drop 1000 ?all" "reliable (store m1)"
    using reap_page_drops [OF prems, of 1000] all1 by (simp_all add: m1_def items)
  from left(2) obtain items2 tot2 s2 where p2: "store_ScanPrefixPaged ''key:'' 1000 1000 (store m1) = (Inr (items2, tot2), s2)"
    using reliable_scan by fastforce
  have "items2 = []" "all_items ''key:'' s2 = drop 1000 ?all" using page_items [OF p2] left(1) assms(7) by simp_all
  moreover have "length items = 1000" "items \<noteq> []" using items assms(6) by auto
  moreover obtain f where "length (kvs_of (store m)) + 1 = Suc (Suc f)"
    using all_items_length [of "''key:''" "store m"] assms(6) by (cases "length (kvs_of (store m))") auto
  moreover obtain reaped where "reap_page ?c items (m\<lparr>store := s1\<rparr>) = (reaped, m1)"
    by (metis m1_def prod.collapse)
  ultimately show "all_items ''key:'' (store (snd (reapExpiredSoftDeletes now ttl m))) = drop 1000 ?all"
    using p p2 by (simp add: reapExpiredSoftDeletes_def)
next
  let ?all = "all_items ''key:'' (store m)"
  obtain reaped m' where r: "reapExpiredSoftDeletesLegacy True ord now ttl m = (reaped, m')" by fastforce
  have gone: "k \<in> doomed (now - ttl) ?all" if k: "has_prefix k ''key:''" "lookm m k \<noteq> None" for k
  proof -
    from k obtain d where "(k, d) \<in> set ?all" using all_items_set [of k _ "''key:''" "store m"] by auto
    then have "k \<in> fst ` set ?all" by force
    then show ?thesis unfolding doomed_all [OF assms(5)] .
  qed
  have "lookm m' k = None" if "has_prefix k ''key:''" for k
    using legacy_reaper [OF assms(1-4) r] gone [OF that] by (cases "lookm m k") simp_all
  with r show "\<forall>k. has_prefix k ''key:'' \<longrightarrow> lookm (snd (reapExpiredSoftDeletesLegacy True ord now ttl m)) k = None" by simp
qed

section \<open>A trash of 1001 versions\<close>

definition big_trash :: Manager where
  "big_trash = toy_m0\<lparr>store := Mem \<lparr>data =
     map (\<lambda>i. (metadataKey ''k'' (int i), Doc (DMeta (toy_meta\<lparr>KState := StateSoftDeleted, DeletedAt := 8, Version := int i\<rparr>)))) [1..<1002]\<rparr>\<rparr>"

lemma big_trash_store:
  "reliable (store big_trash)" "wf_store (store big_trash)" "filed (kvs_of (store big_trash))"
  "length (all_items ''key:'' (store big_trash)) = 1001"
  "\<forall>(k, d)\<in>set (all_items ''key:'' (store big_trash)). \<exists>a. d = Doc (DMeta a) \<and> expired 10 a"
proof -
  let ?kv = "\<lambda>i. (metadataKey ''k'' (int i), Doc (DMeta (toy_meta\<lparr>KState := StateSoftDeleted, DeletedAt := 8, Version := int i\<rparr>)))"
  have kvs: "kvs_of (store big_trash) = map ?kv [1..<1002]" by (simp add: big_trash_def del: upt_Suc)
  have id: "KeyID toy_meta = ''k''" by (simp add: toy_meta_def create_meta_def)
  show "reliable (store big_trash)" by (simp add: big_trash_def)
  show "wf_store (store big_trash)"
    by (simp add: wf_store_def kvs distinct_map inj_on_def metadataKey_inj comp_def del: upt_Suc)
  show "filed (kvs_of (store big_trash))" by (auto simp: filed_def kvs id simp del: upt_Suc)
  have "matches ''key:'' (kvs_of (store big_trash)) = sort (map fst (kvs_of (store big_trash)))"
    unfolding matches_def kvs using metadataKey_prefixes(2) by (simp add: filter_map comp_def del: upt_Suc)
  then show "length (all_items ''key:'' (store big_trash)) = 1001" by (simp add: all_items_def kvs del: upt_Suc)
  have "\<exists>a. d = Doc (DMeta a) \<and> expired 10 a" if "(k, d) \<in> set (kvs_of (store big_trash))" for k d
    using that by (auto simp: kvs expired_def isZero_def simp del: upt_Suc)
  then show "\<forall>(k, d)\<in>set (all_items ''key:'' (store big_trash)). \<exists>a. d = Doc (DMeta a) \<and> expired 10 a"
    by (auto simp: all_items_set look_kvs dest!: map_of_SomeD)
qed

theorem paged_reaper_skips_witness:
  "length (all_items ''key:'' (store (snd (reapExpiredSoftDeletes 100 90 big_trash)))) = 1
    \<and> lookm (snd (reapExpiredSoftDeletesLegacy True id 100 90 big_trash)) (metadataKey ''k'' 1001) = None"
proof -
  have "some_order id" by (simp add: some_order_def)
  from paged_reaper_skips [OF big_trash_store(1-3) this, of 100 90] big_trash_store(4,5) metadataKey_prefixes(2)
  show ?thesis by simp
qed

end
