(* ===== verification/Legacy.thy ===== *)
theory Legacy
  imports GoLib
begin

text \<open>
  The first storage interface of \<^verbatim>\<open>internal/storage\<close> (\<^verbatim>\<open>backend.go\<close>) and its two
  implementations, on an embedded file (\<^verbatim>\<open>boltdb.go\<close>) and on a table of Postgres
  (\<^verbatim>\<open>postgres.go\<close>). The server assembles the newer store of the theory \<open>KVStore\<close>.
  Every call of the two engines may fail: \<open>bfaults\<close> and \<open>pfaults\<close> say which call does, and with
  what error. Apart from that a bucket is a finite map whose cursor runs in the order of bytes, a
  table a set of rows with one row for each key, and a transaction that is not committed has no
  effect, as their documentation states. Byte strings are compared byte by byte, as both engines
  and the order on lists do.
\<close>

section \<open>backend.go\<close>

record KVItem =
  item_Key :: bytes
  item_Value :: bytes

record Op =
  op_Kind :: int
  op_Key :: bytes
  op_Value :: bytes

definition OpPut :: int where "OpPut = 0"
definition OpDelete :: int where "OpDelete = 1"

type_synonym table = "(bytes \<times> bytes) list"

definition items_of :: "table \<Rightarrow> KVItem list" where
  "items_of kvs = map (\<lambda>(k, v). \<lparr>item_Key = k, item_Value = v\<rparr>) kvs"

definition in_order :: "table \<Rightarrow> table" where
  "in_order kvs = sort_key fst kvs"

section \<open>boltdb.go\<close>

text \<open>\<open>put_limit\<close> are the keys and values that the engine refuses.\<close>

record BoltBackend =
  bucket :: "table option"
  bfaults :: "nat \<Rightarrow> err option"
  btick :: nat
  put_limit :: "bytes \<Rightarrow> bytes \<Rightarrow> err option"

definition bolt_call :: "BoltBackend \<Rightarrow> err option \<times> BoltBackend" where
  "bolt_call b = (bfaults b (btick b), b\<lparr>btick := btick b + 1\<rparr>)"

text \<open>\<^verbatim>\<open>db.View\<close> and \<^verbatim>\<open>db.Update\<close>: the engine begins a transaction, runs the closure and, for
  an update without error, commits; otherwise the bucket is what it was.\<close>

definition bolt_View :: "(table option \<Rightarrow> 'a res) \<Rightarrow> BoltBackend \<Rightarrow> 'a res \<times> BoltBackend" where
  "bolt_View fn b = (case bolt_call b of (Some e, b1) \<Rightarrow> (Inl e, b1) | (None, b1) \<Rightarrow> (fn (bucket b1), b1))"

definition bolt_Update :: "(BoltBackend \<Rightarrow> err option \<times> BoltBackend) \<Rightarrow> BoltBackend \<Rightarrow> err option \<times> BoltBackend" where
  "bolt_Update fn b =
     (case bolt_call b of
        (Some e, b1) \<Rightarrow> (Some e, b1)
      | (None, b1) \<Rightarrow>
          (case fn b1 of
             (Some e, b2) \<Rightarrow> (Some e, b2\<lparr>bucket := bucket b\<rparr>)
           | (None, b2) \<Rightarrow>
               (case bolt_call b2 of
                  (Some e, b3) \<Rightarrow> (Some e, b3\<lparr>bucket := bucket b\<rparr>)
                | (None, b3) \<Rightarrow> (None, b3))))"

definition CreateBucketIfNotExists :: "BoltBackend \<Rightarrow> err option \<times> BoltBackend" where
  "CreateBucketIfNotExists b =
     (case bolt_call b of
        (Some e, b1) \<Rightarrow> (Some e, b1)
      | (None, b1) \<Rightarrow> (None, b1\<lparr>bucket := Some (case bucket b1 of None \<Rightarrow> [] | Some kvs \<Rightarrow> kvs)\<rparr>))"

definition bucket_Put :: "bytes \<Rightarrow> bytes \<Rightarrow> BoltBackend \<Rightarrow> err option \<times> BoltBackend" where
  "bucket_Put k v b =
     (case put_limit b k v of
        Some e \<Rightarrow> (Some e, b)
      | None \<Rightarrow> (case bolt_call b of
            (Some e, b1) \<Rightarrow> (Some e, b1)
          | (None, b1) \<Rightarrow> (None, b1\<lparr>bucket := map_option (AList.update k v) (bucket b1)\<rparr>)))"

definition bucket_Delete :: "bytes \<Rightarrow> BoltBackend \<Rightarrow> err option \<times> BoltBackend" where
  "bucket_Delete k b =
     (case bolt_call b of
        (Some e, b1) \<Rightarrow> (Some e, b1)
      | (None, b1) \<Rightarrow> (None, b1\<lparr>bucket := map_option (AList.delete k) (bucket b1)\<rparr>))"

definition NewBoltBackend :: "string \<Rightarrow> string \<Rightarrow> BoltBackend res \<Rightarrow> BoltBackend res" where
  "NewBoltBackend path rootBucket opened =
     (if path = '''' then Inl (Msg ''boltdb: path required'')
      else if rootBucket = '''' then Inl (Msg ''boltdb: root bucket required'')
      else case opened of
          Inl e \<Rightarrow> Inl (Wrap ''boltdb: open'' e)
        | Inr db \<Rightarrow>
            (case bolt_Update CreateBucketIfNotExists db of
               (Some e, _) \<Rightarrow> Inl (Wrap ''boltdb: create root bucket'' e)
             | (None, b) \<Rightarrow> Inr b))"

definition bolt_Get :: "bytes \<Rightarrow> BoltBackend \<Rightarrow> bytes res \<times> BoltBackend" where
  "bolt_Get keyName b =
     (case bolt_View (\<lambda>bk. case bk of
             None \<Rightarrow> Inl ErrNotFound
           | Some kvs \<Rightarrow> (case map_of kvs keyName of None \<Rightarrow> Inl ErrNotFound | Some v \<Rightarrow> Inr v)) b of
        (Inl e, b1) \<Rightarrow> if errors_is e ErrNotFound then (Inl ErrNotFound, b1) else (Inl (Wrap ''boltdb: get'' e), b1)
      | (Inr v, b1) \<Rightarrow> (Inr v, b1))"

definition bolt_Delete :: "bytes \<Rightarrow> BoltBackend \<Rightarrow> err option \<times> BoltBackend" where
  "bolt_Delete keyName = bolt_Update (\<lambda>b. if bucket b = None then (None, b) else bucket_Delete keyName b)"

definition bolt_Put :: "bytes \<Rightarrow> bytes \<Rightarrow> BoltBackend \<Rightarrow> err option \<times> BoltBackend" where
  "bolt_Put keyName value b =
     (if value = [] then bolt_Delete keyName b
      else bolt_Update (\<lambda>b. case CreateBucketIfNotExists b of
          (Some e, b1) \<Rightarrow> (Some e, b1) | (None, b1) \<Rightarrow> bucket_Put keyName value b1) b)"

fun hasPrefix_loop :: "bytes \<Rightarrow> bytes \<Rightarrow> bool" where
  "hasPrefix_loop b [] = True"
| "hasPrefix_loop (x # b) (p # ps) = (x = p \<and> hasPrefix_loop b ps)"
| "hasPrefix_loop [] (p # ps) = False"

definition hasPrefix :: "bytes \<Rightarrow> bytes \<Rightarrow> bool" where
  "hasPrefix b pfx = (if length pfx > length b then False else hasPrefix_loop b pfx)"

text \<open>The cursor: \<^verbatim>\<open>Seek\<close> goes to the first key that is not smaller.\<close>

definition cursor_Seek :: "bytes \<Rightarrow> table \<Rightarrow> table" where
  "cursor_Seek pfx kvs = dropWhile (\<lambda>(k, v). k < pfx) (in_order kvs)"

fun scan_cursor :: "bytes \<Rightarrow> table \<Rightarrow> table" where
  "scan_cursor pfx [] = []"
| "scan_cursor pfx ((k, v) # rest) = (if hasPrefix k pfx then (k, v) # scan_cursor pfx rest else [])"

definition bolt_ScanPrefix :: "bytes \<Rightarrow> BoltBackend \<Rightarrow> KVItem list res \<times> BoltBackend" where
  "bolt_ScanPrefix pfx b =
     (case bolt_View (\<lambda>bk. case bk of None \<Rightarrow> Inr [] | Some kvs \<Rightarrow> Inr (items_of (scan_cursor pfx (cursor_Seek pfx kvs)))) b of
        (Inl e, b1) \<Rightarrow> (Inl (Wrap ''boltdb: scan prefix'' e), b1)
      | (Inr out, b1) \<Rightarrow> (Inr out, b1))"

fun bolt_ops :: "Op list \<Rightarrow> BoltBackend \<Rightarrow> err option \<times> BoltBackend" where
  "bolt_ops [] b = (None, b)"
| "bolt_ops (op # ops) b =
     (case (if op_Kind op = OpPut then
              (if op_Value op = [] then bucket_Delete (op_Key op) b else bucket_Put (op_Key op) (op_Value op) b)
            else if op_Kind op = OpDelete then bucket_Delete (op_Key op) b
            else (Some (Msg ''boltdb: unknown op kind''), b)) of
        (Some e, b1) \<Rightarrow> (Some e, b1)
      | (None, b1) \<Rightarrow> bolt_ops ops b1)"

definition bolt_Batch :: "Op list \<Rightarrow> BoltBackend \<Rightarrow> err option \<times> BoltBackend" where
  "bolt_Batch ops = bolt_Update (\<lambda>b. case CreateBucketIfNotExists b of
     (Some e, b1) \<Rightarrow> (Some e, b1) | (None, b1) \<Rightarrow> bolt_ops ops b1)"

section \<open>postgres.go\<close>

record PostgresBackend =
  kv_rows :: table
  pfaults :: "nat \<Rightarrow> err option"
  ptick :: nat

definition sql_call :: "PostgresBackend \<Rightarrow> err option \<times> PostgresBackend" where
  "sql_call p = (pfaults p (ptick p), p\<lparr>ptick := ptick p + 1\<rparr>)"

definition NewPostgresBackend :: "string \<Rightarrow> PostgresBackend res \<Rightarrow> PostgresBackend res" where
  "NewPostgresBackend dsn connected =
     (if dsn = '''' then Inl (Msg ''postgres: dsn required'')
      else case connected of
          Inl e \<Rightarrow> Inl (Wrap ''postgres: connect'' e)
        | Inr conn \<Rightarrow>
            (case sql_call conn of
               (Some e, _) \<Rightarrow> Inl (Wrap ''postgres: ensure schema'' e)
             | (None, p) \<Rightarrow> Inr p))"

definition pgb_Get :: "bytes \<Rightarrow> PostgresBackend \<Rightarrow> bytes res \<times> PostgresBackend" where
  "pgb_Get keyName p =
     (case sql_call p of
        (Some e, p1) \<Rightarrow> (Inl (Wrap ''postgres: get'' e), p1)
      | (None, p1) \<Rightarrow> (case map_of (kv_rows p1) keyName of None \<Rightarrow> (Inl ErrNotFound, p1) | Some v \<Rightarrow> (Inr v, p1)))"

definition pgb_Delete :: "bytes \<Rightarrow> PostgresBackend \<Rightarrow> err option \<times> PostgresBackend" where
  "pgb_Delete keyName p =
     (case sql_call p of
        (Some e, p1) \<Rightarrow> (Some (Wrap ''postgres: delete'' e), p1)
      | (None, p1) \<Rightarrow> (None, p1\<lparr>kv_rows := AList.delete keyName (kv_rows p1)\<rparr>))"

definition pgb_Put :: "bytes \<Rightarrow> bytes \<Rightarrow> PostgresBackend \<Rightarrow> err option \<times> PostgresBackend" where
  "pgb_Put keyName value p =
     (if value = [] then pgb_Delete keyName p
      else case sql_call p of
          (Some e, p1) \<Rightarrow> (Some (Wrap ''postgres: put'' e), p1)
        | (None, p1) \<Rightarrow> (None, p1\<lparr>kv_rows := AList.update keyName value (kv_rows p1)\<rparr>))"

fun nextPrefix_loop :: "bytes \<Rightarrow> nat \<Rightarrow> bytes option" where
  "nextPrefix_loop end0 0 = None"
| "nextPrefix_loop end0 (Suc i) =
     (if end0 ! i \<noteq> 0xff then Some (take (i + 1) (end0[i := end0 ! i + 1])) else nextPrefix_loop end0 i)"

definition nextPrefix :: "bytes \<Rightarrow> bytes option" where
  "nextPrefix pfx = (if pfx = [] then None else nextPrefix_loop pfx (length pfx))"

text \<open>A nil bound is sent as \<^verbatim>\<open>NULL\<close>, with which no comparison holds.\<close>

definition range_rows :: "bytes \<Rightarrow> bytes option \<Rightarrow> table \<Rightarrow> table" where
  "range_rows pfx prefixEnd kvs =
     in_order (filter (\<lambda>(k, v). pfx \<le> k \<and> (case prefixEnd of None \<Rightarrow> False | Some e \<Rightarrow> k < e)) kvs)"

definition pgb_ScanPrefix :: "bytes \<Rightarrow> PostgresBackend \<Rightarrow> KVItem list res \<times> PostgresBackend" where
  "pgb_ScanPrefix pfx p =
     (case sql_call p of
        (Some e, p1) \<Rightarrow> (Inl (Wrap ''postgres: scan prefix'' e), p1)
      | (None, p1) \<Rightarrow> (Inr (items_of (range_rows pfx (nextPrefix pfx) (kv_rows p1))), p1))"

fun pgb_ops :: "Op list \<Rightarrow> PostgresBackend \<Rightarrow> err option \<times> PostgresBackend" where
  "pgb_ops [] p = (None, p)"
| "pgb_ops (op # ops) p =
     (if op_Kind op = OpPut \<or> op_Kind op = OpDelete then
        (let delete = (op_Kind op = OpDelete \<or> op_Value op = [])
         in case sql_call p of
              (Some e, p1) \<Rightarrow> (Some (Wrap (if delete then ''postgres: batch delete'' else ''postgres: batch put'') e), p1)
            | (None, p1) \<Rightarrow> pgb_ops ops (p1\<lparr>kv_rows :=
                (if delete then AList.delete (op_Key op) (kv_rows p1) else AList.update (op_Key op) (op_Value op) (kv_rows p1))\<rparr>))
      else (Some (Msg ''postgres: unknown op kind''), p))"

definition pgb_Batch :: "Op list \<Rightarrow> PostgresBackend \<Rightarrow> err option \<times> PostgresBackend" where
  "pgb_Batch ops p =
     (case sql_call p of
        (Some e, p1) \<Rightarrow> (Some (Wrap ''postgres: begin tx'' e), p1)
      | (None, p1) \<Rightarrow>
          (case pgb_ops ops p1 of
             (Some e, p2) \<Rightarrow> (Some e, p2\<lparr>kv_rows := kv_rows p\<rparr>)
           | (None, p2) \<Rightarrow>
               (case sql_call p2 of
                  (Some e, p3) \<Rightarrow> (Some (Wrap ''postgres: commit'' e), p3\<lparr>kv_rows := kv_rows p\<rparr>)
                | (None, p3) \<Rightarrow> (None, p3))))"

section \<open>factory.go\<close>

text \<open>The choice by the name of the configuration; the arguments are what opening the file and
  connecting to the server give.\<close>

definition storage_New ::
  "string \<Rightarrow> string \<Rightarrow> string \<Rightarrow> BoltBackend res \<Rightarrow> PostgresBackend res \<Rightarrow> (BoltBackend + PostgresBackend) res" where
  "storage_New backend_name path dsn opened connected =
     (if backend_name = ''boltdb'' then
        (case NewBoltBackend path ''yvonne'' opened of Inl e \<Rightarrow> Inl e | Inr b \<Rightarrow> Inr (Inl b))
      else if backend_name = ''postgres'' then
        (case NewPostgresBackend dsn connected of Inl e \<Rightarrow> Inl e | Inr p \<Rightarrow> Inr (Inr p))
      else Inl (Msg ''storage: unsupported backend''))"

section \<open>Prefixes as ranges\<close>

lemma hasPrefix_iff: "hasPrefix b p \<longleftrightarrow> prefix p b"
proof -
  have "hasPrefix_loop b p \<longleftrightarrow> prefix p b" by (induction b p rule: hasPrefix_loop.induct) auto
  then show ?thesis by (auto simp: hasPrefix_def dest: prefix_length_le)
qed

lemma byte_max: "(y::byte) \<le> 0xff"
  using unat_byte [of y] by (simp add: word_le_nat_alt)

lemma byte_succ: "(x::byte) \<noteq> 0xff \<Longrightarrow> y < x + 1 \<longleftrightarrow> y \<le> x"
proof -
  assume "x \<noteq> 0xff"
  then have "unat x \<noteq> 255" by (simp add: word_unat_eq_iff)
  with unat_byte [of x] unat_add_lem [of x 1] have "unat (x + 1) = unat x + 1" by simp
  then show ?thesis by (auto simp: word_less_nat_alt word_le_nat_alt)
qed

lemma range_append: "q @ s \<le> k \<and> k < q @ t \<longleftrightarrow> (\<exists>k'. k = q @ k' \<and> s \<le> k' \<and> k' < (t :: bytes))"
proof (induction q arbitrary: k)
  case (Cons a q)
  then show ?case by (cases k) auto
qed simp

lemma range_max: "replicate m (0xff::byte) \<le> k \<longleftrightarrow> prefix (replicate m 0xff) k"
proof (induction m arbitrary: k)
  case (Suc m)
  have "\<not> 0xff < (y::byte)" for y using byte_max by (simp add: not_less)
  with Suc show ?case by (cases k) auto
qed simp

lemma range_step: "(x::byte) \<noteq> 0xff \<Longrightarrow> x # s \<le> k \<and> k < [x + 1] \<longleftrightarrow> (\<exists>k'. k = x # k' \<and> s \<le> k')"
  by (cases k) (auto simp: byte_succ)

lemma nextPrefix_loop_Some:
  assumes "(x::byte) \<noteq> 0xff" "n \<le> m"
  shows "nextPrefix_loop (q @ x # replicate m 0xff) (length q + 1 + n) = Some (q @ [x + 1])"
  using assms(2)
proof (induction n)
  case (Suc n)
  then show ?case by (simp add: nth_append)
qed (simp add: assms(1) nth_append list_update_append)

lemma last_below_max:
  assumes "\<exists>b \<in> set p. b \<noteq> (0xff::byte)"
  obtains q x m where "p = q @ x # replicate m 0xff" "x \<noteq> 0xff"
proof -
  from split_list_last_prop [OF assms] obtain q x zs where z: "p = q @ x # zs" "x \<noteq> 0xff" "\<forall>z \<in> set zs. z = 0xff" by blast
  then have "zs = replicate (length zs) 0xff" by (simp add: replicate_length_same)
  with z that show thesis by metis
qed

text \<open>
  The range that the Postgres back end scans is the prefix: unless every byte of the
  prefix is 255, \<open>nextPrefix\<close> answers an upper bound, and the keys from the prefix up to but without
  that bound are exactly the keys that begin with the prefix.
\<close>

theorem nextPrefix_range:
  assumes "\<exists>b \<in> set p. b \<noteq> 0xff"
  shows "\<exists>e. nextPrefix p = Some e \<and> (\<forall>k. p \<le> k \<and> k < e \<longleftrightarrow> hasPrefix k p)"
proof -
  from assms obtain q x m where p: "p = q @ x # replicate m 0xff" "x \<noteq> 0xff" by (rule last_below_max)
  have "nextPrefix p = Some (q @ [x + 1])"
    using nextPrefix_loop_Some [OF p(2), of m m q] p(1) by (simp add: nextPrefix_def)
  moreover have "p \<le> k \<and> k < q @ [x + 1] \<longleftrightarrow> hasPrefix k p" for k
    using p by (auto simp: range_append range_step range_max hasPrefix_iff prefix_def)
  ultimately show ?thesis by blast
qed

text \<open>A prefix without such a byte has no upper bound, and the query then finds nothing: a scan of the
  whole table, with the empty prefix, is empty on Postgres.\<close>

theorem scan_all_empty:
  assumes "\<forall>b \<in> set p. b = 0xff"
  shows "nextPrefix p = None" "range_rows p (nextPrefix p) kvs = []"
proof -
  have "nextPrefix_loop p n = None" if "n \<le> length p" for n
    using that assms by (induction n) auto
  then show "nextPrefix p = None" by (simp add: nextPrefix_def)
  then show "range_rows p (nextPrefix p) kvs = []" by (simp add: range_rows_def in_order_def)
qed

section \<open>The contract of a back end\<close>

definition nonempty :: "bytes \<Rightarrow> bytes option" where
  "nonempty v = (if v = [] then None else Some v)"

definition apply_op :: "Op \<Rightarrow> (bytes \<rightharpoonup> bytes) \<Rightarrow> bytes \<rightharpoonup> bytes" where
  "apply_op op m = m(op_Key op := if op_Kind op = OpPut then nonempty (op_Value op) else None)"

text \<open>A listing has exactly the entries under the prefix, in ascending order.\<close>

definition listing :: "bytes \<Rightarrow> (bytes \<rightharpoonup> bytes) \<Rightarrow> KVItem list \<Rightarrow> bool" where
  "listing p m items \<longleftrightarrow> sorted_wrt (<) (map item_Key items) \<and>
     (\<lambda>i. (item_Key i, item_Value i)) ` set items = {(k, v). m k = Some v \<and> hasPrefix k p}"

lemma listing_unique: "listing p m xs \<Longrightarrow> listing p m ys \<Longrightarrow> xs = ys"
proof -
  assume l: "listing p m xs" "listing p m ys"
  have inj: "inj (\<lambda>i :: KVItem. (item_Key i, item_Value i))" by (rule injI) (simp add: KVItem.equality)
  have "(\<lambda>i. (item_Key i, item_Value i)) ` set xs = (\<lambda>i. (item_Key i, item_Value i)) ` set ys" using l by (simp add: listing_def)
  then have same: "set xs = set ys" by (rule inj_image_eq_iff [OF inj, THEN iffD1])
  have ord: "sorted_wrt (<) (map item_Key xs)" "sorted_wrt (<) (map item_Key ys)" using l by (auto simp: listing_def)
  then have "inj_on item_Key (set xs)" by (auto simp: strict_sorted_iff distinct_map)
  moreover have "map item_Key xs = map item_Key ys" using ord same by (intro strict_sorted_equal) auto
  ultimately show "xs = ys" using same by (metis inj_on_map_eq_map sup.idem)
qed

locale backend =
  fixes good :: "'s \<Rightarrow> bool"
    and contents :: "'s \<Rightarrow> bytes \<Rightarrow> bytes option"
    and get :: "bytes \<Rightarrow> 's \<Rightarrow> bytes res \<times> 's"
    and put :: "bytes \<Rightarrow> bytes \<Rightarrow> 's \<Rightarrow> err option \<times> 's"
    and delete :: "bytes \<Rightarrow> 's \<Rightarrow> err option \<times> 's"
    and scan :: "bytes \<Rightarrow> 's \<Rightarrow> KVItem list res \<times> 's"
    and batch :: "Op list \<Rightarrow> 's \<Rightarrow> err option \<times> 's"
    and usable :: "bytes \<Rightarrow> bool"
  assumes get_law: "good s \<Longrightarrow> get k s = (x, s') \<Longrightarrow> good s' \<and> contents s' = contents s \<and>
      (\<forall>v. x = Inr v \<longrightarrow> contents s k = Some v) \<and> (x = Inl ErrNotFound \<longrightarrow> contents s k = None)"
    and put_law: "good s \<Longrightarrow> put k v s = (e, s') \<Longrightarrow>
      good s' \<and> contents s' = (if e = None then (contents s)(k := nonempty v) else contents s)"
    and delete_law: "good s \<Longrightarrow> delete k s = (e, s') \<Longrightarrow>
      good s' \<and> contents s' = (if e = None then (contents s)(k := None) else contents s)"
    and scan_law: "good s \<Longrightarrow> scan p s = (y, s') \<Longrightarrow> good s' \<and> contents s' = contents s \<and>
      (\<forall>items. y = Inr items \<longrightarrow> usable p \<longrightarrow> listing p (contents s) items)"
    and batch_law: "good s \<Longrightarrow> batch ops s = (e, s') \<Longrightarrow>
      good s' \<and> contents s' = (if e = None then fold apply_op ops (contents s) else contents s)"
begin

lemma get_put: "good s \<Longrightarrow> put k v s = (None, s1) \<Longrightarrow> get k' s1 = (Inr u, s2) \<Longrightarrow>
    Some u = (if k' = k then nonempty v else contents s k')"
  using put_law [of s k v None s1] get_law [of s1 k' "Inr u" s2] by auto

lemma batch_single:
  assumes "good s" "batch [\<lparr>op_Kind = OpPut, op_Key = k, op_Value = v\<rparr>] s = (None, s1)" "put k v s = (None, s2)"
  shows "contents s1 = contents s2"
  using batch_law [OF assms(1,2)] put_law [OF assms(1,3)] by (simp add: apply_op_def)

text \<open>What a scan finds can be read, and what can be read under the prefix is found.\<close>

lemma scan_get:
  assumes "good s" "scan p s = (Inr items, s1)" "usable p" "get k s1 = (Inr v, s2)" "hasPrefix k p"
  shows "\<lparr>item_Key = k, item_Value = v\<rparr> \<in> set items"
proof -
  have "(k, v) \<in> (\<lambda>i. (item_Key i, item_Value i)) ` set items"
    using scan_law [OF assms(1,2)] get_law [OF _ assms(4)] assms(3,5) by (auto simp: listing_def)
  then show ?thesis by (auto simp: image_iff) (metis KVItem.surjective old.unit.exhaust)
qed

end

section \<open>Both back ends keep it\<close>

lemma in_order_scan:
  assumes "distinct (map fst kvs)" "\<And>k v. (k, v) \<in> set kvs' \<longleftrightarrow> (k, v) \<in> set kvs \<and> hasPrefix k p" "sorted_wrt (<) (map fst kvs')"
  shows "listing p (map_of kvs) (items_of kvs')"
proof -
  have "map item_Key (items_of kvs') = map fst kvs'" by (simp add: items_of_def case_prod_unfold)
  moreover have "(\<lambda>i. (item_Key i, item_Value i)) ` set (items_of kvs') = set kvs'"
    by (simp add: items_of_def case_prod_unfold image_image)
  ultimately show ?thesis using assms by (auto simp: listing_def map_of_eq_Some_iff)
qed

lemma in_order_strict: "distinct (map fst kvs) \<Longrightarrow> sorted_wrt (<) (map fst (in_order kvs))"
  unfolding in_order_def strict_sorted_iff
  by (metis distinct_map distinct_sort inj_on_subset order_refl set_sort sorted_sort_key)

lemma range_rows_listing:
  assumes "distinct (map fst kvs)" "\<exists>b \<in> set p. b \<noteq> 0xff"
  shows "listing p (map_of kvs) (items_of (range_rows p (nextPrefix p) kvs))"
proof -
  obtain e where e: "nextPrefix p = Some e" "\<And>k. p \<le> k \<and> k < e \<longleftrightarrow> hasPrefix k p"
    using nextPrefix_range [OF assms(2)] by blast
  have rows: "range_rows p (nextPrefix p) kvs = in_order (filter (\<lambda>(k, v). hasPrefix k p) kvs)"
    by (simp add: range_rows_def e)
  have "distinct (map fst (filter (\<lambda>(k, v). hasPrefix k p) kvs))" using assms(1) by (rule distinct_map_filter)
  from in_order_strict [OF this] show ?thesis
    by (intro in_order_scan [OF assms(1)]) (auto simp: rows in_order_def)
qed


lemma prefix_le: "prefix p k \<Longrightarrow> p \<le> (k :: bytes)"
proof (induction p arbitrary: k)
  case (Cons a p)
  then show ?case by (cases k) auto
qed simp

lemma prefix_between: "prefix p k' \<Longrightarrow> p \<le> k \<Longrightarrow> k \<le> (k' :: bytes) \<Longrightarrow> prefix p k"
proof (induction p arbitrary: k k')
  case (Cons a p)
  then obtain l' where "k' = a # l'" "prefix p l'" by (cases k') auto
  with Cons show ?case by (cases k) auto
qed simp

lemma seek_scan:
  assumes "sorted (map fst xs)"
  shows "scan_cursor p (dropWhile (\<lambda>(k, v). k < p) xs) = filter (\<lambda>(k, v). hasPrefix k p) xs"
  using assms
proof (induction xs)
  case (Cons x xs)
  obtain k v where x: "x = (k, v)" by fastforce
  have ge: "k \<le> k'" if "(k', v') \<in> set xs" for k' v' using Cons.prems that x by force
  have noprefix: "\<not> hasPrefix k p \<Longrightarrow> \<not> k < p \<Longrightarrow> filter (\<lambda>(k, v). hasPrefix k p) xs = []"
    using prefix_between ge by (auto simp: filter_empty_conv hasPrefix_iff not_less)
  have notless: "\<not> k < p \<Longrightarrow> dropWhile (\<lambda>(k, v). k < p) xs = xs"
    using ge [of "fst (hd xs)" "snd (hd xs)"] by (cases xs) (auto simp: not_less dest: order_trans)
  show ?case
    using Cons x noprefix notless prefix_le [of p k] by (auto simp: hasPrefix_iff not_less)
qed simp

lemma bolt_listing:
  "distinct (map fst kvs) \<Longrightarrow> listing p (map_of kvs) (items_of (scan_cursor p (cursor_Seek p kvs)))"
proof -
  assume d: "distinct (map fst kvs)"
  have "scan_cursor p (cursor_Seek p kvs) = filter (\<lambda>(k, v). hasPrefix k p) (in_order kvs)"
    unfolding cursor_Seek_def by (rule seek_scan) (simp add: in_order_def)
  moreover have "sorted_wrt (<) (map fst (filter (\<lambda>(k, v). hasPrefix k p) (in_order kvs)))"
    using in_order_strict [OF d] by (auto simp: sorted_wrt_map intro: sorted_wrt_filter)
  ultimately show ?thesis by (intro in_order_scan [OF d]) (auto simp: in_order_def)
qed

definition pgb_contents :: "PostgresBackend \<Rightarrow> bytes \<Rightarrow> bytes option" where
  "pgb_contents p = map_of (kv_rows p)"

definition pgb_good :: "PostgresBackend \<Rightarrow> bool" where
  "pgb_good p \<longleftrightarrow> distinct (map fst (kv_rows p))"

definition bolt_contents :: "BoltBackend \<Rightarrow> bytes \<Rightarrow> bytes option" where
  "bolt_contents b = (case bucket b of None \<Rightarrow> Map.empty | Some kvs \<Rightarrow> map_of kvs)"

text \<open>The engine's errors are not the package's own.\<close>

definition bolt_good :: "BoltBackend \<Rightarrow> bool" where
  "bolt_good b \<longleftrightarrow> (\<forall>kvs. bucket b = Some kvs \<longrightarrow> distinct (map fst kvs)) \<and> (\<forall>i e. bfaults b i = Some e \<longrightarrow> \<not> errors_is e ErrNotFound)"

lemmas pgb_simps = pgb_contents_def pgb_good_def sql_call_def Let_def

lemma pgb_ops_law:
  "pgb_good p \<Longrightarrow> pgb_ops ops p = (e, p') \<Longrightarrow>
   pgb_good p' \<and> (e = None \<longrightarrow> pgb_contents p' = fold apply_op ops (pgb_contents p))"
proof (induction ops arbitrary: p)
  case (Cons op ops)
  show ?case
  proof (cases "sql_call p")
    case (Pair f p1)
    let ?p2 = "p1\<lparr>kv_rows := (if op_Kind op = OpDelete \<or> op_Value op = [] then AList.delete (op_Key op) (kv_rows p1)
        else AList.update (op_Key op) (op_Value op) (kv_rows p1))\<rparr>"
    have "pgb_good ?p2" "op_Kind op = OpPut \<or> op_Kind op = OpDelete \<Longrightarrow> pgb_contents ?p2 = apply_op op (pgb_contents p)"
      using Cons.prems(1) Pair
      by (auto simp: pgb_simps apply_op_def nonempty_def OpPut_def OpDelete_def distinct_update distinct_delete AList.update_conv' delete_conv')
    with Cons.IH [of ?p2] Cons.prems Pair show ?thesis
      by (auto simp: Let_def split: if_splits option.splits) (auto simp: pgb_simps)
  qed
qed simp

interpretation pg_backend: backend pgb_good pgb_contents pgb_Get pgb_Put pgb_Delete pgb_ScanPrefix pgb_Batch "\<lambda>p. \<exists>b \<in> set p. b \<noteq> 0xff"
proof
  show "pgb_good s' \<and> pgb_contents s' = pgb_contents s \<and>
      (\<forall>v. x = Inr v \<longrightarrow> pgb_contents s k = Some v) \<and> (x = Inl ErrNotFound \<longrightarrow> pgb_contents s k = None)"
    if "pgb_good s" "pgb_Get k s = (x, s')" for s k x s'
    using that by (auto simp: pgb_Get_def pgb_simps split: option.splits)
  show "pgb_good s' \<and> pgb_contents s' = (if e = None then (pgb_contents s)(k := nonempty v) else pgb_contents s)"
    if "pgb_good s" "pgb_Put k v s = (e, s')" for s k v e s'
    using that by (auto simp: pgb_Put_def pgb_Delete_def nonempty_def pgb_simps distinct_update distinct_delete AList.update_conv' delete_conv' split: if_splits option.splits)
  show "pgb_good s' \<and> pgb_contents s' = (if e = None then (pgb_contents s)(k := None) else pgb_contents s)"
    if "pgb_good s" "pgb_Delete k s = (e, s')" for s k e s'
    using that by (auto simp: pgb_Delete_def pgb_simps distinct_delete delete_conv' split: option.splits)
  show "pgb_good s' \<and> pgb_contents s' = pgb_contents s \<and>
      (\<forall>items. y = Inr items \<longrightarrow> (\<exists>b \<in> set p. b \<noteq> 0xff) \<longrightarrow> listing p (pgb_contents s) items)"
    if "pgb_good s" "pgb_ScanPrefix p s = (y, s')" for s p y s'
    using that range_rows_listing [of "kv_rows s" p] by (auto simp: pgb_ScanPrefix_def pgb_simps split: option.splits)
  show "pgb_good s' \<and> pgb_contents s' = (if e = None then fold apply_op ops (pgb_contents s) else pgb_contents s)"
    if "pgb_good s" "pgb_Batch ops s = (e, s')" for s ops e s'
  proof -
    obtain f p1 where c: "sql_call s = (f, p1)" by fastforce
    then have p1: "pgb_good p1" "pgb_contents p1 = pgb_contents s" using that(1) by (auto simp: pgb_simps)
    obtain g p2 where o: "pgb_ops ops p1 = (g, p2)" by fastforce
    from pgb_ops_law [OF p1(1) o] p1 that c o show ?thesis
      by (auto simp: pgb_Batch_def split: option.splits prod.splits) (auto simp: pgb_simps)
  qed
qed

lemma bolt_call_good: "bolt_good b \<Longrightarrow> bolt_call b = (f, b1) \<Longrightarrow>
    bolt_good b1 \<and> bucket b1 = bucket b \<and> (\<forall>e. f = Some e \<longrightarrow> \<not> errors_is e ErrNotFound)"
  by (auto simp: bolt_call_def bolt_good_def)

lemma bolt_good_bucket: "bolt_good b \<Longrightarrow> (\<And>kvs. t = Some kvs \<Longrightarrow> distinct (map fst kvs)) \<Longrightarrow> bolt_good (b\<lparr>bucket := t\<rparr>)"
  by (auto simp: bolt_good_def)

text \<open>A step of a transaction: it keeps the well-formedness and, when it succeeds, has the effect \<open>f\<close>
  on the contents.\<close>

definition bolt_step :: "((bytes \<rightharpoonup> bytes) \<Rightarrow> bytes \<rightharpoonup> bytes) \<Rightarrow> (BoltBackend \<Rightarrow> err option \<times> BoltBackend) \<Rightarrow> bool" where
  "bolt_step f fn \<longleftrightarrow> (\<forall>b e b'. bolt_good b \<longrightarrow> bucket b \<noteq> None \<longrightarrow> fn b = (e, b') \<longrightarrow>
     bolt_good b' \<and> bucket b' \<noteq> None \<and> (e = None \<longrightarrow> bolt_contents b' = f (bolt_contents b)))"

lemma bolt_stepD:
  "bolt_step f fn \<Longrightarrow> bolt_good b \<Longrightarrow> bucket b \<noteq> None \<Longrightarrow> fn b = (e, b') \<Longrightarrow>
   bolt_good b' \<and> bucket b' \<noteq> None \<and> (e = None \<longrightarrow> bolt_contents b' = f (bolt_contents b))"
  unfolding bolt_step_def by blast

lemma bucket_Delete_step: "bolt_step (\<lambda>m. m(k := None)) (bucket_Delete k)"
  by (auto simp: bolt_step_def bucket_Delete_def bolt_contents_def bolt_good_def bolt_call_def distinct_delete delete_conv' split: option.splits)

lemma bucket_Put_step: "v \<noteq> [] \<Longrightarrow> bolt_step (\<lambda>m. m(k := nonempty v)) (bucket_Put k v)"
  by (auto simp: bolt_step_def bucket_Put_def bolt_contents_def bolt_good_def bolt_call_def nonempty_def distinct_update AList.update_conv'
      split: option.splits)

lemma bolt_ops_step: "bolt_step (fold apply_op ops) (bolt_ops ops)"
proof (induction ops)
  case Nil
  then show ?case by (simp add: bolt_step_def)
next
  case (Cons op ops)
  define fn where "fn b = (if op_Kind op = OpPut then
       (if op_Value op = [] then bucket_Delete (op_Key op) b else bucket_Put (op_Key op) (op_Value op) b)
     else if op_Kind op = OpDelete then bucket_Delete (op_Key op) b
     else (Some (Msg ''boltdb: unknown op kind''), b))" for b
  have one: "bolt_step (apply_op op) fn"
  proof -
    consider "op_Kind op = OpPut" "op_Value op \<noteq> []" | "op_Kind op = OpDelete \<or> op_Kind op = OpPut \<and> op_Value op = []"
      | "op_Kind op \<noteq> OpPut" "op_Kind op \<noteq> OpDelete" by blast
    then show ?thesis
    proof cases
      case 1
      then have "fn = bucket_Put (op_Key op) (op_Value op)" "apply_op op = (\<lambda>m. m(op_Key op := nonempty (op_Value op)))"
        by (auto simp: fn_def apply_op_def)
      then show ?thesis using bucket_Put_step [OF 1(2), of "op_Key op"] by simp
    next
      case 2
      then have "fn = bucket_Delete (op_Key op)" "apply_op op = (\<lambda>m. m(op_Key op := None))"
        by (auto simp: fn_def apply_op_def nonempty_def OpPut_def OpDelete_def)
      then show ?thesis using bucket_Delete_step [of "op_Key op"] by simp
    next
      case 3
      then show ?thesis by (simp add: bolt_step_def fn_def)
    qed
  qed
  have two: "bolt_ops (op # ops) b = (case fn b of (Some e, b1) \<Rightarrow> (Some e, b1) | (None, b1) \<Rightarrow> bolt_ops ops b1)" for b
    by (simp add: fn_def)
  show ?case unfolding bolt_step_def
  proof (intro allI impI)
    fix b e b'
    assume b: "bolt_good b" "bucket b \<noteq> None" "bolt_ops (op # ops) b = (e, b')"
    obtain x b1 where fn: "fn b = (x, b1)" by fastforce
    from bolt_stepD [OF one b(1,2) fn] bolt_stepD [OF Cons.IH, of b1 e b'] b(3) fn
    show "bolt_good b' \<and> bucket b' \<noteq> None \<and> (e = None \<longrightarrow> bolt_contents b' = fold apply_op (op # ops) (bolt_contents b))"
      unfolding two by (auto split: option.splits)
  qed
qed

lemma bolt_Update_law:
  assumes "bolt_good b" "bolt_Update fn b = (e, b')"
    and "\<And>b1 x b2. bolt_good b1 \<Longrightarrow> bucket b1 = bucket b \<Longrightarrow> fn b1 = (x, b2) \<Longrightarrow>
      bolt_good b2 \<and> (x = None \<longrightarrow> bolt_contents b2 = f (bolt_contents b))"
  shows "bolt_good b' \<and> bolt_contents b' = (if e = None then f (bolt_contents b) else bolt_contents b)"
proof -
  obtain x1 b1 where c1: "bolt_call b = (x1, b1)" by fastforce
  obtain x2 b2 where f: "fn b1 = (x2, b2)" by fastforce
  obtain x3 b3 where c3: "bolt_call b2 = (x3, b3)" by fastforce
  have g1: "bolt_good b1" "bucket b1 = bucket b" using bolt_call_good [OF assms(1) c1] by auto
  have g2: "bolt_good b2" "x2 = None \<Longrightarrow> bolt_contents b2 = f (bolt_contents b)" using assms(3) [OF g1 f] by auto
  have g3: "bolt_good b3" "bolt_contents b3 = bolt_contents b2" using bolt_call_good [OF g2(1) c3] by (auto simp: bolt_contents_def)
  have dist: "bucket b = Some kvs \<Longrightarrow> distinct (map fst kvs)" for kvs using assms(1) by (simp add: bolt_good_def)
  have restored: "bolt_good (c\<lparr>bucket := bucket b\<rparr>)" "bolt_contents (c\<lparr>bucket := bucket b\<rparr>) = bolt_contents b" if "bolt_good c" for c
    using bolt_good_bucket [OF that dist] by (auto simp: bolt_contents_def)
  show ?thesis
    using assms(2) c1 f c3 g1 g2 g3 restored [OF g2(1)] restored [OF g3(1)]
    by (auto simp: bolt_Update_def bolt_contents_def split: option.splits)
qed

lemma CreateBucket_law:
  assumes "bolt_good b" "CreateBucketIfNotExists b = (e, b1)"
  shows "bolt_good b1 \<and> bolt_contents b1 = bolt_contents b \<and> (e = None \<longrightarrow> bucket b1 \<noteq> None)"
  using assms bolt_call_good [OF assms(1)]
  by (auto simp: CreateBucketIfNotExists_def bolt_contents_def bolt_good_def split: option.splits prod.splits)

lemma created_step:
  assumes "bolt_step f fn" "bolt_good b"
    and "(case CreateBucketIfNotExists b of (Some e, b1) \<Rightarrow> (Some e, b1) | (None, b1) \<Rightarrow> fn b1) = (x, b2)"
  shows "bolt_good b2 \<and> (x = None \<longrightarrow> bolt_contents b2 = f (bolt_contents b))"
proof -
  obtain e b1 where c: "CreateBucketIfNotExists b = (e, b1)" by fastforce
  from CreateBucket_law [OF assms(2) c] bolt_stepD [OF assms(1), of b1 x b2] assms(3) c
  show ?thesis by (auto split: option.splits)
qed

lemma bolt_Delete_law:
  assumes "bolt_good s" "bolt_Delete k s = (e, s')"
  shows "bolt_good s' \<and> bolt_contents s' = (if e = None then (bolt_contents s)(k := None) else bolt_contents s)"
proof (rule bolt_Update_law [OF assms(1) assms(2) [unfolded bolt_Delete_def]])
  fix b1 x b2
  assume b: "bolt_good b1" "bucket b1 = bucket s" "(if bucket b1 = None then (None, b1) else bucket_Delete k b1) = (x, b2)"
  then show "bolt_good b2 \<and> (x = None \<longrightarrow> bolt_contents b2 = (bolt_contents s)(k := None))"
    using bolt_stepD [OF bucket_Delete_step, of b1 k x b2] by (auto simp: bolt_contents_def split: if_splits)
qed

interpretation bolt_backend: backend bolt_good bolt_contents bolt_Get bolt_Put bolt_Delete bolt_ScanPrefix bolt_Batch "\<lambda>p. True"
proof
  show "bolt_good s' \<and> bolt_contents s' = bolt_contents s \<and>
      (\<forall>v. x = Inr v \<longrightarrow> bolt_contents s k = Some v) \<and> (x = Inl ErrNotFound \<longrightarrow> bolt_contents s k = None)"
    if "bolt_good s" "bolt_Get k s = (x, s')" for s k x s'
    using that bolt_call_good [OF that(1)]
    by (auto simp: bolt_Get_def bolt_View_def bolt_contents_def split: option.splits prod.splits sum.splits if_splits)
  show "bolt_good s' \<and> bolt_contents s' = (if e = None then (bolt_contents s)(k := None) else bolt_contents s)"
    if "bolt_good s" "bolt_Delete k s = (e, s')" for s k e s'
    using that by (rule bolt_Delete_law)
  show "bolt_good s' \<and> bolt_contents s' = (if e = None then (bolt_contents s)(k := nonempty v) else bolt_contents s)"
    if "bolt_good s" "bolt_Put k v s = (e, s')" for s k v e s'
  proof (cases "v = []")
    case True
    then show ?thesis using bolt_Delete_law [OF that(1)] that(2) by (simp add: bolt_Put_def nonempty_def)
  next
    case False
    from that(2) False have "bolt_Update (\<lambda>b. case CreateBucketIfNotExists b of
        (Some e, b1) \<Rightarrow> (Some e, b1) | (None, b1) \<Rightarrow> bucket_Put k v b1) s = (e, s')" by (simp add: bolt_Put_def)
    then show ?thesis
      by (rule bolt_Update_law [OF that(1)]) (use created_step [OF bucket_Put_step [OF False]] in \<open>fastforce simp: bolt_contents_def\<close>)
  qed
  show "bolt_good s' \<and> bolt_contents s' = bolt_contents s \<and>
      (\<forall>items. y = Inr items \<longrightarrow> True \<longrightarrow> listing p (bolt_contents s) items)"
    if "bolt_good s" "bolt_ScanPrefix p s = (y, s')" for s p y s'
  proof -
    obtain f b1 where c: "bolt_call s = (f, b1)" by fastforce
    have kept: "bolt_good b1" "bolt_contents b1 = bolt_contents s" "bucket b1 = bucket s"
      using bolt_call_good [OF that(1) c] by (auto simp: bolt_contents_def)
    have "listing p (bolt_contents s) (case bucket s of None \<Rightarrow> [] | Some kvs \<Rightarrow> items_of (scan_cursor p (cursor_Seek p kvs)))"
      using that(1) bolt_listing by (auto simp: bolt_contents_def bolt_good_def listing_def split: option.split)
    with kept that(2) c show ?thesis by (cases f; cases "bucket s") (auto simp: bolt_ScanPrefix_def bolt_View_def)
  qed
  show "bolt_good s' \<and> bolt_contents s' = (if e = None then fold apply_op ops (bolt_contents s) else bolt_contents s)"
    if "bolt_good s" "bolt_Batch ops s = (e, s')" for s ops e s'
    using that(2) unfolding bolt_Batch_def
    by (rule bolt_Update_law [OF that(1)]) (use created_step [OF bolt_ops_step] in \<open>fastforce simp: bolt_contents_def\<close>)
qed

text \<open>
  The two back ends are interchangeable: from states with the same contents, a batch that
  both report as done leaves both with the same contents and a batch that one of them reports as
  failed has changed nothing there, whatever call of the engine failed; and scans with a prefix that
  is not made of bytes 255 only, when both succeed, return the same items in the same order.
\<close>

theorem backends_agree:
  assumes "bolt_good b" "pgb_good p" "bolt_contents b = pgb_contents p"
    and "bolt_Batch ops b = (e1, b')" "pgb_Batch ops p = (e2, p')"
  shows "(e1 = None \<and> e2 = None \<longrightarrow> bolt_contents b' = pgb_contents p' \<and>
      (\<forall>q xs ys b2 p2. (\<exists>x \<in> set q. x \<noteq> 0xff) \<and> bolt_ScanPrefix q b' = (Inr xs, b2) \<and> pgb_ScanPrefix q p' = (Inr ys, p2) \<longrightarrow> xs = ys))
    \<and> (e1 \<noteq> None \<longrightarrow> bolt_contents b' = bolt_contents b) \<and> (e2 \<noteq> None \<longrightarrow> pgb_contents p' = pgb_contents p)"
proof -
  note bb = bolt_backend.batch_law [OF assms(1,4)] and pb = pg_backend.batch_law [OF assms(2,5)]
  have "xs = ys" if "bolt_contents b' = pgb_contents p'" "\<exists>x \<in> set q. x \<noteq> 0xff" "bolt_ScanPrefix q b' = (Inr xs, b2)" "pgb_ScanPrefix q p' = (Inr ys, p2)"
    for q xs ys b2 p2
    using that bolt_backend.scan_law [OF _ that(3)] pg_backend.scan_law [OF _ that(4)] bb pb
    by (intro listing_unique [of q "pgb_contents p'"]) auto
  then have "bolt_contents b' = pgb_contents p' \<Longrightarrow> \<forall>q xs ys b2 p2. (\<exists>x \<in> set q. x \<noteq> 0xff) \<and>
      bolt_ScanPrefix q b' = (Inr xs, b2) \<and> pgb_ScanPrefix q p' = (Inr ys, p2) \<longrightarrow> xs = ys" by blast
  with bb pb assms(3) show ?thesis by simp
qed

definition toy_bolt :: BoltBackend where
  "toy_bolt = \<lparr>bucket = Some [([0x6b], [1])], bfaults = (\<lambda>_. None), btick = 0, put_limit = (\<lambda>k v. None)\<rparr>"

definition toy_pgb :: PostgresBackend where
  "toy_pgb = \<lparr>kv_rows = [([0x6b], [1])], pfaults = (\<lambda>_. None), ptick = 0\<rparr>"

theorem backends_agree_witness:
  "\<exists>b' p'. bolt_Batch [\<lparr>op_Kind = 0, op_Key = [0x61], op_Value = [2]\<rparr>, \<lparr>op_Kind = 1, op_Key = [0x6b], op_Value = []\<rparr>] toy_bolt = (None, b') \<and>
     pgb_Batch [\<lparr>op_Kind = 0, op_Key = [0x61], op_Value = [2]\<rparr>, \<lparr>op_Kind = 1, op_Key = [0x6b], op_Value = []\<rparr>] toy_pgb = (None, p') \<and>
     bolt_contents b' = pgb_contents p'"
proof -
  let ?ops = "[\<lparr>op_Kind = 0, op_Key = [0x61], op_Value = [2]\<rparr>, \<lparr>op_Kind = 1, op_Key = [0x6b], op_Value = []\<rparr>]"
  have good: "bolt_good toy_bolt" "pgb_good toy_pgb" "bolt_contents toy_bolt = pgb_contents toy_pgb"
    by (simp_all add: bolt_good_def pgb_good_def bolt_contents_def pgb_contents_def toy_bolt_def toy_pgb_def)
  have "fst (bolt_Batch ?ops toy_bolt) = None" "fst (pgb_Batch ?ops toy_pgb) = None"
    by (simp_all add: bolt_Batch_def bolt_Update_def bolt_call_def CreateBucketIfNotExists_def bucket_Put_def bucket_Delete_def toy_bolt_def
        OpPut_def OpDelete_def pgb_Batch_def sql_call_def toy_pgb_def)
  then obtain b' p' where run: "bolt_Batch ?ops toy_bolt = (None, b')" "pgb_Batch ?ops toy_pgb = (None, p')"
    by (metis prod.collapse)
  have "bolt_contents b' = pgb_contents p'" using backends_agree [OF good run] by simp
  with run show ?thesis by (intro exI conjI)
qed

end
