(* ===== verification/Admin.thy ===== *)
theory Admin
  imports Edge Bootstrap
begin

text \<open>
  The web console of \<^verbatim>\<open>internal/admin\<close>: \<^verbatim>\<open>server.go\<close> (credentials, routes),
  \<^verbatim>\<open>handlers.go\<close> (seal status, key names, sealing and the key ceremony) and
  \<^verbatim>\<open>handlers_api.go\<close> (the proxy to the API). The console works on the vault and the manager
  of the router behind it, or on a vault of its own, which is what the assembly gives it with an HSM.
  Requests have clean paths; the embedded files and Go's file server are parameters.
\<close>

section \<open>The state of the console\<close>

fun u_Seal :: "Unsealer \<Rightarrow> Unsealer" where
  "u_Seal (SealVault v) = SealVault (Seal v)"
| "u_Seal (SealHSM h) = SealHSM (hsm_Seal h)"

fun u_TotalShares :: "Unsealer \<Rightarrow> int" where
  "u_TotalShares (SealVault v) = total v"
| "u_TotalShares (SealHSM h) = 0"

fun u_Threshold :: "Unsealer \<Rightarrow> int" where
  "u_Threshold (SealVault v) = threshold v"
| "u_Threshold (SealHSM h) = 0"

datatype seal_ref = RouterSeal | OwnSeal Unsealer

record console =
  c_seal :: seal_ref
  c_manager :: bool
  c_adminToken :: string
  c_apiHandler :: bool

type_synonym site = "console \<times> RateLimiter option \<times> V1Router"

definition NewConsole :: "seal_ref \<Rightarrow> console" where
  "NewConsole s = \<lparr>c_seal = s, c_manager = False, c_adminToken = '''', c_apiHandler = False\<rparr>"

definition SetConsoleToken :: "string \<Rightarrow> console \<Rightarrow> console" where
  "SetConsoleToken token c = c\<lparr>c_adminToken := token\<rparr>"

definition SetManager :: "console \<Rightarrow> console" where
  "SetManager c = c\<lparr>c_manager := True\<rparr>"

definition SetAPIHandler :: "console \<Rightarrow> console" where
  "SetAPIHandler c = c\<lparr>c_apiHandler := True\<rparr>"

text \<open>The console that the assembly puts in front of a router: it has the router's vault when it was
  given the same one.\<close>

definition console_of :: "AdminServer \<Rightarrow> V1Router \<Rightarrow> console" where
  "console_of a R =
     SetAPIHandler (SetManager (SetConsoleToken (a_adminToken a)
       (NewConsole (if a_seal a = r_seal R then RouterSeal else OwnSeal (a_seal a)))))"

fun site_seal :: "site \<Rightarrow> Unsealer" where
  "site_seal (c, lm, R) = (case c_seal c of RouterSeal \<Rightarrow> r_seal R | OwnSeal u \<Rightarrow> u)"

fun set_site_seal :: "Unsealer \<Rightarrow> site \<Rightarrow> site" where
  "set_site_seal u (c, lm, R) =
     (case c_seal c of
        RouterSeal \<Rightarrow> (c, lm, R\<lparr>core := (core R)\<lparr>vault_seal := u\<rparr>\<rparr>)
      | OwnSeal _ \<Rightarrow> (c\<lparr>c_seal := OwnSeal u\<rparr>, lm, R))"

record admin_env =
  a_base64 :: "string \<Rightarrow> string option"
  a_static :: "request \<Rightarrow> response"
  a_index :: "string option"
  a_share :: "bytes \<Rightarrow> bytes option"

type_synonym page = "request \<Rightarrow> site \<Rightarrow> csprng \<Rightarrow> (headers \<times> response) \<times> site \<times> csprng"

section \<open>server.go: credentials\<close>

definition http_Error :: "int \<Rightarrow> string \<Rightarrow> headers \<times> response" where
  "http_Error status msg = ([], Response status (JString msg))"

text \<open>\<^verbatim>\<open>http.Request.BasicAuth\<close>: name and password, or nothing.\<close>

definition BasicAuth :: "admin_env \<Rightarrow> request \<Rightarrow> (string \<times> string) option" where
  "BasicAuth A req =
     (let auth = r_header req ''Authorization''
      in if length auth < 6 \<or> \<not> list_all2 fold_byte (take 6 auth) ''Basic '' then None
         else case a_base64 A (drop 6 auth) of
             None \<Rightarrow> None
           | Some c \<Rightarrow>
               if CHR '':'' \<in> set c
               then Some (takeWhile (\<lambda>x. x \<noteq> CHR '':'') c, drop 1 (dropWhile (\<lambda>x. x \<noteq> CHR '':'') c))
               else None)"

definition console_authenticate :: "admin_env \<Rightarrow> console \<Rightarrow> request \<Rightarrow> bool" where
  "console_authenticate A c req =
     (case BasicAuth A req of
        Some (user, pass) \<Rightarrow> pass = c_adminToken c
      | None \<Rightarrow>
          let auth = r_header req ''Authorization''
          in length auth > 7 \<and> take 7 auth = ''Bearer '' \<and> drop 7 auth = c_adminToken c)"

definition requireAdminToken :: "page \<Rightarrow> page" where
  "requireAdminToken next req st r =
     (let tok = c_adminToken (fst st); auth = r_header req ''Authorization''
      in if tok = '''' then next req st r
         else if length auth \<le> 7 \<or> take 7 auth \<noteq> ''Bearer '' then (http_Error 401 ''unauthorized'', st, r)
         else if drop 7 auth \<noteq> tok then (http_Error 401 ''unauthorized'', st, r)
         else next req st r)"

section \<open>handlers.go\<close>

definition handleSealStatus :: page where
  "handleSealStatus req st r =
     (if r_method req \<noteq> ''GET'' then (http_Error 405 ''method not allowed'', st, r)
      else let u = site_seal st
        in (([], Response 200 (JObj [(''sealed'', JBool (u_IsSealed u)), (''state'', JString (State_String (u_State u))),
             (''total_shares'', JInt (u_TotalShares u)), (''threshold'', JInt (u_Threshold u))])), st, r))"

definition key_infos :: "string list \<Rightarrow> json" where
  "key_infos ids = JObj [(''ok'', JBool True),
     (''data'', JObj [(''keys'', JArr (map (\<lambda>i. JObj [(''key_id'', JString i)]) ids))])]"

definition list_names :: "site \<Rightarrow> string list res \<times> site" where
  "list_names st = (case st of (c, lm, R) \<Rightarrow>
     (case ListKeyIDs (r_manager R) of (ids, m) \<Rightarrow> (ids, c, lm, set_manager m R)))"

definition handleListKeys :: page where
  "handleListKeys req st r =
     (if r_method req \<noteq> ''GET'' then (http_Error 405 ''method not allowed'', st, r)
      else if \<not> c_manager (fst st) then (([], Response 200 (key_infos [])), st, r)
      else if u_IsSealed (site_seal st) then (([], writeJSONError 503 ''vault is sealed''), st, r)
      else case list_names st of
          (Inl _, st1) \<Rightarrow> (([], writeJSONError 500 ''failed to list keys''), st1, r)
        | (Inr ids, st1) \<Rightarrow> (([], Response 200 (key_infos ids)), st1, r))"

definition handleSeal :: page where
  "handleSeal req st r =
     (if r_method req \<noteq> ''POST'' then (http_Error 405 ''method not allowed'', st, r)
      else (([], Response 200 (JObj [(''sealed'', JBool True)])), set_site_seal (u_Seal (site_seal st)) st, r))"

definition handleUnseal :: "admin_env \<Rightarrow> page" where
  "handleUnseal A req st r =
     (if r_method req \<noteq> ''POST'' then (http_Error 405 ''method not allowed'', st, r)
      else case r_body req of
          None \<Rightarrow> (http_Error 400 ''read body failed'', st, r)
        | Some bodyBytes \<Rightarrow>
            (case a_share A bodyBytes of
               None \<Rightarrow> (http_Error 400 ''invalid JSON'', st, r)
             | Some share \<Rightarrow>
                 (case u_ProvideShare share (site_seal st) of
                    ((unsealed, Some e), u) \<Rightarrow>
                      (([], Response 400 (JObj [(''error'', JString (error_text e)), (''unsealed'', JBool unsealed)])), set_site_seal u st, r)
                  | ((unsealed, None), u) \<Rightarrow>
                      (([], Response 200 (JObj [(''unsealed'', JBool unsealed)])), set_site_seal u st, r))))"

definition handleIndex :: "admin_env \<Rightarrow> page" where
  "handleIndex A req st r =
     (if r_method req \<noteq> ''GET'' then (http_Error 405 ''method not allowed'', st, r)
      else case a_index A of
          None \<Rightarrow> (http_Error 500 ''internal error'', st, r)
        | Some html \<Rightarrow> (([], Response 200 (JString html)), st, r))"

section \<open>handlers\_api.go\<close>

definition handleAPIKeys :: page where
  "handleAPIKeys req st r =
     (if r_method req \<noteq> ''GET'' then (http_Error 405 ''method not allowed'', st, r) else handleListKeys req st r)"

text \<open>The request is sent on with its own headers, so with the console's credential. A body that
  cannot be read stays as it is.\<close>

definition proxyAPI ::
  "('k, 'p) env \<Rightarrow> CORSConfig \<Rightarrow> string \<Rightarrow> Registry option \<Rightarrow> string \<Rightarrow> page" where
  "proxyAPI E cors runtime reg targetPath req st r =
     (case st of (c, lm, R) \<Rightarrow>
        if \<not> c_apiHandler c
        then (([], Response 200 (JObj [(''error'', JString ''API handler not configured''), (''ok'', JBool False)])), st, r)
        else (case ServeHTTP E cors runtime reg (req\<lparr>r_path := targetPath, r_method := ''POST''\<rparr>) (lm, R) r of
                (out, (lm1, R1), r1) \<Rightarrow> (out, (c, lm1, R1), r1)))"

definition handleAPIEncrypt :: "('k, 'p) env \<Rightarrow> CORSConfig \<Rightarrow> string \<Rightarrow> Registry option \<Rightarrow> page" where
  "handleAPIEncrypt E cors runtime reg = proxyAPI E cors runtime reg ''/api/v1/encrypt''"

definition handleAPIDecrypt :: "('k, 'p) env \<Rightarrow> CORSConfig \<Rightarrow> string \<Rightarrow> Registry option \<Rightarrow> page" where
  "handleAPIDecrypt E cors runtime reg = proxyAPI E cors runtime reg ''/api/v1/decrypt''"

definition handleAPIAudit :: page where
  "handleAPIAudit req st r =
     (([], Response 200 (JObj [(''data'', JObj [(''count'', JInt 0), (''entries'', JArr [])]), (''ok'', JBool True)])), st, r)"

definition handleAPIDashboard :: page where
  "handleAPIDashboard req st r =
     (if r_method req \<noteq> ''GET'' then (http_Error 405 ''method not allowed'', st, r)
      else
        let (keyCount, st1) = (if c_manager (fst st) \<and> \<not> u_IsSealed (site_seal st)
              then (case list_names st of (Inl _, st1) \<Rightarrow> (0, st1) | (Inr ids, st1) \<Rightarrow> (int (length ids), st1)) else (0, st))
        in (([], Response 200 (JObj [(''data'', JObj [(''key_count'', JInt keyCount), (''sealed'', JBool (u_IsSealed (site_seal st1))),
              (''state'', JString (State_String (u_State (site_seal st1))))]), (''ok'', JBool True)])), st1, r))"

section \<open>server.go: routes\<close>

definition console_routes :: "admin_env \<Rightarrow> ('k, 'p) env \<Rightarrow> CORSConfig \<Rightarrow> string \<Rightarrow> Registry option \<Rightarrow> (string \<times> page) list" where
  "console_routes A E cors runtime reg =
     [(''/admin/api/seal-status'', handleSealStatus),
      (''/admin/api/keys'', requireAdminToken handleAPIKeys),
      (''/admin/api/crypto/encrypt'', requireAdminToken (handleAPIEncrypt E cors runtime reg)),
      (''/admin/api/crypto/decrypt'', requireAdminToken (handleAPIDecrypt E cors runtime reg)),
      (''/admin/api/audit'', requireAdminToken handleAPIAudit),
      (''/admin/api/dashboard'', requireAdminToken handleAPIDashboard),
      (''/admin/api/seal'', requireAdminToken handleSeal),
      (''/admin/api/unseal'', requireAdminToken (handleUnseal A))]"

definition console_mux :: "admin_env \<Rightarrow> ('k, 'p) env \<Rightarrow> CORSConfig \<Rightarrow> string \<Rightarrow> Registry option \<Rightarrow> page" where
  "console_mux A E cors runtime reg req st r =
     (case map_of (console_routes A E cors runtime reg) (r_path req) of
        Some h \<Rightarrow> h req st r
      | None \<Rightarrow>
          if has_prefix (r_path req) ''/static/'' then (([], a_static A req), st, r) else handleIndex A req st r)"

definition security_headers :: headers where
  "security_headers =
     [(''X-Content-Type-Options'', ''nosniff''), (''X-Frame-Options'', ''DENY''), (''Referrer-Policy'', ''no-referrer''),
      (''Content-Security-Policy'',
       ''default-src 'self'; script-src 'self'; style-src 'self' 'unsafe-inline'; img-src 'self' data:; connect-src 'self'' @ [CHR 0x27])]"

definition console_ServeHTTP :: "admin_env \<Rightarrow> ('k, 'p) env \<Rightarrow> CORSConfig \<Rightarrow> string \<Rightarrow> Registry option \<Rightarrow> page" where
  "console_ServeHTTP A E cors runtime reg req st r =
     (if c_adminToken (fst st) \<noteq> '''' \<and> \<not> console_authenticate A (fst st) req
      then ((security_headers @ [(''WWW-Authenticate'', ''Basic realm=\"Yvonne Admin\"'')], snd (http_Error 401 ''unauthorized'')), st, r)
      else case console_mux A E cors runtime reg req st r of ((hs, resp), st1, r1) \<Rightarrow> ((security_headers @ hs, resp), st1, r1))"

section \<open>Credentials\<close>

lemma bearer_iff: "length auth > 7 \<and> take 7 auth = ''Bearer '' \<and> drop 7 auth = tok \<longleftrightarrow> auth = ''Bearer '' @ tok \<and> tok \<noteq> []"
proof
  assume a: "length auth > 7 \<and> take 7 auth = ''Bearer '' \<and> drop 7 auth = tok"
  then have "auth = ''Bearer '' @ tok" by (metis append_take_drop_id)
  with a show "auth = ''Bearer '' @ tok \<and> tok \<noteq> []" by auto
qed auto

lemma requireAdminToken_cases:
  "requireAdminToken h req st r =
     (if c_adminToken (fst st) = '''' \<or> r_header req ''Authorization'' = ''Bearer '' @ c_adminToken (fst st)
      then h req st r else (http_Error 401 ''unauthorized'', st, r))"
  using bearer_iff [of "r_header req ''Authorization''" "c_adminToken (fst st)"]
  by (auto simp: requireAdminToken_def Let_def not_less)

lemma BasicAuth_bearer: "r_header req ''Authorization'' = ''Bearer '' @ tok \<Longrightarrow> BasicAuth A req = None"
  by (simp add: BasicAuth_def fold_byte_def code_def)

lemma authenticate_bearer:
  "r_header req ''Authorization'' = ''Bearer '' @ c_adminToken c \<Longrightarrow> c_adminToken c \<noteq> '''' \<Longrightarrow> console_authenticate A c req"
  by (simp add: console_authenticate_def BasicAuth_bearer)

text \<open>The pages behind the credential, and the four answers that need none of their own.\<close>

lemma console_mux_cases:
  "console_mux A E cors runtime reg req st r =
     (if r_path req = ''/admin/api/seal-status'' then handleSealStatus req st r
      else case map_of (tl (console_routes A E cors runtime reg)) (r_path req) of
          Some h \<Rightarrow> h req st r
        | None \<Rightarrow> if has_prefix (r_path req) ''/static/'' then (([], a_static A req), st, r) else handleIndex A req st r)"
  by (simp add: console_mux_def console_routes_def)

lemma guarded_routes:
  "map_of (tl (console_routes A E cors runtime reg)) path = Some h \<Longrightarrow> \<exists>page. h = requireAdminToken page"
  by (auto simp: console_routes_def split: if_splits)

lemma open_pages:
  "handleSealStatus req st r = (out, st', r') \<Longrightarrow> st' = st \<and> r' = r"
  "handleIndex A req st r = (out, st', r') \<Longrightarrow> st' = st \<and> r' = r"
  by (auto simp: handleSealStatus_def handleIndex_def Let_def split: if_splits option.splits)

text \<open>
  Property C18. The console guards its operations: with an admin token set, a request with neither the
  token as bearer token nor as password of the basic scheme is answered 401, page or not; and
  whatever its credential, only a request whose bearer token is the admin token changes the console,
  the vault, the keys or the limiter, or draws a random byte.
\<close>

theorem console_guarded:
  assumes "c_adminToken (fst st) \<noteq> ''''" "console_ServeHTTP A E cors runtime reg req st r = ((hs, resp), st', r')"
  shows "(\<not> console_authenticate A (fst st) req \<longrightarrow> resp = Response 401 (JString ''unauthorized'') \<and> st' = st \<and> r' = r)
    \<and> (r_header req ''Authorization'' \<noteq> ''Bearer '' @ c_adminToken (fst st) \<longrightarrow> st' = st \<and> r' = r)"
proof -
  have "st1 = st \<and> r1 = r" if "console_mux A E cors runtime reg req st r = (out, st1, r1)"
    "r_header req ''Authorization'' \<noteq> ''Bearer '' @ c_adminToken (fst st)" for out st1 r1
    using that assms(1)
    by (auto simp: console_mux_cases requireAdminToken_cases http_Error_def split: if_splits option.splits
        dest!: guarded_routes open_pages)
  with assms show ?thesis
    by (auto simp: console_ServeHTTP_def http_Error_def split: if_splits prod.splits)
qed

definition token_console :: console where
  "token_console = SetConsoleToken ''adm1n'' (SetManager (NewConsole RouterSeal))"

definition toy_admin :: admin_env where
  "toy_admin = \<lparr>a_base64 = Some, a_static = (\<lambda>req. Response 200 JNull), a_index = Some ''<html>'', a_share = Some\<rparr>"

theorem console_guarded_witness:
  "\<exists>hs resp. console_ServeHTTP toy_admin toy_env DefaultCORSConfig [] None (toy_request ''POST'' ''/admin/api/seal'' ''guess'')
     (token_console, None, toy_router toy_m1 toy_policy) zero_source =
     ((hs, resp), (token_console, None, toy_router toy_m1 toy_policy), zero_source) \<and> resp = Response 401 (JString ''unauthorized'')"
proof -
  let ?req = "toy_request ''POST'' ''/admin/api/seal'' ''guess''" and ?st = "(token_console, None, toy_router toy_m1 toy_policy)"
  obtain hs resp st' r' where s: "console_ServeHTTP toy_admin toy_env DefaultCORSConfig [] None ?req ?st zero_source = ((hs, resp), st', r')"
    by (metis prod.exhaust)
  have hdr: "r_header ?req ''Authorization'' = ''Bearer '' @ ''guess''" by (simp add: toy_request_def)
  have "\<not> console_authenticate toy_admin (fst ?st) ?req"
    using BasicAuth_bearer [OF hdr] hdr by (simp add: console_authenticate_def token_console_def SetConsoleToken_def)
  moreover have "c_adminToken (fst ?st) \<noteq> ''''" by (simp add: token_console_def SetConsoleToken_def)
  ultimately show ?thesis using console_guarded [OF _ s] s by auto
qed

text \<open>A browser that logged in with the basic scheme gets the pages and the seal status, but every
  operation behind them answers 401, because the second check takes bearer tokens only.\<close>

theorem basic_login_refused:
  assumes "BasicAuth A req = Some (user, c_adminToken (fst st))" "c_adminToken (fst st) \<noteq> ''''"
    and "map_of (tl (console_routes A E cors runtime reg)) (r_path req) = Some h0"
  shows "console_ServeHTTP A E cors runtime reg req st r =
      ((security_headers, Response 401 (JString ''unauthorized'')), st, r)"
    and "r_method req = ''GET'' \<Longrightarrow> \<exists>j. console_ServeHTTP A E cors runtime reg (req\<lparr>r_path := ''/admin/api/seal-status''\<rparr>) st r =
      ((security_headers, Response 200 j), st, r)"
proof -
  have hdr: "r_header req ''Authorization'' \<noteq> ''Bearer '' @ c_adminToken (fst st)" using BasicAuth_bearer assms(1) by fastforce
  have auth: "console_authenticate A (fst st) (req\<lparr>r_path := p\<rparr>)" for p
    using assms(1) by (simp add: console_authenticate_def BasicAuth_def)
  from guarded_routes [OF assms(3)] obtain h where h: "h0 = requireAdminToken h" by blast
  have path: "r_path req \<noteq> ''/admin/api/seal-status''" using assms(3) by (auto simp: console_routes_def)
  have "console_authenticate A (fst st) req" using auth [of "r_path req"] by simp
  with h hdr assms path show "console_ServeHTTP A E cors runtime reg req st r =
      ((security_headers, Response 401 (JString ''unauthorized'')), st, r)"
    by (simp add: console_ServeHTTP_def console_mux_cases requireAdminToken_cases http_Error_def)
  show "\<exists>j. console_ServeHTTP A E cors runtime reg (req\<lparr>r_path := ''/admin/api/seal-status''\<rparr>) st r =
      ((security_headers, Response 200 j), st, r)" if "r_method req = ''GET''"
    using that auth by (simp add: console_ServeHTTP_def console_mux_cases handleSealStatus_def Let_def)
qed

section \<open>The key ceremony\<close>

text \<open>A custodian's request, and a run of requests through the console.\<close>

definition submits :: "admin_env \<Rightarrow> string \<Rightarrow> bytes \<Rightarrow> request \<Rightarrow> bool" where
  "submits A tok share req \<longleftrightarrow> r_method req = ''POST'' \<and> r_path req = ''/admin/api/unseal'' \<and>
     r_header req ''Authorization'' = ''Bearer '' @ tok \<and> (\<exists>b. r_body req = Some b \<and> a_share A b = Some share)"

fun console_run ::
  "admin_env \<Rightarrow> ('k, 'p) env \<Rightarrow> CORSConfig \<Rightarrow> string \<Rightarrow> Registry option \<Rightarrow> request list \<Rightarrow> site \<Rightarrow> csprng \<Rightarrow>
   response list \<times> site \<times> csprng" where
  "console_run A E cors runtime reg [] st r = ([], st, r)"
| "console_run A E cors runtime reg (req # reqs) st r =
     (case console_ServeHTTP A E cors runtime reg req st r of
        ((hs, resp), st1, r1) \<Rightarrow>
          (case console_run A E cors runtime reg reqs st1 r1 of (resps, st2, r2) \<Rightarrow> (resp # resps, st2, r2)))"

fun share_answer :: "bool \<times> err option \<Rightarrow> response" where
  "share_answer (unsealed, None) = Response 200 (JObj [(''unsealed'', JBool unsealed)])"
| "share_answer (unsealed, Some e) = Response 400 (JObj [(''error'', JString (error_text e)), (''unsealed'', JBool unsealed)])"

definition with_vault :: "Manager VaultState \<Rightarrow> V1Router \<Rightarrow> V1Router" where
  "with_vault v R = R\<lparr>core := (core R)\<lparr>vault_seal := SealVault v\<rparr>\<rparr>"

lemma with_vault_simps [simp]:
  "r_seal (with_vault v R) = SealVault v" "r_manager (with_vault v R) = r_manager R" "with_vault v (with_vault u R) = with_vault v R"
  by (simp_all add: with_vault_def)

lemma console_share:
  assumes "submits A (c_adminToken c) share req" "c_seal c = RouterSeal" "ProvideShare share v = (a, v')"
  shows "console_ServeHTTP A E cors runtime reg req (c, lm, with_vault v R) r =
    ((security_headers, share_answer a), (c, lm, with_vault v' R), r)"
proof -
  from assms(1) obtain b where req: "r_method req = ''POST''" "r_path req = ''/admin/api/unseal''"
    "r_header req ''Authorization'' = ''Bearer '' @ c_adminToken c" "r_body req = Some b" "a_share A b = Some share"
    by (auto simp: submits_def)
  obtain unsealed e where a: "a = (unsealed, e)" by fastforce
  have "handleUnseal A req (c, lm, with_vault v R) r = (([], share_answer a), (c, lm, with_vault v' R), r)"
    using req assms(2,3) a by (cases e) (simp_all add: handleUnseal_def with_vault_def)
  with req authenticate_bearer [of req c A] show ?thesis
    by (auto simp: console_ServeHTTP_def console_mux_def console_routes_def requireAdminToken_cases)
qed

text \<open>The console simulates the vault: a run of such requests is the run of their shares.\<close>

lemma console_run_shares:
  assumes "list_all2 (submits A (c_adminToken c)) shares reqs" "c_seal c = RouterSeal"
  shows "console_run A E cors runtime reg reqs (c, lm, with_vault v R) r =
    (map share_answer (fst (ProvideShares shares v)), (c, lm, with_vault (snd (ProvideShares shares v)) R), r)"
  using assms(1)
proof (induction shares reqs arbitrary: v rule: list_all2_induct)
  case (Cons share shares req reqs)
  obtain a v1 where p: "ProvideShare share v = (a, v1)" by fastforce
  with Cons.IH show ?case by (simp add: console_share [OF Cons(1) assms(2) p] split_beta)
qed simp

lemma cluster_parts:
  assumes "BuildYvonne B (Some cfg) r = (Built s, r')" "Mode cfg = ModeCluster"
  obtains log pg0 q1 u as pg au q2 where "build_unsealer B cfg pg0 q1 = (Built (u, as, pg), q2)"
    "cluster_server B cfg log u as pg au = Built s"
proof -
  have "ModeCluster \<noteq> ModeDev" by (simp add: ModeDev_def ModeCluster_def)
  with assms obtain log q1 q2 where "buildClusterMode B cfg log q1 = (Built s, q2)"
    by (auto simp: BuildYvonne_def split: prod.splits built.splits)
  then show thesis by (rule buildClusterMode_Built) (rule that)
qed

lemma awaiting_new:
  "setVaultCryptoSuite g cfg (NewVaultState tot thr after) = Built v \<Longrightarrow> awaiting (threshold v) [] (v\<lparr>onEmergencySeal := f\<rparr>)"
  by (auto simp: setVaultCryptoSuite_def NewVaultState_def awaiting_def shares_inv_def pooled_def split: if_splits)

lemma shamir_unsealer:
  assumes "unseal_Type (Unseal cfg) = ''shamir''" "build_unsealer B cfg pg r = (Built (u, as, pg'), r')"
  obtains v where "u = SealVault v" "as = u" "awaiting (threshold v) [] v"
proof -
  from assms obtain v where v: "u = SealVault (v\<lparr>onEmergencySeal := Some ClearCache\<rparr>)" "as = u"
    "\<exists>tot thr. setVaultCryptoSuite (gmsm_tag B) cfg (NewVaultState tot thr (30 * minute)) = Built v"
    by (auto simp: build_unsealer_def Let_def split: built.splits)
  with awaiting_new show thesis by (intro that [of "v\<lparr>onEmergencySeal := Some ClearCache\<rparr>"]) auto
qed

lemma built_vault:
  assumes "BuildYvonne B (Some cfg) r = (Built s, r')" "Mode cfg = ModeCluster" "unseal_Type (Unseal cfg) = ''shamir''"
    and "AdminServer_of s = Some a"
  obtains v where "V1Router_of s now = with_vault v (V1Router_of s now)" "console_of a (V1Router_of s now) = SetAPIHandler (SetManager (SetConsoleToken (a_adminToken a) (NewConsole RouterSeal)))"
    "VaultState_of s = SealVault v" "awaiting (threshold v) [] v"
proof -
  obtain log pg0 q1 u as pg au q2 where parts: "build_unsealer B cfg pg0 q1 = (Built (u, as, pg), q2)"
    "cluster_server B cfg log u as pg au = Built s" using cluster_parts [OF assms(1,2)] .
  obtain v where v: "u = SealVault v" "as = u" "awaiting (threshold v) [] v" using shamir_unsealer [OF assms(3) parts(1)] .
  have admin: "a_seal a = u"
    using parts(2) assms(4) v(2) by (auto simp: cluster_server_def buildAdminServer_def Let_def split: if_splits option.splits built.splits)
  have seal: "r_seal (V1Router_of s now) = SealVault v"
    using v(1) by (simp add: cluster_server_Built(1) [OF parts(2)] NewV1Router_def NewCore_def)
  show thesis
  proof (rule that)
    show "V1Router_of s now = with_vault v (V1Router_of s now)"
      using seal by (simp add: with_vault_def)
    show "console_of a (V1Router_of s now) = SetAPIHandler (SetManager (SetConsoleToken (a_adminToken a) (NewConsole RouterSeal)))"
      using seal admin v(1) by (simp add: console_of_def)
    show "VaultState_of s = SealVault v" "awaiting (threshold v) [] v"
      using v cluster_server_Built(2) [OF parts(2)] by auto
  qed
qed

text \<open>
  Property C17. The key ceremony of a freshly assembled cluster server, from the split to the open
  vault: when the custodians submit as many distinct shares of a key split with the server's numbers
  as its threshold asks for, in any order, through the console with its token, every answer but the
  last says "not yet", the last one "unsealed", and then the vault that the API, the rotation daemon
  and gRPC use is unsealed with exactly the key that was split; no key was touched.
\<close>

theorem key_ceremony:
  assumes "BuildYvonne B (Some cfg) r = (Built s, r')" "Mode cfg = ModeCluster" "unseal_Type (Unseal cfg) = ''shamir''"
    and "AdminServer_of s = Some a" "VaultState_of s = SealVault v"
    and "Split (Some sb) (total v) (threshold v) rs = (Inr shares, rs')"
    and "distinct ks" "set ks \<subseteq> {..<nat (total v)}" "int (length ks) = threshold v"
    and "list_all2 (submits A (a_adminToken a)) (map ((!) shares) ks) reqs"
    and "console_run A E cors runtime reg reqs (console_of a (V1Router_of s now), lm, V1Router_of s now) r1 = (answers, (c', lm', R'), r2)"
  shows "answers = replicate (length ks - 1) (Response 200 (JObj [(''unsealed'', JBool False)])) @ [Response 200 (JObj [(''unsealed'', JBool True)])]
    \<and> (\<exists>v'. r_seal R' = SealVault v' \<and> IsUnsealed v' \<and> MasterKeyRef v' Inr = Inr sb \<and> collectedShares v' = [])
    \<and> r_manager R' = r_manager (V1Router_of s now) \<and> lm' = lm \<and> r2 = r1"
proof -
  let ?R = "V1Router_of s now"
  from built_vault [OF assms(1-4), of now] assms(5) have b: "?R = with_vault v ?R" "awaiting (threshold v) [] v"
    "console_of a ?R = SetAPIHandler (SetManager (SetConsoleToken (a_adminToken a) (NewConsole RouterSeal)))"
    by auto
  have thr: "2 \<le> threshold v" and len: "length shares = nat (total v)" and ne: "\<forall>s\<in>set shares. s \<noteq> []"
    using Split_shape [OF assms(6)] by auto
  have comb: "CombineWithThreshold ([] @ map ((!) shares) ks) (threshold v) = Inr sb"
    using Combine_Split [OF assms(6-8)] assms(9) by (simp add: CombineWithThreshold_def)
  have "ks \<noteq> []" "\<forall>s\<in>set (map ((!) shares) ks). s \<noteq> []"
    using thr assms(8,9) ne len by (auto simp: subset_iff)
  with ProvideShares_all [OF b(2), of "map ((!) shares) ks" sb] comb assms(9)
  have run: "fst (ProvideShares (map ((!) shares) ks) v) = replicate (length ks - 1) (False, None) @ [(True, None)]"
    "IsUnsealed (snd (ProvideShares (map ((!) shares) ks) v))" "MasterKeyRef (snd (ProvideShares (map ((!) shares) ks) v)) Inr = Inr sb"
    "collectedShares (snd (ProvideShares (map ((!) shares) ks) v)) = []" by auto
  have c: "c_adminToken (console_of a ?R) = a_adminToken a" "c_seal (console_of a ?R) = RouterSeal"
    using b(3) by (simp_all add: SetAPIHandler_def SetManager_def SetConsoleToken_def NewConsole_def)
  from console_run_shares [OF assms(10) [folded c(1)] c(2), of E cors runtime reg lm v ?R r1, folded b(1)] assms(11) run
  show ?thesis by (auto simp: map_replicate)
qed

lemma example_vault:
  assumes "BuildYvonne toy_boot (Some (cluster_example\<lparr>Server := sc\<rparr>)) r = (Built s, r')" "VaultState_of s = SealVault v"
  shows "total v = 5 \<and> threshold v = 3"
proof -
  let ?cfg = "cluster_example\<lparr>Server := sc\<rparr>"
  obtain log pg0 q1 u as pg au q2 where parts: "build_unsealer toy_boot ?cfg pg0 q1 = (Built (u, as, pg), q2)"
    "cluster_server toy_boot ?cfg log u as pg au = Built s" using cluster_parts [OF assms(1) cluster_example_fields(1)] .
  have "unseal_TotalShares (Unseal ?cfg) = 5" "unseal_Threshold (Unseal ?cfg) = 3" "unseal_Type (Unseal ?cfg) = ''shamir''"
    by (simp_all add: cluster_example_def)
  with build_unsealer_shamir [OF _ parts(1)] cluster_server_Built(2) [OF parts(2)] assms(2) show ?thesis by auto
qed

definition share_request :: "bytes \<Rightarrow> request" where
  "share_request share = (toy_request ''POST'' ''/admin/api/unseal'' '''')\<lparr>r_body := Some share\<rparr>"

theorem key_ceremony_witness:
  "\<exists>s r' a shares rs' answers c' lm' R' r2. BuildYvonne toy_boot (Some (cluster_example\<lparr>Server := Server cluster_example\<rparr>)) zero_source = (Built s, r') \<and>
     witness_split = (Inr shares, rs') \<and>
     console_run toy_admin toy_env DefaultCORSConfig [] None (map (share_request \<circ> (!) shares) [4, 0, 2])
       (console_of a (V1Router_of s 7), None, V1Router_of s 7) zero_source = (answers, (c', lm', R'), r2) \<and>
     last answers = Response 200 (JObj [(''unsealed'', JBool True)]) \<and> \<not> u_IsSealed (r_seal R')"
proof -
  let ?cfg = "cluster_example\<lparr>Server := Server cluster_example\<rparr>" and ?ks = "[4, 0, 2::nat]"
  obtain shares rs' where split: "witness_split = (Inr shares, rs')" using witness_split_ok by blast
  obtain log u as pg au r' where b: "BuildYvonne toy_boot (Some ?cfg) zero_source = (cluster_server toy_boot ?cfg log u as pg au, r')"
    using toy_build by blast
  then obtain s where s: "BuildYvonne toy_boot (Some ?cfg) zero_source = (Built s, r')" using toy_server by fastforce
  have shamir: "unseal_Type (Unseal ?cfg) = ''shamir''" using cluster_example_fields(3) by simp
  have valid: "ValidateYvonneConfig ?cfg = None" by (rule valid_server)
  obtain a where a: "AdminServer_of s = Some a" "a_adminToken a = ''''"
    using s b by (auto simp: cluster_server_def buildAdminServer_def build_grpc_def mcp_of_def cluster_example_def yvonne_default_def
        zero_GRPC_def zero_MCP_def Let_def)
  obtain v where v: "VaultState_of s = SealVault v" using built_vault [OF s cluster_example_fields(1) shamir a(1)] by metis
  have numbers: "total v = 5 \<and> threshold v = 3" using example_vault [OF s v] .
  have sub: "list_all2 (submits toy_admin (a_adminToken a)) (map ((!) shares) ?ks) (map (share_request \<circ> (!) shares) ?ks)"
    using a(2) by (simp add: submits_def share_request_def toy_request_def toy_admin_def)
  obtain answers c' lm' R' r2 where run: "console_run toy_admin toy_env DefaultCORSConfig [] None (map (share_request \<circ> (!) shares) ?ks)
       (console_of a (V1Router_of s 7), None, V1Router_of s 7) zero_source = (answers, (c', lm', R'), r2)"
    by (metis prod_cases3 prod.exhaust)
  have sp: "Split (Some \<lparr>sb_data = [42, 7], destroyed = False\<rparr>) (total v) (threshold v) \<lparr>stream = \<lambda>i. Some (of_nat i), pos = 9\<rparr> = (Inr shares, rs')"
    using split numbers by (simp add: witness_split_def)
  have ks: "distinct ?ks" "set ?ks \<subseteq> {..<nat (total v)}" "int (length ?ks) = threshold v" using numbers by auto
  from key_ceremony [OF s cluster_example_fields(1) shamir a(1) v sp ks sub run]
  have "last answers = Response 200 (JObj [(''unsealed'', JBool True)])" "\<not> u_IsSealed (r_seal R')"
    by (auto simp: IsUnsealed_def IsSealed_def)
  with s split run show ?thesis by blast
qed

section \<open>What does not work\<close>

text \<open>The console's tests of encryption and decryption never work in a cluster: they send the admin
  token on to the API, which authenticates roles.\<close>

theorem console_proxy_refused:
  assumes "c_apiHandler c" "c_adminToken c \<noteq> ''''" "r_header req ''Authorization'' = ''Bearer '' @ c_adminToken c"
    and "r_path req \<in> {''/admin/api/crypto/encrypt'', ''/admin/api/crypto/decrypt''}"
    and "authenticator R = Some run" "no_token (e_unicode E) run req"
    and "console_ServeHTTP A E cors runtime reg req (c, lm, R) r = ((hs, resp), (c', lm', R'), r')"
  shows "400 \<le> response_status resp \<and> only_logged R R'"
proof -
  define target where "target = (if r_path req = ''/admin/api/crypto/encrypt'' then ''/api/v1/encrypt'' else ''/api/v1/decrypt'')"
  let ?req = "req\<lparr>r_path := target, r_method := ''POST''\<rparr>"
  have proxy: "\<exists>hs. proxyAPI E cors runtime reg target req (c, lm, R) r = ((hs, resp), (c', lm', R'), r')"
    using assms(1-4,7) authenticate_bearer [OF assms(3,2)]
    by (auto simp: target_def console_ServeHTTP_def console_mux_def console_routes_def requireAdminToken_cases handleAPIEncrypt_def
        handleAPIDecrypt_def split: prod.splits)
  have tok: "no_token (e_unicode E) run (limit_body ?req)" using assms(6) by (simp add: no_token_def limit_body_def)
  have ref: "400 \<le> response_status resp1 \<and> only_logged R R1" if "mux E (limit_body ?req) R r = (resp1, R1, r1)" for resp1 R1 r1
    using that audit_refuses [OF authAndSeal_refuses [OF tok assms(5)]]
    by (auto simp: target_def mux_def routes_def limit_body_def Let_def split: if_splits)
  have path: "r_path (limit_body ?req) \<noteq> ''/metrics''" by (simp add: target_def limit_body_def)
  from proxy ref path assms(1) only_logged_refl [of R] show ?thesis
    by (auto simp: proxyAPI_def ServeHTTP_def edge_mux_def too_many_def response_status_def writeJSONError_def Let_def
        split: prod.splits bool.splits option.splits)
qed

text \<open>With an HSM the console is given a vault that nothing uses. Sealing through the console answers
  that the vault is sealed and leaves the HSM session open; the list of keys is refused because that
  other vault is sealed from the start.\<close>

lemma hsm_parts:
  assumes "unseal_Type (Unseal cfg) = ''hsm''" "build_unsealer B cfg pg r = (Built (u, as, pg'), r')"
  obtains b v where "u = SealHSM (NewHSMUnsealer b)" "as = SealVault v" "IsSealed v"
  using assms
  by (auto simp: build_unsealer_def setVaultCryptoSuite_def NewVaultState_def IsSealed_def Let_def
      split: built.splits if_splits prod.splits sum.splits)

theorem console_wrong_vault:
  assumes "BuildYvonne B (Some cfg) r = (Built s, r')" "Mode cfg = ModeCluster" "unseal_Type (Unseal cfg) = ''hsm''"
    and "AdminServer_of s = Some a" "r_header req ''Authorization'' = ''Bearer '' @ a_adminToken a"
  shows "r_method req = ''POST'' \<Longrightarrow> r_path req = ''/admin/api/seal'' \<Longrightarrow>
      \<exists>c'. console_ServeHTTP A E cors runtime reg req (console_of a (V1Router_of s now), lm, V1Router_of s now) r1 =
        ((security_headers, Response 200 (JObj [(''sealed'', JBool True)])), (c', lm, V1Router_of s now), r1) \<and>
        \<not> u_IsSealed (r_seal (V1Router_of s now))"
    and "r_method req = ''GET'' \<Longrightarrow> r_path req = ''/admin/api/keys'' \<Longrightarrow>
      console_ServeHTTP A E cors runtime reg req (console_of a (V1Router_of s now), lm, V1Router_of s now) r1 =
        ((security_headers, writeJSONError 503 ''vault is sealed''), (console_of a (V1Router_of s now), lm, V1Router_of s now), r1)"
proof -
  obtain log pg0 q1 u as pg au q2 where parts: "build_unsealer B cfg pg0 q1 = (Built (u, as, pg), q2)"
    "cluster_server B cfg log u as pg au = Built s" using cluster_parts [OF assms(1,2)] .
  obtain b v where v: "u = SealHSM (NewHSMUnsealer b)" "as = SealVault v" "IsSealed v" using hsm_parts [OF assms(3) parts(1)] .
  have admin: "a_seal a = SealVault v"
    using parts(2) assms(4) v(2) by (auto simp: cluster_server_def buildAdminServer_def Let_def split: if_splits option.splits built.splits)
  have seal: "r_seal (V1Router_of s now) = SealHSM (NewHSMUnsealer b)"
    using v(1) by (simp add: cluster_server_Built(1) [OF parts(2)] NewV1Router_def NewCore_def)
  let ?c = "console_of a (V1Router_of s now)"
  have c: "c_adminToken ?c = a_adminToken a" "c_seal ?c = OwnSeal (SealVault v)" "c_manager ?c"
    using seal admin by (simp_all add: console_of_def SetAPIHandler_def SetManager_def SetConsoleToken_def NewConsole_def)
  have auth: "a_adminToken a = '''' \<or> console_authenticate A ?c req" using authenticate_bearer [of req ?c A] assms(5) c(1) by auto
  show "\<exists>c'. console_ServeHTTP A E cors runtime reg req (?c, lm, V1Router_of s now) r1 =
        ((security_headers, Response 200 (JObj [(''sealed'', JBool True)])), (c', lm, V1Router_of s now), r1) \<and>
        \<not> u_IsSealed (r_seal (V1Router_of s now))" if "r_method req = ''POST''" "r_path req = ''/admin/api/seal''"
    using that auth c seal assms(5)
    by (auto simp: console_ServeHTTP_def console_mux_def console_routes_def requireAdminToken_cases handleSeal_def NewHSMUnsealer_def hsm_IsSealed_def)
  show "console_ServeHTTP A E cors runtime reg req (?c, lm, V1Router_of s now) r1 =
        ((security_headers, writeJSONError 503 ''vault is sealed''), (?c, lm, V1Router_of s now), r1)"
    if "r_method req = ''GET''" "r_path req = ''/admin/api/keys''"
    using that auth c v(3) assms(5)
    by (auto simp: console_ServeHTTP_def console_mux_def console_routes_def requireAdminToken_cases handleAPIKeys_def handleListKeys_def)
qed

end
