(* ===== verification/Sm2.thy ===== *)
theory Sm2
  imports ApiProps
begin

text \<open>
  The keys of the national suite, compiled in with the tag \<^verbatim>\<open>gmsm\<close>: \<^verbatim>\<open>sm2.go\<close>,
  \<^verbatim>\<open>sm2_pem.go\<close> and \<^verbatim>\<open>sm2_asymmetric.go\<close> of \<^verbatim>\<open>internal/crypto\<close>,
  \<^verbatim>\<open>core_v12_sm2.go\<close> of \<^verbatim>\<open>internal/service\<close> and the signing method of
  \<^verbatim>\<open>internal/auth/jwt_sm2.go\<close>. They are what the theories \<open>Lifecycle\<close> and \<open>Service\<close> take as
  parameters for keys of the type \<^verbatim>\<open>sm2\<close>. The SM2 library is the parameter \<open>sm2_lib\<close> over
  abstract keys; \<open>sm2_ok\<close> states what is relied on. A nil key is \<open>None\<close>.
\<close>

record ('k, 'p) sm2_lib =
  sm2_GenerateKey :: "csprng \<Rightarrow> 'k res \<times> csprng"
  sm2_Public :: "'k \<Rightarrow> 'p"
  EncryptAsn1 :: "'p \<Rightarrow> bytes \<Rightarrow> csprng \<Rightarrow> bytes res \<times> csprng"
  DecryptAsn1 :: "'k \<Rightarrow> bytes \<Rightarrow> bytes res"
  lib_Sm2Sign :: "'k \<Rightarrow> bytes \<Rightarrow> bytes \<Rightarrow> csprng \<Rightarrow> (int \<times> int) res \<times> csprng"
  lib_Sm2Verify :: "'p \<Rightarrow> bytes \<Rightarrow> bytes \<Rightarrow> int \<Rightarrow> int \<Rightarrow> bool"
  SignDigitToSignData :: "int \<Rightarrow> int \<Rightarrow> bytes res"
  SignDataToSignDigit :: "bytes \<Rightarrow> (int \<times> int) res"
  MarshalSm2PublicKey :: "'p \<Rightarrow> bytes res"
  ParseSm2PublicKey :: "bytes \<Rightarrow> 'p res"
  MarshalSm2PrivateKey :: "'k \<Rightarrow> bytes res"
  ParseSm2PrivateKey :: "bytes \<Rightarrow> 'k res"
  pub_on_curve :: "'p \<Rightarrow> bool"
  priv_on_curve :: "'k \<Rightarrow> bool"
  sm2_pem_Encode :: "string \<Rightarrow> bytes \<Rightarrow> bytes"
  sm2_pem_Decode :: "bytes \<Rightarrow> (string \<times> bytes \<times> bytes) option"

section \<open>sm2\_pem.go\<close>

definition marshalSMPublicKeyPEM :: "('k, 'p) sm2_lib \<Rightarrow> 'p \<Rightarrow> bytes res" where
  "marshalSMPublicKeyPEM S pub =
     (case MarshalSm2PublicKey S pub of
        Inl e \<Rightarrow> Inl (Wrap ''marshal SM2 public key'' e)
      | Inr der \<Rightarrow> Inr (sm2_pem_Encode S ''PUBLIC KEY'' der))"

definition marshalSMPrivateKeyPEM :: "('k, 'p) sm2_lib \<Rightarrow> 'k \<Rightarrow> bytes res" where
  "marshalSMPrivateKeyPEM S priv =
     (case MarshalSm2PrivateKey S priv of
        Inl e \<Rightarrow> Inl (Wrap ''marshal SM2 private key'' e)
      | Inr der \<Rightarrow> Inr (sm2_pem_Encode S ''PRIVATE KEY'' der))"

definition parseSMPublicKeyPEM :: "('k, 'p) sm2_lib \<Rightarrow> bytes \<Rightarrow> 'p res" where
  "parseSMPublicKeyPEM S pemData =
     (if pemData = [] then Inl (Msg ''parse SM2 public key: empty PEM data'')
      else case sm2_pem_Decode S pemData of
          None \<Rightarrow> Inl (Msg ''parse SM2 public key: no PEM block found'')
        | Some (typ, body, rest) \<Rightarrow>
            if rest \<noteq> [] then Inl (Msg ''parse SM2 public key: trailing data after PEM block'')
            else if typ \<noteq> ''PUBLIC KEY'' then Inl (Msg ''parse SM2 public key: unexpected PEM type'')
            else (case ParseSm2PublicKey S body of
                Inl e \<Rightarrow> Inl (Wrap ''parse SM2 public key DER'' e)
              | Inr pub \<Rightarrow>
                  if \<not> pub_on_curve S pub then Inl (Msg ''parse SM2 public key: unexpected curve (possible algorithm confusion attack)'')
                  else Inr pub))"

definition parseSMPrivateKeyPEM :: "('k, 'p) sm2_lib \<Rightarrow> bytes \<Rightarrow> 'k res" where
  "parseSMPrivateKeyPEM S pemData =
     (if pemData = [] then Inl (Msg ''parse SM2 private key: empty PEM data'')
      else case sm2_pem_Decode S pemData of
          None \<Rightarrow> Inl (Msg ''parse SM2 private key: no PEM block found'')
        | Some (typ, body, rest) \<Rightarrow>
            if rest \<noteq> [] then Inl (Msg ''parse SM2 private key: trailing data after PEM block'')
            else if typ \<noteq> ''PRIVATE KEY'' then Inl (Msg ''parse SM2 private key: unexpected PEM type'')
            else (case ParseSm2PrivateKey S body of
                Inl e \<Rightarrow> Inl (Wrap ''parse SM2 private key (PKCS8)'' e)
              | Inr priv \<Rightarrow>
                  if \<not> priv_on_curve S priv then Inl (Msg ''parse SM2 private key: unexpected curve (possible algorithm confusion attack)'')
                  else Inr priv))"

section \<open>sm2.go\<close>

record 'p SM2PublicKey =
  pub_Key :: "'p option"
  pub_PEM :: bytes

definition GenerateSM2KeyPair :: "('k, 'p) sm2_lib \<Rightarrow> csprng \<Rightarrow> ('p SM2PublicKey \<times> 'k option) res \<times> csprng" where
  "GenerateSM2KeyPair S r =
     (case sm2_GenerateKey S r of
        (Inl e, r1) \<Rightarrow> (Inl (Wrap ''crypto: sm2 generate key'' e), r1)
      | (Inr priv, r1) \<Rightarrow>
          (case marshalSMPublicKeyPEM S (sm2_Public S priv) of
             Inl e \<Rightarrow> (Inl (Wrap ''crypto: sm2 public key to PEM'' e), r1)
           | Inr pubPEM \<Rightarrow> (Inr (\<lparr>pub_Key = Some (sm2_Public S priv), pub_PEM = pubPEM\<rparr>, Some priv), r1)))"

definition SM2Encrypt :: "('k, 'p) sm2_lib \<Rightarrow> 'p SM2PublicKey option \<Rightarrow> bytes \<Rightarrow> csprng \<Rightarrow> bytes res \<times> csprng" where
  "SM2Encrypt S pub plaintext r =
     (case Option.bind pub pub_Key of
        None \<Rightarrow> (Inl (Msg ''crypto: sm2 encrypt: nil public key''), r)
      | Some p \<Rightarrow> (case EncryptAsn1 S p plaintext r of (ct, r1) \<Rightarrow> (wrapR ''crypto: sm2 encrypt'' ct, r1)))"

definition SM2Decrypt :: "('k, 'p) sm2_lib \<Rightarrow> 'k option \<Rightarrow> bytes \<Rightarrow> bytes res" where
  "SM2Decrypt S priv ciphertext =
     (case priv of
        None \<Rightarrow> Inl (Msg ''crypto: sm2 decrypt: nil private key'')
      | Some k \<Rightarrow> wrapR ''crypto: sm2 decrypt'' (DecryptAsn1 S k ciphertext))"

text \<open>The identifier that signatures cover, a variable of the package.\<close>

definition default_sm2UID :: bytes where
  "default_sm2UID = [0x31, 0x32, 0x33, 0x34, 0x35, 0x36, 0x37, 0x38, 0x31, 0x32, 0x33, 0x34, 0x35, 0x36, 0x37, 0x38]"

definition SetSM2UID :: "bytes \<Rightarrow> bytes \<Rightarrow> bytes" where
  "SetSM2UID uid sm2UID = (if length uid > 0 then uid else sm2UID)"

definition SM2Sign :: "('k, 'p) sm2_lib \<Rightarrow> bytes \<Rightarrow> 'k option \<Rightarrow> bytes \<Rightarrow> csprng \<Rightarrow> bytes res \<times> csprng" where
  "SM2Sign S sm2UID priv msg r =
     (case priv of
        None \<Rightarrow> (Inl (Msg ''crypto: sm2 sign: nil private key''), r)
      | Some k \<Rightarrow>
          (case lib_Sm2Sign S k msg sm2UID r of
             (Inl e, r1) \<Rightarrow> (Inl (Wrap ''crypto: sm2 sign'' e), r1)
           | (Inr (a, b), r1) \<Rightarrow> (wrapR ''crypto: sm2 sign encode'' (SignDigitToSignData S a b), r1)))"

definition SM2Verify :: "('k, 'p) sm2_lib \<Rightarrow> bytes \<Rightarrow> 'p SM2PublicKey option \<Rightarrow> bytes \<Rightarrow> bytes \<Rightarrow> bool res" where
  "SM2Verify S sm2UID pub msg sig =
     (case Option.bind pub pub_Key of
        None \<Rightarrow> Inl (Msg ''crypto: sm2 verify: nil public key'')
      | Some p \<Rightarrow>
          (case SignDataToSignDigit S sig of
             Inl e \<Rightarrow> Inl (Wrap ''crypto: sm2 verify decode'' e)
           | Inr (a, b) \<Rightarrow> Inr (lib_Sm2Verify S p msg sm2UID a b)))"

definition SM2PrivateKeyToPEM :: "('k, 'p) sm2_lib \<Rightarrow> 'k option \<Rightarrow> bytes res" where
  "SM2PrivateKeyToPEM S priv =
     (case priv of None \<Rightarrow> Inl (Msg ''crypto: sm2 private key to PEM: nil key'') | Some k \<Rightarrow> marshalSMPrivateKeyPEM S k)"

definition SM2PrivateKeyFromPEM :: "('k, 'p) sm2_lib \<Rightarrow> bytes \<Rightarrow> 'k option res" where
  "SM2PrivateKeyFromPEM S pemData = (case parseSMPrivateKeyPEM S pemData of Inl e \<Rightarrow> Inl e | Inr priv \<Rightarrow> Inr (Some priv))"

definition SM2PublicKeyFromPEM :: "('k, 'p) sm2_lib \<Rightarrow> bytes \<Rightarrow> 'p SM2PublicKey res" where
  "SM2PublicKeyFromPEM S pemData =
     (case parseSMPublicKeyPEM S pemData of Inl e \<Rightarrow> Inl e | Inr pub \<Rightarrow> Inr \<lparr>pub_Key = Some pub, pub_PEM = pemData\<rparr>)"

section \<open>sm2\_asymmetric.go\<close>

text \<open>The private key is moved into a secure buffer; the manager puts these bytes into one again.\<close>

definition GenerateSM2AsymmetricKey :: "('k, 'p) sm2_lib \<Rightarrow> csprng \<Rightarrow> (bytes \<times> bytes) res \<times> csprng" where
  "GenerateSM2AsymmetricKey S r =
     (case GenerateSM2KeyPair S r of
        (Inl e, r1) \<Rightarrow> (Inl e, r1)
      | (Inr (pub, priv), r1) \<Rightarrow>
          (case SM2PrivateKeyToPEM S priv of
             Inl e \<Rightarrow> (Inl (Wrap ''crypto: sm2 private key to PEM'' e), r1)
           | Inr privPEM \<Rightarrow> (Inr (sb_data (fst (NewSecureBuffer privPEM)), pub_PEM pub), r1)))"

section \<open>core\_v12\_sm2.go\<close>

definition signSM2 :: "('k, 'p) sm2_lib \<Rightarrow> bytes \<Rightarrow> bytes \<Rightarrow> bytes \<Rightarrow> csprng \<Rightarrow> bytes res \<times> csprng" where
  "signSM2 S sm2UID privKeyPEM msg r =
     (case SM2PrivateKeyFromPEM S privKeyPEM of
        Inl e \<Rightarrow> (Inl (Wrap ''service: parse SM2 private key'' e), r)
      | Inr priv \<Rightarrow> (case SM2Sign S sm2UID priv msg r of (sig, r1) \<Rightarrow> (wrapR ''service: SM2 sign'' sig, r1)))"

definition verifySM2Key :: "('k, 'p) sm2_lib \<Rightarrow> bytes \<Rightarrow> bytes \<Rightarrow> bytes \<Rightarrow> bytes \<Rightarrow> bool res" where
  "verifySM2Key S sm2UID pubKeyPEM msg signature =
     (case SM2PublicKeyFromPEM S pubKeyPEM of
        Inl e \<Rightarrow> Inl (Wrap ''service: parse SM2 public key'' e)
      | Inr pub \<Rightarrow> wrapR ''service: SM2 verify'' (SM2Verify S sm2UID (Some pub) msg signature))"

section \<open>jwt\_sm2.go\<close>

text \<open>Keys arrive with a dynamic type; \<open>None\<close> is any other type. The identifier is fixed here.\<close>

definition jwt_SM2_Verify :: "('k, 'p) sm2_lib \<Rightarrow> bytes \<Rightarrow> bytes \<Rightarrow> 'p option \<Rightarrow> err option" where
  "jwt_SM2_Verify S signingString signature key =
     (case key of
        None \<Rightarrow> Some (Msg ''auth: SM2 verify: invalid key type'')
      | Some pub \<Rightarrow>
          (case SignDataToSignDigit S signature of
             Inl e \<Rightarrow> Some (Wrap ''auth: SM2 verify: decode signature'' e)
           | Inr (a, b) \<Rightarrow>
               if \<not> lib_Sm2Verify S pub signingString default_sm2UID a b then Some (Msg ''token signature is invalid'') else None))"

definition jwt_SM2_Sign :: "('k, 'p) sm2_lib \<Rightarrow> bytes \<Rightarrow> 'k option \<Rightarrow> csprng \<Rightarrow> bytes res \<times> csprng" where
  "jwt_SM2_Sign S signingString key r =
     (case key of
        None \<Rightarrow> (Inl (Msg ''auth: SM2 sign: invalid key type''), r)
      | Some priv \<Rightarrow>
          (case lib_Sm2Sign S priv signingString default_sm2UID r of
             (Inl e, r1) \<Rightarrow> (Inl (Wrap ''auth: SM2 sign'' e), r1)
           | (Inr (a, b), r1) \<Rightarrow> (wrapR ''auth: SM2 sign: encode'' (SignDigitToSignData S a b), r1)))"

section \<open>What is relied on\<close>

text \<open>Generated keys are on the curve, decryption inverts encryption, a signature verifies for the
  message and identifier it was made for, and encodings are read back.\<close>

definition sm2_ok :: "('k, 'p) sm2_lib \<Rightarrow> bool" where
  "sm2_ok S \<longleftrightarrow>
     (\<forall>r k r'. sm2_GenerateKey S r = (Inr k, r') \<longrightarrow> priv_on_curve S k \<and> pub_on_curve S (sm2_Public S k)) \<and>
     (\<forall>k m r ct r'. EncryptAsn1 S (sm2_Public S k) m r = (Inr ct, r') \<longrightarrow> DecryptAsn1 S k ct = Inr m) \<and>
     (\<forall>k m uid r a b r'. lib_Sm2Sign S k m uid r = (Inr (a, b), r') \<longrightarrow> lib_Sm2Verify S (sm2_Public S k) m uid a b) \<and>
     (\<forall>a b sig. SignDigitToSignData S a b = Inr sig \<longrightarrow> SignDataToSignDigit S sig = Inr (a, b)) \<and>
     (\<forall>p der. MarshalSm2PublicKey S p = Inr der \<longrightarrow> ParseSm2PublicKey S der = Inr p) \<and>
     (\<forall>k der. MarshalSm2PrivateKey S k = Inr der \<longrightarrow> ParseSm2PrivateKey S der = Inr k) \<and>
     (\<forall>t b. t = ''PUBLIC KEY'' \<or> t = ''PRIVATE KEY'' \<longrightarrow> sm2_pem_Encode S t b \<noteq> [] \<and> sm2_pem_Decode S (sm2_pem_Encode S t b) = Some (t, b, []))"

lemma sm2_okD:
  assumes "sm2_ok S"
  shows "sm2_GenerateKey S r = (Inr k, r') \<Longrightarrow> priv_on_curve S k \<and> pub_on_curve S (sm2_Public S k)"
    "EncryptAsn1 S (sm2_Public S k) m r = (Inr ct, r') \<Longrightarrow> DecryptAsn1 S k ct = Inr m"
    "lib_Sm2Sign S k m uid r = (Inr (a, b), r') \<Longrightarrow> lib_Sm2Verify S (sm2_Public S k) m uid a b"
    "SignDigitToSignData S a b = Inr sig \<Longrightarrow> SignDataToSignDigit S sig = Inr (a, b)"
    "MarshalSm2PublicKey S p = Inr der \<Longrightarrow> ParseSm2PublicKey S der = Inr p"
    "MarshalSm2PrivateKey S k = Inr der \<Longrightarrow> ParseSm2PrivateKey S der = Inr k"
    "sm2_pem_Encode S ''PUBLIC KEY'' bs \<noteq> []" "sm2_pem_Decode S (sm2_pem_Encode S ''PUBLIC KEY'' bs) = Some (''PUBLIC KEY'', bs, [])"
    "sm2_pem_Encode S ''PRIVATE KEY'' bs \<noteq> []" "sm2_pem_Decode S (sm2_pem_Encode S ''PRIVATE KEY'' bs) = Some (''PRIVATE KEY'', bs, [])"
  using assms unfolding sm2_ok_def by - metis+

lemma sm2_pem_codec:
  assumes "sm2_ok S"
  shows "marshalSMPublicKeyPEM S p = Inr pem \<Longrightarrow> pub_on_curve S p \<Longrightarrow> parseSMPublicKeyPEM S pem = Inr p"
    and "marshalSMPrivateKeyPEM S k = Inr pem \<Longrightarrow> priv_on_curve S k \<Longrightarrow> parseSMPrivateKeyPEM S pem = Inr k"
    and "marshalSMPrivateKeyPEM S k = Inr pem \<Longrightarrow> pem \<noteq> []" "marshalSMPublicKeyPEM S p = Inr pem \<Longrightarrow> pem \<noteq> []"
  using sm2_okD [OF assms]
  by (auto simp: marshalSMPublicKeyPEM_def marshalSMPrivateKeyPEM_def parseSMPublicKeyPEM_def parseSMPrivateKeyPEM_def split: sum.splits)

text \<open>No parser takes a key of the other kind, a key with data behind its block, or a key of another
  curve.\<close>

theorem sm2_no_confusion:
  "parseSMPublicKeyPEM S pem = Inr p \<Longrightarrow> pub_on_curve S p \<and> (\<exists>b. sm2_pem_Decode S pem = Some (''PUBLIC KEY'', b, []))"
  "parseSMPrivateKeyPEM S pem = Inr k \<Longrightarrow> priv_on_curve S k \<and> (\<exists>b. sm2_pem_Decode S pem = Some (''PRIVATE KEY'', b, []))"
  by (auto simp: parseSMPublicKeyPEM_def parseSMPrivateKeyPEM_def split: if_splits option.splits sum.splits)

lemma generated_sm2:
  assumes "sm2_ok S" "GenerateSM2AsymmetricKey S r = (Inr (privPEM, pubPEM), r')"
  obtains k where "parseSMPrivateKeyPEM S privPEM = Inr k" "parseSMPublicKeyPEM S pubPEM = Inr (sm2_Public S k)" "privPEM \<noteq> []" "pubPEM \<noteq> []"
proof -
  from assms(2) obtain k where k: "sm2_GenerateKey S r = (Inr k, r')" "marshalSMPrivateKeyPEM S k = Inr privPEM"
    "marshalSMPublicKeyPEM S (sm2_Public S k) = Inr pubPEM"
    by (auto simp: GenerateSM2AsymmetricKey_def GenerateSM2KeyPair_def SM2PrivateKeyToPEM_def NewSecureBuffer_def split: prod.splits sum.splits)
  with sm2_okD(1) [OF assms(1) k(1)] sm2_pem_codec [OF assms(1)] that show thesis by metis
qed

lemma signSM2_verify:
  assumes "sm2_ok S" "parseSMPrivateKeyPEM S privPEM = Inr k" "parseSMPublicKeyPEM S pubPEM = Inr (sm2_Public S k)"
    and "signSM2 S uid privPEM msg r = (Inr sig, r')"
  shows "verifySM2Key S uid pubPEM msg sig = Inr True"
proof -
  from assms(2,4) obtain a b where "lib_Sm2Sign S k msg uid r = (Inr (a, b), r')" "SignDigitToSignData S a b = Inr sig"
    by (auto simp: signSM2_def SM2PrivateKeyFromPEM_def SM2Sign_def split: prod.splits sum.splits)
  with sm2_okD(3,4) [OF assms(1)] assms(3) show ?thesis
    by (auto simp: verifySM2Key_def SM2PublicKeyFromPEM_def SM2Verify_def)
qed

text \<open>Encryption with a generated key is undone by its private part, whatever way both travelled.\<close>

theorem sm2_encryption:
  assumes "sm2_ok S" "GenerateSM2KeyPair S r = (Inr (pub, priv), r1)" "SM2Encrypt S (Some pub) pt r2 = (Inr ct, r3)"
    and "SM2PrivateKeyToPEM S priv = Inr pem"
  shows "SM2Decrypt S priv ct = Inr pt \<and> SM2PrivateKeyFromPEM S pem = Inr priv \<and> SM2PublicKeyFromPEM S (pub_PEM pub) = Inr pub"
proof -
  from assms(2) obtain k where k: "sm2_GenerateKey S r = (Inr k, r1)" "priv = Some k" "pub_Key pub = Some (sm2_Public S k)"
    "marshalSMPublicKeyPEM S (sm2_Public S k) = Inr (pub_PEM pub)"
    by (auto simp: GenerateSM2KeyPair_def split: prod.splits sum.splits)
  have c: "priv_on_curve S k" "pub_on_curve S (sm2_Public S k)" using sm2_okD(1) [OF assms(1) k(1)] by auto
  have "EncryptAsn1 S (sm2_Public S k) pt r2 = (Inr ct, r3)" using assms(3) k(3) by (auto simp: SM2Encrypt_def split: prod.splits sum.splits)
  then have "SM2Decrypt S priv ct = Inr pt" using sm2_okD(2) [OF assms(1)] k(2) by (simp add: SM2Decrypt_def)
  moreover have "SM2PublicKeyFromPEM S (pub_PEM pub) = Inr pub"
    using sm2_pem_codec(1) [OF assms(1) k(4) c(2)] k(3) by (simp add: SM2PublicKeyFromPEM_def)
  moreover have "SM2PrivateKeyFromPEM S pem = Inr priv"
    using assms(4) sm2_pem_codec(2) [OF assms(1) _ c(1)] k(2) by (simp add: SM2PrivateKeyFromPEM_def SM2PrivateKeyToPEM_def)
  ultimately show ?thesis by blast
qed

text \<open>A bearer token signed with a key is accepted with its public part; the identifier that
  \<open>SetSM2UID\<close> installs plays no part in it.\<close>

theorem jwt_sm2_roundtrip:
  assumes "sm2_ok S" "jwt_SM2_Sign S msg (Some k) r = (Inr sig, r')"
  shows "jwt_SM2_Verify S msg sig (Some (sm2_Public S k)) = None"
proof -
  from assms(2) obtain a b where "lib_Sm2Sign S k msg default_sm2UID r = (Inr (a, b), r')" "SignDigitToSignData S a b = Inr sig"
    by (auto simp: jwt_SM2_Sign_def split: prod.splits sum.splits)
  with sm2_okD(3,4) [OF assms(1)] show ?thesis by (auto simp: jwt_SM2_Verify_def)
qed

section \<open>Signatures of the service\<close>

text \<open>The build with the tag: what the manager and the service take as parameters are the functions
  above.\<close>

definition gmsm_build :: "('k, 'p) env \<Rightarrow> ('a, 'b) sm2_lib \<Rightarrow> bytes \<Rightarrow> bool" where
  "gmsm_build E S uid \<longleftrightarrow> e_gmsm E \<and> e_SM2 E = GenerateSM2AsymmetricKey S \<and>
     sm2_sign (e_hashes E) = signSM2 S uid \<and> sm2_verify (e_hashes E) = verifySM2Key S uid"

text \<open>The stored private and public part of a key belong together.\<close>

definition matching :: "prims \<Rightarrow> hashes \<Rightarrow> ('k, 'p) pki \<Rightarrow> KEK \<Rightarrow> KeyMetadata \<Rightarrow> bool" where
  "matching P H L kek meta \<longleftrightarrow> PublicKey meta \<noteq> [] \<and> (\<exists>priv. UnwrapDEK P kek (EncryptedMaterial meta) = Inr \<lparr>sb_data = priv, destroyed = False\<rparr> \<and>
     (\<forall>msg r sig r'. (if KeyType meta = ''sm2'' then sm2_sign H priv msg r else signAsymmetric H L priv msg r) = (Inr sig, r') \<longrightarrow>
        verifyAsymmetric H L (PublicKey meta) msg sig (KeyType meta) = Inr True))"

lemma matching_sm2:
  assumes "sm2_ok S" "gmsm_build E S uid" "kek_ok P k" "createSM2Key True (asym_of E) P now keyID k m r = (Inr meta, m', r')"
  shows "matching P (e_hashes E) (e_pki E) k meta"
proof -
  from assms(2,4) obtain privPEM pubPEM material r1 r2 where g: "GenerateSM2AsymmetricKey S r = (Inr (privPEM, pubPEM), r1)"
    and w: "WrapDEK P k (fst (NewSecureBuffer privPEM)) r1 = (Inr material, r2)" and meta: "meta = asym_meta keyID ''sm2'' material k pubPEM now"
    by (auto simp: createSM2Key_def gmsm_build_def asym_of_def Let_def split: prod.splits sum.splits option.splits)
  obtain key where key: "parseSMPrivateKeyPEM S privPEM = Inr key" "parseSMPublicKeyPEM S pubPEM = Inr (sm2_Public S key)" "privPEM \<noteq> []" "pubPEM \<noteq> []"
    using generated_sm2 [OF assms(1) g] .
  have "UnwrapDEK P k material = Inr \<lparr>sb_data = privPEM, destroyed = False\<rparr>"
    using kw.unwrap_wrap [of "(P, k)" _ r1 material r2] w assms(3) key(3) by (simp add: NewSecureBuffer_def)
  with meta key signSM2_verify [OF assms(1) key(1,2)] assms(2) show ?thesis
    by (auto simp: matching_def asym_meta_def gmsm_build_def verifyAsymmetric_def KeyType_defs)
qed

lemma matching_pki:
  assumes "pki_ok (e_pki E)" "kek_ok P k" "t \<in> {''rsa'', ''ecdsa''}"
    and "CreateAsymmetricKey gmsm (asym_of E) P now keyID t (Some k) m r = (Inr meta, m', r')"
  shows "matching P (e_hashes E) (e_pki E) k meta"
proof -
  let ?L = "e_pki E"
  have t: "t \<noteq> ''sm2''" using assms(3) by auto
  from assms(3,4) obtain key der pub material r1 r2 where g: "GenerateAsymmetricKey ?L t r = (Inr key, r1)"
    and d: "PrivateKeyToDER ?L key = Inr der" "PublicKeyToPEM ?L (public_of ?L key) = Inr pub"
    and w: "WrapDEK P k (fst (NewSecureBuffer der)) r1 = (Inr material, r2)" and meta: "meta = asym_meta keyID t material k pub now"
    by (auto simp: CreateAsymmetricKey_def asym_of_def Let_def split: prod.splits sum.splits option.splits if_splits)
  have kind: "priv_kind ?L key \<noteq> OtherKind" using generated_kind [OF assms(1) g] .
  then have pubkind: "pub_kind ?L (public_of ?L key) \<noteq> OtherKind" using assms(1) by (simp add: pki_ok_def)
  have der: "ParsePrivateKeyFromDER ?L der = Inr key" "der \<noteq> []" using private_key_codec [OF assms(1) d(1) kind] by auto
  have pub: "ParsePublicKeyFromPEM ?L pub = Inr (public_of ?L key)" "pub \<noteq> []" using public_key_codec [OF assms(1) d(2) pubkind] by auto
  have "UnwrapDEK P k material = Inr \<lparr>sb_data = der, destroyed = False\<rparr>"
    using kw.unwrap_wrap [of "(P, k)" _ r1 material r2] w assms(2) der(2) by (simp add: NewSecureBuffer_def)
  moreover have "verifyAsymmetric (e_hashes E) ?L pub msg sig t = Inr True"
    if "signAsymmetric (e_hashes E) ?L der msg q = (Inr sig, q')" for msg q sig q'
    using that crypto_Sign_Verify [OF assms(1)] der(1) pub(1) assms(3) t
    by (auto simp: signAsymmetric_def verifyAsymmetric_def KeyType_defs)
  ultimately show ?thesis using meta pub(2) t by (auto simp: matching_def asym_meta_def)
qed

text \<open>
  Property C36. What the service signs, it verifies, for keys of all three types: when an asymmetric
  key was created, and signing and verifying are handed the created version, a signature that Sign
  returns is found valid by Verify for the same message, and both name that version.
\<close>

theorem signatures_verify:
  assumes "pki_ok (e_pki E)" "sm2_ok S" "gmsm_build E S uid" "kek_ok P k" "u_KEKRef (vault_seal c) = Inr k"
    and "CreateAsymmetricKey True (asym_of E) P now keyID t (Some k) m r = (Inr meta, m', r')"
    and "GetActiveKey (at cc) keyID (manager c) = (Inr meta, m1)" "GetActiveKey (at cc') keyID (manager c') = (Inr meta, m2)"
    and "core_Sign P (e_hashes E) (e_pki E) U cc keyID msg policy c r1 = (Inr (sig, v), c1, r2)"
    and "core_Verify (e_hashes E) (e_pki E) U cc' keyID msg sig policy' c' = (Inr (valid, v'), c2)"
  shows "valid \<and> v = Version meta \<and> v' = Version meta"
proof -
  have "t \<in> {''rsa'', ''ecdsa''} \<or> t = ''sm2''"
    using assms(6) by (auto simp: CreateAsymmetricKey_def split: if_splits)
  moreover have "createSM2Key True (asym_of E) P now keyID k m r = (Inr meta, m', r')" if "t = ''sm2''"
    using assms(6) that by (simp add: CreateAsymmetricKey_def split: if_splits)
  ultimately have "matching P (e_hashes E) (e_pki E) k meta"
    using matching_pki [OF assms(1,4) _ assms(6)] matching_sm2 [OF assms(2,3,4)] by blast
  then obtain priv where m: "UnwrapDEK P k (EncryptedMaterial meta) = Inr \<lparr>sb_data = priv, destroyed = False\<rparr>"
    "\<And>msg r sig r'. (if KeyType meta = ''sm2'' then sm2_sign (e_hashes E) priv msg r else signAsymmetric (e_hashes E) (e_pki E) priv msg r) = (Inr sig, r')
      \<Longrightarrow> verifyAsymmetric (e_hashes E) (e_pki E) (PublicKey meta) msg sig (KeyType meta) = Inr True"
    unfolding matching_def by blast
  have "(if KeyType meta = ''sm2'' then sm2_sign (e_hashes E) priv msg r1 else signAsymmetric (e_hashes E) (e_pki E) priv msg r1) = (Inr sig, r2)"
    "v = Version meta"
    using assms(5,7,9) m(1) by (auto simp: core_Sign_def WithKey_def Let_def split: option.splits if_splits prod.splits sum.splits)
  with m(2) assms(8,10) show ?thesis
    by (auto simp: core_Verify_def Let_def split: option.splits if_splits sum.splits)
qed

section \<open>A concrete library\<close>

definition toy_sm2 :: "(unit, unit) sm2_lib" where
  "toy_sm2 = \<lparr>sm2_GenerateKey = (\<lambda>r. (Inr (), r)), sm2_Public = id, EncryptAsn1 = (\<lambda>_ m r. (Inr m, r)), DecryptAsn1 = (\<lambda>_. Inr),
     lib_Sm2Sign = (\<lambda>_ m uid r. (Inr (int (length m), int (length uid)), r)),
     lib_Sm2Verify = (\<lambda>_ m uid a b. a = int (length m) \<and> b = int (length uid)),
     SignDigitToSignData = (\<lambda>a b. if a = 1 \<and> b = 16 then Inr [9] else Inl (Msg ''toy'')), SignDataToSignDigit = (\<lambda>_. Inr (1, 16)),
     MarshalSm2PublicKey = (\<lambda>_. Inr [4]), ParseSm2PublicKey = (\<lambda>_. Inr ()), MarshalSm2PrivateKey = (\<lambda>_. Inr [5]), ParseSm2PrivateKey = (\<lambda>_. Inr ()),
     pub_on_curve = (\<lambda>_. True), priv_on_curve = (\<lambda>_. True),
     sm2_pem_Encode = (\<lambda>t b. (if t = ''PUBLIC KEY'' then 1 else 2) # b),
     sm2_pem_Decode = (\<lambda>p. Some (if hd p = 1 then ''PUBLIC KEY'' else ''PRIVATE KEY'', tl p, []))\<rparr>"

definition toy_gmsm :: "(key_kind, key_kind) env" where
  "toy_gmsm = toy_env\<lparr>e_gmsm := True, e_SM2 := GenerateSM2AsymmetricKey toy_sm2,
     e_hashes := (e_hashes toy_env)\<lparr>sm2_sign := signSM2 toy_sm2 default_sm2UID, sm2_verify := verifySM2Key toy_sm2 default_sm2UID\<rparr>\<rparr>"

definition toy_sm2_meta :: KeyMetadata where
  "toy_sm2_meta = asym_meta ''k'' ''sm2'' (replicate 12 0 @ replicate 16 0 @ [2, 5]) toy_kek [1, 4] 7"

definition toy_m2 :: Manager where
  "toy_m2 = toy_m0\<lparr>store := Mem \<lparr>data = [(metadataKey ''k'' 1, Doc (DMeta toy_sm2_meta)), (latestVersionMetadataKey ''k'', Doc (DInt 1))]\<rparr>\<rparr>"

lemma toy_sm2_ok: "sm2_ok toy_sm2" "gmsm_build toy_gmsm toy_sm2 default_sm2UID"
  by (auto simp: sm2_ok_def gmsm_build_def toy_sm2_def toy_gmsm_def)

lemma toy_sm2_create:
  "CreateAsymmetricKey True (asym_of toy_gmsm) toy_prims 7 ''k'' ''sm2'' (Some toy_kek) toy_m0 (zero_source\<lparr>pos := 0\<rparr>) =
     (Inr toy_sm2_meta, toy_m2, zero_source\<lparr>pos := 12\<rparr>)"
proof -
  have "GenerateSM2AsymmetricKey toy_sm2 r = (Inr ([2, 5], [1, 4]), r)" for r
    by (simp add: GenerateSM2AsymmetricKey_def GenerateSM2KeyPair_def SM2PrivateKeyToPEM_def marshalSMPublicKeyPEM_def
        marshalSMPrivateKeyPEM_def NewSecureBuffer_def toy_sm2_def)
  moreover have "WrapDEK toy_prims toy_kek (fst (NewSecureBuffer [2, 5])) (zero_source\<lparr>pos := 0\<rparr>) =
      (Inr (replicate 12 0 @ replicate 16 0 @ [2, 5]), zero_source\<lparr>pos := 12\<rparr>)"
    using toy_EncryptGCM [of "[2, 5]" 0]
    by (simp add: toy_kek_def NewSoftwareKEK_def software_WrapDEK_def toy_prims_def NewSecureBuffer_def)
  ultimately show ?thesis
    by (simp add: CreateAsymmetricKey_def createSM2Key_def asym_of_def toy_gmsm_def toy_m0_def toy_m2_def NewManager_def saveMetadata_def
        setLatestVersion_def mem_Put_def NewMemoryStore_def toy_sm2_meta_def [symmetric] Let_def)
      (simp add: toy_sm2_meta_def asym_meta_def)
qed

lemma toy_sm2_active: "GetActiveKey 9 ''k'' toy_m2 = (Inr toy_sm2_meta, toy_m2\<lparr>cache := cache_put (metadataKey ''k'' 1) toy_sm2_meta newDekCache\<rparr>)"
  by (simp add: GetActiveKey_def findLatestVersion_def getLatestVersion_def loadMetadata_def toy_m2_def toy_m0_def NewManager_def
      mem_Get_def latest_index_def newDekCache_def cache_get_def cache_isNegative_def Let_def)
    (simp add: toy_sm2_meta_def asym_meta_def)

lemma toy_sm2_unwrap: "UnwrapDEK toy_prims toy_kek (EncryptedMaterial toy_sm2_meta) = Inr \<lparr>sb_data = [2, 5], destroyed = False\<rparr>"
  using kw.unwrap_wrap_eq [of "(toy_prims, toy_kek)" "\<lparr>sb_data = [2, 5], destroyed = False\<rparr>" zero_source] toy_EncryptGCM [of "[2, 5]" 0] toy_kek_ok
  by (simp add: toy_sm2_meta_def asym_meta_def toy_kek_def NewSoftwareKEK_def software_WrapDEK_def toy_prims_def zero_source_pos0)

lemma toy_sm2_sign:
  "\<exists>c1. core_Sign toy_prims (e_hashes toy_gmsm) (e_pki toy_gmsm) toy_unicode toy_call ''k'' [8] None (NewCore toy_m2 toy_vault (Some [])) zero_source =
     (Inr ([9], 1), c1, zero_source)"
proof -
  have "signSM2 toy_sm2 default_sm2UID [2, 5] [8] zero_source = (Inr [9], zero_source)"
    by (simp add: signSM2_def SM2PrivateKeyFromPEM_def parseSMPrivateKeyPEM_def SM2Sign_def toy_sm2_def default_sm2UID_def)
  moreover have "KeyType toy_sm2_meta = ''sm2''" "Version toy_sm2_meta = 1" by (simp_all add: toy_sm2_meta_def asym_meta_def)
  ultimately show ?thesis using toy_sm2_active toy_sm2_unwrap toy_vault(1) toy_unsealed [of "NewCore toy_m2 toy_vault (Some [])"]
    by (simp add: core_Sign_def NewCore_def authorize_def toy_call_def WithKey_def isAsymmetricKeyType_def KeyType_defs toy_gmsm_def Let_def)
qed

lemma toy_sm2_verify:
  "\<exists>c2. core_Verify (e_hashes toy_gmsm) (e_pki toy_gmsm) toy_unicode toy_call ''k'' [8] [9] None (NewCore toy_m2 toy_vault (Some [])) =
     (Inr (lib_Sm2Verify toy_sm2 () [8] default_sm2UID 1 16, 1), c2)"
proof -
  have "verifySM2Key toy_sm2 default_sm2UID [1, 4] [8] [9] = Inr (lib_Sm2Verify toy_sm2 () [8] default_sm2UID 1 16)"
    by (simp add: verifySM2Key_def SM2PublicKeyFromPEM_def parseSMPublicKeyPEM_def SM2Verify_def toy_sm2_def)
  moreover have "KeyType toy_sm2_meta = ''sm2''" "Version toy_sm2_meta = 1" "PublicKey toy_sm2_meta = [1, 4]"
    by (simp_all add: toy_sm2_meta_def asym_meta_def)
  ultimately show ?thesis using toy_sm2_active toy_unsealed [of "NewCore toy_m2 toy_vault (Some [])"]
    by (simp add: core_Verify_def NewCore_def authorize_def toy_call_def verifyAsymmetric_def KeyType_defs toy_gmsm_def Let_def)
qed

theorem signatures_verify_witness:
  "\<exists>c1 c2. CreateAsymmetricKey True (asym_of toy_gmsm) toy_prims 7 ''k'' ''sm2'' (Some toy_kek) toy_m0 (zero_source\<lparr>pos := 0\<rparr>) =
       (Inr toy_sm2_meta, toy_m2, zero_source\<lparr>pos := 12\<rparr>)
     \<and> core_Sign toy_prims (e_hashes toy_gmsm) (e_pki toy_gmsm) toy_unicode toy_call ''k'' [8] None (NewCore toy_m2 toy_vault (Some [])) zero_source =
       (Inr ([9], 1), c1, zero_source)
     \<and> core_Verify (e_hashes toy_gmsm) (e_pki toy_gmsm) toy_unicode toy_call ''k'' [8] [9] None (NewCore toy_m2 toy_vault (Some [])) = (Inr (True, 1), c2)"
proof -
  let ?c = "NewCore toy_m2 toy_vault (Some [])"
  obtain c1 c2 where s: "core_Sign toy_prims (e_hashes toy_gmsm) (e_pki toy_gmsm) toy_unicode toy_call ''k'' [8] None ?c zero_source = (Inr ([9], 1), c1, zero_source)"
    and v: "core_Verify (e_hashes toy_gmsm) (e_pki toy_gmsm) toy_unicode toy_call ''k'' [8] [9] None ?c = (Inr (lib_Sm2Verify toy_sm2 () [8] default_sm2UID 1 16, 1), c2)"
    using toy_sm2_sign toy_sm2_verify by blast
  have pki: "pki_ok (e_pki toy_gmsm)" using toy_pki_ok by (simp add: toy_gmsm_def toy_env_def)
  have kek: "u_KEKRef (vault_seal ?c) = Inr toy_kek" by (simp add: NewCore_def toy_vault)
  have act: "GetActiveKey (at toy_call) ''k'' (manager ?c) = (Inr toy_sm2_meta, toy_m2\<lparr>cache := cache_put (metadataKey ''k'' 1) toy_sm2_meta newDekCache\<rparr>)"
    using toy_sm2_active by (simp add: NewCore_def toy_call_def)
  have "lib_Sm2Verify toy_sm2 () [8] default_sm2UID 1 16"
    using signatures_verify [OF pki toy_sm2_ok toy_kek_ok kek toy_sm2_create act act s v] by simp
  with s v toy_sm2_create show ?thesis by simp
qed

end
