(* ===== verification/Pkcs11.thy ===== *)
theory Pkcs11
  imports Bootstrap
begin

text \<open>
  \<^verbatim>\<open>internal/seal/hsm_pkcs11.go\<close> and \<^verbatim>\<open>hsm_pkcs11_build.go\<close>, compiled in with the tags
  \<^verbatim>\<open>hsm\<close> and \<^verbatim>\<open>pkcs11\<close>: a hardware token behind the interface
  \<^verbatim>\<open>CryptoBackend\<close> of the theory \<open>Kek\<close>. The library \<^verbatim>\<open>crypto11\<close> is the parameter
  \<open>crypto11\<close>; the token it works on is a state of the type \<open>'x\<close> that outlives every process. Secret
  keys and key pairs are handles (\<open>'s\<close>, \<open>'k\<close>): no operation gives their bytes. Verification uses
  public keys only, with the library of the theory \<open>Asymmetric\<close>. The lock of the back end
  serialises its methods, which are single steps here.
\<close>

record gcm =
  gcm_NonceSize :: nat
  gcm_Seal :: "bytes \<Rightarrow> bytes \<Rightarrow> bytes"
  gcm_Open :: "bytes \<Rightarrow> bytes \<Rightarrow> bytes res"

record ('x, 's, 'k, 'p) crypto11 =
  Configure :: "string \<Rightarrow> int \<Rightarrow> string \<Rightarrow> 'x \<Rightarrow> err option"
  FindKey :: "bytes \<Rightarrow> 'x \<Rightarrow> 's option res"
  GenerateSecretKey :: "bytes \<Rightarrow> int \<Rightarrow> 'x \<Rightarrow> 's res \<times> 'x"
  NewGCM :: "'s \<Rightarrow> gcm res"
  GenerateRSAKeyPair :: "bytes \<Rightarrow> int \<Rightarrow> 'x \<Rightarrow> 'k res \<times> 'x"
  GenerateECDSAKeyPair :: "bytes \<Rightarrow> 'x \<Rightarrow> 'k res \<times> 'x"
  FindKeyPair :: "bytes \<Rightarrow> 'x \<Rightarrow> 'k option res"
  signer_Public :: "'k \<Rightarrow> 'p"
  signer_Sign :: "'k \<Rightarrow> bytes \<Rightarrow> bytes res"

record 's pkcs11Backend =
  p_keyID :: bytes
  p_key :: "'s option"
  p_keyLen :: int

section \<open>The back end\<close>

definition NewPKCS11Backend ::
  "('x, 's, 'k, 'p) crypto11 \<Rightarrow> string \<Rightarrow> int \<Rightarrow> string \<Rightarrow> string \<Rightarrow> 'x \<Rightarrow> 's pkcs11Backend res \<times> 'x" where
  "NewPKCS11Backend C libPath slot pin keyID t =
     (if libPath = '''' then (Inl (Msg ''seal: pkcs11: lib_path is required''), t)
      else if pin = '''' then (Inl (Msg ''seal: pkcs11: pin is required''), t)
      else if keyID = '''' then (Inl (Msg ''seal: pkcs11: key_id is required''), t)
      else case Configure C libPath slot pin t of
          Some e \<Rightarrow> (Inl (Wrap ''seal: pkcs11: configure'' e), t)
        | None \<Rightarrow>
            let b = \<lparr>p_keyID = bytes_of keyID, p_key = None, p_keyLen = 256\<rparr>
            in case FindKey C (p_keyID b) t of
                 Inl e \<Rightarrow> (Inl (Wrap ''seal: pkcs11: find key'' e), t)
               | Inr (Some key) \<Rightarrow> (Inr (b\<lparr>p_key := Some key\<rparr>), t)
               | Inr None \<Rightarrow>
                   (case GenerateSecretKey C (p_keyID b) (p_keyLen b) t of
                      (Inl e, t1) \<Rightarrow> (Inl (Wrap ''seal: pkcs11: generate key'' e), t1)
                    | (Inr key, t1) \<Rightarrow> (Inr (b\<lparr>p_key := Some key\<rparr>), t1)))"

definition pkcs11_Wrap :: "('x, 's, 'k, 'p) crypto11 \<Rightarrow> 's pkcs11Backend \<Rightarrow> bytes \<Rightarrow> csprng \<Rightarrow> bytes res \<times> csprng" where
  "pkcs11_Wrap C b plaintext r =
     (case p_key b of
        None \<Rightarrow> (Inl (Msg ''seal: pkcs11: key not loaded''), r)
      | Some key \<Rightarrow>
          (case NewGCM C key of
             Inl e \<Rightarrow> (Inl (Wrap ''seal: pkcs11: new GCM'' e), r)
           | Inr g \<Rightarrow>
               (case GenerateSecureRandom (int (gcm_NonceSize g)) r of
                  (Inl e, r1) \<Rightarrow> (Inl (Wrap ''seal: pkcs11: generate nonce'' e), r1)
                | (Inr nonce, r1) \<Rightarrow> (Inr (nonce @ gcm_Seal g nonce plaintext), r1))))"

definition pkcs11_Unwrap :: "('x, 's, 'k, 'p) crypto11 \<Rightarrow> 's pkcs11Backend \<Rightarrow> bytes \<Rightarrow> bytes res" where
  "pkcs11_Unwrap C b ciphertext =
     (case p_key b of
        None \<Rightarrow> Inl (Msg ''seal: pkcs11: key not loaded'')
      | Some key \<Rightarrow>
          (case NewGCM C key of
             Inl e \<Rightarrow> Inl (Wrap ''seal: pkcs11: new GCM'' e)
           | Inr g \<Rightarrow>
               let nonceSize = gcm_NonceSize g
               in if length ciphertext < nonceSize then Inl (Msg ''seal: pkcs11: ciphertext too short'')
                  else wrapR ''seal: pkcs11: GCM open'' (gcm_Open g (take nonceSize ciphertext) (drop nonceSize ciphertext))))"

definition pkcs11_backend :: "('x, 's, 'k, 'p) crypto11 \<Rightarrow> 's pkcs11Backend \<Rightarrow> CryptoBackend" where
  "pkcs11_backend C b = \<lparr>backend_Wrap = pkcs11_Wrap C b, backend_Unwrap = pkcs11_Unwrap C b\<rparr>"

section \<open>Signing keys\<close>

definition marshalPublicKey :: "('q, 'p) pki \<Rightarrow> 'p \<Rightarrow> bytes res" where
  "marshalPublicKey L pub =
     (case MarshalPKIX L pub of
        Inl e \<Rightarrow> Inl (Wrap ''seal: pkcs11: marshal public key'' e)
      | Inr der \<Rightarrow> Inr (pem_Encode L ''PUBLIC KEY'' der))"

definition GenerateSigningKey ::
  "('x, 's, 'k, 'p) crypto11 \<Rightarrow> ('q, 'p) pki \<Rightarrow> string \<Rightarrow> string \<Rightarrow> 'x \<Rightarrow> bytes res \<times> 'x" where
  "GenerateSigningKey C L keyID algo t =
     (let key_id = bytes_of keyID
      in if algo = ''rsa-2048'' then
           (case GenerateRSAKeyPair C key_id 2048 t of
              (Inl e, t1) \<Rightarrow> (Inl (Wrap ''seal: pkcs11: generate RSA-2048'' e), t1)
            | (Inr signer, t1) \<Rightarrow> (marshalPublicKey L (signer_Public C signer), t1))
         else if algo = ''rsa-4096'' then
           (case GenerateRSAKeyPair C key_id 4096 t of
              (Inl e, t1) \<Rightarrow> (Inl (Wrap ''seal: pkcs11: generate RSA-4096'' e), t1)
            | (Inr signer, t1) \<Rightarrow> (marshalPublicKey L (signer_Public C signer), t1))
         else if algo = ''ecdsa-p256'' then
           (case GenerateECDSAKeyPair C key_id t of
              (Inl e, t1) \<Rightarrow> (Inl (Wrap ''seal: pkcs11: generate ECDSA-P256'' e), t1)
            | (Inr signer, t1) \<Rightarrow> (marshalPublicKey L (signer_Public C signer), t1))
         else (Inl (Msg ''seal: pkcs11: unsupported signing algo''), t))"

text \<open>The look-up that the three methods below share.\<close>

definition find_signer :: "('x, 's, 'k, 'p) crypto11 \<Rightarrow> string \<Rightarrow> 'x \<Rightarrow> 'k res" where
  "find_signer C keyID t =
     (case FindKeyPair C (bytes_of keyID) t of
        Inl e \<Rightarrow> Inl (Wrap ''seal: pkcs11: find signing key'' e)
      | Inr None \<Rightarrow> Inl (Msg ''seal: pkcs11: signing key not found'')
      | Inr (Some signer) \<Rightarrow> Inr signer)"

definition pkcs11_Sign :: "('x, 's, 'k, 'p) crypto11 \<Rightarrow> (bytes \<Rightarrow> bytes) \<Rightarrow> string \<Rightarrow> bytes \<Rightarrow> 'x \<Rightarrow> bytes res" where
  "pkcs11_Sign C sha keyID msg t =
     bindR (find_signer C keyID t) (\<lambda>signer. wrapR ''seal: pkcs11: HSM sign'' (signer_Sign C signer (sha msg)))"

definition GetPublicKey :: "('x, 's, 'k, 'p) crypto11 \<Rightarrow> ('q, 'p) pki \<Rightarrow> string \<Rightarrow> 'x \<Rightarrow> bytes res" where
  "GetPublicKey C L keyID t = bindR (find_signer C keyID t) (\<lambda>signer. marshalPublicKey L (signer_Public C signer))"

definition pkcs11_Verify ::
  "('x, 's, 'k, 'p) crypto11 \<Rightarrow> ('q, 'p) pki \<Rightarrow> (bytes \<Rightarrow> bytes) \<Rightarrow> string \<Rightarrow> bytes \<Rightarrow> bytes \<Rightarrow> 'x \<Rightarrow> bool res" where
  "pkcs11_Verify C L sha keyID msg signature t =
     bindR (find_signer C keyID t) (\<lambda>signer.
       let pub = signer_Public C signer; hash = sha msg
       in case pub_kind L pub of
            RSA _ \<Rightarrow> Inr (raw_verify L pub hash signature)
          | ECDSA _ \<Rightarrow> Inr (raw_verify L pub hash signature)
          | OtherKind \<Rightarrow> Inl (Msg ''seal: pkcs11: unsupported public key type''))"

section \<open>hsm.go, hsm\_pkcs11\_build.go\<close>

record HSMConfig =
  hsm_Backend :: string
  hsm_KeyID :: string
  LibPath :: string
  Slot :: int
  PIN :: string

definition pkcs11_BuildHSMBackend ::
  "('x, 's, 'k, 'p) crypto11 \<Rightarrow> aead \<Rightarrow> HSMConfig \<Rightarrow> csprng \<Rightarrow> 'x \<Rightarrow> CryptoBackend res \<times> csprng \<times> 'x" where
  "pkcs11_BuildHSMBackend C A cfg r t =
     (if hsm_Backend cfg = ''mock'' \<or> hsm_Backend cfg = '''' then
        (case NewMockHSMBackend r of
           (Inl e, r1) \<Rightarrow> (Inl e, r1, t)
         | (Inr m, r1) \<Rightarrow> (Inr (mock_backend A m), r1, t))
      else if hsm_Backend cfg = ''pkcs11'' then
        (case NewPKCS11Backend C (LibPath cfg) (Slot cfg) (PIN cfg) (hsm_KeyID cfg) t of
           (Inl e, t1) \<Rightarrow> (Inl e, r, t1)
         | (Inr b, t1) \<Rightarrow> (Inr (pkcs11_backend C b), r, t1))
      else (Inl (Msg ''seal: unsupported hsm backend''), r, t))"

section \<open>What is relied on\<close>

text \<open>A GCM object opens what it sealed; a generated key is found under its identifier from then on,
  and its public part has the kind asked for and verifies its signatures.\<close>

definition crypto11_ok :: "('x, 's, 'k, 'p) crypto11 \<Rightarrow> ('q, 'p) pki \<Rightarrow> bool" where
  "crypto11_ok C L \<longleftrightarrow>
     (\<forall>s g n pt. NewGCM C s = Inr g \<longrightarrow> length n = gcm_NonceSize g \<longrightarrow> gcm_Open g n (gcm_Seal g n pt) = Inr pt) \<and>
     (\<forall>i len t s t'. GenerateSecretKey C i len t = (Inr s, t') \<longrightarrow> FindKey C i t' = Inr (Some s)) \<and>
     (\<forall>i bits t k t'. GenerateRSAKeyPair C i bits t = (Inr k, t') \<longrightarrow>
        FindKeyPair C i t' = Inr (Some k) \<and> pub_kind L (signer_Public C k) = RSA bits) \<and>
     (\<forall>i t k t'. GenerateECDSAKeyPair C i t = (Inr k, t') \<longrightarrow>
        FindKeyPair C i t' = Inr (Some k) \<and> pub_kind L (signer_Public C k) = ECDSA True) \<and>
     (\<forall>k d sig. signer_Sign C k d = Inr sig \<longrightarrow> raw_verify L (signer_Public C k) d sig)"

lemma crypto11_okD:
  assumes "crypto11_ok C L"
  shows "NewGCM C s = Inr g \<Longrightarrow> length n = gcm_NonceSize g \<Longrightarrow> gcm_Open g n (gcm_Seal g n pt) = Inr pt"
    and "GenerateSecretKey C i len t = (Inr s, t') \<Longrightarrow> FindKey C i t' = Inr (Some s)"
    and "GenerateRSAKeyPair C i bits t = (Inr k, t') \<Longrightarrow> FindKeyPair C i t' = Inr (Some k) \<and> pub_kind L (signer_Public C k) = RSA bits"
    and "GenerateECDSAKeyPair C i t = (Inr k, t') \<Longrightarrow> FindKeyPair C i t' = Inr (Some k) \<and> pub_kind L (signer_Public C k) = ECDSA True"
    and "signer_Sign C k d = Inr sig \<Longrightarrow> raw_verify L (signer_Public C k) d sig"
  using assms unfolding crypto11_ok_def by - metis+

text \<open>What one session wraps, every session with the same key unwraps.\<close>

lemma pkcs11_unwrap_wrap:
  assumes "crypto11_ok C L" "p_key b = p_key b'" "pkcs11_Wrap C b pt r = (Inr ct, r')"
  shows "pkcs11_Unwrap C b' ct = Inr pt"
proof -
  from assms(3) obtain key g nonce where k: "p_key b = Some key" "NewGCM C key = Inr g"
    and n: "GenerateSecureRandom (int (gcm_NonceSize g)) r = (Inr nonce, r')" and ct: "ct = nonce @ gcm_Seal g nonce pt"
    by (auto simp: pkcs11_Wrap_def split: option.splits sum.splits prod.splits)
  have "length nonce = gcm_NonceSize g" using n by (auto dest: GenerateSecureRandom_length)
  with crypto11_okD(1) [OF assms(1) k(2)] k ct assms(2) show ?thesis by (simp add: pkcs11_Unwrap_def)
qed

lemma pkcs11_backend_ok: "crypto11_ok C L \<Longrightarrow> backend_ok (pkcs11_backend C b)"
  by (auto simp: backend_ok_def pkcs11_backend_def dest: pkcs11_unwrap_wrap)

interpretation p11: dek_wrapping "\<lambda>(C, L, b). crypto11_ok C L"
  "\<lambda>(C, L, b). hsm_WrapDEK (pkcs11_backend C b)" "\<lambda>(C, L, b). hsm_UnwrapDEK (pkcs11_backend C b)"
proof
  fix k :: "('a, 'b, 'c, 'd) crypto11 \<times> ('e, 'd) pki \<times> 'b pkcs11Backend" and dek r ct r'
  obtain C L b where k: "k = (C, L, b)" by (cases k)
  assume "(case k of (C, L, b) \<Rightarrow> hsm_WrapDEK (pkcs11_backend C b)) dek r = (Inr ct, r')"
  then have w: "hsm_WrapDEK (pkcs11_backend C b) dek r = (Inr ct, r')" by (simp add: k)
  then show "\<not> destroyed dek" by (rule hsm.wrap_live)
  assume "case k of (C, L, b) \<Rightarrow> crypto11_ok C L" "sb_data dek \<noteq> []"
  then show "(case k of (C, L, b) \<Rightarrow> hsm_UnwrapDEK (pkcs11_backend C b)) ct = Inr \<lparr>sb_data = sb_data dek, destroyed = False\<rparr>"
    using hsm.unwrap_wrap [OF pkcs11_backend_ok w] by (auto simp: k)
qed

section \<open>Properties\<close>

lemma NewPKCS11Backend_key:
  assumes "crypto11_ok C L" "NewPKCS11Backend C lib slot pin keyID t = (Inr b, t')"
  obtains s where "p_key b = Some s" "FindKey C (bytes_of keyID) t' = Inr (Some s)"
  using assms crypto11_okD(2) [OF assms(1)]
  by (auto simp: NewPKCS11Backend_def Let_def split: if_splits option.splits sum.splits prod.splits)

text \<open>A second start finds the key and generates nothing.\<close>

lemma NewPKCS11Backend_again:
  assumes "FindKey C (bytes_of keyID) t = Inr (Some s)" "NewPKCS11Backend C lib slot pin keyID t = (Inr b, t')"
  shows "p_key b = Some s \<and> t' = t"
  using assms by (auto simp: NewPKCS11Backend_def Let_def split: if_splits option.splits)

text \<open>
  Data keys survive a restart of a server whose master key is in a PKCS#11 token: what
  the KEK of the first process wrapped, the KEK of a later process that opens the token under the same
  key identifier unwraps to the same data key, whatever happened on the token in between, as long as
  it still holds the key; and the later process leaves the token as it finds it.
\<close>

theorem hsm_restart:
  assumes "crypto11_ok C L"
    and "NewPKCS11Backend C lib slot pin keyID t0 = (Inr b1, t1)"
    and "FindKey C (bytes_of keyID) t2 = FindKey C (bytes_of keyID) t1"
    and "NewPKCS11Backend C lib' slot' pin' keyID t2 = (Inr b2, t3)"
    and "hsm_KEKRef (NewHSMUnsealer (pkcs11_backend C b1)) = Inr kek1" "hsm_KEKRef (NewHSMUnsealer (pkcs11_backend C b2)) = Inr kek2"
    and "WrapDEK P kek1 dek r = (Inr ct, r')"
  shows "UnwrapDEK P kek2 ct = Inr dek \<and> t3 = t2"
proof -
  obtain s where s: "p_key b1 = Some s" "FindKey C (bytes_of keyID) t1 = Inr (Some s)"
    using NewPKCS11Backend_key [OF assms(1,2)] .
  with assms(3) have b2: "p_key b2 = Some s" "t3 = t2" using NewPKCS11Backend_again [OF _ assms(4)] by simp_all
  from assms(5-7) have w: "pkcs11_Wrap C b1 (sb_data dek) r = (Inr ct, r')" and live: "\<not> destroyed dek"
    and k: "kek2 = hsmKEK (pkcs11_backend C b2)"
    by (auto simp: hsm_KEKRef_def NewHSMUnsealer_def hsm_WrapDEK_def pkcs11_backend_def split: if_splits)
  have "pkcs11_Unwrap C b2 ct = Inr (sb_data dek)" using pkcs11_unwrap_wrap [OF assms(1) _ w, of b2] s b2 by simp
  with k live b2(2) show ?thesis by (cases dek) (simp add: hsm_UnwrapDEK_def pkcs11_backend_def NewSecureBuffer_def)
qed

text \<open>A signature the token makes verifies, for each of the three algorithms, and the exported public
  key is the one that was returned at generation.\<close>

lemma generated_signer:
  assumes "crypto11_ok C L" "GenerateSigningKey C L keyID algo t = (Inr pem, t')"
  obtains k where "find_signer C keyID t' = Inr k" "pub_kind L (signer_Public C k) \<noteq> OtherKind" "marshalPublicKey L (signer_Public C k) = Inr pem"
  using assms crypto11_okD(3,4) [OF assms(1)]
  by (auto simp: GenerateSigningKey_def find_signer_def Let_def split: if_splits prod.splits sum.splits)

theorem hsm_signatures:
  assumes "crypto11_ok C L" "GenerateSigningKey C L keyID algo t = (Inr pem, t')" "pkcs11_Sign C sha keyID msg t' = Inr sig"
  shows "pkcs11_Verify C L sha keyID msg sig t' = Inr True \<and> GetPublicKey C L keyID t' = Inr pem"
proof -
  obtain k where k: "find_signer C keyID t' = Inr k" "pub_kind L (signer_Public C k) \<noteq> OtherKind" "marshalPublicKey L (signer_Public C k) = Inr pem"
    using generated_signer [OF assms(1,2)] .
  with assms(3) have "raw_verify L (signer_Public C k) (sha msg) sig"
    using crypto11_okD(5) [OF assms(1)] by (auto simp: pkcs11_Sign_def bindR_def wrapR_def split: sum.splits)
  with k show ?thesis by (auto simp: pkcs11_Verify_def GetPublicKey_def bindR_def Let_def split: key_kind.splits)
qed

section \<open>The assembled server\<close>

text \<open>The configuration that \<^verbatim>\<open>buildClusterMode\<close> hands over has neither library, slot nor PIN.\<close>

definition boot_HSMConfig :: "UnsealModeConf \<Rightarrow> HSMConfig" where
  "boot_HSMConfig u = \<lparr>hsm_Backend = HSMBackend u, hsm_KeyID = HSMKeyID u, LibPath = '''', Slot = 0, PIN = ''''\<rparr>"

text \<open>So the token can never be reached: with the PKCS#11 back end compiled in, the assembly succeeds
  exactly where it does without it, with the mock, whose key is lost with the process.\<close>

theorem pkcs11_unreachable:
  assumes "hsm_tag B"
  shows "pkcs11_BuildHSMBackend C (b_aead B) (boot_HSMConfig u) r t =
     (case hsm_backend B (HSMBackend u) r of
        (Inr b, r1) \<Rightarrow> (Inr b, r1, t)
      | (Inl e, r1) \<Rightarrow> (Inl (if HSMBackend u = ''pkcs11'' then Msg ''seal: pkcs11: lib_path is required'' else e), r1, t))"
  using assms
  by (auto simp: pkcs11_BuildHSMBackend_def boot_HSMConfig_def hsm_backend_def BuildHSMBackend_def NewPKCS11Backend_def
      split: prod.splits sum.splits)

section \<open>A concrete token\<close>

text \<open>A token that holds secret keys by identifier; a key is the number of keys before it.\<close>

definition toy_crypto11 :: "((bytes \<times> nat) list, nat, key_kind, key_kind) crypto11" where
  "toy_crypto11 = \<lparr>Configure = (\<lambda>_ _ _ _. None), FindKey = (\<lambda>i t. Inr (map_of t i)),
     GenerateSecretKey = (\<lambda>i _ t. (Inr (length t), (i, length t) # t)),
     NewGCM = (\<lambda>s. Inr \<lparr>gcm_NonceSize = 12, gcm_Seal = (\<lambda>n pt. of_nat s # pt), gcm_Open = (\<lambda>n ct. if ct \<noteq> [] \<and> hd ct = of_nat s then Inr (tl ct) else Inl (Msg ''open''))\<rparr>),
     GenerateRSAKeyPair = (\<lambda>_ _ t. (Inl (Msg ''toy''), t)), GenerateECDSAKeyPair = (\<lambda>_ t. (Inl (Msg ''toy''), t)),
     FindKeyPair = (\<lambda>_ _. Inr None), signer_Public = id, signer_Sign = (\<lambda>_ _. Inl (Msg ''toy''))\<rparr>"

lemma toy_crypto11_ok: "crypto11_ok toy_crypto11 toy_pki"
  by (auto simp: crypto11_ok_def toy_crypto11_def)

theorem hsm_restart_witness:
  "\<exists>b1 b2 ct r'. NewPKCS11Backend toy_crypto11 ''lib'' 0 ''1234'' ''cmk'' [] = (Inr b1, [(bytes_of ''cmk'', 0)])
     \<and> NewPKCS11Backend toy_crypto11 ''lib'' 0 ''1234'' ''cmk'' [([1], 1), (bytes_of ''cmk'', 0)] = (Inr b2, [([1], 1), (bytes_of ''cmk'', 0)])
     \<and> WrapDEK toy_prims (hsmKEK (pkcs11_backend toy_crypto11 b1)) toy_dek (zero_source\<lparr>pos := 0\<rparr>) = (Inr ct, r')
     \<and> UnwrapDEK toy_prims (hsmKEK (pkcs11_backend toy_crypto11 b2)) ct = Inr toy_dek"
proof -
  let ?b = "\<lparr>p_keyID = bytes_of ''cmk'', p_key = Some 0, p_keyLen = 256\<rparr>"
  let ?k = "hsmKEK (pkcs11_backend toy_crypto11 ?b)"
  have n: "bytes_of ''cmk'' \<noteq> [1]" by (simp add: bytes_of_def)
  have b1: "NewPKCS11Backend toy_crypto11 ''lib'' 0 ''1234'' ''cmk'' [] = (Inr ?b, [(bytes_of ''cmk'', 0)])"
    by (simp add: NewPKCS11Backend_def toy_crypto11_def)
  have b2: "NewPKCS11Backend toy_crypto11 ''lib'' 0 ''1234'' ''cmk'' [([1], 1), (bytes_of ''cmk'', 0)] = (Inr ?b, [([1], 1), (bytes_of ''cmk'', 0)])"
    using n by (simp add: NewPKCS11Backend_def toy_crypto11_def)
  have f: "FindKey toy_crypto11 (bytes_of ''cmk'') [([1], 1), (bytes_of ''cmk'', 0)] = FindKey toy_crypto11 (bytes_of ''cmk'') [(bytes_of ''cmk'', 0)]"
    using n by (simp add: toy_crypto11_def)
  have k: "hsm_KEKRef (NewHSMUnsealer (pkcs11_backend toy_crypto11 ?b)) = Inr ?k"
    by (simp add: hsm_KEKRef_def NewHSMUnsealer_def)
  have "\<exists>ct r'. WrapDEK toy_prims ?k toy_dek (zero_source\<lparr>pos := 0\<rparr>) = (Inr ct, r')"
    using zero_source_random [of 12 0]
    by (simp add: hsm_WrapDEK_def toy_dek_def pkcs11_backend_def pkcs11_Wrap_def toy_crypto11_def)
  then obtain ct r' where w: "WrapDEK toy_prims ?k toy_dek (zero_source\<lparr>pos := 0\<rparr>) = (Inr ct, r')" by blast
  from hsm_restart [OF toy_crypto11_ok b1 f b2 k k w] b1 b2 w show ?thesis by blast
qed

end
