(* ===== verification/Alert.thy ===== *)
theory Alert
  imports Bootstrap ServiceProps
begin

text \<open>
  \<^verbatim>\<open>internal/observability/alerting.go\<close>: which events a webhook is told of and in what form, and
  the adapter of \<^verbatim>\<open>internal/bootstrap/bootstrap.go\<close> that hands the alerts of the service core to
  it. Posting is the parameter \<open>webhook\<close>; the result of an alert is its error and what was posted. The
  theory \<open>Service\<close> keeps the alerts that the core raises as pairs of operation and resource; the
  theorems say which operations raise one and what becomes of it.
\<close>

section \<open>Configuration and events\<close>

record AlertConfig =
  alert_Enabled :: bool
  alert_WebhookURL :: string
  alert_HighRiskOperations :: "string list"

record AlertEvent =
  ev_Operation :: string
  ev_Actor :: string
  ev_Resource :: string
  ev_Timestamp :: time
  ev_TraceID :: string
  ev_Description :: string

datatype Alerter = NoopAlerter | WebhookAlerter AlertConfig

record webhook =
  json_Marshal :: "json \<Rightarrow> bytes res"
  http_NewRequest :: "string \<Rightarrow> err option"
  http_Do :: "string \<Rightarrow> bytes \<Rightarrow> int res"

definition NewWebhookAlerter :: "AlertConfig \<Rightarrow> Alerter" where
  "NewWebhookAlerter cfg = WebhookAlerter cfg"

definition NewAlerter :: "AlertConfig \<Rightarrow> Alerter" where
  "NewAlerter cfg = (if \<not> alert_Enabled cfg then NoopAlerter else NewWebhookAlerter cfg)"

section \<open>The message\<close>

text \<open>\<^verbatim>\<open>time.RFC3339\<close> of a time in UTC.\<close>

definition rfc3339 :: "time \<Rightarrow> string" where
  "rfc3339 t =
     (let (y, m, d) = civil (nat (t div (24 * hour))); s = nat (t mod (24 * hour) div second)
      in pad 4 y @ ''-'' @ pad 2 m @ ''-'' @ pad 2 d @ ''T'' @ pad 2 (s div 3600) @ '':'' @ pad 2 (s div 60 mod 60) @ '':'' @ pad 2 (s mod 60) @ ''Z'')"

text \<open>The words of the messages, as the bytes of their UTF-8 form.\<close>

definition txt_title :: string where "txt_title = ''Yvonne KMS '' @ string_of [0xE9, 0xAB, 0x98, 0xE5, 0x8D, 0xB1, 0xE6, 0x93, 0x8D, 0xE4, 0xBD, 0x9C, 0xE5, 0x91, 0x8A, 0xE8, 0xAD, 0xA6]"
definition txt_siren :: string where "txt_siren = string_of [0xF0, 0x9F, 0x9A, 0xA8] @ '' ''"
definition txt_operation :: string where "txt_operation = string_of [0xE6, 0x93, 0x8D, 0xE4, 0xBD, 0x9C]"
definition txt_actor :: string where "txt_actor = string_of [0xE6, 0x93, 0x8D, 0xE4, 0xBD, 0x9C, 0xE8, 0x80, 0x85]"
definition txt_resource :: string where "txt_resource = string_of [0xE8, 0xB5, 0x84, 0xE6, 0xBA, 0x90]"
definition txt_time :: string where "txt_time = string_of [0xE6, 0x97, 0xB6, 0xE9, 0x97, 0xB4]"
definition txt_description :: string where "txt_description = string_of [0xE6, 0x8F, 0x8F, 0xE8, 0xBF, 0xB0]"
definition newline :: string where "newline = string_of [0x0A]"

fun high_risk_loop :: "string list \<Rightarrow> string \<Rightarrow> bool" where
  "high_risk_loop [] operation = False"
| "high_risk_loop (op # ops) operation = (if op = operation then True else high_risk_loop ops operation)"

definition isHighRisk :: "AlertConfig \<Rightarrow> string \<Rightarrow> bool" where
  "isHighRisk cfg operation = high_risk_loop (alert_HighRiskOperations cfg) operation"

text \<open>One line per field: marks around the label, a colon and the value.\<close>

definition field_line :: "string \<Rightarrow> string \<Rightarrow> string \<Rightarrow> string" where
  "field_line star label v = star @ label @ star @ '': '' @ v"

definition slack_text :: "AlertEvent \<Rightarrow> string" where
  "slack_text event = txt_siren @ ''*'' @ txt_title @ ''*'' @ newline @ newline @
     field_line ''*'' txt_operation (ev_Operation event) @ newline @ field_line ''*'' txt_actor (ev_Actor event) @ newline @
     field_line ''*'' txt_resource (ev_Resource event) @ newline @ field_line ''*'' txt_time (rfc3339 (ev_Timestamp event)) @ newline @
     field_line ''*'' ''TraceID'' (ev_TraceID event) @ newline @ field_line ''*'' txt_description (ev_Description event)"

definition dingtalk_text :: "AlertEvent \<Rightarrow> string" where
  "dingtalk_text event = ''## '' @ txt_siren @ txt_title @ newline @ newline @
     field_line ''**'' txt_operation (ev_Operation event) @ newline @ newline @ field_line ''**'' txt_actor (ev_Actor event) @ newline @ newline @
     field_line ''**'' txt_resource (ev_Resource event) @ newline @ newline @ field_line ''**'' txt_time (rfc3339 (ev_Timestamp event)) @ newline @ newline @
     field_line ''**'' ''TraceID'' (ev_TraceID event) @ newline @ newline @ field_line ''**'' txt_description (ev_Description event)"

definition pagerduty_payload :: "AlertEvent \<Rightarrow> json" where
  "pagerduty_payload event =
     JObj [(''routing_key'', JString []), (''event_action'', JString ''trigger''),
       (''payload'', JObj [(''summary'', JString (''Yvonne KMS: '' @ ev_Operation event @ '' by '' @ ev_Actor event)),
          (''severity'', JString ''critical''), (''source'', JString ''yvonne-kms''),
          (''custom_details'', JObj [(''operation'', JString (ev_Operation event)), (''actor'', JString (ev_Actor event)),
             (''resource'', JString (ev_Resource event)), (''trace_id'', JString (ev_TraceID event)),
             (''timestamp'', JString (rfc3339 (ev_Timestamp event)))])])]"

definition formatPayload :: "AlertConfig \<Rightarrow> AlertEvent \<Rightarrow> json" where
  "formatPayload cfg event =
     (let webhookURL = alert_WebhookURL cfg
      in if contains webhookURL ''hooks.slack.com'' then JObj [(''text'', JString (slack_text event))]
         else if contains webhookURL ''oapi.dingtalk.com'' then
           JObj [(''msgtype'', JString ''markdown''),
             (''markdown'', JObj [(''title'', JString txt_title), (''text'', JString (dingtalk_text event))])]
         else if contains webhookURL ''pagerduty.com'' then pagerduty_payload event
         else JObj [(''alert'', JString ''yvonne-kms''), (''operation'', JString (ev_Operation event)), (''actor'', JString (ev_Actor event)),
           (''resource'', JString (ev_Resource event)), (''timestamp'', JString (rfc3339 (ev_Timestamp event))),
           (''trace_id'', JString (ev_TraceID event)), (''description'', JString (ev_Description event))])"

section \<open>Sending\<close>

text \<open>The pairs of address and body posted are the second component. The payload is never nil.\<close>

definition webhook_Alert :: "webhook \<Rightarrow> AlertConfig \<Rightarrow> AlertEvent \<Rightarrow> err option \<times> (string \<times> bytes) list" where
  "webhook_Alert W cfg event =
     (if \<not> alert_Enabled cfg then (None, [])
      else if \<not> isHighRisk cfg (ev_Operation event) then (None, [])
      else case json_Marshal W (formatPayload cfg event) of
          Inl e \<Rightarrow> (Some (Wrap ''observability: marshal alert payload'' e), [])
        | Inr body \<Rightarrow>
            (case http_NewRequest W (alert_WebhookURL cfg) of
               Some e \<Rightarrow> (Some (Wrap ''observability: create alert request'' e), [])
             | None \<Rightarrow>
                 (case http_Do W (alert_WebhookURL cfg) body of
                    Inl e \<Rightarrow> (Some (Wrap ''observability: send alert'' e), [(alert_WebhookURL cfg, body)])
                  | Inr status \<Rightarrow>
                      if status \<ge> 400 then (Some (Msg ''observability: alert webhook returned an error status''), [(alert_WebhookURL cfg, body)])
                      else (None, [(alert_WebhookURL cfg, body)]))))"

fun Alerter_Alert :: "webhook \<Rightarrow> Alerter \<Rightarrow> AlertEvent \<Rightarrow> err option \<times> (string \<times> bytes) list" where
  "Alerter_Alert W NoopAlerter event = (None, [])"
| "Alerter_Alert W (WebhookAlerter cfg) event = webhook_Alert W cfg event"

text \<open>The adapter leaves actor and trace identifier empty. \<open>core_alerter\<close> is what the assembly
  installs in the core.\<close>

definition adapter_Alert :: "webhook \<Rightarrow> Alerter \<Rightarrow> time \<Rightarrow> string \<Rightarrow> string \<Rightarrow> string \<Rightarrow> err option \<times> (string \<times> bytes) list" where
  "adapter_Alert W a now operation resource description =
     Alerter_Alert W a \<lparr>ev_Operation = operation, ev_Actor = [], ev_Resource = resource, ev_Timestamp = now, ev_TraceID = [], ev_Description = description\<rparr>"

definition core_alerter :: "YvonneConfig \<Rightarrow> Alerter" where
  "core_alerter cfg =
     (let a = Alerting (Observability cfg)
      in NewAlerter \<lparr>alert_Enabled = alerting_Enabled a, alert_WebhookURL = WebhookURL a, alert_HighRiskOperations = HighRiskOperations a\<rparr>)"

section \<open>What is sent\<close>

lemma high_risk_loop_iff: "high_risk_loop ops x \<longleftrightarrow> x \<in> set ops"
  by (induction ops) auto

text \<open>The text parts of a message.\<close>

fun texts :: "json \<Rightarrow> string list" where
  "texts (JString s) = [s]"
| "texts (JArr js) = concat (map texts js)"
| "texts (JObj fs) = concat (map (\<lambda>(_, j). texts j) fs)"
| "texts _ = []"

lemma contains_here: "contains (p @ b) p"
  by (cases "p @ b") (use has_prefix_append [of p b] in auto)

lemma contains_skip: "contains s p \<Longrightarrow> contains (a @ s) p"
  by (induction a) auto

lemma texts_named:
  "contains (slack_text event) (ev_Operation event)" "contains (slack_text event) (ev_Resource event)"
  "contains (dingtalk_text event) (ev_Operation event)" "contains (dingtalk_text event) (ev_Resource event)"
  unfolding slack_text_def dingtalk_text_def field_line_def append_assoc
  by ((rule contains_here | rule contains_skip)+)+

text \<open>Whatever the form, the message names the operation and the resource.\<close>

lemma message_names_event:
  "\<exists>s \<in> set (texts (formatPayload cfg event)). contains s (ev_Operation event)"
  "\<exists>s \<in> set (texts (formatPayload cfg event)). contains s (ev_Resource event)"
  using texts_named [of event] contains_here [of _ "[]"]
  by (auto simp: formatPayload_def pagerduty_payload_def Let_def)

text \<open>Only a failing unwrap of a data key raises an alert, once, and the operation fails.\<close>

lemma alerts_recordAudit [simp]: "alerts (recordAudit cc a k s c) = alerts c"
  by (simp add: recordAudit_def Let_def split: option.split)

lemma Encrypt_alerts:
  assumes "core_Encrypt P U cc k pt policy c r = (x, c', r')"
  shows "alerts c' = alerts c \<or> alerts c' = alerts c @ [(''KEKUnwrapFailure'', k)] \<and> (\<exists>e. x = Inl e)"
  using assms by (auto simp: core_Encrypt_def alert_def Let_def split: option.splits prod.splits sum.splits)

lemma Decrypt_alerts:
  assumes "core_Decrypt P U cc k ct policy c = (x, c')"
  shows "alerts c' = alerts c \<or> alerts c' = alerts c @ [(''KEKUnwrapFailure'', k)] \<and> (\<exists>e. x = Inl e)"
  using assms by (auto simp: core_Decrypt_def alert_def Let_def split: option.splits prod.splits sum.splits if_splits)

lemma ReEncrypt_alerts:
  assumes "core_ReEncrypt P U cc k ct k2 policy c r = (x, c', r')"
  shows "alerts c' = alerts c \<or> (\<exists>q. alerts c' = alerts c @ [(''KEKUnwrapFailure'', q)]) \<and> (\<exists>e. x = Inl e)"
  using assms
  by (auto simp: core_ReEncrypt_def Let_def split: option.splits prod.splits sum.splits if_splits dest!: Encrypt_alerts Decrypt_alerts)

lemma core_alerts:
  assumes "core_step L U policy needs action (c, r) out (c', r')"
  shows "alerts c' = alerts c \<or> (\<exists>k. alerts c' = alerts c @ [(''KEKUnwrapFailure'', k)]) \<and> out \<noteq> None \<and> action \<in> {''Encrypt'', ''Decrypt'', ''ReEncrypt''}"
  using assms
proof (cases rule: core_step.cases)
  case core_encrypt
  then show ?thesis using Encrypt_alerts by fastforce
next
  case core_decrypt
  then show ?thesis using Decrypt_alerts by fastforce
next
  case core_reencrypt
  then show ?thesis using ReEncrypt_alerts by fastforce
qed (auto simp: core_defs manager_op_def Let_def split: option.splits prod.splits sum.splits if_splits)

lemma adapter_sends:
  assumes "json_Marshal W (formatPayload cfg event) = Inr body" "http_NewRequest W (alert_WebhookURL cfg) = None"
  shows "snd (Alerter_Alert W (NewAlerter cfg) event) =
    (if alert_Enabled cfg \<and> ev_Operation event \<in> set (alert_HighRiskOperations cfg) then [(alert_WebhookURL cfg, body)] else [])"
  using assms
  by (auto simp: NewAlerter_def NewWebhookAlerter_def webhook_Alert_def isHighRisk_def high_risk_loop_iff split: sum.splits)


text \<open>With the operations that the manual lists for the configuration, no message is ever posted.\<close>

theorem documented_alerts_dead:
  assumes "core_step L U policy needs action (c, r) out (c', r')" "(op, k) \<in> set (drop (length (alerts c)) (alerts c'))"
    and "HighRiskOperations (Alerting (Observability cfg)) = [''ShredKey'', ''EmergencySeal'', ''QuorumReject'']"
  shows "adapter_Alert W (core_alerter cfg) now op k desc = (None, [])"
proof -
  have "op = ''KEKUnwrapFailure''" using core_alerts [OF assms(1)] assms(2) by auto
  with assms(3) show ?thesis
    by (simp add: adapter_Alert_def core_alerter_def NewAlerter_def NewWebhookAlerter_def webhook_Alert_def isHighRisk_def Let_def)
qed

text \<open>Events for PagerDuty carry an empty routing key, whatever is configured.\<close>

theorem pagerduty_unrouted:
  assumes "contains (alert_WebhookURL cfg) ''pagerduty.com''"
    and "\<not> contains (alert_WebhookURL cfg) ''hooks.slack.com''" "\<not> contains (alert_WebhookURL cfg) ''oapi.dingtalk.com''"
  shows "\<exists>fs. formatPayload cfg event = JObj ((''routing_key'', JString []) # fs)"
  using assms by (simp add: formatPayload_def pagerduty_payload_def)

section \<open>A failing unwrap\<close>

definition bad_prims :: prims where
  "bad_prims = \<lparr>aes = toy_aead\<lparr>gcm_open := (\<lambda>_ _ _. None)\<rparr>, sm4 = toy_aead\<rparr>"

definition toy_webhook :: webhook where
  "toy_webhook = \<lparr>json_Marshal = (\<lambda>_. Inr [7]), http_NewRequest = (\<lambda>_. None), http_Do = (\<lambda>_ _. Inr 200)\<rparr>"

definition alerting_config :: YvonneConfig where
  "alerting_config = yvonne_default\<lparr>Observability := (Observability yvonne_default)\<lparr>Alerting := \<lparr>alerting_Enabled = True, WebhookURL = ''https://h'',
     HighRiskOperations = [''KEKUnwrapFailure'']\<rparr>\<rparr>\<rparr>"

lemma bad_encrypt:
  "\<exists>e c'. core_Encrypt bad_prims toy_unicode toy_call ''k'' [5, 6] None toy_core zero_source = (Inl e, c', zero_source)
    \<and> alerts c' = [(''KEKUnwrapFailure'', ''k'')]"
proof -
  have "\<exists>e. UnwrapDEK bad_prims toy_kek (EncryptedMaterial toy_meta) = Inl e"
    by (simp add: toy_kek_def NewSoftwareKEK_def bad_prims_def toy_meta_def create_meta_def DecryptGCM_def gcmNonceSize_def gcmKeySize_def
        toy_key_def WithKey_def toy_aead_def)
  then show ?thesis
    using toy_active toy_vault(1) toy_unsealed [of toy_core]
    by (auto simp: core_Encrypt_def toy_core_def NewCore_def authorize_def toy_call_def alert_def Let_def)
qed


end
