(* ===== verification/Startup.thy ===== *)
theory Startup
  imports Bootstrap
begin

text \<open>
  The part of \<^verbatim>\<open>cmd/yvonne/main.go\<close> that runs a server: the choice of the command, the commands
  \<^verbatim>\<open>server\<close> and \<^verbatim>\<open>dev\<close> and \<^verbatim>\<open>startYvonne\<close>, with the national TLS settings of
  \<^verbatim>\<open>internal/config/tlsconfig_gmsm.go\<close> and the set-up of tracing in
  \<^verbatim>\<open>internal/observability/tracing.go\<close>. A run is the list of its effects in order, the way it ends
  and the server it leaves. \<^verbatim>\<open>log.Fatalf\<close> ends the process without the deferred calls. Parsed
  flags are arguments; the libraries that are called are in \<open>start_env\<close>.
\<close>

section \<open>Commands\<close>

datatype command =
    ServerCmd "string list" | DevCmd "string list" | UnsealKeygenCmd "string list" | InitCmd "string list"
  | BackupSplitCmd "string list" | BackupRestoreCmd "string list" | AuditVerifyCmd "string list" | CompletionCmd "string list"
  | Usage int

definition main_command :: "string list \<Rightarrow> command" where
  "main_command osArgs =
     (if length osArgs < 2 then Usage 1
      else let cmd = osArgs ! 1; args = drop 2 osArgs
        in if cmd = ''server'' then ServerCmd args
           else if cmd = ''dev'' then DevCmd args
           else if cmd = ''unseal-keygen'' then UnsealKeygenCmd args
           else if cmd = ''init'' then InitCmd args
           else if cmd = ''backup-split'' then BackupSplitCmd args
           else if cmd = ''backup-restore'' then BackupRestoreCmd args
           else if cmd = ''audit-verify'' then AuditVerifyCmd args
           else if cmd = ''completion'' then CompletionCmd args
           else if cmd \<in> {''-h'', ''--help'', ''help''} then Usage 0
           else Usage 1)"

section \<open>tlsconfig\_gmsm.go\<close>

record gm_settings =
  gm_certificates :: "bytes list"
  gm_client_auth :: client_auth
  gm_client_cas :: "bytes option"

text \<open>\<open>gm_load\<close> is \<^verbatim>\<open>gmtls.LoadX509KeyPair\<close>, \<open>gm_listen\<close> \<^verbatim>\<open>gmtls.Listen\<close>. Without the build tag
  both functions fail.\<close>

record start_env =
  gm_load :: "string \<Rightarrow> string \<Rightarrow> bytes res"
  gm_listen :: "string \<Rightarrow> err option"
  net_Listen :: "string \<Rightarrow> err option"
  grpc_NewClient :: "string \<Rightarrow> err option"
  otlp_New :: "err option"
  resource_New :: "err option"
  yaml_Unmarshal :: "bytes \<Rightarrow> YvonneConfig \<Rightarrow> YvonneConfig res"

definition BuildGMTLSConfig :: "bool \<Rightarrow> start_env \<Rightarrow> config_env \<Rightarrow> (bytes \<Rightarrow> bool) \<Rightarrow> TLSConfig \<Rightarrow> gm_settings res" where
  "BuildGMTLSConfig gmsm S E pool_ok cfg =
     (if \<not> gmsm then Inl (Msg ''config: gm_tls requires -tags gmsm'')
      else if \<not> GMEnabled cfg then Inl (Msg ''config: gm_tls not enabled'')
      else if GMSignCertFile cfg = '''' \<or> GMSignKeyFile cfg = '''' then
        Inl (Msg ''config: gm_sign_cert_file and gm_sign_key_file are required for gm_tls'')
      else if GMEncCertFile cfg = '''' \<or> GMEncKeyFile cfg = '''' then
        Inl (Msg ''config: gm_enc_cert_file and gm_enc_key_file are required for gm_tls'')
      else
        bindR (wrapR ''config: load SM2 sign cert'' (gm_load S (GMSignCertFile cfg) (GMSignKeyFile cfg))) (\<lambda>signCert.
        bindR (wrapR ''config: load SM2 enc cert'' (gm_load S (GMEncCertFile cfg) (GMEncKeyFile cfg))) (\<lambda>encCert.
        bindR (if ClientAuth cfg = ''require'' then Inr RequireAndVerifyClientCert
               else if ClientAuth cfg = ''optional'' then Inr VerifyClientCertIfGiven
               else if ClientAuth cfg = '''' \<or> ClientAuth cfg = ''none'' then Inr NoClientCert
               else Inl (Msg ''config: unsupported tls.client_auth'')) (\<lambda>kind.
          let base = \<lparr>gm_certificates = [signCert, encCert], gm_client_auth = kind, gm_client_cas = None\<rparr>
          in if kind = NoClientCert then Inr base
             else if ClientCAFile cfg = '''' then Inl (Msg ''config: tls.client_auth require/optional needs client_ca_file'')
             else bindR (wrapR ''config: read client_ca_file'' (env_ReadFile E (ClientCAFile cfg))) (\<lambda>caPEM.
               if \<not> pool_ok caPEM then Inl (Msg ''config: failed to parse client_ca_file (invalid PEM)'')
               else Inr (base\<lparr>gm_client_cas := Some caPEM\<rparr>))))))"

definition NewGMTLSListener :: "bool \<Rightarrow> start_env \<Rightarrow> string \<Rightarrow> err option" where
  "NewGMTLSListener gmsm S addr =
     (if \<not> gmsm then Some (Msg ''config: gm_tls listener requires -tags gmsm'')
      else map_option (Wrap ''config: gmtls listen'') (gm_listen S addr))"

section \<open>tracing.go\<close>

text \<open>The result is the service name of the tracer, \<open>None\<close> for the tracer that exports nothing.\<close>

definition InitTracer :: "start_env \<Rightarrow> TracingConfig \<Rightarrow> string option res" where
  "InitTracer S cfg =
     (if \<not> tracing_Enabled cfg then Inr None
      else if tracing_Endpoint cfg = '''' then Inl (Msg ''observability: tracing endpoint is required when enabled'')
      else let serviceName = (if ServiceName cfg = '''' then ''yvonne-kms'' else ServiceName cfg)
        in case grpc_NewClient S (tracing_Endpoint cfg) of
             Some e \<Rightarrow> Inl (Wrap ''observability: create gRPC connection'' e)
           | None \<Rightarrow>
               (case otlp_New S of
                  Some e \<Rightarrow> Inl (Wrap ''observability: create OTLP trace exporter'' e)
                | None \<Rightarrow>
                    (case resource_New S of
                       Some e \<Rightarrow> Inl (Wrap ''observability: create resource'' e)
                     | None \<Rightarrow> Inr (Some serviceName))))"

section \<open>startYvonne\<close>

text \<open>\<open>Serving\<close> and \<open>ShutDown\<close> name the servers: api, admin, grpc and mcp. \<open>ReloadReady\<close> says whether
  SIGHUP reloads the configuration.\<close>

datatype effect =
    TLSWarning | DaemonStarted | Serving string | MCPStdio | ReloadReady bool
  | DaemonCancelled | ShutDown string | TracerShutdown | Closed

datatype ending = FatalExit | Crashed | Returned

definition api_address :: "YvonneConfig \<Rightarrow> string" where
  "api_address cfg = BindAddr (Server cfg) @ '':'' @ dec_int (BindPort (Server cfg))"

text \<open>The TLS settings: \<open>None\<close> without TLS, else whether they are the national ones.\<close>

definition tls_setup :: "('k, 'p, 'v) boot_env \<Rightarrow> start_env \<Rightarrow> TLSConfig \<Rightarrow> bool option res" where
  "tls_setup B S tls =
     (if \<not> tls_Enabled tls then Inr None
      else if GMEnabled tls then bindR (BuildGMTLSConfig (gmsm_tag B) S (b_config B) (b_pool_ok B) tls) (\<lambda>_. Inr (Some True))
      else bindR (BuildTLSConfig (b_config B) (b_pool_ok B) tls) (\<lambda>_. Inr (Some False)))"

text \<open>The national listener is opened in the goroutine of the server, whose error stops the process.\<close>

definition api_effects :: "('k, 'p, 'v) boot_env \<Rightarrow> start_env \<Rightarrow> YvonneConfig \<Rightarrow> bool option \<Rightarrow> effect list" where
  "api_effects B S cfg tls =
     (if tls = Some True \<and> NewGMTLSListener (gmsm_tag B) S (api_address cfg) \<noteq> None then [] else [Serving ''api''])"

definition grpc_address :: "YvonneConfig \<Rightarrow> string" where
  "grpc_address cfg = grpc_BindAddr (GRPC (Server cfg)) @ '':'' @ dec_int (grpc_BindPort (GRPC (Server cfg)))"

definition mcp_effects :: "YvonneConfig \<Rightarrow> ('p, 'v) Server \<Rightarrow> effect list" where
  "mcp_effects cfg srv =
     (if MCPServer_of srv \<noteq> None \<and> mcp_Stdio (MCP (Server cfg)) then [MCPStdio] else []) @
     (if MCPServer_of srv \<noteq> None \<and> HTTPBindPort (MCP (Server cfg)) > 0 then [Serving ''mcp''] else [])"

text \<open>After a signal or the first error of a server; the deferred calls come last, in reverse order.\<close>

definition shutdown_effects :: "YvonneConfig \<Rightarrow> ('p, 'v) Server \<Rightarrow> effect list" where
  "shutdown_effects cfg srv =
     [DaemonCancelled, ShutDown ''api''] @
     (if AdminServer_of srv \<noteq> None then [ShutDown ''admin''] else []) @
     (if GRPCServer_of srv \<noteq> None then [ShutDown ''grpc''] else []) @
     (if MCPServer_of srv \<noteq> None \<and> HTTPBindPort (MCP (Server cfg)) > 0 then [ShutDown ''mcp''] else []) @
     [TracerShutdown, Closed]"

definition offers_grpc :: "YvonneConfig \<Rightarrow> ('p, 'v) Server \<Rightarrow> bool" where
  "offers_grpc cfg srv \<longleftrightarrow> GRPCServer_of srv \<noteq> None \<and> grpc_Enabled (GRPC (Server cfg))"

definition first_effects :: "('k, 'p, 'v) boot_env \<Rightarrow> start_env \<Rightarrow> YvonneConfig \<Rightarrow> ('p, 'v) Server \<Rightarrow> bool option \<Rightarrow> effect list" where
  "first_effects B S cfg srv tls =
     (if RotationDaemon_of srv \<noteq> None then [DaemonStarted] else []) @ api_effects B S cfg tls @
     (if AdminServer_of srv \<noteq> None then [Serving ''admin''] else [])"

definition later_effects :: "YvonneConfig \<Rightarrow> ('p, 'v) Server \<Rightarrow> effect list" where
  "later_effects cfg srv = (if offers_grpc cfg srv then [Serving ''grpc''] else []) @ mcp_effects cfg srv"

definition warning_effects :: "YvonneConfig \<Rightarrow> effect list" where
  "warning_effects cfg = (if Mode cfg = ModeCluster \<and> \<not> tls_Enabled (TLS (Server cfg)) then [TLSWarning] else [])"

definition reload_ready :: "('k, 'p, 'v) boot_env \<Rightarrow> start_env \<Rightarrow> string \<Rightarrow> bool" where
  "reload_ready B S configPath \<longleftrightarrow> configPath \<noteq> '''' \<and>
     (case NewReloadableConfig (b_config B) (yaml_Unmarshal S) configPath of Inl _ \<Rightarrow> False | Inr _ \<Rightarrow> True)"

definition start_tracer :: "start_env \<Rightarrow> YvonneConfig \<Rightarrow> string option res" where
  "start_tracer S cfg =
     (let t = Tracing (Observability cfg)
      in InitTracer S \<lparr>tracing_Enabled = tracing_Enabled t, tracing_Endpoint = tracing_Endpoint t, ServiceName = ServiceName t\<rparr>)"

text \<open>A SIGHUP, while the server runs: the result is logged, nothing of the server changes.\<close>

definition sighup :: "config_env \<Rightarrow> (bytes \<Rightarrow> YvonneConfig \<Rightarrow> YvonneConfig res) \<Rightarrow> ReloadableConfig option \<Rightarrow> ReloadableConfig option" where
  "sighup E unmarshal rc = (case rc of None \<Rightarrow> None | Some c \<Rightarrow> Some (snd (Reload E unmarshal c)))"

definition startYvonne ::
  "('k, 'p, 'v) boot_env \<Rightarrow> start_env \<Rightarrow> YvonneConfig \<Rightarrow> string \<Rightarrow> csprng \<Rightarrow> effect list \<times> ending \<times> ('p, 'v) Server option" where
  "startYvonne B S cfg configPath r =
     (case BuildYvonne B (Some cfg) r of
        (BuildError e, _) \<Rightarrow> ([], FatalExit, None)
      | (Fatal m, _) \<Rightarrow> ([], Crashed, None)
      | (Built srv, _) \<Rightarrow>
          (case tls_setup B S (TLS (Server cfg)) of
             Inl e \<Rightarrow> (warning_effects cfg, FatalExit, Some srv)
           | Inr tls \<Rightarrow>
               let started = warning_effects cfg @ first_effects B S cfg srv tls
               in if offers_grpc cfg srv \<and> net_Listen S (grpc_address cfg) \<noteq> None then (started, FatalExit, Some srv)
                  else case start_tracer S cfg of
                      Inl e \<Rightarrow> (started @ later_effects cfg srv, FatalExit, Some srv)
                    | Inr _ \<Rightarrow>
                        (started @ later_effects cfg srv @ [ReloadReady (reload_ready B S configPath)] @ shutdown_effects cfg srv,
                         Returned, Some (server_Close srv))))"

section \<open>The commands server and dev\<close>

definition runServerCmd ::
  "('k, 'p, 'v) boot_env \<Rightarrow> start_env \<Rightarrow> string \<Rightarrow> csprng \<Rightarrow> effect list \<times> ending \<times> ('p, 'v) Server option" where
  "runServerCmd B S configPath r =
     (if configPath = '''' then ([], FatalExit, None)
      else case LoadYvonneConfig (b_config B) (yaml_Unmarshal S) configPath of
          Inl e \<Rightarrow> ([], FatalExit, None)
        | Inr cfg \<Rightarrow> startYvonne B S cfg configPath r)"

definition dev_config :: "string \<Rightarrow> int \<Rightarrow> YvonneConfig" where
  "dev_config addr port =
     \<lparr>Mode = ModeDev,
      Server = \<lparr>BindAddr = addr, BindPort = port, ReadTimeout = 0, WriteTimeout = 0, MaxConns = 0, TLS = zero_TLS,
        Admin = \<lparr>admin_Enabled = True, admin_BindAddr = ''127.0.0.1'', admin_BindPort = 8250, admin_Token = ''''\<rparr>,
        GRPC = zero_GRPC, MCP = zero_MCP\<rparr>,
      Storage = \<lparr>storage_Type = ''memory'', mode_DSN = ''''\<rparr>,
      Unseal = \<lparr>unseal_Type = ''auto'', unseal_TotalShares = 1, unseal_Threshold = 1, PKIKeyPath = '''',
        unseal_AutoResealAfter = '''', HSMBackend = '''', HSMKeyID = ''''\<rparr>,
      Auth_conf = Auth_conf yvonne_default, Audit = Audit yvonne_default,
      Logging = \<lparr>log_Level = ''info'', log_Format = ''json'', log_Output = ''stdout'', RedactSecrets = True\<rparr>,
      Crypto = Crypto yvonne_default, MFA = MFA yvonne_default, Observability = Observability yvonne_default,
      MultiTenant = MultiTenant yvonne_default\<rparr>"

definition runDevCmd ::
  "('k, 'p, 'v) boot_env \<Rightarrow> start_env \<Rightarrow> string \<Rightarrow> int \<Rightarrow> csprng \<Rightarrow> effect list \<times> ending \<times> ('p, 'v) Server option" where
  "runDevCmd B S addr port r =
     (let cfg = dev_config addr port
      in case ValidateYvonneConfig cfg of
           Some e \<Rightarrow> ([], FatalExit, None)
         | None \<Rightarrow> startYvonne B S cfg '''' r)"

section \<open>Properties\<close>

lemmas effect_defs = warning_effects_def first_effects_def later_effects_def api_effects_def mcp_effects_def shutdown_effects_def offers_grpc_def

lemma start_Returned:
  assumes "startYvonne B S cfg configPath r = (es, Returned, srv')"
  obtains srv r' tls where "BuildYvonne B (Some cfg) r = (Built srv, r')" "srv' = Some (server_Close srv)"
    "es = (warning_effects cfg @ first_effects B S cfg srv tls @ later_effects cfg srv @ [ReloadReady (reload_ready B S configPath)]) @ shutdown_effects cfg srv"
  using assms by (auto simp: startYvonne_def Let_def split: built.splits sum.splits if_splits prod.splits)

text \<open>Before the shutdown nothing is shut down or closed, and whatever was started is shut down later.\<close>

lemma served:
  "Serving w \<notin> set (warning_effects cfg)"
  "Serving w \<in> set (first_effects B S cfg srv tls) \<Longrightarrow> w = ''api'' \<or> w = ''admin'' \<and> AdminServer_of srv \<noteq> None"
  "Serving w \<in> set (later_effects cfg srv) \<Longrightarrow>
     w = ''grpc'' \<and> GRPCServer_of srv \<noteq> None \<or> w = ''mcp'' \<and> MCPServer_of srv \<noteq> None \<and> HTTPBindPort (MCP (Server cfg)) > 0"
  unfolding warning_effects_def first_effects_def api_effects_def later_effects_def mcp_effects_def offers_grpc_def
  by (simp_all split: if_splits) blast+

lemma not_yet_stopped:
  "ShutDown w \<notin> set (warning_effects cfg)" "ShutDown w \<notin> set (first_effects B S cfg srv tls)" "ShutDown w \<notin> set (later_effects cfg srv)"
  "Closed \<notin> set (warning_effects cfg)" "Closed \<notin> set (first_effects B S cfg srv tls)" "Closed \<notin> set (later_effects cfg srv)"
  by (simp_all add: warning_effects_def first_effects_def api_effects_def later_effects_def mcp_effects_def)

lemma stopped:
  "ShutDown ''api'' \<in> set (shutdown_effects cfg srv)"
  "AdminServer_of srv \<noteq> None \<Longrightarrow> ShutDown ''admin'' \<in> set (shutdown_effects cfg srv)"
  "GRPCServer_of srv \<noteq> None \<Longrightarrow> ShutDown ''grpc'' \<in> set (shutdown_effects cfg srv)"
  "MCPServer_of srv \<noteq> None \<Longrightarrow> HTTPBindPort (MCP (Server cfg)) > 0 \<Longrightarrow> ShutDown ''mcp'' \<in> set (shutdown_effects cfg srv)"
  by (simp_all add: shutdown_effects_def)

lemma running_effects:
  "Closed \<notin> set (warning_effects cfg @ first_effects B S cfg srv tls @ later_effects cfg srv @ [ReloadReady b])"
  "ShutDown w \<notin> set (warning_effects cfg @ first_effects B S cfg srv tls @ later_effects cfg srv @ [ReloadReady b])"
  "Serving w \<in> set (warning_effects cfg @ first_effects B S cfg srv tls @ later_effects cfg srv @ [ReloadReady b]) \<Longrightarrow>
     ShutDown w \<in> set (shutdown_effects cfg srv)"
  by (auto simp: not_yet_stopped served(1) stopped dest!: served(2,3))

lemma shutdown_split:
  obtains stopping where "shutdown_effects cfg srv = [DaemonCancelled] @ stopping @ [Closed]" "Closed \<notin> set stopping" "\<And>w. Serving w \<notin> set stopping"
proof
  let ?s = "[ShutDown ''api''] @ (if AdminServer_of srv \<noteq> None then [ShutDown ''admin''] else []) @
     (if GRPCServer_of srv \<noteq> None then [ShutDown ''grpc''] else []) @
     (if MCPServer_of srv \<noteq> None \<and> HTTPBindPort (MCP (Server cfg)) > 0 then [ShutDown ''mcp''] else []) @ [TracerShutdown]"
  show "shutdown_effects cfg srv = [DaemonCancelled] @ ?s @ [Closed]" by (simp add: shutdown_effects_def)
  show "Closed \<notin> set ?s" "\<And>w. Serving w \<notin> set ?s" by simp_all
qed

lemma built_master_key_live:
  assumes "BuildYvonne B (Some cfg) r = (Built srv, r')" "MasterKey_of srv = Some mk"
  shows "\<not> destroyed mk \<and> Mode cfg = ModeDev"
proof (cases "Mode cfg = ModeDev")
  case True
  with assms(1) obtain log r1 where "buildDevMode B cfg log r1 = (Built srv, r')"
    by (auto simp: BuildYvonne_def split: prod.splits sum.splits)
  with assms(2) True show ?thesis
    by (auto simp: buildDevMode_def Let_def split: prod.splits sum.splits built.splits option.splits dest: random_buffer_live)
next
  case False
  with assms(1) obtain log u as pg a where "cluster_server B cfg log u as pg a = Built srv"
    by (auto simp: BuildYvonne_def buildClusterMode_def split: prod.splits sum.splits built.splits if_splits)
  with assms(2) show ?thesis
    by (auto simp: cluster_server_def Let_def split: option.splits built.splits if_splits)
qed


text \<open>A start that fails after the first servers run ends the process at once: nothing is shut down,
  the log is not closed and the key is not wiped. A gRPC address in use and a tracing endpoint that was
  forgotten are such failures.\<close>

theorem late_failure_unclosed:
  assumes "BuildYvonne B (Some cfg) r = (Built srv, r')" "tls_setup B S (TLS (Server cfg)) = Inr tls" "tls \<noteq> Some True"
    and "offers_grpc cfg srv \<and> net_Listen S (grpc_address cfg) \<noteq> None
      \<or> tracing_Enabled (Tracing (Observability cfg)) \<and> tracing_Endpoint (Tracing (Observability cfg)) = ''''"
  shows "\<exists>es. startYvonne B S cfg configPath r = (es, FatalExit, Some srv) \<and> Serving ''api'' \<in> set es
    \<and> (\<forall>w. ShutDown w \<notin> set es) \<and> Closed \<notin> set es"
proof -
  have api: "Serving ''api'' \<in> set (first_effects B S cfg srv tls)" using assms(3) by (simp add: first_effects_def api_effects_def)
  have none: "ShutDown w \<notin> set (warning_effects cfg @ first_effects B S cfg srv tls @ later_effects cfg srv)"
    "Closed \<notin> set (warning_effects cfg @ first_effects B S cfg srv tls @ later_effects cfg srv)" for w
    by (simp_all add: not_yet_stopped)
  from assms(4) have "\<exists>es. startYvonne B S cfg configPath r = (es, FatalExit, Some srv) \<and>
      (es = warning_effects cfg @ first_effects B S cfg srv tls \<or> es = warning_effects cfg @ first_effects B S cfg srv tls @ later_effects cfg srv)"
    using assms(1,2) by (auto simp: startYvonne_def InitTracer_def start_tracer_def Let_def)
  with api none show ?thesis by auto
qed

text \<open>In cluster mode the shutdown leaves the vault as it is: its key is not wiped, although the
  comments of the shutdown say so.\<close>

theorem cluster_shutdown_keeps_vault:
  assumes "startYvonne B S cfg configPath r = (es, Returned, Some srv)" "Mode cfg = ModeCluster"
  obtains srv0 r' where "BuildYvonne B (Some cfg) r = (Built srv0, r')" "srv = srv0"
proof -
  obtain s0 r' where b: "BuildYvonne B (Some cfg) r = (Built s0, r')" and srv: "srv = server_Close s0"
    using start_Returned [OF assms(1)] by (metis option.inject)
  have "MasterKey_of s0 = None"
    using built_master_key_live [OF b] assms(2) by (cases "MasterKey_of s0") (auto simp: ModeDev_def ModeCluster_def)
  with b srv that show thesis by (auto simp: server_Close_def)
qed

section \<open>Developer mode\<close>

definition quiet_env :: start_env where
  "quiet_env = \<lparr>gm_load = (\<lambda>_ _. Inl (Msg ''toy'')), gm_listen = (\<lambda>_. None), net_Listen = (\<lambda>_. None), grpc_NewClient = (\<lambda>_. None),
     otlp_New = None, resource_New = None, yaml_Unmarshal = (\<lambda>_ c. Inr c)\<rparr>"

lemma dev_runs:
  assumes "BuildYvonne B (Some (dev_config addr port)) r = (Built srv, r')"
  shows "runDevCmd B S addr port r =
    ([Serving ''api'', Serving ''admin'', ReloadReady False, DaemonCancelled, ShutDown ''api'', ShutDown ''admin'', TracerShutdown, Closed],
     Returned, Some (server_Close srv))"
proof -
  let ?cfg = "dev_config addr port"
  have dev: "Mode ?cfg = ModeDev" "TLS (Server ?cfg) = zero_TLS" "GRPC (Server ?cfg) = zero_GRPC" "MCP (Server ?cfg) = zero_MCP"
    "Observability ?cfg = Observability yvonne_default" by (simp_all add: dev_config_def)
  obtain log r1 where "buildDevMode B ?cfg log r1 = (Built srv, r')"
    using assms dev(1) by (auto simp: BuildYvonne_def split: prod.splits sum.splits)
  then have srv: "AdminServer_of srv \<noteq> None" "GRPCServer_of srv = None" "MCPServer_of srv = None" "RotationDaemon_of srv = None"
    using dev by (auto simp: buildDevMode_def buildAdminServer_def mcp_of_def zero_GRPC_def zero_MCP_def Let_def
        split: prod.splits sum.splits built.splits option.splits)
  have "ModeDev \<noteq> ModeCluster" by (simp add: ModeDev_def ModeCluster_def)
  with assms dev srv show ?thesis
    by (simp add: runDevCmd_def ValidateYvonneConfig_def startYvonne_def tls_setup_def zero_TLS_def InitTracer_def start_tracer_def yvonne_default_def
        effect_defs reload_ready_def)
qed

lemma toy_dev_build: "\<exists>srv r'. BuildYvonne toy_boot (Some (dev_config ''127.0.0.1'' 8200)) zero_source = (Built srv, r')"
  using zero_source_random [of 32 0] zero_source_random [of 32 32]
  by (simp add: BuildYvonne_def dev_config_def NewAuditLogger_def NewAuditLoggerWithHash_def NewSecureBufferFromRandom_def buildDevMode_def
      setVaultCryptoSuite_def yvonne_default_def DirectUnseal_def NewVaultState_def zero_source_pos0 Let_def)


end
