(* ===== verification/Health.thy ===== *)
theory Health
  imports Service
begin

text \<open>
  \<^verbatim>\<open>internal/storage/health.go\<close> and the constructors of \<^verbatim>\<open>internal/storage/pg_kvstore.go\<close>: the
  background check that decides whether the service takes writes, and connecting to a database that
  is created when it does not exist. The flag itself is the field \<open>healthy\<close> of the store in the theory
  \<open>KVStore\<close>. A health check is a goroutine with a context; it may see one more tick after its context
  was cancelled, since both cases of its select are then ready.
\<close>

section \<open>health.go\<close>

text \<open>\<open>hs_cancel\<close> is the cancel function that is kept, as the number of its goroutine; \<open>loops\<close> are the
  goroutines that run, with whether their context is cancelled.\<close>

record healthState =
  hs_cancel :: "nat option"
  loops :: "(nat \<times> bool) list"
  next_loop :: nat

definition newHealthState :: healthState where
  "newHealthState = \<lparr>hs_cancel = None, loops = [], next_loop = 0\<rparr>"

definition StartHealthCheck :: "healthState \<Rightarrow> healthState" where
  "StartHealthCheck h =
     (if hs_cancel h \<noteq> None then h
      else h\<lparr>hs_cancel := Some (next_loop h), loops := (next_loop h, False) # loops h, next_loop := next_loop h + 1\<rparr>)"

definition StopHealthCheck :: "healthState \<Rightarrow> healthState" where
  "StopHealthCheck h =
     (case hs_cancel h of
        None \<Rightarrow> h
      | Some i \<Rightarrow> h\<lparr>hs_cancel := None, loops := map (\<lambda>(j, c). (j, c \<or> j = i)) (loops h)\<rparr>)"

text \<open>A goroutine whose context is cancelled returns.\<close>

definition loop_returns :: "nat \<Rightarrow> healthState \<Rightarrow> healthState option" where
  "loop_returns i h = (if (i, True) \<in> set (loops h) then Some (h\<lparr>loops := filter (\<lambda>l. l \<noteq> (i, True)) (loops h)\<rparr>) else None)"

text \<open>A tick of a goroutine: the ping and the flag it sets are \<open>health_tick\<close>.\<close>

definition loop_tick :: "nat \<Rightarrow> healthState \<times> 'd PostgresKVStore \<Rightarrow> (healthState \<times> 'd PostgresKVStore) option" where
  "loop_tick i s = (if i \<in> fst ` set (loops (fst s)) then Some (fst s, health_tick (snd s)) else None)"

definition IsHealthy :: "'d PostgresKVStore \<Rightarrow> bool" where
  "IsHealthy p = healthy p"

section \<open>Connecting (pg\_kvstore.go)\<close>

text \<open>The parts of a parsed connection string, and what is outside: the driver's parser, the database
  server with its databases and its faults, and the pool. \<open>executed\<close> are the statements sent, in order.\<close>

record dsn_parts =
  dsn_User :: string
  dsn_Password :: string
  dsn_Host :: string
  dsn_Port :: int
  dsn_Database :: string

record pg_server =
  databases :: "string list"
  executed :: "string list"

record pg_driver =
  pgx_ParseConfig :: "string \<Rightarrow> dsn_parts res"
  pgx_Connect :: "string \<Rightarrow> err option"
  pgx_Query :: "err option"
  pgx_Exec :: "string \<Rightarrow> pg_server \<Rightarrow> err option \<times> pg_server"
  pgxpool_ParseConfig :: "string \<Rightarrow> err option"
  pgxpool_New :: "string \<Rightarrow> err option"

definition adminDSN :: "dsn_parts \<Rightarrow> string" where
  "adminDSN d =
     (if dsn_Password d \<noteq> '''' then
        ''postgresql://'' @ dsn_User d @ '':'' @ dsn_Password d @ ''@'' @ dsn_Host d @ '':'' @ dec_int (dsn_Port d) @ ''/postgres''
      else ''postgresql://'' @ dsn_User d @ ''@'' @ dsn_Host d @ '':'' @ dec_int (dsn_Port d) @ ''/postgres'')"

text \<open>The redaction of this package returns its argument.\<close>

definition storage_redactDSN :: "string \<Rightarrow> string" where
  "storage_redactDSN dsn = dsn"

definition create_statement :: "string \<Rightarrow> string" where
  "create_statement dbName = ''CREATE DATABASE '' @ [CHR 0x22] @ dbName @ [CHR 0x22]"

definition ensureDatabaseExists :: "pg_driver \<Rightarrow> string \<Rightarrow> pg_server \<Rightarrow> err option \<times> pg_server" where
  "ensureDatabaseExists D dsn s =
     (case pgx_ParseConfig D dsn of
        Inl e \<Rightarrow> (Some (Wrap ''parse dsn'' e), s)
      | Inr parsed \<Rightarrow>
          let dbName = dsn_Database parsed
          in if dbName = '''' \<or> dbName = ''postgres'' then (None, s)
             else case pgx_Connect D (adminDSN parsed) of
                 Some e \<Rightarrow> (Some (Wrap (''connect to postgres for db creation (admin dsn='' @ storage_redactDSN (adminDSN parsed) @ '')'') e), s)
               | None \<Rightarrow>
                   (case pgx_Query D of
                      Some e \<Rightarrow> (Some (Wrap ''check database existence'' e), s)
                    | None \<Rightarrow>
                        if dbName \<in> set (databases s) then (None, s)
                        else (case pgx_Exec D (create_statement dbName) s of
                            (Some e, s1) \<Rightarrow> (Some (Wrap (''create database '' @ dbName) e), s1)
                          | (None, s1) \<Rightarrow> (None, s1))))"

text \<open>The statements, with the white space of the source reduced to single blanks.\<close>

definition create_table :: string where
  "create_table = ''CREATE TABLE IF NOT EXISTS yvonne_kv_str (k TEXT PRIMARY KEY, v BYTEA NOT NULL, updated_at TIMESTAMPTZ NOT NULL DEFAULT NOW());''"

definition add_updated_at :: string where
  "add_updated_at = ''DO $$ BEGIN IF NOT EXISTS (SELECT 1 FROM information_schema.columns WHERE table_name='' @ [CHR 0x27] @ ''yvonne_kv_str'' @ [CHR 0x27] @
     '' AND column_name='' @ [CHR 0x27] @ ''updated_at'' @ [CHR 0x27] @
     '') THEN ALTER TABLE yvonne_kv_str ADD COLUMN updated_at TIMESTAMPTZ NOT NULL DEFAULT NOW(); END IF; END $$''"

definition create_indexes :: string where
  "create_indexes = ''CREATE INDEX IF NOT EXISTS idx_yvonne_kv_str_k_prefix ON yvonne_kv_str (k varchar_pattern_ops); CREATE INDEX IF NOT EXISTS idx_yvonne_kv_str_updated_at ON yvonne_kv_str (updated_at);''"

text \<open>\<open>contents\<close> is the table that the database holds; the pool sizes of the configuration only tune
  the pool.\<close>

definition NewPostgresKVStoreWithConfig ::
  "pg_driver \<Rightarrow> string \<Rightarrow> lc_doc kv \<Rightarrow> (nat \<Rightarrow> string option) \<Rightarrow> pg_server \<Rightarrow> (healthState \<times> lc_doc PostgresKVStore) res \<times> pg_server" where
  "NewPostgresKVStoreWithConfig D dsn contents bad s =
     (if dsn = '''' then (Inl (Msg ''postgres: dsn required''), s)
      else case ensureDatabaseExists D dsn s of
          (Some e, s1) \<Rightarrow> (Inl (Wrap ''postgres: ensure database'' e), s1)
        | (None, s1) \<Rightarrow>
            (case pgxpool_ParseConfig D dsn of
               Some e \<Rightarrow> (Inl (Wrap ''postgres: parse config'' e), s1)
             | None \<Rightarrow>
                 (case pgxpool_New D dsn of
                    Some e \<Rightarrow> (Inl (Wrap ''postgres: create pool'' e), s1)
                  | None \<Rightarrow>
                      (case pgx_Exec D create_table s1 of
                         (Some e, s2) \<Rightarrow> (Inl (Wrap ''postgres: ensure table'' e), s2)
                       | (None, s2) \<Rightarrow>
                           (case pgx_Exec D add_updated_at s2 of
                              (Some e, s3) \<Rightarrow> (Inl (Wrap ''postgres: ensure updated_at column'' e), s3)
                            | (None, s3) \<Rightarrow>
                                (case pgx_Exec D create_indexes s3 of
                                   (Some e, s4) \<Rightarrow> (Inl (Wrap ''postgres: ensure indexes'' e), s4)
                                 | (None, s4) \<Rightarrow>
                                     (Inr (newHealthState, \<lparr>rows = contents, notified = [], healthy = True, faults = bad, tick = 0, tx_aborted = False\<rparr>), s4)))))))"

definition NewPostgresKVStore ::
  "pg_driver \<Rightarrow> string \<Rightarrow> lc_doc kv \<Rightarrow> (nat \<Rightarrow> string option) \<Rightarrow> pg_server \<Rightarrow> (healthState \<times> lc_doc PostgresKVStore) res \<times> pg_server" where
  "NewPostgresKVStore D dsn contents bad s = NewPostgresKVStoreWithConfig D dsn contents bad s"

text \<open>A store that was connected starts healthy, with no health check, on tables that exist.\<close>

lemma connected_initial:
  assumes "NewPostgresKVStore D dsn contents bad s = (Inr (h, p), s')"
  shows "h = newHealthState \<and> healthy p \<and> rows p = contents"
  using assms
  by (auto simp: NewPostgresKVStore_def NewPostgresKVStoreWithConfig_def split: if_splits prod.splits option.splits)

text \<open>When the server for the default database cannot be reached, the error that is returned, and
  logged at the start, shows the password.\<close>

theorem connect_error_leaks:
  assumes "dsn \<noteq> ''''" "pgx_ParseConfig D dsn = Inr d" "dsn_Database d \<notin> {'''', ''postgres''}" "dsn_Password d \<noteq> ''''"
    and "pgx_Connect D (adminDSN d) = Some e"
  shows "\<exists>a b. NewPostgresKVStore D dsn contents bad s = (Inl (Wrap ''postgres: ensure database'' (Wrap (a @ dsn_Password d @ b) e)), s)"
proof (intro exI)
  show "NewPostgresKVStore D dsn contents bad s = (Inl (Wrap ''postgres: ensure database''
      (Wrap ((''connect to postgres for db creation (admin dsn=postgresql://'' @ dsn_User d @ '':'') @ dsn_Password d @
        (''@'' @ dsn_Host d @ '':'' @ dec_int (dsn_Port d) @ ''/postgres)'')) e)), s)"
    using assms
    by (simp add: NewPostgresKVStore_def NewPostgresKVStoreWithConfig_def ensureDatabaseExists_def storage_redactDSN_def adminDSN_def)
qed

text \<open>The parts are joined without escaping: different accesses give the same string for the
  administrative connection.\<close>

theorem admin_dsn_ambiguous:
  "adminDSN \<lparr>dsn_User = ''u'', dsn_Password = ''p@h'', dsn_Host = ''g'', dsn_Port = 1, dsn_Database = ''d''\<rparr> =
   adminDSN \<lparr>dsn_User = ''u'', dsn_Password = ''p'', dsn_Host = ''h@g'', dsn_Port = 1, dsn_Database = ''d''\<rparr>"
  by (simp add: adminDSN_def)

section \<open>Health as a state machine\<close>

inductive health_step :: "healthState \<times> lc_doc PostgresKVStore \<Rightarrow> healthState \<times> lc_doc PostgresKVStore \<Rightarrow> bool" where
  step_start: "health_step (h, p) (StartHealthCheck h, p)"
| step_stop: "health_step (h, p) (StopHealthCheck h, p)"
| step_tick: "loop_tick i (h, p) = Some s \<Longrightarrow> health_step (h, p) s"
| step_returns: "loop_returns i h = Some h' \<Longrightarrow> health_step (h, p) (h', p)"
| step_get: "pg_Get k p = (x, p') \<Longrightarrow> health_step (h, p) (h, p')"
| step_put: "pg_Put k v p = (y, p') \<Longrightarrow> health_step (h, p) (h, p')"
| step_delete: "pg_Delete k p = (y, p') \<Longrightarrow> health_step (h, p) (h, p')"

definition health_init :: "healthState \<times> lc_doc PostgresKVStore \<Rightarrow> bool" where
  "health_init s \<longleftrightarrow> fst s = newHealthState \<and> healthy (snd s)"

text \<open>The goroutines have distinct numbers, and the one whose context is not cancelled is the one that
  can still be stopped.\<close>

definition health_inv :: "healthState \<times> lc_doc PostgresKVStore \<Rightarrow> bool" where
  "health_inv s \<longleftrightarrow> (let h = fst s in distinct (map fst (loops h)) \<and> (\<forall>(j, c) \<in> set (loops h). j < next_loop h) \<and>
     (\<forall>i. hs_cancel h = Some i \<longleftrightarrow> (i, False) \<in> set (loops h)))"

lemma health_inv_start:
  assumes "health_inv (h, p)"
  shows "health_inv (StartHealthCheck h, p)"
  using assms by (auto simp: health_inv_def StartHealthCheck_def Let_def)

lemma health_inv_stop:
  assumes "health_inv (h, p)"
  shows "health_inv (StopHealthCheck h, p)"
proof (cases "hs_cancel h")
  case (Some i)
  have m: "map (fst \<circ> (\<lambda>(j, c). (j, c \<or> j = i))) (loops h) = map fst (loops h)" by auto
  have "(j, False) \<notin> set (map (\<lambda>(j, c). (j, c \<or> j = i)) (loops h))" for j
  proof
    assume "(j, False) \<in> set (map (\<lambda>(j, c). (j, c \<or> j = i)) (loops h))"
    then obtain l where "l \<in> set (loops h)" "(j, False) = (case l of (j, c) \<Rightarrow> (j, c \<or> j = i))" by (auto simp only: set_map)
    with assms Some show False by (cases l) (auto simp: health_inv_def Let_def)
  qed
  moreover have "distinct (map (fst \<circ> (\<lambda>(j, c). (j, c \<or> j = i))) (loops h))" using assms unfolding m by (simp add: health_inv_def)
  ultimately show ?thesis
    using assms Some by (auto simp: health_inv_def StopHealthCheck_def Let_def)
qed (use assms in \<open>simp add: StopHealthCheck_def\<close>)

lemma health_inv_returns:
  assumes "health_inv (h, p)" "loop_returns i h = Some h'"
  shows "health_inv (h', p)"
  using assms by (auto simp: health_inv_def loop_returns_def Let_def distinct_map_filter split: if_splits)

interpretation health: invariant_system health_init health_step health_inv
proof
  fix s assume "health_init s"
  then show "health_inv s" by (auto simp: health_init_def health_inv_def newHealthState_def)
next
  fix s s' :: "healthState \<times> lc_doc PostgresKVStore" assume "health_inv s" "health_step s s'"
  from this(2,1) show "health_inv s'"
  proof cases
    case (step_tick i h p)
    with \<open>health_inv s\<close> show ?thesis by (auto simp: loop_tick_def health_inv_def split: if_splits)
  qed (auto intro: health_inv_start health_inv_stop health_inv_returns, auto simp: health_inv_def)
qed

section \<open>Degraded mode\<close>

text \<open>A step that makes an unhealthy store healthy is a tick of a goroutine whose ping succeeded.\<close>

lemma recovery_is_a_tick:
  assumes "health_step (h, p) (h', p')" "\<not> healthy p" "healthy p'"
  shows "\<exists>i. i \<in> fst ` set (loops h) \<and> p' = health_tick p \<and> PostgresKVStore.faults p (PostgresKVStore.tick p) = None"
  using assms
proof cases
  case (step_tick i)
  then have "i \<in> fst ` set (loops h)" "p' = health_tick p" by (auto simp: loop_tick_def split: if_splits)
  moreover have "PostgresKVStore.faults p (PostgresKVStore.tick p) = None" using assms(3) calculation(2) by (simp add: health_tick_def pool_call_def)
  ultimately show ?thesis by blast
qed (auto simp: pg_Get_def pg_Put_def pg_Delete_def pool_call_def markUnhealthy_def split: option.splits prod.splits if_splits)


text \<open>Without a goroutine the store stays unhealthy, whatever the database does.\<close>

theorem stopped_check_stays_degraded:
  assumes "health_step (h, p) (h', p')" "loops h = []" "\<not> healthy p"
  shows "\<not> healthy p'"
  using recovery_is_a_tick [OF assms(1,3)] assms(2) by auto

definition down_store :: "lc_doc PostgresKVStore" where
  "down_store = \<lparr>rows = [], notified = [], healthy = True, faults = (\<lambda>i. if i = 0 then Some ''down'' else None), tick = 0, tx_aborted = False\<rparr>"

lemma down_reachable: "reachable health_init health_step (StartHealthCheck newHealthState, down_store\<lparr>healthy := False, tick := 1\<rparr>)"
proof -
  have "reachable health_init health_step (newHealthState, down_store)"
    by (rule reachable_init) (simp add: health_init_def down_store_def)
  then have "reachable health_init health_step (StartHealthCheck newHealthState, down_store)"
    by (rule reachable_step) (rule step_start)
  then show ?thesis
    by (rule reachable_step) (rule step_get [where k = "''k''"], simp add: pg_Get_def pool_call_def markUnhealthy_def down_store_def)
qed


end
