(* ===== verification/Retention.thy ===== *)
theory Retention
  imports AuditProps
begin

text \<open>
  Retention of the audit log: \<^verbatim>\<open>StartPruneLoop\<close>, \<^verbatim>\<open>pruneLoop\<close> and
  \<^verbatim>\<open>pruneOldFiles\<close> of \<^verbatim>\<open>internal/audit/file_rotator.go\<close>, the callback that
  \<^verbatim>\<open>NewDualWriteLogger\<close> hands to them, and the end of the syslog goroutine in
  \<^verbatim>\<open>syslog_writer.go\<close>. Archives are recognised by the date in their name, so the calendar of the
  theory \<open>GoLib\<close> is inverted here. The entries of a directory are visited in the order of the model's
  file list; the result does not depend on it unless a removal fails.
\<close>

section \<open>time.Parse("20060102")\<close>

text \<open>The days before January 1 of a year, counted from year 1, and the days of a date.\<close>

definition days_before_year :: "int \<Rightarrow> int" where
  "days_before_year y = 365 * (y - 1) + (y - 1) div 4 - (y - 1) div 100 + (y - 1) div 400"

definition date_days :: "nat \<Rightarrow> nat \<Rightarrow> nat \<Rightarrow> int" where
  "date_days y m d = days_before_year (int y) + int (sum_list (take (m - 1) (month_days y))) + int d - 1"

definition time_Parse :: "string \<Rightarrow> time res" where
  "time_Parse s =
     (let y = undec (take 4 s); m = undec (take 2 (drop 4 s)); d = undec (drop 6 s)
      in if length s \<noteq> 8 \<or> \<not> list_all is_digit s then Inl (Msg ''parsing time: cannot parse'')
         else if m < 1 \<or> 12 < m then Inl (Msg ''parsing time: month out of range'')
         else if d < 1 \<or> month_days y ! (m - 1) < d then Inl (Msg ''parsing time: day out of range'')
         else Inr (date_days y m d * (24 * hour)))"

section \<open>pruneOldFiles\<close>

definition dir_Remove :: "string \<Rightarrow> disk \<Rightarrow> bool \<times> disk" where
  "dir_Remove name d =
     (case disk_call d of
        (Some _, d1) \<Rightarrow> (False, d1)
      | (None, d1) \<Rightarrow> (True, d1\<lparr>files := AList.delete name (files d1)\<rparr>))"

definition archive_date :: "string \<Rightarrow> time option" where
  "archive_date name =
     (if length name < 11 \<or> take 6 name \<noteq> ''audit-'' \<or> drop (length name - 4) name \<noteq> ''.log'' then None
      else case time_Parse (take (length name - 10) (drop 6 name)) of Inl _ \<Rightarrow> None | Inr t \<Rightarrow> Some t)"

fun prune_entries :: "time \<Rightarrow> string list \<Rightarrow> disk \<Rightarrow> nat \<times> disk" where
  "prune_entries cutoff [] d = (0, d)"
| "prune_entries cutoff (name # names) d =
     (case archive_date name of
        None \<Rightarrow> prune_entries cutoff names d
      | Some fileDate \<Rightarrow>
          if fileDate < cutoff then
            (case dir_Remove name d of (ok, d1) \<Rightarrow>
               (case prune_entries cutoff names d1 of (n, d2) \<Rightarrow> (if ok then n + 1 else n, d2)))
          else prune_entries cutoff names d)"

text \<open>\<^verbatim>\<open>AddDate\<close> in UTC subtracts whole days.\<close>

definition pruneOldFiles :: "time \<Rightarrow> int \<Rightarrow> disk \<Rightarrow> nat \<times> disk" where
  "pruneOldFiles now retentionDays d =
     (let cutoff = now - retentionDays * (24 * hour)
      in case disk_call d of
           (Some _, d1) \<Rightarrow> (0, d1)
         | (None, d1) \<Rightarrow> prune_entries cutoff (map fst (files d1)) d1)"

section \<open>The loop and its record\<close>

text \<open>One tick of \<^verbatim>\<open>pruneLoop\<close>. The callback records with a logger of its own, which shares key,
  chain, files and syslog with the server's, but not the counter of entries.\<close>

definition prune_entry :: "time \<Rightarrow> nat \<Rightarrow> LogEntry" where
  "prune_entry now n = \<lparr>TraceID = [], Timestamp = now, ClientIP = [], Actor = [], Resource = [], Action = ''AUDIT_LOG_PRUNE'',
     Result = ''deleted '' @ dec_nat n @ '' files'', EntryKeyID = [], Status = []\<rparr>"

definition onPrune :: "audit_json \<Rightarrow> time \<Rightarrow> nat \<Rightarrow> AuditLogger \<Rightarrow> AuditLogger" where
  "onPrune J now n l =
     (case Record J now (prune_entry now n) (l\<lparr>chainSeq := 0\<rparr>) of
        (_, l1) \<Rightarrow> l1\<lparr>chainSeq := chainSeq l\<rparr>)"

definition prune_tick :: "audit_json \<Rightarrow> time \<Rightarrow> int \<Rightarrow> AuditLogger \<Rightarrow> AuditLogger" where
  "prune_tick J now retentionDays l =
     (case pruneOldFiles now retentionDays (log_dir l) of
        (n, d) \<Rightarrow> if n > 0 then onPrune J now n (l\<lparr>log_dir := d\<rparr>) else l\<lparr>log_dir := d\<rparr>)"

text \<open>The goroutine: a tick per element of the list, until the channel is closed.\<close>

fun pruneLoop :: "audit_json \<Rightarrow> int \<Rightarrow> time list \<Rightarrow> AuditLogger \<Rightarrow> AuditLogger" where
  "pruneLoop J retentionDays [] l = l"
| "pruneLoop J retentionDays (now # ticks) l = pruneLoop J retentionDays ticks (prune_tick J now retentionDays l)"

text \<open>The retention that the assembly configures.\<close>

definition configured_retention :: "int \<Rightarrow> int" where
  "configured_retention days = (if days = 0 then 180 else days)"

section \<open>The syslog writer\<close>

text \<open>\<open>dial\<close> is the connection to the local syslog daemon.\<close>

definition NewSyslogWriter :: "(string \<Rightarrow> err option) \<Rightarrow> string \<Rightarrow> SyslogWriter res" where
  "NewSyslogWriter dial tag =
     (case dial tag of
        Some e \<Rightarrow> Inl (Wrap ''audit: connect syslog'' e)
      | None \<Rightarrow> Inr \<lparr>ch = [], droppedCount = 0, delivered = []\<rparr>)"

text \<open>\<^verbatim>\<open>drainRemaining\<close> tries the messages left in order; when the second is over it may stop, which
  is the first \<open>False\<close> of the list or its end.\<close>

fun drainRemaining :: "(bool \<times> bool) list \<Rightarrow> SyslogWriter \<Rightarrow> SyslogWriter" where
  "drainRemaining [] s = s"
| "drainRemaining ((goes_on, timely) # turns) s =
     (case ch s of
        [] \<Rightarrow> s
      | msg # rest \<Rightarrow> if goes_on then drainRemaining turns (writeWithTimeout timely msg (s\<lparr>ch := rest\<rparr>)) else s)"

section \<open>The calendar\<close>

lemma month_day_split:
  assumes "month_day ns m0 d0 = (m, d)" "d0 < sum_list ns"
  shows "m0 \<le> m \<and> m < m0 + length ns \<and> 1 \<le> d \<and> d \<le> ns ! (m - m0) \<and> d0 + 1 = sum_list (take (m - m0) ns) + d"
  using assms
proof (induction ns arbitrary: m0 d0)
  case (Cons n ns)
  show ?case
  proof (cases "d0 < n")
    case False
    with Cons.prems have "month_day ns (m0 + 1) (d0 - n) = (m, d)" "d0 - n < sum_list ns" by auto
    from Cons.IH [OF this] have ih: "m0 + 1 \<le> m" "m < m0 + 1 + length ns" "1 \<le> d" "d \<le> ns ! (m - (m0 + 1))"
      "d0 - n + 1 = sum_list (take (m - (m0 + 1)) ns) + d" by auto
    then obtain k where k: "m - m0 = Suc k" "m - (m0 + 1) = k" by (metis Suc_diff_le Suc_eq_plus1 diff_Suc_Suc)
    with ih False show ?thesis by auto
  qed (use Cons.prems in auto)
qed simp

lemma month_days_sum: "length (month_days y) = 12" "sum_list (month_days y) = (if leap y then 366 else 365)"
  by (simp_all add: month_days_def)

lemma cycle_years:
  fixes a b c e :: nat
  assumes "b \<le> 3" "c \<le> 24" "e \<le> 3"
  shows "(400 * a + 100 * b + 4 * c + e) div 4 = 100 * a + 25 * b + c"
    "(400 * a + 100 * b + 4 * c + e) div 100 = 4 * a + b"
    "(400 * a + 100 * b + 4 * c + e) div 400 = a"
    "leap (400 * a + 100 * b + 4 * c + e + 1) \<longleftrightarrow> e = 3 \<and> (c < 24 \<or> b = 3)"
proof -
  show "(400 * a + 100 * b + 4 * c + e) div 4 = 100 * a + 25 * b + c" using assms by (intro div_nat_eqI) simp_all
  show "(400 * a + 100 * b + 4 * c + e) div 100 = 4 * a + b" using assms by (intro div_nat_eqI) simp_all
  show "(400 * a + 100 * b + 4 * c + e) div 400 = a" using assms by (intro div_nat_eqI) simp_all
  have whole: "(k * q + x) mod k = 0 \<longleftrightarrow> x = k" if "0 < x" "x \<le> k" for k q x :: nat
    using that by (cases "x = k") auto
  have "(400 * a + 100 * b + 4 * c + e + 1) mod 4 = 0 \<longleftrightarrow> e = 3"
    using whole [of "e + 1" 4 "100 * a + 25 * b + c"] assms by (simp add: algebra_simps)
  moreover have "(400 * a + 100 * b + 4 * c + e + 1) mod 100 = 0 \<longleftrightarrow> e = 3 \<and> c = 24"
  proof -
    have "(400 * a + 100 * b + 4 * c + e + 1) mod 100 = 0 \<longleftrightarrow> 4 * c + e + 1 = 100"
      using whole [of "4 * c + e + 1" 100 "4 * a + b"] assms by (simp add: algebra_simps)
    then show ?thesis using assms by linarith
  qed
  moreover have "(400 * a + 100 * b + 4 * c + e + 1) mod 400 = 0 \<longleftrightarrow> e = 3 \<and> c = 24 \<and> b = 3"
  proof -
    have "(400 * a + 100 * b + 4 * c + e + 1) mod 400 = 0 \<longleftrightarrow> 100 * b + 4 * c + e + 1 = 400"
      using whole [of "100 * b + 4 * c + e + 1" 400 a] assms by (simp add: algebra_simps)
    then show ?thesis using assms by linarith
  qed
  ultimately show "leap (400 * a + 100 * b + 4 * c + e + 1) \<longleftrightarrow> e = 3 \<and> (c < 24 \<or> b = 3)"
    using assms by (auto simp: leap_def)
qed

lemma days_before_cycle:
  assumes "b \<le> 3" "c \<le> 24" "e \<le> 3"
  shows "days_before_year (int (400 * a + 100 * b + 4 * c + e + 1)) = int (146097 * a + 36524 * b + 1461 * c + 365 * e)"
proof -
  have "int (400 * a + 100 * b + 4 * c + e + 1) - 1 = int (400 * a + 100 * b + 4 * c + e)" by simp
  moreover have "int (400 * a + 100 * b + 4 * c + e) div 4 = int (100 * a + 25 * b + c)" "int (400 * a + 100 * b + 4 * c + e) div 100 = int (4 * a + b)"
    "int (400 * a + 100 * b + 4 * c + e) div 400 = int a"
    using cycle_years(1-3) [OF assms, of a] by (metis of_nat_numeral zdiv_int)+
  ultimately show ?thesis unfolding days_before_year_def by simp
qed

text \<open>The cycles of \<open>civil\<close>, with what is left over in each.\<close>

lemma civil_cycles:
  fixes n :: nat
  defines "a \<equiv> n div 146097" and "d1 \<equiv> n mod 146097"
  defines "b \<equiv> min 3 (d1 div 36524)"
  defines "d2 \<equiv> d1 - 36524 * b"
  defines "c \<equiv> d2 div 1461" and "d3 \<equiv> d2 mod 1461"
  defines "e \<equiv> min 3 (d3 div 365)"
  defines "d4 \<equiv> d3 - 365 * e"
  shows "b \<le> 3" "c \<le> 24" "e \<le> 3" "n = 146097 * a + 36524 * b + 1461 * c + 365 * e + d4"
    "d4 < (if e = 3 \<and> (c < 24 \<or> b = 3) then 366 else 365)"
proof -
  have n: "n = 146097 * a + d1" "d1 < 146097" by (simp_all add: a_def d1_def)
  show b: "b \<le> 3" by (simp add: b_def)
  have "36524 * (d1 div 36524) \<le> d1" "d1 < 36524 * (d1 div 36524) + 36524" using dividend_less_times_div [of 36524 d1] by simp_all
  then have d2: "d1 = 36524 * b + d2" "d2 \<le> 36524" "b < 3 \<Longrightarrow> d2 < 36524"
    using n(2) by (auto simp: b_def d2_def min_def split: if_splits)
  have d3: "d2 = 1461 * c + d3" "d3 < 1461" by (simp_all add: c_def d3_def)
  then show c: "c \<le> 24" using d2(2) by linarith
  show e: "e \<le> 3" by (simp add: e_def)
  have "365 * (d3 div 365) \<le> d3" "d3 < 365 * (d3 div 365) + 365" using dividend_less_times_div [of 365 d3] by simp_all
  then have d4: "d3 = 365 * e + d4" "d4 \<le> 365" "e < 3 \<Longrightarrow> d4 < 365"
    using d3(2) by (auto simp: e_def d4_def min_def split: if_splits)
  show "n = 146097 * a + 36524 * b + 1461 * c + 365 * e + d4" using n d2 d3 d4 by linarith
  show "d4 < (if e = 3 \<and> (c < 24 \<or> b = 3) then 366 else 365)"
  proof (cases "e = 3 \<and> (c < 24 \<or> b = 3)")
    case False
    then consider "e < 3" | "e = 3" "c = 24" "b < 3" using e c b by linarith
    then show ?thesis using False d4 d3 d2 by cases auto
  qed (use d4 in simp)
qed

lemma civil_days:
  assumes "civil n = (y, m, d)"
  shows "1 \<le> y \<and> 1 \<le> m \<and> m \<le> 12 \<and> 1 \<le> d \<and> d \<le> month_days y ! (m - 1) \<and> date_days y m d = int n"
proof -
  define a where "a = n div 146097"
  define b where "b = min 3 (n mod 146097 div 36524)"
  define d2 where "d2 = n mod 146097 - 36524 * b"
  define c where "c = d2 div 1461"
  define e where "e = min 3 (d2 mod 1461 div 365)"
  define d4 where "d4 = d2 mod 1461 - 365 * e"
  note cy = civil_cycles [of n, folded a_def b_def, folded d2_def, folded c_def e_def, folded d4_def]
  have ym: "y = 400 * a + 100 * b + 4 * c + e + 1 \<and> month_day (month_days y) 1 d4 = (m, d)"
    using assms unfolding civil_def Let_def a_def [symmetric] b_def [symmetric] d2_def [symmetric] c_def [symmetric] e_def [symmetric] d4_def [symmetric]
    by (cases "month_day (month_days (400 * a + 100 * b + 4 * c + e + 1)) 1 d4") auto
  note y = ym [THEN conjunct1] and md = ym [THEN conjunct2]
  have "d4 < sum_list (month_days y)" using cy(5) cycle_years(4) [OF cy(1-3), of a] by (simp add: y month_days_sum)
  from month_day_split [OF md this] have m: "1 \<le> m" "m \<le> 12" "1 \<le> d" "d \<le> month_days y ! (m - 1)"
    "d4 + 1 = sum_list (take (m - 1) (month_days y)) + d" by (auto simp: month_days_sum)
  have "days_before_year (int y) = int (146097 * a + 36524 * b + 1461 * c + 365 * e)" unfolding y by (rule days_before_cycle [OF cy(1-3)])
  with m(5) cy(4) have "date_days y m d = int n" by (simp add: date_days_def)
  with m y show ?thesis by simp
qed

section \<open>Dates in names\<close>

lemma undec_zeros: "undec (replicate k CHR ''0'' @ s) = undec s"
  by (induction k) (simp_all add: undec_def)

lemma dec_nat_digits: "list_all is_digit (dec_nat n)"
proof (induction n rule: dec_nat.induct)
  case (1 n)
  have "is_digit (digit_char k)" if "k < 10" for k :: nat
  proof -
    have "\<forall>k \<in> set [0..<10]. is_digit (digit_char k)" by code_simp
    with that show ?thesis by simp
  qed
  with 1 show ?case by (cases "n < 10") (simp_all add: dec_nat.simps [of n])
qed

lemma pad_facts:
  assumes "n < 10 ^ w" "0 < w"
  shows "length (pad w n) = w" "list_all is_digit (pad w n)" "undec (pad w n) = n"
proof -
  show "length (pad w n) = w" using pad_length [of n "w - 1"] assms by simp
  have "is_digit CHR ''0''" by code_simp
  then show "list_all is_digit (pad w n)" using dec_nat_digits [of n] by (auto simp: pad_def list_all_iff set_replicate_conv_if)
  show "undec (pad w n) = n" by (simp add: pad_def undec_zeros)
qed

lemma month_days_le: "i < 12 \<Longrightarrow> month_days y ! i \<le> 31"
  by (auto simp: month_days_def nth_Cons' )

lemma parse_format:
  assumes "fst (civil (nat (t div (24 * hour)))) < 10000" "0 \<le> t"
  shows "time_Parse (yyyymmdd t) = Inr (t div (24 * hour) * (24 * hour)) \<and> length (yyyymmdd t) = 8"
proof -
  obtain y m d where c: "civil (nat (t div (24 * hour))) = (y, m, d)" by (metis prod_cases3)
  from civil_days [OF c] have v: "1 \<le> y" "1 \<le> m" "m \<le> 12" "1 \<le> d" "d \<le> month_days y ! (m - 1)"
    "date_days y m d = int (nat (t div (24 * hour)))" by auto
  have "d \<le> 31" using v(2,3,5) month_days_le [of "m - 1" y] by linarith
  with v assms(1) c have "y < 10 ^ 4" "m < 10 ^ 2" "d < 10 ^ 2" by simp_all
  note f = this [THEN pad_facts(1)] this [THEN pad_facts(2)] this [THEN pad_facts(3)]
  have s: "yyyymmdd t = pad 4 y @ pad 2 m @ pad 2 d" unfolding yyyymmdd_def c Let_def prod.case by (rule refl)
  have "0 \<le> t div (24 * hour)" using assms(2) by (simp add: pos_imp_zdiv_nonneg_iff)
  with f v show ?thesis by (simp add: s time_Parse_def)
qed

lemma archive_date_name:
  assumes "fst (civil (nat (t div (24 * hour)))) < 10000" "0 \<le> t"
  shows "archive_date (''audit-'' @ yyyymmdd t @ ''.log'') = Some (t div (24 * hour) * (24 * hour))"
  using parse_format [OF assms] by (simp add: archive_date_def)

section \<open>What is deleted\<close>

lemma prune_entries_keeps:
  assumes "prune_entries cutoff names d = (n, d')" "\<And>t. archive_date x = Some t \<Longrightarrow> cutoff \<le> t"
  shows "map_of (files d') x = map_of (files d) x"
  using assms(1)
proof (induction names arbitrary: d n)
  case (Cons name names)
  show ?case
  proof (cases "\<exists>t. archive_date name = Some t \<and> t < cutoff")
    case True
    then obtain ok d1 n1 where r: "dir_Remove name d = (ok, d1)" "prune_entries cutoff names d1 = (n1, d')"
      using Cons.prems by (auto split: prod.splits)
    have "name \<noteq> x" using True assms(2) by force
    then have "map_of (files d1) x = map_of (files d) x"
      using r(1) by (auto simp: dir_Remove_def disk_call_def delete_conv' split: option.splits)
    with Cons.IH [OF r(2)] show ?thesis by simp
  next
    case False
    then have "prune_entries cutoff names d = (n, d')" using Cons.prems by (auto split: option.splits if_splits)
    then show ?thesis by (rule Cons.IH)
  qed
qed simp

lemma prune_entries_absent:
  assumes "prune_entries cutoff names d = (n, d')" "map_of (files d) x = None"
  shows "map_of (files d') x = None"
  using assms
proof (induction names arbitrary: d n)
  case (Cons name names)
  have "map_of (files (snd (dir_Remove name d))) x = None"
    using Cons.prems(2) by (auto simp: dir_Remove_def disk_call_def delete_conv' split: option.splits)
  with Cons.prems Cons.IH show ?case by (fastforce split: option.splits if_splits prod.splits)
qed simp

lemma prune_entries_deletes:
  assumes "prune_entries cutoff names d = (n, d')" "\<And>i. disk.faults d i = None" "x \<in> set names" "archive_date x = Some t" "t < cutoff"
  shows "map_of (files d') x = None"
  using assms(1-3)
proof (induction names arbitrary: d n)
  case (Cons name names)
  define d1 where "d1 = snd (dir_Remove name d)"
  have f: "disk.faults d1 i = None" for i using Cons.prems(2) by (simp add: d1_def dir_Remove_def disk_call_def)
  show ?case
  proof (cases "name = x")
    case True
    then have "map_of (files d1) x = None" using Cons.prems(2) by (simp add: d1_def dir_Remove_def disk_call_def delete_conv')
    moreover obtain n1 where "prune_entries cutoff names d1 = (n1, d')"
      using Cons.prems(1) True assms(4,5) by (auto simp: d1_def split: prod.splits)
    ultimately show ?thesis using prune_entries_absent by blast
  next
    case False
    then have x: "x \<in> set names" using Cons.prems(3) by simp
    obtain n1 where "prune_entries cutoff names d = (n1, d') \<or> prune_entries cutoff names d1 = (n1, d')"
      using Cons.prems(1) by (auto simp: d1_def split: option.splits if_splits prod.splits)
    then show ?thesis using Cons.IH x Cons.prems(2) f by blast
  qed
qed simp

lemma prune_runs:
  assumes "pruneOldFiles now days d = (n, d')"
  obtains d1 where "files d1 = files d" "disk.faults d1 = disk.faults d"
    "d' = d1 \<and> (\<exists>i. disk.faults d i \<noteq> None) \<or> prune_entries (now - days * (24 * hour)) (map fst (files d)) d1 = (n, d')"
proof
  let ?d1 = "d\<lparr>calls := calls d + 1\<rparr>"
  show "files ?d1 = files d" "disk.faults ?d1 = disk.faults d" by simp_all
  show "d' = ?d1 \<and> (\<exists>i. disk.faults d i \<noteq> None) \<or> prune_entries (now - days * (24 * hour)) (map fst (files d)) ?d1 = (n, d')"
    using assms by (auto simp: pruneOldFiles_def disk_call_def Let_def split: option.splits)
qed

lemma prune_keeps:
  assumes "pruneOldFiles now days d = (n, d')" "\<And>t. archive_date x = Some t \<Longrightarrow> now - days * (24 * hour) \<le> t"
  shows "map_of (files d') x = map_of (files d) x"
  using prune_runs [OF assms(1)] prune_entries_keeps [OF _ assms(2)] by metis

lemma prune_deletes:
  assumes "pruneOldFiles now days d = (n, d')" "archive_date x = Some t" "t < now - days * (24 * hour)" "\<And>i. disk.faults d i = None"
  shows "map_of (files d') x = None"
proof -
  obtain d1 where d1: "files d1 = files d" "disk.faults d1 = disk.faults d"
    and p: "prune_entries (now - days * (24 * hour)) (map fst (files d)) d1 = (n, d')"
    using prune_runs [OF assms(1)] assms(4) by metis
  show ?thesis
  proof (cases "x \<in> set (map fst (files d))")
    case True
    show ?thesis by (rule prune_entries_deletes [OF p _ True assms(2,3)]) (simp add: d1 assms(4))
  next
    case False
    then have "map_of (files d1) x = None" by (simp add: d1 map_of_eq_None_iff)
    then show ?thesis by (rule prune_entries_absent [OF p])
  qed
qed

text \<open>
  Property C40. The audit log is kept for as long as configured and no longer. A run of the cleaning at
  \<open>now\<close> leaves every file untouched that is not an archive, and every archive of a day that began at
  most the retention before \<open>now\<close>; when no file operation fails, every older archive is gone. An archive
  is a file with the name that the rotation gives it at a time of the years 1 to 9999.
\<close>

theorem retention_kept:
  assumes "pruneOldFiles now days d = (n, d')"
  shows "(\<forall>x. archive_date x = None \<longrightarrow> map_of (files d') x = map_of (files d) x)
    \<and> (\<forall>t. 0 \<le> t \<longrightarrow> fst (civil (nat (t div (24 * hour)))) < 10000 \<longrightarrow>
         (let x = ''audit-'' @ yyyymmdd t @ ''.log''; day = t div (24 * hour) * (24 * hour)
          in (now - days * (24 * hour) \<le> day \<longrightarrow> map_of (files d') x = map_of (files d) x)
           \<and> (day < now - days * (24 * hour) \<longrightarrow> (\<forall>i. disk.faults d i = None) \<longrightarrow> map_of (files d') x = None)))"
proof (intro conjI allI impI)
  show "map_of (files d') x = map_of (files d) x" if "archive_date x = None" for x
    by (rule prune_keeps [OF assms]) (simp add: that)
next
  fix t assume t: "0 \<le> t" "fst (civil (nat (t div (24 * hour)))) < 10000"
  note name = archive_date_name [OF t(2,1)]
  show "let x = ''audit-'' @ yyyymmdd t @ ''.log''; day = t div (24 * hour) * (24 * hour)
      in (now - days * (24 * hour) \<le> day \<longrightarrow> map_of (files d') x = map_of (files d) x)
       \<and> (day < now - days * (24 * hour) \<longrightarrow> (\<forall>i. disk.faults d i = None) \<longrightarrow> map_of (files d') x = None)"
    unfolding Let_def
  proof (intro conjI impI)
    assume "now - days * (24 * hour) \<le> t div (24 * hour) * (24 * hour)"
    then show "map_of (files d') (''audit-'' @ yyyymmdd t @ ''.log'') = map_of (files d) (''audit-'' @ yyyymmdd t @ ''.log'')"
      by (intro prune_keeps [OF assms]) (simp only: name option.inject)
  next
    assume "t div (24 * hour) * (24 * hour) < now - days * (24 * hour)" "\<forall>i. disk.faults d i = None"
    then show "map_of (files d') (''audit-'' @ yyyymmdd t @ ''.log'') = None" by (intro prune_deletes [OF assms name]) auto
  qed
qed

text \<open>Of the messages that are left when syslog is closed, each is delivered, counted as dropped, or
  still in the queue, where nobody counts it.\<close>

theorem drain_accounts:
  "int (length (delivered (drainRemaining turns s))) + droppedCount (drainRemaining turns s) + int (length (ch (drainRemaining turns s))) =
     int (length (delivered s)) + droppedCount s + int (length (ch s))"
  by (induction turns s rule: drainRemaining.induct) (auto simp: writeWithTimeout_def split: list.split)

text \<open>The cleaning record carries the sequence number 1, however many entries were written before.\<close>

theorem prune_record_seq:
  assumes "marshal_entry J (prune_entry now n) = Some payload" "auditKey l = Some key" "\<not> destroyed key" "\<not> isZero now"
  shows "\<exists>envelope l1. sign_payload payload (l\<lparr>chainSeq := 0\<rparr>) = (Inr envelope, l1) \<and> ChainSeq envelope = 1
    \<and> chainSeq (onPrune J now n l) = chainSeq l"
  using assms by (auto simp: sign_payload_def WithKey_def onPrune_def Let_def split: prod.splits)

text \<open>A negative retention is not refused and puts the limit into the future: the archive of the day
  before is deleted.\<close>

theorem negative_retention:
  assumes "pruneOldFiles now (configured_retention (- 1)) d = (n, d')" "\<And>i. disk.faults d i = None"
    and "24 * hour \<le> now" "fst (civil (nat ((now - 24 * hour) div (24 * hour)))) < 10000"
  shows "map_of (files d') (''audit-'' @ yyyymmdd (now - 24 * hour) @ ''.log'') = None"
proof (rule prune_deletes [OF assms(1)])
  show "archive_date (''audit-'' @ yyyymmdd (now - 24 * hour) @ ''.log'') = Some ((now - 24 * hour) div (24 * hour) * (24 * hour))"
    by (rule archive_date_name [OF assms(4)]) (use assms(3) in simp)
  have "(now - 24 * hour) div (24 * hour) * (24 * hour) \<le> now - 24 * hour"
    using div_mult_mod_eq [of "now - 24 * hour" "24 * hour"] pos_mod_sign [of "24 * hour" "now - 24 * hour"] by linarith
  then show "(now - 24 * hour) div (24 * hour) * (24 * hour) < now - configured_retention (- 1) * (24 * hour)"
    by (simp add: configured_retention_def)
  show "\<And>i. disk.faults d i = None" by (rule assms(2))
qed

text \<open>A directory with the archives of the first and of the hundredth day and a current log.\<close>

definition old_logs :: disk where
  "old_logs = \<lparr>files = [(''audit-'' @ yyyymmdd 0 @ ''.log'', [1]), (''audit-'' @ yyyymmdd (100 * (24 * hour)) @ ''.log'', [2]), (''audit.log'', [3])],
     faults = (\<lambda>_. None), calls = 0\<rparr>"

lemma first_days: "civil 0 = (1, 1, 1)" "civil 100 = (1, 4, 11)"
  by (simp_all add: civil_def month_days_def leap_def)

lemma old_logs_dates:
  "archive_date (''audit-'' @ yyyymmdd 0 @ ''.log'') = Some 0"
  "archive_date (''audit-'' @ yyyymmdd (100 * (24 * hour)) @ ''.log'') = Some (100 * (24 * hour))" "archive_date ''audit.log'' = None"
  subgoal using archive_date_name [of 0] by (simp add: first_days)
  subgoal using archive_date_name [of "100 * (24 * hour)"] by (simp add: first_days)
  by code_simp

theorem retention_kept_witness:
  "\<exists>n d'. pruneOldFiles (200 * (24 * hour)) 180 old_logs = (n, d')
     \<and> map_of (files d') (''audit-'' @ yyyymmdd 0 @ ''.log'') = None
     \<and> map_of (files d') (''audit-'' @ yyyymmdd (100 * (24 * hour)) @ ''.log'') = Some [2] \<and> map_of (files d') ''audit.log'' = Some [3]"
proof -
  obtain n d' where p: "pruneOldFiles (200 * (24 * hour)) 180 old_logs = (n, d')" by (cases "pruneOldFiles (200 * (24 * hour)) 180 old_logs")
  have ne: "''audit-'' @ yyyymmdd 0 @ ''.log'' \<noteq> ''audit-'' @ yyyymmdd (100 * (24 * hour)) @ ''.log''"
    "''audit-'' @ yyyymmdd t @ ''.log'' \<noteq> ''audit.log''" for t
    using old_logs_dates by (metis option.inject zero_neq_numeral mult_eq_0_iff) simp
  have y: "fst (civil (nat (0 div (24 * hour)))) < 10000" "fst (civil (nat (100 * (24 * hour) div (24 * hour)))) < 10000"
    by (simp_all add: first_days)
  note k = retention_kept [OF p]
  have "map_of (files d') (''audit-'' @ yyyymmdd 0 @ ''.log'') = None"
    using k [THEN conjunct2, rule_format, of 0] y(1) by (simp add: Let_def old_logs_def)
  moreover have "map_of (files d') (''audit-'' @ yyyymmdd (100 * (24 * hour)) @ ''.log'') = map_of (files old_logs) (''audit-'' @ yyyymmdd (100 * (24 * hour)) @ ''.log'')"
    using k [THEN conjunct2, rule_format, of "100 * (24 * hour)"] y(2) by (simp add: Let_def)
  moreover have "map_of (files d') ''audit.log'' = map_of (files old_logs) ''audit.log''"
    using k [THEN conjunct1] old_logs_dates(3) by blast
  ultimately show ?thesis using p ne by (simp add: old_logs_def)
qed

end
