(* ===== verification/Spec2Isabelle.thy ===== *)
theory Spec2Isabelle
  imports Backup AuditProps ApiProps Cli Bootstrap Client Rpc Edge Listener
    Scans Legacy Admin Sm2 Pkcs11 Alert Startup Health Retention
begin

text \<open>
  Yvonne is a key management service: it keeps named, versioned data keys wrapped under a master key
  that is in memory only while the vault is unsealed, encrypts and signs with them for authenticated
  callers, and logs every operation in a hash chain. This library models its Go code and proves what
  makes the parts correct. Paths below are relative to \<^verbatim>\<open>src/\<close>; Go's
  \<^verbatim>\<open>internal/\<close> is left out of them.

  \<^bold>\<open>How the parts interact.\<close> \<^verbatim>\<open>seal\<close> splits the master key into shares, collects them, and
  hands a key-encryption key to its callers while unsealed. \<^verbatim>\<open>lifecycle\<close> wraps data keys under
  it and files their versions in \<^verbatim>\<open>storage\<close>, with a cache in front. \<^verbatim>\<open>service\<close> puts the seal
  check, the policy of \<^verbatim>\<open>auth\<close> and the entry of \<^verbatim>\<open>audit\<close> around each operation. Three
  front ends call it: \<^verbatim>\<open>api\<close> (HTTP), \<^verbatim>\<open>grpc\<close> and \<^verbatim>\<open>mcp\<close>; the web console of
  \<^verbatim>\<open>admin\<close> shows the vault and its keys. \<^verbatim>\<open>observability\<close> sends the core's alerts out.
  \<^verbatim>\<open>bootstrap\<close> assembles a server from a validated \<^verbatim>\<open>config\<close>, \<^verbatim>\<open>cmd/yvonne\<close> runs it and
  has the commands around it, and \<^verbatim>\<open>sdk/go\<close> is the client.

  \<^bold>\<open>Conventions.\<close> Structs are records, enumerations datatypes, bytes \<open>8 word\<close>, Go's sized
  integers words where they can overflow and integers where they cannot. An operation that changes
  state takes the state and returns it; errors are values of \<open>err\<close> in the sum type \<open>res\<close>; a
  panic or fatal exit is a value of its own. The random source is a stream of bytes with failures, the
  clock an argument, and every call of the database may fail. Libraries outside the repository
  (AES-GCM, SM4, HMAC, RSA, ECDSA, SM2, JWT parsing, JSON, PKCS#11, BoltDB, Postgres' sessions) are arguments of
  the definitions that use them. The laws theorems need of them are predicates such as \<open>prims_ok\<close>,
  \<open>jwt_ok\<close> and \<open>rsa_ok\<close>, each with a concrete instance that the witnesses use.

  \<^bold>\<open>Theories.\<close>

    \<^item> \<open>Prelude\<close>: results, bytes, reachability and the locale \<open>invariant_system\<close> for invariants of
      step relations. \<open>GoLib\<close>: functions of Go's string and time libraries. \<open>Float64\<close>: rounding of
      \<^verbatim>\<open>float64\<close> with its error bound. \<open>Interpolation\<close>: polynomials over any field.

    \<^item> \<open>Memguard\<close> (\<^verbatim>\<open>memguard\<close>), \<open>GF256\<close> and \<open>Shamir\<close> (\<^verbatim>\<open>seal/shamir.go\<close>), \<open>Kek\<close>
      (\<^verbatim>\<open>seal/kek.go\<close>), \<open>Vault\<close> (\<^verbatim>\<open>seal/state.go\<close>), \<open>Backup\<close>
      (\<^verbatim>\<open>seal/backup.go\<close>), \<open>LocalPki\<close> (\<^verbatim>\<open>seal/local_pki.go\<close>), \<open>Pkcs11\<close>
      (\<^verbatim>\<open>seal/hsm_pkcs11.go\<close>: a token that outlives the process). The log and exponent tables
      are proved equal to the product of the field, from which sharing is proved to recombine and to
      reveal nothing below the threshold; the vault is a step relation with timers, and its memory
      is proved clean in every reachable state.

    \<^item> \<open>Ciphertext\<close>, \<open>Asymmetric\<close> (\<^verbatim>\<open>crypto\<close>): formats, suites and envelopes with their round
      trips; keys, signatures and their encodings. \<open>Sm2\<close> (\<^verbatim>\<open>crypto/sm2*.go\<close> and its callers in
      \<^verbatim>\<open>service\<close> and \<^verbatim>\<open>auth\<close>): the keys of the national suite, and that signatures of all
      three kinds of keys verify through the service.

    \<^item> \<open>KVStore\<close> (\<^verbatim>\<open>storage\<close>: memory and Postgres with transactions), \<open>Lifecycle\<close> (the
      manager of \<^verbatim>\<open>lifecycle/manager.go\<close>), \<open>KeyLifecycle\<close> (its invariant, and the refinement
      of an abstract store of versions), \<open>LifecycleProps\<close> (atomicity, shredding, quota, reaper),
      \<open>Transit\<close> (import of keys), \<open>Daemon\<close> (\<^verbatim>\<open>lifecycle/daemon.go\<close> with the advisory lock of
      \<^verbatim>\<open>storage/pg_locker.go\<close>), \<open>Listener\<close> (\<^verbatim>\<open>storage/pg_listener.go\<close> and the caches of
      nodes that share a store), \<open>Scans\<close> (the scans in one piece against the paged ones), \<open>Health\<close>
      (\<^verbatim>\<open>storage/health.go\<close> and connecting to Postgres), \<open>Legacy\<close> (the older back end of
      \<^verbatim>\<open>storage/boltdb.go\<close> and \<^verbatim>\<open>storage/postgres.go\<close>).

    \<^item> \<open>Auth\<close> (policies, tokens, tenants), \<open>JwtAuth\<close> (\<^verbatim>\<open>auth/jwt_authenticator.go\<close>,
      \<^verbatim>\<open>auth/k8s_authenticator.go\<close>), \<open>Totp\<close>, \<open>Approval\<close> (tickets under every interleaving of
      requests).

    \<^item> \<open>AuditLog\<close> and \<open>AuditProps\<close> (\<^verbatim>\<open>audit\<close>): the chain, rotation of files, syslog, query.
      \<open>Retention\<close>: the cleaning of old archives and the end of the syslog queue.

    \<^item> \<open>Service\<close>, \<open>KeyCache\<close>, \<open>ServiceProps\<close> (\<^verbatim>\<open>service\<close>): every operation of the core,
      what it needs, what it logs, and that ciphertexts outlive any run of operations.

    \<^item> \<open>Http\<close>, \<open>Handlers\<close>, \<open>ApiProps\<close> (\<^verbatim>\<open>api\<close>: responses, middleware, every handler, the
      routes), \<open>Metrics\<close> (\<^verbatim>\<open>metrics/registry.go\<close>), \<open>Edge\<close> (rate limit, CORS, the order of
      checks in \<^verbatim>\<open>V1Router.ServeHTTP\<close>), \<open>Rpc\<close> (\<^verbatim>\<open>grpc\<close> with interceptor and wiping
      codec, and the tools of \<^verbatim>\<open>mcp\<close>), \<open>Admin\<close> (\<^verbatim>\<open>admin\<close>: credentials, pages, key
      ceremony, the proxy to the router).

    \<^item> \<open>Config\<close> (both formats, validation, redaction, reload, TLS), \<open>Cli\<close> (the commands of
      \<^verbatim>\<open>cmd/yvonne/main.go\<close>), \<open>Bootstrap\<close> (assembly in both modes, what the server listens on),
      \<open>Startup\<close> (\<^verbatim>\<open>main\<close> and \<^verbatim>\<open>startYvonne\<close>: the order of start, reload and shutdown, national
      TLS), \<open>Alert\<close> (\<^verbatim>\<open>observability/alerting.go\<close> and the adapter of the core), \<open>Client\<close>
      (\<^verbatim>\<open>sdk/go/yvonne\<close>: requests, retries, circuit breaker).

  \<^bold>\<open>Interfaces.\<close> Contracts between parts are locales, each interpreted on the model's own
  definitions: \<open>invariant_system\<close> (by the vault, the manager, its cache, the approval tickets, the
  health check and the circuit breaker), \<open>kv_store\<close> (by both stores and their transactions),
  \<open>backend\<close> (by both older back ends), \<open>dek_wrapping\<close> (by the software and the HSM key-encryption
  keys and by the PKCS#11 token), \<open>unsealer\<close> and its extension \<open>emergency_unsealer\<close> (by
  the vault and the HSM), \<open>policy_source\<close> and \<open>role_store\<close> (by the two stores of policies). A
  client's lemmas are proved from the laws once.

  \<^bold>\<open>What is proved.\<close> Safety: secrets are wiped and unreachable when they should be, and no front end
  has an effect without an accepted credential, an unsealed vault and a policy that allows it; the
  server stops in order, and cleaning the log keeps what is within the retention.
  Refinement and equivalence: the manager implements a map of versions, table arithmetic the field,
  the code check the set of three windows. Round trips: shares, ciphertexts, signatures, backups, log
  entries, a master key through initialisation and automatic unsealing, and the key ceremony in the
  console. Bounds: requests per client and retries per call. Liveness: rotation of due keys, and
  writes after the store is healthy again. Error behaviour: some theorems show what goes wrong (a
  daemon that crashes while sealed, endpoints that can never answer, keys that survive on other nodes,
  log lines that vanish unnoticed, a reaper whose pages skip entries, a console that shows another
  vault); they state the code as it is.

  \<^bold>\<open>Bounds and fuel.\<close> Loops that have no bound in the source take as many rounds as can make a
  difference: the search for the latest version, the listing and the reaper one more than the entries
  of the store (\<open>KeyLifecycle.version_scan_terminates\<close> shows that more change nothing), the retry
  loop \<open>MaxRetries + 1\<close>. Listener and daemon run over a finite list of events, so that every prefix
  of their run is covered. All other recursion is structural or has a termination proof.

  \<^bold>\<open>Not modelled.\<close> Locks and the memory model: an operation is one atomic step, except where the
  source itself reads, decides and writes separately (tickets, scans, resealing goroutines, the health
  check), which are split into steps. Texts printed for a terminal: usage, shell completion, the
  example keys of \<^verbatim>\<open>cmd/yvonne/cli_extras.go\<close> and the browser it opens. Parsing of flags, and of
  durations inside the JSON decoder, which is a parameter. What the tracing library exports. Generated
  protocol code, benchmark scripts and the example program.
\<close>

end
